(* ===== verification/Prelude.thy ===== *)
theory Prelude
  imports Complex_Main "HOL-Library.AList" "HOL-Library.Sublist"
begin

section \<open>Shared vocabulary of the development\<close>

text \<open>
  JavaScript values as the modelled code sees them, the object operations of the language
  (property read, assignment, deletion, enumeration in insertion order), truthiness, errors
  and promises as values, and the generic list and association-list lemmas the component
  theories share.

  A number is an exact rational: every finite double is one, and the modelled code only
  compares, copies and adds integers that are far below \<open>2 ^ 53\<close>. NaN and the infinities are
  not values of the model. Strings are character lists. An object is the list of its
  properties in insertion order; object keys that look like array indices, which engines
  enumerate first, are not treated specially.
\<close>

subsection \<open>Values\<close>

datatype jsval =
    JUndef
  | JNull
  | JBool bool
  | JNum rat
  | JStr string
  | JArr "jsval list"
  | JObj "(string \<times> jsval) list"

type_synonym jsobj = "(string \<times> jsval) list"

fun truthy :: "jsval \<Rightarrow> bool" where
  "truthy JUndef = False"
| "truthy JNull = False"
| "truthy (JBool b) = b"
| "truthy (JNum n) = (n \<noteq> 0)"
| "truthy (JStr s) = (s \<noteq> [])"
| "truthy (JArr xs) = True"
| "truthy (JObj ps) = True"

text \<open>A field that may be missing, \<open>null\<close>, or hold a value of a known type.\<close>

datatype 'a jsopt = Undefined | Null | Val 'a

definition is_val :: "'a jsopt \<Rightarrow> bool" where
  "is_val x = (case x of Val _ \<Rightarrow> True | _ \<Rightarrow> False)"

definition coalesce_opt :: "'a jsopt \<Rightarrow> 'a \<Rightarrow> 'a" where
  "coalesce_opt x d = (case x of Val v \<Rightarrow> v | _ \<Rightarrow> d)"

lemma is_val_simps [simp]: "is_val (Val v)" "\<not> is_val Undefined" "\<not> is_val Null"
  by (simp_all add: is_val_def)

lemma coalesce_opt_simps [simp]:
  "coalesce_opt (Val v) d = v" "coalesce_opt Undefined d = d" "coalesce_opt Null d = d"
  by (simp_all add: coalesce_opt_def)

text \<open>Reading a property of an object: a missing property reads as \<open>undefined\<close>.\<close>

definition obj_get :: "jsobj \<Rightarrow> string \<Rightarrow> jsval" where
  "obj_get ps k = (case map_of ps k of None \<Rightarrow> JUndef | Some v \<Rightarrow> v)"

definition js_prop :: "jsval \<Rightarrow> string \<Rightarrow> jsval" where
  "js_prop v k = (case v of JObj ps \<Rightarrow> obj_get ps k | _ \<Rightarrow> JUndef)"

text \<open>
  The text of a value in a template string. Fractions, whose shortest decimal form is chosen by
  the engine, are shown as quotients; the code modelled here prints none.
\<close>

fun nat_digits :: "nat \<Rightarrow> string" where
  "nat_digits n =
     (if n < 10 then [''0123456789'' ! n] else nat_digits (n div 10) @ [''0123456789'' ! (n mod 10)])"

declare nat_digits.simps [simp del]

definition int_text :: "int \<Rightarrow> string" where
  "int_text i = (if i < 0 then CHR ''-'' # nat_digits (nat (- i)) else nat_digits (nat i))"

fun js_text :: "jsval \<Rightarrow> string" where
  "js_text JUndef = ''undefined''"
| "js_text JNull = ''null''"
| "js_text (JBool b) = (if b then ''true'' else ''false'')"
| "js_text (JNum n) =
     (let (p, q) = quotient_of n
      in if q = 1 then int_text p else int_text p @ ''/'' @ int_text q)"
| "js_text (JStr s) = s"
| "js_text (JArr xs) =
     drop 1 (concat (map (\<lambda>x. CHR '','' # (if x = JUndef \<or> x = JNull then [] else js_text x)) xs))"
| "js_text (JObj ps) = ''[object Object]''"

text \<open>
  \<open>slice\<close> of the language: positions below zero count from the end, and both positions
  are brought into the list.
\<close>

definition clamp_index :: "nat \<Rightarrow> int \<Rightarrow> nat" where
  "clamp_index n i = (if i < 0 then nat (int n + i) else min n (nat i))"

definition js_slice :: "'a list \<Rightarrow> int \<Rightarrow> int \<Rightarrow> 'a list" where
  "js_slice xs i j =
     (let a = clamp_index (length xs) i; b = clamp_index (length xs) j
      in take (b - a) (drop a xs))"

text \<open>Copying the own properties of one object over another, in their order.\<close>

definition obj_extend :: "('k \<times> 'v) list \<Rightarrow> ('k \<times> 'v) list \<Rightarrow> ('k \<times> 'v) list" where
  "obj_extend a b = fold (\<lambda>p. AList.update (fst p) (snd p)) b a"

subsection \<open>Errors and promises\<close>

datatype js_error =
    TypeError
  | JsError string

text \<open>A settled promise: \<open>Inl\<close> for a rejection, \<open>Inr\<close> for a resolution.\<close>

type_synonym ('e, 'a) promise = "'e + 'a"

fun promise_then :: "('e, 'a) promise \<Rightarrow> ('a \<Rightarrow> ('e, 'b) promise) \<Rightarrow> ('e, 'b) promise" where
  "promise_then (Inl e) f = Inl e"
| "promise_then (Inr a) f = f a"

fun promise_catch :: "('e, 'a) promise \<Rightarrow> ('e \<Rightarrow> ('f, 'a) promise) \<Rightarrow> ('f, 'a) promise" where
  "promise_catch (Inl e) f = f e"
| "promise_catch (Inr a) f = Inr a"

subsection \<open>Collections of rules\<close>

named_theorems js_simps \<open>evaluation rules of the value and object operations\<close>
named_theorems inv_intros \<open>preservation of the component invariants\<close>

subsection \<open>Objects\<close>

lemma obj_get_Nil [simp]: "obj_get [] k = JUndef"
  by (simp add: obj_get_def)

lemma obj_get_Cons [simp]: "obj_get ((k', v) # ps) k = (if k = k' then v else obj_get ps k)"
  by (simp add: obj_get_def)

lemma js_prop_JObj [simp]: "js_prop (JObj ps) k = obj_get ps k"
  by (simp add: js_prop_def)

lemma obj_extend_Nil [simp]: "obj_extend a [] = a"
  by (simp add: obj_extend_def)

lemma obj_extend_Cons [simp]:
  "obj_extend a (p # b) = obj_extend (AList.update (fst p) (snd p) a) b"
  by (simp add: obj_extend_def)

lemma map_of_obj_extend:
  "map_of (obj_extend a b) = map_of a ++ map_of (rev b)"
proof (induction b arbitrary: a)
  case Nil
  then show ?case by simp
next
  case (Cons p b)
  have "map_of (obj_extend a (p # b)) = map_of (AList.update (fst p) (snd p) a) ++ map_of (rev b)"
    using Cons.IH by simp
  also have "\<dots> = (map_of a)(fst p \<mapsto> snd p) ++ map_of (rev b)"
    by (simp add: update_conv')
  finally show ?case by (simp add: map_add_def fun_eq_iff split: option.splits)
qed

lemma map_of_rev_distinct: "distinct (map fst b) \<Longrightarrow> map_of (rev b) = map_of b"
  by (rule map_of_inject_set [THEN iffD2]) (simp_all add: rev_map [symmetric])

lemma map_of_obj_extend_distinct:
  "distinct (map fst b) \<Longrightarrow> map_of (obj_extend a b) = map_of a ++ map_of b"
  by (simp add: map_of_obj_extend map_of_rev_distinct)

lemma obj_get_extend:
  "distinct (map fst b) \<Longrightarrow>
   obj_get (obj_extend a b) k = (if k \<in> fst ` set b then obj_get b k else obj_get a k)"
  by (auto simp: obj_get_def map_of_obj_extend_distinct map_add_def split: option.splits
        dest: map_of_SomeD dest!: map_of_eq_None_iff [THEN iffD1] intro: rev_image_eqI)

lemma distinct_obj_extend:
  "distinct (map fst a) \<Longrightarrow> distinct (map fst (obj_extend a b))"
  by (induction b arbitrary: a) (auto simp: distinct_update)

lemma obj_get_update [simp]:
  "obj_get (AList.update k v ps) k' = (if k' = k then v else obj_get ps k')"
  by (simp add: obj_get_def update_conv')

lemma obj_get_filter:
  "obj_get (filter (\<lambda>p. P (fst p)) ps) k = (if P k then obj_get ps k else JUndef)"
  by (induction ps) auto

lemma update_fresh: "k \<notin> fst ` set m \<Longrightarrow> AList.update k v m = m @ [(k, v)]"
  by (induction m) auto

lemma fold_update_fresh:
  "distinct (map f xs) \<Longrightarrow> f ` set xs \<inter> fst ` set m = {} \<Longrightarrow>
   fold (\<lambda>x. AList.update (f x) (g x)) xs m = m @ map (\<lambda>x. (f x, g x)) xs"
proof (induction xs arbitrary: m)
  case (Cons x xs)
  then have "AList.update (f x) (g x) m = m @ [(f x, g x)]" by (intro update_fresh) auto
  moreover have "f ` set xs \<inter> fst ` set (m @ [(f x, g x)]) = {}" using Cons.prems by auto
  ultimately show ?case using Cons.IH [of "m @ [(f x, g x)]"] Cons.prems by simp
qed simp

lemma fold_update_other:
  "\<forall>x \<in> set xs. f x \<noteq> k \<Longrightarrow>
   map_of (fold (\<lambda>x. AList.update (f x) (g x)) xs m) k = map_of m k"
  by (induction xs arbitrary: m) (auto simp: update_conv')

lemma fold_update_lookup:
  "\<forall>x \<in> set xs. f x = k \<longrightarrow> g x = v \<Longrightarrow> k \<in> f ` set xs \<Longrightarrow>
   map_of (fold (\<lambda>x. AList.update (f x) (g x)) xs m) k = Some v"
proof (induction xs arbitrary: m)
  case (Cons x xs)
  show ?case
  proof (cases "k \<in> f ` set xs")
    case False
    then have "\<forall>x \<in> set xs. f x \<noteq> k" by (metis image_eqI)
    moreover from False Cons.prems have "f x = k" by simp
    ultimately show ?thesis using Cons.prems(1) by (simp add: fold_update_other update_conv')
  qed (use Cons in simp)
qed simp

lemmas obj_simps = obj_get_extend obj_get_update obj_get_filter

subsection \<open>Lists\<close>

lemma js_slice_nat: "js_slice xs (int a) (int b) = take (b - a) (drop a xs)"
  by (cases "length xs \<le> a"; cases "length xs \<le> b")
    (auto simp: js_slice_def clamp_index_def Let_def min_def)

lemma map_snd_enumerate_comp [simp]: "map (\<lambda>p. f (snd p)) (enumerate n xs) = map f xs"
proof -
  have "map f (map snd (enumerate n xs)) = map f xs" by simp
  then show ?thesis by (simp only: map_map comp_def)
qed

lemma map_of_filter_key:
  "map_of (filter (\<lambda>p. P (fst p)) ps) k = (if P k then map_of ps k else None)"
  by (induction ps) auto

lemma find_Some_iff': "List.find P xs = Some x \<Longrightarrow> x \<in> set xs \<and> P x"
  by (induction xs) (auto split: if_splits)

lemma find_None_iff': "List.find P xs = None \<longleftrightarrow> (\<forall>x\<in>set xs. \<not> P x)"
  by (auto simp: find_None_iff)

lemma take_add_slice: "take n (drop m xs) @ drop (m + n) xs = drop m xs"
  by (metis add.commute append_take_drop_id drop_drop)

subsection \<open>Systems with an invariant\<close>

text \<open>
  The interface of a state machine: whatever its steps are, an invariant they keep holds wherever
  they lead. The components give their step relations and invariants, and prove the law.
\<close>

locale invariant_system =
  fixes step :: "'s \<Rightarrow> 's \<Rightarrow> bool" and inv :: "'s \<Rightarrow> bool"
  assumes inv_step: "step s t \<Longrightarrow> inv s \<Longrightarrow> inv t"
begin

lemma inv_steps: "step\<^sup>*\<^sup>* s t \<Longrightarrow> inv s \<Longrightarrow> inv t"
  by (induction rule: rtranclp_induct) (blast intro: inv_step)+

end

locale started_system = invariant_system +
  fixes start :: 's
  assumes inv_start: "inv start"
begin

lemma inv_reachable: "step\<^sup>*\<^sup>* start s \<Longrightarrow> inv s"
  by (rule inv_steps [OF _ inv_start])

end

end
