(* ===== verification/Utils.thy ===== *)
theory Utils
  imports Prelude "HOL-Library.Word" "HOL-Library.Char_ord" "HOL-Library.List_Lexorder"
begin

unbundle bit_operations_syntax

section \<open>General helpers: web/js/utils.js\<close>

text \<open>
  The helpers every other component calls: null tests and \<open>coalesce\<close>, the reading of numbers
  from text, the recursive clean-up of JSON values, string replacement, colour parsing,
  set comparison, \<open>promiseFinally\<close> and the delayed loop.
\<close>

subsection \<open>Null tests and coalescing\<close>

definition isUndefinedOrNull :: "jsval \<Rightarrow> bool" where
  "isUndefinedOrNull v = (v = JUndef \<or> v = JNull)"

definition isDefinedAndNotNull :: "jsval \<Rightarrow> bool" where
  "isDefinedAndNotNull v = (\<not> isUndefinedOrNull v)"

fun isJsObject :: "jsval \<Rightarrow> bool" where
  "isJsObject (JObj ps) = True"
| "isJsObject _ = False"

definition coalesce :: "jsval list \<Rightarrow> jsval" where
  "coalesce args = (case List.find isDefinedAndNotNull args of None \<Rightarrow> JUndef | Some a \<Rightarrow> a)"

definition ignoreBlanks :: "jsval \<Rightarrow> jsval" where
  "ignoreBlanks v = (if v = JStr [] then JNull else v)"

text \<open>\<open>indexOf\<close> of the language: the first position of a substring, or \<open>-1\<close>.\<close>

fun indexOf :: "'a list \<Rightarrow> 'a list \<Rightarrow> int" where
  "indexOf base search =
     (if prefix search base then 0
      else case base of
        [] \<Rightarrow> -1
      | c # rest \<Rightarrow> (let i = indexOf rest search in if i < 0 then -1 else i + 1))"

declare indexOf.simps [simp del]

definition startsWith :: "string \<Rightarrow> string \<Rightarrow> bool" where
  "startsWith base search = (indexOf base search = 0)"

lemma indexOf_lower: "-1 \<le> indexOf base search"
  by (induction base search rule: indexOf.induct)
    (subst indexOf.simps, auto simp: Let_def split: list.split)

lemma startsWith_iff_prefix: "startsWith base search \<longleftrightarrow> prefix search base"
proof (cases base)
  case Nil
  then show ?thesis by (simp add: startsWith_def indexOf.simps [of "[]"])
next
  case (Cons c rest)
  with indexOf_lower [of rest search] show ?thesis
    by (auto simp: startsWith_def indexOf.simps [of "c # rest"] Let_def)
qed

definition isPositiveInteger :: "jsval \<Rightarrow> bool" where
  "isPositiveInteger v =
     (case v of JNum n \<Rightarrow> n = of_int (floor n) \<and> 0 \<le> n \<and> n < 10 ^ 21 | _ \<Rightarrow> False)"

lemma isUndefinedOrNull_simps [simp]:
  "isUndefinedOrNull JUndef" "isUndefinedOrNull JNull" "\<not> isUndefinedOrNull (JBool b)"
  "\<not> isUndefinedOrNull (JNum n)" "\<not> isUndefinedOrNull (JStr s)"
  "\<not> isUndefinedOrNull (JArr xs)" "\<not> isUndefinedOrNull (JObj ps)"
  by (simp_all add: isUndefinedOrNull_def)

lemma isDefinedAndNotNull_simps [simp]:
  "\<not> isDefinedAndNotNull JUndef" "\<not> isDefinedAndNotNull JNull" "isDefinedAndNotNull (JBool b)"
  "isDefinedAndNotNull (JNum n)" "isDefinedAndNotNull (JStr s)"
  "isDefinedAndNotNull (JArr xs)" "isDefinedAndNotNull (JObj ps)"
  by (simp_all add: isDefinedAndNotNull_def)

lemma coalesce_simps [simp]:
  "coalesce [] = JUndef"
  "coalesce (a # as) = (if isDefinedAndNotNull a then a else coalesce as)"
  by (simp_all add: coalesce_def)

lemma coalesce_defined: "isDefinedAndNotNull (coalesce as) \<or> coalesce as = JUndef"
  by (induction as) auto

subsection \<open>Numbers read from text\<close>

text \<open>
  \<open>maybeAsNumber\<close> keeps a value unless \<open>_.isFinite\<close> accepts it, and then takes
  \<open>parseFloat\<close> of it. \<open>_.isFinite\<close> (underscore 1.12) asks that \<open>Number(text)\<close> is finite
  and that \<open>parseFloat(text)\<close> is a number: blank text is \<open>0\<close> for the first and not a
  number for the second, and a literal with a radix prefix is finite for the first while
  \<open>parseFloat\<close> reads only its leading zero. The decimal value is kept exact, the rounding to
  the nearest double is not modelled; a magnitude that rounds to infinity is not finite.
\<close>

definition is_ws :: "char \<Rightarrow> bool" where
  "is_ws c = (of_char c \<in> {9, 10, 11, 12, 13, 32, 160 :: int})"

definition trim :: "string \<Rightarrow> string" where
  "trim s = rev (dropWhile is_ws (rev (dropWhile is_ws s)))"

definition is_digit :: "char \<Rightarrow> bool" where
  "is_digit c = (48 \<le> (of_char c :: int) \<and> (of_char c :: int) \<le> 57)"

definition hex_val :: "char \<Rightarrow> int option" where
  "hex_val c =
     (let n = of_char c in
      if 48 \<le> n \<and> n \<le> 57 then Some (n - 48)
      else if 97 \<le> n \<and> n \<le> 102 then Some (n - 87)
      else if 65 \<le> n \<and> n \<le> 70 then Some (n - 55)
      else None)"

definition digits_val :: "int \<Rightarrow> string \<Rightarrow> int" where
  "digits_val base s =
     foldl (\<lambda>a c. base * a + (case hex_val c of None \<Rightarrow> 0 | Some d \<Rightarrow> d)) 0 s"

text \<open>
  The order in which an object lists its own properties: first those whose names are the indices of an array, as
  numbers, then the others in the order they were added.
\<close>

definition is_array_index :: "string \<Rightarrow> bool" where
  "is_array_index k =
     (k \<noteq> [] \<and> list_all is_digit k \<and> (hd k \<noteq> CHR ''0'' \<or> length k = 1) \<and> digits_val 10 k < 2 ^ 32 - 1)"

definition property_order :: "(string \<times> 'v) list \<Rightarrow> (string \<times> 'v) list" where
  "property_order ps =
     sort_key (\<lambda>p. digits_val 10 (fst p)) (filter (\<lambda>p. is_array_index (fst p)) ps)
     @ filter (\<lambda>p. \<not> is_array_index (fst p)) ps"

lemma property_order_names: "list_all (\<lambda>p. \<not> is_array_index (fst p)) ps \<Longrightarrow> property_order ps = ps"
  by (simp add: property_order_def list_all_iff filter_empty_conv)

text \<open>The exponent part of a decimal literal, which must end the text.\<close>

definition parse_exponent :: "string \<Rightarrow> int option" where
  "parse_exponent s =
     (case s of
        [] \<Rightarrow> Some 0
      | e # r \<Rightarrow>
          if e = CHR ''e'' \<or> e = CHR ''E'' then
            (let (neg, ds) =
               (case r of
                  c # r' \<Rightarrow> if c = CHR ''-'' then (True, r') else if c = CHR ''+'' then (False, r') else (False, r)
                | [] \<Rightarrow> (False, []))
             in if ds \<noteq> [] \<and> list_all is_digit ds
                then Some (if neg then - digits_val 10 ds else digits_val 10 ds)
                else None)
          else None)"

definition scale10 :: "rat \<Rightarrow> int \<Rightarrow> rat" where
  "scale10 m e = (if 0 \<le> e then m * 10 ^ nat e else m / 10 ^ nat (- e))"

definition parse_unsigned :: "string \<Rightarrow> rat option" where
  "parse_unsigned s =
     (let ip = takeWhile is_digit s; r = dropWhile is_digit s;
          (fp, r2) =
            (case r of
               c # r' \<Rightarrow> if c = CHR ''.'' then (takeWhile is_digit r', dropWhile is_digit r') else ([], r)
             | [] \<Rightarrow> ([], []))
      in if ip = [] \<and> fp = [] then None
         else map_option
           (\<lambda>e. scale10 (of_int (digits_val 10 (ip @ fp))) (e - int (length fp)))
           (parse_exponent r2))"

definition parse_decimal :: "string \<Rightarrow> rat option" where
  "parse_decimal s =
     (case s of
        c # r \<Rightarrow>
          if c = CHR ''-'' then map_option uminus (parse_unsigned r)
          else if c = CHR ''+'' then parse_unsigned r
          else parse_unsigned s
      | [] \<Rightarrow> None)"

text \<open>The least magnitude that rounds to infinity.\<close>

definition double_limit :: rat where
  "double_limit = 2 ^ 1024 - 2 ^ 970"

lemma double_limit_code [code]: "double_limit = 179769313486231580793728971405303415079934132710037826936173778980444968292764750946649017977587207096330286416692887910946555547851940402630657488671505820681908902000708383676273854845817711531764475730270069855571366959622842914819860834936475292719074168444365510704342711559699508093042880177904174497792"
  by (simp add: double_limit_def)

definition is_radix_literal :: "string \<Rightarrow> bool" where
  "is_radix_literal s =
     (case s of
        z # x # ds \<Rightarrow>
          z = CHR ''0'' \<and> ds \<noteq> [] \<and>
          (let base =
             (if x \<in> {CHR ''x'', CHR ''X''} then 16
              else if x \<in> {CHR ''o'', CHR ''O''} then 8
              else if x \<in> {CHR ''b'', CHR ''B''} then 2 else 0 :: int)
           in list_all (\<lambda>d. case hex_val d of None \<Rightarrow> False | Some v \<Rightarrow> v < base) ds \<and>
              of_int (digits_val base ds) < double_limit)
      | _ \<Rightarrow> False)"

definition number_of_text :: "string \<Rightarrow> rat option" where
  "number_of_text s =
     (let t = trim s in
      if is_radix_literal t then Some 0
      else case parse_decimal t of
        None \<Rightarrow> None
      | Some q \<Rightarrow> if \<bar>q\<bar> < double_limit then Some q else None)"

text \<open>An array is read as the text of its elements: only one element can make a number.\<close>

fun finite_number :: "jsval \<Rightarrow> rat option" where
  "finite_number (JNum n) = Some n"
| "finite_number (JStr s) = number_of_text s"
| "finite_number (JArr [v]) = finite_number v"
| "finite_number _ = None"

definition maybeAsNumber :: "jsval \<Rightarrow> jsval" where
  "maybeAsNumber text = (case finite_number text of None \<Rightarrow> text | Some n \<Rightarrow> JNum n)"

lemma maybeAsNumber_JNum [simp]: "maybeAsNumber (JNum n) = JNum n"
  by (simp add: maybeAsNumber_def)

lemma maybeAsNumber_idem [simp]: "maybeAsNumber (maybeAsNumber v) = maybeAsNumber v"
  by (auto simp: maybeAsNumber_def split: option.splits)

lemma maybeAsNumber_undef_iff [simp]:
  "isUndefinedOrNull (maybeAsNumber v) \<longleftrightarrow> isUndefinedOrNull v"
  by (cases v) (auto simp: maybeAsNumber_def split: option.splits)

subsection \<open>Cleaning JSON values\<close>

fun isNothing :: "jsval \<Rightarrow> bool" where
  "isNothing (JArr xs) = (xs = [])"
| "isNothing (JObj ps) = (ps = [])"
| "isNothing v = isUndefinedOrNull v"

definition isNotNothing :: "jsval \<Rightarrow> bool" where
  "isNotNothing v = (\<not> isNothing v)"

fun recursivelyCondenseObject :: "jsval \<Rightarrow> jsval" where
  "recursivelyCondenseObject (JArr xs) =
     JArr (filter isNotNothing (map recursivelyCondenseObject xs))"
| "recursivelyCondenseObject (JObj ps) =
     JObj (filter (\<lambda>p. isNotNothing (snd p))
       (map (\<lambda>p. (fst p, recursivelyCondenseObject (snd p))) ps))"
| "recursivelyCondenseObject v = v"

fun recursivelyOmitKeys :: "jsval \<Rightarrow> string list \<Rightarrow> jsval" where
  "recursivelyOmitKeys (JArr xs) keys = JArr (map (\<lambda>v. recursivelyOmitKeys v keys) xs)"
| "recursivelyOmitKeys (JObj ps) keys =
     JObj (map (\<lambda>p. (fst p, recursivelyOmitKeys (snd p) keys))
       (filter (\<lambda>p. fst p \<notin> set keys) ps))"
| "recursivelyOmitKeys v keys = v"

text \<open>What is left of a value that is written as JSON and read again, and the copy made in this way.\<close>

fun json_clean :: "jsval \<Rightarrow> jsval" where
  "json_clean (JArr xs) = JArr (map (\<lambda>x. if x = JUndef then JNull else json_clean x) xs)"
| "json_clean (JObj ps) = JObj (map (\<lambda>(k, v). (k, json_clean v)) (filter (\<lambda>p. snd p \<noteq> JUndef) ps))"
| "json_clean v = v"

definition deepCopyJson :: "jsval \<Rightarrow> jsval" where
  "deepCopyJson v = (if isUndefinedOrNull v then v else json_clean v)"

lemma map_of_map_snd: "map_of (map (\<lambda>(k, v). (k, f v)) ps) k = map_option f (map_of ps k)"
  by (induction ps) auto

lemma map_of_filter_snd:
  "distinct (map fst ps) \<Longrightarrow> map_of (filter (\<lambda>p. Q (snd p)) ps) k =
    (case map_of ps k of None \<Rightarrow> None | Some v \<Rightarrow> if Q v then Some v else None)"
proof (induction ps)
  case (Cons p ps)
  have "map_of ps (fst p) = None" using Cons.prems by (simp add: map_of_eq_None_iff)
  then show ?case using Cons by auto
qed simp

lemma obj_get_clean:
  "distinct (map fst ps) \<Longrightarrow> js_prop (json_clean (JObj ps)) k = json_clean (obj_get ps k)"
  unfolding json_clean.simps js_prop_JObj obj_get_def map_of_map_snd
  by (simp add: map_of_filter_snd [where Q = "\<lambda>v. v \<noteq> JUndef"] split: option.splits)

text \<open>A value with no empty part below its root, and the keys a value uses at any depth.\<close>

fun condensed :: "jsval \<Rightarrow> bool" where
  "condensed (JArr xs) = (\<forall>v\<in>set xs. isNotNothing v \<and> condensed v)"
| "condensed (JObj ps) = (\<forall>p\<in>set ps. isNotNothing (snd p) \<and> condensed (snd p))"
| "condensed v = True"

fun deep_keys :: "jsval \<Rightarrow> string set" where
  "deep_keys (JArr xs) = (\<Union>v\<in>set xs. deep_keys v)"
| "deep_keys (JObj ps) = (\<Union>p\<in>set ps. insert (fst p) (deep_keys (snd p)))"
| "deep_keys v = {}"

lemma condense_condensed: "condensed (recursivelyCondenseObject v)"
  by (induction v rule: recursivelyCondenseObject.induct) auto

lemma condensed_fixed: "condensed v \<Longrightarrow> recursivelyCondenseObject v = v"
proof (induction v rule: recursivelyCondenseObject.induct)
  case (1 xs)
  then have "map recursivelyCondenseObject xs = xs"
    by (simp add: map_idI)
  with "1.prems" show ?case by simp
next
  case (2 ps)
  have "map (\<lambda>p. (fst p, recursivelyCondenseObject (snd p))) ps = ps"
    using "2.IH" "2.prems" by (intro map_idI) (auto simp: prod_eq_iff)
  with "2.prems" show ?case by (simp add: filter_True)
qed auto

lemma omit_no_keys: "deep_keys (recursivelyOmitKeys v keys) \<inter> set keys = {}"
  by (induction v keys rule: recursivelyOmitKeys.induct) auto

lemma omit_fixed: "deep_keys v \<inter> set keys = {} \<Longrightarrow> recursivelyOmitKeys v keys = v"
proof (induction v keys rule: recursivelyOmitKeys.induct)
  case (1 xs keys)
  have "\<forall>v\<in>set xs. deep_keys v \<inter> set keys = {}" using "1.prems" by auto
  with "1.IH" show ?case by (simp add: map_idI)
next
  case (2 ps keys)
  have keep: "filter (\<lambda>p. fst p \<notin> set keys) ps = ps"
    using "2.prems" by (intro filter_True) auto
  have "recursivelyOmitKeys (snd p) keys = snd p" if p: "p \<in> set ps" for p
  proof (rule "2.IH")
    show "p \<in> set (filter (\<lambda>p. fst p \<notin> set keys) ps)" by (simp only: keep p)
    show "deep_keys (snd p) \<inter> set keys = {}" using "2.prems" p by auto
  qed
  then show ?case by (simp add: keep map_idI)
qed auto

subsection \<open>Replacing text\<close>

text \<open>\<open>split\<close> and \<open>join\<close> of the language. An empty separator splits into characters.\<close>

function split_at :: "string \<Rightarrow> string \<Rightarrow> string \<Rightarrow> string list" where
  "split_at sep acc s =
     (if sep \<noteq> [] \<and> prefix sep s then acc # split_at sep [] (drop (length sep) s)
      else case s of [] \<Rightarrow> [acc] | c # r \<Rightarrow> split_at sep (acc @ [c]) r)"
  by pat_completeness auto
termination
  by (relation "measure (\<lambda>(sep, acc, s). length s)") (auto simp: prefix_def)

declare split_at.simps [simp del]

definition js_split :: "string \<Rightarrow> string \<Rightarrow> string list" where
  "js_split text sep = (if sep = [] then map (\<lambda>c. [c]) text else split_at sep [] text)"

fun js_join :: "string \<Rightarrow> string list \<Rightarrow> string" where
  "js_join sep [] = []"
| "js_join sep [x] = x"
| "js_join sep (x # xs) = x @ sep @ js_join sep xs"

definition replaceAll :: "string \<Rightarrow> string \<Rightarrow> string \<Rightarrow> string" where
  "replaceAll text search replaceWith = js_join replaceWith (js_split text search)"

text \<open>The intended meaning: every occurrence from the left, without overlaps.\<close>

function replace_occurrences :: "string \<Rightarrow> string \<Rightarrow> string \<Rightarrow> string" where
  "replace_occurrences search r s =
     (if search \<noteq> [] \<and> prefix search s
      then r @ replace_occurrences search r (drop (length search) s)
      else case s of [] \<Rightarrow> [] | c # rest \<Rightarrow> c # replace_occurrences search r rest)"
  by pat_completeness auto
termination
  by (relation "measure (\<lambda>(search, r, s). length s)") (auto simp: prefix_def)

declare replace_occurrences.simps [simp del]

lemma split_at_steps:
  "sep \<noteq> [] \<Longrightarrow> prefix sep s \<Longrightarrow> split_at sep acc s = acc # split_at sep [] (drop (length sep) s)"
  "split_at sep acc [] = [acc]"
  "sep = [] \<or> \<not> prefix sep (c # r) \<Longrightarrow> split_at sep acc (c # r) = split_at sep (acc @ [c]) r"
  by (subst split_at.simps, auto)+

lemma replace_occurrences_steps:
  "search \<noteq> [] \<Longrightarrow> prefix search s \<Longrightarrow>
   replace_occurrences search r s = r @ replace_occurrences search r (drop (length search) s)"
  "replace_occurrences search r [] = []"
  "search = [] \<or> \<not> prefix search (c # s) \<Longrightarrow>
   replace_occurrences search r (c # s) = c # replace_occurrences search r s"
  by (subst replace_occurrences.simps, auto)+

lemma split_at_not_Nil [simp]: "split_at sep acc s \<noteq> []"
proof (induction sep acc s rule: split_at.induct)
  case (1 sep acc s)
  then show ?case by (subst split_at.simps) (auto split: list.split)
qed

lemma js_join_Cons: "xs \<noteq> [] \<Longrightarrow> js_join sep (x # xs) = x @ sep @ js_join sep xs"
  by (cases xs) auto

lemma join_split_at:
  "sep \<noteq> [] \<Longrightarrow> js_join r (split_at sep acc s) = acc @ replace_occurrences sep r s"
proof (induction sep acc s rule: split_at.induct)
  case (1 sep acc s)
  show ?case
  proof (cases "prefix sep s")
    case True
    with 1 show ?thesis by (simp add: split_at_steps replace_occurrences_steps js_join_Cons)
  next
    case False
    with 1 show ?thesis by (cases s) (auto simp: split_at_steps replace_occurrences_steps)
  qed
qed

lemma replace_same: "r = search \<Longrightarrow> replace_occurrences search r s = s"
proof (induction search r s rule: replace_occurrences.induct)
  case (1 search r s)
  show ?case
  proof (cases "search \<noteq> [] \<and> prefix search s")
    case True
    with 1 have "replace_occurrences search r s = search @ drop (length search) s"
      by (simp add: replace_occurrences_steps)
    with True show ?thesis by (auto simp: prefix_def)
  next
    case False
    with 1 show ?thesis by (cases s) (auto simp: replace_occurrences_steps)
  qed
qed

subsection \<open>Colours\<close>

record rgb =
  red :: "32 word"
  green :: "32 word"
  blue :: "32 word"

text \<open>
  The pattern is a hash sign and six hexadecimal digits; \<open>parseInt(_, 16)\<close> of those is
  below \<open>2 ^ 24\<close>, and the channels are cut out with the bitwise operators, which work on
  32-bit signed integers (\<open>>>\<close> keeps the sign).
\<close>

definition is_hex :: "char \<Rightarrow> bool" where
  "is_hex c = (hex_val c \<noteq> None)"

definition matches_color_hex :: "string \<Rightarrow> bool" where
  "matches_color_hex s =
     (case s of [] \<Rightarrow> False | c # r \<Rightarrow> c = CHR ''#'' \<and> length r = 6 \<and> list_all is_hex r)"

definition colorHexToRGB :: "jsval \<Rightarrow> js_error + rgb" where
  "colorHexToRGB hex =
     (case hex of
        JUndef \<Rightarrow> Inl (JsError ''Invalid color hex: undefined'')
      | JNull \<Rightarrow> Inl (JsError ''Invalid color hex: null'')
      | JStr s \<Rightarrow>
          if \<not> matches_color_hex s then Inl (JsError (''Invalid color hex: '' @ s))
          else (let int32Value = (word_of_int (digits_val 16 (drop 1 s)) :: 32 word) in
            Inr \<lparr>red = signed_drop_bit 16 (0xff0000 AND int32Value),
                 green = signed_drop_bit 8 (0x00ff00 AND int32Value),
                 blue = 0x0000ff AND int32Value\<rparr>)
      | _ \<Rightarrow> Inl TypeError)"

lemma color_masks: "(0xff0000::32 word) = push_bit 16 (mask 8)" "(0x00ff00::32 word) = push_bit 8 (mask 8)" "(0x0000ff::32 word) = mask 8"
  by (simp_all add: mask_eq_exp_minus_1)
lemma channel_bits:
  fixes w :: "32 word"
  shows "signed_drop_bit 16 (0xff0000 AND w) = take_bit 8 (drop_bit 16 w)"
    "signed_drop_bit 8 (0x00ff00 AND w) = take_bit 8 (drop_bit 8 w)"
    "0x0000ff AND w = take_bit 8 (drop_bit 0 w)"
  unfolding color_masks by (rule bit_word_eqI, auto simp: bit_simps)+
lemma channel_value:
  assumes "0 \<le> n" "n < 2 ^ 32"
  shows "uint (take_bit 8 (drop_bit k (word_of_int n :: 32 word))) = (n div 2 ^ k) mod 256"
  by (simp only: unsigned_take_bit_eq unsigned_drop_bit_eq uint_word_of_int_eq)
    (use assms in \<open>simp add: take_bit_eq_mod drop_bit_eq_div\<close>)
lemma hex_val_range: "hex_val c = Some x \<Longrightarrow> 0 \<le> x \<and> x < 16"
  by (auto simp: hex_val_def Let_def split: if_splits)
lemma byte_split:
  fixes r g b :: int
  assumes "0 \<le> r" "r < 256" "0 \<le> g" "g < 256" "0 \<le> b" "b < 256" "n = 65536 * r + 256 * g + b"
  shows "0 \<le> n" "n < 2 ^ 32" "(n div 2 ^ 16) mod 256 = r" "(n div 2 ^ 8) mod 256 = g" "(n div 2 ^ 0) mod 256 = b"
proof -
  have "n div 65536 = r"
    by (rule int_div_pos_eq [where r = "256 * g + b"]) (use assms in auto)
  moreover have "n div 256 = 256 * r + g"
    by (rule int_div_pos_eq [where r = b]) (use assms in auto)
  moreover have "n mod 256 = b"
    by (rule int_mod_pos_eq [where q = "256 * r + g"]) (use assms in auto)
  ultimately show "0 \<le> n" "n < 2 ^ 32" "(n div 2 ^ 16) mod 256 = r" "(n div 2 ^ 8) mod 256 = g"
    "(n div 2 ^ 0) mod 256 = b"
    using assms by auto
qed

text \<open>a colour of six hexadecimal digits is split into the byte of each pair of digits,
  whatever the case of the letters: the masks and signed shifts lose nothing.\<close>

lemma colorHexToRGB_channels:
  assumes "map hex_val [a, b, c, d, e, f] = map Some [x1, x2, x3, x4, x5, x6]"
  shows "\<exists>col. colorHexToRGB (JStr (''#'' @ [a, b, c, d, e, f])) = Inr col \<and>
    uint (red col) = 16 * x1 + x2 \<and> uint (green col) = 16 * x3 + x4 \<and>
    uint (blue col) = 16 * x5 + x6"
proof -
  let ?n = "digits_val 16 [a, b, c, d, e, f]"
  have range: "0 \<le> x1" "x1 < 16" "0 \<le> x2" "x2 < 16" "0 \<le> x3" "x3 < 16"
    "0 \<le> x4" "x4 < 16" "0 \<le> x5" "x5 < 16" "0 \<le> x6" "x6 < 16"
    using assms hex_val_range by auto
  have n: "?n = 65536 * (16 * x1 + x2) + 256 * (16 * x3 + x4) + (16 * x5 + x6)"
    using assms by (simp add: digits_val_def)
  have m: "matches_color_hex (''#'' @ [a, b, c, d, e, f])"
    using assms by (simp add: matches_color_hex_def is_hex_def)
  note parts = byte_split [OF _ _ _ _ _ _ n]
  show ?thesis
    using range parts m
    by (simp add: colorHexToRGB_def Let_def channel_bits channel_value [simplified] channel_value [where k = 0, simplified])
qed

theorem colorHexToRGB_channels_witness:
  "\<exists>col. colorHexToRGB (JStr (''#'' @ ''1a2B3c'')) = Inr col \<and>
    uint (red col) = 26 \<and> uint (green col) = 43 \<and> uint (blue col) = 60"
proof -
  have "map hex_val ''1a2B3c'' = map Some [1, 10, 2, 11, 3, 12]" by (simp add: hex_val_def)
  from colorHexToRGB_channels [OF this] show ?thesis by simp
qed

subsection \<open>Comparing collections\<close>

text \<open>
  \<open>toSet\<close> builds an object with a property per image of the iteratee, so a repeated element
  is stored once; \<open>_.isEqual\<close> on two such objects compares them property by property.
\<close>

definition toSet :: "('a \<Rightarrow> string) \<Rightarrow> 'a list \<Rightarrow> (string \<times> bool) list" where
  "toSet iteratee data = obj_extend [] (map (\<lambda>item. (iteratee item, True)) data)"

definition is_equal_obj :: "('k \<times> 'v) list \<Rightarrow> ('k \<times> 'v) list \<Rightarrow> bool" where
  "is_equal_obj a b =
     (length a = length b \<and> (\<forall>p\<in>set a. map_of b (fst p) = Some (snd p)))"

definition areSetsEqual :: "('a \<Rightarrow> string) \<Rightarrow> 'a list \<Rightarrow> 'a list \<Rightarrow> bool" where
  "areSetsEqual iteratee lhs rhs = is_equal_obj (toSet iteratee lhs) (toSet iteratee rhs)"

lemma toSet_distinct: "distinct (map fst (toSet f xs))"
  by (simp add: toSet_def distinct_obj_extend)

lemma map_of_toSet: "map_of (toSet f xs) = (\<lambda>k. if k \<in> f ` set xs then Some True else None)"
proof
  fix k
  have "map_of (rev (map (\<lambda>x. (f x, True)) xs)) k = (if k \<in> f ` set xs then Some True else None)"
    by (induction xs) (auto simp: map_add_def split: option.splits)
  then show "map_of (toSet f xs) k = (if k \<in> f ` set xs then Some True else None)"
    by (simp add: toSet_def map_of_obj_extend)
qed

lemma is_equal_obj_iff:
  assumes "distinct (map fst a)" and "distinct (map fst b)"
  shows "is_equal_obj a b \<longleftrightarrow> map_of a = map_of b"
proof
  assume eq: "is_equal_obj a b"
  have sub: "set a \<subseteq> set b"
  proof
    fix p assume "p \<in> set a"
    with eq have "map_of b (fst p) = Some (snd p)" by (simp add: is_equal_obj_def)
    then show "p \<in> set b" using map_of_SomeD by fastforce
  qed
  have "card (set b) \<le> card (set a)"
    using eq assms by (simp add: is_equal_obj_def distinct_card distinct_map)
  then have "set a = set b" using sub by (intro card_seteq) auto
  with assms show "map_of a = map_of b" by (intro map_of_inject_set [THEN iffD2])
next
  assume eq: "map_of a = map_of b"
  with assms have "set a = set b" by (simp add: map_of_inject_set)
  with assms have "length a = length b" by (metis distinct_card distinct_map)
  moreover have "\<forall>p\<in>set a. map_of b (fst p) = Some (snd p)"
    using assms(2) \<open>set a = set b\<close> by (metis map_of_is_SomeI prod.collapse)
  ultimately show "is_equal_obj a b" by (simp add: is_equal_obj_def)
qed

text \<open>\<open>areSetsEqual\<close> decides equality of the sets of images, whatever the order
  and the repetitions of the two lists.\<close>

theorem areSetsEqual_iff: "areSetsEqual f lhs rhs \<longleftrightarrow> f ` set lhs = f ` set rhs"
proof -
  have "areSetsEqual f lhs rhs \<longleftrightarrow> map_of (toSet f lhs) = map_of (toSet f rhs)"
    by (simp add: areSetsEqual_def is_equal_obj_iff toSet_distinct)
  also have "\<dots> \<longleftrightarrow> f ` set lhs = f ` set rhs"
    unfolding map_of_toSet fun_eq_iff set_eq_iff by (metis option.distinct(1))
  finally show ?thesis .
qed


subsection \<open>Natural comparison of strings\<close>

text \<open>
  \<open>natural-compare-lite\<close> is a package outside the repository and a parameter here.
  The guard of the code calls \<open>_.map(isUndefinedOrNull, [a, b])\<close> with its two arguments the
  wrong way round: underscore treats the function, whose \<open>length\<close> is 1, as an array of one
  missing element and the pair as a property path, so the result is the list of one
  \<open>undefined\<close> whatever \<open>a\<close> and \<open>b\<close> are, and the branch for missing arguments is never taken.
\<close>

definition lower_char :: "char \<Rightarrow> char" where
  "lower_char c =
     (let n = (of_char c :: nat) in if 65 \<le> n \<and> n \<le> 90 then char_of (n + 32) else c)"

definition toLowerCase :: "string \<Rightarrow> string" where
  "toLowerCase s = map lower_char s"

definition undefinedArgs :: "jsval \<Rightarrow> jsval \<Rightarrow> jsval list" where
  "undefinedArgs a b = [JUndef]"

definition naturalStringCompare ::
  "(string \<Rightarrow> string \<Rightarrow> int) \<Rightarrow> jsval \<Rightarrow> jsval \<Rightarrow> js_error + int" where
  "naturalStringCompare naturalCompare a b =
     (if list_ex truthy (undefinedArgs a b) then Inr 0
      else case (a, b) of
        (JStr s, JStr t) \<Rightarrow>
          (let c = naturalCompare (toLowerCase s) (toLowerCase t)
           in Inr (if c \<noteq> 0 then c else naturalCompare s t))
      | _ \<Rightarrow> Inl TypeError)"

subsection \<open>Event handlers\<close>

text \<open>What a wrapped handler does with its arguments, in order.\<close>

datatype event_effect =
    PreventDefault jsval
  | StopPropagation jsval
  | Callback "jsval list"

definition withPreventDefault :: "jsval list \<Rightarrow> event_effect list" where
  "withPreventDefault args =
     (case args of
        e # _ \<Rightarrow> (if truthy e then [PreventDefault e] else [])
      | [] \<Rightarrow> []) @ [Callback args]"

definition withStopPropagation :: "jsval list \<Rightarrow> event_effect list" where
  "withStopPropagation args =
     (case args of
        e # _ \<Rightarrow> (if truthy e then [StopPropagation e] else [])
      | [] \<Rightarrow> []) @ [Callback args]"

definition withPreventDefaultAndStopPropagation :: "jsval list \<Rightarrow> event_effect list" where
  "withPreventDefaultAndStopPropagation args =
     (case args of
        e # _ \<Rightarrow> (if truthy e then [PreventDefault e, StopPropagation e] else [])
      | [] \<Rightarrow> []) @ [Callback args]"

subsection \<open>Promises and delayed loops\<close>

text \<open>
  \<open>final\<close> acts on a state and may itself reject; it runs once, whichever way the promise
  was settled.
\<close>

definition promiseFinally ::
  "('e, 'a) promise \<Rightarrow> ('s \<Rightarrow> 's \<times> ('e, 'b) promise) \<Rightarrow> 's \<Rightarrow> 's \<times> ('e, 'a) promise" where
  "promiseFinally promise final s =
     (let (s', r) = final s in
      (s', case promise of
         Inr response \<Rightarrow> promise_then r (\<lambda>_. Inr response)
       | Inl err \<Rightarrow> promise_then r (\<lambda>_. Inl err)))"

text \<open>
  \<open>eachWithDelay\<close> reverses the pairs and pops them from the end, one per timer. The result is
  the state, the timeouts in milliseconds that were scheduled, and the error that stopped
  the loop, if any; \<open>delay i\<close> is what the \<open>i\<close>-th call of \<open>delay\<close> returns.
\<close>

function delayed_loop ::
  "('v \<Rightarrow> 'k \<Rightarrow> 's \<Rightarrow> 's \<times> 'e option) \<Rightarrow> (nat \<Rightarrow> rat) \<Rightarrow> nat \<Rightarrow> ('k \<times> 'v) list \<Rightarrow> rat \<Rightarrow> 's \<Rightarrow>
   's \<times> rat list \<times> 'e option" where
  "delayed_loop iteratee delay i items timeout s =
     (if items = [] then (s, [], None)
      else (let (k, v) = last items in
        case iteratee v k s of
          (s', Some e) \<Rightarrow> (s', [timeout], Some e)
        | (s', None) \<Rightarrow>
            (let (s'', ts, r) =
               delayed_loop iteratee delay (Suc i) (butlast items) (1000 * delay i) s'
             in (s'', timeout # ts, r))))"
  by pat_completeness auto
termination
  by (relation "measure (\<lambda>(iteratee, delay, i, items, timeout, s). length items)") auto

declare delayed_loop.simps [simp del]

definition eachWithDelay ::
  "('k \<times> 'v) list \<Rightarrow> ('v \<Rightarrow> 'k \<Rightarrow> 's \<Rightarrow> 's \<times> 'e option) \<Rightarrow> (nat \<Rightarrow> rat) \<Rightarrow> 's \<Rightarrow>
   's \<times> rat list \<times> 'e option" where
  "eachWithDelay data iteratee delay s = delayed_loop iteratee delay 0 (rev data) 0 s"

text \<open>The plain loop it stands for: in the order of the data, up to the first error.\<close>

fun each_until_error ::
  "('v \<Rightarrow> 'k \<Rightarrow> 's \<Rightarrow> 's \<times> 'e option) \<Rightarrow> ('k \<times> 'v) list \<Rightarrow> 's \<Rightarrow> 's \<times> nat \<times> 'e option" where
  "each_until_error f [] s = (s, 0, None)"
| "each_until_error f ((k, v) # data) s =
     (case f v k s of
        (s', Some e) \<Rightarrow> (s', 1, Some e)
      | (s', None) \<Rightarrow> (let (s'', n, r) = each_until_error f data s' in (s'', Suc n, r)))"

lemma delayed_loop_refines:
  "(case delayed_loop f delay i (rev data) t s of (s', ts, r) \<Rightarrow> (s', length ts, r)) =
   each_until_error f data s"
proof (induction data arbitrary: i t s)
  case Nil
  then show ?case by (simp add: delayed_loop.simps)
next
  case (Cons p data)
  obtain k v where p: "p = (k, v)" by (cases p)
  obtain s1 e where f: "f v k s = (s1, e)" by (cases "f v k s")
  show ?case
    using Cons.IH [of "Suc i" "1000 * delay i" s1] p f
    by (cases e)
      (auto simp: delayed_loop.simps [of f delay i "rev data @ [(k, v)]"] split: prod.splits)
qed

text \<open>the delayed loop calls the iteratee on every pair in the order of the data and stops
  at the first exception: the same state, the same error and one timer per call as the
  plain loop.\<close>

theorem eachWithDelay_refines:
  "(case eachWithDelay data f delay s of (s', ts, r) \<Rightarrow> (s', length ts, r)) =
   each_until_error f data s"
  by (simp add: eachWithDelay_def delayed_loop_refines)

definition uniformRandomNumberGenerator :: "rat \<Rightarrow> rat \<Rightarrow> rat \<Rightarrow> rat" where
  "uniformRandomNumberGenerator lo hi random = random * (hi - lo) + lo"

lemma uniform_bounds:
  assumes "lo \<le> hi" and "0 \<le> random" and "random < 1"
  shows "lo \<le> uniformRandomNumberGenerator lo hi random \<and>
    uniformRandomNumberGenerator lo hi random \<le> hi"
proof -
  have "random * (hi - lo) \<le> 1 * (hi - lo)"
    using assms by (intro mult_right_mono) auto
  with assms show ?thesis by (simp add: uniformRandomNumberGenerator_def)
qed

text \<open>cleaning a JSON value leaves no empty part at any depth, and cleaning again
  changes nothing.\<close>

theorem recursivelyCondenseObject_clean:
  "condensed (recursivelyCondenseObject v) \<and>
   recursivelyCondenseObject (recursivelyCondenseObject v) = recursivelyCondenseObject v"
  by (simp add: condense_condensed condensed_fixed)

text \<open>\<open>replaceAll\<close>, written with \<open>split\<close> and \<open>join\<close>, replaces every occurrence of a
  non-empty text from the left without overlaps, and replacing a text by itself is the
  identity.\<close>

theorem replaceAll_correct:
  assumes "search \<noteq> []"
  shows "replaceAll text search r = replace_occurrences search r text \<and>
    replaceAll text search search = text"
  using assms by (simp add: replaceAll_def js_split_def join_split_at replace_same)

theorem replaceAll_correct_witness:
  "replaceAll ''aabaa'' ''aa'' ''x'' = ''xbx'' \<and> replaceAll ''aabaa'' ''aa'' ''aa'' = ''aabaa''"
proof -
  have "(''aa'' :: string) \<noteq> []" by simp
  from replaceAll_correct [OF this, of "''aabaa''" "''x''"]
  show ?thesis by (simp add: replace_occurrences_steps)
qed

subsection \<open>Numbers written as text\<close>

lemma digit_cases:
  "k < (10::nat) \<Longrightarrow> k = 0 \<or> k = 1 \<or> k = 2 \<or> k = 3 \<or> k = 4 \<or> k = 5 \<or> k = 6 \<or> k = 7 \<or> k = 8 \<or> k = 9"
  by presburger

lemma nat_digits_digit: "list_all is_digit (nat_digits n)"
proof (induction n rule: nat_digits.induct)
  case (1 n)
  have digit: "is_digit (''0123456789'' ! k)" if "k < 10" for k :: nat
    using digit_cases [OF that] by (elim disjE) (simp_all add: is_digit_def)
  show ?case using 1 by (subst nat_digits.simps) (auto simp: digit)
qed

lemma digits_val_append1: "digits_val 10 (ds @ [d]) = 10 * digits_val 10 ds + (case hex_val d of None \<Rightarrow> 0 | Some x \<Rightarrow> x)"
  by (simp add: digits_val_def)

lemma nat_digits_val: "digits_val 10 (nat_digits n) = int n"
proof (induction n rule: nat_digits.induct)
  case (1 n)
  have digit: "hex_val (''0123456789'' ! k) = Some (int k)" if "k < 10" for k :: nat
    using digit_cases [OF that] by (elim disjE) (simp_all add: hex_val_def)
  show ?case
  proof (cases "n < 10")
    case True
    then show ?thesis by (subst nat_digits.simps) (simp add: digits_val_def digit)
  next
    case False
    then show ?thesis using 1 by (subst nat_digits.simps) (simp add: digits_val_append1 digit zmod_int zdiv_int)
  qed
qed

lemma is_digit_not_ws: "is_digit c \<Longrightarrow> \<not> is_ws c"
  by (auto simp: is_digit_def is_ws_def)

lemma dropWhile_none: "list_all (\<lambda>c. \<not> P c) s \<Longrightarrow> dropWhile P s = s"
  by (cases s) auto

lemma trim_digits: "list_all is_digit s \<Longrightarrow> trim s = s"
proof -
  assume "list_all is_digit s"
  then have "list_all (\<lambda>c. \<not> is_ws c) s" "list_all (\<lambda>c. \<not> is_ws c) (rev s)"
    by (auto simp: list_all_iff is_digit_not_ws)
  then show ?thesis by (simp add: trim_def dropWhile_none)
qed

lemma digits_not_radix: "list_all is_digit s \<Longrightarrow> \<not> is_radix_literal s"
proof
  assume digits: "list_all is_digit s" and radix: "is_radix_literal s"
  obtain z x ds where s: "s = z # x # ds" "ds \<noteq> []"
    using radix by (auto simp: is_radix_literal_def split: list.splits)
  have "x \<notin> {CHR ''x'', CHR ''X''}" "x \<notin> {CHR ''o'', CHR ''O''}" "x \<notin> {CHR ''b'', CHR ''B''}"
    using digits s(1) by (auto simp: is_digit_def)
  then have "list_all (\<lambda>d. case hex_val d of None \<Rightarrow> False | Some v \<Rightarrow> v < 0) ds"
    using radix s(1) by (auto simp: is_radix_literal_def Let_def list_all_iff split: option.splits)
  then show False
    using s(2) by (cases ds) (auto dest: hex_val_range split: option.splits)
qed

lemma nat_digits_not_Nil: "nat_digits n \<noteq> []"
  by (subst nat_digits.simps) simp

lemma parse_digits:
  assumes "list_all is_digit s" "s \<noteq> []"
  shows "parse_decimal s = Some (of_int (digits_val 10 s))"
proof -
  have digits: "takeWhile is_digit s = s" "dropWhile is_digit s = []"
    using assms(1) by (simp_all add: takeWhile_eq_all_conv dropWhile_eq_Nil_conv list_all_iff)
  have "parse_unsigned s = Some (of_int (digits_val 10 s))"
    unfolding parse_unsigned_def digits using assms(2)
    by (simp add: parse_exponent_def scale10_def Let_def)
  moreover have "hd s \<noteq> CHR ''-''" "hd s \<noteq> CHR ''+''"
    using assms by (auto simp: is_digit_def neq_Nil_conv)
  ultimately show ?thesis using assms(2) by (cases s) (simp_all add: parse_decimal_def)
qed

lemma js_text_nat: "js_text (JNum (of_nat n)) = nat_digits n"
proof -
  have "quotient_of (of_nat n) = (int n, 1)" using quotient_of_int [of "int n"] by simp
  then show ?thesis by (simp add: int_text_def)
qed

lemma limit_bound: "(10::rat) ^ 21 < double_limit"
  unfolding double_limit_code by simp

lemma number_of_nat_text: "n < 10 ^ 21 \<Longrightarrow> maybeAsNumber (JStr (js_text (JNum (of_nat n)))) = JNum (of_nat n)"
proof -
  assume "n < 10 ^ 21"
  then have "(of_nat n :: rat) < 10 ^ 21"
    by (metis of_nat_less_iff of_nat_numeral of_nat_power)
  then have bound: "\<bar>of_nat n :: rat\<bar> < double_limit" using limit_bound by simp
  have "number_of_text (nat_digits n) = Some (of_nat n)"
    using bound
    by (simp add: number_of_text_def trim_digits nat_digits_digit digits_not_radix parse_digits
        nat_digits_not_Nil nat_digits_val Let_def)
  then show ?thesis unfolding js_text_nat by (simp add: maybeAsNumber_def)
qed

lemma nat_digits_inject [simp]: "nat_digits m = nat_digits n \<longleftrightarrow> m = n"
  by (metis nat_digits_val of_nat_eq_iff)

lemma int_text_nat [simp]: "int_text (int n) = nat_digits n"
  by (simp add: int_text_def)

end
