(* ===== verification/Paging.thy ===== *)
theory Paging
  imports Utils
begin

section \<open>Paged data: web/js/net/list.js, net/paging.js, net/streaming_pager.js\<close>

text \<open>
  A pager answers a paging block with a page and the marker of the next page. \<open>arrayPager\<close>
  turns a list into a pager; \<open>exhaustivelyPage\<close> and \<open>StreamingPager\<close> are its clients, the
  first collecting every page, the second delivering each one as it arrives. The locale
  \<open>pager\<close> states what a client relies on; it is interpreted on \<open>arrayPager\<close> in both
  directions.
\<close>

subsection \<open>Paging blocks and pages\<close>

record 'm page_request =
  limit :: "int option"
  ascending :: "bool option"
  req_before :: "'m jsopt"
  req_after :: "'m jsopt"

record ('m, 'a) page_response =
  resp_count :: nat
  resp_data :: "'a list"
  resp_before :: "'m jsopt"
  resp_after :: "'m jsopt"

subsection \<open>Paging over a list\<close>

text \<open>
  The list is always an array and the limit an integer here, so the error branch is that of
  a negative page size. A marker \<open>0\<close> or \<open>null\<close> for \<open>before\<close> is the start of the list, a
  marker \<open>null\<close> for \<open>after\<close> its end; only a missing \<open>after\<close> pages forwards.
\<close>

definition arrayPager ::
  "'a list \<Rightarrow> int page_request \<Rightarrow> unit + (int, 'a) page_response" where
  "arrayPager xs paging =
     (let n = int (length xs);
          pageSize = (case limit paging of Some l \<Rightarrow> l | None \<Rightarrow> n)
      in if pageSize < 0 then Inl ()
         else if req_after paging = Undefined then
           (let before = coalesce_opt (req_before paging) 0;
                nextPage = before + pageSize;
                newBefore = (if nextPage < n then Val nextPage else Null)
            in Inr \<lparr>resp_count = length xs,
                   resp_data = js_slice xs before (coalesce_opt newBefore n),
                   resp_before = newBefore, resp_after = Undefined\<rparr>)
         else
           (let after = coalesce_opt (req_after paging) n;
                prevPage = after - pageSize;
                newAfter = (if 0 \<le> prevPage then Val prevPage else Null)
            in Inr \<lparr>resp_count = length xs,
                   resp_data = rev (js_slice xs (coalesce_opt newAfter 0) after),
                   resp_before = Undefined, resp_after = newAfter\<rparr>))"

subsection \<open>Collecting every page\<close>

record 'm page_options =
  opt_limit :: int
  opt_ascending :: bool
  opt_params :: "'m page_request option"

text \<open>The parameters of every request: the caller's, with the limit and the direction of the
  options written over them. Missing parameters stay missing.\<close>

definition effective_params :: "'m page_options \<Rightarrow> 'm page_request option" where
  "effective_params opts =
     map_option (\<lambda>p. p\<lparr>limit := Some (opt_limit opts), ascending := Some (opt_ascending opts)\<rparr>)
       (opt_params opts)"

definition page_request_for :: "'m page_options \<Rightarrow> 'm jsopt \<Rightarrow> 'm page_request" where
  "page_request_for opts marker =
     (let base = \<lparr>limit = None, ascending = None,
            req_before = (if opt_ascending opts then Undefined else marker),
            req_after = (if opt_ascending opts then marker else Undefined)\<rparr>
      in case effective_params opts of
        None \<Rightarrow> base
      | Some p \<Rightarrow> \<lparr>limit = limit p, ascending = ascending p,
            req_before = (if req_before p = Undefined then req_before base else req_before p),
            req_after = (if req_after p = Undefined then req_after base else req_after p)\<rparr>)"

definition getMarker :: "'m page_options \<Rightarrow> ('m, 'a) page_response \<Rightarrow> 'm jsopt" where
  "getMarker opts resp = (if opt_ascending opts then resp_after resp else resp_before resp)"

definition fetch_page ::
  "('m page_request \<Rightarrow> 'e + ('m, 'a) page_response) \<Rightarrow> 'm page_options \<Rightarrow> 'm jsopt \<Rightarrow>
   'e + ('a list \<times> 'm jsopt)" where
  "fetch_page fetcher opts marker =
     (case fetcher (page_request_for opts marker) of
        Inl e \<Rightarrow> Inl e
      | Inr resp \<Rightarrow> Inr (resp_data resp, getMarker opts resp))"

text \<open>
  What the caller sees in the end: its success or its error callback, or neither once the
  monitor was cancelled. \<open>cancelled n\<close> is the state of the monitor when the \<open>n\<close>-th answer
  arrives. Paging that never ends is \<open>None\<close>.
\<close>

datatype ('e, 'a) page_outcome = Succeeded "'a list" | Failed 'e | Cancelled

partial_function (option) fetchNextPage ::
  "('m jsopt \<Rightarrow> 'e + ('a list \<times> 'm jsopt)) \<Rightarrow> (nat \<Rightarrow> bool) \<Rightarrow> nat \<Rightarrow> 'a list \<Rightarrow> 'm jsopt \<Rightarrow>
   ('e, 'a) page_outcome option" where
  "fetchNextPage fetch cancelled n soFar marker =
     (case fetch marker of
        Inl e \<Rightarrow> Some (if cancelled n then Cancelled else Failed e)
      | Inr (page, nextMarker) \<Rightarrow>
          if cancelled n then Some Cancelled
          else if is_val nextMarker
          then fetchNextPage fetch cancelled (Suc n) (soFar @ page) nextMarker
          else Some (Succeeded (soFar @ page)))"

definition exhaustivelyPage ::
  "('m page_request \<Rightarrow> 'e + ('m, 'a) page_response) \<Rightarrow> 'm page_options \<Rightarrow> (nat \<Rightarrow> bool) \<Rightarrow>
   ('e, 'a) page_outcome option" where
  "exhaustivelyPage fetcher opts cancelled =
     fetchNextPage (fetch_page fetcher opts) cancelled 0 [] Null"

subsection \<open>Streaming every page\<close>

text \<open>
  \<open>fetchNextPage\<close> of a \<open>StreamingPager\<close>: the pages given to \<open>onNewPage\<close> and how the promise
  settles, \<open>Inr True\<close> for a stream read to its end, \<open>Inr False\<close> for one that was stopped.
  The callbacks do not throw. \<open>start\<close> calls \<open>onFinish\<close> only when the stream was not stopped.
\<close>

partial_function (option) stream_pages ::
  "('m jsopt \<Rightarrow> 'e + ('a list \<times> 'm jsopt)) \<Rightarrow> (nat \<Rightarrow> bool) \<Rightarrow> nat \<Rightarrow> 'a list list \<Rightarrow> 'm jsopt \<Rightarrow>
   ('a list list \<times> ('e + bool)) option" where
  "stream_pages fetch cancelled n pages before =
     (case fetch before of
        Inl e \<Rightarrow> Some (pages, if cancelled n then Inr False else Inl e)
      | Inr (page, newBefore) \<Rightarrow>
          if cancelled n then Some (pages, Inr False)
          else if is_val newBefore
          then stream_pages fetch cancelled (Suc n) (pages @ [page]) newBefore
          else Some (pages @ [page], Inr True))"

datatype ('e, 'a) stream_event = NewPage "'a list" | Finish | StreamError 'e

definition stream_request :: "'m page_request option \<Rightarrow> 'm jsopt \<Rightarrow> 'm page_request" where
  "stream_request params before =
     (case params of
        None \<Rightarrow> \<lparr>limit = Some 100, ascending = None, req_before = before, req_after = Undefined\<rparr>
      | Some p \<Rightarrow> \<lparr>limit = (case limit p of None \<Rightarrow> Some 100 | Some l \<Rightarrow> Some l),
          ascending = ascending p,
          req_before = (if req_before p = Undefined then before else req_before p),
          req_after = req_after p\<rparr>)"

definition stream_fetch ::
  "('m page_request \<Rightarrow> 'e + ('m, 'a) page_response) \<Rightarrow> 'm page_request option \<Rightarrow> 'm jsopt \<Rightarrow>
   'e + ('a list \<times> 'm jsopt)" where
  "stream_fetch fetcher params before =
     (case fetcher (stream_request params before) of
        Inl e \<Rightarrow> Inl e
      | Inr resp \<Rightarrow> Inr (resp_data resp, resp_before resp))"

definition stream_start ::
  "('m page_request \<Rightarrow> 'e + ('m, 'a) page_response) \<Rightarrow> 'm page_request option \<Rightarrow> (nat \<Rightarrow> bool) \<Rightarrow>
   ('e, 'a) stream_event list option" where
  "stream_start fetcher params cancelled =
     map_option (\<lambda>(pages, r). map NewPage pages @
        (case r of Inl e \<Rightarrow> [StreamError e] | Inr finished \<Rightarrow> if finished then [Finish] else []))
       (stream_pages (stream_fetch fetcher params) cancelled 0 [] Undefined)"

subsection \<open>The contract between a pager and its clients\<close>

text \<open>
  From a good marker the pager answers, and either that page is all that is left or the next
  marker is good, of smaller rank, and stands for the rest.
\<close>

locale pager =
  fixes fetch :: "'m jsopt \<Rightarrow> 'e + ('a list \<times> 'm jsopt)"
    and good :: "'m jsopt \<Rightarrow> bool"
    and rank :: "'m jsopt \<Rightarrow> nat"
    and content :: "'m jsopt \<Rightarrow> 'a list"
  assumes answers: "good m \<Longrightarrow> \<exists>page next. fetch m = Inr (page, next)"
    and last_page: "good m \<Longrightarrow> fetch m = Inr (page, next) \<Longrightarrow> \<not> is_val next \<Longrightarrow> content m = page"
    and more_good: "good m \<Longrightarrow> fetch m = Inr (page, next) \<Longrightarrow> is_val next \<Longrightarrow> good next"
    and more_rank: "good m \<Longrightarrow> fetch m = Inr (page, next) \<Longrightarrow> is_val next \<Longrightarrow> rank next < rank m"
    and more_content:
      "good m \<Longrightarrow> fetch m = Inr (page, next) \<Longrightarrow> is_val next \<Longrightarrow> content m = page @ content next"
begin

lemma collects_content:
  "good m \<Longrightarrow> (\<And>n. \<not> cancelled n) \<Longrightarrow>
   fetchNextPage fetch cancelled n soFar m = Some (Succeeded (soFar @ content m))"
proof (induction "rank m" arbitrary: m n soFar rule: less_induct)
  case less
  obtain page nxt where f: "fetch m = Inr (page, nxt)" using answers [OF less.prems(1)] by blast
  show ?case
  proof (cases "is_val nxt")
    case True
    note more = more_good [OF less.prems(1) f True] more_rank [OF less.prems(1) f True]
      more_content [OF less.prems(1) f True]
    have "fetchNextPage fetch cancelled (Suc n) (soFar @ page) nxt =
        Some (Succeeded ((soFar @ page) @ content nxt))"
      using more less by blast
    with f True more(3) less.prems(2) show ?thesis by (simp add: fetchNextPage.simps)
  next
    case False
    with f last_page [OF less.prems(1) f False] less.prems(2) show ?thesis
      by (simp add: fetchNextPage.simps)
  qed
qed

lemma streams_content:
  "good m \<Longrightarrow> (\<And>n. \<not> cancelled n) \<Longrightarrow>
   \<exists>more. stream_pages fetch cancelled n pages m = Some (pages @ more, Inr True) \<and>
     concat more = content m"
proof (induction "rank m" arbitrary: m n pages rule: less_induct)
  case less
  obtain page nxt where f: "fetch m = Inr (page, nxt)" using answers [OF less.prems(1)] by blast
  show ?case
  proof (cases "is_val nxt")
    case True
    note more = more_good [OF less.prems(1) f True] more_rank [OF less.prems(1) f True]
      more_content [OF less.prems(1) f True]
    obtain rest where
      "stream_pages fetch cancelled (Suc n) (pages @ [page]) nxt = Some ((pages @ [page]) @ rest, Inr True)"
      "concat rest = content nxt"
      using less.hyps [OF more(2,1)] less.prems(2) by blast
    with f True more(3) less.prems(2) show ?thesis
      by (intro exI [of _ "page # rest"]) (simp add: stream_pages.simps)
  next
    case False
    with f last_page [OF less.prems(1) f False] less.prems(2) show ?thesis
      by (intro exI [of _ "[page]"]) (simp add: stream_pages.simps)
  qed
qed

end

subsection \<open>A list is a pager in both directions\<close>

text \<open>The part of the list a marker stands for, from a marker forwards and up to a marker.\<close>

definition list_from :: "'a list \<Rightarrow> int jsopt \<Rightarrow> 'a list" where
  "list_from xs m = drop (nat (coalesce_opt m 0)) xs"

definition list_upto :: "'a list \<Rightarrow> int jsopt \<Rightarrow> 'a list" where
  "list_upto xs m = rev (take (nat (coalesce_opt m (int (length xs)))) xs)"

definition marker_in :: "'a list \<Rightarrow> int jsopt \<Rightarrow> bool" where
  "marker_in xs m = (case m of Val i \<Rightarrow> 0 \<le> i \<and> i \<le> int (length xs) | _ \<Rightarrow> True)"

definition rank_from :: "'a list \<Rightarrow> int jsopt \<Rightarrow> nat" where
  "rank_from xs m = length xs - nat (coalesce_opt m 0)"

definition rank_upto :: "'a list \<Rightarrow> int jsopt \<Rightarrow> nat" where
  "rank_upto xs m = nat (coalesce_opt m (int (length xs)))"

text \<open>One page of each direction, with the markers as natural numbers.\<close>

lemma arrayPager_forward:
  assumes "req_after r = Undefined" and "0 \<le> l" and "limit r = Some (int l)"
    and "coalesce_opt (req_before r) 0 = int b"
  shows "arrayPager xs r = Inr \<lparr>resp_count = length xs, resp_data = take l (drop b xs),
    resp_before = (if b + l < length xs then Val (int (b + l)) else Null),
    resp_after = Undefined\<rparr>"
proof -
  have slice_len: "js_slice xs (int b) (int (length xs)) = drop b xs"
    by (simp add: js_slice_nat)
  have slice_page: "js_slice xs (int b) (int b + int l) = take l (drop b xs)"
    using js_slice_nat [of xs b "b + l"] by simp
  show ?thesis
    using assms by (auto simp: arrayPager_def Let_def slice_len slice_page)
qed

lemma arrayPager_backward:
  assumes "req_after r \<noteq> Undefined" and "limit r = Some (int l)"
    and "coalesce_opt (req_after r) (int (length xs)) = int a"
  shows "arrayPager xs r = Inr \<lparr>resp_count = length xs,
    resp_data = rev (take (a - (a - l)) (drop (a - l) xs)), resp_before = Undefined,
    resp_after = (if l \<le> a then Val (int (a - l)) else Null)\<rparr>"
proof -
  have slice_page: "js_slice xs (int a - int l) (int a) = take (a - (a - l)) (drop (a - l) xs)"
    if "l \<le> a"
    using js_slice_nat [of xs "a - l" a] that by (simp add: of_nat_diff)
  have slice_first: "js_slice xs 0 (int a) = take a xs"
    using js_slice_nat [of xs 0 a] by simp
  show ?thesis
    using assms by (auto simp: arrayPager_def Let_def slice_page slice_first of_nat_diff)
qed

text \<open>The options of a caller that passes no markers of its own, with a positive limit.\<close>

definition no_params :: "'m page_request" where
  "no_params = \<lparr>limit = None, ascending = None, req_before = Undefined, req_after = Undefined\<rparr>"

definition options_for :: "bool \<Rightarrow> nat \<Rightarrow> 'm page_options" where
  "options_for asc k = \<lparr>opt_limit = int (Suc k), opt_ascending = asc, opt_params = Some no_params\<rparr>"

lemma fetch_page_forward:
  assumes "marker_in xs m"
  shows "fetch_page (arrayPager xs) (options_for False k) m =
    (let b = nat (coalesce_opt m 0) in
     Inr (take (Suc k) (drop b xs), if b + Suc k < length xs then Val (int (b + Suc k)) else Null))"
proof -
  have "coalesce_opt m 0 = int (nat (coalesce_opt m 0))"
    using assms by (auto simp: marker_in_def split: jsopt.splits)
  then have "arrayPager xs (page_request_for (options_for False k) m) =
      Inr \<lparr>resp_count = length xs,
        resp_data = take (Suc k) (drop (nat (coalesce_opt m 0)) xs),
        resp_before = (if nat (coalesce_opt m 0) + Suc k < length xs
          then Val (int (nat (coalesce_opt m 0) + Suc k)) else Null),
        resp_after = Undefined\<rparr>"
    by (intro arrayPager_forward)
      (simp_all add: page_request_for_def effective_params_def options_for_def no_params_def)
  then show ?thesis
    by (simp add: fetch_page_def getMarker_def options_for_def Let_def)
qed

lemma fetch_page_backward:
  assumes "marker_in xs m" and "m \<noteq> Undefined"
  shows "fetch_page (arrayPager xs) (options_for True k) m =
    (let a = nat (coalesce_opt m (int (length xs))) in
     Inr (rev (take (a - (a - Suc k)) (drop (a - Suc k) xs)),
          if Suc k \<le> a then Val (int (a - Suc k)) else Null))"
proof -
  have a: "coalesce_opt m (int (length xs)) = int (nat (coalesce_opt m (int (length xs))))"
    using assms by (auto simp: marker_in_def split: jsopt.splits)
  have "arrayPager xs (page_request_for (options_for True k) m) =
      (let a = nat (coalesce_opt m (int (length xs))) in
       Inr \<lparr>resp_count = length xs,
        resp_data = rev (take (a - (a - Suc k)) (drop (a - Suc k) xs)),
        resp_before = Undefined,
        resp_after = (if Suc k \<le> a then Val (int (a - Suc k)) else Null)\<rparr>)"
    unfolding Let_def using a assms(2)
    by (intro arrayPager_backward)
      (simp_all add: page_request_for_def effective_params_def options_for_def no_params_def)
  then show ?thesis
    by (simp add: fetch_page_def getMarker_def options_for_def Let_def)
qed

interpretation forward: pager "fetch_page (arrayPager xs) (options_for False k)"
  "marker_in xs" "rank_from xs" "list_from xs" for xs :: "'a list" and k :: nat
proof (unfold_locales, goal_cases)
  case (1 m)
  then show ?case by (simp add: fetch_page_forward Let_def)
next
  case (2 m page nxt)
  then show ?case by (auto simp: fetch_page_forward Let_def list_from_def split: if_splits)
next
  case (3 m page nxt)
  then show ?case by (auto simp: fetch_page_forward Let_def marker_in_def split: if_splits)
next
  case (4 m page nxt)
  then show ?case by (auto simp: fetch_page_forward Let_def rank_from_def split: if_splits)
next
  case (5 m page nxt)
  define b where "b = nat (coalesce_opt m 0)"
  from 5 have "page = take (Suc k) (drop b xs)" and nxt: "nxt = Val (int (b + Suc k))"
    by (auto simp: fetch_page_forward Let_def b_def split: if_splits)
  moreover have "list_from xs nxt = drop (b + Suc k) xs"
    unfolding nxt list_from_def coalesce_opt_simps nat_int ..
  ultimately show ?case
    by (simp only: list_from_def take_add_slice flip: b_def)
qed

text \<open>Backwards the first marker is \<open>null\<close>, never a missing one.\<close>

definition marker_upto :: "'a list \<Rightarrow> int jsopt \<Rightarrow> bool" where
  "marker_upto xs m = (m \<noteq> Undefined \<and> marker_in xs m)"

interpretation backward: pager "fetch_page (arrayPager xs) (options_for True k)"
  "marker_upto xs" "rank_upto xs" "list_upto xs" for xs :: "'a list" and k :: nat
proof (unfold_locales, goal_cases)
  case (1 m)
  then show ?case by (simp add: fetch_page_backward marker_upto_def Let_def)
next
  case (2 m page nxt)
  then show ?case
    by (auto simp: fetch_page_backward marker_upto_def Let_def list_upto_def split: if_splits)
next
  case (3 m page nxt)
  then show ?case
    by (auto simp: fetch_page_backward marker_upto_def Let_def marker_in_def
        split: if_splits jsopt.splits)
next
  case (4 m page nxt)
  then show ?case
    by (auto simp: fetch_page_backward marker_upto_def Let_def rank_upto_def split: if_splits)
next
  case (5 m page nxt)
  define a where "a = nat (coalesce_opt m (int (length xs)))"
  from 5 have le: "Suc k \<le> a" and page: "page = rev (take (a - (a - Suc k)) (drop (a - Suc k) xs))"
    and nxt: "nxt = Val (int (a - Suc k))"
    by (auto simp: fetch_page_backward marker_upto_def Let_def a_def split: if_splits)
  have "take a xs = take (a - Suc k) xs @ take (a - (a - Suc k)) (drop (a - Suc k) xs)"
    using le take_add [of "a - Suc k" "a - (a - Suc k)" xs] by simp
  then show ?case
    by (simp add: list_upto_def page nxt flip: a_def)
qed

text \<open>The streaming client asks forwards with its own limit of a hundred.\<close>

lemma stream_fetch_forward:
  "stream_fetch (arrayPager xs) None = fetch_page (arrayPager xs) (options_for False 99)"
  by (simp add: fun_eq_iff stream_fetch_def stream_request_def fetch_page_def getMarker_def
      page_request_for_def effective_params_def options_for_def no_params_def arrayPager_def
      split: sum.splits)

subsection \<open>Paging that never ends, and paging that is cancelled\<close>

lemma fetchNextPage_forever:
  assumes more: "\<And>m. P m \<Longrightarrow> \<exists>page nxt. fetch m = Inr (page, nxt) \<and> is_val nxt \<and> P nxt"
    and never: "\<And>n. \<not> cancelled n" and start: "P m"
  shows "fetchNextPage fetch cancelled n soFar m = None"
proof (rule ccontr)
  assume "fetchNextPage fetch cancelled n soFar m \<noteq> None"
  then obtain r where "fetchNextPage fetch cancelled n soFar m = Some r" by blast
  note ret = this
  have "fetch = fetch \<longrightarrow> cancelled = cancelled \<longrightarrow> P m \<longrightarrow> False"
  proof (rule fetchNextPage.raw_induct [where
        P = "\<lambda>f c n soFar m r. f = fetch \<longrightarrow> c = cancelled \<longrightarrow> P m \<longrightarrow> False", OF _ ret])
    fix rec f c n soFar m r
    assume IH: "\<And>f c n soFar m r. rec f c n soFar m = Some r \<Longrightarrow>
        f = fetch \<longrightarrow> c = cancelled \<longrightarrow> P m \<longrightarrow> False"
      and step: "(case f m of Inl e \<Rightarrow> Some (if c n then Cancelled else Failed e)
        | Inr (page, nextMarker) \<Rightarrow>
            if c n then Some Cancelled
            else if is_val nextMarker then rec f c (Suc n) (soFar @ page) nextMarker
            else Some (Succeeded (soFar @ page))) = Some r"
    show "f = fetch \<longrightarrow> c = cancelled \<longrightarrow> P m \<longrightarrow> False"
    proof (intro impI)
      assume "f = fetch" "c = cancelled" "P m"
      with more [OF \<open>P m\<close>] step never obtain page nxt
        where "rec fetch cancelled (Suc n) (soFar @ page) nxt = Some r" "P nxt" by auto
      with IH [of fetch cancelled] show False by blast
    qed
  qed
  with start show False by blast
qed

lemma cancelled_forward:
  "b \<le> length xs \<Longrightarrow>
   fetchNextPage (fetch_page (arrayPager xs) (options_for False k)) (\<lambda>i. j \<le> i) n soFar (Val (int b)) =
   Some (if n < j \<and> length xs \<le> b + (j - n) * Suc k then Succeeded (soFar @ drop b xs)
         else Cancelled)"
proof (induction "length xs - b" arbitrary: b n soFar rule: less_induct)
  case less
  have f: "fetch_page (arrayPager xs) (options_for False k) (Val (int b)) =
      Inr (take (Suc k) (drop b xs), if b + Suc k < length xs then Val (int (b + Suc k)) else Null)"
    using less.prems by (simp add: fetch_page_forward marker_in_def Let_def)
  consider "j \<le> n" | "n < j" "length xs \<le> b + Suc k" | "n < j" "b + Suc k < length xs"
    by linarith
  then show ?case
  proof cases
    case 1
    then show ?thesis by (simp add: fetchNextPage.simps f)
  next
    case 2
    have "b + Suc k \<le> b + (j - n) * Suc k" using 2(1) by (cases "j - n") auto
    with 2 show ?thesis by (simp add: fetchNextPage.simps f)
  next
    case 3
    define b' where "b' = b + Suc k"
    have rest: "take (Suc k) (drop b xs) @ drop b' xs = drop b xs"
      unfolding b'_def by (rule take_add_slice)
    have "b + (j - n) * Suc k = b' + (j - Suc n) * Suc k"
      using 3(1) Suc_diff_Suc [of n j, symmetric] by (simp add: b'_def)
    moreover have "Suc n < j \<or> \<not> length xs \<le> b' + (j - Suc n) * Suc k"
      using 3 by (cases "Suc n < j") (auto simp: b'_def)
    ultimately show ?thesis
      using less.hyps [of b' "Suc n" "soFar @ take (Suc k) (drop b xs)"] 3 rest
      by (auto simp: fetchNextPage.simps [of _ _ n] f simp flip: b'_def) (simp_all add: b'_def)
  qed
qed

subsection \<open>Properties\<close>

text \<open>C10: whatever the positive page size, paging a list to exhaustion ends and calls the
  success callback with exactly the list, and with the reversed list when ascending.\<close>

theorem exhaustivelyPage_list:
  assumes "\<And>n. \<not> cancelled n"
  shows "exhaustivelyPage (arrayPager xs) (options_for False k) cancelled = Some (Succeeded xs) \<and>
    exhaustivelyPage (arrayPager xs) (options_for True k) cancelled = Some (Succeeded (rev xs))"
  using forward.collects_content [of xs Null cancelled k 0 "[]"]
    backward.collects_content [of xs Null cancelled k 0 "[]"] assms
  by (simp add: exhaustivelyPage_def marker_in_def marker_upto_def list_from_def list_upto_def)

theorem exhaustivelyPage_list_witness:
  "exhaustivelyPage (arrayPager ''abcde'') (options_for False 1) (\<lambda>_. False) =
     Some (Succeeded ''abcde'') \<and>
   exhaustivelyPage (arrayPager ''abcde'') (options_for True 1) (\<lambda>_. False) =
     Some (Succeeded ''edcba'')"
  using exhaustivelyPage_list [of "\<lambda>_. False" "''abcde''" 1] by simp

text \<open>the streaming pager delivers the pages of a list in order, together exactly the
  list, and then calls \<open>onFinish\<close> once; nothing is delivered twice or skipped.\<close>

theorem stream_start_list:
  assumes "\<And>n. \<not> cancelled n"
  shows "\<exists>pages. stream_start (arrayPager xs) None cancelled = Some (map NewPage pages @ [Finish]) \<and>
    concat pages = xs"
  using forward.streams_content [of xs Undefined cancelled 99 0 "[]"] assms
  by (auto simp: stream_start_def stream_fetch_forward marker_in_def list_from_def)

theorem stream_start_list_witness:
  "\<exists>pages. stream_start (arrayPager [0..<250]) None (\<lambda>_. False) =
     Some (map NewPage pages @ [Finish]) \<and> concat pages = [0..<250]"
  using stream_start_list [of "\<lambda>_. False" "[0..<250]"] by simp

text \<open>with the page size zero a non-empty list is paged forever and no callback is ever
  called: the marker never moves.\<close>

theorem exhaustivelyPage_zero_limit:
  assumes "xs \<noteq> []" and "\<And>n. \<not> cancelled n"
  shows "exhaustivelyPage (arrayPager xs)
    \<lparr>opt_limit = 0, opt_ascending = False, opt_params = Some no_params\<rparr> cancelled = None"
  unfolding exhaustivelyPage_def
  by (rule fetchNextPage_forever [where P = "\<lambda>m. m \<in> {Null, Val 0}"])
    (use assms in \<open>auto simp: fetch_page_def page_request_for_def effective_params_def no_params_def
      getMarker_def arrayPager_def\<close>)

theorem exhaustivelyPage_zero_limit_witness:
  "exhaustivelyPage (arrayPager ''ab'')
    \<lparr>opt_limit = 0, opt_ascending = False, opt_params = Some no_params\<rparr> (\<lambda>_. False) = None"
  by (rule exhaustivelyPage_zero_limit) simp_all

text \<open>a monitor that is cancelled before answer \<open>j\<close> arrives stops the paging of a list:
  success is reported exactly when the first \<open>j\<close> pages already hold the whole list, and
  otherwise no callback is called.\<close>

theorem exhaustivelyPage_cancelled:
  "exhaustivelyPage (arrayPager xs) (options_for False k) (\<lambda>i. j \<le> i) =
   Some (if 0 < j \<and> length xs \<le> j * Suc k then Succeeded xs else Cancelled)"
proof -
  have "fetch_page (arrayPager xs) (options_for False k) Null =
      fetch_page (arrayPager xs) (options_for False k) (Val (int 0))"
    by (simp add: fetch_page_forward marker_in_def)
  then have "exhaustivelyPage (arrayPager xs) (options_for False k) (\<lambda>i. j \<le> i) =
      fetchNextPage (fetch_page (arrayPager xs) (options_for False k)) (\<lambda>i. j \<le> i) 0 [] (Val (int 0))"
    by (simp add: exhaustivelyPage_def fetchNextPage.simps)
  then show ?thesis using cancelled_forward [of 0 xs k j 0 "[]"] by simp
qed

end
