(* ===== verification/Pageable.thy ===== *)
theory Pageable
  imports Paging
begin

section \<open>Paged components: web/js/pagination/make-pageable.js, paging-block.js\<close>

text \<open>
  \<open>makePageable\<close> wraps a component with the state of a pagination: it requests pages one after
  the other from the end that is being read, drops answers that belong to an earlier reset (their
  nonce differs), and renders a \<open>PagingBlock\<close> whose buttons navigate or reverse the direction.
  The theory has the state and its operations, the buttons of the block, the step relation of
  the component with its outstanding requests, and the invariant that every page it shows is
  the right slice of the data.
\<close>

subsection \<open>The buttons: paging-block.js\<close>

definition NUM_PAGES_EACH_SIDE :: int where
  "NUM_PAGES_EACH_SIDE = 3"

definition calculateEllipsisFlags :: "int \<Rightarrow> int \<Rightarrow> bool \<times> bool" where
  "calculateEllipsisFlags numPages currentPage =
     (let ellipsisNeeded = numPages > 2 * NUM_PAGES_EACH_SIDE + 1
      in (if ellipsisNeeded then currentPage - 0 > NUM_PAGES_EACH_SIDE else False,
          if ellipsisNeeded then numPages - 1 - currentPage > NUM_PAGES_EACH_SIDE else False))"

datatype page_action = NavigateTo int | ReversePaging

datatype page_button =
    SpinnerButton
  | ArrowButton "page_action option"
  | PageButton (btn_page: int) (btn_active: bool) (btn_action: page_action)
  | EllipsisButton

record block_props =
  bp_hasNextPage :: bool
  bp_hasPreviousPage :: bool
  bp_increment :: int
  bp_isEmpty :: bool
  bp_isPaging :: bool
  bp_numPages :: int
  bp_pageNumber :: int

definition interior_range :: "int \<Rightarrow> int \<Rightarrow> int \<times> int" where
  "interior_range numPages pageNumber =
     (let (showFirstEllipsis, showSecondEllipsis) = calculateEllipsisFlags numPages pageNumber
      in if showFirstEllipsis \<and> showSecondEllipsis then (pageNumber - 1, 3)
         else if showFirstEllipsis
         then (numPages - 1 - NUM_PAGES_EACH_SIDE - 1, NUM_PAGES_EACH_SIDE + 1)
         else if showSecondEllipsis then (1, NUM_PAGES_EACH_SIDE + 1)
         else (0, numPages))"

text \<open>The list items of the block from left to right; none when the block is not shown.\<close>

definition PagingBlock :: "block_props \<Rightarrow> page_button list" where
  "PagingBlock props =
     (if \<not> (\<not> bp_isEmpty props \<and> bp_numPages props > 1) then []
      else
        let page = bp_pageNumber props; n = bp_numPages props;
            (showFirstEllipsis, showSecondEllipsis) = calculateEllipsisFlags n page;
            prevButton =
              (if bp_increment props = -1 \<and> \<not> bp_hasPreviousPage props \<and> bp_isPaging props
               then SpinnerButton
               else ArrowButton (if bp_hasPreviousPage props then Some (NavigateTo (page - 1)) else None));
            nextButton =
              (if bp_increment props = 1 \<and> \<not> bp_hasNextPage props \<and> bp_isPaging props
               then SpinnerButton
               else ArrowButton (if bp_hasNextPage props then Some (NavigateTo (page + 1)) else None));
            firstButton = PageButton 0 (page = 0)
              (if bp_increment props = 1 then NavigateTo 0 else ReversePaging);
            lastButton = PageButton (n - 1) (page = n - 1)
              (if bp_increment props = 1 then ReversePaging else NavigateTo (n - 1));
            (start, count) = interior_range n page;
            interiorButtons = map (\<lambda>num. PageButton num (page = num) (NavigateTo num))
              [start .. start + count - 1];
            showFirstLastButton = (showFirstEllipsis \<or> showSecondEllipsis)
        in [prevButton]
           @ (if showFirstLastButton then [firstButton] else [])
           @ (if showFirstEllipsis then [EllipsisButton] else [])
           @ interiorButtons
           @ (if showSecondEllipsis then [EllipsisButton] else [])
           @ (if showFirstLastButton then [lastButton] else [])
           @ [nextButton])"

subsection \<open>The state of a paged component\<close>

record ('m, 'a) pageable =
  pg_after :: "'m jsopt"
  pg_before :: "'m jsopt"
  farthestPage :: "int option"
  increment :: int
  isPaging :: bool
  numPages :: int
  numResults :: "int option"
  page :: int
  pageData :: "(int \<times> 'a list) list"
  pagingNonce :: nat
  lastSeenPage :: "'a list option"
  sortAscending :: bool

abbreviation page_at :: "('m, 'a) pageable \<Rightarrow> int \<Rightarrow> 'a list option" where
  "page_at s \<equiv> map_of (pageData s)"

text \<open>
  A reset keeps the fields it does not mention, as \<open>setState\<close> merges. Nonces are drawn with
  \<open>Math.random\<close> in the code and numbered here: a new nonce differs from every earlier one.
\<close>

definition initialPagingState ::
  "nat \<Rightarrow> int option \<Rightarrow> ('m, 'a) pageable \<Rightarrow> ('m, 'a) pageable" where
  "initialPagingState nonce startPage s =
     s\<lparr>pg_after := Null, pg_before := Null, farthestPage := None, increment := 1,
       isPaging := True, numPages := 0, numResults := None,
       page := (case startPage of None \<Rightarrow> 0 | Some p \<Rightarrow> p),
       pageData := [], pagingNonce := nonce\<rparr>"

definition getPageWithBefore :: "('m, 'a) pageable \<Rightarrow> bool" where
  "getPageWithBefore s =
     ((sortAscending s \<and> increment s = -1) \<or> (\<not> sortAscending s \<and> increment s = 1))"

definition getAscending :: "('m, 'a) pageable \<Rightarrow> bool" where
  "getAscending s =
     ((sortAscending s \<and> increment s = 1) \<or> (\<not> sortAscending s \<and> increment s = -1))"

definition calculateFarthestPage :: "int \<Rightarrow> int \<Rightarrow> int \<Rightarrow> int" where
  "calculateFarthestPage pageIndex n inc =
     (let (showFirstEllipsis, showSecondEllipsis) = calculateEllipsisFlags n pageIndex
      in if showFirstEllipsis \<and> showSecondEllipsis then pageIndex + inc
         else if showFirstEllipsis
         then (if inc = 1 then n - 1 else n - 1 - NUM_PAGES_EACH_SIDE - 1)
         else if showSecondEllipsis then (if inc = 1 then NUM_PAGES_EACH_SIDE + 1 else 0)
         else (if inc = 1 then n - 1 else 0))"

subsection \<open>Requests\<close>

text \<open>A request with what its callback closes over: the page it is to fill and the nonce.\<close>

record 'm page_fetch =
  pf_request :: "'m page_request"
  pf_index :: int
  pf_nonce :: nat

definition effective_page_size :: "nat \<Rightarrow> nat" where
  "effective_page_size pageSizeProp = (if pageSizeProp = 0 then 20 else pageSizeProp)"

definition fillPage :: "nat \<Rightarrow> int \<Rightarrow> ('m, 'a) pageable \<Rightarrow> 'm page_fetch" where
  "fillPage pageSizeProp index s =
     (let normalPageSize = int (effective_page_size pageSizeProp);
          rest = (case numResults s of None \<Rightarrow> 0 | Some n \<Rightarrow> n mod normalPageSize);
          limitPageSize = (increment s = -1 \<and> index = numPages s - 1 \<and> rest \<noteq> 0)
      in \<lparr>pf_request =
            \<lparr>limit = Some (if limitPageSize then rest else normalPageSize),
             ascending = Some (getAscending s),
             req_before = (if getPageWithBefore s then pg_before s else Undefined),
             req_after = (if getPageWithBefore s then Undefined else pg_after s)\<rparr>,
          pf_index = index, pf_nonce = pagingNonce s\<rparr>)"

text \<open>\<open>_makePageKicker\<close>: the next request, if paging goes on and the nonce is still current.\<close>

definition makePageKicker ::
  "nat \<Rightarrow> nat \<Rightarrow> ('m, 'a) pageable \<Rightarrow> 'm page_fetch option" where
  "makePageKicker pageSizeProp nonce s =
     (if isPaging s \<and> nonce = pagingNonce s then
        (let numItemsLoaded = int (length (pageData s));
             pageToFill = (if increment s = 1 then numItemsLoaded
               else numPages s - 1 - numItemsLoaded);
             farthest = (case farthestPage s of None \<Rightarrow> 0 | Some f \<Rightarrow> f);
             continueKicking = (if increment s = 1 then pageToFill \<le> farthest
               else pageToFill \<ge> farthest)
         in if farthest = 0 \<or> continueKicking then Some (fillPage pageSizeProp pageToFill s)
            else None)
      else None)"

subsection \<open>Operations\<close>

definition last_seen :: "('m, 'a) pageable \<Rightarrow> 'a list option" where
  "last_seen s = page_at s (page s)"

definition reloadPages :: "nat \<Rightarrow> int option \<Rightarrow> ('m, 'a) pageable \<Rightarrow> ('m, 'a) pageable" where
  "reloadPages nonce startPage s =
     (initialPagingState nonce (Some (case startPage of None \<Rightarrow> 0 | Some p \<Rightarrow> p)) s)
       \<lparr>lastSeenPage := last_seen s\<rparr>"

definition refreshPage :: "nat \<Rightarrow> ('m, 'a) pageable \<Rightarrow> ('m, 'a) pageable" where
  "refreshPage nonce s =
     (initialPagingState nonce (Some 0) s)\<lparr>lastSeenPage := last_seen s, page := page s\<rparr>"

definition setSortAscending :: "nat \<Rightarrow> bool \<Rightarrow> ('m, 'a) pageable \<Rightarrow> ('m, 'a) pageable" where
  "setSortAscending nonce asc s = reloadPages nonce None (s\<lparr>sortAscending := asc\<rparr>)"

definition navigateToPage :: "int \<Rightarrow> ('m, 'a) pageable \<Rightarrow> ('m, 'a) pageable" where
  "navigateToPage pageNumber s =
     s\<lparr>page := pageNumber,
       farthestPage := Some (calculateFarthestPage pageNumber (numPages s) (increment s))\<rparr>"

definition reverse_paging :: "nat \<Rightarrow> ('m, 'a) pageable \<Rightarrow> ('m, 'a) pageable" where
  "reverse_paging nonce s =
     (let newIncrement = - increment s;
          newPage = (if newIncrement = 1 then 0 else numPages s - 1)
      in (initialPagingState nonce (Some 0) s)
           \<lparr>lastSeenPage := last_seen s, increment := newIncrement, page := newPage,
            numPages := numPages s,
            farthestPage := Some (calculateFarthestPage newPage (numPages s) newIncrement),
            numResults := numResults s\<rparr>)"

text \<open>
  \<open>_receivePage\<close>. The component must still be mounted, the nonce current and the page not yet
  filled. \<open>marker_truthy\<close> is the truthiness of a marker. The result says whether the url
  must be told that the page number was out of range.
\<close>

definition accepts_page :: "int \<Rightarrow> nat \<Rightarrow> ('m, 'a) pageable \<Rightarrow> bool" where
  "accepts_page index prevNonce s = (pagingNonce s = prevNonce \<and> page_at s index = None)"

definition storePage ::
  "('m jsopt \<Rightarrow> bool) \<Rightarrow> nat \<Rightarrow> ('m, 'a) page_response \<Rightarrow> int \<Rightarrow> ('m, 'a) pageable \<Rightarrow>
   ('m, 'a) pageable" where
  "storePage marker_truthy pageSizeProp response index s =
     (let pageSize = int (effective_page_size pageSizeProp);
          n = (int (resp_count response) + pageSize - 1) div pageSize;
          p = (if n \<ge> 0 \<and> page s \<ge> n then 0 else page s)
      in s\<lparr>pageData := AList.update index
              (if increment s = 1 then resp_data response else rev (resp_data response)) (pageData s),
           pg_after := resp_after response, pg_before := resp_before response,
           numPages := n, page := p, numResults := Some (int (resp_count response)),
           isPaging := marker_truthy
             (if getPageWithBefore s then resp_before response else resp_after response),
           farthestPage := Some (calculateFarthestPage p n (increment s))\<rparr>)"

definition isEmpty :: "('m, 'a) pageable \<Rightarrow> bool" where
  "isEmpty s = (sum_list (map (\<lambda>(_, data). length data) (pageData s)) = 0)"

definition block_of :: "('m, 'a) pageable \<Rightarrow> block_props" where
  "block_of s =
     \<lparr>bp_hasNextPage = (page_at s (page s) \<noteq> None \<and> page_at s (page s + 1) \<noteq> None),
      bp_hasPreviousPage = (page_at s (page s) \<noteq> None \<and> page_at s (page s - 1) \<noteq> None),
      bp_increment = increment s,
      bp_isEmpty = (\<not> isPaging s \<and> isEmpty s),
      bp_isPaging = isPaging s,
      bp_numPages = numPages s,
      bp_pageNumber = page s\<rparr>"


subsection \<open>The component with its outstanding requests\<close>

text \<open>
  The items are a fixed list, served by \<open>arrayPager\<close> through markers whose truthiness is that of
  a number. Each operation is followed by the callback of its \<open>setState\<close>, which may send one more
  request; answers may arrive in any order. The buttons a user can press are those of the block.
\<close>

fun marker_truthy :: "int jsopt \<Rightarrow> bool" where
  "marker_truthy (Val m) = (m \<noteq> 0)"
| "marker_truthy _ = False"

record 'a paged_system =
  pgs_state :: "(int, 'a) pageable"
  pgs_inflight :: "int page_fetch list"
  pgs_mounted :: bool
  pgs_fresh :: nat

datatype paged_event =
    Unmount
  | Reload "int option"
  | Refresh
  | SetSort bool
  | Click page_action
  | Deliver nat

definition kick :: "nat \<Rightarrow> nat \<Rightarrow> (int, 'a) pageable \<Rightarrow> int page_fetch list" where
  "kick ps nonce s = (case makePageKicker ps nonce s of None \<Rightarrow> [] | Some f \<Rightarrow> [f])"

definition after_update ::
  "nat \<Rightarrow> (int, 'a) pageable \<Rightarrow> 'a paged_system \<Rightarrow> 'a paged_system" where
  "after_update ps s sys =
     sys\<lparr>pgs_state := s, pgs_inflight := pgs_inflight sys @ kick ps (pagingNonce s) s,
        pgs_fresh := Suc (pgs_fresh sys)\<rparr>"

definition constructed :: "int option \<Rightarrow> (int, 'a) pageable" where
  "constructed startPage =
     \<lparr>pg_after = Null, pg_before = Null, farthestPage = None, increment = 1, isPaging = True,
      numPages = 0, numResults = None, page = (case startPage of None \<Rightarrow> 0 | Some p \<Rightarrow> p),
      pageData = [], pagingNonce = 0, lastSeenPage = None, sortAscending = False\<rparr>"

definition componentDidMount :: "nat \<Rightarrow> int option \<Rightarrow> 'a paged_system" where
  "componentDidMount ps startPage =
     after_update ps (reloadPages 1 startPage (constructed startPage))
       \<lparr>pgs_state = constructed startPage, pgs_inflight = [], pgs_mounted = True, pgs_fresh = 2\<rparr>"

definition offered :: "(int, 'a) pageable \<Rightarrow> page_action \<Rightarrow> bool" where
  "offered s act =
     list_ex (\<lambda>b. case b of
         ArrowButton (Some a) \<Rightarrow> a = act
       | PageButton _ _ a \<Rightarrow> a = act
       | _ \<Rightarrow> False) (PagingBlock (block_of s))"

definition receivePage ::
  "nat \<Rightarrow> int page_fetch \<Rightarrow> (int, 'a) page_response \<Rightarrow> 'a paged_system \<Rightarrow> 'a paged_system" where
  "receivePage ps f resp sys =
     (if pgs_mounted sys \<and> accepts_page (pf_index f) (pf_nonce f) (pgs_state sys)
      then after_update ps (storePage marker_truthy ps resp (pf_index f) (pgs_state sys)) sys
      else sys)"

fun paged_step :: "nat \<Rightarrow> 'a list \<Rightarrow> paged_event \<Rightarrow> 'a paged_system \<Rightarrow> 'a paged_system option" where
  "paged_step ps xs Unmount sys = Some (sys\<lparr>pgs_mounted := False\<rparr>)"
| "paged_step ps xs (Reload startPage) sys =
     (if pgs_mounted sys
      then Some (after_update ps (reloadPages (pgs_fresh sys) startPage (pgs_state sys)) sys)
      else None)"
| "paged_step ps xs Refresh sys =
     (if pgs_mounted sys
      then Some (after_update ps (refreshPage (pgs_fresh sys) (pgs_state sys)) sys) else None)"
| "paged_step ps xs (SetSort asc) sys =
     (if pgs_mounted sys
      then Some (after_update ps (setSortAscending (pgs_fresh sys) asc (pgs_state sys)) sys)
      else None)"
| "paged_step ps xs (Click (NavigateTo p)) sys =
     (if pgs_mounted sys \<and> offered (pgs_state sys) (NavigateTo p)
      then Some (after_update ps (navigateToPage p (pgs_state sys)) sys) else None)"
| "paged_step ps xs (Click ReversePaging) sys =
     (if pgs_mounted sys \<and> offered (pgs_state sys) ReversePaging
      then Some (after_update ps (reverse_paging (pgs_fresh sys) (pgs_state sys)) sys) else None)"
| "paged_step ps xs (Deliver i) sys =
     (if i < length (pgs_inflight sys)
      then (case arrayPager xs (pf_request (pgs_inflight sys ! i)) of
         Inl _ \<Rightarrow> None
       | Inr resp \<Rightarrow> Some (receivePage ps (pgs_inflight sys ! i) resp
           (sys\<lparr>pgs_inflight := take i (pgs_inflight sys) @ drop (Suc i) (pgs_inflight sys)\<rparr>)))
      else None)"

inductive paged_reach :: "nat \<Rightarrow> 'a list \<Rightarrow> 'a paged_system \<Rightarrow> bool" for ps xs where
  mounted: "startPage = None \<or> 0 \<le> the startPage \<Longrightarrow>
    paged_reach ps xs (componentDidMount ps startPage)"
| stepped: "paged_reach ps xs sys \<Longrightarrow> paged_step ps xs ev sys = Some sys' \<Longrightarrow>
    (\<forall>p. ev = Reload (Some p) \<longrightarrow> 0 \<le> p) \<Longrightarrow> paged_reach ps xs sys'"

subsection \<open>The buttons of the block\<close>

lemma ellipsis_simps:
  "calculateEllipsisFlags n p = (7 < n \<and> 3 < p, 7 < n \<and> 3 < n - 1 - p)"
  by (simp add: calculateEllipsisFlags_def NUM_PAGES_EACH_SIDE_def Let_def)

lemma farthest_simps:
  "calculateFarthestPage p n d =
     (if 7 < n \<and> 3 < p \<and> 3 < n - 1 - p then p + d
      else if 7 < n \<and> 3 < p then (if d = 1 then n - 1 else n - 5)
      else if 7 < n \<and> 3 < n - 1 - p then (if d = 1 then 4 else 0)
      else if d = 1 then n - 1 else 0)"
  by (auto simp: calculateFarthestPage_def ellipsis_simps NUM_PAGES_EACH_SIDE_def)

lemmas block_simps = PagingBlock_def interior_range_def ellipsis_simps NUM_PAGES_EACH_SIDE_def Let_def

fun page_buttons :: "page_button list \<Rightarrow> (int \<times> bool \<times> page_action) list" where
  "page_buttons [] = []"
| "page_buttons (PageButton p a act # bs) = (p, a, act) # page_buttons bs"
| "page_buttons (b # bs) = page_buttons bs"

lemma page_buttons_append [simp]: "page_buttons (a @ b) = page_buttons a @ page_buttons b"
  by (induction a rule: page_buttons.induct) simp_all

lemma page_buttons_map [simp]:
  "page_buttons (map (\<lambda>k. PageButton k (f k) (g k)) ks) = map (\<lambda>k. (k, f k, g k)) ks"
  by (induction ks) simp_all
lemma arrow_buttons [simp]:
  "page_buttons (if c then [PageButton p a act] else []) = (if c then [(p, a, act)] else [])"
  "page_buttons (if c then [EllipsisButton] else []) = []"
  by simp_all

lemma page_buttons_spin [simp]:
  "page_buttons ((if c then SpinnerButton else ArrowButton x) # bs) = page_buttons bs"
  by simp

definition block_pages :: "block_props \<Rightarrow> (int \<times> bool \<times> page_action) list" where
  "block_pages props = page_buttons (PagingBlock props)"

definition page_cell :: "int \<Rightarrow> page_action \<Rightarrow> int \<Rightarrow> int \<times> bool \<times> page_action" where
  "page_cell p act k = (k, p = k, act)"

definition inner_cells :: "int \<Rightarrow> int \<Rightarrow> int \<Rightarrow> (int \<times> bool \<times> page_action) list" where
  "inner_cells p a b = map (\<lambda>k. (k, p = k, NavigateTo k)) [a..b]"

definition first_cell :: "block_props \<Rightarrow> int \<times> bool \<times> page_action" where
  "first_cell props = (0, bp_pageNumber props = 0,
     if bp_increment props = 1 then NavigateTo 0 else ReversePaging)"

definition last_cell :: "block_props \<Rightarrow> int \<times> bool \<times> page_action" where
  "last_cell props = (bp_numPages props - 1, bp_pageNumber props = bp_numPages props - 1,
     if bp_increment props = 1 then ReversePaging else NavigateTo (bp_numPages props - 1))"

lemma block_pages_cases:
  fixes props :: block_props
  defines "n \<equiv> bp_numPages props" and "p \<equiv> bp_pageNumber props"
  assumes "\<not> bp_isEmpty props" and "1 < n"
  obtains (small) "n \<le> 7" and "block_pages props = inner_cells p 0 (n - 1)"
  | (middle) "7 < n" and "3 < p" and "3 < n - 1 - p"
      and "block_pages props = first_cell props # inner_cells p (p - 1) (p + 1) @ [last_cell props]"
  | (late) "7 < n" and "n - 1 - p \<le> 3"
      and "block_pages props = first_cell props # inner_cells p (n - 5) (n - 2) @ [last_cell props]"
  | (early) "7 < n" and "p \<le> 3"
      and "block_pages props = first_cell props # inner_cells p 1 4 @ [last_cell props]"
proof (cases "7 < n")
  case False
  then show ?thesis
    using assms by (intro small) (simp_all add: block_pages_def block_simps inner_cells_def)
next
  case big: True
  show ?thesis
  proof (cases "3 < p")
    case False
    then show ?thesis using big assms
      by (intro early)
        (simp_all add: block_pages_def block_simps inner_cells_def first_cell_def last_cell_def)
  next
    case True
    have eq: "1 + p = p + 1" by simp
    show ?thesis
    proof (cases "3 < n - 1 - p")
      case True
      with \<open>3 < p\<close> big show ?thesis using assms eq
        by (intro middle)
          (simp_all add: block_pages_def block_simps inner_cells_def first_cell_def last_cell_def add.commute)
    next
      case False
      with \<open>3 < p\<close> big show ?thesis using assms
        by (intro late)
          (simp_all add: block_pages_def block_simps inner_cells_def first_cell_def last_cell_def)
    qed
  qed
qed

lemma active_upto: "filter (\<lambda>k. p = k) [a..b::int] = (if a \<le> p \<and> p \<le> b then [p] else [])"
proof (induction a b rule: upto.induct)
  case (1 i j)
  then show ?case by (cases "i \<le> j") (auto simp: upto.simps [of i j])
qed

lemma inner_cells_facts:
  "map fst (inner_cells p a b) = [a..b]"
  "map fst (filter (\<lambda>c. fst (snd c)) (inner_cells p a b)) = (if a \<le> p \<and> p \<le> b then [p] else [])"
  "set (inner_cells p a b) = (\<lambda>k. (k, p = k, NavigateTo k)) ` {a..b}"
  by (simp_all add: inner_cells_def comp_def filter_map active_upto)

lemma PagingBlock_pages:
  assumes "\<not> bp_isEmpty props" and "1 < bp_numPages props"
    and "0 \<le> bp_pageNumber props" and "bp_pageNumber props < bp_numPages props"
  shows "sorted_wrt (<) (map fst (block_pages props)) \<and>
    set (map fst (block_pages props)) \<subseteq> {0..<bp_numPages props} \<and>
    map fst (filter (\<lambda>c. fst (snd c)) (block_pages props)) = [bp_pageNumber props]"
  using assms(1,2)
proof (cases rule: block_pages_cases)
  case small
  then show ?thesis using assms by (auto simp: inner_cells_facts)
qed (use assms in \<open>auto simp: inner_cells_facts sorted_wrt_append first_cell_def last_cell_def simp del: set_map simp flip: set_map\<close>)

subsection \<open>Pages and cursors\<close>

definition view_list :: "'a list \<Rightarrow> (int, 'a) pageable \<Rightarrow> 'a list" where
  "view_list xs s = (if sortAscending s then rev xs else xs)"

definition page_of :: "nat \<Rightarrow> 'a list \<Rightarrow> int \<Rightarrow> 'a list" where
  "page_of P xs i = take P (drop (nat i * P) xs)"

definition page_total :: "nat \<Rightarrow> 'a list \<Rightarrow> nat" where
  "page_total P xs = (length xs + P - 1) div P"

definition last_size :: "nat \<Rightarrow> 'a list \<Rightarrow> nat" where
  "last_size P xs = (if length xs mod P = 0 then P else length xs mod P)"

definition cursor :: "nat \<Rightarrow> 'a list \<Rightarrow> int \<Rightarrow> nat \<Rightarrow> nat" where
  "cursor P xs d c = (if d = 1 then c * P else if c = 0 then 0 else last_size P xs + (c - 1) * P)"

lemma take_rev_slice:
  assumes "k + l \<le> length xs"
  shows "rev (take l (drop k (rev xs))) = take l (drop (length xs - (k + l)) xs)"
proof -
  have "rev (take l (drop k (rev xs))) = drop (length xs - k - l) (take (length xs - k) xs)"
    by (simp add: drop_rev take_rev min_absorb2)
  then show ?thesis using assms by (simp add: drop_take)
qed

lemma page_answer:
  assumes "limit r = Some (int l)" and "0 < l" and "k \<le> length xs"
    and "if b then req_after r = Undefined \<and> req_before r = (if k = 0 then Null else Val (int k))
      else req_after r = (if k = 0 then Null else Val (int (length xs - k)))"
  shows "\<exists>resp. arrayPager xs r = Inr resp \<and> resp_count resp = length xs \<and>
    resp_data resp = take l (drop k (if b then xs else rev xs)) \<and>
    (let m = (if b then resp_before resp else resp_after resp)
     in (marker_truthy m \<longleftrightarrow> k + l < length xs) \<and>
        (k + l < length xs \<longrightarrow> m = Val (int (if b then k + l else length xs - (k + l)))))"
proof (cases b)
  case True
  have "arrayPager xs r = Inr \<lparr>resp_count = length xs, resp_data = take l (drop k xs),
    resp_before = (if k + l < length xs then Val (int (k + l)) else Null),
    resp_after = Undefined\<rparr>"
    using assms True by (intro arrayPager_forward) (auto split: if_splits)
  then show ?thesis using True assms(2) by simp
next
  case False
  define a where "a = length xs - k"
  have eq: "arrayPager xs r = Inr \<lparr>resp_count = length xs,
    resp_data = rev (take (a - (a - l)) (drop (a - l) xs)), resp_before = Undefined,
    resp_after = (if l \<le> a then Val (int (a - l)) else Null)\<rparr>"
    using assms False by (intro arrayPager_backward) (auto simp: a_def split: if_splits)
  have data: "rev (take (a - (a - l)) (drop (a - l) xs)) = take l (drop k (rev xs))"
  proof (cases "l \<le> a")
    case True
    have "rev (take l (drop k (rev xs))) = take l (drop (length xs - (k + l)) xs)"
      using True assms(3) by (intro take_rev_slice) (simp add: a_def)
    moreover have "a - (a - l) = l" "a - l = length xs - (k + l)"
      using True assms(3) by (simp_all add: a_def)
    ultimately show ?thesis by (metis rev_rev_ident)
  next
    case False
    have "drop k (rev xs) = rev (take a xs)" by (simp add: drop_rev a_def)
    with False show ?thesis by simp
  qed
  show ?thesis
    unfolding eq data using False assms(2,3)
    by (auto simp: a_def)
qed

lemma page_split:
  assumes "0 < P" and "xs \<noteq> []"
  obtains m where "page_total P xs = Suc m" and "length xs = m * P + last_size P xs"
    and "0 < last_size P xs" and "last_size P xs \<le> P"
proof -
  have pos: "0 < length xs" using assms by simp
  show ?thesis
  proof (cases "length xs mod P = 0")
    case True
    then obtain q where q: "length xs = P * q" by auto
    with pos have "0 < q" by (cases q) auto
    moreover have "(P * q + P - 1) div P = q"
      using assms(1) by (intro div_nat_eqI) (auto simp: algebra_simps)
    ultimately show ?thesis using assms(1) q
      by (intro that [of "q - 1"]) (auto simp: page_total_def last_size_def algebra_simps)
  next
    case False
    define q where "q = length xs div P"
    define r where "r = length xs mod P"
    have len: "length xs = q * P + r" by (simp add: q_def r_def)
    have r: "0 < r" "r < P" using False assms(1) by (auto simp: r_def)
    have "(q * P + r + P - 1) div P = Suc q"
      using r by (intro div_nat_eqI) (auto simp: algebra_simps)
    then have total: "page_total P xs = Suc q" by (simp add: page_total_def len)
    have last: "last_size P xs = r" using False by (simp add: last_size_def r_def)
    show ?thesis
      by (rule that [of q]) (use total last len r in simp_all)
  qed
qed

subsection \<open>The pages that are loaded\<close>

definition next_index :: "(int, 'a) pageable \<Rightarrow> int" where
  "next_index s = (if increment s = 1 then int (length (pageData s))
     else numPages s - 1 - int (length (pageData s)))"

definition loaded_pages :: "int \<Rightarrow> nat \<Rightarrow> nat \<Rightarrow> int set" where
  "loaded_pages d N c = (if d = 1 then {0..<int c} else {int N - int c..<int N})"

lemma card_loaded [simp]: "card (loaded_pages d N c) = c"
  by (simp add: loaded_pages_def)

definition paging_inv :: "nat \<Rightarrow> 'a list \<Rightarrow> (int, 'a) pageable \<Rightarrow> nat \<Rightarrow> bool" where
  "paging_inv P xs s c =
     ((increment s = 1 \<or> increment s = -1) \<and> distinct (map fst (pageData s)) \<and>
      dom (page_at s) = loaded_pages (increment s) (page_total P xs) c \<and>
      (\<forall>i d. page_at s i = Some d \<longrightarrow> d = page_of P (view_list xs s) i) \<and>
      (increment s = -1 \<longrightarrow> 0 < numPages s) \<and>
      (0 < numPages s \<or> 0 < c \<longrightarrow>
         numPages s = int (page_total P xs) \<and> numResults s = Some (int (length xs))) \<and>
      (c = 0 \<longrightarrow> isPaging s \<and> pg_before s = Null \<and> pg_after s = Null) \<and>
      (0 < c \<longrightarrow> (isPaging s \<longleftrightarrow> cursor P xs (increment s) c < length xs) \<and>
         (isPaging s \<longrightarrow> (if getPageWithBefore s
            then pg_before s = Val (int (cursor P xs (increment s) c))
            else pg_after s = Val (int (length xs - cursor P xs (increment s) c))))) \<and>
      c \<le> (if page_total P xs = 0 then 1 else page_total P xs) \<and>
      0 \<le> numPages s)"

lemma distinct_length_dom: "distinct (map fst ps) \<Longrightarrow> length ps = card (dom (map_of ps))"
  by (simp add: dom_map_of_conv_image_fst distinct_card flip: set_map)

lemma paging_inv_length: "paging_inv P xs s c \<Longrightarrow> length (pageData s) = c"
  by (simp add: paging_inv_def distinct_length_dom)

lemma paging_inv_next:
  assumes "paging_inv P xs s c"
  shows "next_index s = (if increment s = 1 then int c else int (page_total P xs) - 1 - int c)"
  using assms paging_inv_length [OF assms] by (auto simp: paging_inv_def next_index_def)

lemma effective_pos: "0 < effective_page_size ps"
  by (simp add: effective_page_size_def)

lemma total_int: "0 < P \<Longrightarrow> (int (length xs) + int P - 1) div int P = int (page_total P xs)"
proof -
  assume "0 < P"
  then have "int (length xs) + int P - 1 = int (length xs + P - 1)" by simp
  then show ?thesis by (simp only: page_total_def zdiv_int)
qed

lemma page_total_0 [simp]: "page_total P [] = 0"
  by (cases P) (simp_all add: page_total_def)

text \<open>The cursor stays inside the list while paging goes on.\<close>

lemma cursor_le:
  assumes P: "0 < P" and c: "0 < c \<longrightarrow> cursor P xs d c < length xs" and "xs \<noteq> []"
  shows "c < page_total P xs"
proof -
  obtain m where m: "page_total P xs = Suc m" "length xs = m * P + last_size P xs"
    "0 < last_size P xs" "last_size P xs \<le> P"
    using page_split [OF P assms(3)] .
  show ?thesis
  proof (rule ccontr)
    assume "\<not> ?thesis"
    with m(1) have "Suc m \<le> c" by simp
    then obtain k where "c = Suc m + k" using le_Suc_ex by blast
    then have k: "c = Suc (m + k)" by simp
    then have "(m + k) * P + last_size P xs < length xs \<or> P + (m + k) * P < length xs"
      using c by (auto simp: cursor_def split: if_splits)
    moreover have "m * P \<le> (m + k) * P" by simp
    ultimately show False using m(2,4) by linarith
  qed
qed

lemma fillPage_answer:
  assumes inv: "paging_inv P xs s c" and pg: "isPaging s" and P: "P = effective_page_size ps"
  defines "k \<equiv> if c = 0 then 0 else cursor P xs (increment s) c"
    and "l \<equiv> if increment s = -1 \<and> c = 0 then last_size P xs else P"
    and "b \<equiv> getPageWithBefore s"
  shows "\<exists>resp. arrayPager xs (pf_request (fillPage ps (next_index s) s)) = Inr resp \<and>
    resp_count resp = length xs \<and>
    resp_data resp = take l (drop k (if b then xs else rev xs)) \<and>
    (let m = (if b then resp_before resp else resp_after resp)
     in (marker_truthy m \<longleftrightarrow> k + l < length xs) \<and>
        (k + l < length xs \<longrightarrow> m = Val (int (if b then k + l else length xs - (k + l)))))"
proof (rule page_answer)
  have Ppos: "0 < P" by (simp add: P effective_pos)
  have last: "0 < last_size P xs" "last_size P xs = (if length xs mod P = 0 then P else length xs mod P)"
    using Ppos by (auto simp: last_size_def)
  then show "0 < l" using Ppos by (simp add: l_def)
  have idx: "next_index s = numPages s - 1 \<longleftrightarrow> c = 0" if "increment s = -1"
    using paging_inv_next [OF inv] that inv unfolding paging_inv_def by auto
  have res: "numResults s = Some (int (length xs))" if "increment s = -1"
    using inv that by (auto simp: paging_inv_def)
  have md: "int (length xs) mod int P = int (length xs mod P)" by (simp add: zmod_int)
  show "limit (pf_request (fillPage ps (next_index s) s)) = Some (int l)"
    using idx res by (auto simp: fillPage_def Let_def l_def last md simp flip: P)
  show "k \<le> length xs" using inv pg by (auto simp: k_def paging_inv_def)
  show "if b
    then req_after (pf_request (fillPage ps (next_index s) s)) = Undefined \<and>
         req_before (pf_request (fillPage ps (next_index s) s)) = (if k = 0 then Null else Val (int k))
    else req_after (pf_request (fillPage ps (next_index s) s)) =
         (if k = 0 then Null else Val (int (length xs - k)))"
    using inv pg Ppos last(1) unfolding b_def k_def
    by (auto simp: fillPage_def Let_def paging_inv_def cursor_def)
qed


subsection \<open>Storing a page\<close>

lemma paging_inv_inside:
  assumes "paging_inv P xs s c" and "isPaging s" and "0 < P"
    and "xs \<noteq> [] \<or> increment s = -1"
  shows "c < page_total P xs" and "xs \<noteq> []"
proof -
  show ne: "xs \<noteq> []" using assms by (auto simp: paging_inv_def)
  have "0 < c \<longrightarrow> cursor P xs (increment s) c < length xs"
    using assms by (auto simp: paging_inv_def)
  then show "c < page_total P xs" using cursor_le assms(3) ne by blast
qed

lemma loaded_Suc:
  "insert (if d = 1 then int c else int N - 1 - int c) (loaded_pages d N c) =
   loaded_pages d N (Suc c)"
  by (auto simp: loaded_pages_def)

lemma cursor_Suc:
  "cursor P xs d (Suc c) =
     (if c = 0 then 0 else cursor P xs d c) + (if d \<noteq> 1 \<and> c = 0 then last_size P xs else P)"
  by (cases c) (auto simp: cursor_def)

lemma forward_page: "take P (drop (cursor P xs 1 c) ys) = page_of P ys (int c)"
  by (simp add: cursor_def page_of_def)

lemma reverse_page:
  fixes xs ys :: "'a list"
  assumes P: "0 < P" and c: "c < page_total P xs" and ne: "xs \<noteq> []" and len: "length ys = length xs"
  shows "rev (take (if c = 0 then last_size P xs else P)
      (drop (if c = 0 then 0 else cursor P xs (-1) c) (rev ys))) =
    page_of P ys (int (page_total P xs) - 1 - int c)"
proof -
  obtain m where m: "page_total P xs = Suc m" "length xs = m * P + last_size P xs"
    "0 < last_size P xs" "last_size P xs \<le> P"
    using page_split [OF P ne] .
  have idx: "nat (int (page_total P xs) - 1 - int c) = m - c" using m(1) c by simp
  show ?thesis
  proof (cases c)
    case 0
    have "rev (take (last_size P xs) (drop 0 (rev ys))) = drop (m * P) ys"
      using m(2) len by (simp add: take_rev)
    moreover have "take P (drop (m * P) ys) = drop (m * P) ys" using m(2,4) len by simp
    ultimately show ?thesis using 0 idx by (simp add: page_of_def)
  next
    case (Suc k)
    have split: "m * P = (m - c) * P + P + k * P"
      using Suc m(1) c by (metis add_mult_distrib le_add_diff_inverse2 less_Suc_eq_le mult_Suc add.assoc)
    have cur: "cursor P xs (-1) c = last_size P xs + k * P" by (simp add: cursor_def Suc)
    have "rev (take P (drop (cursor P xs (-1) c) (rev ys))) =
        take P (drop (length ys - (cursor P xs (-1) c + P)) ys)"
      by (rule take_rev_slice) (use m(2) len split cur in linarith)
    moreover have "length ys - (cursor P xs (-1) c + P) = (m - c) * P"
      using m(2) len split cur by linarith
    ultimately show ?thesis using Suc idx by (simp add: page_of_def)
  qed
qed

lemma stored_data:
  assumes inv: "paging_inv P xs s c" and pg: "isPaging s" and P: "P = effective_page_size ps"
    and resp: "arrayPager xs (pf_request (fillPage ps (next_index s) s)) = Inr resp"
  shows "(if increment s = 1 then resp_data resp else rev (resp_data resp)) =
    page_of P (view_list xs s) (next_index s)"
proof -
  have Ppos: "0 < P" by (simp add: P effective_pos)
  have inc: "increment s = 1 \<or> increment s = -1" using inv by (simp add: paging_inv_def)
  define k where "k = (if c = 0 then 0 else cursor P xs (increment s) c)"
  define l where "l = (if increment s = -1 \<and> c = 0 then last_size P xs else P)"
  have data: "resp_data resp = take l (drop k (if getPageWithBefore s then xs else rev xs))"
    using fillPage_answer [OF inv pg P] resp unfolding k_def l_def by auto
  show ?thesis
  proof (cases "increment s = 1")
    case True
    have "(if getPageWithBefore s then xs else rev xs) = view_list xs s"
      using True by (auto simp: getPageWithBefore_def view_list_def)
    moreover have "k = cursor P xs 1 c" by (simp add: k_def True cursor_def)
    ultimately show ?thesis
      using True data paging_inv_next [OF inv] by (simp add: l_def forward_page)
  next
    case False
    with inc have m1: "increment s = -1" by simp
    have "(if getPageWithBefore s then xs else rev xs) = rev (view_list xs s)"
      using m1 by (auto simp: getPageWithBefore_def view_list_def)
    moreover have "c < page_total P xs" "xs \<noteq> []"
      using paging_inv_inside [OF inv pg Ppos] m1 by simp_all
    moreover have "length (view_list xs s) = length xs" by (simp add: view_list_def)
    ultimately show ?thesis
      using data m1 paging_inv_next [OF inv] reverse_page [OF Ppos, of c xs "view_list xs s"]
      by (cases "c = 0") (simp_all add: l_def k_def)
  qed
qed

lemma storePage_inv:
  assumes inv: "paging_inv P xs s c" and pg: "isPaging s" and P: "P = effective_page_size ps"
    and resp: "arrayPager xs (pf_request (fillPage ps (next_index s) s)) = Inr resp"
  shows "paging_inv P xs (storePage marker_truthy ps resp (next_index s) s) (Suc c)"
proof -
  have Ppos: "0 < P" by (simp add: P effective_pos)
  let ?d = "increment s" and ?s = "storePage marker_truthy ps resp (next_index s) s"
  have inc: "?d = 1 \<or> ?d = -1" using inv by (simp add: paging_inv_def)
  have cur: "cursor P xs ?d (Suc c) = (if c = 0 then 0 else cursor P xs ?d c) +
      (if ?d = -1 \<and> c = 0 then last_size P xs else P)"
    using inc by (auto simp: cursor_Suc)
  have ans: "resp_count resp = length xs"
    "let m = (if getPageWithBefore s then resp_before resp else resp_after resp)
     in (marker_truthy m \<longleftrightarrow> cursor P xs ?d (Suc c) < length xs) \<and>
        (cursor P xs ?d (Suc c) < length xs \<longrightarrow> m = Val (int (if getPageWithBefore s
           then cursor P xs ?d (Suc c) else length xs - cursor P xs ?d (Suc c))))"
    using fillPage_answer [OF inv pg P] resp unfolding cur by auto
  have fields: "increment ?s = ?d" "sortAscending ?s = sortAscending s"
    "numPages ?s = int (page_total P xs)" "numResults ?s = Some (int (length xs))"
    "page_at ?s = (page_at s)(next_index s \<mapsto> page_of P (view_list xs s) (next_index s))"
    "pg_before ?s = resp_before resp" "pg_after ?s = resp_after resp"
    "isPaging ?s = marker_truthy (if getPageWithBefore s then resp_before resp else resp_after resp)"
    using ans(1) total_int [OF Ppos] stored_data [OF inv pg P resp]
    by (simp_all add: storePage_def Let_def update_conv' flip: P)
  have distinct: "distinct (map fst (pageData ?s))"
    using inv by (auto simp: storePage_def Let_def paging_inv_def intro: distinct_update)
  have mode: "getPageWithBefore ?s = getPageWithBefore s" "view_list xs ?s = view_list xs s"
    by (simp_all add: getPageWithBefore_def view_list_def fields)
  have bound: "Suc c \<le> (if page_total P xs = 0 then 1 else page_total P xs)"
  proof (cases "xs = [] \<and> ?d = 1")
    case True
    then have "c = 0" using inv pg by (auto simp: paging_inv_def)
    then show ?thesis by simp
  next
    case False
    then show ?thesis using paging_inv_inside [OF inv pg Ppos] inc by auto
  qed
  have neg: "?d = -1 \<longrightarrow> 0 < page_total P xs"
    using inv by (auto simp: paging_inv_def)
  have dom: "dom (page_at ?s) = loaded_pages ?d (page_total P xs) (Suc c)"
    unfolding fields dom_fun_upd using inv loaded_Suc [of ?d c "page_total P xs"]
    unfolding paging_inv_next [OF inv] by (simp add: paging_inv_def)
  have data: "\<forall>i d. page_at ?s i = Some d \<longrightarrow> d = page_of P (view_list xs s) i"
    using inv by (auto simp: fields paging_inv_def)
  have paging: "isPaging ?s \<longleftrightarrow> cursor P xs ?d (Suc c) < length xs"
    using ans(2) by (simp add: fields Let_def)
  have marker: "isPaging ?s \<longrightarrow> (if getPageWithBefore s
      then pg_before ?s = Val (int (cursor P xs ?d (Suc c)))
      else pg_after ?s = Val (int (length xs - cursor P xs ?d (Suc c))))"
    unfolding paging fields(6,7) using ans(2) by (cases "getPageWithBefore s") (simp_all add: Let_def)
  show ?thesis
    unfolding paging_inv_def mode fields(1,3,4)
    by (intro conjI impI)
      (use inc neg bound distinct dom data paging marker in \<open>simp_all add: view_list_def fields(2)\<close>)
qed

subsection \<open>The invariant of the component\<close>

definition page_ok :: "(int, 'a) pageable \<Rightarrow> nat \<Rightarrow> bool" where
  "page_ok s c = (0 \<le> page s \<and>
     (farthestPage s = None \<and> c = 0 \<and> numPages s = 0 \<or>
      farthestPage s = Some (calculateFarthestPage (page s) (numPages s) (increment s)) \<and>
        (if numPages s = 0 then 0 < c \<and> page s = 0 else page s < numPages s)))"

definition system_inv :: "nat \<Rightarrow> 'a list \<Rightarrow> 'a paged_system \<Rightarrow> bool" where
  "system_inv ps xs sys =
     (\<exists>c. paging_inv (effective_page_size ps) xs (pgs_state sys) c \<and> page_ok (pgs_state sys) c \<and>
        pagingNonce (pgs_state sys) < pgs_fresh sys \<and>
        (\<forall>f \<in> set (pgs_inflight sys). pf_nonce f < pgs_fresh sys \<and>
           (pf_nonce f = pagingNonce (pgs_state sys) \<longrightarrow> page_at (pgs_state sys) (pf_index f) = None \<longrightarrow>
              isPaging (pgs_state sys) \<and>
              f = fillPage ps (next_index (pgs_state sys)) (pgs_state sys))) \<and>
        (pgs_mounted sys \<longrightarrow> set (kick ps (pagingNonce (pgs_state sys)) (pgs_state sys))
           \<subseteq> set (pgs_inflight sys)))"

lemma kick_elem:
  "f \<in> set (kick ps n s) \<Longrightarrow> n = pagingNonce s \<and> isPaging s \<and> f = fillPage ps (next_index s) s"
  by (auto simp: kick_def makePageKicker_def next_index_def Let_def split: if_splits)

lemma fillPage_fields [simp]:
  "pf_nonce (fillPage ps i s) = pagingNonce s" "pf_index (fillPage ps i s) = i"
  by (simp_all add: fillPage_def Let_def)

lemma next_index_fresh:
  assumes "paging_inv P xs s c"
  shows "page_at s (next_index s) = None"
proof -
  have "next_index s \<notin> loaded_pages (increment s) (page_total P xs) c"
    using paging_inv_next [OF assms] by (auto simp: loaded_pages_def)
  then show ?thesis using assms by (auto simp: paging_inv_def dom_def)
qed

text \<open>A reset draws a new nonce and forgets every page.\<close>

lemma reset_system:
  assumes "system_inv ps xs sys" and "pagingNonce s' = pgs_fresh sys"
    and "paging_inv (effective_page_size ps) xs s' 0" and "page_ok s' 0"
  shows "system_inv ps xs (after_update ps s' sys)"
  using assms unfolding system_inv_def
  by (intro exI [of _ 0]) (auto simp: after_update_def less_Suc_eq dest: kick_elem)

lemma reset_inv:
  assumes "increment s = 1" "isPaging s" "numPages s = 0" "pageData s = []"
    "pg_before s = Null" "pg_after s = Null" "0 \<le> page s" "farthestPage s = None"
  shows "paging_inv P xs s 0" and "page_ok s 0"
  using assms by (auto simp: paging_inv_def loaded_pages_def page_ok_def)

lemma page_ok_range:
  assumes "paging_inv P xs s c" and "page_ok s c" and "1 < numPages s"
  shows "0 \<le> page s \<and> page s < numPages s"
  using assms by (auto simp: page_ok_def)

lemma loaded_in_range:
  assumes "paging_inv P xs s c" and "1 < numPages s" and "page_at s i \<noteq> None"
  shows "0 \<le> i \<and> i < numPages s"
proof -
  have "i \<in> loaded_pages (increment s) (page_total P xs) c"
    using assms by (auto simp: paging_inv_def dom_def)
  then show ?thesis using assms by (auto simp: loaded_pages_def paging_inv_def split: if_splits)
qed

lemma set_page_buttons:
  "PageButton p a act \<in> set bs \<Longrightarrow> (p, a, act) \<in> set (page_buttons bs)"
  by (induction bs rule: page_buttons.induct) auto

lemma block_pages_target:
  assumes "\<not> bp_isEmpty props" and "1 < bp_numPages props"
    and "(p, a, NavigateTo q) \<in> set (block_pages props)"
  shows "p = q"
  using assms(1,2)
proof (cases rule: block_pages_cases)
qed (use assms(3) in \<open>auto simp: inner_cells_facts first_cell_def last_cell_def split: if_splits\<close>)

lemma block_arrows:
  "ArrowButton (Some act) \<in> set (PagingBlock props) \<Longrightarrow>
    act = NavigateTo (bp_pageNumber props - 1) \<and> bp_hasPreviousPage props \<or>
    act = NavigateTo (bp_pageNumber props + 1) \<and> bp_hasNextPage props"
  by (auto simp: block_simps split: if_splits)

lemma offered_range:
  assumes inv: "paging_inv P xs s c" and ok: "page_ok s c" and off: "offered s act"
  shows "1 < numPages s" and "act = NavigateTo q \<Longrightarrow> 0 \<le> q \<and> q < numPages s"
proof -
  from off have nonempty: "PagingBlock (block_of s) \<noteq> []" by (auto simp: offered_def)
  then have shown: "\<not> bp_isEmpty (block_of s)" "1 < bp_numPages (block_of s)"
    by (auto simp: PagingBlock_def split: if_splits)
  then show n: "1 < numPages s" by (simp add: block_of_def)
  from off obtain b where b: "b \<in> set (PagingBlock (block_of s))"
    "b = ArrowButton (Some act) \<or> (\<exists>p a. b = PageButton p a act)"
    unfolding offered_def list_ex_iff
    by (force split: page_button.split_asm option.split_asm)
  assume act: "act = NavigateTo q"
  from b(2) show "0 \<le> q \<and> q < numPages s"
  proof
    assume "b = ArrowButton (Some act)"
    then have "page_at s q \<noteq> None"
      using block_arrows [of act "block_of s"] b(1) act by (auto simp: block_of_def)
    then show ?thesis using loaded_in_range [OF inv n] by blast
  next
    assume "\<exists>p a. b = PageButton p a act"
    then obtain p a where "(p, a, NavigateTo q) \<in> set (block_pages (block_of s))"
      using set_page_buttons b(1) act by (fastforce simp: block_pages_def)
    moreover from this have "p = q" using block_pages_target shown by blast
    ultimately have "q \<in> set (map fst (block_pages (block_of s)))" by force
    moreover have "set (map fst (block_pages (block_of s))) \<subseteq> {0..<bp_numPages (block_of s)}"
      using PagingBlock_pages [OF shown] page_ok_range [OF inv ok n] by (simp add: block_of_def)
    ultimately show ?thesis by (auto simp: block_of_def)
  qed
qed

lemma navigate_system:
  assumes inv: "system_inv ps xs sys" and off: "offered (pgs_state sys) (NavigateTo q)"
  shows "system_inv ps xs (after_update ps (navigateToPage q (pgs_state sys)) sys)"
proof -
  let ?s = "pgs_state sys" and ?P = "effective_page_size ps"
  obtain c where c: "paging_inv ?P xs ?s c" "page_ok ?s c" and rest:
    "pagingNonce ?s < pgs_fresh sys"
    "\<And>f. f \<in> set (pgs_inflight sys) \<Longrightarrow> pf_nonce f < pgs_fresh sys \<and>
       (pf_nonce f = pagingNonce ?s \<longrightarrow> page_at ?s (pf_index f) = None \<longrightarrow>
         isPaging ?s \<and> f = fillPage ps (next_index ?s) ?s)"
    using inv unfolding system_inv_def by blast
  let ?t = "navigateToPage q ?s"
  have range: "0 \<le> q" "q < numPages ?s" using offered_range(2) [OF c off] by auto
  have same: "paging_inv ?P xs ?t c"
    using c(1) by (simp add: paging_inv_def navigateToPage_def getPageWithBefore_def view_list_def)
  have req: "fillPage ps i ?t = fillPage ps i ?s" "next_index ?t = next_index ?s" for i
    by (simp_all add: navigateToPage_def fillPage_def getPageWithBefore_def getAscending_def
        next_index_def)
  have "page_ok ?t c" using range by (simp add: page_ok_def navigateToPage_def)
  moreover have keep: "pagingNonce ?t = pagingNonce ?s" "isPaging ?t = isPaging ?s"
    "page_at ?t = page_at ?s"
    by (simp_all add: navigateToPage_def)
  ultimately show ?thesis unfolding system_inv_def
    using same rest
    by (intro exI [of _ c]) (auto simp: after_update_def less_Suc_eq req dest: kick_elem)
qed

lemma store_page_ok:
  assumes "0 \<le> page s"
  shows "page_ok (storePage marker_truthy ps resp i s) (Suc c)"
proof -
  have "0 \<le> (int (resp_count resp) + int (effective_page_size ps) - 1) div
      int (effective_page_size ps)"
    using effective_pos [of ps] by (intro pos_imp_zdiv_nonneg_iff [THEN iffD2]) auto
  then show ?thesis using assms by (auto simp: page_ok_def storePage_def Let_def)
qed

lemma deliver_system:
  assumes inv: "system_inv ps xs sys" and i: "i < length (pgs_inflight sys)"
    and resp: "arrayPager xs (pf_request (pgs_inflight sys ! i)) = Inr resp"
  defines "sys' \<equiv> sys\<lparr>pgs_inflight := take i (pgs_inflight sys) @ drop (Suc i) (pgs_inflight sys)\<rparr>"
  shows "system_inv ps xs (receivePage ps (pgs_inflight sys ! i) resp sys')"
proof -
  let ?s = "pgs_state sys" and ?P = "effective_page_size ps" and ?f = "pgs_inflight sys ! i"
  obtain c where c: "paging_inv ?P xs ?s c" "page_ok ?s c" and rest:
    "pagingNonce ?s < pgs_fresh sys"
    "\<And>f. f \<in> set (pgs_inflight sys) \<Longrightarrow> pf_nonce f < pgs_fresh sys \<and>
       (pf_nonce f = pagingNonce ?s \<longrightarrow> page_at ?s (pf_index f) = None \<longrightarrow>
         isPaging ?s \<and> f = fillPage ps (next_index ?s) ?s)"
    "pgs_mounted sys \<Longrightarrow> set (kick ps (pagingNonce ?s) ?s) \<subseteq> set (pgs_inflight sys)"
    using inv unfolding system_inv_def by blast
  have split: "set (pgs_inflight sys) = insert ?f (set (pgs_inflight sys'))"
    using i by (subst id_take_nth_drop [OF i]) (simp add: sys'_def)
  have keep: "pgs_state sys' = ?s" "pgs_mounted sys' = pgs_mounted sys" "pgs_fresh sys' = pgs_fresh sys"
    by (simp_all add: sys'_def)
  show ?thesis
  proof (cases "pgs_mounted sys \<and> accepts_page (pf_index ?f) (pf_nonce ?f) ?s")
    case False
    have "?f \<notin> set (kick ps (pagingNonce ?s) ?s)" if "pgs_mounted sys"
      using False that next_index_fresh [OF c(1)] by (auto dest: kick_elem simp: accepts_page_def)
    then show ?thesis using False c rest split unfolding system_inv_def
      by (intro exI [of _ c]) (auto simp: receivePage_def keep)
  next
    case True
    then have f: "isPaging ?s" "?f = fillPage ps (next_index ?s) ?s"
      using rest(2) [of ?f] i by (auto simp: accepts_page_def)
    let ?t = "storePage marker_truthy ps resp (next_index ?s) ?s"
    have inv': "paging_inv ?P xs ?t (Suc c)"
      using storePage_inv [OF c(1) f(1) refl] resp f(2) by simp
    have ok: "page_ok ?t (Suc c)" using c(2) by (intro store_page_ok) (simp add: page_ok_def)
    have keep': "pagingNonce ?t = pagingNonce ?s"
      "page_at ?t (pf_index g) = None \<Longrightarrow> page_at ?s (pf_index g) = None \<and> pf_index g \<noteq> next_index ?s"
      for g :: "int page_fetch"
      by (auto simp: storePage_def Let_def update_conv' split: if_splits)
    have old: "pf_nonce g < Suc (pgs_fresh sys) \<and>
        (pf_nonce g = pagingNonce ?t \<longrightarrow> page_at ?t (pf_index g) = None \<longrightarrow> False)"
      if "g \<in> set (pgs_inflight sys')" for g
      proof (intro conjI impI)
      show "pf_nonce g < Suc (pgs_fresh sys)" using rest(2) [of g] that split by auto
      assume "pf_nonce g = pagingNonce ?t" and "page_at ?t (pf_index g) = None"
      then show False using rest(2) [of g] that split keep'(1) keep'(2) [of g] by simp
    qed
    have eq: "receivePage ps ?f resp sys' = after_update ps ?t sys'"
      using True f(2) keep by (auto simp: receivePage_def)
    have new: "pf_nonce g < Suc (pgs_fresh sys) \<and> (pf_nonce g = pagingNonce ?t \<longrightarrow>
        page_at ?t (pf_index g) = None \<longrightarrow> isPaging ?t \<and> g = fillPage ps (next_index ?t) ?t)"
      if "g \<in> set (kick ps (pagingNonce ?t) ?t)" for g
    proof -
      have g: "isPaging ?t" "g = fillPage ps (next_index ?t) ?t" using kick_elem [OF that] by simp_all
      moreover have "pf_nonce g < Suc (pgs_fresh sys)" using g(2) keep'(1) rest(1) by simp
      ultimately show ?thesis by simp
    qed
    have fields: "pgs_state (after_update ps ?t sys') = ?t"
      "pgs_inflight (after_update ps ?t sys') = pgs_inflight sys' @ kick ps (pagingNonce ?t) ?t"
      "pgs_fresh (after_update ps ?t sys') = Suc (pgs_fresh sys)"
      by (simp_all add: after_update_def keep)
    have fresh: "pagingNonce ?t < Suc (pgs_fresh sys)" using rest(1) keep'(1) by simp
    have all: "\<forall>g \<in> set (pgs_inflight (after_update ps ?t sys')).
        pf_nonce g < Suc (pgs_fresh sys) \<and> (pf_nonce g = pagingNonce ?t \<longrightarrow>
        page_at ?t (pf_index g) = None \<longrightarrow> isPaging ?t \<and> g = fillPage ps (next_index ?t) ?t)"
      unfolding fields set_append using old new by blast
    show ?thesis unfolding eq system_inv_def fields(1,3)
      using inv' ok fresh all unfolding fields(2) set_append by blast
  qed
qed

lemma reverse_inv:
  assumes "paging_inv P xs s c" and "1 < numPages s"
  shows "paging_inv P xs (reverse_paging n s) 0" and "page_ok (reverse_paging n s) 0"
  using assms
  by (auto simp: paging_inv_def page_ok_def reverse_paging_def initialPagingState_def Let_def
      loaded_pages_def)

lemma reset_ops_inv:
  assumes "\<forall>p. start = Some p \<longrightarrow> 0 \<le> p"
  shows "paging_inv P xs (reloadPages n start s) 0" and "page_ok (reloadPages n start s) 0"
  using assms
  by (auto simp: reloadPages_def initialPagingState_def split: option.splits intro!: reset_inv)

lemma refresh_inv:
  assumes "0 \<le> page s"
  shows "paging_inv P xs (refreshPage n s) 0" and "page_ok (refreshPage n s) 0"
  using assms by (auto simp: refreshPage_def initialPagingState_def intro!: reset_inv)

lemma reset_nonces [simp]:
  "pagingNonce (reloadPages n start s) = n" "pagingNonce (refreshPage n s) = n"
  "pagingNonce (reverse_paging n s) = n" "pagingNonce (setSortAscending n asc s) = n"
  by (simp_all add: reloadPages_def refreshPage_def reverse_paging_def setSortAscending_def
      initialPagingState_def Let_def)

lemma step_system:
  assumes inv: "system_inv ps xs sys" and step: "paged_step ps xs ev sys = Some sys'"
    and start: "\<forall>p. ev = Reload (Some p) \<longrightarrow> 0 \<le> p"
  shows "system_inv ps xs sys'"
proof -
  obtain c where c: "paging_inv (effective_page_size ps) xs (pgs_state sys) c"
    "page_ok (pgs_state sys) c"
    using inv unfolding system_inv_def by blast
  have pos: "0 \<le> page (pgs_state sys)" using c(2) by (simp add: page_ok_def)
  have many: "1 < numPages (pgs_state sys)" if "offered (pgs_state sys) ReversePaging"
    using offered_range(1) [OF c that] .
  show ?thesis
  proof (cases ev)
    case Unmount
    then show ?thesis using inv step by (auto simp: system_inv_def)
  next
    case (Reload start)
    then show ?thesis using step start
      by (auto split: if_splits intro!: reset_system [OF inv] reset_ops_inv)
  next
    case Refresh
    then show ?thesis using step pos
      by (auto split: if_splits intro!: reset_system [OF inv] refresh_inv)
  next
    case (SetSort asc)
    then show ?thesis using step
      by (auto split: if_splits simp: setSortAscending_def intro!: reset_system [OF inv] reset_ops_inv)
  next
    case (Click act)
    then show ?thesis using step many
      by (cases act) (auto split: if_splits
          intro!: navigate_system [OF inv] reset_system [OF inv] reverse_inv [OF c(1)])
  next
    case (Deliver i)
    then show ?thesis using step
      by (auto split: if_splits sum.splits intro!: deliver_system [OF inv])
  qed
qed

lemma mount_system:
  assumes "startPage = None \<or> 0 \<le> the startPage"
  shows "system_inv ps xs (componentDidMount ps startPage)"
proof -
  have "system_inv ps xs \<lparr>pgs_state = constructed startPage, pgs_inflight = [],
      pgs_mounted = False, pgs_fresh = 1\<rparr>"
    using assms unfolding system_inv_def
    by (intro exI [of _ 0]) (auto simp: constructed_def split: option.splits intro!: reset_inv)
  then have base: "system_inv ps xs (after_update ps (reloadPages 1 startPage (constructed startPage))
      \<lparr>pgs_state = constructed startPage, pgs_inflight = [], pgs_mounted = False, pgs_fresh = 1\<rparr>)"
    by (rule reset_system) (use assms in \<open>auto intro!: reset_ops_inv\<close>)
  then show ?thesis
    unfolding system_inv_def componentDidMount_def
    by (elim exE, intro exI) (auto simp: after_update_def less_Suc_eq)
qed

lemma reach_system: "paged_reach ps xs sys \<Longrightarrow> system_inv ps xs sys"
  by (induction rule: paged_reach.induct) (auto intro: mount_system step_system)

lemma farthest_covers:
  assumes "0 \<le> p" and "p < n"
  shows "p \<le> calculateFarthestPage p n 1 \<and> 0 \<le> calculateFarthestPage p n 1"
    and "calculateFarthestPage p n (-1) \<le> p \<and> calculateFarthestPage p n (-1) \<le> n - 1"
  using assms by (auto simp: farthest_simps)

lemma cursor_below:
  assumes P: "0 < P" and c: "c < page_total P xs" and pos: "0 < c"
  shows "cursor P xs d c < length xs"
proof -
  have ne: "xs \<noteq> []" using c by auto
  obtain m where m: "page_total P xs = Suc m" "length xs = m * P + last_size P xs"
    "0 < last_size P xs" "last_size P xs \<le> P"
    using page_split [OF P ne] .
  have "c * P \<le> m * P" using c m(1) by simp
  moreover have "(c - 1) * P < m * P" using c m(1) P pos by simp
  ultimately have "c * P < length xs" "last_size P xs + (c - 1) * P < length xs"
    using m(2,3) by linarith+
  then show ?thesis using pos by (simp add: cursor_def)
qed

lemma unloaded_page_kicks:
  assumes inv: "paging_inv P xs s c" and ok: "page_ok s c" and P: "0 < P"
    and no: "page_at s (page s) = None"
  shows "isPaging s \<and> kick ps (pagingNonce s) s = [fillPage ps (next_index s) s]"
proof -
  have inc: "increment s = 1 \<or> increment s = -1" using inv by (simp add: paging_inv_def)
  have dom: "dom (page_at s) = loaded_pages (increment s) (page_total P xs) c"
    and neg: "increment s = -1 \<longrightarrow> 0 < numPages s"
    and tot: "0 < numPages s \<or> 0 < c \<longrightarrow> numPages s = int (page_total P xs)"
    and small: "c \<le> (if page_total P xs = 0 then 1 else page_total P xs)"
    using inv by (simp_all add: paging_inv_def)
  have out: "page s \<notin> loaded_pages (increment s) (page_total P xs) c"
    using no unfolding dom [symmetric] by (simp add: domIff)
  have range: "0 \<le> page s" "farthestPage s = None \<longrightarrow> c = 0"
    "farthestPage s \<noteq> None \<longrightarrow> farthestPage s =
       Some (calculateFarthestPage (page s) (numPages s) (increment s)) \<and> page s < numPages s"
    using ok out tot small neg inc by (auto simp: page_ok_def loaded_pages_def split: if_splits)
  have ahead: "increment s = 1 \<longrightarrow> int c \<le> page s"
    "increment s = -1 \<longrightarrow> page s \<le> int (page_total P xs) - 1 - int c \<or> numPages s \<le> page s"
    using out range(1) tot neg by (auto simp: loaded_pages_def)
  have paging: "isPaging s"
  proof (cases "c = 0")
    case True
    then show ?thesis using inv by (simp add: paging_inv_def)
  next
    case False
    then have far: "page s < numPages s" "numPages s = int (page_total P xs)"
      using range tot by auto
    then have "c < page_total P xs" using ahead range(1) inc by auto
    then show ?thesis using cursor_below [OF P] False inv by (auto simp: paging_inv_def)
  qed
  moreover have "farthestPage s = None \<or> (case farthestPage s of None \<Rightarrow> True | Some f \<Rightarrow>
      if increment s = 1 then next_index s \<le> f else f \<le> next_index s)"
  proof (cases "farthestPage s")
    case (Some f)
    then have f: "f = calculateFarthestPage (page s) (numPages s) (increment s)" "page s < numPages s"
      using range by auto
    then have N: "numPages s = int (page_total P xs)" using tot range(1) by auto
    show ?thesis
      using f N ahead range(1) inc farthest_covers [OF range(1) f(2)] paging_inv_next [OF inv] Some
      by auto
  qed simp
  ultimately show ?thesis
    by (cases "farthestPage s") (auto simp: kick_def makePageKicker_def next_index_def Let_def)
qed

fun deliver_all :: "nat \<Rightarrow> 'a list \<Rightarrow> nat list \<Rightarrow> 'a paged_system \<Rightarrow> 'a paged_system option" where
  "deliver_all ps xs [] sys = Some sys"
| "deliver_all ps xs (i # is) sys =
     (case paged_step ps xs (Deliver i) sys of None \<Rightarrow> None | Some sys' \<Rightarrow> deliver_all ps xs is sys')"

lemma delivery_progress:
  assumes inv: "system_inv ps xs sys" and mounted: "pgs_mounted sys"
    and no: "page_at (pgs_state sys) (page (pgs_state sys)) = None"
  obtains i sys' where "paged_step ps xs (Deliver i) sys = Some sys'" and "system_inv ps xs sys'"
    and "pgs_mounted sys'"
    and "length (pageData (pgs_state sys')) = Suc (length (pageData (pgs_state sys)))"
proof -
  let ?s = "pgs_state sys" and ?P = "effective_page_size ps"
  obtain c where c: "paging_inv ?P xs ?s c" "page_ok ?s c"
    "set (kick ps (pagingNonce ?s) ?s) \<subseteq> set (pgs_inflight sys)"
    using inv mounted unfolding system_inv_def by blast
  have pg: "isPaging ?s" "kick ps (pagingNonce ?s) ?s = [fillPage ps (next_index ?s) ?s]"
    using unloaded_page_kicks [OF c(1,2) effective_pos no] by auto
  then obtain i where i: "i < length (pgs_inflight sys)"
    "pgs_inflight sys ! i = fillPage ps (next_index ?s) ?s"
    using c(3) by (auto simp: in_set_conv_nth)
  obtain resp where resp: "arrayPager xs (pf_request (pgs_inflight sys ! i)) = Inr resp"
    using fillPage_answer [OF c(1) pg(1) refl] i(2) by auto
  have fresh: "page_at ?s (next_index ?s) = None" using next_index_fresh [OF c(1)] .
  let ?sys' = "receivePage ps (pgs_inflight sys ! i) resp
    (sys\<lparr>pgs_inflight := take i (pgs_inflight sys) @ drop (Suc i) (pgs_inflight sys)\<rparr>)"
  have step: "paged_step ps xs (Deliver i) sys = Some ?sys'" using i(1) resp by simp
  have st: "pgs_state ?sys' = storePage marker_truthy ps resp (next_index ?s) ?s"
    "pgs_mounted ?sys'"
    using mounted fresh i(2) by (simp_all add: receivePage_def accepts_page_def after_update_def)
  have "paging_inv ?P xs (pgs_state ?sys') (Suc c)"
    unfolding st using storePage_inv [OF c(1) pg(1) refl] resp i(2) by simp
  then have "length (pageData (pgs_state ?sys')) = Suc (length (pageData ?s))"
    using paging_inv_length c(1) by blast
  then show ?thesis
    using that [OF step deliver_system [OF inv i(1) resp] st(2)] by blast
qed

lemma system_inv_bound:
  assumes "system_inv ps xs sys"
  shows "length (pageData (pgs_state sys)) \<le> Suc (page_total (effective_page_size ps) xs)"
proof -
  obtain c where c: "paging_inv (effective_page_size ps) xs (pgs_state sys) c"
    using assms unfolding system_inv_def by blast
  then have "c \<le> Suc (page_total (effective_page_size ps) xs)"
    by (simp add: paging_inv_def split: if_splits)
  then show ?thesis using paging_inv_length [OF c] by simp
qed

lemma deliveries_load_page:
  assumes "system_inv ps xs sys" and "pgs_mounted sys"
  shows "\<exists>is sys'. deliver_all ps xs is sys = Some sys' \<and>
    page_at (pgs_state sys') (page (pgs_state sys')) \<noteq> None"
  using assms
proof (induction "Suc (page_total (effective_page_size ps) xs) - length (pageData (pgs_state sys))"
    arbitrary: sys rule: less_induct)
  case less
  show ?case
  proof (cases "page_at (pgs_state sys) (page (pgs_state sys)) = None")
    case False
    then show ?thesis by (intro exI [of _ "[]"]) auto
  next
    case True
    then obtain i sys' where i: "paged_step ps xs (Deliver i) sys = Some sys'" "system_inv ps xs sys'"
      "pgs_mounted sys'"
      "length (pageData (pgs_state sys')) = Suc (length (pageData (pgs_state sys)))"
      using delivery_progress less.prems by blast
    have "length (pageData (pgs_state sys')) \<le> Suc (page_total (effective_page_size ps) xs)"
      using system_inv_bound [OF i(2)] .
    then have "\<exists>is sys''. deliver_all ps xs is sys' = Some sys'' \<and>
        page_at (pgs_state sys'') (page (pgs_state sys'')) \<noteq> None"
      using i by (intro less.hyps) auto
    then obtain "is" sys'' where "deliver_all ps xs is sys' = Some sys''"
      "page_at (pgs_state sys'') (page (pgs_state sys'')) \<noteq> None" by blast
    then show ?thesis using i(1) by (intro exI [of _ "i # is"]) auto
  qed
qed

subsection \<open>Properties\<close>

text \<open>C1: Whatever the user does and in whatever order answers arrive, every page a paged
  component holds is the slice of its items at that page number, in the order it shows.\<close>

theorem paged_pages_correct:
  assumes "paged_reach ps xs sys" and "page_at (pgs_state sys) i = Some items"
  shows "items = (let P = effective_page_size ps in take P (drop (nat i * P)
    (if sortAscending (pgs_state sys) then rev xs else xs)))"
proof -
  obtain c where "paging_inv (effective_page_size ps) xs (pgs_state sys) c"
    using reach_system [OF assms(1)] unfolding system_inv_def by blast
  then show ?thesis using assms(2) by (auto simp: paging_inv_def page_of_def view_list_def Let_def)
qed

text \<open>C8: A mounted component is never stuck: while the page it shows is not loaded, answers to
  its outstanding requests load it.\<close>

theorem paged_page_loads:
  assumes "paged_reach ps xs sys" and "pgs_mounted sys"
  shows "\<exists>is sys'. deliver_all ps xs is sys = Some sys' \<and>
    page_at (pgs_state sys') (page (pgs_state sys')) \<noteq> None"
  using deliveries_load_page [OF reach_system [OF assms(1)] assms(2)] .

text \<open>A block on a valid page has its page buttons in increasing order, all inside the range
  of pages, exactly one of them active: the one of the current page.\<close>

theorem PagingBlock_page_buttons:
  assumes "\<not> bp_isEmpty props" and "1 < bp_numPages props"
    and "0 \<le> bp_pageNumber props" and "bp_pageNumber props < bp_numPages props"
  shows "sorted_wrt (<) (map fst (page_buttons (PagingBlock props))) \<and>
    set (map fst (page_buttons (PagingBlock props))) \<subseteq> {0..<bp_numPages props} \<and>
    map fst (filter (\<lambda>c. fst (snd c)) (page_buttons (PagingBlock props))) = [bp_pageNumber props]"
  using PagingBlock_pages [OF assms] unfolding block_pages_def .

lemma PagingBlock_page_buttons_witness:
  "sorted_wrt (<) (map fst (page_buttons (PagingBlock
     \<lparr>bp_hasNextPage = True, bp_hasPreviousPage = True, bp_increment = 1, bp_isEmpty = False,
      bp_isPaging = True, bp_numPages = 12, bp_pageNumber = 5\<rparr>)))"
  using PagingBlock_page_buttons [of "\<lparr>bp_hasNextPage = True, bp_hasPreviousPage = True,
    bp_increment = 1, bp_isEmpty = False, bp_isPaging = True, bp_numPages = 12, bp_pageNumber = 5\<rparr>"]
  by simp

definition paged_example :: "int paged_system" where
  "paged_example = the (paged_step 2 [10, 11, 12, 13, 14] (Deliver 0) (componentDidMount 2 None))"

lemma paged_example_reach: "paged_reach 2 [10, 11, 12, 13, 14] paged_example"
proof (rule stepped [OF mounted])
  have "\<not> Option.is_none (paged_step 2 [10, 11, 12, 13, 14 :: int] (Deliver 0) (componentDidMount 2 None))"
    by code_simp
  then show "paged_step 2 [10, 11, 12, 13, 14] (Deliver 0) (componentDidMount 2 None) = Some paged_example"
    unfolding paged_example_def by (simp add: Option.is_none_def)
qed simp_all

lemma paged_pages_correct_witness:
  "page_at (pgs_state paged_example) 0 = Some [10, 11]"
proof -
  have "map_option length (page_at (pgs_state paged_example) 0) = Some 2"
    by code_simp
  then obtain items where "page_at (pgs_state paged_example) 0 = Some items" by auto
  moreover have "\<not> sortAscending (pgs_state paged_example)" by code_simp
  ultimately show ?thesis using paged_pages_correct [OF paged_example_reach]
    by (force simp: effective_page_size_def Let_def)
qed

lemma paged_page_loads_witness:
  "\<exists>is sys'. deliver_all 2 [10, 11, 12, 13, 14] is paged_example = Some sys' \<and>
    page_at (pgs_state sys') (page (pgs_state sys')) \<noteq> None"
  by (rule paged_page_loads [OF paged_example_reach]) code_simp

end
