(* ===== verification/Errors.thy ===== *)
theory Errors
  imports Utils
begin

section \<open>Errors and redirects: web/js/net/errors.js, redirect.js, response.js\<close>

text \<open>
  What a handler or an endpoint of the server can reject with: an error with a status, a
  redirect, or an exception of the language. A \<open>Response\<close> is what an endpoint renders.
\<close>

datatype error_class =
    HttpErrorClass
  | RequestErrorClass
  | BadParamErrorClass
  | UnauthorizedErrorClass
  | NotFoundErrorClass
  | PromptForLoginErrorClass
  | SicknessErrorClass
  | TooBusyErrorClass

record http_error =
  err_class :: error_class
  err_message :: string
  err_status :: jsval
  err_showNeedsLogin :: bool
  err_tokenStatus :: jsval

datatype failure =
    Http http_error
  | Redirected (redirect_location: string) (redirect_status: int)
  | Thrown js_error

text \<open>A value or its replacement when it is not truthy.\<close>

definition js_or :: "jsval \<Rightarrow> jsval \<Rightarrow> jsval" where
  "js_or a b = (if truthy a then a else b)"

definition js_and :: "jsval \<Rightarrow> jsval \<Rightarrow> jsval" where
  "js_and a b = (if truthy a then b else a)"

definition text_or :: "jsval \<Rightarrow> string \<Rightarrow> string" where
  "text_or v d = (case v of JStr s \<Rightarrow> if s = [] then d else s | _ \<Rightarrow> d)"

subsection \<open>Constructors\<close>

definition HttpError :: "error_class \<Rightarrow> jsobj \<Rightarrow> http_error" where
  "HttpError cls options =
     \<lparr>err_class = cls,
      err_message = text_or (obj_get options ''message'') ''Unknown error'',
      err_status = obj_get options ''status'',
      err_showNeedsLogin = truthy (obj_get options ''showNeedsLogin''),
      err_tokenStatus = js_or (obj_get options ''tokenStatus'') JNull\<rparr>"

definition BadParamError :: "jsval \<Rightarrow> http_error" where
  "BadParamError message =
     HttpError BadParamErrorClass
       [(''status'', JNum 400), (''message'', js_or message (JStr ''Bad Request''))]"

definition UnauthorizedError :: "jsval \<Rightarrow> http_error" where
  "UnauthorizedError message =
     HttpError UnauthorizedErrorClass
       [(''status'', JNum 401), (''message'', js_or message (JStr ''Unauthorized''))]"

definition not_found_message :: "jsval \<Rightarrow> jsval" where
  "not_found_message options =
     (let (path, message) =
        (if isJsObject options then (js_prop options ''path'', js_prop options ''message'')
         else (JUndef, options))
      in if truthy path \<and> \<not> truthy message
         then JStr (''Page Not Found: '' @ (case path of JStr p \<Rightarrow> p | _ \<Rightarrow> []))
         else if \<not> truthy message then JStr ''Page Not Found'' else message)"

definition NotFoundError :: "error_class \<Rightarrow> jsval \<Rightarrow> bool \<Rightarrow> http_error" where
  "NotFoundError cls options needsLogin =
     HttpError cls
       [(''status'', JNum 404), (''message'', not_found_message options),
        (''showNeedsLogin'', JBool needsLogin)]"

abbreviation notFound :: http_error where
  "notFound \<equiv> NotFoundError NotFoundErrorClass JUndef False"

definition PromptForLoginError :: http_error where
  "PromptForLoginError =
     NotFoundError PromptForLoginErrorClass (JStr ''You must log in to see this page'') True"

definition SicknessError :: http_error where
  "SicknessError =
     HttpError SicknessErrorClass
       [(''status'', JNum 500), (''message'', JStr ''This is a test error, no cause for alarm.'')]"

definition TooBusyError :: http_error where
  "TooBusyError =
     HttpError TooBusyErrorClass
       [(''status'', JNum 503),
        (''message'', JStr ''Server is too busy to process new requests'')]"

definition isClientError :: "http_error \<Rightarrow> bool" where
  "isClientError e =
     (truthy (err_status e) \<and>
      (case err_status e of JNum s \<Rightarrow> \<lfloor>s / 100\<rfloor> = 4 | _ \<Rightarrow> False))"

text \<open>\<open>new Redirect(location, code)\<close> throws when the code is no redirection.\<close>

definition makeRedirect :: "string \<Rightarrow> int option \<Rightarrow> failure" where
  "makeRedirect location code =
     (case code of
        None \<Rightarrow> Redirected location 302
      | Some c \<Rightarrow> if c < 300 \<or> 399 < c then Thrown (JsError ''Invalid redirect'')
          else Redirected location c)"

text \<open>The \<open>status\<close> a handler reads off what it was given.\<close>

fun failure_status :: "failure \<Rightarrow> jsval" where
  "failure_status (Http e) = err_status e"
| "failure_status (Redirected l c) = JNum (of_int c)"
| "failure_status (Thrown e) = JUndef"

definition status_in :: "int list \<Rightarrow> failure \<Rightarrow> bool" where
  "status_in codes f = (failure_status f \<in> (\<lambda>c. JNum (of_int c)) ` set codes)"

record response =
  resp_status :: jsval
  resp_body :: jsval
  resp_options :: jsobj

definition makeResponse :: "jsval \<Rightarrow> jsval \<Rightarrow> jsobj option \<Rightarrow> response" where
  "makeResponse status body options =
     \<lparr>resp_status = status, resp_body = body,
      resp_options = (case options of None \<Rightarrow> [] | Some ps \<Rightarrow> ps)\<rparr>"

definition response_headers :: "response \<Rightarrow> jsval" where
  "response_headers r = obj_get (resp_options r) ''headers''"

subsection \<open>Statuses\<close>

lemma error_status [simp]:
  "err_status (BadParamError m) = JNum 400" "err_status (UnauthorizedError m) = JNum 401"
  "err_status (NotFoundError cls opts b) = JNum 404" "err_status PromptForLoginError = JNum 404"
  "err_status TooBusyError = JNum 503" "err_status SicknessError = JNum 500"
  by (simp_all add: BadParamError_def UnauthorizedError_def NotFoundError_def HttpError_def
      PromptForLoginError_def TooBusyError_def SicknessError_def)

lemma error_login [simp]:
  "err_showNeedsLogin PromptForLoginError" "\<not> err_showNeedsLogin (BadParamError m)"
  "err_showNeedsLogin (NotFoundError cls opts b) = b"
  by (simp_all add: PromptForLoginError_def NotFoundError_def BadParamError_def HttpError_def)

lemma client_errors:
  "isClientError (BadParamError m)" "isClientError (UnauthorizedError m)"
  "isClientError (NotFoundError cls opts b)" "isClientError PromptForLoginError"
  "\<not> isClientError TooBusyError" "\<not> isClientError SicknessError"
  by (simp_all add: isClientError_def floor_divide_of_int_eq [of 400 100, simplified]
      floor_divide_of_int_eq [of 401 100, simplified] floor_divide_of_int_eq [of 404 100, simplified]
      floor_divide_of_int_eq [of 503 100, simplified] floor_divide_of_int_eq [of 500 100, simplified])

lemma status_in_simps [simp]:
  "status_in codes (Http e) \<longleftrightarrow> (\<exists>c \<in> set codes. err_status e = JNum (of_int c))"
  "\<not> status_in codes (Thrown x)"
  by (auto simp: status_in_def)

lemma redirect_status_range:
  "makeRedirect l c = Redirected l' s \<Longrightarrow> l' = l \<and> 300 \<le> s \<and> s \<le> 399"
  by (auto simp: makeRedirect_def split: option.splits if_splits)

lemma js_or_simps [simp]:
  "truthy a \<Longrightarrow> js_or a b = a" "\<not> truthy a \<Longrightarrow> js_or a b = b"
  "truthy (js_or a b) \<longleftrightarrow> truthy a \<or> truthy b"
  by (simp_all add: js_or_def)

lemma js_and_simps [simp]:
  "truthy a \<Longrightarrow> js_and a b = b" "\<not> truthy a \<Longrightarrow> js_and a b = a"
  "truthy (js_and a b) \<longleftrightarrow> truthy a \<and> truthy b"
  by (simp_all add: js_and_def)

end
