(* ===== verification/Session.thy ===== *)
theory Session
  imports Errors
begin

section \<open>Sessions: web/js/session/, server/csrf.js, server/user_prefs.js\<close>

text \<open>
  The state of a login and the operations on it: copying, logging out, pushing a parent state
  under a new session, popping back to it, and its JSON form in the cookie jar.
\<close>

subsection \<open>The login state\<close>

text \<open>
  The fields hold what the API or the cookie gave them. The parent is another login state, or a
  value that is not truthy.
\<close>

datatype login_state =
  LoginState (apiToken: jsval) (clientId: jsval) (csrfToken: jsval) (isGuest: jsval)
    (organizationId: jsval) (parentState: parent_state) (userId: jsval)
and parent_state = NoParent jsval | Parent login_state

definition KEYS :: "string list" where
  "KEYS = [''apiToken'', ''clientId'', ''csrfToken'', ''isGuest'', ''organizationId'',
     ''parentState'', ''userId'']"

text \<open>\<open>new LoginState(state)\<close>, for a state that already is one: a deep copy.\<close>

fun newLoginState :: "login_state \<Rightarrow> login_state" and copy_parent :: "parent_state \<Rightarrow> parent_state"
where
  "newLoginState (LoginState api cl csrf g org par usr) =
     LoginState api cl (js_or csrf JUndef) g org (copy_parent par) usr"
| "copy_parent (NoParent v) = NoParent v"
| "copy_parent (Parent p) = Parent (newLoginState p)"

definition setFrom :: "login_state \<Rightarrow> login_state \<Rightarrow> login_state" where
  "setFrom this state =
     LoginState (apiToken state) (clientId state) (js_or (csrfToken state) (csrfToken this))
       (isGuest state) (organizationId state) (copy_parent (parentState state)) (userId state)"

definition loggedOutCopy :: "login_state \<Rightarrow> login_state" where
  "loggedOutCopy this =
     newLoginState (LoginState JUndef JUndef (csrfToken this) JUndef JUndef (NoParent JUndef) JUndef)"

definition logout_state :: "login_state \<Rightarrow> login_state" where
  "logout_state this = setFrom this (loggedOutCopy this)"

subsection \<open>Its JSON form\<close>

fun toJson :: "login_state \<Rightarrow> jsval" and parent_json :: "parent_state \<Rightarrow> jsval" where
  "toJson (LoginState api cl csrf g org par usr) =
     JObj (filter (\<lambda>p. snd p \<noteq> JUndef)
       [(''apiToken'', api), (''clientId'', cl), (''csrfToken'', csrf), (''isGuest'', g),
        (''organizationId'', org), (''parentState'', parent_json par), (''userId'', usr)])"
| "parent_json (NoParent v) = v"
| "parent_json (Parent p) = toJson p"

lemma obj_get_size: "obj_get ps k \<noteq> JUndef \<Longrightarrow> size (obj_get ps k) < size (JObj ps)"
  by (induction ps) (auto simp: less_Suc_eq split: if_splits)

text \<open>\<open>new LoginState(json)\<close>: properties of a value that is no object are missing.\<close>

function fromJson :: "jsval \<Rightarrow> login_state" where
  "fromJson v =
     (let parent = js_prop v ''parentState''
      in LoginState (js_prop v ''apiToken'') (js_prop v ''clientId'')
           (js_or (js_prop v ''csrfToken'') JUndef) (js_prop v ''isGuest'')
           (js_prop v ''organizationId'')
           (if truthy parent then Parent (fromJson parent) else NoParent parent)
           (js_prop v ''userId''))"
  by pat_completeness auto

lemma js_prop_size: "js_prop v k \<noteq> JUndef \<Longrightarrow> size (js_prop v k) < size v"
  using obj_get_size by (cases v) (auto simp: js_prop_def)

termination fromJson
  by (relation "measure size") (auto intro!: js_prop_size)

declare fromJson.simps [simp del]

subsection \<open>Pushing and popping\<close>

fun has_parent :: "parent_state \<Rightarrow> bool" where
  "has_parent (NoParent v) = False"
| "has_parent (Parent p) = True"

text \<open>\<open>loginState.parentState ||= null\<close> keeps a parent that is there.\<close>

definition set_parent :: "parent_state \<Rightarrow> login_state \<Rightarrow> login_state" where
  "set_parent p s =
     LoginState (apiToken s) (clientId s) (csrfToken s) (isGuest s) (organizationId s) p (userId s)"

definition pushParentState :: "login_state \<Rightarrow> bool \<Rightarrow> bool \<Rightarrow> login_state" where
  "pushParentState s preserveAsParentState currentStateIsGuest =
     (let currentStateIsLoggedIn = truthy (apiToken s)
      in if preserveAsParentState \<and> currentStateIsLoggedIn \<and> \<not> currentStateIsGuest
         then set_parent (Parent (newLoginState s)) s
         else set_parent (if has_parent (parentState s) then parentState s else NoParent JNull) s)"

definition setLoginStateFromSession :: "login_state \<Rightarrow> jsval \<Rightarrow> bool \<Rightarrow> login_state" where
  "setLoginStateFromSession s session preserveAsParentState =
     (let p = pushParentState s preserveAsParentState False;
          client = js_prop session ''client''; user = js_prop session ''user''
      in LoginState (js_prop (js_prop session ''api_token'') ''token'')
           (js_and client (js_prop client ''id'')) (csrfToken p) (isGuest p)
           (js_and client (js_prop client ''organization'')) (parentState p)
           (js_and user (js_prop user ''id'')))"

definition token_is_guest :: "jsval \<Rightarrow> bool" where
  "token_is_guest token = (truthy token \<and> js_prop token ''token_type'' = JStr ''guest'')"

definition setLoginStateFromToken :: "login_state \<Rightarrow> jsval \<Rightarrow> jsval \<Rightarrow> bool \<Rightarrow> login_state" where
  "setLoginStateFromToken s newApiToken currentApiToken preserveAsParentState =
     (let p = pushParentState s preserveAsParentState (token_is_guest currentApiToken)
      in LoginState (js_prop newApiToken ''token'') (js_prop newApiToken ''client'') (csrfToken p)
           (isGuest p) (js_prop newApiToken ''organization'') (parentState p)
           (js_prop newApiToken ''user''))"

text \<open>\<open>popLoginState\<close>: the state after it and the token the API requestor then uses. Without a
  parent, \<open>setFrom\<close> reads a property of \<open>null\<close> or \<open>undefined\<close>.\<close>

definition popLoginState :: "login_state \<Rightarrow> js_error + login_state \<times> jsval" where
  "popLoginState s =
     (case parentState s of
        NoParent v \<Rightarrow> if v = JUndef \<or> v = JNull then Inl TypeError
          else let s' = setFrom s (LoginState JUndef JUndef JUndef JUndef JUndef (NoParent JUndef) JUndef)
               in Inr (s', apiToken s')
      | Parent p \<Rightarrow> let s' = setFrom s p in Inr (s', apiToken s'))"

subsection \<open>Cross-site request forgery\<close>

definition validateCsrf :: "login_state \<Rightarrow> jsval \<Rightarrow> http_error option" where
  "validateCsrf s token =
     (if \<not> truthy token then Some (BadParamError (JStr ''Missing csrf token''))
      else if csrfToken s \<noteq> token then Some (BadParamError (JStr ''Invalid csrf token''))
      else None)"

subsection \<open>Preferences\<close>

record preferences =
  pref_userId :: jsval
  pref_clientId :: jsval

definition prefs_setFrom :: "jsval \<Rightarrow> preferences" where
  "prefs_setFrom prefs =
     \<lparr>pref_userId = js_prop prefs ''userId'', pref_clientId = js_prop prefs ''clientId''\<rparr>"

definition newPreferences :: "jsval \<Rightarrow> preferences" where
  "newPreferences prefs = prefs_setFrom (js_or prefs (JObj []))"

definition prefs_json :: "preferences \<Rightarrow> jsval" where
  "prefs_json p = JObj [(''userId'', pref_userId p), (''clientId'', pref_clientId p)]"

subsection \<open>Well-formed states\<close>

text \<open>A csrf token is a truthy value or missing, a parent that is no login state is not truthy.\<close>

primrec wf_login :: "login_state \<Rightarrow> bool" and wf_parent :: "parent_state \<Rightarrow> bool" where
  "wf_login (LoginState api cl csrf g org par usr) =
     ((truthy csrf \<or> csrf = JUndef) \<and> wf_parent par)"
| "wf_parent (NoParent v) = (\<not> truthy v)"
| "wf_parent (Parent p) = wf_login p"

primrec depth :: "login_state \<Rightarrow> nat" and parent_depth :: "parent_state \<Rightarrow> nat" where
  "depth (LoginState api cl csrf g org par usr) = parent_depth par"
| "parent_depth (NoParent v) = 0"
| "parent_depth (Parent p) = Suc (depth p)"

lemma depth_parentState: "depth s = parent_depth (parentState s)"
  by (cases s) simp

lemma wf_parentState: "wf_login s \<longleftrightarrow> (truthy (csrfToken s) \<or> csrfToken s = JUndef) \<and> wf_parent (parentState s)"
  by (cases s) simp

lemma truthy_undef [simp]: "\<not> truthy JUndef" "\<not> truthy JNull"
  by simp_all

lemma newLoginState_wf_id:
  "wf_login s \<Longrightarrow> newLoginState s = s" "wf_parent p \<Longrightarrow> copy_parent p = p"
proof (induction s and p rule: newLoginState_copy_parent.induct)
  case (1 api cl csrf g org par usr)
  then show ?case by (cases "truthy csrf") auto
qed simp_all

lemma newLoginState_wf:
  "wf_parent (parentState s) \<Longrightarrow> wf_login (newLoginState s)" "wf_parent p \<Longrightarrow> wf_parent (copy_parent p)"
proof (induction s and p rule: newLoginState_copy_parent.induct)
  case (1 api cl csrf g org par usr)
  then show ?case by (cases "truthy csrf") auto
next
  case (3 p)
  then show ?case by (simp add: wf_parentState)
qed simp_all

lemma newLoginState_depth [simp]:
  "depth (newLoginState s) = depth s" "parent_depth (copy_parent p) = parent_depth p"
  by (induction s and p rule: newLoginState_copy_parent.induct) simp_all

lemma setFrom_sel [simp]:
  "apiToken (setFrom this st) = apiToken st" "clientId (setFrom this st) = clientId st"
  "csrfToken (setFrom this st) = js_or (csrfToken st) (csrfToken this)"
  "organizationId (setFrom this st) = organizationId st" "userId (setFrom this st) = userId st"
  "isGuest (setFrom this st) = isGuest st"
  "parentState (setFrom this st) = copy_parent (parentState st)"
  by (simp_all add: setFrom_def)

lemma setFrom_depth [simp]: "depth (setFrom this st) = depth st"
  by (simp add: depth_parentState)

lemma setFrom_wf: "wf_login this \<Longrightarrow> wf_login st \<Longrightarrow> wf_login (setFrom this st)"
  by (auto simp: wf_parentState newLoginState_wf_id js_or_def)

lemma setFrom_same_csrf: "wf_login st \<Longrightarrow> csrfToken st = csrfToken this \<Longrightarrow> setFrom this st = st"
  by (cases st) (auto simp: setFrom_def newLoginState_wf_id js_or_def)

lemma setFrom_with_csrf: "wf_login st \<Longrightarrow> truthy (csrfToken st) \<Longrightarrow> setFrom this st = st"
  by (cases st) (auto simp: setFrom_def newLoginState_wf_id js_or_def)

lemma loggedOutCopy_sel [simp]:
  "apiToken (loggedOutCopy s) = JUndef" "clientId (loggedOutCopy s) = JUndef"
  "userId (loggedOutCopy s) = JUndef" "organizationId (loggedOutCopy s) = JUndef"
  "isGuest (loggedOutCopy s) = JUndef" "parentState (loggedOutCopy s) = NoParent JUndef"
  "csrfToken (loggedOutCopy s) = js_or (csrfToken s) JUndef"
  by (simp_all add: loggedOutCopy_def)

lemma logout_sel [simp]:
  "apiToken (logout_state s) = JUndef" "clientId (logout_state s) = JUndef"
  "userId (logout_state s) = JUndef" "organizationId (logout_state s) = JUndef"
  "isGuest (logout_state s) = JUndef" "parentState (logout_state s) = NoParent JUndef"
  "csrfToken (logout_state s) = csrfToken s"
  by (auto simp: logout_state_def js_or_def)

lemma logout_wf: "wf_login s \<Longrightarrow> wf_login (logout_state s)"
  by (simp add: wf_parentState)

subsection \<open>Round trips\<close>

lemma json_fields:
  "js_prop (toJson s) ''apiToken'' = apiToken s" "js_prop (toJson s) ''clientId'' = clientId s"
  "js_prop (toJson s) ''csrfToken'' = csrfToken s" "js_prop (toJson s) ''isGuest'' = isGuest s"
  "js_prop (toJson s) ''organizationId'' = organizationId s"
  "js_prop (toJson s) ''parentState'' = parent_json (parentState s)"
  "js_prop (toJson s) ''userId'' = userId s"
  by (cases s; simp)+

lemma truthy_toJson [simp]: "truthy (toJson s)"
  by (cases s) simp

lemma roundtrip_step:
  "wf_login s \<Longrightarrow> fromJson (toJson s) = s"
  "wf_parent p \<Longrightarrow> (if truthy (parent_json p) then Parent (fromJson (parent_json p))
     else NoParent (parent_json p)) = p"
proof (induction s and p)
  case (LoginState api cl csrf g org par usr)
  then have "csrf = js_or csrf JUndef" by (auto simp: js_or_def)
  then show ?case using LoginState
    by (subst fromJson.simps) (simp add: json_fields del: toJson.simps)
qed simp_all

subsection \<open>Popping what was pushed\<close>

lemma set_parent_sel [simp]:
  "apiToken (set_parent p s) = apiToken s" "clientId (set_parent p s) = clientId s"
  "csrfToken (set_parent p s) = csrfToken s" "isGuest (set_parent p s) = isGuest s"
  "organizationId (set_parent p s) = organizationId s" "parentState (set_parent p s) = p"
  "userId (set_parent p s) = userId s"
  by (simp_all add: set_parent_def)

lemma pushParentState_sel [simp]:
  "csrfToken (pushParentState s b g) = csrfToken s" "isGuest (pushParentState s b g) = isGuest s"
  by (simp_all add: pushParentState_def Let_def)

lemma pushParentState_parent:
  "parentState (pushParentState s b g) =
     (if b \<and> truthy (apiToken s) \<and> \<not> g then Parent (newLoginState s)
      else if has_parent (parentState s) then parentState s else NoParent JNull)"
  by (simp add: pushParentState_def Let_def)

lemma set_session_sel [simp]:
  "csrfToken (setLoginStateFromSession s ses b) = csrfToken s"
  "parentState (setLoginStateFromSession s ses b) = parentState (pushParentState s b False)"
  "apiToken (setLoginStateFromSession s ses b) = js_prop (js_prop ses ''api_token'') ''token''"
  by (simp_all add: setLoginStateFromSession_def Let_def)

lemma set_token_sel [simp]:
  "csrfToken (setLoginStateFromToken s new cur b) = csrfToken s"
  "parentState (setLoginStateFromToken s new cur b) =
     parentState (pushParentState s b (token_is_guest cur))"
  "apiToken (setLoginStateFromToken s new cur b) = js_prop new ''token''"
  by (simp_all add: setLoginStateFromToken_def Let_def)

lemma push_wf: "wf_login s \<Longrightarrow> wf_parent (parentState (pushParentState s b g))"
  by (auto simp: pushParentState_parent newLoginState_wf_id wf_parentState)

lemma set_session_wf: "wf_login s \<Longrightarrow> wf_login (setLoginStateFromSession s ses b)"
  using push_wf [of s b False] by (simp add: wf_parentState)

lemma set_token_wf: "wf_login s \<Longrightarrow> wf_login (setLoginStateFromToken s new cur b)"
  using push_wf [of s b "token_is_guest cur"] by (simp add: wf_parentState)

lemma pop_wf: "wf_login s \<Longrightarrow> popLoginState s = Inr (s', tok) \<Longrightarrow> wf_login s'"
  by (auto simp: popLoginState_def Let_def wf_parentState newLoginState_wf_id js_or_def
      split: parent_state.splits if_splits)

lemma pop_depth:
  "has_parent (parentState s) \<Longrightarrow> popLoginState s = Inr (s', tok) \<Longrightarrow> depth s = Suc (depth s')"
  by (auto simp: popLoginState_def Let_def depth_parentState split: parent_state.splits)

lemma depth_push:
  "depth (setLoginStateFromToken s new cur b) \<le> Suc (depth s)"
  "token_is_guest cur \<Longrightarrow> depth (setLoginStateFromToken s new cur b) = depth s"
  using depth_parentState [of s] depth_parentState [of "setLoginStateFromToken s new cur b"]
  by (cases "parentState s"; simp add: pushParentState_parent)+

text \<open>Visiting guest links one after the other: each visit sees the token of the one before.\<close>

definition visit_guests :: "login_state \<Rightarrow> jsval \<Rightarrow> jsval list \<Rightarrow> login_state \<times> jsval" where
  "visit_guests s cur tokens =
     foldl (\<lambda>(s, cur) tok. (setLoginStateFromToken s tok cur True, tok)) (s, cur) tokens"

lemma visit_guests_depth:
  assumes "\<forall>t \<in> set tokens. token_is_guest t" and "token_is_guest cur"
  shows "depth (fst (visit_guests s cur tokens)) = depth s \<and>
    (has_parent (parentState s) \<longrightarrow> parentState (fst (visit_guests s cur tokens)) = parentState s)"
  using assms
proof (induction tokens arbitrary: s cur)
  case Nil
  then show ?case by (simp add: visit_guests_def)
next
  case (Cons t ts)
  let ?s = "setLoginStateFromToken s t cur True"
  have step: "visit_guests s cur (t # ts) = visit_guests ?s t ts" by (simp add: visit_guests_def)
  have keep: "has_parent (parentState s) \<longrightarrow> parentState ?s = parentState s"
    using Cons.prems by (simp add: pushParentState_parent)
  have "depth (fst (visit_guests ?s t ts)) = depth ?s \<and>
    (has_parent (parentState ?s) \<longrightarrow> parentState (fst (visit_guests ?s t ts)) = parentState ?s)"
    by (rule Cons.IH) (use Cons.prems in auto)
  then show ?case using keep depth_push(2) [OF Cons.prems(2), of s t True] unfolding step by simp
qed

subsection \<open>Properties\<close>

text \<open>A login state survives the cookie jar: reading the JSON it is stored as gives it back,
  with its whole chain of parents.\<close>

theorem login_state_roundtrip:
  assumes "wf_login s"
  shows "fromJson (toJson s) = s \<and> wf_login (fromJson (toJson s))"
  using roundtrip_step(1) [OF assms] assms by simp

lemma login_state_roundtrip_witness:
  "fromJson (toJson (LoginState (JStr ''t'') (JStr ''1'') (JStr ''c'') JUndef JNull
     (Parent (LoginState (JStr ''u'') JNull (JStr ''c'') JUndef JUndef (NoParent JNull) (JStr ''2'')))
     (JStr ''3''))) =
   LoginState (JStr ''t'') (JStr ''1'') (JStr ''c'') JUndef JNull
     (Parent (LoginState (JStr ''u'') JNull (JStr ''c'') JUndef JUndef (NoParent JNull) (JStr ''2'')))
     (JStr ''3'')"
  by (rule login_state_roundtrip [THEN conjunct1]) simp

text \<open>Ending a session that was pushed over a logged in one restores it exactly, the token
  the API requestor uses included.\<close>

theorem pop_after_push:
  assumes "wf_login s" and "truthy (apiToken s)"
  shows "popLoginState (setLoginStateFromSession s session True) = Inr (s, apiToken s)"
  using assms
  by (simp add: popLoginState_def pushParentState_parent newLoginState_wf_id setFrom_same_csrf)

lemma pop_after_push_witness:
  "popLoginState (setLoginStateFromSession
     (LoginState (JStr ''t'') (JStr ''1'') (JStr ''c'') JUndef JNull (NoParent JNull) (JStr ''3''))
     (JObj [(''api_token'', JObj [(''token'', JStr ''new'')])]) True) =
   Inr (LoginState (JStr ''t'') (JStr ''1'') (JStr ''c'') JUndef JNull (NoParent JNull) (JStr ''3''),
        JStr ''t'')"
  by (subst pop_after_push) simp_all

text \<open>However many guest links are visited in a row, they stack at most one parent state: the
  one the user was logged in as before the first of them.\<close>

theorem guest_sessions_do_not_stack:
  assumes "\<forall>t \<in> set tokens. token_is_guest t" and "wf_login s" and "truthy (apiToken s)"
    and "\<not> token_is_guest cur" and "tokens \<noteq> []"
  shows "popLoginState (fst (visit_guests s cur tokens)) =
      Inr (setFrom (fst (visit_guests s cur tokens)) s, apiToken s) \<and>
    depth (fst (visit_guests s cur tokens)) = Suc (depth s)"
proof -
  obtain t ts where tokens: "tokens = t # ts" using assms(5) by (cases tokens) auto
  let ?s = "setLoginStateFromToken s t cur True"
  have parent: "parentState ?s = Parent s"
    using assms by (simp add: pushParentState_parent newLoginState_wf_id)
  have "visit_guests s cur tokens = visit_guests ?s t ts"
    by (simp add: visit_guests_def tokens)
  moreover have "depth (fst (visit_guests ?s t ts)) = depth ?s \<and>
      parentState (fst (visit_guests ?s t ts)) = Parent s"
    using visit_guests_depth [of ts t ?s] assms(1) parent tokens by simp
  moreover have "depth ?s = Suc (depth s)"
    unfolding depth_parentState [of ?s] parent by simp
  ultimately show ?thesis by (simp add: popLoginState_def)
qed

lemma guest_sessions_do_not_stack_witness:
  "depth (fst (visit_guests
     (LoginState (JStr ''t'') (JStr ''1'') (JStr ''c'') JUndef JNull (NoParent JNull) (JStr ''3''))
     JNull [JObj [(''token_type'', JStr ''guest'')], JObj [(''token_type'', JStr ''guest'')]])) = 1"
  using guest_sessions_do_not_stack [of "[JObj [(''token_type'', JStr ''guest'')],
      JObj [(''token_type'', JStr ''guest'')]]"
    "LoginState (JStr ''t'') (JStr ''1'') (JStr ''c'') JUndef JNull (NoParent JNull) (JStr ''3'')" JNull]
  by (simp add: token_is_guest_def)

end
