(* ===== verification/Middleware.thy ===== *)
theory Middleware
  imports Session
begin

section \<open>The handlers that prepare a request: web/js/server/express/\<close>

text \<open>
  Each handler of the Express application that sets attributes of the request, as a function
  from the request to the request it leaves and to how it goes on: the next handler, the next
  error handler, or neither. The API is a parameter: the answer to a call made with a token.
\<close>

subsection \<open>Requests and the API\<close>

record 'ep http_request =
  rq_method :: string
  rq_path :: string
  rq_params :: jsobj
  rq_query :: jsobj
  rq_body :: jsval
  rq_login :: login_state
  rq_token :: jsval
  rq_preferences :: preferences
  rq_cookieId :: jsval
  rq_cookieState :: jsval
  rq_forceNewCookieId :: bool
  rq_currentUser :: jsval
  rq_permissions :: jsval
  rq_memberships :: jsval
  rq_apiTokenDetail :: jsval
  rq_currentClient :: jsval
  rq_currentOrganization :: jsval
  rq_experimentCount :: jsval
  rq_aiExperimentCount :: jsval
  rq_error :: jsval
  rq_isAiExperiment :: bool
  rq_matchedClient :: jsval
  rq_matchedExperiment :: jsval
  rq_matchedOrganization :: jsval
  rq_matchedProject :: jsval
  rq_matchedTrainingRun :: jsval
  rq_matchedUser :: jsval
  rq_endpoint :: "'ep option"
  rq_endpointParams :: jsval
  rq_endpointResponse :: "response option"

datatype api_call =
    UserFetch jsval
  | UserPermissions jsval
  | UserMemberships jsval
  | FirstMembership jsval
  | UserDetail jsval
  | TokenSelf
  | DeleteTokenSelf
  | ClientDetail jsval
  | ClientTokens jsval
  | ClientExperiments jsval
  | ClientAiExperiments jsval
  | OrganizationFetch jsval
  | OrganizationDetail jsval
  | ExperimentDetail jsval
  | AiExperimentFetch jsval
  | ProjectFetch jsval jsval
  | TrainingRunFetch jsval
  | RunsOfObservation jsval jsval jsval
  | SessionCreate jsval jsval
  | SessionFetch jsval

type_synonym api = "jsval \<Rightarrow> api_call \<Rightarrow> failure + jsval"

datatype next_call =
    Next
  | NextError failure
  | NoNext

text \<open>\<open>Promise.all\<close>: the results in order, or the rejection that arrives first; \<open>order\<close> lists
  the positions in the order in which the promises settle.\<close>

definition promise_all :: "nat list \<Rightarrow> (failure + jsval) list \<Rightarrow> failure + jsval list" where
  "promise_all order ps =
     (case List.find (\<lambda>i. i < length ps \<and> isl (ps ! i)) order of
        Some i \<Rightarrow> Inl (projl (ps ! i))
      | None \<Rightarrow> Inr (map projr ps))"

subsection \<open>The current user: current_user.js\<close>

definition fetchUserInfo :: "api \<Rightarrow> nat list \<Rightarrow> jsval \<Rightarrow> jsval \<Rightarrow> failure + jsval list" where
  "fetchUserInfo api order token user =
     promise_all order
       [api token (UserFetch user), api token (UserPermissions user), api token (UserMemberships user)]"

definition isForbidden :: "failure \<Rightarrow> bool" where
  "isForbidden err = status_in [401, 403, 404] err"

text \<open>The login state and the token it ends with, and the answer.\<close>

function getUserInfoEvenIfSessionExpired ::
  "api \<Rightarrow> nat list \<Rightarrow> login_state \<Rightarrow> jsval \<Rightarrow> login_state \<times> jsval \<times> (failure + jsval list)" where
  "getUserInfoEvenIfSessionExpired api order s token =
     (case fetchUserInfo api order token (userId s) of
        Inr info \<Rightarrow> (s, token, Inr info)
      | Inl err \<Rightarrow>
          if isForbidden err \<and> has_parent (parentState s)
          then (case popLoginState s of
              Inl e \<Rightarrow> (s, token, Inl (Thrown e))
            | Inr (s', token') \<Rightarrow> getUserInfoEvenIfSessionExpired api order s' token')
          else (s, token, Inl err))"
  by pat_completeness auto

termination getUserInfoEvenIfSessionExpired
  by (relation "measure (\<lambda>(api, order, s, token). depth s)") (auto dest!: pop_depth)

declare getUserInfoEvenIfSessionExpired.simps [simp del]

definition setCurrentUser ::
  "api \<Rightarrow> nat list \<Rightarrow> 'ep http_request \<Rightarrow> 'ep http_request \<times> next_call" where
  "setCurrentUser api order req =
     (if truthy (userId (rq_login req)) \<and> \<not> startsWith (rq_path req) ''/static/'' then
        (let (s, token, answer) =
           getUserInfoEvenIfSessionExpired api order (rq_login req) (rq_token req);
           req' = req\<lparr>rq_login := s, rq_token := token\<rparr>
         in case answer of
           Inr info \<Rightarrow>
             (req'\<lparr>rq_currentUser := info ! 0, rq_permissions := info ! 1,
                rq_memberships := info ! 2\<rparr>, Next)
         | Inl err \<Rightarrow>
             if isForbidden err
             then (req'\<lparr>rq_login := logout_state s, rq_currentUser := JNull,
                     rq_permissions := JNull, rq_memberships := JNull\<rparr>, Next)
             else (req', NextError err))
      else (req\<lparr>rq_currentUser := JNull\<rparr>, Next))"

subsection \<open>The team the user acts on: check_login_state.js\<close>

text \<open>Reading \<open>p.client[key]\<close>; a permission without a client throws.\<close>

definition nullish :: "jsval \<Rightarrow> bool" where
  "nullish v = (v = JUndef \<or> v = JNull)"

definition permission_client :: "jsval \<Rightarrow> js_error + jsval" where
  "permission_client p =
     (if nullish p \<or> nullish (js_prop p ''client'') then Inl TypeError
      else Inr (js_prop p ''client''))"

fun find_permission :: "string \<Rightarrow> jsval \<Rightarrow> jsval list \<Rightarrow> js_error + jsval option" where
  "find_permission key v [] = Inr None"
| "find_permission key v (p # ps) =
     (case permission_client p of
        Inl e \<Rightarrow> Inl e
      | Inr client \<Rightarrow> if js_prop client key = v then Inr (Some p) else find_permission key v ps)"

fun array_items :: "jsval \<Rightarrow> jsval list" where
  "array_items (JArr xs) = xs"
| "array_items v = []"

definition removed_message :: "jsval \<Rightarrow> jsval" where
  "removed_message name =
     JStr (''You have been removed from your team or it was deleted. You are now acting on the ''
       @ js_text name @ '' team.'')"

definition uninvited_message :: jsval where
  "uninvited_message =
     JStr (''You must be invited to a team in order to use SigOpt.''
       @ '' Contact your organization administrator.'')"

definition set_team :: "jsval \<Rightarrow> jsval \<Rightarrow> login_state \<Rightarrow> login_state" where
  "set_team client organization s =
     LoginState (apiToken s) client (csrfToken s) (isGuest s) organization (parentState s) (userId s)"

definition choose_permission :: "jsval \<Rightarrow> jsval list \<Rightarrow> js_error + jsval" where
  "choose_permission organization ps =
     (if truthy organization then
        (case find_permission ''organization'' organization ps of
           Inl e \<Rightarrow> Inl e
         | Inr (Some p) \<Rightarrow> Inr p
         | Inr None \<Rightarrow> Inr (hd ps))
      else Inr (hd ps))"

definition checkLoginState :: "'ep http_request \<Rightarrow> 'ep http_request \<times> next_call" where
  "checkLoginState req =
     (let s = rq_login req; ps = array_items (rq_permissions req)
      in case (if truthy (clientId s) then find_permission ''id'' (clientId s) ps else Inr None) of
        Inl e \<Rightarrow> (req, NextError (Thrown e))
      | Inr (Some p) \<Rightarrow> (req\<lparr>rq_error := JNull\<rparr>, Next)
      | Inr None \<Rightarrow>
          if ps \<noteq> [] then
            (case choose_permission (organizationId s) ps of
               Inl e \<Rightarrow> (req, NextError (Thrown e))
             | Inr permission \<Rightarrow>
                 (case permission_client permission of
                    Inl e \<Rightarrow> (req, NextError (Thrown e))
                  | Inr client \<Rightarrow>
                      (req\<lparr>rq_error := (if truthy (clientId s)
                             then removed_message (js_prop client ''name'') else JNull),
                         rq_login := set_team (js_prop client ''id'')
                           (js_prop client ''organization'') s\<rparr>, Next)))
          else (req\<lparr>rq_login := set_team JNull JNull s, rq_error := uninvited_message\<rparr>, Next))"

subsection \<open>The token: token.js\<close>

function setTokenDetail ::
  "api \<Rightarrow> login_state \<Rightarrow> jsval \<Rightarrow> login_state \<times> jsval \<times> (failure + jsval)" where
  "setTokenDetail api s token =
     (if truthy (apiToken s) then
        (case api token TokenSelf of
           Inr detail \<Rightarrow> (s, token, Inr detail)
         | Inl err \<Rightarrow>
             if has_parent (parentState s) \<and> status_in [401, 403, 404] err
             then (case popLoginState s of
                 Inl e \<Rightarrow> (s, token, Inl (Thrown e))
               | Inr (s', token') \<Rightarrow> setTokenDetail api s' token')
             else (s, token, Inl err))
      else (s, token, Inr JNull))"
  by pat_completeness auto

termination setTokenDetail
  by (relation "measure (\<lambda>(api, s, token). depth s)") (auto dest!: pop_depth)

declare setTokenDetail.simps [simp del]

definition setApiTokenDetail :: "api \<Rightarrow> 'ep http_request \<Rightarrow> 'ep http_request \<times> next_call" where
  "setApiTokenDetail api req =
     (let (s, token, answer) = setTokenDetail api (rq_login req) (rq_token req);
          req' = req\<lparr>rq_login := s, rq_token := token\<rparr>
      in case answer of
        Inr detail \<Rightarrow> (req'\<lparr>rq_apiTokenDetail := detail\<rparr>, Next)
      | Inl err \<Rightarrow>
          if status_in [401, 403, 404] err
          then (req'\<lparr>rq_login := logout_state s\<rparr>, Next)
          else (req', NextError err))"

subsection \<open>The current client, organization and counts\<close>

definition setCurrentClient :: "api \<Rightarrow> 'ep http_request \<Rightarrow> 'ep http_request \<times> next_call" where
  "setCurrentClient api req =
     (if truthy (rq_currentUser req) \<and> truthy (clientId (rq_login req)) then
        (case api (rq_token req) (ClientDetail (clientId (rq_login req))) of
           Inr client \<Rightarrow> (req\<lparr>rq_currentClient := client\<rparr>, Next)
         | Inl err \<Rightarrow>
             if status_in [404] err then (req\<lparr>rq_currentClient := JNull\<rparr>, Next)
             else (req, NextError err))
      else (req\<lparr>rq_currentClient := JNull\<rparr>, Next))"

text \<open>Without an organization in the login state the first membership is asked for, and that call
  has no handler for a rejection.\<close>

definition setCurrentOrganization :: "api \<Rightarrow> 'ep http_request \<Rightarrow> 'ep http_request \<times> next_call"
where
  "setCurrentOrganization api req =
     (if truthy (rq_currentUser req) then
        (if truthy (organizationId (rq_login req)) then
           (case api (rq_token req) (OrganizationFetch (organizationId (rq_login req))) of
              Inr organization \<Rightarrow> (req\<lparr>rq_currentOrganization := organization\<rparr>, Next)
            | Inl err \<Rightarrow>
                if status_in [404] err then (req\<lparr>rq_currentOrganization := JNull\<rparr>, Next)
                else (req, NextError err))
         else
           (case api (rq_token req) (FirstMembership (js_prop (rq_currentUser req) ''id'')) of
              Inl err \<Rightarrow> (req, NoNext)
            | Inr pagination \<Rightarrow>
                (let organization = (case array_items (js_prop pagination ''data'') of
                     [] \<Rightarrow> JUndef
                   | m # _ \<Rightarrow> if truthy m then js_prop m ''organization'' else m)
                 in (req\<lparr>rq_currentOrganization := coalesce [organization, JNull]\<rparr>, Next))))
      else (req\<lparr>rq_currentOrganization := JNull\<rparr>, Next))"

definition count_of :: "jsval \<Rightarrow> jsval" where
  "count_of answer = (if truthy answer then js_prop answer ''count'' else JNull)"

definition setCurrentExperimentCounts ::
  "api \<Rightarrow> nat list \<Rightarrow> 'ep http_request \<Rightarrow> 'ep http_request \<times> next_call" where
  "setCurrentExperimentCounts api order req =
     (if truthy (rq_currentClient req) then
        (let client = js_prop (rq_currentClient req) ''id''
         in case promise_all order [api (rq_token req) (ClientExperiments client),
                api (rq_token req) (ClientAiExperiments client)] of
           Inr counts \<Rightarrow>
             (req\<lparr>rq_experimentCount := count_of (counts ! 0),
                rq_aiExperimentCount := count_of (counts ! 1)\<rparr>, Next)
         | Inl err \<Rightarrow>
             if status_in [404] err
             then (req\<lparr>rq_experimentCount := JNull, rq_aiExperimentCount := JNull\<rparr>, Next)
             else (req, NextError err))
      else (req\<lparr>rq_experimentCount := JNull, rq_aiExperimentCount := JNull\<rparr>, Next))"

subsection \<open>The object a path names: match.js and its users\<close>

text \<open>What the call of a path handler does: it answers, it fails through its callback, it throws
  before calling anything, or it calls nothing.\<close>

datatype match_answer =
    Matched jsval
  | MatchFailed failure
  | MatchThrew failure
  | MatchSilent

fun answer_of :: "failure + jsval \<Rightarrow> match_answer" where
  "answer_of (Inr v) = Matched v"
| "answer_of (Inl err) = MatchFailed err"

definition setFromUrlMatch ::
  "('ep http_request \<Rightarrow> 'ep http_request \<times> match_answer) \<Rightarrow>
   (jsval \<Rightarrow> 'ep http_request \<Rightarrow> 'ep http_request) \<Rightarrow>
   'ep http_request \<Rightarrow> 'ep http_request \<times> next_call" where
  "setFromUrlMatch apiCall setOnReq req =
     (if truthy (apiToken (rq_login req)) then
        (let (req', answer) = apiCall req
         in case answer of
           Matched apiObj \<Rightarrow> (setOnReq apiObj req', Next)
         | MatchFailed err \<Rightarrow>
             (req', NextError (if status_in [401] err then Http notFound else err))
         | MatchThrew err \<Rightarrow> (req', NextError err)
         | MatchSilent \<Rightarrow> (req', NoNext))
      else (req, NextError (Http PromptForLoginError)))"

definition param :: "'ep http_request \<Rightarrow> string \<Rightarrow> jsval" where
  "param req k = obj_get (rq_params req) k"

definition ask :: "api \<Rightarrow> 'ep http_request \<Rightarrow> api_call \<Rightarrow> match_answer" where
  "ask api req c = answer_of (api (rq_token req) c)"

definition setMatchedClient :: "api \<Rightarrow> 'ep http_request \<Rightarrow> 'ep http_request \<times> next_call" where
  "setMatchedClient api =
     setFromUrlMatch (\<lambda>req. (req, ask api req (ClientDetail (param req ''clientId''))))
       (\<lambda>v req. req\<lparr>rq_matchedClient := v\<rparr>)"

definition setMatchedUser :: "api \<Rightarrow> 'ep http_request \<Rightarrow> 'ep http_request \<times> next_call" where
  "setMatchedUser api =
     setFromUrlMatch (\<lambda>req. (req, ask api req (UserDetail (param req ''userId''))))
       (\<lambda>v req. req\<lparr>rq_matchedUser := v\<rparr>)"

definition setMatchedTrainingRun :: "api \<Rightarrow> 'ep http_request \<Rightarrow> 'ep http_request \<times> next_call"
where
  "setMatchedTrainingRun api =
     setFromUrlMatch (\<lambda>req. (req, ask api req (TrainingRunFetch (param req ''trainingRunId''))))
       (\<lambda>v req. req\<lparr>rq_matchedTrainingRun := v\<rparr>)"

definition experiment_call ::
  "api \<Rightarrow> 'ep http_request \<Rightarrow> 'ep http_request \<times> match_answer" where
  "experiment_call api req =
     (if truthy (param req ''experimentId'')
      then (req, ask api req (ExperimentDetail (param req ''experimentId'')))
      else if truthy (param req ''aiExperimentId'')
      then (req\<lparr>rq_isAiExperiment := True\<rparr>,
            ask api req (AiExperimentFetch (param req ''aiExperimentId'')))
      else (req, MatchSilent))"

definition setMatchedExperiment :: "api \<Rightarrow> 'ep http_request \<Rightarrow> 'ep http_request \<times> next_call"
where
  "setMatchedExperiment api =
     setFromUrlMatch (experiment_call api) (\<lambda>v req. req\<lparr>rq_matchedExperiment := v\<rparr>)"

definition organization_call ::
  "api \<Rightarrow> 'ep http_request \<Rightarrow> 'ep http_request \<times> match_answer" where
  "organization_call api req =
     (let organizationId' = param req ''organizationId''; own = organizationId (rq_login req)
      in if organizationId' \<in> {JStr ''experiments'', JStr ''teams'', JStr ''users'', JStr ''runs''}
         then (req, if truthy own
           then MatchThrew (makeRedirect
             (''/organization/'' @ js_text own @ ''/'' @ js_text organizationId') None)
           else MatchThrew (Http notFound))
         else (req, ask api req (OrganizationDetail organizationId')))"

definition setMatchedOrganization ::
  "api \<Rightarrow> 'ep http_request \<Rightarrow> 'ep http_request \<times> next_call" where
  "setMatchedOrganization api =
     setFromUrlMatch (organization_call api) (\<lambda>v req. req\<lparr>rq_matchedOrganization := v\<rparr>)"

definition project_call :: "api \<Rightarrow> 'ep http_request \<Rightarrow> 'ep http_request \<times> match_answer" where
  "project_call api req =
     (let client = js_or (param req ''clientId'') (clientId (rq_login req))
      in (req,
          if truthy client then ask api req (ProjectFetch client (param req ''projectId''))
          else if truthy (userId (rq_login req)) then MatchFailed (Http notFound)
          else MatchFailed (Http PromptForLoginError)))"

definition setMatchedProject :: "api \<Rightarrow> 'ep http_request \<Rightarrow> 'ep http_request \<times> next_call" where
  "setMatchedProject api =
     setFromUrlMatch (project_call api) (\<lambda>v req. req\<lparr>rq_matchedProject := v\<rparr>)"

text \<open>The run of an observation: exactly one must be found. Reading the project of an experiment
  that was not matched throws.\<close>

definition run_call :: "api \<Rightarrow> 'ep http_request \<Rightarrow> 'ep http_request \<times> match_answer" where
  "run_call api req =
     (let experiment = rq_matchedExperiment req; project = js_prop experiment ''project''
      in if nullish experiment then (req, MatchThrew (Thrown TypeError))
         else if isUndefinedOrNull project then (req, MatchFailed (Http notFound))
         else (req,
           case api (rq_token req) (RunsOfObservation (js_prop experiment ''client'') project
                  (param req ''observationId'')) of
             Inl err \<Rightarrow> MatchFailed err
           | Inr answer \<Rightarrow>
               if js_prop answer ''count'' \<noteq> JNum 1 then MatchFailed (Http notFound)
               else Matched (case array_items (js_prop answer ''data'') of
                   [] \<Rightarrow> JUndef | r # _ \<Rightarrow> r)))"

definition setRunFromObservation :: "api \<Rightarrow> 'ep http_request \<Rightarrow> 'ep http_request \<times> next_call"
where
  "setRunFromObservation api =
     setFromUrlMatch (run_call api) (\<lambda>v req. req\<lparr>rq_matchedTrainingRun := v\<rparr>)"

subsection \<open>The chain of sessions\<close>

text \<open>The login states popping leads through, from the current one to the outermost parent.\<close>

function session_chain :: "login_state \<Rightarrow> login_state list" where
  "session_chain s =
     s # (case parentState s of NoParent v \<Rightarrow> [] | Parent p \<Rightarrow> session_chain (setFrom s p))"
  by pat_completeness auto

termination session_chain
  by (relation "measure depth") (auto simp: depth_parentState)

declare session_chain.simps [simp del]

lemma session_chain_ne [simp]: "session_chain s \<noteq> []"
  by (subst session_chain.simps) simp

lemma session_chain_length: "length (session_chain s) = Suc (depth s)"
proof (induction s rule: session_chain.induct)
  case (1 s)
  then show ?case
    by (subst session_chain.simps) (simp add: depth_parentState [of s] split: parent_state.splits)
qed

lemma pop_Parent: "parentState s = Parent p \<Longrightarrow> popLoginState s = Inr (setFrom s p, apiToken p)"
  by (simp add: popLoginState_def)

definition user_answer :: "api \<Rightarrow> nat list \<Rightarrow> login_state \<Rightarrow> failure + jsval list" where
  "user_answer api order s = fetchUserInfo api order (apiToken s) (userId s)"

definition refused :: "(failure + 'a) \<Rightarrow> bool" where
  "refused answer = (case answer of Inl err \<Rightarrow> isForbidden err | Inr _ \<Rightarrow> False)"

definition first_or_last :: "('a \<Rightarrow> bool) \<Rightarrow> 'a list \<Rightarrow> 'a" where
  "first_or_last P xs = (case List.find P xs of Some x \<Rightarrow> x | None \<Rightarrow> last xs)"

lemma first_or_last_Cons:
  "first_or_last P (x # xs) = (if P x \<or> xs = [] then x else first_or_last P xs)"
  by (simp add: first_or_last_def split: option.splits)

lemma getUserInfo_chain:
  "getUserInfoEvenIfSessionExpired api order s (apiToken s) =
     (let s' = first_or_last (\<lambda>s. \<not> refused (user_answer api order s)) (session_chain s)
      in (s', apiToken s', user_answer api order s'))"
proof (induction s rule: session_chain.induct)
  case (1 s)
  show ?case
  proof (cases "refused (user_answer api order s) \<and> has_parent (parentState s)")
    case False
    then show ?thesis
      by (subst session_chain.simps, subst getUserInfoEvenIfSessionExpired.simps)
        (auto simp: first_or_last_Cons refused_def user_answer_def Let_def
          split: sum.splits parent_state.splits)
  next
    case True
    then obtain p where p: "parentState s = Parent p" by (cases "parentState s") auto
    from True obtain err where err: "fetchUserInfo api order (apiToken s) (userId s) = Inl err"
      "isForbidden err"
      by (auto simp: refused_def user_answer_def split: sum.splits)
    have "session_chain s = s # session_chain (setFrom s p)"
      by (subst session_chain.simps) (simp add: p)
    moreover have "getUserInfoEvenIfSessionExpired api order s (apiToken s) =
        getUserInfoEvenIfSessionExpired api order (setFrom s p) (apiToken (setFrom s p))"
      by (subst getUserInfoEvenIfSessionExpired.simps) (simp add: err p pop_Parent)
    ultimately show ?thesis using "1.IH" [OF p] True by (simp add: first_or_last_Cons)
  qed
qed

lemma setTokenDetail_chain:
  "setTokenDetail api s (apiToken s) =
     (let s' = first_or_last (\<lambda>s. \<not> truthy (apiToken s) \<or> \<not> refused (api (apiToken s) TokenSelf))
            (session_chain s)
      in (s', apiToken s', if truthy (apiToken s') then api (apiToken s') TokenSelf else Inr JNull))"
proof (induction s rule: session_chain.induct)
  case (1 s)
  show ?case
  proof (cases "truthy (apiToken s) \<and> refused (api (apiToken s) TokenSelf) \<and> has_parent (parentState s)")
    case False
    then show ?thesis
      by (subst session_chain.simps, subst setTokenDetail.simps)
        (auto simp: first_or_last_Cons refused_def isForbidden_def Let_def
          split: sum.splits parent_state.splits)
  next
    case True
    then obtain p where p: "parentState s = Parent p" by (cases "parentState s") auto
    from True obtain err where err: "api (apiToken s) TokenSelf = Inl err" "status_in [401, 403, 404] err"
      by (auto simp: refused_def isForbidden_def split: sum.splits)
    have "session_chain s = s # session_chain (setFrom s p)"
      by (subst session_chain.simps) (simp add: p)
    moreover have "setTokenDetail api s (apiToken s) =
        setTokenDetail api (setFrom s p) (apiToken (setFrom s p))"
      using True by (subst setTokenDetail.simps) (simp add: err(1) p pop_Parent err(2)[unfolded One_nat_def])
    ultimately show ?thesis using "1.IH" [OF p] True by (simp add: first_or_last_Cons)
  qed
qed

subsection \<open>Permissions\<close>

lemma find_permission_Some:
  "find_permission key v ps = Inr (Some p) \<Longrightarrow>
   p \<in> set ps \<and> js_prop (js_prop p ''client'') key = v"
  by (induction ps) (auto simp: permission_client_def split: sum.splits if_splits)

lemma find_permission_None:
  "find_permission key v ps = Inr None \<Longrightarrow>
   \<forall>p \<in> set ps. js_prop (js_prop p ''client'') key \<noteq> v"
  by (induction ps) (auto simp: permission_client_def split: sum.splits if_splits)

lemma choose_permission_in:
  "choose_permission organization ps = Inr p \<Longrightarrow> ps \<noteq> [] \<Longrightarrow> p \<in> set ps"
  by (auto simp: choose_permission_def dest: find_permission_Some split: if_splits sum.splits option.splits)

lemma choose_permission_same_organization:
  assumes "choose_permission organization ps = Inr p" and "truthy organization"
    and "q \<in> set ps" and "js_prop (js_prop q ''client'') ''organization'' = organization"
  shows "js_prop (js_prop p ''client'') ''organization'' = organization"
  using assms
  by (auto simp: choose_permission_def dest: find_permission_Some find_permission_None
      split: sum.splits option.splits)

lemma set_team_sel [simp]:
  "clientId (set_team c o' s) = c" "organizationId (set_team c o' s) = o'"
  "apiToken (set_team c o' s) = apiToken s" "userId (set_team c o' s) = userId s"
  "csrfToken (set_team c o' s) = csrfToken s" "parentState (set_team c o' s) = parentState s"
  by (simp_all add: set_team_def)

lemma array_items_in: "array_items v = ps \<Longrightarrow> ps \<noteq> [] \<Longrightarrow> v = JArr ps"
  by (cases v) auto

subsection \<open>Properties\<close>

text \<open>C6: The current user is that of the first session of the chain the API accepts, with its
  token; when it refuses them all the user is logged out and only the csrf token stays.\<close>

theorem current_user_of_first_valid_session:
  assumes "rq_token req = apiToken (rq_login req)" and "truthy (userId (rq_login req))"
    and "\<not> startsWith (rq_path req) ''/static/''" and "setCurrentUser api order req = (req', Next)"
  shows "case List.find (\<lambda>s. \<not> refused (user_answer api order s)) (session_chain (rq_login req)) of
      Some s \<Rightarrow> rq_login req' = s \<and> rq_token req' = apiToken s \<and>
        (\<exists>info. user_answer api order s = Inr info \<and> rq_currentUser req' = info ! 0 \<and>
           rq_permissions req' = info ! 1)
    | None \<Rightarrow> rq_login req' = logout_state (last (session_chain (rq_login req))) \<and>
        rq_currentUser req' = JNull \<and> rq_permissions req' = JNull"
proof -
  let ?P = "\<lambda>s. \<not> refused (user_answer api order s)" and ?chain = "session_chain (rq_login req)"
  define s' where "s' = first_or_last ?P ?chain"
  have run: "getUserInfoEvenIfSessionExpired api order (rq_login req) (rq_token req) =
      (s', apiToken s', user_answer api order s')"
    using getUserInfo_chain [of api order "rq_login req"] assms(1) by (simp add: s'_def Let_def)
  show ?thesis
  proof (cases "List.find ?P ?chain")
    case None
    then have last: "s' = last ?chain" by (simp add: s'_def first_or_last_def)
    moreover have "refused (user_answer api order (last ?chain))"
      using None last_in_set [OF session_chain_ne] by (auto simp: find_None_iff)
    ultimately have "refused (user_answer api order s')" "s' = last ?chain" by simp_all
    then show ?thesis using assms(2-4) run None
      by (auto simp: setCurrentUser_def refused_def split: sum.splits)
  next
    case (Some s)
    then have "s' = s" "\<not> refused (user_answer api order s')"
      by (auto simp: s'_def first_or_last_def dest: find_Some_iff')
    then show ?thesis using assms(2-4) run Some
      by (auto simp: setCurrentUser_def refused_def split: sum.splits if_splits)
  qed
qed

text \<open>C7: After the check of the login state the user acts on no team, or on one of the teams the
  user has a permission for; a user moved off a team stays in the organization when possible.\<close>

theorem client_is_permitted:
  assumes "checkLoginState req = (req', Next)"
  shows "(rq_permissions req' = rq_permissions req) \<and>
    (if array_items (rq_permissions req) = [] then clientId (rq_login req') = JNull
     else \<exists>p \<in> set (array_items (rq_permissions req)).
       js_prop (js_prop p ''client'') ''id'' = clientId (rq_login req') \<and>
       (rq_login req' \<noteq> rq_login req \<longrightarrow>
          js_prop (js_prop p ''client'') ''organization'' = organizationId (rq_login req') \<and>
          (truthy (organizationId (rq_login req)) \<longrightarrow>
           organizationId (rq_login req') = organizationId (rq_login req) \<or>
           (\<forall>q \<in> set (array_items (rq_permissions req)).
              js_prop (js_prop q ''client'') ''organization'' \<noteq> organizationId (rq_login req)))))"
proof -
  let ?s = "rq_login req" and ?ps = "array_items (rq_permissions req)"
  define found where "found = (if truthy (clientId ?s) then find_permission ''id'' (clientId ?s) ?ps
    else Inr None)"
  have eq: "checkLoginState req = (case found of
      Inl e \<Rightarrow> (req, NextError (Thrown e))
    | Inr (Some p) \<Rightarrow> (req\<lparr>rq_error := JNull\<rparr>, Next)
    | Inr None \<Rightarrow>
        if ?ps \<noteq> [] then
          (case choose_permission (organizationId ?s) ?ps of
             Inl e \<Rightarrow> (req, NextError (Thrown e))
           | Inr permission \<Rightarrow>
               (case permission_client permission of
                  Inl e \<Rightarrow> (req, NextError (Thrown e))
                | Inr client \<Rightarrow>
                    (req\<lparr>rq_error := (if truthy (clientId ?s)
                           then removed_message (js_prop client ''name'') else JNull),
                       rq_login := set_team (js_prop client ''id'')
                         (js_prop client ''organization'') ?s\<rparr>, Next)))
        else (req\<lparr>rq_login := set_team JNull JNull ?s, rq_error := uninvited_message\<rparr>, Next))"
    unfolding checkLoginState_def Let_def found_def ..
  note run = assms [unfolded eq]
  consider (kept) p where "found = Inr (Some p)" | (none) "found = Inr None"
    using run by (cases found) (auto split: option.splits)
  then show ?thesis
  proof cases
    case kept
    then have "p \<in> set ?ps" "js_prop (js_prop p ''client'') ''id'' = clientId ?s"
      using find_permission_Some [of "''id''"] by (auto simp: found_def split: if_splits)
    moreover from this have "?ps \<noteq> []" by auto
    ultimately show ?thesis using run kept by auto
  next
    case none
    show ?thesis
    proof (cases "?ps = []")
      case True
      then show ?thesis using run none by auto
    next
      case False
      then obtain p client where p: "choose_permission (organizationId ?s) ?ps = Inr p"
        "permission_client p = Inr client"
        "rq_login req' = set_team (js_prop client ''id'') (js_prop client ''organization'') ?s"
        "rq_permissions req' = rq_permissions req"
        using run none by (auto split: sum.splits)
      have "client = js_prop p ''client''"
        using p(2) by (auto simp: permission_client_def split: if_splits)
      then show ?thesis
        using False p choose_permission_in [OF p(1) False] choose_permission_same_organization [OF p(1)]
        by auto
    qed
  qed
qed

text \<open>Without a token every path handler asks for a login and calls nothing; with one, an
  answer 401 of the API reaches the user as a page that is not found.\<close>

theorem path_handlers_hide_unauthorized:
  assumes "setFromUrlMatch call put req = (req', NextError err)"
  shows "if truthy (apiToken (rq_login req))
    then \<forall>f. snd (call req) = MatchFailed f \<longrightarrow>
      \<not> status_in [401] err \<and> (\<not> status_in [401] f \<longrightarrow> err = f)
    else req' = req \<and> err = Http PromptForLoginError"
  using assms
  by (auto simp: setFromUrlMatch_def split: prod.splits match_answer.splits if_splits)

text \<open>The handler of the current organization never goes on when the user has no organization in
  the login state and the call for the first membership fails.\<close>

theorem current_organization_can_hang:
  "snd (setCurrentOrganization api req) = NoNext \<longleftrightarrow>
     truthy (rq_currentUser req) \<and> \<not> truthy (organizationId (rq_login req)) \<and>
     isl (api (rq_token req) (FirstMembership (js_prop (rq_currentUser req) ''id'')))"
  by (auto simp: setCurrentOrganization_def Let_def isl_def split: sum.splits)

subsection \<open>Examples\<close>

definition new_request :: "string \<Rightarrow> string \<Rightarrow> login_state \<Rightarrow> 'ep http_request" where
  "new_request method path s =
     \<lparr>rq_method = method, rq_path = path, rq_params = [], rq_query = [], rq_body = JUndef,
      rq_login = s, rq_token = apiToken s, rq_preferences = newPreferences JUndef,
      rq_cookieId = JNull, rq_cookieState = JObj [], rq_forceNewCookieId = False,
      rq_currentUser = JUndef, rq_permissions = JUndef, rq_memberships = JUndef,
      rq_apiTokenDetail = JUndef, rq_currentClient = JUndef, rq_currentOrganization = JUndef,
      rq_experimentCount = JUndef, rq_aiExperimentCount = JUndef, rq_error = JUndef,
      rq_isAiExperiment = False, rq_matchedClient = JUndef, rq_matchedExperiment = JUndef,
      rq_matchedOrganization = JUndef, rq_matchedProject = JUndef,
      rq_matchedTrainingRun = JUndef, rq_matchedUser = JUndef, rq_endpoint = None,
      rq_endpointParams = JUndef, rq_endpointResponse = None\<rparr>"

definition example_parent :: login_state where
  "example_parent = LoginState (JStr ''t'') (JStr ''1'') (JStr ''c'') JUndef (JStr ''5'') (NoParent JNull) (JStr ''u'')"

definition example_guest :: login_state where
  "example_guest = LoginState (JStr ''g'') JUndef (JStr ''c'') JUndef JUndef (Parent example_parent) (JStr ''v'')"

text \<open>An API that knows one token; its user may act on one team.\<close>

definition example_api :: api where
  "example_api token call =
     (if token = JStr ''t''
      then Inr (case call of
          UserPermissions u \<Rightarrow> JArr [JObj [(''client'', JObj [(''id'', JStr ''2''),
            (''organization'', JStr ''5''), (''name'', JStr ''Blue'')])]]
        | _ \<Rightarrow> JObj [(''id'', JStr ''u'')])
      else Inl (Http (UnauthorizedError JUndef)))"

definition example_request :: "nat http_request" where
  "example_request = new_request ''GET'' ''/home'' example_guest"

definition example_user_request :: "nat http_request" where
  "example_user_request = fst (setCurrentUser example_api [0, 1, 2] example_request)"

lemma example_user_step:
  "setCurrentUser example_api [0, 1, 2] example_request = (example_user_request, Next)"
proof -
  have "(case snd (setCurrentUser example_api [0, 1, 2] example_request) of
      Next \<Rightarrow> True | _ \<Rightarrow> False)"
    by code_simp
  then have "snd (setCurrentUser example_api [0, 1, 2] example_request) = Next"
    by (simp split: next_call.splits)
  then show ?thesis unfolding example_user_request_def by (metis prod.collapse)
qed

lemma current_user_of_first_valid_session_witness:
  "rq_login example_user_request = example_parent \<and> rq_token example_user_request = JStr ''t''"
proof -
  have ok: "\<not> refused (user_answer example_api [0, 1, 2] s) \<longleftrightarrow> apiToken s = JStr ''t''" for s
    by (auto simp: refused_def user_answer_def fetchUserInfo_def promise_all_def example_api_def
        isForbidden_def numeral_nat split: sum.splits)
  have chain: "session_chain example_guest = [example_guest, example_parent]"
    by (simp add: session_chain.simps example_guest_def example_parent_def setFrom_def)
  have "rq_token example_request = apiToken (rq_login example_request)"
    "truthy (userId (rq_login example_request))"
    "\<not> startsWith (rq_path example_request) ''/static/''"
    by (code_simp)+
  from current_user_of_first_valid_session [OF this example_user_step] show ?thesis
    unfolding ok by (simp add: example_request_def new_request_def chain)
      (simp add: example_guest_def example_parent_def)
qed

lemma client_is_permitted_witness:
  "clientId (rq_login (fst (checkLoginState example_user_request))) = JStr ''2''"
proof -
  have "snd (checkLoginState example_user_request) = Next" by code_simp
  then have step: "checkLoginState example_user_request =
      (fst (checkLoginState example_user_request), Next)"
    by (metis prod.collapse)
  have "array_items (rq_permissions example_user_request) =
      [JObj [(''client'', JObj [(''id'', JStr ''2''), (''organization'', JStr ''5''), (''name'', JStr ''Blue'')])]]"
    by code_simp
  with client_is_permitted [OF step] show ?thesis by simp
qed

lemma path_handlers_hide_unauthorized_witness:
  "\<not> status_in [401] (Http (notFound))"
proof -
  have "setFromUrlMatch (\<lambda>req. (req, MatchFailed (Http (UnauthorizedError JUndef)))) (\<lambda>v req. req)
      example_request = (example_request, NextError (Http notFound))"
    by (simp add: setFromUrlMatch_def example_request_def new_request_def example_guest_def)
  from path_handlers_hide_unauthorized [OF this] show ?thesis
    by (simp add: example_request_def new_request_def example_guest_def)
qed

end
