(* ===== verification/Cookies.thy ===== *)
theory Cookies
  imports Middleware
begin

section \<open>The cookie jar: web/js/server/express/cookie.js, server/cookie/\<close>

text \<open>
  A request names an object of the jar by its cookie; the reader loads the login state and the
  preferences from it, the writer stores them back, under a new name when one is forced. The
  object store, the text form of JSON, the random bytes in their url-safe form and the test for
  that form are parameters.
\<close>

subsection \<open>Cookie ids: server/cookie/utils.js, constants.js\<close>

definition SESSION_ID_LENGTH_BYTES :: nat where "SESSION_ID_LENGTH_BYTES = 64"
definition BASE64_ENCODED_SESSION_ID_LENGTH :: nat where "BASE64_ENCODED_SESSION_ID_LENGTH = 88"
definition DEFAULT_COOKIE_EXPIRY_SECONDS :: int where "DEFAULT_COOKIE_EXPIRY_SECONDS = 36 * 60 * 60"

text \<open>The class of \<open>S3_SAFE_REGEX\<close>; its \<open>!-_\<close> is the range from \<open>!\<close> to \<open>_\<close>.\<close>

definition s3_safe_char :: "char \<Rightarrow> bool" where
  "s3_safe_char c =
     (let n = (of_char c :: nat) in (33 \<le> n \<and> n \<le> 95) \<or> (97 \<le> n \<and> n \<le> 122))"

definition isS3Safe :: "string \<Rightarrow> bool" where
  "isS3Safe cookieId = (cookieId \<noteq> [] \<and> list_all s3_safe_char cookieId)"

definition isValidCookieId :: "(string \<Rightarrow> bool) \<Rightarrow> string option \<Rightarrow> bool" where
  "isValidCookieId isUrlSafeBase64 cookieId =
     (case cookieId of
        None \<Rightarrow> False
      | Some c \<Rightarrow> c \<noteq> [] \<and> isUrlSafeBase64 c \<and> isS3Safe c \<and>
          length c = BASE64_ENCODED_SESSION_ID_LENGTH)"

definition BASE64_REPLACEMENTS :: "char \<Rightarrow> char" where
  "BASE64_REPLACEMENTS c = (if c = CHR ''='' then CHR ''.'' else c)"

definition newRandomCookieId :: "string \<Rightarrow> string" where
  "newRandomCookieId unsafeNewId = map BASE64_REPLACEMENTS unsafeNewId"

definition cookieExpiryInSeconds :: "(string \<Rightarrow> jsval option) \<Rightarrow> jsval" where
  "cookieExpiryInSeconds config =
     (case config ''login_session.idle_timeout_seconds'' of
        None \<Rightarrow> JNum (of_int DEFAULT_COOKIE_EXPIRY_SECONDS) | Some v \<Rightarrow> v)"

definition cookieExpiryInMillis :: "(string \<Rightarrow> jsval option) \<Rightarrow> jsval" where
  "cookieExpiryInMillis config =
     (case cookieExpiryInSeconds config of JNum n \<Rightarrow> JNum (n * 1000) | v \<Rightarrow> v)"

subsection \<open>The object store\<close>

datatype s3_error = NoSuchKey | S3Failed failure

record ('st, 't) s3_client =
  s3_get :: "'st \<Rightarrow> string \<Rightarrow> s3_error + 't"
  s3_put :: "'st \<Rightarrow> string \<Rightarrow> 't \<Rightarrow> failure + 'st"
  s3_delete :: "'st \<Rightarrow> string \<Rightarrow> failure + 'st"

text \<open>The text form of JSON, in texts of any type.\<close>

record 't json_text =
  json_parse :: "'t \<Rightarrow> jsval option"
  json_stringify :: "jsval \<Rightarrow> 't"

definition readCookieFromCookiejar ::
  "('st, 't) s3_client \<Rightarrow> 't json_text \<Rightarrow> 'st \<Rightarrow> string \<Rightarrow> failure + jsval" where
  "readCookieFromCookiejar s3 json st cookieId =
     (case s3_get s3 st cookieId of
        Inr body \<Rightarrow> Inr (case json_parse json body of Some v \<Rightarrow> v | None \<Rightarrow> JObj [])
      | Inl NoSuchKey \<Rightarrow> Inr (JObj [])
      | Inl (S3Failed err) \<Rightarrow> Inl err)"

definition putCookieInCookiejar ::
  "('st, 't) s3_client \<Rightarrow> 't json_text \<Rightarrow> 'st \<Rightarrow> string \<Rightarrow> jsval \<Rightarrow> failure + 'st" where
  "putCookieInCookiejar s3 json st cookieId cookieState =
     s3_put s3 st cookieId (json_stringify json cookieState)"

text \<open>A failure to delete is only logged.\<close>

definition removeCookieFromCookiejar :: "('st, 't) s3_client \<Rightarrow> 'st \<Rightarrow> string \<Rightarrow> 'st" where
  "removeCookieFromCookiejar s3 st cookieId =
     (case s3_delete s3 st cookieId of Inr st' \<Rightarrow> st' | Inl _ \<Rightarrow> st)"

subsection \<open>Reading\<close>

text \<open>The id the request came with, as a string or \<open>null\<close>.\<close>

fun cookie_id :: "jsval \<Rightarrow> string option" where
  "cookie_id (JStr s) = Some s"
| "cookie_id v = None"

definition readRequestCookies ::
  "(string \<Rightarrow> bool) \<Rightarrow> ('st, 't) s3_client \<Rightarrow> 't json_text \<Rightarrow> string \<Rightarrow> 'st \<Rightarrow> string option \<Rightarrow>
   'ep http_request \<Rightarrow> 'ep http_request \<times> next_call" where
  "readRequestCookies isUrlSafeBase64 s3 json newCsrfToken st cookie req =
     (let jar = (if isValidCookieId isUrlSafeBase64 cookie then
           (case readCookieFromCookiejar s3 json st (the cookie) of
              Inl err \<Rightarrow> Inl err
            | Inr state \<Rightarrow> Inr (js_or state (JObj []), if truthy state then JStr (the cookie) else JNull))
         else Inr (JObj [], JNull))
      in case jar of
        Inl err \<Rightarrow> (req, NextError err)
      | Inr (cookieState, newCookieId) \<Rightarrow>
          (req\<lparr>rq_login := fromJson (js_or (js_prop cookieState ''loginState'')
                 (JObj [(''csrfToken'', JStr newCsrfToken)])),
             rq_preferences := newPreferences (js_prop cookieState ''preferences''),
             rq_cookieState := cookieState, rq_cookieId := newCookieId\<rparr>, Next))"

subsection \<open>Writing\<close>

record cookie_spec =
  spec_httpOnly :: bool
  spec_maxAge :: jsval
  spec_sameSite :: string

record sent_cookie =
  sent_name :: string
  sent_value :: string
  sent_spec :: "cookie_spec option"

definition cookie_state :: "'ep http_request \<Rightarrow> jsval" where
  "cookie_state req =
     JObj [(''loginState'', toJson (rq_login req)), (''preferences'', prefs_json (rq_preferences req))]"

text \<open>\<open>_.isEqual\<close> does not look at the order of properties.\<close>

fun js_canon :: "jsval \<Rightarrow> jsval" where
  "js_canon (JArr xs) = JArr (map js_canon xs)"
| "js_canon (JObj ps) = JObj (sort_key fst (map (\<lambda>(k, v). (k, js_canon v)) ps))"
| "js_canon v = v"

definition js_equal :: "jsval \<Rightarrow> jsval \<Rightarrow> bool" where
  "js_equal a b = (js_canon a = js_canon b)"

text \<open>The store it leaves, the cookie it sends, and how it goes on.\<close>

definition setResponseCookies ::
  "(string \<Rightarrow> bool) \<Rightarrow> ('st, 't) s3_client \<Rightarrow> 't json_text \<Rightarrow> string \<Rightarrow> cookie_spec option \<Rightarrow> string \<Rightarrow> 'st \<Rightarrow>
   'ep http_request \<Rightarrow> 'st \<times> sent_cookie option \<times> next_call" where
  "setResponseCookies isUrlSafeBase64 s3 json cookieName cookieSpec random st req =
     (let state = cookie_state req; old = rq_cookieId req;
          cookieId = (if \<not> truthy old \<or> rq_forceNewCookieId req
            then newRandomCookieId random else the (cookie_id old));
          put = (if old = JStr cookieId \<and> js_equal state (rq_cookieState req) then Inr st
            else putCookieInCookiejar s3 json st cookieId state);
          removed = (\<lambda>st'. if isValidCookieId isUrlSafeBase64 (cookie_id old) \<and> old \<noteq> JStr cookieId
            then removeCookieFromCookiejar s3 st' (the (cookie_id old)) else st')
      in case put of
        Inl err \<Rightarrow> (removed st, None, NextError err)
      | Inr st' \<Rightarrow>
          (removed st', Some \<lparr>sent_name = cookieName, sent_value = cookieId, sent_spec = cookieSpec\<rparr>, Next))"

subsection \<open>The handlers the application installs\<close>

definition config_or :: "(string \<Rightarrow> jsval option) \<Rightarrow> string \<Rightarrow> jsval \<Rightarrow> jsval" where
  "config_or config key d = (case config key of None \<Rightarrow> d | Some v \<Rightarrow> v)"

definition s3Options :: "(string \<Rightarrow> jsval option) \<Rightarrow> jsobj" where
  "s3Options config =
     (let region = config_or config ''web.cookiejar_region'' JNull;
          endpoint = config_or config ''web.cookiejar_endpoint'' JNull;
          credentials = config_or config ''web.cookiejar_credentials'' JNull
      in (if truthy region then [(''region'', region)] else [])
       @ (if truthy endpoint then [(''endpoint'', endpoint)] else [])
       @ (if truthy credentials then [(''credentials'', credentials)] else [])
       @ [(''forcePathStyle'', config_or config ''web.cookiejar_force_path_style'' (JBool False))])"

definition cookieSpec :: "(string \<Rightarrow> jsval option) \<Rightarrow> cookie_spec" where
  "cookieSpec config =
     \<lparr>spec_httpOnly = True, spec_maxAge = cookieExpiryInSeconds config, spec_sameSite = ''Lax''\<rparr>"

definition cookie_name :: "(string \<Rightarrow> jsval option) \<Rightarrow> string" where
  "cookie_name config = js_text (config_or config ''web.cookie_name'' (JStr ''sigopt-session-id''))"

text \<open>The writer is made with four arguments of five: the specification lands on the fourth, which
  nothing reads, and the fifth is missing.\<close>

definition cookieWriter ::
  "(string \<Rightarrow> bool) \<Rightarrow> ('st, 't) s3_client \<Rightarrow> 't json_text \<Rightarrow> (string \<Rightarrow> jsval option) \<Rightarrow> string \<Rightarrow> 'st \<Rightarrow>
   'ep http_request \<Rightarrow> 'st \<times> sent_cookie option \<times> next_call" where
  "cookieWriter isUrlSafeBase64 s3 json config random st req =
     (let disableCookiesKey = cookieSpec config; spec = None
      in setResponseCookies isUrlSafeBase64 s3 json (cookie_name config) spec random st req)"

definition cookieReader ::
  "(string \<Rightarrow> bool) \<Rightarrow> ('st, 't) s3_client \<Rightarrow> 't json_text \<Rightarrow> (string \<Rightarrow> jsval option) \<Rightarrow> string \<Rightarrow> 'st \<Rightarrow>
   (string \<rightharpoonup> string) \<Rightarrow> 'ep http_request \<Rightarrow> 'ep http_request \<times> next_call" where
  "cookieReader isUrlSafeBase64 s3 json config newCsrfToken st cookies req =
     readRequestCookies isUrlSafeBase64 s3 json newCsrfToken st (cookies (cookie_name config)) req"

subsection \<open>What the jar relies on\<close>

text \<open>The documented behaviour of the object store, and of JSON: an object reads back without the
  properties that were \<open>undefined\<close>.\<close>

definition object_store :: "('st, 't) s3_client \<Rightarrow> bool" where
  "object_store s3 =
     ((\<forall>st k v st' k'. s3_put s3 st k v = Inr st' \<longrightarrow>
         s3_get s3 st' k' = (if k' = k then Inr v else s3_get s3 st k')) \<and>
      (\<forall>st k st' k'. s3_delete s3 st k = Inr st' \<longrightarrow>
         s3_get s3 st' k' = (if k' = k then Inl NoSuchKey else s3_get s3 st k')))"

definition json_law :: "'t json_text \<Rightarrow> bool" where
  "json_law json = (\<forall>ps. json_parse json (json_stringify json (JObj ps)) = Some (json_clean (JObj ps)))"

subsection \<open>Scalars and the order of properties\<close>

fun scalar :: "jsval \<Rightarrow> bool" where
  "scalar (JArr xs) = False"
| "scalar (JObj ps) = False"
| "scalar v = True"

primrec scalar_login :: "login_state \<Rightarrow> bool" and scalar_parent :: "parent_state \<Rightarrow> bool" where
  "scalar_login (LoginState api cl csrf g org par usr) =
     (scalar api \<and> scalar cl \<and> scalar csrf \<and> scalar g \<and> scalar org \<and> scalar_parent par \<and> scalar usr)"
| "scalar_parent (NoParent v) = scalar v"
| "scalar_parent (Parent p) = scalar_login p"

lemma scalar_simps [simp]: "scalar v \<Longrightarrow> json_clean v = v" "scalar v \<Longrightarrow> js_canon v = v"
  by (cases v; simp)+

lemma canon_scalar: "js_canon v = js_canon w \<Longrightarrow> scalar w \<Longrightarrow> v = w"
  by (cases v; cases w) auto

lemma truthy_canon: "js_canon v = js_canon w \<Longrightarrow> truthy v = truthy w"
  by (cases v; cases w) auto

lemma map_of_hd_filter: "map_of ps k = map_option snd (List.find (\<lambda>p. fst p = k) ps)"
  by (induction ps) auto

lemma find_hd_filter: "List.find P xs = (case filter P xs of [] \<Rightarrow> None | x # _ \<Rightarrow> Some x)"
  by (induction xs) auto

lemma map_of_sort_key: "map_of (sort_key fst ps) k = map_of ps (k :: 'a :: linorder)"
proof -
  have "filter (\<lambda>p. fst p = k) (sort_key fst ps) = filter (\<lambda>p. fst p = k) ps"
    using sort_key_stable [of fst k ps] by simp
  then show ?thesis by (simp add: map_of_hd_filter find_hd_filter)
qed

lemma js_prop_canon: "js_prop (js_canon v) k = js_canon (js_prop v k)"
  by (cases v) (auto simp: js_prop_def obj_get_def map_of_sort_key map_of_map_snd split: option.splits)

lemma js_equal_prop: "js_equal v w \<Longrightarrow> js_equal (js_prop v k) (js_prop w k)"
  unfolding js_equal_def by (metis js_prop_canon)

lemma json_clean_login:
  "scalar_login s \<Longrightarrow> json_clean (toJson s) = toJson s"
  "scalar_parent p \<Longrightarrow> json_clean (parent_json p) = parent_json p"
  by (induction s and p) auto

text \<open>A login state read from an object equal up to order is the same state.\<close>

lemma fromJson_equal:
  "wf_login s \<Longrightarrow> scalar_login s \<Longrightarrow> js_equal v (toJson s) \<Longrightarrow> fromJson v = s"
  "wf_parent p \<Longrightarrow> scalar_parent p \<Longrightarrow> js_equal v (parent_json p) \<Longrightarrow>
     (if truthy v then Parent (fromJson v) else NoParent v) = p"
proof (induction s and p arbitrary: v and v)
  case (LoginState api cl csrf g org par usr)
  let ?s = "LoginState api cl csrf g org par usr"
  have eq: "js_canon (js_prop v k) = js_canon (js_prop (toJson ?s) k)" for k
    using js_equal_prop [OF LoginState.prems(3), of k] unfolding js_equal_def .
  have fields: "js_prop v ''apiToken'' = api" "js_prop v ''clientId'' = cl" "js_prop v ''csrfToken'' = csrf"
    "js_prop v ''isGuest'' = g" "js_prop v ''organizationId'' = org" "js_prop v ''userId'' = usr"
    using LoginState.prems(2) canon_scalar [OF eq, of "''apiToken''"] canon_scalar [OF eq, of "''clientId''"]
      canon_scalar [OF eq, of "''csrfToken''"] canon_scalar [OF eq, of "''isGuest''"]
      canon_scalar [OF eq, of "''organizationId''"] canon_scalar [OF eq, of "''userId''"]
    by (simp_all add: json_fields del: toJson.simps)
  have "(if truthy (js_prop v ''parentState'') then Parent (fromJson (js_prop v ''parentState''))
      else NoParent (js_prop v ''parentState'')) = par"
    using LoginState eq [of "''parentState''"]
    by (intro LoginState.IH) (auto simp: js_equal_def json_fields simp del: toJson.simps)
  moreover have "js_or csrf JUndef = csrf" using LoginState.prems(1) by (auto simp: js_or_def)
  ultimately show ?case by (subst fromJson.simps) (simp add: fields Let_def)
next
  case (NoParent w)
  then have "v = w" using canon_scalar [of v w] by (simp add: js_equal_def)
  then show ?case using NoParent by simp
next
  case (Parent p)
  then have "truthy v" using truthy_canon [of v "toJson p"] by (simp add: js_equal_def)
  then show ?case using Parent by simp
qed

lemma js_equal_refl [simp]: "js_equal v v"
  by (simp add: js_equal_def)

subsection \<open>Reading what was written\<close>

definition same_preferences :: "preferences \<Rightarrow> jsval \<Rightarrow> bool" where
  "same_preferences p v = (\<forall>k. js_prop v k = js_prop (prefs_json p) k)"

lemma prefs_read:
  assumes "js_equal (js_prop state ''preferences'') (prefs_json p) \<or>
      js_prop state ''preferences'' = json_clean (prefs_json p)"
    and "scalar (pref_userId p)" and "scalar (pref_clientId p)"
  shows "newPreferences (js_prop state ''preferences'') = p"
proof -
  let ?v = "js_prop state ''preferences''"
  have eq: "js_canon (js_prop ?v k) = js_canon (js_prop (prefs_json p) k)" for k
    using assms(1)
  proof
    assume "js_equal ?v (prefs_json p)"
    then show ?thesis using js_equal_prop [of ?v "prefs_json p" k] by (simp add: js_equal_def)
  next
    assume "?v = json_clean (prefs_json p)"
    then show ?thesis using assms(2,3) by (auto simp: prefs_json_def)
  qed
  have "js_prop ?v ''userId'' = pref_userId p" "js_prop ?v ''clientId'' = pref_clientId p"
    using assms(2,3) canon_scalar [OF eq, of "''userId''"] canon_scalar [OF eq, of "''clientId''"]
    by (simp_all add: prefs_json_def)
  moreover have "truthy ?v"
    using assms(1) truthy_canon [of ?v "prefs_json p"] by (auto simp: js_equal_def prefs_json_def)
  ultimately show ?thesis by (simp add: newPreferences_def prefs_setFrom_def)
qed

lemma state_read:
  assumes "wf_login (rq_login req)" and "scalar_login (rq_login req)"
    and "scalar (pref_userId (rq_preferences req))" and "scalar (pref_clientId (rq_preferences req))"
    and "state = json_clean (cookie_state req) \<or> js_equal (cookie_state req) state"
  shows "truthy state" and "truthy (js_prop state ''loginState'')"
    and "fromJson (js_prop state ''loginState'') = rq_login req"
    and "newPreferences (js_prop state ''preferences'') = rq_preferences req"
proof -
  have login: "js_equal (js_prop state ''loginState'') (toJson (rq_login req))"
    using assms(5)
  proof
    assume "state = json_clean (cookie_state req)"
    then show ?thesis
      using json_clean_login(1) [OF assms(2)]
      by (simp add: cookie_state_def obj_get_clean del: json_clean.simps)
  next
    assume "js_equal (cookie_state req) state"
    then show ?thesis using js_equal_prop [of "cookie_state req" state "''loginState''"]
      by (simp add: cookie_state_def js_equal_def)
  qed
  show "fromJson (js_prop state ''loginState'') = rq_login req"
    using fromJson_equal(1) [OF assms(1,2) login] .
  show truthy: "truthy (js_prop state ''loginState'')"
    using truthy_canon login by (auto simp: js_equal_def)
  show "truthy state" using truthy by (cases state) (auto simp: js_prop_def)
  have "js_equal (js_prop state ''preferences'') (prefs_json (rq_preferences req)) \<or>
      js_prop state ''preferences'' = json_clean (prefs_json (rq_preferences req))"
    using assms(5)
  proof
    assume "state = json_clean (cookie_state req)"
    then show ?thesis by (simp add: cookie_state_def obj_get_clean del: json_clean.simps)
  next
    assume "js_equal (cookie_state req) state"
    then show ?thesis using js_equal_prop [of "cookie_state req" state "''preferences''"]
      by (simp add: cookie_state_def js_equal_def)
  qed
  then show "newPreferences (js_prop state ''preferences'') = rq_preferences req"
    using prefs_read assms(3,4) by blast
qed

lemma object_store_put:
  "object_store s3 \<Longrightarrow> s3_put s3 st k v = Inr st' \<Longrightarrow>
   s3_get s3 st' k' = (if k' = k then Inr v else s3_get s3 st k')"
  by (simp add: object_store_def)

lemma object_store_delete:
  "object_store s3 \<Longrightarrow> s3_delete s3 st k = Inr st' \<Longrightarrow>
   s3_get s3 st' k' = (if k' = k then Inl NoSuchKey else s3_get s3 st k')"
  by (simp add: object_store_def)

lemma remove_other:
  "object_store s3 \<Longrightarrow> k' \<noteq> k \<Longrightarrow>
   s3_get s3 (removeCookieFromCookiejar s3 st k) k' = s3_get s3 st k'"
  by (auto simp: removeCookieFromCookiejar_def object_store_delete split: sum.splits)

text \<open>What the writer leaves under the id it sends.\<close>

lemma written_state:
  assumes store: "object_store s3" and json: "json_law json"
    and run: "setResponseCookies safe s3 json name spec random st req = (st', Some c, Next)"
    and kept: "js_equal (cookie_state req) (rq_cookieState req) \<Longrightarrow> rq_cookieId req = JStr (sent_value c) \<Longrightarrow>
      readCookieFromCookiejar s3 json st (sent_value c) = Inr (rq_cookieState req)"
  shows "\<exists>state. readCookieFromCookiejar s3 json st' (sent_value c) = Inr state \<and>
    (state = json_clean (cookie_state req) \<or> js_equal (cookie_state req) state)"
proof -
  let ?id = "if \<not> truthy (rq_cookieId req) \<or> rq_forceNewCookieId req
    then newRandomCookieId random else the (cookie_id (rq_cookieId req))"
  have c: "sent_value c = ?id"
    using run by (auto simp: setResponseCookies_def Let_def split: sum.splits if_splits)
  let ?skip = "rq_cookieId req = JStr ?id \<and> js_equal (cookie_state req) (rq_cookieState req)"
  show ?thesis
  proof (cases ?skip)
    case True
    then have "st' = st"
      using run by (auto simp: setResponseCookies_def Let_def split: if_splits)
    then show ?thesis using True kept c by auto
  next
    case False
    then obtain st1 where st1: "putCookieInCookiejar s3 json st (sent_value c) (cookie_state req) = Inr st1"
      "st' = st1 \<or> (\<exists>old. old \<noteq> sent_value c \<and> st' = removeCookieFromCookiejar s3 st1 old)"
      using run c unfolding setResponseCookies_def Let_def
      by (cases "rq_cookieId req") (auto simp: isValidCookieId_def split: sum.splits if_splits)
    then have "s3_get s3 st' (sent_value c) = Inr (json_stringify json (cookie_state req))"
      using object_store_put [OF store, of st "sent_value c" _ st1 "sent_value c"] remove_other [OF store]
      by (auto simp: putCookieInCookiejar_def)
    moreover have "json_parse json (json_stringify json (cookie_state req)) = Some (json_clean (cookie_state req))"
      using json by (simp add: json_law_def cookie_state_def)
    ultimately show ?thesis by (simp add: readCookieFromCookiejar_def)
  qed
qed

subsection \<open>Properties\<close>

text \<open>C2: A session survives the cookie jar: the request that brings back the cookie of a response has
  the login state and the preferences the earlier request ended with.\<close>

theorem cookie_roundtrip:
  assumes "object_store s3" and "json_law json"
    and "setResponseCookies safe s3 json name spec random st req = (st', Some c, Next)"
    and "js_equal (cookie_state req) (rq_cookieState req) \<Longrightarrow> rq_cookieId req = JStr (sent_value c) \<Longrightarrow>
      readCookieFromCookiejar s3 json st (sent_value c) = Inr (rq_cookieState req)"
    and "wf_login (rq_login req)" and "scalar_login (rq_login req)"
    and "scalar (pref_userId (rq_preferences req))" and "scalar (pref_clientId (rq_preferences req))"
    and "isValidCookieId safe (Some (sent_value c))"
  shows "\<exists>req2. readRequestCookies safe s3 json csrf st' (Some (sent_value c)) blank = (req2, Next) \<and>
    rq_login req2 = rq_login req \<and> rq_preferences req2 = rq_preferences req \<and>
    rq_cookieId req2 = JStr (sent_value c)"
proof -
  obtain state where state: "readCookieFromCookiejar s3 json st' (sent_value c) = Inr state"
    "state = json_clean (cookie_state req) \<or> js_equal (cookie_state req) state"
    using written_state [OF assms(1-3)] assms(4) by blast
  note read = state_read [OF assms(5-8) state(2)]
  show ?thesis
    using read state(1) assms(9) by (simp add: readRequestCookies_def)
qed

text \<open>When a new cookie id is forced, the object of the old one is gone: a request that still
  sends the old cookie is not logged in.\<close>

theorem forced_id_ends_old_session:
  assumes "object_store s3" and "rq_forceNewCookieId req" and "rq_cookieId req = JStr old"
    and "isValidCookieId safe (Some old)" and "old \<noteq> newRandomCookieId random"
    and "setResponseCookies safe s3 json name spec random st req = (st', Some c, Next)"
    and "\<And>st. \<not> isl (s3_delete s3 st old)"
  shows "sent_value c = newRandomCookieId random \<and>
    (\<exists>req2. readRequestCookies safe s3 json csrf st' (Some old) blank = (req2, Next) \<and>
      rq_login req2 = LoginState JUndef JUndef (js_or (JStr csrf) JUndef) JUndef JUndef
        (NoParent JUndef) JUndef)"
proof -
  obtain st1 where st1: "st' = removeCookieFromCookiejar s3 st1 old" "sent_value c = newRandomCookieId random"
    using assms by (auto simp: setResponseCookies_def Let_def split: sum.splits if_splits)
  obtain st2 where "s3_delete s3 st1 old = Inr st2"
    using assms(7) [of st1] by (cases "s3_delete s3 st1 old") auto
  then have "s3_get s3 st' old = Inl NoSuchKey"
    using object_store_delete [OF assms(1)] by (simp add: st1 removeCookieFromCookiejar_def)
  then have "readCookieFromCookiejar s3 json st' old = Inr (JObj [])"
    by (simp add: readCookieFromCookiejar_def)
  then show ?thesis using assms(4) st1(2)
    by (simp add: readRequestCookies_def fromJson.simps [of "JObj ps" for ps])
qed

lemma writer_new_id:
  assumes "\<not> truthy (rq_cookieId req) \<or> rq_forceNewCookieId req"
    and "rq_cookieId req \<noteq> JStr (newRandomCookieId random)"
    and "\<And>st k v. \<not> isl (s3_put s3 st k v)"
  shows "\<exists>st'. setResponseCookies safe s3 json name spec random st req =
    (st', Some \<lparr>sent_name = name, sent_value = newRandomCookieId random, sent_spec = spec\<rparr>, Next)"
proof -
  obtain st1 where "putCookieInCookiejar s3 json st (newRandomCookieId random) (cookie_state req) = Inr st1"
    using assms(3) [of st "newRandomCookieId random" "json_stringify json (cookie_state req)"]
    by (cases "s3_put s3 st (newRandomCookieId random) (json_stringify json (cookie_state req))")
      (auto simp: putCookieInCookiejar_def)
  then show ?thesis using assms(1,2) by (simp add: setResponseCookies_def Let_def)
qed

text \<open>The ids the server makes pass its own check.\<close>

lemma newRandomCookieId_valid:
  assumes "length u = 88" and "safe (newRandomCookieId u)"
    and "\<forall>c \<in> set u. (of_char c :: nat) \<in> {48..57} \<union> {65..90} \<union> {97..122} \<union> {45, 61, 95}"
  shows "isValidCookieId safe (Some (newRandomCookieId u))"
proof -
  have "s3_safe_char (BASE64_REPLACEMENTS c)" if "c \<in> set u" for c
  proof (cases "c = CHR ''=''")
    case True
    then show ?thesis by (simp add: BASE64_REPLACEMENTS_def s3_safe_char_def)
  next
    case False
    then show ?thesis using assms(3) that by (force simp: BASE64_REPLACEMENTS_def s3_safe_char_def)
  qed
  then have "isS3Safe (newRandomCookieId u)"
    using assms(1) by (auto simp: isS3Safe_def newRandomCookieId_def list_all_iff)
  then show ?thesis using assms(1,2)
    by (auto simp: isValidCookieId_def BASE64_ENCODED_SESSION_ID_LENGTH_def newRandomCookieId_def)
qed

text \<open>The cookie the application sends has no attributes: neither \<open>httpOnly\<close> nor \<open>sameSite\<close> nor a
  maximal age, whatever the configuration says.\<close>

theorem cookie_without_attributes:
  assumes "cookieWriter safe s3 json config random st req = (st', Some c, next)"
  shows "sent_name c = cookie_name config \<and> sent_spec c = None"
  using assms
  by (auto simp: cookieWriter_def setResponseCookies_def Let_def split: sum.splits)

subsection \<open>Examples\<close>

text \<open>A store whose texts are the cleaned values themselves.\<close>

definition map_store :: "(string \<Rightarrow> jsval option, jsval) s3_client" where
  "map_store =
     \<lparr>s3_get = (\<lambda>st k. case st k of None \<Rightarrow> Inl NoSuchKey | Some v \<Rightarrow> Inr v),
      s3_put = (\<lambda>st k v. Inr (st(k \<mapsto> v))), s3_delete = (\<lambda>st k. Inr (st(k := None)))\<rparr>"

definition plain_json :: "jsval json_text" where
  "plain_json = \<lparr>json_parse = Some, json_stringify = json_clean\<rparr>"

lemma map_store_law: "object_store map_store" "json_law plain_json"
  by (auto simp: object_store_def map_store_def json_law_def plain_json_def)

definition example_id :: string where
  "example_id = replicate 86 (CHR ''a'') @ ''==''"

definition cookie_login :: login_state where
  "cookie_login = LoginState (JStr ''t'') (JStr ''1'') (JStr ''c'') JUndef (JStr ''5'') (NoParent JNull) (JStr ''u'')"

definition written :: "(string \<Rightarrow> jsval option) \<times> sent_cookie option \<times> next_call" where
  "written = setResponseCookies (\<lambda>_. True) map_store plain_json ''sid'' None example_id (\<lambda>_. None)
     (new_request ''GET'' ''/home'' cookie_login :: nat http_request)"

lemma written_ok: "\<exists>st. written = (st, Some \<lparr>sent_name = ''sid'', sent_value = newRandomCookieId example_id,
    sent_spec = None\<rparr>, Next)"
  unfolding written_def by (rule writer_new_id) (simp_all add: new_request_def map_store_def)

lemma example_id_valid: "isValidCookieId (\<lambda>_. True) (Some (newRandomCookieId example_id))"
  by (rule newRandomCookieId_valid) (auto simp: example_id_def)

lemma cookie_roundtrip_witness:
  "\<exists>st req2. readRequestCookies (\<lambda>_. True) map_store plain_json ''x'' st
      (Some (newRandomCookieId example_id)) (new_request ''GET'' ''/'' cookie_login :: nat http_request) =
      (req2, Next) \<and> rq_login req2 = cookie_login"
proof -
  obtain st where run: "written = (st, Some \<lparr>sent_name = ''sid'',
      sent_value = newRandomCookieId example_id, sent_spec = None\<rparr>, Next)"
    using written_ok by blast
  let ?req = "new_request ''GET'' ''/home'' cookie_login :: nat http_request"
  have "\<exists>req2. readRequestCookies (\<lambda>_. True) map_store plain_json ''x'' st
      (Some (sent_value \<lparr>sent_name = ''sid'', sent_value = newRandomCookieId example_id, sent_spec = None\<rparr>))
      (new_request ''GET'' ''/'' cookie_login :: nat http_request) = (req2, Next) \<and>
      rq_login req2 = rq_login ?req \<and> rq_preferences req2 = rq_preferences ?req \<and>
      rq_cookieId req2 = JStr (sent_value \<lparr>sent_name = ''sid'', sent_value = newRandomCookieId example_id,
        sent_spec = None\<rparr>)"
    by (rule cookie_roundtrip [OF map_store_law run [unfolded written_def]])
      (use example_id_valid in \<open>simp_all add: new_request_def cookie_login_def newPreferences_def
        prefs_setFrom_def js_prop_def\<close>)
  then show ?thesis by (auto simp: new_request_def)
qed

lemma forced_id_ends_old_session_witness:
  "\<exists>st req2. readRequestCookies (\<lambda>_. True) map_store plain_json ''x'' st (Some (replicate 88 (CHR ''o'')))
      (new_request ''GET'' ''/'' cookie_login :: nat http_request) = (req2, Next) \<and>
    apiToken (rq_login req2) = JUndef"
proof -
  let ?old = "replicate 88 (CHR ''o'')"
  let ?req = "(new_request ''GET'' ''/home'' cookie_login :: nat http_request)
    \<lparr>rq_forceNewCookieId := True, rq_cookieId := JStr ?old\<rparr>"
  let ?c = "\<lparr>sent_name = ''sid'', sent_value = newRandomCookieId example_id, sent_spec = None\<rparr>"
  have "length (newRandomCookieId example_id) = 88" "hd (newRandomCookieId example_id) = CHR ''a''"
    by (simp_all add: newRandomCookieId_def example_id_def BASE64_REPLACEMENTS_def)
  then have ne: "?old \<noteq> newRandomCookieId example_id" by (auto dest: arg_cong [where f = hd])
  have "\<exists>st. setResponseCookies (\<lambda>_. True) map_store plain_json ''sid'' None example_id (\<lambda>_. None) ?req =
      (st, Some ?c, Next)"
    by (rule writer_new_id) (use ne in \<open>simp_all add: new_request_def map_store_def\<close>)
  then obtain st where st: "setResponseCookies (\<lambda>_. True) map_store plain_json ''sid'' None example_id
      (\<lambda>_. None) ?req = (st, Some ?c, Next)" by blast
  have "sent_value ?c = newRandomCookieId example_id \<and>
    (\<exists>req2. readRequestCookies (\<lambda>_. True) map_store plain_json ''x'' st (Some ?old)
        (new_request ''GET'' ''/'' cookie_login :: nat http_request) = (req2, Next) \<and>
      rq_login req2 = LoginState JUndef JUndef (js_or (JStr ''x'') JUndef) JUndef JUndef
        (NoParent JUndef) JUndef)"
    by (intro forced_id_ends_old_session [OF map_store_law(1) _ _ _ _ st])
      (simp_all add: isValidCookieId_def isS3Safe_def s3_safe_char_def BASE64_ENCODED_SESSION_ID_LENGTH_def
        map_store_def list_all_iff ne)
  then obtain req2 where "readRequestCookies (\<lambda>_. True) map_store plain_json ''x'' st (Some ?old)
      (new_request ''GET'' ''/'' cookie_login :: nat http_request) = (req2, Next)"
    "rq_login req2 = LoginState JUndef JUndef (js_or (JStr ''x'') JUndef) JUndef JUndef
      (NoParent JUndef) JUndef" by blast
  then show ?thesis by (intro exI [of _ st] exI [of _ req2]) simp
qed

lemma cookie_without_attributes_witness:
  "\<exists>st c. cookieWriter (\<lambda>_. True) map_store plain_json (\<lambda>_. None) example_id (\<lambda>_. None)
      (new_request ''GET'' ''/home'' cookie_login :: nat http_request) = (st, Some c, Next) \<and>
    sent_spec c = None"
proof -
  let ?req = "new_request ''GET'' ''/home'' cookie_login :: nat http_request"
  obtain st where "setResponseCookies (\<lambda>_. True) map_store plain_json (cookie_name (\<lambda>_. None)) None
      example_id (\<lambda>_. None) ?req = (st, Some \<lparr>sent_name = cookie_name (\<lambda>_. None),
        sent_value = newRandomCookieId example_id, sent_spec = None\<rparr>, Next)"
  proof -
    have "\<not> truthy (rq_cookieId ?req)" "rq_cookieId ?req \<noteq> JStr (newRandomCookieId example_id)"
      "\<And>st k v. \<not> isl (s3_put map_store st k v)"
      by (simp_all add: new_request_def map_store_def)
    then show ?thesis using writer_new_id [of ?req example_id map_store] that by blast
  qed
  then have run: "cookieWriter (\<lambda>_. True) map_store plain_json (\<lambda>_. None) example_id (\<lambda>_. None) ?req =
      (st, Some \<lparr>sent_name = cookie_name (\<lambda>_. None), sent_value = newRandomCookieId example_id,
        sent_spec = None\<rparr>, Next)"
    by (simp add: cookieWriter_def)
  with cookie_without_attributes [OF run] show ?thesis by blast
qed

end
