(* ===== verification/Endpoints.thy ===== *)
theory Endpoints
  imports Middleware
begin

section \<open>Endpoints that change the session: web/js/pages/landing, session, guest\<close>

text \<open>
  An endpoint rejects with a redirect or an error, or resolves with the parameters of its page.
  Modelled are the endpoints that read or write the login state, the address check for redirects
  and the base classes. The parsing of addresses is a parameter: \<open>origin\<close>, the scheme, host
  and port of an address, empty for an address without any.
\<close>

type_synonym 'ep endpoint_run = "'ep http_request \<times> (failure + jsval)"

definition validateContinueHref :: "(string \<Rightarrow> string) \<Rightarrow> string \<Rightarrow> jsval \<Rightarrow> jsval" where
  "validateContinueHref origin appUrl continueHref =
     (if \<not> truthy continueHref then continueHref
      else if origin (js_text continueHref) = [] then continueHref
      else if origin (js_text continueHref) = appUrl then continueHref
      else JNull)"

subsection \<open>Logging out: pages/landing/logout.js\<close>

definition deleteToken :: "api \<Rightarrow> jsval \<Rightarrow> failure + jsval" where
  "deleteToken api tokenValue =
     (case api tokenValue TokenSelf of
        Inl err \<Rightarrow> Inl err
      | Inr token \<Rightarrow>
          if truthy (js_prop token ''lease_length'') then
            (case api tokenValue DeleteTokenSelf of
               Inr v \<Rightarrow> Inr v
             | Inl e \<Rightarrow> if status_in [403, 404] e then Inr JUndef else Inl e)
          else Inr JNull)"

function outermost :: "login_state \<Rightarrow> login_state" where
  "outermost s = (case parentState s of NoParent v \<Rightarrow> s | Parent p \<Rightarrow> outermost p)"
  by pat_completeness auto

termination outermost
  by (relation "measure depth") (auto simp: depth_parentState)

declare outermost.simps [simp del]

definition logout_endpoint ::
  "(string \<Rightarrow> string) \<Rightarrow> string \<Rightarrow> api \<Rightarrow> 'ep http_request \<Rightarrow> 'ep endpoint_run" where
  "logout_endpoint origin appUrl api req =
     (if rq_method req = ''POST'' then
        (let continueHref = validateContinueHref origin appUrl (js_prop (rq_body req) ''continue'');
             s = rq_login req;
             req' = req\<lparr>rq_forceNewCookieId := True,
               rq_preferences := \<lparr>pref_userId = userId s, pref_clientId = clientId s\<rparr>\<rparr>
         in case deleteToken api (apiToken (outermost s)) of
           Inl err \<Rightarrow> (req', Inl err)
         | Inr _ \<Rightarrow> (req'\<lparr>rq_login := logout_state s\<rparr>,
             Inl (makeRedirect (js_text (js_or continueHref (JStr ''/''))) None)))
      else (req, Inl (makeRedirect ''/'' None)))"

subsection \<open>Logging in: pages/landing/login/endpoint.js\<close>

record login_params =
  lp_continueHref :: jsval
  lp_email :: jsval
  lp_status :: jsval
  lp_error :: bool

definition login_page :: "login_params \<Rightarrow> jsval" where
  "login_page p =
     JObj [(''continueHref'', lp_continueHref p), (''email'', lp_email p),
       (''status'', lp_status p), (''error'', JBool (lp_error p))]"

definition checkForPreferredClient :: "api \<Rightarrow> preferences \<Rightarrow> jsval \<Rightarrow> failure + jsval" where
  "checkForPreferredClient api prefs session =
     (if nullish (js_prop session ''user'') then Inl (Thrown TypeError)
      else if pref_userId prefs = js_prop (js_prop session ''user'') ''id''
      then if nullish (js_prop session ''api_token'') then Inl (Thrown TypeError)
        else api (js_prop (js_prop session ''api_token'') ''token'') (SessionFetch (pref_clientId prefs))
      else Inr session)"

text \<open>A session without a token or a user throws where it is read, after what was set before.\<close>

definition establishSession ::
  "jsval \<Rightarrow> 'ep http_request \<Rightarrow> 'ep http_request \<times> js_error option" where
  "establishSession session req =
     (let client = js_prop session ''client''; s = rq_login req
      in if nullish (js_prop session ''api_token'')
         then (req\<lparr>rq_login := pushParentState s False False\<rparr>, Some TypeError)
         else if nullish (js_prop session ''user'')
         then (req\<lparr>rq_login := setLoginStateFromSession s session False\<rparr>, Some TypeError)
         else (req\<lparr>rq_login := setLoginStateFromSession s session False,
             rq_preferences := \<lparr>pref_userId = js_prop (js_prop session ''user'') ''id'',
               pref_clientId = js_and client (js_prop client ''id'')\<rparr>,
             rq_forceNewCookieId := True\<rparr>, None))"

definition determineRedirect :: "jsval \<Rightarrow> jsval \<Rightarrow> failure" where
  "determineRedirect session continueLocation =
     (if truthy (js_prop session ''needs_password_reset'')
      then makeRedirect (''/change_password?required=1&code='' @ js_text (js_prop session ''code'')
             @ ''&continue='' @ js_text continueLocation) None
      else makeRedirect (js_text continueLocation) None)"

fun is_request_error :: "failure \<Rightarrow> bool" where
  "is_request_error (Http e) = (err_class e = RequestErrorClass)"
| "is_request_error _ = False"

text \<open>The session a login gives, and the error page or the rejection when it gives none.\<close>

definition obtain_session :: "api \<Rightarrow> 'ep http_request \<Rightarrow> jsval \<Rightarrow> jsval \<Rightarrow> failure + jsval" where
  "obtain_session api req email password =
     (case api (rq_token req) (SessionCreate email password) of
        Inl err \<Rightarrow> Inl err
      | Inr session \<Rightarrow> checkForPreferredClient api (rq_preferences req) session)"

text \<open>The login page shown in place of another one may have no body yet.\<close>

definition login_request :: "bool \<Rightarrow> 'ep http_request \<Rightarrow> 'ep http_request" where
  "login_request needs req =
     (if needs \<and> isUndefinedOrNull (rq_body req) then req\<lparr>rq_body := JObj []\<rparr> else req)"

definition login_parse ::
  "(string \<Rightarrow> string) \<Rightarrow> string \<Rightarrow> api \<Rightarrow> jsval \<Rightarrow> bool \<Rightarrow> 'ep http_request \<Rightarrow> 'ep endpoint_run"
where
  "login_parse origin appUrl api status0 showNeedsLogin req =
     (let body = js_prop (rq_body req); query = obj_get (rq_query req);
          continueHref = validateContinueHref origin appUrl (js_or (body ''continue'') (query ''continue''));
          continueLocation = js_or continueHref (JStr ''/home'');
          email = js_or (body ''email'') (query ''email''); password = body ''password'';
          params = \<lparr>lp_continueHref = js_or continueHref
              (if showNeedsLogin then JStr (rq_path req) else JNull),
            lp_email = email, lp_status = js_or status0 (JNum 200), lp_error = False\<rparr>
      in if rq_method req = ''GET'' then
           (req, if truthy (rq_currentUser req)
              then Inl (makeRedirect (js_text continueLocation) None) else Inr (login_page params))
         else if truthy email \<and> truthy password then
           (case obtain_session api req email password of
              Inl err \<Rightarrow>
                (req, if is_request_error err
                   then Inr (login_page (params\<lparr>lp_status := failure_status err, lp_error := True\<rparr>))
                   else Inl err)
            | Inr session \<Rightarrow>
                (case establishSession session req of
                   (req', Some e) \<Rightarrow> (req', Inl (Thrown e))
                 | (req', None) \<Rightarrow> (req', Inl (determineRedirect session continueLocation))))
         else if obj_get (rq_query req) ''revoked'' = JStr ''1''
         then (req, Inr (login_page (params\<lparr>lp_status := JNum 403\<rparr>)))
         else if truthy email \<or> truthy password
         then (req, Inr (login_page (params\<lparr>lp_status := JNum 400, lp_error := True\<rparr>)))
         else (req\<lparr>rq_forceNewCookieId := True\<rparr>,
           Inr (login_page (params\<lparr>lp_status := JNum 200\<rparr>))))"

definition login_endpoint ::
  "(string \<Rightarrow> string) \<Rightarrow> string \<Rightarrow> api \<Rightarrow> jsval \<Rightarrow> bool \<Rightarrow> 'ep http_request \<Rightarrow> 'ep endpoint_run"
where
  "login_endpoint origin appUrl api status0 showNeedsLogin req =
     login_parse origin appUrl api status0 showNeedsLogin (login_request showNeedsLogin req)"

subsection \<open>Pushing and popping a session: pages/session\<close>

text \<open>The token asked for is installed before the API is asked about it.\<close>

definition push_endpoint :: "api \<Rightarrow> 'ep http_request \<Rightarrow> 'ep endpoint_run" where
  "push_endpoint api req =
     (let token = js_or (js_prop (rq_body req) ''api_token'') (apiToken (rq_login req));
          client = js_or (js_prop (rq_body req) ''client_id'') (clientId (rq_login req));
          preserve = truthy (js_prop (rq_body req) ''store_parent_state'');
          req' = req\<lparr>rq_token := token\<rparr>
      in case api token (SessionFetch client) of
        Inl err \<Rightarrow>
          (req', Inl (if status_in [401, 403, 404] err then Http notFound else err))
      | Inr session \<Rightarrow>
          if nullish (js_prop session ''api_token'')
          then (req'\<lparr>rq_login := pushParentState (rq_login req) preserve False\<rparr>, Inl (Thrown TypeError))
          else (req'\<lparr>rq_login := setLoginStateFromSession (rq_login req) session preserve\<rparr>,
             Inr JUndef))"

definition pop_endpoint :: "'ep http_request \<Rightarrow> 'ep endpoint_run" where
  "pop_endpoint req =
     (if has_parent (parentState (rq_login req)) then
        (let continueHref = js_prop (rq_body req) ''continue'';
             wasGuest = token_is_guest (rq_apiTokenDetail req)
         in case popLoginState (rq_login req) of
           Inl e \<Rightarrow> (req, Inl (Thrown e))
         | Inr (s, token) \<Rightarrow>
             (req\<lparr>rq_login := s, rq_token := token\<rparr>,
              Inl (makeRedirect (js_text (js_or continueHref
                (JStr (if wasGuest then ''/tokens/manage'' else ''/user/info'')))) None)))
      else (req, Inl (Http (UnauthorizedError JUndef))))"

subsection \<open>Guest links: pages/guest/endpoint.js\<close>

definition guest_redirect :: "jsval \<Rightarrow> failure" where
  "guest_redirect token =
     (if truthy (js_prop token ''training_run'')
      then makeRedirect (''/run/'' @ js_text (js_prop token ''training_run'')) None
      else if truthy (js_prop token ''experiment'')
      then makeRedirect (''/experiment/'' @ js_text (js_prop token ''experiment'')) None
      else Http (BadParamError (JStr ''Invalid guest token'')))"

fun client_failure :: "failure \<Rightarrow> bool" where
  "client_failure (Http e) = isClientError e"
| "client_failure _ = False"

definition guest_endpoint :: "api \<Rightarrow> 'ep http_request \<Rightarrow> 'ep endpoint_run" where
  "guest_endpoint api req =
     (let tokenValue = obj_get (rq_query req) ''guest_token''; req' = req\<lparr>rq_token := tokenValue\<rparr>
      in if \<not> truthy tokenValue then (req, Inl (Http (BadParamError (JStr ''Missing guest_token''))))
         else case api tokenValue TokenSelf of
           Inl err \<Rightarrow>
             (req', Inl (if client_failure err
                then Http (NotFoundError NotFoundErrorClass (JStr ''This link has expired'') False)
                else err))
         | Inr token \<Rightarrow>
             (if truthy (js_prop token ''training_run'') \<or> truthy (js_prop token ''experiment'')
              then req'\<lparr>rq_login :=
                  setLoginStateFromToken (rq_login req) token (rq_apiTokenDetail req) True\<rparr>
              else req',
              Inl (guest_redirect token)))"

subsection \<open>Base classes: server/endpoint\<close>

text \<open>\<open>LoggedInReactEndpoint\<close>: \<open>parse\<close> is the page's own \<open>parseParams\<close>.\<close>

definition loggedin_getParams ::
  "bool \<Rightarrow> ('ep http_request \<Rightarrow> 'ep endpoint_run) \<Rightarrow> 'ep http_request \<Rightarrow> 'ep endpoint_run" where
  "loggedin_getParams allowGuest parse req =
     (if truthy (userId (rq_login req)) then parse req
      else if allowGuest \<and> nullish (rq_apiTokenDetail req) then (req, Inl (Thrown TypeError))
      else if allowGuest \<and> js_prop (rq_apiTokenDetail req) ''token_type'' = JStr ''guest''
      then parse req
      else (req, Inl (Http PromptForLoginError)))"

definition first_item :: "jsval list \<Rightarrow> jsval" where
  "first_item xs = (case xs of [] \<Rightarrow> JUndef | x # _ \<Rightarrow> x)"

definition getApiTokens :: "api \<Rightarrow> 'ep http_request \<Rightarrow> failure + jsval \<times> jsval" where
  "getApiTokens api req =
     (let s = rq_login req
      in if \<not> truthy (clientId s) then Inr (JNull, JNull)
         else case api (rq_token req) (ClientTokens (clientId s)) of
           Inl err \<Rightarrow> Inl err
         | Inr tokens \<Rightarrow>
             (let eligible = filter (\<lambda>t. js_prop t ''client'' = clientId s \<and>
                    js_prop t ''user'' = userId s) (array_items tokens);
                  (devTokens, apiTokens) = partition (\<lambda>t. truthy (js_prop t ''development'')) eligible
              in Inr (first_item apiTokens, first_item devTokens)))"

text \<open>The endpoint that shows a cookie renders it only when the environment allows.\<close>

definition cookie_render :: "bool \<Rightarrow> jsval \<Rightarrow> string \<Rightarrow> failure + response" where
  "cookie_render allowed cookie path =
     (if allowed then Inr (makeResponse (JNum 200) cookie None)
      else Inl (Http (NotFoundError NotFoundErrorClass (JObj [(''path'', JStr path)]) False)))"

definition react_render :: "jsval \<Rightarrow> jsval \<Rightarrow> failure + response" where
  "react_render status element =
     (let s = coalesce [status, JNum 200]
      in case s of
        JNum n \<Rightarrow> Inr (makeResponse s element None)
      | _ \<Rightarrow> Inl (Thrown (JsError (''Invalid status: '' @ js_text s))))"

subsection \<open>Addresses\<close>

text \<open>What \<open>validateContinueHref\<close> tests: an address that reads without an origin, or with that of the application.\<close>

definition on_site :: "(string \<Rightarrow> string) \<Rightarrow> string \<Rightarrow> string \<Rightarrow> bool" where
  "on_site origin appUrl location = (origin location = [] \<or> origin location = appUrl)"

lemma validateContinueHref_site:
  "truthy (validateContinueHref origin appUrl href) \<Longrightarrow>
   on_site origin appUrl (js_text (validateContinueHref origin appUrl href))"
  by (auto simp: validateContinueHref_def on_site_def split: if_splits)

lemma continue_location_site:
  assumes "origin d = []"
  shows "on_site origin appUrl (js_text (js_or (validateContinueHref origin appUrl href) (JStr d)))"
proof (cases "truthy (validateContinueHref origin appUrl href)")
  case True
  then show ?thesis using validateContinueHref_site by simp
next
  case False
  then show ?thesis using assms by (simp add: on_site_def)
qed

lemma makeRedirect_None [simp]: "makeRedirect l None = Redirected l 302"
  by (simp add: makeRedirect_def)

lemma obtain_session_body [simp]:
  "obtain_session api (req\<lparr>rq_body := v\<rparr>) email password = obtain_session api req email password"
  by (simp add: obtain_session_def split: sum.splits)

subsection \<open>Logging in, in two steps\<close>

lemma login_request_fields [simp]:
  "rq_login (login_request needs req) = rq_login req"
  "rq_method (login_request needs req) = rq_method req"
  "rq_forceNewCookieId (login_request needs req) = rq_forceNewCookieId req"
  "obtain_session api (login_request needs req) email password = obtain_session api req email password"
  by (simp_all add: login_request_def split: if_splits)

lemma establishSession_fields:
  "csrfToken (rq_login (fst (establishSession session req))) = csrfToken (rq_login req)"
  "snd (establishSession session req) = None \<Longrightarrow>
     rq_forceNewCookieId (fst (establishSession session req)) \<and>
     rq_login (fst (establishSession session req)) =
       setLoginStateFromSession (rq_login req) session False"
  by (simp_all add: establishSession_def Let_def split: if_splits)

lemma login_parse_state:
  assumes "login_parse origin appUrl api status0 needs req = (req', result)"
    and "rq_login req' \<noteq> rq_login req"
  obtains email password session where "rq_method req \<noteq> ''GET''" and "truthy email" and "truthy password"
    and "obtain_session api req email password = Inr session"
    and "req' = fst (establishSession session req)"
    and "\<exists>location. result = (case snd (establishSession session req) of
       Some x \<Rightarrow> Inl (Thrown x) | None \<Rightarrow> Inl (determineRedirect session location))"
proof -
  define email where "email = js_or (js_prop (rq_body req) ''email'') (obj_get (rq_query req) ''email'')"
  define password where "password = js_prop (rq_body req) ''password''"
  have post: "rq_method req \<noteq> ''GET''" "truthy email" "truthy password"
    "\<not> isl (obtain_session api req email password)"
    using assms unfolding login_parse_def Let_def email_def [symmetric] password_def [symmetric]
    by (auto split: if_splits sum.splits)
  then obtain session where session: "obtain_session api req email password = Inr session"
    by (cases "obtain_session api req email password") auto
  show ?thesis
    using assms post session that
    unfolding login_parse_def Let_def email_def [symmetric] password_def [symmetric]
    by (cases "establishSession session req") (fastforce split: option.splits)
qed

lemma login_redirects:
  assumes "login_parse origin appUrl api status0 needs req = (req', Inl (Redirected location code))"
    and "\<And>token call l c. api token call \<noteq> Inl (Redirected l c)"
  obtains href where "location = js_text (js_or (validateContinueHref origin appUrl href) (JStr ''/home''))"
  | session href where "truthy (js_prop session ''needs_password_reset'')" and
      "location = ''/change_password?required=1&code='' @ js_text (js_prop session ''code'') @
         ''&continue='' @ js_text (js_or (validateContinueHref origin appUrl href) (JStr ''/home''))"
proof -
  have "obtain_session api req email password \<noteq> Inl (Redirected location code)" for email password
    using assms(2) by (auto simp: obtain_session_def checkForPreferredClient_def split: sum.splits if_splits)
  then show ?thesis
    using assms(1) that
    unfolding login_parse_def Let_def
    by (auto simp: determineRedirect_def split: if_splits sum.splits prod.splits option.splits)
qed


subsection \<open>Properties\<close>

text \<open>C9: A login changes the login state only with a session the API gave for the credentials.
  It then keeps the csrf token, and unless reading the session throws it holds the session's token,
  the cookie is replaced by a new one and the user is redirected.\<close>

theorem login_needs_session:
  assumes "login_endpoint origin appUrl api status0 needs req = (req', result)"
    and "rq_login req' \<noteq> rq_login req"
  shows "rq_method req \<noteq> ''GET'' \<and> csrfToken (rq_login req') = csrfToken (rq_login req) \<and>
    (\<exists>email password session. truthy email \<and> truthy password \<and>
       obtain_session api req email password = Inr session \<and>
       ((\<exists>e. result = Inl (Thrown e)) \<or>
        rq_forceNewCookieId req' \<and>
        apiToken (rq_login req') = js_prop (js_prop session ''api_token'') ''token'' \<and>
        (\<exists>location. result = Inl (Redirected location 302))))"
proof -
  have run: "login_parse origin appUrl api status0 needs (login_request needs req) = (req', result)"
    "rq_login req' \<noteq> rq_login (login_request needs req)"
    using assms by (simp_all add: login_endpoint_def)
  obtain email password session location where *: "rq_method req \<noteq> ''GET''" "truthy email" "truthy password"
    "obtain_session api req email password = Inr session"
    "req' = fst (establishSession session (login_request needs req))"
    "result = (case snd (establishSession session (login_request needs req)) of
       Some x \<Rightarrow> Inl (Thrown x) | None \<Rightarrow> Inl (determineRedirect session location))"
    by (rule login_parse_state [OF run]) auto
  have csrf: "csrfToken (rq_login req') = csrfToken (rq_login req)"
    unfolding *(5) establishSession_fields(1) by simp
  show ?thesis
  proof (cases "snd (establishSession session (login_request needs req))")
    case None
    then have "rq_forceNewCookieId req' \<and>
        apiToken (rq_login req') = js_prop (js_prop session ''api_token'') ''token''"
      using establishSession_fields(2) [OF None] unfolding *(5) by simp
    moreover have "\<exists>l. result = Inl (Redirected l 302)"
      using *(6) None by (simp add: determineRedirect_def)
    ultimately show ?thesis using * csrf by blast
  next
    case (Some e)
    then show ?thesis using * csrf by auto
  qed
qed

text \<open>The address a login redirects to has passed \<open>validateContinueHref\<close>, or is that of the forced change of a
  password, which carries such an address: its origin, as the package behind \<open>net/url.js\<close> reads it, is empty or
  that of the application. Where a browser goes with an address that is read without an origin is not said.\<close>

theorem login_redirects_validated:
  assumes "login_endpoint origin appUrl api status0 needs req = (req', Inl (Redirected location code))"
    and "\<And>token call l c. api token call \<noteq> Inl (Redirected l c)" and "origin ''/home'' = []"
  shows "on_site origin appUrl location \<or>
    (\<exists>code' target. location = ''/change_password?required=1&code='' @ code' @ ''&continue='' @ target \<and>
       on_site origin appUrl target)"
  using assms(1) [unfolded login_endpoint_def] assms(2)
proof (cases rule: login_redirects)
  case (1 href)
  then show ?thesis using continue_location_site [of origin "''/home''", OF assms(3)] by simp
next
  case (2 session href)
  then show ?thesis using continue_location_site [of origin "''/home''", OF assms(3)] by blast
qed

text \<open>A logout that succeeds leaves nothing of the session or its parents but the csrf token,
  replaces the cookie, asks the API to drop the token of the outermost session when it is leased,
  and redirects on the site.\<close>

theorem logout_clears_session:
  assumes "logout_endpoint origin appUrl api req = (req', Inl (Redirected location code))"
    and "\<And>token call l c. api token call \<noteq> Inl (Redirected l c)"
    and "rq_method req = ''POST''" and "origin ''/'' = []"
  shows "rq_login req' = LoginState JUndef JUndef (csrfToken (rq_login req)) JUndef JUndef
      (NoParent JUndef) JUndef \<and>
    rq_forceNewCookieId req' \<and> on_site origin appUrl location \<and>
    (\<exists>token. api (apiToken (outermost (rq_login req))) TokenSelf = Inr token \<and>
      (truthy (js_prop token ''lease_length'') \<longrightarrow>
        (case api (apiToken (outermost (rq_login req))) DeleteTokenSelf of
           Inr _ \<Rightarrow> True | Inl e \<Rightarrow> status_in [403, 404] e)))"
proof -
  have deleted: "\<not> isl (deleteToken api (apiToken (outermost (rq_login req))))"
    and req': "rq_login req' = logout_state (rq_login req)" "rq_forceNewCookieId req'"
    and location: "\<exists>href. location = js_text (js_or (validateContinueHref origin appUrl href) (JStr ''/''))"
    using assms(1-3)
    by (auto simp: logout_endpoint_def deleteToken_def Let_def isl_def split: sum.splits if_splits)
  have "rq_login req' = LoginState JUndef JUndef (csrfToken (rq_login req)) JUndef JUndef
      (NoParent JUndef) JUndef"
    unfolding req' by (auto simp: logout_state_def setFrom_def js_or_def)
  moreover have "on_site origin appUrl location"
    using location continue_location_site [of origin "''/''", OF assms(4)] by auto
  ultimately show ?thesis using req'(2) deleted
    by (auto simp: deleteToken_def isl_def split: sum.splits if_splits)
qed

text \<open>Pushing a session over a logged in one and popping it again leaves the login state and the
  token of the API requestor as they were.\<close>

theorem push_then_pop_endpoints:
  assumes "push_endpoint api req = (req1, Inr v)" and "wf_login (rq_login req)"
    and "truthy (apiToken (rq_login req))"
    and "truthy (js_prop (rq_body req) ''store_parent_state'')"
    and "rq_login req2 = rq_login req1"
  shows "rq_login (fst (pop_endpoint req2)) = rq_login req \<and>
    rq_token (fst (pop_endpoint req2)) = apiToken (rq_login req)"
proof -
  obtain session where "rq_login req1 = setLoginStateFromSession (rq_login req) session True"
    using assms(1,4) by (auto simp: push_endpoint_def Let_def split: sum.splits if_splits)
  then have login: "rq_login req2 = setLoginStateFromSession (rq_login req) session True"
    using assms(5) by simp
  have "popLoginState (rq_login req2) = Inr (rq_login req, apiToken (rq_login req))"
    unfolding login using assms(2,3)
    by (simp add: popLoginState_def pushParentState_parent newLoginState_wf_id setFrom_same_csrf Let_def)
  moreover have "has_parent (parentState (rq_login req2))"
    unfolding login using assms(3) by (simp add: pushParentState_parent)
  ultimately show ?thesis by (simp add: pop_endpoint_def Let_def)
qed

text \<open>Popping a session redirects to whatever address the form asked for, on the site or not.\<close>

theorem pop_redirects_anywhere:
  assumes "parentState (rq_login req) = Parent p" and "address \<noteq> []"
    and "js_prop (rq_body req) ''continue'' = JStr address"
  shows "snd (pop_endpoint req) = Inl (Redirected address 302)"
  using assms by (simp add: pop_endpoint_def pop_Parent Let_def)

text \<open>A guest link changes the login state only when its token is for a run or an experiment, and
  then redirects there; a refused token never shows the error of the API.\<close>

theorem guest_link_outcome:
  assumes "guest_endpoint api req = (req', result)"
  shows "(rq_login req' \<noteq> rq_login req \<longrightarrow>
      (\<exists>token. api (obj_get (rq_query req) ''guest_token'') TokenSelf = Inr token \<and>
         apiToken (rq_login req') = js_prop token ''token'' \<and>
         (\<exists>x. truthy x \<and> (result = Inl (Redirected (''/run/'' @ js_text x) 302) \<or>
            result = Inl (Redirected (''/experiment/'' @ js_text x) 302))))) \<and>
    (\<forall>err. api (obj_get (rq_query req) ''guest_token'') TokenSelf = Inl err \<longrightarrow>
       client_failure err \<longrightarrow> truthy (obj_get (rq_query req) ''guest_token'') \<longrightarrow>
       result = Inl (Http (NotFoundError NotFoundErrorClass (JStr ''This link has expired'') False)))"
  using assms
  by (auto simp: guest_endpoint_def guest_redirect_def Let_def split: sum.splits if_splits)

subsection \<open>Examples\<close>

definition example_origin :: "string \<Rightarrow> string" where
  "example_origin location = (if startsWith location ''http'' then location else [])"

definition example_session :: jsval where
  "example_session = JObj [(''api_token'', JObj [(''token'', JStr ''s'')]), (''user'', JObj [(''id'', JStr ''9'')])]"

definition login_api :: api where
  "login_api token call =
     (case call of
        SessionCreate email password \<Rightarrow>
          if password = JStr ''pw'' then Inr example_session
          else Inl (Http (HttpError RequestErrorClass [(''status'', JNum 400)]))
      | SessionFetch client \<Rightarrow> Inr example_session
      | TokenSelf \<Rightarrow> Inr (JObj [(''lease_length'', JNum 60), (''experiment'', JStr ''7''), (''token'', token)])
      | _ \<Rightarrow> Inr JNull)"

lemma login_api_no_redirect: "login_api token call \<noteq> Inl (Redirected l c)"
  by (auto simp: login_api_def split: api_call.splits)

definition login_post :: "nat http_request" where
  "login_post = (new_request ''POST'' ''/login''
     (LoginState JUndef JUndef (JStr ''c'') JUndef JUndef (NoParent JUndef) JUndef))
     \<lparr>rq_body := JObj [(''email'', JStr ''a@b''), (''password'', JStr ''pw''), (''continue'', JStr ''/runs'')]\<rparr>"

definition login_run :: "nat endpoint_run" where
  "login_run = login_endpoint example_origin ''http://site'' login_api JUndef False login_post"

lemma login_needs_session_witness:
  "csrfToken (rq_login (fst login_run)) = JStr ''c'' \<and> rq_login (fst login_run) \<noteq> rq_login login_post"
proof -
  have run: "login_endpoint example_origin ''http://site'' login_api JUndef False login_post =
      (fst login_run, snd login_run)"
    by (simp add: login_run_def)
  moreover have changed: "rq_login (fst login_run) \<noteq> rq_login login_post" by code_simp
  moreover have "csrfToken (rq_login login_post) = JStr ''c''" by code_simp
  ultimately show ?thesis using login_needs_session [OF run changed] by simp
qed

lemma login_redirects_validated_witness:
  "on_site example_origin ''http://site'' ''/runs'' \<or>
   (\<exists>code' target. ''/runs'' = ''/change_password?required=1&code='' @ code' @ ''&continue='' @ target \<and>
      on_site example_origin ''http://site'' target)"
proof (rule login_redirects_validated)
  have "snd login_run = Inl (Redirected ''/runs'' 302)" by code_simp
  then show "login_endpoint example_origin ''http://site'' login_api JUndef False login_post =
      (fst login_run, Inl (Redirected ''/runs'' 302))"
    by (metis login_run_def prod.collapse)
  show "example_origin ''/home'' = []" by code_simp
qed (rule login_api_no_redirect)

definition logged_in :: login_state where
  "logged_in = LoginState (JStr ''t'') (JStr ''1'') (JStr ''c'') JUndef (JStr ''5'') (NoParent JNull) (JStr ''u'')"

definition logout_post :: "nat http_request" where
  "logout_post = (new_request ''POST'' ''/logout'' logged_in)\<lparr>rq_body := JObj []\<rparr>"

definition logout_run :: "nat endpoint_run" where
  "logout_run = logout_endpoint example_origin ''http://site'' login_api logout_post"

lemma logout_clears_session_witness:
  "rq_login (fst logout_run) = LoginState JUndef JUndef (JStr ''c'') JUndef JUndef (NoParent JUndef) JUndef"
proof -
  have "snd logout_run = Inl (Redirected ''/'' 302)" by code_simp
  then have run: "logout_endpoint example_origin ''http://site'' login_api logout_post =
      (fst logout_run, Inl (Redirected ''/'' 302))"
    by (metis logout_run_def prod.collapse)
  have "rq_method logout_post = ''POST''" "example_origin ''/'' = []"
    "csrfToken (rq_login logout_post) = JStr ''c''"
    by (code_simp)+
  with logout_clears_session [OF run login_api_no_redirect] show ?thesis by simp
qed

definition push_post :: "nat http_request" where
  "push_post = (new_request ''POST'' ''/push_session'' logged_in)
     \<lparr>rq_body := JObj [(''api_token'', JStr ''x''), (''store_parent_state'', JStr ''true'')]\<rparr>"

lemma push_then_pop_endpoints_witness:
  "rq_login (fst (pop_endpoint (fst (push_endpoint login_api push_post)))) = logged_in"
proof -
  have "snd (push_endpoint login_api push_post) = Inr JUndef" by code_simp
  then have run: "push_endpoint login_api push_post =
      (fst (push_endpoint login_api push_post), Inr JUndef)"
    by (metis prod.collapse)
  have "rq_login push_post = logged_in" "wf_login logged_in" "truthy (apiToken logged_in)"
    "truthy (js_prop (rq_body push_post) ''store_parent_state'')"
    by (code_simp)+
  with push_then_pop_endpoints [OF run, of "fst (push_endpoint login_api push_post)"] show ?thesis by simp
qed

lemma pop_redirects_anywhere_witness:
  "snd (pop_endpoint ((new_request ''POST'' ''/pop_session''
      (LoginState (JStr ''g'') JUndef (JStr ''c'') JUndef JUndef (Parent logged_in) JUndef) :: nat http_request)
      \<lparr>rq_body := JObj [(''continue'', JStr ''http://evil'')]\<rparr>)) = Inl (Redirected ''http://evil'' 302)"
  by (rule pop_redirects_anywhere) (simp_all add: new_request_def)

definition guest_get :: "nat http_request" where
  "guest_get = (new_request ''GET'' ''/guest'' logged_in)\<lparr>rq_query := [(''guest_token'', JStr ''g'')]\<rparr>"

lemma guest_link_outcome_witness:
  "apiToken (rq_login (fst (guest_endpoint login_api guest_get))) = JStr ''g''"
proof -
  have run: "guest_endpoint login_api guest_get =
      (fst (guest_endpoint login_api guest_get), snd (guest_endpoint login_api guest_get))"
    by simp
  have "rq_login (fst (guest_endpoint login_api guest_get)) \<noteq> rq_login guest_get" by code_simp
  moreover have "obj_get (rq_query guest_get) ''guest_token'' = JStr ''g''" by code_simp
  ultimately show ?thesis using guest_link_outcome [OF run] by (auto simp: login_api_def)
qed

end
