(* ===== verification/Pipeline.thy ===== *)
theory Pipeline
  imports Cookies Endpoints
begin

section \<open>The application: web/js/server/express/app.js\<close>

text \<open>
  The stack of handlers a request goes through. Express is a parameter: a dispatcher with its
  documented laws, which runs the plain handlers while there is no error and the error handlers
  when there is one. Endpoints, the matching of paths, the routes and the rendering of pages are
  parameters too, collected in \<open>app_env\<close>.

  Node refuses to change a response that has been sent: writing a header or sending again throws. The list
  \<open>rs_sent\<close> holds what handlers handed to a call that sends, the refused calls included. Names of headers
  are kept in lower case, since they are not case sensitive.
\<close>

subsection \<open>Responses and layers\<close>

datatype sent_body =
    PageBody jsval
  | ErrorPage
  | LoginPage
  | StackTrace
  | RedirectBody string int

record http_response =
  rs_headers :: "(string \<times> string) list"
  rs_status :: jsval
  rs_sent :: "sent_body list"

record ('ep, 'st) app_state =
  st_req :: "'ep http_request"
  st_res :: http_response
  st_store :: 'st

type_synonym 's handler = "'s \<Rightarrow> 's \<times> next_call"

datatype 's layer =
    Plain "'s handler"
  | OnError "failure \<Rightarrow> 's handler"

definition go_on ::
  "('s layer list \<Rightarrow> failure option \<Rightarrow> 's \<Rightarrow> 's \<times> bool) \<Rightarrow> 's layer list \<Rightarrow> 's \<times> next_call \<Rightarrow> 's \<times> bool"
where
  "go_on run ls r =
     (case r of (s, Next) \<Rightarrow> run ls None s | (s, NextError e) \<Rightarrow> run ls (Some e) s
      | (s, NoNext) \<Rightarrow> (s, False))"

text \<open>The laws of the dispatcher; the flag it ends with says whether the stack was run to its end.\<close>

definition express_laws ::
  "('s layer list \<Rightarrow> failure option \<Rightarrow> 's \<Rightarrow> 's \<times> bool) \<Rightarrow> bool" where
  "express_laws run =
     ((\<forall>err s. run [] err s = (s, True)) \<and>
      (\<forall>h ls s. run (Plain h # ls) None s = go_on run ls (h s)) \<and>
      (\<forall>h ls e s. run (Plain h # ls) (Some e) s = run ls (Some e) s) \<and>
      (\<forall>h ls s. run (OnError h # ls) None s = run ls None s) \<and>
      (\<forall>h ls e s. run (OnError h # ls) (Some e) s = go_on run ls (h e s)))"

subsection \<open>Handlers that always run: always.js\<close>

definition our_next :: "failure \<Rightarrow> next_call \<Rightarrow> next_call" where
  "our_next err n = (case n of Next \<Rightarrow> NextError err | NextError e \<Rightarrow> NextError e | NoNext \<Rightarrow> NoNext)"

definition always :: "'s handler \<Rightarrow> 's layer list" where
  "always h = [OnError (\<lambda>err s. case h s of (s', n) \<Rightarrow> (s', our_next err n)), Plain h]"

subsection \<open>The environment\<close>

record ('ep, 'st) app_env =
  env_toobusy :: bool
  env_routes :: "string \<Rightarrow> 'ep option"
  env_match :: "string \<Rightarrow> string \<Rightarrow> jsobj option"
  env_validates :: "'ep \<Rightarrow> bool"
  env_params :: "'ep \<Rightarrow> 'ep http_request \<Rightarrow> 'ep endpoint_run"
  env_render :: "'ep \<Rightarrow> jsval \<Rightarrow> failure + response"
  env_serialize :: "'ep \<Rightarrow> 'ep http_request \<Rightarrow> failure + jsval"
  env_content_type :: "response \<Rightarrow> string option"
  env_parse_body :: "'ep http_request \<Rightarrow> failure + jsval"
  env_error_body :: "jsval \<Rightarrow> 'ep http_request \<Rightarrow> failure + jsval"
  env_docs :: "string \<Rightarrow> bool"
  env_api :: api
  env_origin :: "string \<Rightarrow> string"
  env_app_url :: string
  env_show_trace :: bool
  env_production :: bool
  env_assets_url :: string
  env_head_hash :: string

definition on_request ::
  "('ep http_request \<Rightarrow> 'ep http_request \<times> next_call) \<Rightarrow> ('ep, 'st) app_state handler" where
  "on_request h s = (case h (st_req s) of (req, n) \<Rightarrow> (s\<lparr>st_req := req\<rparr>, n))"

text \<open>
  \<open>env_error_body\<close> is the markup React makes of the page shown for an error; \<open>env_docs\<close> the paths Express
  matches with \<open>/docs/*\<close>; \<open>env_origin\<close> the origin of an address, as the package behind \<open>net/url.js\<close> reads it.
\<close>

subsection \<open>Single handlers\<close>

definition toUpperCase :: "string \<Rightarrow> string" where
  "toUpperCase = map (\<lambda>c. let n = (of_char c :: nat) in
     if 97 \<le> n \<and> n \<le> 122 then char_of (n - 32) else c)"

definition normalizeMethod :: "'ep http_request \<Rightarrow> 'ep http_request \<times> next_call" where
  "normalizeMethod req = (req\<lparr>rq_method := toUpperCase (rq_method req)\<rparr>, Next)"

definition tooBusy :: "bool \<Rightarrow> 'ep http_request \<Rightarrow> 'ep http_request \<times> next_call" where
  "tooBusy busy req = (req, if busy then NextError (Http TooBusyError) else Next)"

text \<open>Express also runs the handlers of \<open>app.get\<close> for \<open>HEAD\<close>.\<close>

definition set_endpoint ::
  "(string \<Rightarrow> 'ep option) \<Rightarrow> 'ep http_request \<Rightarrow> 'ep http_request \<times> next_call" where
  "set_endpoint routes req =
     (if rq_method req \<in> {''GET'', ''HEAD'', ''POST''} then
        (case routes (rq_path req) of
           Some e \<Rightarrow> (req\<lparr>rq_endpoint := Some e\<rparr>, Next) | None \<Rightarrow> (req, Next))
      else (req, Next))"

text \<open>\<open>app.use(pattern, handler)\<close>: the handler runs on matching paths, with their parameters.\<close>

definition use_path ::
  "(string \<Rightarrow> string \<Rightarrow> jsobj option) \<Rightarrow> string \<Rightarrow> ('ep http_request \<Rightarrow> 'ep http_request \<times> next_call) \<Rightarrow>
   'ep http_request \<Rightarrow> 'ep http_request \<times> next_call" where
  "use_path matches pattern h req =
     (case matches pattern (rq_path req) of
        None \<Rightarrow> (req, Next) | Some ps \<Rightarrow> h (req\<lparr>rq_params := ps\<rparr>))"

definition requireEndpoint :: "'ep http_request \<Rightarrow> 'ep http_request \<times> next_call" where
  "requireEndpoint req =
     (req, case rq_endpoint req of
        Some _ \<Rightarrow> Next
      | None \<Rightarrow> NextError (Http (NotFoundError NotFoundErrorClass (JObj [(''path'', JStr (rq_path req))]) False)))"

definition addBodyParser ::
  "('ep http_request \<Rightarrow> failure + jsval) \<Rightarrow> 'ep http_request \<Rightarrow> 'ep http_request \<times> next_call" where
  "addBodyParser parse req =
     (if rq_method req = ''GET'' then (req\<lparr>rq_body := JObj []\<rparr>, Next)
      else case parse req of Inl e \<Rightarrow> (req, NextError e) | Inr b \<Rightarrow> (req\<lparr>rq_body := b\<rparr>, Next))"

definition blank_login :: login_state where
  "blank_login = fromJson (JObj [])"

definition csrf_handler :: "('ep \<Rightarrow> bool) \<Rightarrow> 'ep http_request \<Rightarrow> 'ep http_request \<times> next_call" where
  "csrf_handler validates req =
     (if rq_method req \<noteq> ''POST'' then (req, Next)
      else if (case rq_endpoint req of None \<Rightarrow> True | Some e \<Rightarrow> validates e) then
        (case validateCsrf (rq_login req) (js_prop (rq_body req) ''csrf_token'') of
           None \<Rightarrow> (req, Next)
         | Some err \<Rightarrow> (req\<lparr>rq_login := blank_login\<rparr>, NextError (Http err)))
      else (req, Next))"

definition generateResponse ::
  "('ep, 'st) app_env \<Rightarrow> 'ep http_request \<Rightarrow> 'ep http_request \<times> next_call" where
  "generateResponse env req =
     (case rq_endpoint req of
        None \<Rightarrow> (req, NextError (Thrown TypeError))
      | Some e \<Rightarrow>
          (case env_params env e req of
             (req', Inl err) \<Rightarrow> (req', NextError err)
           | (req', Inr params) \<Rightarrow>
               (let req2 = req'\<lparr>rq_endpointParams := params\<rparr>
                in case env_render env e params of
                  Inl err \<Rightarrow> (req2, NextError err)
                | Inr resp \<Rightarrow> (req2\<lparr>rq_endpointResponse := Some resp\<rparr>, Next))))"

definition set_header :: "string \<Rightarrow> string \<Rightarrow> http_response \<Rightarrow> http_response" where
  "set_header k v res = res\<lparr>rs_headers := AList.update (toLowerCase k) v (rs_headers res)\<rparr>"

definition header_of :: "http_response \<Rightarrow> string \<Rightarrow> string option" where
  "header_of res k = map_of (rs_headers res) (toLowerCase k)"

definition already_sent :: "('ep, 'st) app_state \<Rightarrow> bool" where
  "already_sent s = (rs_sent (st_res s) \<noteq> [])"

definition headers_sent_error :: failure where
  "headers_sent_error = Thrown (JsError ''Cannot set headers after they are sent to the client'')"

definition quoted :: "string \<Rightarrow> string" where
  "quoted w = CHR 0x27 # w @ [CHR 0x27]"

text \<open>A directive of the content security policy with its sources.\<close>

definition directive :: "string \<Rightarrow> string list \<Rightarrow> string" where
  "directive name sources = js_join '' '' (name # sources)"

definition csp :: "('ep, 'st) app_env \<Rightarrow> string list" where
  "csp env =
     [directive ''default-src'' [quoted ''self''],
      directive ''font-src'' [quoted ''self'', ''data:''],
      directive ''form-action'' [quoted ''self''],
      directive ''frame-ancestors'' [quoted ''none''],
      directive ''frame-src'' [quoted ''none''],
      directive ''img-src'' [quoted ''self'', ''data:'', ''blob:''],
      directive ''object-src'' [quoted ''none''],
      directive ''style-src'' [quoted ''self'', quoted ''unsafe-inline''],
      directive ''upgrade-insecure-requests'' [],
      directive ''media-src'' [env_assets_url env]]
     @ (if env_production env
        then [directive ''script-src'' [quoted ''self'', quoted (''sha512-'' @ env_head_hash env)]]
        else [directive ''connect-src'' [quoted ''self''],
          directive ''script-src'' [quoted ''self'', quoted ''unsafe-eval'', quoted ''unsafe-inline'']])"

definition standard_headers :: "('ep, 'st) app_env \<Rightarrow> response option \<Rightarrow> (string \<times> string) list" where
  "standard_headers env resp =
     [(''Cache-Control'', ''private, no-cache, no-store, must-revalidate''),
      (''Content-Type'', case Option.bind resp (env_content_type env) of
         None \<Rightarrow> ''text/html; charset=utf-8'' | Some t \<Rightarrow> t),
      (''Expires'', ''Sat, 01 Jan 2000 00:00:00 GMT''),
      (''X-Content-Type-Options'', ''nosniff''),
      (''X-Frame-Options'', ''DENY''),
      (''X-XSS-Protection'', ''1; mode=block''),
      (''X-Powered-By'', ''multi-armed bandits''),
      (''Content-Security-Policy'', js_join ''; '' (csp env))]"

definition setStandardHeaders :: "('ep, 'st) app_env \<Rightarrow> ('ep, 'st) app_state handler" where
  "setStandardHeaders env s =
     (if already_sent s then (s, NextError headers_sent_error)
      else (s\<lparr>st_res := fold (\<lambda>(k, v). set_header k v)
        (standard_headers env (rq_endpointResponse (st_req s))) (st_res s)\<rparr>, Next))"

definition send :: "jsval \<Rightarrow> sent_body \<Rightarrow> http_response \<Rightarrow> http_response" where
  "send status body res = res\<lparr>rs_status := status, rs_sent := rs_sent res @ [body]\<rparr>"

text \<open>A call that sends: on a response already sent it throws.\<close>

definition send_now :: "jsval \<Rightarrow> sent_body \<Rightarrow> next_call \<Rightarrow> ('ep, 'st) app_state handler" where
  "send_now status body n s =
     (s\<lparr>st_res := send status body (st_res s)\<rparr>, if already_sent s then NextError headers_sent_error else n)"

text \<open>What is left of the documentation is sent away, and the request goes on all the same.\<close>

definition DOCS_URL :: string where
  "DOCS_URL = ''https://docs.sigopt.com''"

definition docs_handler :: "('ep, 'st) app_env \<Rightarrow> ('ep, 'st) app_state handler" where
  "docs_handler env s =
     (let req = st_req s
      in if rq_method req \<in> {''GET'', ''HEAD''} \<and> env_docs env (rq_path req) \<and> rq_endpoint req = None
         then send_now (JNum 302) (RedirectBody DOCS_URL 302) Next s
         else (s, Next))"

definition response_header_list :: "response \<Rightarrow> (string \<times> string) list" where
  "response_header_list resp =
     (case response_headers resp of JObj ps \<Rightarrow> map (\<lambda>(k, v). (k, js_text v)) ps | _ \<Rightarrow> [])"

definition sendResponse :: "('ep, 'st) app_env \<Rightarrow> ('ep, 'st) app_state handler" where
  "sendResponse env s =
     (case (rq_endpoint (st_req s), rq_endpointResponse (st_req s)) of
        (Some e, Some resp) \<Rightarrow>
          if already_sent s \<and> response_header_list resp \<noteq> [] then (s, NextError headers_sent_error)
          else let s' = s\<lparr>st_res := fold (\<lambda>(k, v). set_header k v) (response_header_list resp) (st_res s)\<rparr>
           in (case env_serialize env e (st_req s) of
             Inl err \<Rightarrow> (s'\<lparr>st_res := (st_res s')\<lparr>rs_status := resp_status resp\<rparr>\<rparr>, NextError err)
           | Inr body \<Rightarrow> send_now (resp_status resp) (PageBody body) Next s')
      | _ \<Rightarrow> (s, NextError (Thrown TypeError)))"

fun token_status :: "failure \<Rightarrow> jsval" where
  "token_status (Http e) = err_tokenStatus e"
| "token_status _ = JUndef"

definition handleRedirects :: "failure \<Rightarrow> ('ep, 'st) app_state handler" where
  "handleRedirects err s =
     (case err of
        Redirected location status \<Rightarrow>
          send_now (JNum (of_int status)) (RedirectBody location status) NoNext s
      | _ \<Rightarrow>
          if token_status err = JStr ''needs_email_verification''
          then send_now (JNum 302) (RedirectBody ''/user/info?needs_verify=1'' 302) NoNext s
          else (s, NextError err))"

fun needs_login :: "failure \<Rightarrow> bool" where
  "needs_login (Http e) = err_showNeedsLogin e"
| "needs_login _ = False"

fun error_message :: "failure \<Rightarrow> jsval" where
  "error_message (Http e) = JStr (err_message e)"
| "error_message _ = JNull"

fun is_sickness :: "failure \<Rightarrow> bool" where
  "is_sickness (Http e) = (err_class e = SicknessErrorClass)"
| "is_sickness _ = False"

definition error_page_params :: "jsval \<Rightarrow> failure \<Rightarrow> 'ep http_request \<Rightarrow> jsval" where
  "error_page_params status err req =
     JObj [(''errorMsg'', error_message err), (''loggedIn'', JBool (truthy (rq_currentUser req))),
       (''loginState'', toJson (rq_login req)), (''path'', JStr (rq_path req)),
       (''showTestError'', JBool (is_sickness err)), (''status'', status)]"

text \<open>
  The page shown for an error: the form to log in when the error asks for it, otherwise the page of the error.
  Logging in there can itself end in a redirect or an error, which is the failure of the page.
\<close>

definition errorPageResponse ::
  "('ep, 'st) app_env \<Rightarrow> 'ep http_request \<Rightarrow> failure \<Rightarrow> 'ep http_request \<times> (failure + jsval)" where
  "errorPageResponse env req err =
     (let status = js_or (failure_status err) (JNum 500);
          (req', answer) =
            (if needs_login err
             then login_endpoint (env_origin env) (env_app_url env) (env_api env) status True req
             else (req, promise_then (Inr (error_page_params status err req))
               (\<lambda>params. case react_render (js_prop params ''status'') params of
                  Inl e \<Rightarrow> Inl e | Inr resp \<Rightarrow> Inr params)))
      in (req', promise_then answer (\<lambda>params. env_error_body env params req')))"

definition show_trace :: "('ep, 'st) app_env \<Rightarrow> string \<Rightarrow> failure \<Rightarrow> bool" where
  "show_trace env path err =
     (\<not> needs_login err \<and> env_show_trace env \<and> path \<noteq> ''/nsickness'' \<and> \<not> env_production env)"

text \<open>\<open>errorHandler\<close>: the page shown for an error, then the next handler in any case. When the
  page itself fails nothing is sent; whatever sending throws is only logged.\<close>

definition handleErrors :: "('ep, 'st) app_env \<Rightarrow> failure \<Rightarrow> ('ep, 'st) app_state handler" where
  "handleErrors env err s =
     (let status = js_or (failure_status err) (JNum 500)
      in if show_trace env (rq_path (st_req s)) err then (fst (send_now status StackTrace Next s), Next)
         else case errorPageResponse env (st_req s) err of
           (req, Inl e) \<Rightarrow> (s\<lparr>st_req := req\<rparr>, Next)
         | (req, Inr page) \<Rightarrow>
             (fst (send_now status (if needs_login err then LoginPage else ErrorPage) Next (s\<lparr>st_req := req\<rparr>)), Next))"

subsection \<open>The stack\<close>

definition cookie_layer ::
  "(string \<Rightarrow> bool) \<Rightarrow> ('st, 't) s3_client \<Rightarrow> 't json_text \<Rightarrow> (string \<Rightarrow> jsval option) \<Rightarrow> string \<Rightarrow>
   ('ep, 'st) app_state handler" where
  "cookie_layer safe s3 json config random s =
     (case cookieWriter safe s3 json config random (st_store s) (st_req s) of
        (store, None, n) \<Rightarrow> (s\<lparr>st_store := store\<rparr>, n)
      | (store, Some c, n) \<Rightarrow>
          if already_sent s then (s\<lparr>st_store := store\<rparr>, NextError headers_sent_error)
          else (s\<lparr>st_store := store,
             st_res := set_header ''Set-Cookie'' (sent_name c @ ''='' @ sent_value c) (st_res s)\<rparr>, n))"

definition send_layers ::
  "('ep, 'st) app_env \<Rightarrow> ('ep, 'st) app_state handler \<Rightarrow> ('ep, 'st) app_state layer list" where
  "send_layers env cookie =
     always (setStandardHeaders env) @ always cookie @
     [Plain (sendResponse env), OnError handleRedirects, OnError (handleErrors env)]"

definition response_layers ::
  "('ep, 'st) app_env \<Rightarrow> ('ep, 'st) app_state handler \<Rightarrow> ('ep, 'st) app_state layer list" where
  "response_layers env cookie =
     map (Plain \<circ> on_request)
       [requireEndpoint, addBodyParser (env_parse_body env), csrf_handler (env_validates env),
        generateResponse env]
     @ send_layers env cookie"

definition match_handlers ::
  "api \<Rightarrow> (string \<Rightarrow> string \<Rightarrow> jsobj option) \<Rightarrow>
   ('ep http_request \<Rightarrow> 'ep http_request \<times> next_call) list" where
  "match_handlers api matches =
     map (\<lambda>(pattern, h). use_path matches pattern h)
       [(''/client/:clientId'', setMatchedClient api),
        (''/experiment/:experimentId'', setMatchedExperiment api),
        (''/aiexperiment/:aiExperimentId'', setMatchedExperiment api),
        (''/experiment/:experimentId/observation/:observationId/run'', setRunFromObservation api),
        (''/aiexperiment/:aiExperimentId/observation/:observationId/run'', setRunFromObservation api),
        (''/organization/:organizationId'', setMatchedOrganization api),
        (''/organization/:organizationId/users/:userId'', setMatchedUser api),
        (''/project/:projectId'', setMatchedProject api),
        (''/client/:clientId/project/:projectId'', setMatchedProject api),
        (''/projectruns/:projectId'', setMatchedProject api),
        (''/client/:clientId/projectruns/:projectId'', setMatchedProject api),
        (''/run/:trainingRunId'', setMatchedTrainingRun api)]"

text \<open>The token the API requestor starts with is that of the login state.\<close>

definition set_services :: "'ep http_request \<Rightarrow> 'ep http_request \<times> next_call" where
  "set_services req = (req\<lparr>rq_token := apiToken (rq_login req)\<rparr>, Next)"

definition request_handlers ::
  "('ep, 'st) app_env \<Rightarrow> nat list \<Rightarrow> ('ep http_request \<Rightarrow> 'ep http_request \<times> next_call) list" where
  "request_handlers env order =
     (let api = env_api env
      in [setCurrentUser api order, checkLoginState, setApiTokenDetail api, setCurrentClient api,
        setCurrentExperimentCounts api order, setCurrentOrganization api] @ match_handlers api (env_match env))"

text \<open>\<open>initializeRoutes\<close>: the endpoints, then what is left of the documentation.\<close>

definition initializeRoutes :: "('ep, 'st) app_env \<Rightarrow> ('ep, 'st) app_state layer list" where
  "initializeRoutes env = [Plain (on_request (set_endpoint (env_routes env))), Plain (docs_handler env)]"

definition makeApp ::
  "('ep, 'st) app_env \<Rightarrow> nat list \<Rightarrow> (string \<Rightarrow> bool) \<Rightarrow> ('st, 't) s3_client \<Rightarrow> 't json_text \<Rightarrow>
   (string \<Rightarrow> jsval option) \<Rightarrow> string \<Rightarrow> string \<Rightarrow> (string \<rightharpoonup> string) \<Rightarrow>
   ('ep, 'st) app_state layer list" where
  "makeApp env order safe s3 json config csrf random cookies =
     [Plain (on_request (tooBusy (env_toobusy env))), Plain (on_request normalizeMethod),
      Plain (\<lambda>s. on_request (cookieReader safe s3 json config csrf (st_store s) cookies) s),
      Plain (on_request set_services)]
     @ initializeRoutes env
     @ map (Plain \<circ> on_request) (request_handlers env order)
     @ response_layers env (cookie_layer safe s3 json config random)"

subsection \<open>Running the stack\<close>

lemma express_simps:
  assumes "express_laws run"
  shows "run [] err s = (s, True)" "run (Plain h # ls) None s = go_on run ls (h s)"
    "run (Plain h # ls) (Some e) s = run ls (Some e) s" "run (OnError g # ls) None s = run ls None s"
    "run (OnError g # ls) (Some e) s = go_on run ls (g e s)"
  using assms by (simp_all add: express_laws_def)

lemma go_on_simps [simp]:
  "go_on run ls (s, Next) = run ls None s" "go_on run ls (s, NextError e) = run ls (Some e) s"
  "go_on run ls (s, NoNext) = (s, False)"
  by (simp_all add: go_on_def)

text \<open>A handler that always runs: once, keeping the error there is unless it has its own.\<close>

lemma run_always:
  assumes "express_laws run"
  shows "run (always h @ ls) err s =
    (case h s of (s', Next) \<Rightarrow> run ls err s' | (s', NextError e) \<Rightarrow> run ls (Some e) s'
     | (s', NoNext) \<Rightarrow> (s', False))"
  by (cases err; cases "h s")
    (auto simp: always_def express_simps [OF assms] our_next_def split: next_call.splits)

lemma on_request_res:
  "on_request h s = (s', n) \<Longrightarrow> st_res s' = st_res s \<and> st_store s' = st_store s"
  by (auto simp: on_request_def split: prod.splits)

text \<open>Plain request handlers leave the response alone, until the rest of the stack runs or one of
  them stops.\<close>

lemma run_requests:
  assumes "express_laws run"
  shows "(\<exists>s' err'. run (map (Plain \<circ> on_request) hs @ ls) err s = run ls err' s' \<and> st_res s' = st_res s)
    \<or> (\<exists>s'. run (map (Plain \<circ> on_request) hs @ ls) err s = (s', False) \<and> st_res s' = st_res s)"
proof (induction hs arbitrary: s err)
  case Nil
  then show ?case by auto
next
  case (Cons h hs)
  show ?case
  proof (cases err)
    case (Some e)
    then show ?thesis using Cons.IH [of "Some e" s] by (simp add: express_simps [OF assms])
  next
    case None
    obtain s1 n where h: "on_request h s = (s1, n)" by (cases "on_request h s")
    then have same: "st_res s1 = st_res s" using on_request_res by blast
    have step: "run (map (Plain \<circ> on_request) (h # hs) @ ls) err s =
        go_on run (map (Plain \<circ> on_request) hs @ ls) (s1, n)"
      by (simp add: None express_simps [OF assms] h)
    show ?thesis
    proof (cases n)
      case Next
      show ?thesis unfolding step Next go_on_simps same [symmetric] by (rule Cons.IH)
    next
      case (NextError e)
      show ?thesis unfolding step NextError go_on_simps same [symmetric] by (rule Cons.IH)
    next
      case NoNext
      then show ?thesis unfolding step same [symmetric] by auto
    qed
  qed
qed

subsection \<open>Sending\<close>

lemma header_of_set [simp]:
  "rs_sent (set_header k v res) = rs_sent res" "rs_status (set_header k v res) = rs_status res"
  "header_of (set_header k v res) k' = (if toLowerCase k' = toLowerCase k then Some v else header_of res k')"
  by (simp_all add: set_header_def header_of_def update_conv')

lemma set_headers_sent [simp]:
  "rs_sent (fold (\<lambda>(k, v). set_header k v) hs res) = rs_sent res"
  by (induction hs arbitrary: res) auto

lemma set_headers_other:
  "toLowerCase k \<notin> toLowerCase ` fst ` set hs \<Longrightarrow>
   header_of (fold (\<lambda>(k, v). set_header k v) hs res) k = header_of res k"
  by (induction hs arbitrary: res) auto

lemma set_headers_set:
  "distinct (map (toLowerCase \<circ> fst) hs) \<Longrightarrow> (k, v) \<in> set hs \<Longrightarrow>
   header_of (fold (\<lambda>(k, v). set_header k v) hs res) k = Some v"
proof (induction hs arbitrary: res)
  case (Cons h hs)
  show ?case
  proof (cases "h = (k, v)")
    case True
    then have "toLowerCase k \<notin> toLowerCase ` fst ` set hs" using Cons.prems(1) by (simp add: image_image)
    then show ?thesis using True by (simp add: set_headers_other)
  next
    case False
    then have "(k, v) \<in> set hs" using Cons.prems(2) by auto
    then show ?thesis using Cons.IH Cons.prems(1) by (cases h) simp
  qed
qed simp

lemma send_facts [simp]:
  "rs_sent (send status body res) = rs_sent res @ [body]" "rs_headers (send status body res) = rs_headers res"
  "rs_status (send status body res) = status" "header_of (send status body res) k = header_of res k"
  by (simp_all add: send_def header_of_def)

lemma header_of_status [simp]: "header_of (res\<lparr>rs_status := x\<rparr>) k = header_of res k"
  by (simp add: header_of_def)

lemma send_now_first:
  "rs_sent (st_res s) = [] \<Longrightarrow> send_now status body n s = (s\<lparr>st_res := send status body (st_res s)\<rparr>, n)"
  by (simp add: send_now_def already_sent_def)

text \<open>The last three handlers: one response is sent, or none because the page of the error fails.\<close>

definition own_headers :: "'ep http_request \<Rightarrow> string set" where
  "own_headers req = (case rq_endpointResponse req of None \<Rightarrow> {}
     | Some resp \<Rightarrow> toLowerCase ` fst ` set (response_header_list resp))"

definition error_page_fails :: "('ep, 'st) app_env \<Rightarrow> 'ep http_request \<Rightarrow> bool" where
  "error_page_fails env req = (\<exists>e x. snd (errorPageResponse env req e) = Inl x)"

text \<open>What a stack of handlers may have done to a response that was not sent.\<close>

definition answered :: "('ep, 'st) app_env \<Rightarrow> ('ep, 'st) app_state \<Rightarrow> ('ep, 'st) app_state \<Rightarrow> bool" where
  "answered env s s' =
     ((\<exists>body. rs_sent (st_res s') = [body]) \<or> rs_sent (st_res s') = [] \<and> error_page_fails env (st_req s))"

lemma error_layers:
  assumes "express_laws run" "rs_sent (st_res s) = []"
  shows "\<exists>s' r. run [OnError handleRedirects, OnError (handleErrors env)] (Some e) s = (s', r) \<and> answered env s s' \<and>
    (\<forall>k. header_of (st_res s') k = header_of (st_res s) k)"
proof (cases "\<exists>l c. e = Redirected l c")
  case True
  then show ?thesis
    using assms(2) by (auto simp: express_simps [OF assms(1)] handleRedirects_def send_now_first answered_def)
next
  case False
  then have "handleRedirects e s =
      (if token_status e = JStr ''needs_email_verification''
       then send_now (JNum 302) (RedirectBody ''/user/info?needs_verify=1'' 302) NoNext s else (s, NextError e))"
    by (cases e) (auto simp: handleRedirects_def)
  moreover have "\<exists>s'. handleErrors env e s = (s', Next) \<and> answered env s s' \<and>
      (\<forall>k. header_of (st_res s') k = header_of (st_res s) k)"
  proof (cases "show_trace env (rq_path (st_req s)) e")
    case True
    then show ?thesis using assms(2) by (simp add: handleErrors_def send_now_first answered_def)
  next
    case no_trace: False
    obtain req answer where page: "errorPageResponse env (st_req s) e = (req, answer)" by fastforce
    show ?thesis
    proof (cases answer)
      case (Inl x)
      then have "error_page_fails env (st_req s)"
        unfolding error_page_fails_def using page by (intro exI [of _ e] exI [of _ x]) simp
      then show ?thesis using assms(2) no_trace page Inl by (simp add: handleErrors_def answered_def)
    next
      case (Inr body)
      then show ?thesis using assms(2) no_trace page
        by (simp add: handleErrors_def send_now_first answered_def Let_def)
    qed
  qed
  ultimately show ?thesis
    using assms(2)
    by (cases "token_status e = JStr ''needs_email_verification''")
      (auto simp: express_simps [OF assms(1)] send_now_first answered_def)
qed

lemma final_layers:
  fixes env :: "('ep, 'st) app_env"
  assumes laws: "express_laws run" and unsent: "rs_sent (st_res s) = []"
  defines "final \<equiv> [Plain (sendResponse env), OnError handleRedirects, OnError (handleErrors env)]"
  shows "\<exists>s' r. run final err s = (s', r) \<and> answered env s s' \<and>
    (\<forall>k. toLowerCase k \<notin> own_headers (st_req s) \<longrightarrow> header_of (st_res s') k = header_of (st_res s) k)"
proof (cases err)
  case (Some e)
  then show ?thesis
    using error_layers [OF laws unsent, of env e] by (auto simp: final_def express_simps [OF laws])
next
  case None
  show ?thesis
  proof (cases "\<exists>e resp. rq_endpoint (st_req s) = Some e \<and> rq_endpointResponse (st_req s) = Some resp")
    case False
    then have "sendResponse env s = (s, NextError (Thrown TypeError))"
      by (auto simp: sendResponse_def split: option.splits)
    then show ?thesis using error_layers [OF laws unsent, of env "Thrown TypeError"] None
      by (auto simp: final_def express_simps [OF laws])
  next
    case True
    then obtain e resp where er: "rq_endpoint (st_req s) = Some e" "rq_endpointResponse (st_req s) = Some resp"
      by blast
    define res where "res = fold (\<lambda>(k, v). set_header k v) (response_header_list resp) (st_res s)"
    have res: "rs_sent res = []"
      "\<forall>k. toLowerCase k \<notin> own_headers (st_req s) \<longrightarrow> header_of res k = header_of (st_res s) k"
      using unsent set_headers_other by (auto simp: res_def own_headers_def er)
    show ?thesis
    proof (cases "env_serialize env e (st_req s)")
      case (Inl x)
      define s1 where "s1 = s\<lparr>st_res := res\<lparr>rs_status := resp_status resp\<rparr>\<rparr>"
      have s1: "rs_sent (st_res s1) = []" "st_req s1 = st_req s" "header_of (st_res s1) k = header_of res k" for k
        using res by (simp_all add: s1_def)
      have "sendResponse env s = (s1, NextError x)"
        by (simp add: sendResponse_def er Inl already_sent_def unsent s1_def res_def Let_def)
      then have step: "run final err s = run [OnError handleRedirects, OnError (handleErrors env)] (Some x) s1"
        by (simp add: final_def None express_simps [OF laws])
      show ?thesis unfolding step using error_layers [OF laws s1(1), of env x] res(2) s1(2, 3)
        by (auto simp: answered_def)
    next
      case (Inr body)
      have "sendResponse env s = (s\<lparr>st_res := send (resp_status resp) (PageBody body) res\<rparr>, Next)"
        using res(1) by (simp add: sendResponse_def er Inr already_sent_def unsent send_now_first res_def Let_def)
      then have "run final err s = (s\<lparr>st_res := send (resp_status resp) (PageBody body) res\<rparr>, True)"
        by (simp add: final_def None express_simps [OF laws])
      then show ?thesis using res by (auto simp: answered_def)
    qed
  qed
qed

lemma standard_lower_names:
  "toLowerCase ''Cache-Control'' = ''cache-control''" "toLowerCase ''Content-Type'' = ''content-type''"
  "toLowerCase ''Expires'' = ''expires''" "toLowerCase ''X-Content-Type-Options'' = ''x-content-type-options''"
  "toLowerCase ''X-Frame-Options'' = ''x-frame-options''" "toLowerCase ''X-XSS-Protection'' = ''x-xss-protection''"
  "toLowerCase ''X-Powered-By'' = ''x-powered-by''"
  "toLowerCase ''Content-Security-Policy'' = ''content-security-policy''"
  by code_simp+

lemma standard_lower:
  "map (toLowerCase \<circ> fst) (standard_headers env resp) = [''cache-control'', ''content-type'', ''expires'',
     ''x-content-type-options'', ''x-frame-options'', ''x-xss-protection'', ''x-powered-by'',
     ''content-security-policy'']"
  by (simp add: standard_headers_def standard_lower_names)

text \<open>A cookie handler that goes on, adds no standard header and sends nothing.\<close>

definition quiet_cookie :: "('ep, 'st) app_state handler \<Rightarrow> bool" where
  "quiet_cookie h = (\<forall>s s' n. h s = (s', n) \<longrightarrow> n \<noteq> NoNext \<and> st_req s' = st_req s \<and>
     rs_sent (st_res s') = rs_sent (st_res s) \<and>
     (\<forall>k. toLowerCase k \<noteq> ''set-cookie'' \<longrightarrow> header_of (st_res s') k = header_of (st_res s) k))"

lemma cookie_layer_quiet: "quiet_cookie (cookie_layer safe s3 json config random)"
proof -
  have goes_on: "cookieWriter safe s3 json config random st req \<noteq> (st', c, NoNext)" for st req st' c
    by (auto simp: cookieWriter_def setResponseCookies_def Let_def split: sum.splits)
  have name: "toLowerCase ''Set-Cookie'' = ''set-cookie''" by code_simp
  show ?thesis
    by (auto simp: quiet_cookie_def cookie_layer_def goes_on name split: prod.splits option.splits if_splits)
qed

lemma send_layers_response:
  assumes laws: "express_laws run" and unsent: "rs_sent (st_res s) = []"
    and cookie: "quiet_cookie cookie"
  shows "\<exists>s' r. run (send_layers env cookie) err s = (s', r) \<and> answered env s s' \<and>
    (\<forall>(k, v) \<in> set (standard_headers env (rq_endpointResponse (st_req s))).
       toLowerCase k \<notin> own_headers (st_req s) \<longrightarrow> header_of (st_res s') k = Some v)"
proof -
  let ?std = "standard_headers env (rq_endpointResponse (st_req s))"
  define s1 where "s1 = fst (setStandardHeaders env s)"
  have s1: "setStandardHeaders env s = (s1, Next)" "st_req s1 = st_req s"
    "rs_sent (st_res s1) = []"
    using unsent by (simp_all add: s1_def setStandardHeaders_def already_sent_def)
  have std: "header_of (st_res s1) k = Some v" if "(k, v) \<in> set ?std" for k v
    using set_headers_set [OF _ that] unsent
    by (simp add: s1_def setStandardHeaders_def already_sent_def standard_lower)
  obtain s2 n where s2: "cookie s1 = (s2, n)" by (cases "cookie s1")
  then have quiet: "n \<noteq> NoNext" "st_req s2 = st_req s1" "rs_sent (st_res s2) = rs_sent (st_res s1)"
    "\<And>k. toLowerCase k \<noteq> ''set-cookie'' \<Longrightarrow> header_of (st_res s2) k = header_of (st_res s1) k"
    using cookie unfolding quiet_cookie_def by blast+
  obtain err' where run: "run (send_layers env cookie) err s =
      run [Plain (sendResponse env), OnError handleRedirects, OnError (handleErrors env)] err' s2"
    using quiet(1) by (cases n) (simp_all add: send_layers_def run_always [OF laws] s1(1) s2)
  obtain s' r where fin: "run (send_layers env cookie) err s = (s', r)" "answered env s2 s'"
    "\<And>k. toLowerCase k \<notin> own_headers (st_req s2) \<Longrightarrow> header_of (st_res s') k = header_of (st_res s2) k"
    using final_layers [OF laws, where err = err' and s = s2] quiet(3) s1(3) unfolding run by fastforce
  have "header_of (st_res s') k = Some v"
    if "(k, v) \<in> set ?std" "toLowerCase k \<notin> own_headers (st_req s)" for k v
  proof -
    have "toLowerCase k \<in> set (map (toLowerCase \<circ> fst) ?std)" using that(1) by force
    then have "toLowerCase k \<noteq> ''set-cookie''" unfolding standard_lower by auto
    then show ?thesis using fin(3) [of k] quiet(2,4) std [OF that(1)] that(2) s1(2) by simp
  qed
  then show ?thesis using fin(1,2) quiet(2) s1(2) by (auto simp: answered_def)
qed

lemma send_cookie_response:
  assumes "express_laws run" "rs_sent (st_res s) = []"
    and "run (send_layers env (cookie_layer safe s3 json config random)) err s = (s', r)"
  shows "answered env s s'"
    "(k, v) \<in> set (standard_headers env (rq_endpointResponse (st_req s))) \<Longrightarrow>
       toLowerCase k \<notin> own_headers (st_req s) \<Longrightarrow> header_of (st_res s') k = Some v"
proof -
  have "\<exists>s'' r''. run (send_layers env (cookie_layer safe s3 json config random)) err s = (s'', r'') \<and>
    answered env s s'' \<and> (\<forall>(k, v) \<in> set (standard_headers env (rq_endpointResponse (st_req s))).
       toLowerCase k \<notin> own_headers (st_req s) \<longrightarrow> header_of (st_res s'') k = Some v)"
    by (rule send_layers_response [OF assms(1,2) cookie_layer_quiet])
  then have *: "answered env s s' \<and> (\<forall>(k, v) \<in> set (standard_headers env (rq_endpointResponse (st_req s))).
       toLowerCase k \<notin> own_headers (st_req s) \<longrightarrow> header_of (st_res s') k = Some v)"
    using assms(3) by (elim exE conjE) simp
  then show "answered env s s'" by blast
  show "(k, v) \<in> set (standard_headers env (rq_endpointResponse (st_req s))) \<Longrightarrow>
       toLowerCase k \<notin> own_headers (st_req s) \<Longrightarrow> header_of (st_res s') k = Some v"
    using * by blast
qed

subsection \<open>Properties\<close>


lemma run_on_request:
  assumes "express_laws run"
  shows "run (Plain (on_request h) # ls) None s =
    (case h (st_req s) of (req, n) \<Rightarrow> go_on run ls (s\<lparr>st_req := req\<rparr>, n))"
    "run (Plain (on_request h) # ls) (Some e) s = run ls (Some e) s"
  by (auto simp: express_simps [OF assms] on_request_def split: prod.splits)

text \<open>C5: A POST whose csrf token is missing or wrong never reaches its endpoint: the login state is
  blanked and a page with status 400 is sent.\<close>

theorem bad_csrf_is_refused:
  assumes "express_laws run" and "rq_method (st_req s) = ''POST''"
    and "rq_endpoint (st_req s) = Some e" and "env_validates env e"
    and "env_parse_body env (st_req s) = Inr body"
    and "js_prop body ''csrf_token'' \<noteq> csrfToken (rq_login (st_req s)) \<or>
      \<not> truthy (js_prop body ''csrf_token'')"
  shows "\<exists>message. run (response_layers env cookie) None s =
    run (send_layers env cookie) (Some (Http (BadParamError message)))
      (s\<lparr>st_req := (st_req s)\<lparr>rq_body := body, rq_login := blank_login\<rparr>\<rparr>) \<and>
    failure_status (Http (BadParamError message)) = JNum 400 \<and> apiToken blank_login = JUndef"
proof -
  let ?req = "(st_req s)\<lparr>rq_body := body\<rparr>"
  define message where "message = JStr (if truthy (js_prop body ''csrf_token'')
    then ''Invalid csrf token'' else ''Missing csrf token'')"
  have message: "validateCsrf (rq_login ?req) (js_prop (rq_body ?req) ''csrf_token'') =
      Some (BadParamError message)"
    using assms(6) by (auto simp: validateCsrf_def message_def)
  have blank: "apiToken blank_login = JUndef"
    by (simp add: blank_login_def fromJson.simps [of "JObj []"])
  show ?thesis
    using assms(2-5) message blank
    by (auto simp: response_layers_def run_on_request [OF assms(1)] requireEndpoint_def addBodyParser_def
        csrf_handler_def generateResponse_def)
qed

text \<open>A handler of the stack that leaves the response alone and keeps the path.\<close>

definition silent :: "('ep, 'st) app_state handler \<Rightarrow> bool" where
  "silent h = (\<forall>s. st_res (fst (h s)) = st_res s)"

definition keeps_path :: "('ep, 'st) app_state handler \<Rightarrow> bool" where
  "keeps_path h = (\<forall>s. rq_path (st_req (fst (h s))) = rq_path (st_req s))"

lemma on_request_silent: "silent (on_request h)"
  by (simp add: silent_def on_request_def split: prod.splits)

lemma run_silent:
  assumes "express_laws run" "list_all silent hs"
  shows "(\<exists>s' err'. run (map Plain hs @ ls) err s = run ls err' s' \<and> st_res s' = st_res s)
    \<or> (\<exists>s'. run (map Plain hs @ ls) err s = (s', False) \<and> st_res s' = st_res s)"
  using assms(2)
proof (induction hs arbitrary: s err)
  case Nil
  then show ?case by auto
next
  case (Cons h hs)
  show ?case
  proof (cases err)
    case (Some e)
    then show ?thesis using Cons.IH [of "Some e" s] Cons.prems by (simp add: express_simps [OF assms(1)])
  next
    case None
    obtain s1 n where h: "h s = (s1, n)" by (cases "h s")
    then have same: "st_res s1 = st_res s" using Cons.prems by (simp add: silent_def) (metis fst_conv)
    have step: "run (map Plain (h # hs) @ ls) err s = go_on run (map Plain hs @ ls) (s1, n)"
      by (simp add: None express_simps [OF assms(1)] h)
    have IH: "(\<exists>s' err'. run (map Plain hs @ ls) e s1 = run ls err' s' \<and> st_res s' = st_res s1)
      \<or> (\<exists>s'. run (map Plain hs @ ls) e s1 = (s', False) \<and> st_res s' = st_res s1)" for e
      using Cons.IH Cons.prems by simp
    show ?thesis
    proof (cases n)
      case Next
      show ?thesis unfolding step same [symmetric] Next go_on_simps by (rule IH)
    next
      case (NextError e)
      show ?thesis unfolding step same [symmetric] NextError go_on_simps by (rule IH)
    next
      case NoNext
      then show ?thesis unfolding step same [symmetric] by auto
    qed
  qed
qed

text \<open>The handlers before the routes keep the path, so what is not documentation stays so.\<close>

lemma run_keeping:
  assumes "express_laws run" "list_all silent hs" "list_all keeps_path hs"
  shows "(\<exists>s' err'. run (map Plain hs @ ls) err s = run ls err' s' \<and> st_res s' = st_res s \<and>
      rq_path (st_req s') = rq_path (st_req s))
    \<or> (\<exists>s'. run (map Plain hs @ ls) err s = (s', False) \<and> st_res s' = st_res s)"
  using assms(2, 3)
proof (induction hs arbitrary: s err)
  case Nil
  then show ?case by auto
next
  case (Cons h hs)
  show ?case
  proof (cases err)
    case (Some e)
    then show ?thesis using Cons.IH [of "Some e" s] Cons.prems by (simp add: express_simps [OF assms(1)])
  next
    case None
    obtain s1 n where h: "h s = (s1, n)" by (cases "h s")
    then have same: "st_res s1 = st_res s" "rq_path (st_req s1) = rq_path (st_req s)"
      using Cons.prems by (simp_all add: silent_def keeps_path_def) (metis fst_conv)+
    have step: "run (map Plain (h # hs) @ ls) err s = go_on run (map Plain hs @ ls) (s1, n)"
      by (simp add: None express_simps [OF assms(1)] h)
    have IH: "(\<exists>s' err'. run (map Plain hs @ ls) e s1 = run ls err' s' \<and> st_res s' = st_res s1 \<and>
        rq_path (st_req s') = rq_path (st_req s1))
      \<or> (\<exists>s'. run (map Plain hs @ ls) e s1 = (s', False) \<and> st_res s' = st_res s1)" for e
      using Cons.IH Cons.prems by simp
    show ?thesis
    proof (cases n)
      case Next
      show ?thesis unfolding step same [symmetric] Next go_on_simps by (rule IH)
    next
      case (NextError e)
      show ?thesis unfolding step same [symmetric] NextError go_on_simps by (rule IH)
    next
      case NoNext
      then show ?thesis unfolding step same [symmetric] by auto
    qed
  qed
qed

lemma docs_handler_other: "\<not> env_docs env (rq_path (st_req s)) \<Longrightarrow> docs_handler env s = (s, Next)"
  by (simp add: docs_handler_def Let_def)

text \<open>The handlers up to the routes, and those after them.\<close>

definition early_handlers ::
  "('ep, 'st) app_env \<Rightarrow> (string \<Rightarrow> bool) \<Rightarrow> ('st, 't) s3_client \<Rightarrow> 't json_text \<Rightarrow> (string \<Rightarrow> jsval option) \<Rightarrow>
   string \<Rightarrow> (string \<rightharpoonup> string) \<Rightarrow> ('ep, 'st) app_state handler list" where
  "early_handlers env safe s3 json config csrf cookies =
     [on_request (tooBusy (env_toobusy env)), on_request normalizeMethod,
      (\<lambda>s. on_request (cookieReader safe s3 json config csrf (st_store s) cookies) s),
      on_request set_services, on_request (set_endpoint (env_routes env))]"

lemma early_silent:
  "list_all silent (early_handlers env safe s3 json config csrf cookies)"
  by (auto simp: early_handlers_def on_request_silent silent_def on_request_def split: prod.splits)

lemma reader_path: "rq_path (fst (cookieReader safe s3 json config csrf st cookies req)) = rq_path req"
  by (auto simp: cookieReader_def readRequestCookies_def Let_def split: prod.splits sum.splits if_splits option.splits)

lemma keeps_path_on_request:
  "(\<And>req. rq_path (fst (h req)) = rq_path req) \<Longrightarrow> keeps_path (on_request h)"
  unfolding keeps_path_def on_request_def by (auto split: prod.splits) (metis fst_conv)

lemma early_path: "list_all keeps_path (early_handlers env safe s3 json config csrf cookies)"
proof -
  have "keeps_path (\<lambda>s. on_request (cookieReader safe s3 json config csrf (st_store s) cookies) s)"
    unfolding keeps_path_def
  proof
    fix s
    show "rq_path (st_req (fst (on_request (cookieReader safe s3 json config csrf (st_store s) cookies) s))) =
      rq_path (st_req s)"
      using reader_path [of safe s3 json config csrf "st_store s" cookies "st_req s"]
      by (cases "cookieReader safe s3 json config csrf (st_store s) cookies (st_req s)") (simp add: on_request_def)
  qed
  then show ?thesis
    by (simp add: early_handlers_def keeps_path_on_request tooBusy_def normalizeMethod_def set_services_def
        set_endpoint_def split: option.split)
qed

lemma makeApp_layers:
  "makeApp env order safe s3 json config csrf random cookies =
     map Plain (early_handlers env safe s3 json config csrf cookies) @ Plain (docs_handler env) #
     map Plain (map on_request (request_handlers env order @ [requireEndpoint, addBodyParser (env_parse_body env),
       csrf_handler (env_validates env), generateResponse env])) @
     send_layers env (cookie_layer safe s3 json config random)"
  by (simp add: makeApp_def early_handlers_def initializeRoutes_def response_layers_def)

text \<open>C3: Through the whole application a request whose path is not in the documentation has at most one response
  handed to it: no handler sends a second one, or sends on a response already sent.\<close>

theorem at_most_one_response:
  assumes "express_laws run" and "\<not> env_docs env (rq_path (st_req s))"
    and "run (makeApp env order safe s3 json config csrf random cookies) None s = (s', r)"
    and "rs_sent (st_res s) = []"
  shows "length (rs_sent (st_res s')) \<le> 1"
proof -
  let ?send = "send_layers env (cookie_layer safe s3 json config random)"
  let ?hs = "map on_request (request_handlers env order @ [requireEndpoint, addBodyParser (env_parse_body env),
    csrf_handler (env_validates env), generateResponse env])"
  have silent: "list_all silent ?hs" by (auto simp: list_all_iff on_request_silent)
  have tail: "length (rs_sent (st_res s2)) \<le> 1"
    if "run (map Plain ?hs @ ?send) err s1 = (s2, r2)" "st_res s1 = st_res s" for err s1 s2 r2
    using run_silent [OF assms(1) silent, of ?send err s1]
  proof (elim disjE exE conjE)
    fix s3' err'
    assume eq: "run (map Plain ?hs @ ?send) err s1 = run ?send err' s3'" and "st_res s3' = st_res s1"
    then have "rs_sent (st_res s3') = []" using that(2) assms(4) by simp
    moreover have "run ?send err' s3' = (s2, r2)" using that(1) eq by (simp only:)
    ultimately have "answered env s3' s2" by (rule send_cookie_response(1) [OF assms(1)])
    then show ?thesis by (auto simp: answered_def)
  next
    fix s3'
    assume "run (map Plain ?hs @ ?send) err s1 = (s3', False)" "st_res s3' = st_res s1"
    then show ?thesis using that assms(4) by simp
  qed
  have docs: "length (rs_sent (st_res s2)) \<le> 1"
    if "run (Plain (docs_handler env) # map Plain ?hs @ ?send) err s1 = (s2, r2)" "st_res s1 = st_res s"
      "rq_path (st_req s1) = rq_path (st_req s)" for err s1 s2 r2
  proof (cases err)
    case None
    have "docs_handler env s1 = (s1, Next)" by (rule docs_handler_other) (simp add: that(3) assms(2))
    then show ?thesis using that None by (intro tail [OF _ that(2)]) (simp add: express_simps [OF assms(1)])
  next
    case (Some e)
    then show ?thesis using that by (intro tail [OF _ that(2)]) (simp add: express_simps [OF assms(1)])
  qed
  show ?thesis
    using run_keeping [OF assms(1) early_silent early_path, of env safe s3 json config csrf cookies
        "Plain (docs_handler env) # map Plain ?hs @ ?send" None s]
  proof (elim disjE exE conjE)
    fix s1 err
    assume eq: "run (map Plain (early_handlers env safe s3 json config csrf cookies) @
        Plain (docs_handler env) # map Plain ?hs @ ?send) None s =
        run (Plain (docs_handler env) # map Plain ?hs @ ?send) err s1"
      and same: "st_res s1 = st_res s" "rq_path (st_req s1) = rq_path (st_req s)"
    have "run (Plain (docs_handler env) # map Plain ?hs @ ?send) err s1 = (s', r)"
      using assms(3) unfolding makeApp_layers eq .
    then show ?thesis using same by (rule docs)
  next
    fix s1
    assume "run (map Plain (early_handlers env safe s3 json config csrf cookies) @
        Plain (docs_handler env) # map Plain ?hs @ ?send) None s = (s1, False)" "st_res s1 = st_res s"
    then show ?thesis using assms(3, 4) by (simp add: makeApp_layers)
  qed
qed

subsection \<open>Examples\<close>

text \<open>A dispatcher with the documented laws.\<close>

fun express_run :: "'s layer list \<Rightarrow> failure option \<Rightarrow> 's \<Rightarrow> 's \<times> bool" where
  "express_run [] err s = (s, True)"
| "express_run (Plain h # ls) None s =
     (case h s of (s', Next) \<Rightarrow> express_run ls None s' | (s', NextError e) \<Rightarrow> express_run ls (Some e) s'
      | (s', NoNext) \<Rightarrow> (s', False))"
| "express_run (Plain h # ls) (Some e) s = express_run ls (Some e) s"
| "express_run (OnError g # ls) None s = express_run ls None s"
| "express_run (OnError g # ls) (Some e) s =
     (case g e s of (s', Next) \<Rightarrow> express_run ls None s' | (s', NextError e') \<Rightarrow> express_run ls (Some e') s'
      | (s', NoNext) \<Rightarrow> (s', False))"

lemma express_run_laws: "express_laws express_run"
  by (auto simp: express_laws_def go_on_def)

definition example_env :: "(nat, string \<Rightarrow> jsval option) app_env" where
  "example_env =
     \<lparr>env_toobusy = False, env_routes = (\<lambda>path. if path = ''/home'' then Some 0 else None),
      env_match = (\<lambda>_ _. None), env_validates = (\<lambda>_. True), env_params = (\<lambda>e req. (req, Inr (JObj []))),
      env_render = (\<lambda>e params. Inr (makeResponse (JNum 200) (JStr ''page'') None)),
      env_serialize = (\<lambda>e req. Inr (JStr ''html'')), env_content_type = (\<lambda>_. None),
      env_parse_body = (\<lambda>req. Inr (rq_body req)), env_error_body = (\<lambda>params req. Inr (JStr ''error'')),
      env_docs = (\<lambda>path. startsWith path ''/docs/''), env_api = example_api, env_origin = (\<lambda>_. []),
      env_app_url = [],
      env_show_trace = False, env_production = True, env_assets_url = ''assets'',
      env_head_hash = ''hash''\<rparr>"

definition example_state :: "string \<Rightarrow> (nat, string \<Rightarrow> jsval option) app_state" where
  "example_state method =
     \<lparr>st_req = (new_request method ''/home'' cookie_login)\<lparr>rq_endpoint := Some 0, rq_body := JObj []\<rparr>,
      st_res = \<lparr>rs_headers = [], rs_status = JNum 200, rs_sent = []\<rparr>, st_store = (\<lambda>_. None)\<rparr>"

lemma example_env_fields [simp]:
  "env_validates example_env n"
  "env_parse_body example_env req = Inr (rq_body req)"
  by (simp_all add: example_env_def)

lemma example_sends:
  "rs_sent (st_res (fst (express_run (send_layers example_env
      (cookie_layer (\<lambda>_. True) map_store plain_json (\<lambda>_. None) example_id)) None (example_state ''GET'')))) \<noteq> []"
  by code_simp


lemma bad_csrf_is_refused_witness:
  "\<exists>message. express_run (response_layers example_env (cookie_layer (\<lambda>_. True) map_store plain_json (\<lambda>_. None) example_id)) None (example_state ''POST'') =
    express_run (send_layers example_env (cookie_layer (\<lambda>_. True) map_store plain_json (\<lambda>_. None) example_id)) (Some (Http (BadParamError message)))
      ((example_state ''POST'')\<lparr>st_req := (st_req (example_state ''POST''))
         \<lparr>rq_body := JObj [], rq_login := blank_login\<rparr>\<rparr>)"
proof -
  have "rq_method (st_req (example_state ''POST'')) = ''POST''"
    "rq_endpoint (st_req (example_state ''POST'')) = Some 0"
    "env_validates example_env 0" "env_parse_body example_env (st_req (example_state ''POST'')) = Inr (JObj [])"
    "js_prop (JObj []) ''csrf_token'' \<noteq> csrfToken (rq_login (st_req (example_state ''POST''))) \<or>
      \<not> truthy (js_prop (JObj []) ''csrf_token'')"
    by (simp_all add: example_state_def new_request_def)
  from bad_csrf_is_refused [OF express_run_laws this] show ?thesis by blast
qed

lemma at_most_one_response_witness:
  "length (rs_sent (st_res (fst (express_run (makeApp example_env [0, 1, 2] (\<lambda>_. True) map_store
     plain_json (\<lambda>_. None) ''csrf'' example_id (\<lambda>_. None)) None (example_state ''GET''))))) \<le> 1"
proof -
  let ?run = "express_run (makeApp example_env [0, 1, 2] (\<lambda>_. True) map_store
     plain_json (\<lambda>_. None) ''csrf'' example_id (\<lambda>_. None)) None (example_state ''GET'')"
  have "rs_sent (st_res (example_state ''GET'')) = []" by (simp add: example_state_def)
  moreover have "\<not> env_docs example_env (rq_path (st_req (example_state ''GET'')))" by code_simp
  ultimately show ?thesis
    using at_most_one_response [OF express_run_laws, of example_env "example_state ''GET''" "[0, 1, 2]" "\<lambda>_. True"
        map_store plain_json "\<lambda>_. None" "''csrf''" example_id "\<lambda>_. None"
        "fst ?run" "snd ?run"] by simp
qed

text \<open>A page of the documentation that is not there is redirected, and then a second response is tried.\<close>

lemma handleErrors_sends:
  assumes "\<not> error_page_fails env (st_req s)"
  shows "\<exists>s'. handleErrors env e s = (s', Next) \<and> length (rs_sent (st_res s')) = Suc (length (rs_sent (st_res s)))"
proof (cases "show_trace env (rq_path (st_req s)) e")
  case True
  then show ?thesis by (simp add: handleErrors_def send_now_def)
next
  case False
  obtain req answer where page: "errorPageResponse env (st_req s) e = (req, answer)" by fastforce
  have "\<not> isl answer"
  proof
    assume "isl answer"
    then have "snd (errorPageResponse env (st_req s) e) = Inl (projl answer)" using page by simp
    then show False using assms unfolding error_page_fails_def by blast
  qed
  then show ?thesis using False page by (cases answer) (simp_all add: handleErrors_def send_now_def Let_def)
qed

lemma error_layers_send:
  assumes "express_laws run" "\<not> error_page_fails env (st_req s)" "rs_sent (st_res s) \<noteq> []"
  shows "length (rs_sent (st_res s)) <
    length (rs_sent (st_res (fst (run [OnError handleRedirects, OnError (handleErrors env)] (Some e) s))))"
proof -
  obtain s1 e' where redirect: "handleRedirects e s = (s1, NextError e')" "st_req s1 = st_req s"
    "length (rs_sent (st_res s)) \<le> length (rs_sent (st_res s1))"
    using assms(3)
    by (cases e; cases "token_status e = JStr ''needs_email_verification''")
      (auto simp: handleRedirects_def send_now_def already_sent_def)
  have "\<not> error_page_fails env (st_req s1)" using assms(2) redirect(2) by simp
  from handleErrors_sends [OF this, of e'] obtain s2 where "handleErrors env e' s1 = (s2, Next)"
    "length (rs_sent (st_res s2)) = Suc (length (rs_sent (st_res s1)))" by blast
  then show ?thesis using redirect by (simp add: express_simps [OF assms(1)])
qed

lemma docs_request_sent_twice:
  assumes laws: "express_laws run" and cookie: "quiet_cookie cookie"
    and "rq_method (st_req s) = ''GET''" "env_docs env (rq_path (st_req s))" "rq_endpoint (st_req s) = None"
    and "rs_sent (st_res s) = []" "\<not> error_page_fails env (st_req s)"
  shows "2 \<le> length (rs_sent (st_res (fst (run (Plain (docs_handler env) # response_layers env cookie) None s))))"
proof -
  define s1 where "s1 = s\<lparr>st_res := send (JNum 302) (RedirectBody DOCS_URL 302) (st_res s)\<rparr>"
  have s1: "docs_handler env s = (s1, Next)" "length (rs_sent (st_res s1)) = 1" "st_req s1 = st_req s"
    using assms(3-6) by (simp_all add: docs_handler_def send_now_first s1_def)
  have standard: "setStandardHeaders env s1 = (s1, NextError headers_sent_error)"
    using s1(2) by (auto simp: setStandardHeaders_def already_sent_def)
  obtain s2 n where s2: "cookie s1 = (s2, n)" by (cases "cookie s1")
  then have quiet: "n \<noteq> NoNext" "st_req s2 = st_req s1" "rs_sent (st_res s2) = rs_sent (st_res s1)"
    using cookie unfolding quiet_cookie_def by blast+
  have none: "rq_endpoint (st_req s1) = None" using assms(5) s1(3) by simp
  have "\<exists>e'. run (Plain (docs_handler env) # response_layers env cookie) None s =
      run [OnError handleRedirects, OnError (handleErrors env)] (Some e') s2"
    using quiet(1)
    by (cases n) (auto simp: response_layers_def send_layers_def express_simps [OF laws] s1(1) on_request_def
        requireEndpoint_def none run_always [OF laws] standard s2)
  then obtain e' where run: "run (Plain (docs_handler env) # response_layers env cookie) None s =
      run [OnError handleRedirects, OnError (handleErrors env)] (Some e') s2" by blast
  have "\<not> error_page_fails env (st_req s2)" "rs_sent (st_res s2) \<noteq> []"
    using assms(7) quiet s1(2, 3) by auto
  from error_layers_send [OF laws this, of e'] show ?thesis unfolding run using quiet(3) s1(2) by simp
qed

text \<open>When logging in on the page shown for an error ends in a redirect, nothing is sent.\<close>

lemma login_on_error_page_sends_nothing:
  assumes "rs_sent (st_res s) = []" "rq_method (st_req s) = ''GET''" "truthy (rq_currentUser (st_req s))"
    "rq_body (st_req s) = JObj []" "rq_query (st_req s) = []"
  shows "rs_sent (st_res (fst (handleErrors env (Http PromptForLoginError) s))) = []"
proof -
  have "needs_login (Http PromptForLoginError)" by code_simp
  moreover obtain x where "login_endpoint (env_origin env) (env_app_url env) (env_api env)
      (js_or (failure_status (Http PromptForLoginError)) (JNum 500)) True (st_req s) = (st_req s, Inl x)"
    using assms(2-5) by (simp add: login_endpoint_def login_request_def login_parse_def isUndefinedOrNull_def Let_def)
  ultimately show ?thesis
    using assms(1) by (simp only: handleErrors_def errorPageResponse_def show_trace_def Let_def) simp
qed

end
