(* ===== verification/Api.thy ===== *)
theory Api
  imports Errors
begin

section \<open>The API clients: web/js/api/\<close>

text \<open>
  \<open>ApiRequestor\<close> turns a call into one or two requests and reports to exactly one of its callbacks;
  \<open>LegacyApiClient\<close> parses the loose arguments of its endpoints; \<open>ApiCaller\<close> builds the path of a
  resource. The network, the text form of JSON and the base64 of the header are parameters.
\<close>

subsection \<open>ApiRequestor: api-requestor.js\<close>

definition toAuthHeader :: "(string \<Rightarrow> string) \<Rightarrow> jsval \<Rightarrow> string" where
  "toAuthHeader btoa token = ''Basic '' @ btoa (js_text token @ '':'')"

record api_requestor =
  ar_token :: jsval
  ar_apiUrl :: jsval
  ar_options :: jsobj

text \<open>Without a token of its own (\<open>UNSET\<close>) a requestor takes that of its options.\<close>

definition newApiRequestor :: "bool \<Rightarrow> jsobj \<Rightarrow> jsval option \<Rightarrow> api_requestor" where
  "newApiRequestor server options token =
     (let proxyUrl = (if truthy (obj_get options ''externalAuthorizationEnabled'') then JNull
            else obj_get options ''clientApiUrl'')
      in \<lparr>ar_token = (case token of None \<Rightarrow> obj_get options ''apiToken'' | Some t \<Rightarrow> t),
          ar_apiUrl = (if server then obj_get options ''apiUrl''
            else js_or proxyUrl (obj_get options ''apiUrl'')),
          ar_options = options\<rparr>)"

definition withApiToken :: "bool \<Rightarrow> jsval \<Rightarrow> api_requestor \<Rightarrow> api_requestor" where
  "withApiToken server token r = newApiRequestor server (ar_options r) (Some token)"

definition setApiToken :: "jsval \<Rightarrow> api_requestor \<Rightarrow> api_requestor" where
  "setApiToken token r = r\<lparr>ar_token := token\<rparr>"

definition removeNullParams :: "jsobj \<Rightarrow> jsobj" where
  "removeNullParams params = filter (\<lambda>p. \<not> isUndefinedOrNull (snd p)) params"

definition sanitizeParams :: "string \<Rightarrow> jsobj option \<Rightarrow> jsobj option" where
  "sanitizeParams meth params =
     (if meth \<in> {''GET'', ''DELETE''} then Some (case params of None \<Rightarrow> [] | Some ps \<Rightarrow> removeNullParams ps)
      else params)"

datatype request_data = NoData | QueryData jsobj | JsonData jsobj

record api_request =
  rq_verb :: string
  rq_url :: string
  rq_headers :: jsobj
  rq_data :: request_data

definition build_request ::
  "(string \<Rightarrow> string) \<Rightarrow> api_requestor \<Rightarrow> string \<Rightarrow> string \<Rightarrow> jsobj option \<Rightarrow> string \<Rightarrow> api_request" where
  "build_request btoa r meth path unsanitizedParams urlPrefix =
     (let params = sanitizeParams meth unsanitizedParams
      in \<lparr>rq_verb = meth,
          rq_url = js_text (ar_apiUrl r) @ urlPrefix @ path,
          rq_headers =
            [(''Content-Type'', JStr ''application/json''),
             (''X-Trace-Id'', obj_get (ar_options r) ''traceId'')]
            @ (if truthy (ar_token r)
               then [(''Authorization'', JStr (toAuthHeader btoa (ar_token r)))] else []),
          rq_data = (case params of
              None \<Rightarrow> NoData
            | Some ps \<Rightarrow> if meth \<in> {''GET'', ''DELETE''} then QueryData ps else JsonData ps)\<rparr>)"

datatype net_answer = NetOk string jsval | NetError failure

datatype api_event =
    AlertsCleared
  | Sent api_request
  | CalledSuccess jsval
  | CalledError failure
  | MissingSuccess
  | CleanedUp failure

text \<open>The caller: which callbacks it gave, and for which errors its error callback returns
  \<open>false\<close>, plus the flag of the legacy client.\<close>

record api_caller_options =
  co_success :: bool
  co_error :: bool
  co_handled :: "failure \<Rightarrow> bool"
  co_legacy :: bool

definition api_errorHandler :: "api_caller_options \<Rightarrow> failure \<Rightarrow> api_event list" where
  "api_errorHandler co netError =
     (let errorHandled = (co_error co \<and> co_handled co netError)
      in (if co_error co then [CalledError netError] else [])
         @ (if \<not> errorHandled \<and> co_legacy co then [CleanedUp netError] else []))"

definition invalid_json :: "string \<Rightarrow> jsval \<Rightarrow> failure" where
  "invalid_json data status =
     Thrown (JsError (''Invalid JSON response with status '' @ js_text status @ '': '' @ data))"

definition wrapSuccess ::
  "(string \<Rightarrow> jsval option) \<Rightarrow> (failure \<Rightarrow> api_event list) \<Rightarrow> string \<Rightarrow> jsval \<Rightarrow> api_event list" where
  "wrapSuccess parse err data status =
     (case parse data of None \<Rightarrow> err (invalid_json data status) | Some v \<Rightarrow> [CalledSuccess v])"

text \<open>\<open>answers\<close> are those of the network to the successive attempts.\<close>

fun retryOn504 ::
  "(string \<Rightarrow> jsval option) \<Rightarrow> api_caller_options \<Rightarrow> api_request \<Rightarrow> nat \<Rightarrow> (nat \<Rightarrow> net_answer) \<Rightarrow>
   api_event list" where
  "retryOn504 parse co req retries answers =
     (let onError = (\<lambda>netError.
            if 0 < retries \<and> rq_verb req = ''GET'' \<and> failure_status netError = JNum 504
            then (case retries of 0 \<Rightarrow> [] | Suc n \<Rightarrow> retryOn504 parse co req n (\<lambda>i. answers (Suc i)))
            else api_errorHandler co netError)
      in Sent req #
         (case answers 0 of
            NetError e \<Rightarrow> onError e
          | NetOk data status \<Rightarrow>
              if co_success co then wrapSuccess parse onError data status else [MissingSuccess]))"

declare retryOn504.simps [simp del]

definition api_perform ::
  "(string \<Rightarrow> string) \<Rightarrow> (string \<Rightarrow> jsval option) \<Rightarrow> api_requestor \<Rightarrow> api_caller_options \<Rightarrow> string \<Rightarrow>
   string \<Rightarrow> jsobj option \<Rightarrow> string \<Rightarrow> (nat \<Rightarrow> net_answer) \<Rightarrow> api_event list" where
  "api_perform btoa parse r co meth path params urlPrefix answers =
     (if co_legacy co then [AlertsCleared] else [])
     @ retryOn504 parse co (build_request btoa r meth path params urlPrefix) 1 answers"

definition requestor_serializeAs :: "api_requestor \<Rightarrow> jsobj" where
  "requestor_serializeAs r =
     obj_extend (filter (\<lambda>p. fst p \<noteq> ''traceId'') (ar_options r)) [(''apiToken'', ar_token r)]"

subsection \<open>LegacyApiClient: legacy-api-client.js\<close>

text \<open>An argument of an endpoint: text, a number, an object, a function, \<open>undefined\<close> or \<open>null\<close>, or
  anything else.\<close>

datatype arg =
    TextArg string
  | NumArg int
  | ObjArg jsobj
  | FunArg nat
  | NilArg
  | OtherArg

fun is_id :: "arg \<Rightarrow> bool" where
  "is_id (TextArg s) = True" | "is_id (NumArg i) = True" | "is_id _ = False"

fun is_params :: "arg \<Rightarrow> bool" where
  "is_params NilArg = True" | "is_params (ObjArg ps) = True" | "is_params _ = False"

fun is_handler :: "arg \<Rightarrow> bool" where
  "is_handler NilArg = True" | "is_handler (FunArg f) = True" | "is_handler _ = False"

fun arg_text :: "arg \<Rightarrow> string" where
  "arg_text (TextArg s) = s"
| "arg_text (NumArg i) = int_text i"
| "arg_text _ = ''undefined''"

fun arg_params :: "arg list \<Rightarrow> jsobj" where
  "arg_params (ObjArg ps # _) = ps" | "arg_params _ = []"

fun arg_handler :: "arg list \<Rightarrow> nat option" where
  "arg_handler (FunArg f # _) = Some f" | "arg_handler _ = None"

record parsed_call =
  pc_ids :: "arg list"
  pc_params :: jsobj
  pc_success :: "nat option"
  pc_error :: "nat option"

definition parse_arguments :: "nat \<Rightarrow> arg list \<Rightarrow> js_error + parsed_call" where
  "parse_arguments numIds args =
     (let ids = take numIds args;
          maybeParams = take 1 (takeWhile is_params (drop numIds args));
          handlers = rev (take 2 (takeWhile is_handler (rev args)))
      in if \<not> list_all is_id ids then Inl (JsError ''Invalid arguments for API call'')
         else if length ids + length maybeParams + length handlers \<noteq> length args
         then Inl (JsError ''Invalid arguments for API call'')
         else Inr \<lparr>pc_ids = ids, pc_params = arg_params maybeParams,
            pc_success = arg_handler handlers, pc_error = arg_handler (drop 1 handlers)\<rparr>)"

datatype path_part = Lit string | Arg nat

definition render_path :: "path_part list \<Rightarrow> arg list \<Rightarrow> string" where
  "render_path parts ids =
     concat (map (\<lambda>p. case p of Lit s \<Rightarrow> s
       | Arg i \<Rightarrow> if i < length ids then arg_text (ids ! i) else ''undefined'') parts)"

definition path_arity :: "path_part list \<Rightarrow> nat" where
  "path_arity parts = length (filter (\<lambda>p. case p of Lit _ \<Rightarrow> False | Arg _ \<Rightarrow> True) parts)"

definition legacy_endpoints :: "(string \<times> string \<times> path_part list) list" where
  "legacy_endpoints =
     [(''clientCreate'', ''POST'', [Lit ''/clients'']),
      (''clientDelete'', ''DELETE'', [Lit ''/clients/'', Arg 0]),
      (''clientDetail'', ''GET'', [Lit ''/clients/'', Arg 0]),
      (''clientExperiments'', ''GET'', [Lit ''/clients/'', Arg 0, Lit ''/experiments'']),
      (''clientInviteDelete'', ''DELETE'', [Lit ''/clients/'', Arg 0, Lit ''/invites'']),
      (''clientMerge'', ''PUT'', [Lit ''/clients/'', Arg 0, Lit ''/merge'']),
      (''clientPendingPermissions'', ''GET'', [Lit ''/clients/'', Arg 0, Lit ''/pending_permissions'']),
      (''clientPermissions'', ''GET'', [Lit ''/clients/'', Arg 0, Lit ''/permissions'']),
      (''clientTokens'', ''GET'', [Lit ''/clients/'', Arg 0, Lit ''/tokens'']),
      (''clientUpdate'', ''PUT'', [Lit ''/clients/'', Arg 0]),
      (''experimentBestAssignments'', ''GET'', [Lit ''/experiments/'', Arg 0, Lit ''/best_assignments'']),
      (''experimentBestPractices'', ''GET'', [Lit ''/experiments/'', Arg 0, Lit ''/best_practices'']),
      (''experimentCreate'', ''POST'', [Lit ''/clients/'', Arg 0, Lit ''/experiments'']),
      (''experimentDelete'', ''DELETE'', [Lit ''/experiments/'', Arg 0]),
      (''experimentDetail'', ''GET'', [Lit ''/experiments/'', Arg 0]),
      (''experimentObservations'', ''GET'', [Lit ''/experiments/'', Arg 0, Lit ''/observations'']),
      (''experimentSuggestions'', ''GET'', [Lit ''/experiments/'', Arg 0, Lit ''/suggestions'']),
      (''experimentUpdate'', ''PUT'', [Lit ''/experiments/'', Arg 0]),
      (''forgotPassword'', ''DELETE'', [Lit ''/sessions'']),
      (''observationsCreate'', ''POST'', [Lit ''/experiments/'', Arg 0, Lit ''/observations'']),
      (''observationsCreateMulti'', ''POST'', [Lit ''/experiments/'', Arg 0, Lit ''/observations/batch'']),
      (''observationsDelete'', ''DELETE'', [Lit ''/experiments/'', Arg 0, Lit ''/observations/'', Arg 1]),
      (''observationsDeleteAll'', ''DELETE'', [Lit ''/experiments/'', Arg 0, Lit ''/observations'']),
      (''observationsUpdate'', ''PUT'', [Lit ''/experiments/'', Arg 0, Lit ''/observations/'', Arg 1]),
      (''organizationClientCreate'', ''POST'', [Lit ''/organizations/'', Arg 0, Lit ''/clients'']),
      (''organizationClients'', ''GET'', [Lit ''/organizations/'', Arg 0, Lit ''/clients'']),
      (''organizationCreate'', ''POST'', [Lit ''/organizations'']),
      (''organizationDelete'', ''DELETE'', [Lit ''/organizations/'', Arg 0]),
      (''organizationDetail'', ''GET'', [Lit ''/organizations/'', Arg 0]),
      (''organizationInviteCreate'', ''POST'', [Lit ''/organizations/'', Arg 0, Lit ''/invites'']),
      (''organizationInviteDelete'', ''DELETE'', [Lit ''/organizations/'', Arg 0, Lit ''/invites'']),
      (''organizationInvites'', ''GET'', [Lit ''/organizations/'', Arg 0, Lit ''/invites'']),
      (''organizationMemberships'', ''GET'', [Lit ''/organizations/'', Arg 0, Lit ''/memberships'']),
      (''organizationPermissions'', ''GET'', [Lit ''/organizations/'', Arg 0, Lit ''/permissions'']),
      (''organizationUpdate'', ''PUT'', [Lit ''/organizations/'', Arg 0]),
      (''queuedSuggestionsCreate'', ''POST'', [Lit ''/experiments/'', Arg 0, Lit ''/queued_suggestions'']),
      (''queuedSuggestionsDelete'', ''DELETE'', [Lit ''/experiments/'', Arg 0, Lit ''/queued_suggestions/'', Arg 1]),
      (''queuedSuggestionsDetail'', ''GET'', [Lit ''/experiments/'', Arg 0, Lit ''/queued_suggestions/'', Arg 1]),
      (''queuedSuggestionsListDetail'', ''GET'', [Lit ''/experiments/'', Arg 0, Lit ''/queued_suggestions'']),
      (''resendVerificationEmail'', ''POST'', [Lit ''/verifications'']),
      (''resetPassword'', ''DELETE'', [Lit ''/users/'', Arg 0, Lit ''/sessions'']),
      (''sessionDetail'', ''GET'', [Lit ''/sessions'']),
      (''suggestions'', ''GET'', [Lit ''/experiments/'', Arg 0, Lit ''/suggestions'']),
      (''suggestionsCreate'', ''POST'', [Lit ''/experiments/'', Arg 0, Lit ''/suggestions'']),
      (''suggestionsDelete'', ''DELETE'', [Lit ''/experiments/'', Arg 0, Lit ''/suggestions/'', Arg 1]),
      (''suggestionsDeleteAll'', ''DELETE'', [Lit ''/experiments/'', Arg 0, Lit ''/suggestions'']),
      (''tokenDetailSelf'', ''GET'', [Lit ''/tokens/self'']),
      (''userDelete'', ''DELETE'', [Lit ''/users/'', Arg 0]),
      (''userDetail'', ''GET'', [Lit ''/users/'', Arg 0]),
      (''userExperiments'', ''GET'', [Lit ''/users/'', Arg 0, Lit ''/experiments'']),
      (''userMemberships'', ''GET'', [Lit ''/users/'', Arg 0, Lit ''/memberships'']),
      (''userPendingPermissions'', ''GET'', [Lit ''/users/'', Arg 0, Lit ''/pending_permissions'']),
      (''userPermissions'', ''GET'', [Lit ''/users/'', Arg 0, Lit ''/permissions'']),
      (''userResendVerificationEmail'', ''POST'', [Lit ''/users/'', Arg 0, Lit ''/verifications'']),
      (''userSession'', ''GET'', [Lit ''/users/'', Arg 0, Lit ''/sessions'']),
      (''userUpdate'', ''PUT'', [Lit ''/users/'', Arg 0])]"

record legacy_call =
  lc_verb :: string
  lc_path :: string
  lc_args :: parsed_call

definition makeEndpoint :: "string \<Rightarrow> path_part list \<Rightarrow> arg list \<Rightarrow> js_error + legacy_call" where
  "makeEndpoint verb parts args =
     (case parse_arguments (path_arity parts) args of
        Inl e \<Rightarrow> Inl e
      | Inr c \<Rightarrow> Inr \<lparr>lc_verb = verb, lc_path = render_path parts (pc_ids c), lc_args = c\<rparr>)"

definition call_legacy :: "string \<Rightarrow> arg list \<Rightarrow> js_error + legacy_call" where
  "call_legacy name args =
     (case map_of legacy_endpoints name of
        None \<Rightarrow> Inl TypeError
      | Some (verb, parts) \<Rightarrow> makeEndpoint verb parts args)"

text \<open>The call is made with the legacy flag, and with an error callback that handles \<open>handled\<close>.\<close>

definition legacy_perform ::
  "(string \<Rightarrow> string) \<Rightarrow> (string \<Rightarrow> jsval option) \<Rightarrow> api_requestor \<Rightarrow> string \<Rightarrow> arg list \<Rightarrow>
   (failure \<Rightarrow> bool) \<Rightarrow> (nat \<Rightarrow> net_answer) \<Rightarrow> js_error + api_event list" where
  "legacy_perform btoa parse r name args handled answers =
     (case call_legacy name args of
        Inl e \<Rightarrow> Inl e
      | Inr c \<Rightarrow> Inr (api_perform btoa parse r
          \<lparr>co_success = (pc_success (lc_args c) \<noteq> None), co_error = (pc_error (lc_args c) \<noteq> None),
           co_handled = handled, co_legacy = True\<rparr>
          (lc_verb c) (lc_path c) (Some (pc_params (lc_args c))) ''/v1'' answers))"

subsection \<open>ApiCaller: promise-api-client.js\<close>

record resource_caller =
  rc_path :: string
  rc_prefix :: string

definition new_caller :: resource_caller where
  "new_caller = \<lparr>rc_path = [], rc_prefix = ''/v1''\<rparr>"

definition api_resources :: "(string \<times> string) list" where
  "api_resources =
     [(''aiexperiments'', ''aiexperiments''),
      (''bestAssignments'', ''best_assignments''),
      (''bestPractices'', ''best_practices''),
      (''checkpoints'', ''checkpoints''),
      (''clients'', ''clients''),
      (''experiments'', ''experiments''),
      (''files'', ''files''),
      (''invites'', ''invites''),
      (''hyperparameters'', ''hyperparameters''),
      (''memberships'', ''memberships''),
      (''metricImportances'', ''metric_importances''),
      (''notes'', ''notes''),
      (''observations'', ''observations''),
      (''organizations'', ''organizations''),
      (''pendingPermissions'', ''pending_permissions''),
      (''permissions'', ''permissions''),
      (''projects'', ''projects''),
      (''queuedSuggestions'', ''queued_suggestions''),
      (''sessions'', ''sessions''),
      (''stoppingCriteria'', ''stopping_criteria''),
      (''suggestions'', ''suggestions''),
      (''tags'', ''tags''),
      (''tokens'', ''tokens''),
      (''trainingRuns'', ''training_runs''),
      (''users'', ''users''),
      (''verifications'', ''verifications''),
      (''webData'', ''web_data'')]"

definition subresource :: "string \<Rightarrow> arg list \<Rightarrow> resource_caller \<Rightarrow> js_error + resource_caller" where
  "subresource name ids c =
     (if 1 < length ids then Inl (JsError ''Too many ids received'')
      else Inr \<lparr>rc_path = rc_path c @ ''/'' @ name @ (case ids of [] \<Rightarrow> [] | i # _ \<Rightarrow> ''/'' @ arg_text i),
           rc_prefix = ''/v1''\<rparr>)"

fun caller_chain :: "(string \<times> arg list) list \<Rightarrow> resource_caller \<Rightarrow> js_error + resource_caller" where
  "caller_chain [] c = Inr c"
| "caller_chain ((resource, ids) # rest) c =
     (case map_of api_resources resource of
        None \<Rightarrow> Inl TypeError
      | Some name \<Rightarrow>
          (case subresource name ids c of Inl e \<Rightarrow> Inl e | Inr c' \<Rightarrow> caller_chain rest c'))"

text \<open>\<open>fetch\<close>, \<open>create\<close>, \<open>update\<close> and \<open>delete\<close>: a promise that settles with the callback that runs.\<close>

fun settled :: "api_event list \<Rightarrow> (failure + jsval) option" where
  "settled [] = None"
| "settled (CalledSuccess v # es) = Some (Inr v)"
| "settled (CalledError e # es) = Some (Inl e)"
| "settled (_ # es) = settled es"

definition caller_call ::
  "(string \<Rightarrow> string) \<Rightarrow> (string \<Rightarrow> jsval option) \<Rightarrow> api_requestor \<Rightarrow> resource_caller \<Rightarrow> string \<Rightarrow>
   jsobj option \<Rightarrow> (nat \<Rightarrow> net_answer) \<Rightarrow> (failure + jsval) option" where
  "caller_call btoa parse r c meth params answers =
     settled (api_perform btoa parse r
       \<lparr>co_success = True, co_error = True, co_handled = (\<lambda>_. False), co_legacy = False\<rparr>
       meth (rc_path c) (Some (case params of None \<Rightarrow> [] | Some ps \<Rightarrow> ps)) (rc_prefix c) answers)"

fun is_outcome :: "api_event \<Rightarrow> bool" where
  "is_outcome (CalledSuccess v) = True"
| "is_outcome (CalledError e) = True"
| "is_outcome _ = False"

fun is_sent :: "api_event \<Rightarrow> bool" where
  "is_sent (Sent r) = True" | "is_sent _ = False"

lemma settled_none_iff [simp]: "settled es = None \<longleftrightarrow> list_all (\<lambda>e. \<not> is_outcome e) es"
  by (induction es rule: settled.induct) auto

lemma api_errorHandler_counts [simp]:
  "length (filter is_outcome (api_errorHandler co e)) = (if co_error co then 1 else 0)"
  "filter is_sent (api_errorHandler co e) = []"
  by (simp_all add: api_errorHandler_def)

lemma failure_status_invalid_json [simp]: "failure_status (invalid_json data status) = JUndef"
  by (simp add: invalid_json_def)

lemma retryOn504_zero:
  "retryOn504 parse co req 0 answers =
     Sent req # (case answers 0 of
         NetError e \<Rightarrow> api_errorHandler co e
       | NetOk data status \<Rightarrow>
           if co_success co
           then wrapSuccess parse (api_errorHandler co) data status
           else [MissingSuccess])"
  by (subst retryOn504.simps) (simp split: net_answer.split)

lemma retryOn504_one:
  "retryOn504 parse co req (Suc 0) answers =
     Sent req # (case answers 0 of
         NetError e \<Rightarrow>
           if rq_verb req = ''GET'' \<and> failure_status e = JNum 504
           then retryOn504 parse co req 0 (\<lambda>i. answers (Suc i)) else api_errorHandler co e
       | NetOk data status \<Rightarrow>
           if co_success co
           then wrapSuccess parse (api_errorHandler co) data status
           else [MissingSuccess])"
  by (subst retryOn504.simps) (simp add: wrapSuccess_def split: net_answer.split option.split)

definition gateway_timeout :: "net_answer \<Rightarrow> bool" where
  "gateway_timeout a = (case a of NetError e \<Rightarrow> failure_status e = JNum 504 | NetOk _ _ \<Rightarrow> False)"

lemma wrapSuccess_counts:
  "length (filter is_outcome (wrapSuccess parse (api_errorHandler co) d st)) =
     (if parse d = None \<and> \<not> co_error co then 0 else 1)"
  "filter is_sent (wrapSuccess parse (api_errorHandler co) d st) = []"
  by (auto simp: wrapSuccess_def split: option.split)

definition answer_outcome :: "(string \<Rightarrow> jsval option) \<Rightarrow> net_answer \<Rightarrow> failure + jsval" where
  "answer_outcome parse a =
     (case a of
        NetError e \<Rightarrow> Inl e
      | NetOk d st \<Rightarrow> (case parse d of None \<Rightarrow> Inl (invalid_json d st) | Some v \<Rightarrow> Inr v))"

lemma settled_api_errorHandler: "co_error co \<Longrightarrow> settled (api_errorHandler co e) = Some (Inl e)"
  by (simp add: api_errorHandler_def)

lemma retryOn504_counts:
  assumes "co_success co" "co_error co"
  shows "length (filter is_outcome (retryOn504 parse co req (Suc 0) answers)) = 1"
    and "filter is_sent (retryOn504 parse co req (Suc 0) answers) =
      (if rq_verb req = ''GET'' \<and> gateway_timeout (answers 0) then [Sent req, Sent req] else [Sent req])"
    and "settled (retryOn504 parse co req (Suc 0) answers) =
      Some (answer_outcome parse
        (if rq_verb req = ''GET'' \<and> gateway_timeout (answers 0) then answers 1 else answers 0))"
  using assms
  by (auto simp: retryOn504_one retryOn504_zero wrapSuccess_counts gateway_timeout_def
      answer_outcome_def settled_api_errorHandler wrapSuccess_def
      split: net_answer.split option.split)

text \<open>C11: A call with both callbacks reports to exactly one of them, once: to the success callback
  with the parsed answer or to the error callback with the failure. It sends its request once, and
  a second time only when it is a GET answered with status 504; then the second answer counts.\<close>

theorem api_call_reports_once:
  assumes "co_success co" "co_error co"
  shows "length (filter is_outcome (api_perform btoa parse r co meth path params urlPrefix answers)) = 1
    \<and> filter is_sent (api_perform btoa parse r co meth path params urlPrefix answers) =
        replicate (if meth = ''GET'' \<and> gateway_timeout (answers 0) then 2 else 1)
          (Sent (build_request btoa r meth path params urlPrefix))
    \<and> settled (api_perform btoa parse r co meth path params urlPrefix answers) =
        Some (answer_outcome parse
          (if meth = ''GET'' \<and> gateway_timeout (answers 0) then answers 1 else answers 0))"
proof -
  let ?req = "build_request btoa r meth path params urlPrefix"
  have "rq_verb ?req = meth" by (simp add: build_request_def Let_def)
  note facts = retryOn504_counts [OF assms, of parse ?req answers, unfolded this]
  have "is_outcome AlertsCleared = False" "is_sent AlertsCleared = False" by simp_all
  then show ?thesis
    using facts by (cases "meth = ''GET'' \<and> gateway_timeout (answers 0)")
      (auto simp: api_perform_def numeral_2_eq_2)
qed

definition example_requestor :: api_requestor where
  "example_requestor = newApiRequestor True
     [(''apiUrl'', JStr ''https://api''), (''apiToken'', JStr ''T''), (''traceId'', JStr ''X'')] None"

definition example_callbacks :: api_caller_options where
  "example_callbacks = \<lparr>co_success = True, co_error = True, co_handled = (\<lambda>_. False), co_legacy = True\<rparr>"

definition example_timeout :: net_answer where
  "example_timeout = NetError (Http (HttpError RequestErrorClass [(''status'', JNum 504)]))"

theorem api_call_reports_once_witness:
  "settled (api_perform (\<lambda>s. s) (\<lambda>s. Some (JStr s)) example_requestor example_callbacks ''GET'' ''/clients/1''
     (Some [(''limit'', JNull)]) ''/v1'' (\<lambda>i. if i = 0 then example_timeout else NetOk ''a'' (JNum 200)))
   = Some (Inr (JStr ''a''))"
  using api_call_reports_once [of example_callbacks "\<lambda>s. s" "\<lambda>s. Some (JStr s)" example_requestor
      "''GET''" "''/clients/1''" "Some [(''limit'', JNull)]" "''/v1''"
      "\<lambda>i. if i = 0 then example_timeout else NetOk ''a'' (JNum 200)"]
  by (simp add: example_callbacks_def example_timeout_def HttpError_def gateway_timeout_def answer_outcome_def)

lemma build_request_query:
  assumes "meth \<in> {''GET'', ''DELETE''}"
  shows "\<exists>ps. rq_data (build_request btoa r meth path params urlPrefix) = QueryData ps
    \<and> (\<forall>(k, v)\<in>set ps. v \<noteq> JUndef \<and> v \<noteq> JNull)"
  using assms
  by (auto simp: build_request_def sanitizeParams_def removeNullParams_def Let_def isUndefinedOrNull_def
      split: option.split)

lemma build_request_example:
  "rq_url (build_request (\<lambda>s. s) example_requestor ''GET'' ''/clients/1'' None ''/v1'')
     = ''https://api/v1/clients/1''
   \<and> rq_headers (build_request (\<lambda>s. s) example_requestor ''GET'' ''/clients/1'' None ''/v1'')
     = [(''Content-Type'', JStr ''application/json''), (''X-Trace-Id'', JStr ''X''),
        (''Authorization'', JStr ''Basic T:'')]"
  by (simp add: build_request_def example_requestor_def newApiRequestor_def toAuthHeader_def)

lemma requestor_serializeAs_no_trace:
  "distinct (map fst (ar_options r)) \<Longrightarrow> obj_get (requestor_serializeAs r) ''traceId'' = JUndef"
  by (simp add: requestor_serializeAs_def obj_get_filter [of "\<lambda>k. k \<noteq> ''traceId''"])

subsection \<open>The arguments of the legacy client\<close>

definition optional_params :: "jsobj option \<Rightarrow> arg list" where
  "optional_params ps = (case ps of None \<Rightarrow> [] | Some p \<Rightarrow> [ObjArg p])"

lemma is_handler_not_id: "is_handler a \<Longrightarrow> \<not> is_id a"
  by (cases a) auto

lemma takeWhile_handlers_ids:
  assumes "list_all is_id ids"
  shows "takeWhile is_handler (rev ids) = []"
proof -
  have "\<forall>a\<in>set (rev ids). \<not> is_handler a"
    using assms by (auto simp: list_all_iff dest: is_handler_not_id)
  then show ?thesis by (cases "rev ids") auto
qed

lemma takeWhile_handlers_params:
  assumes "list_all is_id ids"
  shows "takeWhile is_handler (rev (ids @ optional_params ps @ map FunArg hs)) = map FunArg (rev hs)"
proof -
  have "takeWhile is_handler (rev (ids @ optional_params ps)) = []"
    by (cases ps) (simp_all add: optional_params_def takeWhile_handlers_ids [OF assms])
  moreover have "\<And>a. a \<in> set (map FunArg (rev hs)) \<Longrightarrow> is_handler a" by auto
  ultimately show ?thesis
    using takeWhile_append2 [of "map FunArg (rev hs)" is_handler "rev (optional_params ps) @ rev ids"]
    by (simp add: rev_map)
qed

lemma takeWhile_params:
  "take 1 (takeWhile is_params (optional_params ps @ map FunArg hs)) = optional_params ps"
  by (cases ps; cases hs) (simp_all add: optional_params_def)

lemma parse_arguments_wellformed:
  assumes "list_all is_id ids" "length hs \<le> 2"
  shows "parse_arguments (length ids) (ids @ optional_params ps @ map FunArg hs) =
    Inr \<lparr>pc_ids = ids, pc_params = (case ps of None \<Rightarrow> [] | Some p \<Rightarrow> p),
      pc_success = (case hs of [] \<Rightarrow> None | f # _ \<Rightarrow> Some f),
      pc_error = (case hs of _ # f # _ \<Rightarrow> Some f | _ \<Rightarrow> None)\<rparr>"
proof -
  have "arg_params (optional_params ps) = (case ps of None \<Rightarrow> [] | Some p \<Rightarrow> p)"
    by (cases ps) (simp_all add: optional_params_def)
  then show ?thesis
    using assms takeWhile_handlers_params [OF assms(1), of ps hs] takeWhile_params [of ps hs]
    by (simp add: parse_arguments_def Let_def rev_map split: list.split)
qed

text \<open>An endpoint of the legacy client called as its documentation says (its ids, then optionally
  an object of parameters, then at most two callbacks) finds each of them, and makes the call of its
  verb and path.\<close>

theorem legacy_call_parses:
  assumes "list_all is_id ids" "length ids = path_arity parts" "length hs \<le> 2"
  shows "makeEndpoint verb parts (ids @ optional_params ps @ map FunArg hs) =
    Inr \<lparr>lc_verb = verb, lc_path = render_path parts ids,
      lc_args = \<lparr>pc_ids = ids, pc_params = (case ps of None \<Rightarrow> [] | Some p \<Rightarrow> p),
        pc_success = (case hs of [] \<Rightarrow> None | f # _ \<Rightarrow> Some f),
        pc_error = (case hs of _ # f # _ \<Rightarrow> Some f | _ \<Rightarrow> None)\<rparr>\<rparr>"
  using parse_arguments_wellformed [OF assms(1,3), of ps]
  by (simp add: makeEndpoint_def assms(2))

theorem legacy_call_parses_witness:
  "call_legacy ''observationsUpdate'' [NumArg 7, TextArg ''12'', ObjArg [(''failed'', JBool True)], FunArg 1, FunArg 2]
   = Inr \<lparr>lc_verb = ''PUT'', lc_path = ''/experiments/7/observations/12'',
       lc_args = \<lparr>pc_ids = [NumArg 7, TextArg ''12''], pc_params = [(''failed'', JBool True)],
         pc_success = Some 1, pc_error = Some 2\<rparr>\<rparr>"
proof -
  let ?parts = "[Lit ''/experiments/'', Arg 0, Lit ''/observations/'', Arg 1]"
  have "map_of legacy_endpoints ''observationsUpdate'' = Some (''PUT'', ?parts)"
    by (simp add: legacy_endpoints_def)
  moreover have "render_path ?parts [NumArg 7, TextArg ''12''] = ''/experiments/7/observations/12''"
    by (simp add: render_path_def int_text_def nat_digits.simps)
  moreover have "path_arity ?parts = 2"
    by (simp add: path_arity_def)
  ultimately show ?thesis
    using legacy_call_parses [of "[NumArg 7, TextArg ''12'']" ?parts "[1, 2]" "''PUT''"
        "Some [(''failed'', JBool True)]"]
    by (simp add: call_legacy_def optional_params_def)
qed

lemma legacy_endpoints_distinct: "distinct (map fst legacy_endpoints)"
  by (simp add: legacy_endpoints_def)

lemma legacy_endpoints_arity:
  "list_all (\<lambda>(name, verb, parts). path_arity parts \<le> 2 \<and> verb \<in> {''GET'', ''POST'', ''PUT'', ''DELETE''})
     legacy_endpoints"
  by (simp add: legacy_endpoints_def path_arity_def)

text \<open>An accepted call is its ids, at most one object and at most two callbacks, in that order.\<close>

lemma take_takeWhile_prefix: "\<exists>zs. xs = take k (takeWhile P xs) @ zs"
  by (metis append.assoc append_take_drop_id takeWhile_dropWhile_id)

lemma legacy_call_shape:
  assumes "parse_arguments n args = Inr c"
  shows "\<exists>ps hs. args = pc_ids c @ ps @ hs \<and> list_all is_id (pc_ids c) \<and> length (pc_ids c) \<le> n
    \<and> list_all is_params ps \<and> length ps \<le> 1 \<and> list_all is_handler hs \<and> length hs \<le> 2"
proof -
  let ?ids = "take n args" and ?ps = "take 1 (takeWhile is_params (drop n args))"
    and ?hs = "rev (take 2 (takeWhile is_handler (rev args)))"
  have ok: "list_all is_id ?ids" "length ?ids + length ?ps + length ?hs = length args" "pc_ids c = ?ids"
    using assms by (auto simp: parse_arguments_def Let_def split: if_splits)
  obtain y where y: "drop n args = ?ps @ y"
    using take_takeWhile_prefix by blast
  obtain z where z: "rev args = take 2 (takeWhile is_handler (rev args)) @ z"
    using take_takeWhile_prefix by blast
  have front_eq: "args = (?ids @ ?ps) @ y"
    using y by (metis append.assoc append_take_drop_id)
  have back_eq: "args = rev z @ ?hs"
    using z by (metis rev_append rev_rev_ident)
  have "length y = length ?hs"
    using ok(2) arg_cong [OF front_eq, of length] unfolding length_append by linarith
  then have "y = ?hs"
    using trans [OF front_eq [symmetric] back_eq] append_eq_append_conv by blast
  moreover have "list_all is_params ?ps" "list_all is_handler ?hs"
    by (auto simp: list_all_iff dest: set_takeWhileD in_set_takeD)
  ultimately show ?thesis
    using front_eq ok(1,3)
    by (intro exI [of _ ?ps] exI [of _ ?hs]) (simp only: append_assoc length_take length_rev, simp)
qed

text \<open>Parameters given as \<open>null\<close> or \<open>undefined\<close> before a single callback are taken for a callback as
  well, so the arguments are counted twice and the call is refused.\<close>

lemma legacy_null_params_refused:
  "list_all is_id ids \<Longrightarrow>
   parse_arguments (length ids) (ids @ [NilArg, FunArg f]) = Inl (JsError ''Invalid arguments for API call'')"
proof -
  assume ids: "list_all is_id ids"
  have "takeWhile is_handler (rev (ids @ [NilArg, FunArg f])) = [FunArg f, NilArg]"
    using takeWhile_handlers_ids [OF ids] by simp
  then show ?thesis
    using ids by (simp add: parse_arguments_def Let_def)
qed

lemma legacy_missing_id:
  "call_legacy ''clientDetail'' [] = Inr \<lparr>lc_verb = ''GET'', lc_path = ''/clients/undefined'',
     lc_args = \<lparr>pc_ids = [], pc_params = [], pc_success = None, pc_error = None\<rparr>\<rparr>"
  by (simp add: call_legacy_def legacy_endpoints_def makeEndpoint_def parse_arguments_def Let_def
      path_arity_def render_path_def)

subsection \<open>Paths of the callers\<close>

fun chain_path :: "(string \<times> arg list) list \<Rightarrow> string" where
  "chain_path [] = []"
| "chain_path ((name, ids) # rest) =
     ''/'' @ name @ concat (map (\<lambda>i. ''/'' @ arg_text i) ids) @ chain_path rest"

lemma caller_chain_path:
  assumes "list_all (\<lambda>(name, ids). (name, resource name) \<in> set api_resources \<and> length ids \<le> 1) calls"
  shows "\<exists>c'. caller_chain calls c = Inr c'
    \<and> rc_path c' = rc_path c @ chain_path (map (\<lambda>(name, ids). (resource name, ids)) calls)"
  using assms
proof (induction calls arbitrary: c)
  case Nil
  then show ?case by simp
next
  case (Cons call calls)
  obtain name ids where call: "call = (name, ids)" by fastforce
  have "map_of api_resources name = Some (resource name)"
    using Cons.prems call by (intro map_of_is_SomeI) (auto simp: api_resources_def)
  then obtain c1 where "caller_chain (call # calls) c = caller_chain calls c1"
    and "rc_path c1 = rc_path c @ ''/'' @ resource name @ concat (map (\<lambda>i. ''/'' @ arg_text i) ids)"
    using Cons.prems call by (cases ids) (auto simp: subresource_def)
  then show ?case
    using Cons.IH [of c1] Cons.prems call by auto
qed

lemma caller_call_settles: "caller_call btoa parse r c meth params answers \<noteq> None"
  by (simp add: caller_call_def api_perform_def retryOn504_counts [simplified])

text \<open>The legacy client clears the alerts first, and cleans up after a failure that the caller did not
  handle.\<close>

lemma legacy_perform_clears_alerts:
  "legacy_perform btoa parse r name args handled answers = Inr es \<Longrightarrow> hd es = AlertsCleared"
  by (auto simp: legacy_perform_def api_perform_def split: sum.splits)

lemma legacy_failure_cleaned_up:
  assumes "call_legacy name args = Inr c" "answers 0 = NetError e"
    "\<not> (lc_verb c = ''GET'' \<and> failure_status e = JNum 504)" "\<not> handled e"
  shows "\<exists>es. legacy_perform btoa parse r name args handled answers = Inr es \<and> last es = CleanedUp e"
proof -
  have "rq_verb (build_request btoa r (lc_verb c) path params urlPrefix) = lc_verb c"
    for path params urlPrefix
    by (simp add: build_request_def Let_def)
  then show ?thesis
    using assms by (auto simp: legacy_perform_def api_perform_def retryOn504_one api_errorHandler_def)
qed

end
