(* ===== verification/Sources.thy ===== *)
theory Sources
  imports Errors
begin

section \<open>Client data: web/js/net/\<close>

text \<open>
  \<open>DataSource\<close>, \<open>Poller\<close>, \<open>HistoryTracker\<close>, \<open>VisibilityMonitor\<close>, \<open>SourcePool\<close> and
  \<open>SessionUpdater\<close>: the small state machines behind the pages. A callback is its number; what a
  handler does to the outside is a list of calls or a log in the state. The network, the timers
  and the document are events or arguments.
\<close>

subsection \<open>DataSource: source.js\<close>

record data_source =
  ds_hasData :: bool
  ds_didSucceed :: bool
  ds_responseArgs :: "jsval list"
  ds_successCallbacks :: "nat option list"
  ds_errorCallbacks :: "nat option list"
  ds_populated :: bool

definition newDataSource :: data_source where
  "newDataSource = \<lparr>ds_hasData = False, ds_didSucceed = False, ds_responseArgs = [],
     ds_successCallbacks = [], ds_errorCallbacks = [], ds_populated = False\<rparr>"

definition newAvailableDataSource :: "jsval list \<Rightarrow> data_source" where
  "newAvailableDataSource args =
     newDataSource\<lparr>ds_hasData := True, ds_didSucceed := True, ds_responseArgs := args\<rparr>"

datatype source_call =
    FetchStarted
  | ErrorNotified jsval
  | CallbackCalled nat "jsval list"

definition call_callback :: "jsval list \<Rightarrow> nat option \<Rightarrow> source_call list" where
  "call_callback args c = (case c of None \<Rightarrow> [] | Some k \<Rightarrow> [CallbackCalled k args])"

text \<open>\<open>_populateData\<close> is run once, whatever the number of calls.\<close>

definition populateData :: "data_source \<Rightarrow> data_source \<times> source_call list" where
  "populateData s = (if ds_populated s then (s, []) else (s\<lparr>ds_populated := True\<rparr>, [FetchStarted]))"

definition getData ::
  "nat option \<Rightarrow> nat option \<Rightarrow> data_source \<Rightarrow> data_source \<times> source_call list" where
  "getData successCallback errorCallback s =
     (if ds_hasData s
      then (s, call_callback (ds_responseArgs s)
             (if ds_didSucceed s then successCallback else errorCallback))
      else populateData
             (s\<lparr>ds_successCallbacks := ds_successCallbacks s @ [successCallback],
                ds_errorCallbacks := ds_errorCallbacks s @ [errorCallback]\<rparr>))"

definition fetchSucceeded :: "jsval list \<Rightarrow> data_source \<Rightarrow> data_source \<times> source_call list" where
  "fetchSucceeded args s =
     (s\<lparr>ds_hasData := True, ds_didSucceed := True, ds_responseArgs := args\<rparr>,
      concat (map (call_callback args) (ds_successCallbacks s)))"

definition fetchFailed :: "jsval list \<Rightarrow> data_source \<Rightarrow> data_source \<times> source_call list" where
  "fetchFailed args s =
     (s\<lparr>ds_hasData := True, ds_didSucceed := False, ds_responseArgs := args\<rparr>,
      concat (map (call_callback args) (ds_errorCallbacks s)))"

text \<open>An \<open>AsynchronousDataSource\<close> tells the error notifier first.\<close>

definition asynchronousError :: "jsval list \<Rightarrow> data_source \<Rightarrow> data_source \<times> source_call list" where
  "asynchronousError args s =
     (let (s', calls) = fetchFailed args s
      in (s', ErrorNotified (case args of [] \<Rightarrow> JUndef | a # _ \<Rightarrow> a) # calls))"

datatype source_event =
    GetData "nat option" "nat option"
  | Answered bool "jsval list"

fun source_step :: "source_event \<Rightarrow> data_source \<Rightarrow> data_source \<times> source_call list" where
  "source_step (GetData sc ec) s = getData sc ec s"
| "source_step (Answered True args) s = fetchSucceeded args s"
| "source_step (Answered False args) s = asynchronousError args s"

fun source_run :: "source_event list \<Rightarrow> data_source \<Rightarrow> data_source \<times> source_call list" where
  "source_run [] s = (s, [])"
| "source_run (e # es) s =
     (let (s1, calls) = source_step e s; (s2, calls') = source_run es s1 in (s2, calls @ calls'))"

subsection \<open>Poller: poller.js\<close>

text \<open>
  \<open>doPoll\<close> is throttled: a call of it is followed, at once or after the wait time, by a run of its
  body; \<open>pl_due\<close> says that one is owed. \<open>pl_deferred\<close> counts the calls of \<open>nextPoll\<close> that
  \<open>_.defer\<close> has put off. The log holds what left the poller.
\<close>

datatype poller_call = PollSent | Changed jsval | PollErrorReported jsval

record poller =
  pl_lastData :: jsval
  pl_isPolling :: bool
  pl_stopped :: bool
  pl_paused :: bool
  pl_due :: bool
  pl_deferred :: nat
  pl_outstanding :: nat
  pl_hasError :: bool
  pl_log :: "poller_call list"

definition nextPoll :: "poller \<Rightarrow> poller" where
  "nextPoll p = (if \<not> pl_stopped p \<and> \<not> pl_paused p then p\<lparr>pl_due := True\<rparr> else p)"

definition setPaused :: "bool \<Rightarrow> poller \<Rightarrow> poller" where
  "setPaused paused p =
     (let p' = p\<lparr>pl_paused := paused\<rparr> in if \<not> paused then nextPoll p' else p')"

text \<open>The visibility monitor calls the handler it is given at once.\<close>

definition newPoller :: "bool \<Rightarrow> bool \<Rightarrow> poller" where
  "newPoller hasError isVisible =
     setPaused (\<not> isVisible)
       \<lparr>pl_lastData = JNull, pl_isPolling = False, pl_stopped = True, pl_paused = False,
        pl_due = False, pl_deferred = 0, pl_outstanding = 0, pl_hasError = hasError, pl_log = []\<rparr>"

definition poller_start :: "poller \<Rightarrow> poller" where
  "poller_start p = nextPoll (p\<lparr>pl_stopped := False\<rparr>)"

definition poller_stop :: "poller \<Rightarrow> poller" where
  "poller_stop p = p\<lparr>pl_stopped := True\<rparr>"

text \<open>The body of \<open>doPoll\<close>, when the throttle lets it run.\<close>

definition doPoll :: "poller \<Rightarrow> poller" where
  "doPoll p =
     (let p' = p\<lparr>pl_due := False\<rparr>
      in if \<not> pl_isPolling p' \<and> \<not> pl_stopped p'
         then p'\<lparr>pl_isPolling := True, pl_outstanding := Suc (pl_outstanding p'),
                 pl_log := pl_log p' @ [PollSent]\<rparr>
         else p')"

definition pollSuccess :: "(jsval \<Rightarrow> jsval \<Rightarrow> bool) \<Rightarrow> jsval \<Rightarrow> poller \<Rightarrow> poller" where
  "pollSuccess isEqual newData p =
     (let p' = p\<lparr>pl_isPolling := False, pl_outstanding := pl_outstanding p - 1\<rparr>
      in if pl_stopped p' then p'
         else p'\<lparr>pl_log := pl_log p' @ (if isEqual newData (pl_lastData p') then [] else [Changed newData]),
                 pl_lastData := newData,
                 pl_deferred := Suc (pl_deferred p')\<rparr>)"

definition pollError :: "jsval \<Rightarrow> poller \<Rightarrow> poller" where
  "pollError err p =
     (let p' = p\<lparr>pl_isPolling := False, pl_outstanding := pl_outstanding p - 1\<rparr>
      in p'\<lparr>pl_log := pl_log p' @ (if pl_hasError p' then [PollErrorReported err] else []),
            pl_deferred := Suc (pl_deferred p')\<rparr>)"

definition deferredPoll :: "poller \<Rightarrow> poller" where
  "deferredPoll p = nextPoll (p\<lparr>pl_deferred := pl_deferred p - 1\<rparr>)"

datatype poller_event = PStart | PStop | PPause bool | PFire | PData jsval | PError jsval | PDeferred

inductive poller_step :: "(jsval \<Rightarrow> jsval \<Rightarrow> bool) \<Rightarrow> poller \<Rightarrow> poller_event \<Rightarrow> poller \<Rightarrow> bool" where
  Start: "poller_step isEqual p PStart (poller_start p)"
| Stop: "poller_step isEqual p PStop (poller_stop p)"
| Pause: "poller_step isEqual p (PPause b) (setPaused b p)"
| Fire: "pl_due p \<Longrightarrow> poller_step isEqual p PFire (doPoll p)"
| Data: "0 < pl_outstanding p \<Longrightarrow> poller_step isEqual p (PData d) (pollSuccess isEqual d p)"
| Failed: "0 < pl_outstanding p \<Longrightarrow> poller_step isEqual p (PError e) (pollError e p)"
| Deferred: "0 < pl_deferred p \<Longrightarrow> poller_step isEqual p PDeferred (deferredPoll p)"

inductive poller_trace :: "(jsval \<Rightarrow> jsval \<Rightarrow> bool) \<Rightarrow> poller \<Rightarrow> (poller \<times> poller_event) list \<Rightarrow> poller \<Rightarrow> bool" where
  TraceNil: "poller_trace isEqual p [] p"
| TraceStep: "poller_trace isEqual p tr q \<Longrightarrow> poller_step isEqual q e r \<Longrightarrow> poller_trace isEqual p (tr @ [(q, e)]) r"

code_pred poller_step .

inductive_cases poller_stepE: "poller_step isEqual p e q"

subsection \<open>HistoryTracker: history.js\<close>

text \<open>
  A state of a component is a primitive or an object; objects are compared by identity, so an object
  carries its identity beside its content, which nothing changes. The objects \<open>initialStateArgs\<close> and
  \<open>lastState\<close> are mutated in place and may become the same object: they live in a heap.
\<close>

datatype hist_val = Prim jsval | Ref nat jsval

type_synonym hist_state = "(string \<times> hist_val) list"

record history_tracker =
  ht_handlers :: "(string \<times> nat) list"
  ht_initialStateArgs :: nat
  ht_lastState :: nat
  ht_heap :: "nat \<Rightarrow> hist_state"
  ht_fresh :: nat
  ht_listeners :: nat

definition newHistoryTracker :: history_tracker where
  "newHistoryTracker = \<lparr>ht_handlers = [], ht_initialStateArgs = 0, ht_lastState = 1,
     ht_heap = (\<lambda>_. []), ht_fresh = 2, ht_listeners = 0\<rparr>"

definition initial_args :: "history_tracker \<Rightarrow> hist_state" where
  "initial_args t = ht_heap t (ht_initialStateArgs t)"

definition last_state :: "history_tracker \<Rightarrow> hist_state" where
  "last_state t = ht_heap t (ht_lastState t)"

definition hist_get :: "hist_state \<Rightarrow> string \<Rightarrow> hist_val" where
  "hist_get st k = (case map_of st k of None \<Rightarrow> Prim JUndef | Some v \<Rightarrow> v)"

definition isHandlerValid :: "string \<Rightarrow> nat \<Rightarrow> history_tracker \<Rightarrow> bool" where
  "isHandlerValid key handler t = (\<not> list_ex (\<lambda>(k, h). k = key \<or> h = handler) (ht_handlers t))"

definition heap_set :: "nat \<Rightarrow> string \<Rightarrow> hist_val \<Rightarrow> history_tracker \<Rightarrow> history_tracker" where
  "heap_set a k v t = t\<lparr>ht_heap := (ht_heap t)(a := AList.update k v (ht_heap t a))\<rparr>"

definition history_addHandler ::
  "string \<Rightarrow> nat \<Rightarrow> hist_val \<Rightarrow> history_tracker \<Rightarrow> history_tracker" where
  "history_addHandler key handler args t =
     (if isHandlerValid key handler t
      then (let t1 = (if ht_handlers t = [] then t\<lparr>ht_listeners := Suc (ht_listeners t)\<rparr> else t);
                t2 = t1\<lparr>ht_handlers := ht_handlers t1 @ [(key, handler)]\<rparr>;
                t3 = heap_set (ht_initialStateArgs t2) key args t2
            in heap_set (ht_lastState t3) key args t3)
      else t)"

text \<open>\<open>pushState\<close> gives the browser a structured clone of the extended state.\<close>

definition history_pushState :: "hist_state \<Rightarrow> history_tracker \<Rightarrow> history_tracker \<times> hist_state" where
  "history_pushState stateObj t =
     (let st = obj_extend (last_state t) stateObj
      in (t\<lparr>ht_heap := (ht_heap t)(ht_lastState t := st)\<rparr>, st))"

text \<open>The handlers called for the keys of a state whose value is not that of the seen state. A key
  without a handler raises a \<open>TypeError\<close>, which ends the loop.\<close>

fun pop_calls ::
  "(string \<times> nat) list \<Rightarrow> hist_state \<Rightarrow> hist_state \<Rightarrow> (nat \<times> hist_val) list \<times> js_error option" where
  "pop_calls handlers [] seen = ([], None)"
| "pop_calls handlers ((k, v) # rest) seen =
     (if v = hist_get seen k then pop_calls handlers rest seen
      else (case map_of handlers k of
              None \<Rightarrow> ([], Some TypeError)
            | Some h \<Rightarrow> (let (calls, err) = pop_calls handlers rest seen in ((h, v) # calls, err))))"

definition basePopHandler ::
  "hist_state option \<Rightarrow> history_tracker \<Rightarrow>
   history_tracker \<times> (nat \<times> hist_val) list \<times> js_error option" where
  "basePopHandler state t =
     (case state of
        Some st \<Rightarrow>
          (let (calls, err) = pop_calls (ht_handlers t) st (last_state t)
           in (if err = None
               then t\<lparr>ht_heap := (ht_heap t)(ht_fresh t := st), ht_lastState := ht_fresh t,
                      ht_fresh := Suc (ht_fresh t)\<rparr>
               else t, calls, err))
      | None \<Rightarrow>
          (let (calls, err) = pop_calls (ht_handlers t) (initial_args t) (last_state t)
           in (if err = None then t\<lparr>ht_lastState := ht_initialStateArgs t\<rparr> else t, calls, err)))"

subsection \<open>VisibilityMonitor: visibility.js\<close>

definition getHiddenApiNames :: "jsobj \<Rightarrow> (string \<times> string) option" where
  "getHiddenApiNames document =
     (let has = (\<lambda>k. case obj_get document k of JBool _ \<Rightarrow> True | _ \<Rightarrow> False)
      in if has ''hidden'' then Some (''hidden'', ''visibilitychange'')
         else if has ''mozHidden'' then Some (''mozHidden'', ''mozvisibilitychange'')
         else if has ''msHidden'' then Some (''msHidden'', ''msvisibilitychange'')
         else if has ''webkitHidden'' then Some (''webkitHidden'', ''webkitvisibilitychange'')
         else None)"

definition pageIsHidden :: "jsobj \<Rightarrow> bool" where
  "pageIsHidden document =
     (case getHiddenApiNames document of
        None \<Rightarrow> False
      | Some (attribute, _) \<Rightarrow> obj_get document attribute = JBool True)"

text \<open>Adding a handler calls all of them, with the visibility of the page.\<close>

definition visibility_ourHandler :: "jsobj \<Rightarrow> nat list \<Rightarrow> (nat \<times> bool) list" where
  "visibility_ourHandler document handlers = map (\<lambda>h. (h, \<not> pageIsHidden document)) handlers"

definition visibility_addHandler :: "jsobj \<Rightarrow> nat \<Rightarrow> nat list \<Rightarrow> nat list \<times> (nat \<times> bool) list" where
  "visibility_addHandler document h handlers =
     (let hs = handlers @ [h] in (hs, visibility_ourHandler document hs))"

subsection \<open>SourcePool: pool.js\<close>

text \<open>The factory is a parameter; the state it threads counts what it has made.\<close>

definition pool_get ::
  "(jsval list \<Rightarrow> js_error + string) \<Rightarrow> (jsval list \<Rightarrow> 's \<Rightarrow> jsval \<times> 's) \<Rightarrow> jsval list \<Rightarrow>
   (string \<times> jsval) list \<times> 's \<Rightarrow> (js_error + jsval) \<times> ((string \<times> jsval) list \<times> 's)" where
  "pool_get stringify factory keys st =
     (case stringify keys of
        Inl e \<Rightarrow> (Inl e, st)
      | Inr k \<Rightarrow>
          (if truthy (obj_get (fst st) k) then (Inr (obj_get (fst st) k), st)
           else (let (source, s') = factory keys (snd st)
                 in (Inr source, (AList.update k source (fst st), s')))))"

subsection \<open>SessionUpdater: session.js\<close>

text \<open>The posted parameters, and the token of the API requestor after the answer.\<close>

definition session_push_params :: "jsval \<Rightarrow> jsval \<Rightarrow> jsobj" where
  "session_push_params token clientId = [(''api_token'', token), (''client_id'', clientId)]"

definition updater_setApiToken ::
  "(jsobj \<Rightarrow> ('e, jsval) promise) \<Rightarrow> jsval \<Rightarrow> jsval \<Rightarrow> jsval \<Rightarrow> ('e, unit) promise \<times> jsval" where
  "updater_setApiToken post token clientId current =
     (case post (session_push_params token clientId) of
        Inl e \<Rightarrow> (Inl e, current)
      | Inr _ \<Rightarrow> (Inr (), token))"

definition updater_setSession ::
  "(jsobj \<Rightarrow> ('e, jsval) promise) \<Rightarrow> jsval \<Rightarrow> jsval \<Rightarrow> js_error + ('e, unit) promise \<times> jsval" where
  "updater_setSession post session current =
     (if isUndefinedOrNull (js_prop session ''api_token'') then Inl TypeError
      else Inr (updater_setApiToken post (js_prop (js_prop session ''api_token'') ''token'')
        (js_and (js_prop session ''client'') (js_prop (js_prop session ''client'') ''id'')) current))"

definition updater_pushSession ::
  "(jsobj \<Rightarrow> ('e, jsval) promise) \<Rightarrow> jsval \<Rightarrow> jsval \<Rightarrow> js_error + ('e, unit) promise \<times> jsval" where
  "updater_pushSession post session current =
     (if isUndefinedOrNull (js_prop session ''api_token'') then Inl TypeError
      else (let token = js_prop (js_prop session ''api_token'') ''token''
            in Inr (case post [(''api_token'', token), (''store_parent_state'', JBool True)] of
                 Inl e \<Rightarrow> (Inl e, current)
               | Inr _ \<Rightarrow> (Inr (), token))))"

subsection \<open>Data sources call back once, in the order of the requests\<close>

fun requests_of :: "source_event list \<Rightarrow> (nat option \<times> nat option) list" where
  "requests_of [] = []"
| "requests_of (GetData sc ec # es) = (sc, ec) # requests_of es"
| "requests_of (Answered ok args # es) = requests_of es"

definition is_get :: "source_event \<Rightarrow> bool" where
  "is_get e = (case e of GetData _ _ \<Rightarrow> True | Answered _ _ \<Rightarrow> False)"

definition notified :: "bool \<Rightarrow> jsval list \<Rightarrow> (nat option \<times> nat option) list \<Rightarrow> source_call list" where
  "notified ok args rs = concat (map (\<lambda>(sc, ec). call_callback args (if ok then sc else ec)) rs)"

lemma is_get_simps [simp]: "is_get (GetData sc ec)" "\<not> is_get (Answered ok args)"
  by (simp_all add: is_get_def)

lemma notified_simps [simp]:
  "notified ok args [] = []"
  "notified ok args ((sc, ec) # rs) = call_callback args (if ok then sc else ec) @ notified ok args rs"
  by (simp_all add: notified_def)

lemma source_run_append:
  "source_run (xs @ ys) s =
     (let (s1, calls) = source_run xs s; (s2, calls') = source_run ys s1 in (s2, calls @ calls'))"
  by (induction xs arbitrary: s) (simp_all add: Let_def split: prod.split)

text \<open>Before an answer the requests are only noted, and the fetch starts with the first.\<close>

lemma source_run_waiting:
  assumes "list_all is_get es" "\<not> ds_hasData s"
  shows "\<exists>s'. source_run es s = (s', if ds_populated s \<or> es = [] then [] else [FetchStarted])
    \<and> \<not> ds_hasData s'
    \<and> ds_successCallbacks s' = ds_successCallbacks s @ map fst (requests_of es)
    \<and> ds_errorCallbacks s' = ds_errorCallbacks s @ map snd (requests_of es)"
  using assms
proof (induction es arbitrary: s)
  case Nil
  then show ?case by simp
next
  case (Cons e es)
  obtain sc ec where e: "e = GetData sc ec"
    using Cons.prems by (cases e) auto
  obtain s1 calls where step: "source_step e s = (s1, calls)" by fastforce
  have s1: "\<not> ds_hasData s1" "ds_populated s1" "calls = (if ds_populated s then [] else [FetchStarted])"
    "ds_successCallbacks s1 = ds_successCallbacks s @ [sc]"
    "ds_errorCallbacks s1 = ds_errorCallbacks s @ [ec]"
    using step Cons.prems e by (auto simp: getData_def populateData_def split: if_splits)
  obtain s' where "source_run es s1 = (s', [])" "\<not> ds_hasData s'"
    "ds_successCallbacks s' = ds_successCallbacks s1 @ map fst (requests_of es)"
    "ds_errorCallbacks s' = ds_errorCallbacks s1 @ map snd (requests_of es)"
    using Cons.IH [of s1] Cons.prems s1 by auto
  then show ?case
    using step s1 e by simp
qed

text \<open>Once there is data every request is answered at once.\<close>

lemma source_run_available:
  assumes "list_all is_get es" "ds_hasData s"
  shows "source_run es s = (s, notified (ds_didSucceed s) (ds_responseArgs s) (requests_of es))"
  using assms
proof (induction es)
  case Nil
  then show ?case by simp
next
  case (Cons e es)
  then show ?case by (cases e) (auto simp: getData_def)
qed

lemma notified_zip:
  "notified ok args rs =
     concat (map (call_callback args) (if ok then map fst rs else map snd rs))"
  by (induction rs) (auto simp: notified_def)

lemma source_run_complete:
  assumes "list_all is_get before" "list_all is_get after" "before \<noteq> []"
  shows "snd (source_run (before @ Answered ok args # after) newDataSource) =
    FetchStarted # (if ok then [] else [ErrorNotified (case args of [] \<Rightarrow> JUndef | a # _ \<Rightarrow> a)])
    @ notified ok args (requests_of before @ requests_of after)"
proof -
  obtain s where s: "source_run before newDataSource = (s, [FetchStarted])"
    "ds_successCallbacks s = map fst (requests_of before)"
    "ds_errorCallbacks s = map snd (requests_of before)"
    using source_run_waiting [OF assms(1), of newDataSource] assms(3) by (auto simp: newDataSource_def)
  obtain s1 calls where step: "source_step (Answered ok args) s = (s1, calls)" by fastforce
  have s1: "ds_hasData s1" "ds_didSucceed s1 = ok" "ds_responseArgs s1 = args"
    using step by (cases ok; auto simp: fetchSucceeded_def fetchFailed_def asynchronousError_def)+
  have calls: "calls = (if ok then [] else [ErrorNotified (case args of [] \<Rightarrow> JUndef | a # _ \<Rightarrow> a)])
      @ notified ok args (requests_of before)"
    using step s(2,3) by (cases ok) (auto simp: fetchSucceeded_def fetchFailed_def asynchronousError_def notified_zip)
  show ?thesis
    using source_run_available [OF assms(2) s1(1)] s1 step s(1) calls
    by (simp add: source_run_append Let_def notified_def)
qed

text \<open>C12: A data source fetches once, with the first request. When its one answer comes, every request,
  made before or after it, has its callback called exactly once with the answer: the success
  callback or the error callback as the answer is, in the order of the requests; a failure is told
  to the error notifier once.\<close>

theorem data_source_calls_back_once:
  assumes "list_all is_get before" "list_all is_get after" "before \<noteq> []"
  shows "snd (source_run (before @ Answered ok args # after) newDataSource) =
    FetchStarted # (if ok then [] else [ErrorNotified (case args of [] \<Rightarrow> JUndef | a # _ \<Rightarrow> a)])
    @ notified ok args (requests_of before @ requests_of after)"
  by (rule source_run_complete [OF assms])

theorem data_source_calls_back_once_witness:
  "snd (source_run [GetData (Some 1) (Some 2), GetData None (Some 4), Answered True [JNum 7],
      GetData (Some 5) None] newDataSource)
   = [FetchStarted, CallbackCalled 1 [JNum 7], CallbackCalled 5 [JNum 7]]"
  using data_source_calls_back_once [of "[GetData (Some 1) (Some 2), GetData None (Some 4)]"
      "[GetData (Some 5) None]" True "[JNum 7]"]
  by (simp add: call_callback_def)

lemma available_source_answers_at_once:
  "list_all is_get es \<Longrightarrow>
   snd (source_run es (newAvailableDataSource args)) = notified True args (requests_of es)"
  using source_run_available [of es "newAvailableDataSource args"]
  by (simp add: newAvailableDataSource_def newDataSource_def)

subsection \<open>The poller\<close>

definition poller_inv :: "poller \<Rightarrow> bool" where
  "poller_inv p =
     (pl_outstanding p = (if pl_isPolling p then 1 else 0)
      \<and> (\<not> pl_stopped p \<and> \<not> pl_paused p \<longrightarrow> pl_isPolling p \<or> pl_due p \<or> 0 < pl_deferred p))"

lemmas poller_defs = poller_start_def poller_stop_def setPaused_def nextPoll_def doPoll_def
  pollSuccess_def pollError_def deferredPoll_def

lemma newPoller_eq:
  "newPoller hasError visible =
     \<lparr>pl_lastData = JNull, pl_isPolling = False, pl_stopped = True, pl_paused = \<not> visible,
      pl_due = False, pl_deferred = 0, pl_outstanding = 0, pl_hasError = hasError, pl_log = []\<rparr>"
  by (simp add: newPoller_def setPaused_def nextPoll_def Let_def)

lemma poller_inv_new [inv_intros]: "poller_inv (newPoller e v)"
  by (simp add: poller_inv_def newPoller_eq)

lemma poller_inv_step [inv_intros]:
  assumes "poller_step isEqual p e q" "poller_inv p"
  shows "poller_inv q"
  using assms by cases (auto simp: poller_inv_def poller_defs Let_def)

lemma poller_inv_trace [inv_intros]:
  assumes "poller_trace isEqual p tr q" "poller_inv p"
  shows "poller_inv q"
  using assms by induction (auto intro: inv_intros)

definition example_poller_events :: "poller_event list" where
  "example_poller_events = [PStart, PFire, PData (JNum 1), PDeferred, PFire, PData (JNum 1), PStop]"

text \<open>A run of the machine: events that cannot happen are skipped.\<close>

definition poller_enabled :: "poller_event \<Rightarrow> poller \<Rightarrow> bool" where
  "poller_enabled e p =
     (case e of PFire \<Rightarrow> pl_due p | PData _ \<Rightarrow> 0 < pl_outstanding p | PError _ \<Rightarrow> 0 < pl_outstanding p
      | PDeferred \<Rightarrow> 0 < pl_deferred p | _ \<Rightarrow> True)"

definition poller_apply :: "(jsval \<Rightarrow> jsval \<Rightarrow> bool) \<Rightarrow> poller_event \<Rightarrow> poller \<Rightarrow> poller" where
  "poller_apply isEqual e p =
     (case e of PStart \<Rightarrow> poller_start p | PStop \<Rightarrow> poller_stop p | PPause b \<Rightarrow> setPaused b p
      | PFire \<Rightarrow> doPoll p | PData d \<Rightarrow> pollSuccess isEqual d p | PError err \<Rightarrow> pollError err p
      | PDeferred \<Rightarrow> deferredPoll p)"

fun poller_run ::
  "(jsval \<Rightarrow> jsval \<Rightarrow> bool) \<Rightarrow> poller_event list \<Rightarrow> poller \<Rightarrow> (poller \<times> poller_event) list" where
  "poller_run isEqual [] p = []"
| "poller_run isEqual (e # es) p =
     (if poller_enabled e p then (p, e) # poller_run isEqual es (poller_apply isEqual e p)
      else poller_run isEqual es p)"

definition poller_final ::
  "(jsval \<Rightarrow> jsval \<Rightarrow> bool) \<Rightarrow> poller_event list \<Rightarrow> poller \<Rightarrow> poller" where
  "poller_final isEqual es p =
     fold (\<lambda>e q. if poller_enabled e q then poller_apply isEqual e q else q) es p"

lemma poller_step_apply: "poller_enabled e p \<Longrightarrow> poller_step isEqual p e (poller_apply isEqual e p)"
  by (cases e) (auto simp: poller_enabled_def poller_apply_def intro: poller_step.intros)

lemma poller_trace_Cons:
  "poller_trace isEqual q tr r \<Longrightarrow> poller_step isEqual p e q \<Longrightarrow> poller_trace isEqual p ((p, e) # tr) r"
proof (induction rule: poller_trace.induct)
  case (TraceNil isEqual q)
  then show ?case using poller_trace.TraceStep [OF poller_trace.TraceNil] by fastforce
next
  case (TraceStep isEqual q tr r e' r')
  then show ?case using poller_trace.TraceStep [of isEqual p "(p, e) # tr" r e' r'] by simp
qed

lemma poller_trace_run: "poller_trace isEqual p (poller_run isEqual es p) (poller_final isEqual es p)"
  by (induction es arbitrary: p)
    (auto simp: poller_final_def intro: poller_trace.TraceNil poller_trace_Cons poller_step_apply)

text \<open>C13: From its creation on, whatever happens, a poller has at most one poll under way and knows
  it; and while it is started and not paused it never stalls: a poll is under way, or one is due, or
  a deferred call of \<open>nextPoll\<close> is still to come.\<close>

theorem poller_single_and_live:
  assumes "poller_trace isEqual (newPoller hasError visible) tr p"
  shows "pl_outstanding p = (if pl_isPolling p then 1 else 0)
    \<and> (pl_stopped p \<or> pl_paused p \<or> 0 < pl_outstanding p \<or> pl_due p \<or> 0 < pl_deferred p)"
  using poller_inv_trace [OF assms poller_inv_new] by (auto simp: poller_inv_def)

definition example_equal :: "jsval \<Rightarrow> jsval \<Rightarrow> bool" where
  "example_equal a b = (a = b)"

definition example_poller :: poller where
  "example_poller = poller_final example_equal example_poller_events (newPoller True True)"

lemmas poller_example_simps = example_poller_def poller_final_def example_poller_events_def newPoller_eq
  poller_enabled_def poller_apply_def poller_defs example_equal_def

theorem poller_single_and_live_witness:
  "pl_outstanding example_poller = 0 \<and> pl_log example_poller = [PollSent, Changed (JNum 1), PollSent]"
  using poller_single_and_live [OF poller_trace_run [of example_equal "newPoller True True" example_poller_events]]
  by (simp add: poller_example_simps)

text \<open>The data a poller was given while it was not stopped.\<close>

definition accepted :: "poller \<times> poller_event \<Rightarrow> jsval list" where
  "accepted qe = (case snd qe of PData d \<Rightarrow> if pl_stopped (fst qe) then [] else [d] | _ \<Rightarrow> [])"

definition accepted_data :: "(poller \<times> poller_event) list \<Rightarrow> jsval list" where
  "accepted_data tr = concat (map accepted tr)"

fun changes_from :: "(jsval \<Rightarrow> jsval \<Rightarrow> bool) \<Rightarrow> jsval \<Rightarrow> jsval list \<Rightarrow> jsval list" where
  "changes_from isEqual prev [] = []"
| "changes_from isEqual prev (d # ds) = (if isEqual d prev then [] else [d]) @ changes_from isEqual d ds"

definition reported_changes :: "poller \<Rightarrow> jsval list" where
  "reported_changes p =
     concat (map (\<lambda>c. case c of Changed d \<Rightarrow> [d] | _ \<Rightarrow> []) (pl_log p))"

lemma changes_from_snoc:
  "changes_from isEqual prev (ds @ [d]) =
     changes_from isEqual prev ds @ (if isEqual d (last (prev # ds)) then [] else [d])"
  by (induction ds arbitrary: prev) auto

lemma changes_from_remdups_adj: "changes_from (=) prev ds = tl (remdups_adj (prev # ds))"
  by (induction ds arbitrary: prev) (auto simp: remdups_adj_Cons' split: list.split)

lemma poller_trace_changes:
  assumes "poller_trace isEqual p tr q" "pl_log p = []"
  shows "reported_changes q = changes_from isEqual (pl_lastData p) (accepted_data tr)
    \<and> pl_lastData q = last (pl_lastData p # accepted_data tr)"
  using assms
proof (induction rule: poller_trace.induct)
  case (TraceNil isEqual p)
  then show ?case by (simp add: reported_changes_def accepted_data_def)
next
  case (TraceStep isEqual p tr q e r)
  note IH = TraceStep.IH [OF TraceStep.prems]
  from TraceStep.hyps(2) have
    "reported_changes r = reported_changes q @
       (case accepted (q, e) of d # _ \<Rightarrow> if isEqual d (pl_lastData q) then [] else [d] | [] \<Rightarrow> [])
     \<and> pl_lastData r = (case accepted (q, e) of d # _ \<Rightarrow> d | [] \<Rightarrow> pl_lastData q)"
    by cases (auto simp: reported_changes_def accepted_def poller_defs Let_def)
  moreover have "accepted (q, e) = [] \<or> (\<exists>d. accepted (q, e) = [d])"
    by (simp add: accepted_def split: poller_event.split)
  ultimately show ?case
    using IH by (auto simp: accepted_data_def changes_from_snoc)
qed

text \<open>A poller reports exactly the changes: the data it was given while it was not stopped, each
  one only when it is not equal to the one before it (the first, when it is not equal to
  \<open>null\<close>).\<close>

theorem poller_reports_changes:
  assumes "poller_trace isEqual (newPoller hasError visible) tr p"
  shows "reported_changes p = changes_from isEqual JNull (accepted_data tr)"
  using poller_trace_changes [OF assms] by (simp add: newPoller_eq)

theorem poller_reports_changes_witness: "reported_changes example_poller = [JNum 1]"
  using poller_reports_changes [OF poller_trace_run [of example_equal "newPoller True True" example_poller_events]]
  by (simp add: poller_example_simps accepted_data_def accepted_def)

text \<open>A poll that fails after the poller was stopped is still reported, and one owed by the throttle
  is sent even when the poller has been paused: two things its comments rule out.\<close>

lemma poller_error_while_stopped:
  "pl_log (poller_final (=) [PStart, PFire, PStop, PError (JNum 0)] (newPoller True True))
     = [PollSent, PollErrorReported (JNum 0)]"
  by (simp add: poller_final_def newPoller_eq poller_enabled_def poller_apply_def poller_defs)

lemma poller_polls_while_paused:
  "pl_log (poller_final (=) [PStart, PPause True, PFire] (newPoller True True)) = [PollSent]"
  by (simp add: poller_final_def newPoller_eq poller_enabled_def poller_apply_def poller_defs)

subsection \<open>Going back and forth\<close>

text \<open>What the handlers were last told. A tracker is in step with it when, for every component, that is
  the last state.\<close>

definition told :: "(nat \<times> hist_val) list \<Rightarrow> (nat \<Rightarrow> hist_val) \<Rightarrow> nat \<Rightarrow> hist_val" where
  "told calls view = fold (\<lambda>(h, v) w. w(h := v)) calls view"

definition in_step :: "history_tracker \<Rightarrow> (nat \<Rightarrow> hist_val) \<Rightarrow> bool" where
  "in_step t view = (\<forall>(k, h)\<in>set (ht_handlers t). view h = hist_get (last_state t) k)"

definition wf_history :: "history_tracker \<Rightarrow> bool" where
  "wf_history t =
     (distinct (map fst (ht_handlers t)) \<and> distinct (map snd (ht_handlers t))
      \<and> ht_initialStateArgs t < ht_fresh t \<and> ht_lastState t < ht_fresh t)"

lemma hist_get_update [simp]:
  "hist_get (AList.update k v st) k' = (if k' = k then v else hist_get st k')"
  by (simp add: hist_get_def update_conv')

lemma hist_get_Cons [simp]: "hist_get ((k', v) # st) k = (if k = k' then v else hist_get st k)"
  by (simp add: hist_get_def)

lemma told_Nil [simp]: "told [] view = view"
  and told_Cons [simp]: "told ((h, v) # calls) view = told calls (view(h := v))"
  by (simp_all add: told_def)

lemma told_other: "h \<notin> fst ` set calls \<Longrightarrow> told calls view h = view h"
  by (induction calls arbitrary: view) auto

lemma pop_calls_handlers:
  "pop_calls handlers st seen = (calls, err) \<Longrightarrow>
   \<forall>h\<in>fst ` set calls. \<exists>k. map_of handlers k = Some h \<and> k \<in> fst ` set st"
proof (induction handlers st seen arbitrary: calls rule: pop_calls.induct)
  case (1 handlers seen)
  then show ?case by simp
next
  case (2 handlers k v rest seen)
  show ?case
  proof (cases "v = hist_get seen k")
    case True
    then show ?thesis using "2.IH"(1) [OF True, of calls] "2.prems" by auto
  next
    case False
    show ?thesis
    proof (cases "map_of handlers k")
      case None
      then show ?thesis using "2.prems" False by simp
    next
      case (Some h)
      then obtain cs where cs: "pop_calls handlers rest seen = (cs, err)" "calls = (h, v) # cs"
        using "2.prems" False by (auto split: prod.splits)
      then show ?thesis using "2.IH"(2) [OF False Some cs(1)] Some by auto
    qed
  qed
qed

lemma pop_calls_tell:
  assumes "pop_calls handlers st seen = (calls, None)" "distinct (map fst st)"
    "distinct (map snd handlers)" "map_of handlers k = Some h" "k \<in> fst ` set st"
    "view h = hist_get seen k"
  shows "told calls view h = hist_get st k"
  using assms
proof (induction handlers st seen arbitrary: calls view rule: pop_calls.induct)
  case (1 handlers seen)
  then show ?case by simp
next
  case (2 handlers k' v rest seen)
  show ?case
  proof (cases "k = k'")
    case here: True
    then have notin: "k \<notin> fst ` set rest" using "2.prems"(2) by auto
    have other: "h \<notin> fst ` set cs" if cs: "pop_calls handlers rest seen = (cs, None)" for cs
    proof
      assume "h \<in> fst ` set cs"
      then obtain k2 where k2: "map_of handlers k2 = Some h" "k2 \<in> fst ` set rest"
        using pop_calls_handlers [OF cs] by blast
      have "k2 = k"
        using k2(1) "2.prems"(4) "2.prems"(3)
        by (metis distinct_map inj_onD map_of_SomeD prod.inject snd_conv)
      then show False using k2(2) notin by simp
    qed
    show ?thesis
    proof (cases "v = hist_get seen k'")
      case True
      then have "pop_calls handlers rest seen = (calls, None)" using "2.prems"(1) by simp
      then show ?thesis
        using told_other [OF other] "2.prems"(6) True here by simp
    next
      case False
      then obtain cs where cs: "pop_calls handlers rest seen = (cs, None)" "calls = (h, v) # cs"
        using "2.prems"(1,4) here by (auto split: prod.splits)
      then show ?thesis
        using told_other [OF other [OF cs(1)]] here by simp
    qed
  next
    case elsewhere: False
    then have k: "k \<in> fst ` set rest" using "2.prems"(5) by auto
    show ?thesis
    proof (cases "v = hist_get seen k'")
      case True
      then show ?thesis using "2.IH"(1) [of calls view] "2.prems" k elsewhere by simp
    next
      case False
      then obtain h' cs where cs: "map_of handlers k' = Some h'"
        "pop_calls handlers rest seen = (cs, None)" "calls = (h', v) # cs"
        using "2.prems"(1) by (auto split: prod.splits option.splits)
      have "h' \<noteq> h"
        using cs(1) "2.prems"(3,4) elsewhere
        by (metis distinct_map inj_onD map_of_SomeD prod.inject snd_conv)
      then show ?thesis
        using "2.IH"(2) [OF False cs(1) cs(2), of "view(h' := v)"] "2.prems" k elsewhere cs(3)
        by (simp del: fun_upd_apply add: fun_upd_other)
    qed
  qed
qed

lemma pop_calls_ok:
  "fst ` set st \<subseteq> fst ` set handlers \<Longrightarrow> snd (pop_calls handlers st seen) = None"
proof (induction handlers st seen rule: pop_calls.induct)
  case (1 handlers seen)
  then show ?case by simp
next
  case (2 handlers k v rest seen)
  moreover have "map_of handlers k \<noteq> None"
    using "2.prems" by (auto simp: map_of_eq_None_iff)
  ultimately show ?case by (auto split: prod.splits)
qed

lemma pop_calls_same: "(\<forall>(k, v)\<in>set st. v = hist_get seen k) \<Longrightarrow> pop_calls handlers st seen = ([], None)"
  by (induction handlers st seen rule: pop_calls.induct) auto

text \<open>Registering a component and pushing a state keep a tracker in step.\<close>

lemma in_step_addHandler:
  assumes "wf_history t" "in_step t view" "isHandlerValid key handler t"
  shows "in_step (history_addHandler key handler v t) (view(handler := v))
    \<and> wf_history (history_addHandler key handler v t)"
  using assms
  by (auto simp: in_step_def wf_history_def history_addHandler_def isHandlerValid_def heap_set_def
      last_state_def Let_def list_ex_iff)

lemma in_step_pop:
  assumes "wf_history t" "in_step t view" "distinct (map fst st)"
    "fst ` set st = fst ` set (ht_handlers t)"
    "pop_calls (ht_handlers t) st (last_state t) = (calls, None)"
    "(k, h) \<in> set (ht_handlers t)"
  shows "told calls view h = hist_get st k"
proof (rule pop_calls_tell [OF assms(5,3)])
  show "map_of (ht_handlers t) k = Some h"
    using assms(1,6) by (simp add: wf_history_def)
  show "k \<in> fst ` set st" using assms(4,6) by force
qed (use assms in \<open>auto simp: wf_history_def in_step_def\<close>)

lemma basePopHandler_Some:
  assumes "wf_history t" "in_step t view" "distinct (map fst st)"
    "fst ` set st = fst ` set (ht_handlers t)"
  shows "\<exists>t' calls. basePopHandler (Some st) t = (t', calls, None)
    \<and> last_state t' = st \<and> in_step t' (told calls view) \<and> wf_history t'"
proof -
  obtain calls where calls: "pop_calls (ht_handlers t) st (last_state t) = (calls, None)"
    using pop_calls_ok [of st "ht_handlers t" "last_state t"] assms(4) by (metis order_refl prod.collapse)
  let ?t = "t\<lparr>ht_heap := (ht_heap t)(ht_fresh t := st), ht_lastState := ht_fresh t,
    ht_fresh := Suc (ht_fresh t)\<rparr>"
  have "basePopHandler (Some st) t = (?t, calls, None)"
    by (simp add: basePopHandler_def calls)
  moreover have "in_step ?t (told calls view)" "wf_history ?t" "last_state ?t = st"
    using in_step_pop [OF assms calls] assms(1)
    by (auto simp: last_state_def in_step_def wf_history_def)
  ultimately show ?thesis by blast
qed

lemma basePopHandler_None:
  assumes "wf_history t" "in_step t view" "distinct (map fst (initial_args t))"
    "fst ` set (initial_args t) = fst ` set (ht_handlers t)"
  shows "\<exists>t' calls. basePopHandler None t = (t', calls, None)
    \<and> last_state t' = initial_args t \<and> in_step t' (told calls view) \<and> wf_history t'"
proof -
  obtain calls where calls: "pop_calls (ht_handlers t) (initial_args t) (last_state t) = (calls, None)"
    using pop_calls_ok [of "initial_args t" "ht_handlers t" "last_state t"] assms(4)
    by (metis order_refl prod.collapse)
  let ?t = "t\<lparr>ht_lastState := ht_initialStateArgs t\<rparr>"
  have "basePopHandler None t = (?t, calls, None)"
    by (simp add: basePopHandler_def calls)
  moreover have "in_step ?t (told calls view)" "wf_history ?t" "last_state ?t = initial_args t"
    using in_step_pop [OF assms calls] assms(1)
    by (auto simp: last_state_def initial_args_def in_step_def wf_history_def)
  ultimately show ?thesis by blast
qed

text \<open>When the browser goes to an entry that was pushed with a state for every component, each
  component has then been told its state of that entry; so it is when it goes to the initial entry,
  with the initial states the tracker holds.\<close>

theorem history_pop_restores:
  assumes "wf_history t" "in_step t view"
    "distinct (map fst (case entry of Some st \<Rightarrow> st | None \<Rightarrow> initial_args t))"
    "fst ` set (case entry of Some st \<Rightarrow> st | None \<Rightarrow> initial_args t) = fst ` set (ht_handlers t)"
  shows "\<exists>t' calls. basePopHandler entry t = (t', calls, None)
    \<and> last_state t' = (case entry of Some st \<Rightarrow> st | None \<Rightarrow> initial_args t)
    \<and> (\<forall>(k, h)\<in>set (ht_handlers t'). told calls view h = hist_get (last_state t') k)"
  using basePopHandler_Some [of t view] basePopHandler_None [of t view] assms
  by (cases entry) (simp_all add: in_step_def [symmetric], blast+)

definition example_tracker :: history_tracker where
  "example_tracker = history_addHandler ''page'' 5 (Prim (JNum 0)) newHistoryTracker"

definition page_state :: "rat \<Rightarrow> hist_state" where
  "page_state n = [(''page'', Prim (JNum n))]"

lemmas history_example_simps = example_tracker_def page_state_def history_addHandler_def newHistoryTracker_def
  isHandlerValid_def heap_set_def initial_args_def last_state_def wf_history_def in_step_def
  history_pushState_def basePopHandler_def hist_get_def Let_def

theorem history_pop_restores_witness:
  "told (fst (snd (basePopHandler None (fst (history_pushState (page_state 3) example_tracker)))))
     (\<lambda>_. Prim (JNum 3)) 5 = Prim (JNum 0)"
  using history_pop_restores [of "fst (history_pushState (page_state 3) example_tracker)"
      "\<lambda>_. Prim (JNum 3)" None]
  by (simp add: history_example_simps)

text \<open>Going to the initial entry makes \<open>lastState\<close> the very object \<open>initialStateArgs\<close>, so the next push
  overwrites the initial states.\<close>

lemma initial_entry_aliases:
  "basePopHandler None t = (t', calls, None) \<Longrightarrow> ht_lastState t' = ht_initialStateArgs t'"
  by (auto simp: basePopHandler_def Let_def split: prod.splits if_splits)

lemma pop_calls_self: "distinct (map fst st) \<Longrightarrow> pop_calls handlers st st = ([], None)"
  by (intro pop_calls_same) (auto simp: hist_get_def)

text \<open>After the browser has once gone back to the initial entry, a state pushed from there is taken
  for the initial one: going back again calls no handler, whatever was pushed, and the components
  stay as they are.\<close>

theorem history_second_back_is_lost:
  assumes "basePopHandler None t = (t', calls, None)" "distinct (map fst (initial_args t'))"
  shows "fst (snd (basePopHandler None (fst (history_pushState st t')))) = []
    \<and> initial_args (fst (history_pushState st t')) = obj_extend (initial_args t') st"
  using initial_entry_aliases [OF assms(1)]
    pop_calls_self [OF distinct_obj_extend [OF assms(2), of st], of "ht_handlers t'"]
  by (simp add: basePopHandler_def history_pushState_def initial_args_def last_state_def Let_def)

theorem history_second_back_is_lost_witness:
  "(let t1 = fst (history_pushState (page_state 3) example_tracker);
        t2 = fst (basePopHandler None t1);
        t3 = fst (history_pushState (page_state 4) t2)
    in fst (snd (basePopHandler None t1)) = [(5, Prim (JNum 0))]
       \<and> fst (snd (basePopHandler None t3)) = [])"
proof -
  let ?t1 = "fst (history_pushState (page_state 3) example_tracker)"
  have first: "basePopHandler None ?t1 = (fst (basePopHandler None ?t1), [(5, Prim (JNum 0))], None)"
    by (simp add: history_example_simps)
  have "distinct (map fst (initial_args (fst (basePopHandler None ?t1))))"
    by (simp add: history_example_simps)
  note second = history_second_back_is_lost [OF first this, of "page_state 4"]
  have "fst (snd (basePopHandler None ?t1)) = [(5, Prim (JNum 0))]"
    using first by (metis fst_conv snd_conv)
  then show ?thesis
    unfolding Let_def using second by blast
qed

subsection \<open>Pools, visibility, session updates\<close>

lemma pool_get_twice:
  assumes "pool_get stringify factory keys st = (Inr source, st')" "truthy source"
  shows "pool_get stringify factory keys st' = (Inr source, st')"
  using assms by (auto simp: pool_get_def split: sum.splits if_splits prod.splits)

lemma pool_get_other:
  assumes "pool_get stringify factory keys st = (Inr source, st')" "stringify keys = Inr k" "k' \<noteq> k"
  shows "obj_get (fst st') k' = obj_get (fst st) k'"
  using assms by (auto simp: pool_get_def split: if_splits prod.splits)

lemma pageIsHidden_iff:
  "pageIsHidden document \<longleftrightarrow>
     (\<exists>attribute ev. getHiddenApiNames document = Some (attribute, ev)
        \<and> obj_get document attribute = JBool True)"
  by (auto simp: pageIsHidden_def split: option.split)

lemma updater_token:
  "updater_setApiToken post token clientId current =
     (r, if isl (post (session_push_params token clientId)) then current else token)
   \<longleftrightarrow> r = fst (updater_setApiToken post token clientId current)"
  by (auto simp: updater_setApiToken_def split: sum.split)

end
