(* ===== verification/Users.thy ===== *)
theory Users
  imports Errors "HOL-Library.List_Lexorder" "HOL-Library.Multiset"
begin

section \<open>Users of an organization: web/js/user/, web/js/pages/organization/\<close>

text \<open>
  Who may see the pages of an organization, and the page on which its users are managed: the
  relations of the users to it, which the page keeps and mutates, the editor of their permissions,
  the dialogs that invite, and the table that lists them. The API is a parameter; what it answers
  is an argument of the operation that waits for it.
\<close>

subsection \<open>Roles and addresses: roles.js, helpers.js, email.js, password.js\<close>

record permission_flags =
  pf_is_owner :: bool
  pf_can_admin :: bool
  pf_can_write :: bool
  pf_can_read :: bool

definition clientPermissionsDisplayText :: "permission_flags \<Rightarrow> js_error + string" where
  "clientPermissionsDisplayText p =
     (if pf_is_owner p then Inr ''Owner''
      else if pf_can_admin p then Inr ''Admin''
      else if pf_can_write p then Inr ''Write''
      else if pf_can_read p then Inr ''Read''
      else Inl (JsError ''Unexpected permission type in state [object Object]''))"

definition getInviteRoleFromPermission :: "permission_flags \<Rightarrow> string" where
  "getInviteRoleFromPermission p =
     (if pf_can_admin p \<and> pf_can_write p \<and> pf_can_read p then ''admin''
      else if pf_can_write p \<and> pf_can_read p then ''user''
      else if pf_can_read p then ''read-only''
      else ''uninvited'')"

definition InviteRolesDisplayText :: "(string \<times> string) list" where
  "InviteRolesDisplayText = [(''admin'', ''Admin''), (''user'', ''Write''), (''read-only'', ''Read'')]"

definition getInviteRoleDisplayText :: "string \<Rightarrow> js_error + string" where
  "getInviteRoleDisplayText role =
     (case map_of InviteRolesDisplayText role of
        Some t \<Rightarrow> Inr t
      | None \<Rightarrow> Inl (JsError (''Unexpected invite type in state '' @ role)))"

definition last_index :: "char \<Rightarrow> string \<Rightarrow> int" where
  "last_index c s =
     (if c \<in> set s then int (length s) - 1 - int (length (takeWhile (\<lambda>d. d \<noteq> c) (rev s))) else - 1)"

definition first_index :: "char \<Rightarrow> string \<Rightarrow> int" where
  "first_index c s = (if c \<in> set s then int (length (takeWhile (\<lambda>d. d \<noteq> c) s)) else - 1)"

definition extractDomainFromEmail :: "string \<Rightarrow> string" where
  "extractDomainFromEmail email = drop (nat (last_index CHR ''@'' email + 1)) email"

text \<open>\<open>substr\<close> with a length below zero gives nothing.\<close>

definition extractLocalPartFromEmail :: "string \<Rightarrow> string" where
  "extractLocalPartFromEmail email = take (nat (first_index CHR ''@'' email)) email"

definition concatenateLocalPartAndDomain :: "string \<Rightarrow> string \<Rightarrow> string" where
  "concatenateLocalPartAndDomain localPart domain = localPart @ ''@'' @ domain"

text \<open>The checks of a new password, and whether all of them pass.\<close>

definition longEnough :: "string \<Rightarrow> bool" where
  "longEnough s = (8 \<le> length s)"

definition in_range :: "char \<Rightarrow> char \<Rightarrow> char \<Rightarrow> bool" where
  "in_range a b c = ((of_char a :: nat) \<le> of_char c \<and> (of_char c :: nat) \<le> of_char b)"

definition hasLowercase :: "string \<Rightarrow> bool" where
  "hasLowercase s = list_ex (in_range CHR ''a'' CHR ''z'') s"

definition hasUppercase :: "string \<Rightarrow> bool" where
  "hasUppercase s = list_ex (in_range CHR ''A'' CHR ''Z'') s"

definition hasDigit :: "string \<Rightarrow> bool" where
  "hasDigit s = list_ex (in_range CHR ''0'' CHR ''9'') s"

definition hasSpecial :: "string \<Rightarrow> bool" where
  "hasSpecial s =
     list_ex (\<lambda>c. \<not> in_range CHR ''a'' CHR ''z'' c \<and> \<not> in_range CHR ''A'' CHR ''Z'' c
       \<and> \<not> in_range CHR ''0'' CHR ''9'' c) s"

definition password_checks :: "string \<Rightarrow> bool list" where
  "password_checks s = [longEnough s, hasLowercase s, hasUppercase s, hasDigit s, hasSpecial s]"

definition validPassword :: "string \<Rightarrow> bool" where
  "validPassword s = list_all id (password_checks s)"

subsection \<open>Who sees the pages of an organization: server/endpoint.js\<close>

record org_membership =
  om_organization :: string
  om_type :: string

record org_permission =
  op_client :: string
  op_organization :: string
  op_can_admin :: bool

record org_request =
  or_userId :: jsval
  or_clientId :: jsval
  or_matchedOrganization :: jsval
  or_path :: string

text \<open>What the API answers to the calls of the endpoint; a promise is settled.\<close>

record org_api =
  oa_client :: "jsval \<Rightarrow> (failure, jsval) promise"
  oa_organization :: "jsval \<Rightarrow> (failure, jsval) promise"
  oa_permissions :: "(failure, org_permission list) promise"
  oa_memberships :: "(failure, org_membership list) promise"
  oa_clients :: "(failure, string list) promise"
  oa_admin_permissions :: "(failure, org_permission list) promise"

definition rejectNotFound :: "org_request \<Rightarrow> (failure, 'a) promise" where
  "rejectNotFound req =
     Inl (Http (NotFoundError NotFoundErrorClass (JObj [(''path'', JStr (or_path req))]) False))"

definition fetchOrganizationById :: "org_api \<Rightarrow> jsval \<Rightarrow> (failure, jsval) promise" where
  "fetchOrganizationById api organizationId =
     (if truthy organizationId then oa_organization api organizationId else Inr JNull)"

text \<open>The code takes the answer apart as a list, \<open>[client]\<close>; an object is not iterable.\<close>

definition first_of_list :: "jsval \<Rightarrow> (failure, jsval) promise" where
  "first_of_list v =
     (case v of
        JArr [] \<Rightarrow> Inr JUndef
      | JArr (x # _) \<Rightarrow> Inr x
      | JStr [] \<Rightarrow> Inr JUndef
      | JStr (c # _) \<Rightarrow> Inr (JStr [c])
      | _ \<Rightarrow> Inl (Thrown TypeError))"

definition fetchOrganization :: "org_api \<Rightarrow> org_request \<Rightarrow> (failure, jsval) promise" where
  "fetchOrganization api req =
     (if truthy (or_matchedOrganization req) then Inr (or_matchedOrganization req)
      else if truthy (or_clientId req)
      then promise_then
             (promise_then (promise_then (oa_client api (or_clientId req)) first_of_list)
               (\<lambda>client. if truthy client then Inr (js_prop client ''organization'')
                         else rejectNotFound req))
             (fetchOrganizationById api)
      else rejectNotFound req)"

record org_page_params =
  og_organization :: jsval
  og_canSeeExperimentsPage :: bool

text \<open>
  \<open>Promise.all\<close> of several failures gives the first in time; here it is the first in order.
  \<open>superParams\<close> is what \<open>getParams\<close> of the base class settles to.
\<close>

definition orgAdmin_getParams ::
  "org_api \<Rightarrow> bool \<Rightarrow> (failure, 'p) promise \<Rightarrow> org_request \<Rightarrow> (failure, org_page_params \<times> 'p) promise" where
  "orgAdmin_getParams api ownerOnly superParams req =
     (if \<not> truthy (or_userId req) then rejectNotFound req
      else promise_then (fetchOrganization api req) (\<lambda>organization.
        promise_then (oa_permissions api) (\<lambda>userPermissions.
          promise_then (oa_memberships api) (\<lambda>userMemberships.
            if isUndefinedOrNull organization then Inl (Thrown TypeError)
            else
              (let orgId = js_prop organization ''id'';
                   currentMembership = List.find (\<lambda>m. JStr (om_organization m) = orgId) userMemberships;
                   currentPermissions = filter (\<lambda>p. JStr (op_organization p) = orgId) userPermissions;
                   isMember = currentMembership \<noteq> None;
                   isOwner = (case currentMembership of None \<Rightarrow> False | Some m \<Rightarrow> om_type m = ''owner'');
                   isAdmin = (isMember \<and> list_ex op_can_admin currentPermissions);
                   canSeePage = (isOwner \<or> (isAdmin \<and> \<not> ownerOnly))
               in if canSeePage
                  then promise_then superParams (\<lambda>sp.
                    Inr (\<lparr>og_organization = organization, og_canSeeExperimentsPage = isOwner\<rparr>, sp))
                  else rejectNotFound req)))))"

text \<open>The clients an administrator sees: all of the organization, or, when that is forbidden, those
  the user can administer.\<close>

definition fetchUserAdminClients :: "org_api \<Rightarrow> (failure, string list) promise" where
  "fetchUserAdminClients api =
     promise_catch (oa_clients api) (\<lambda>err.
       if status_in [403, 403] err
       then promise_then (oa_admin_permissions api)
              (\<lambda>ps. Inr (map op_client (filter op_can_admin ps)))
       else Inl err)"

subsection \<open>The relations of users: users/page.js\<close>

record pending_permission =
  pp_client :: string
  pp_client_name :: string
  pp_email :: string
  pp_role :: string

record org_invite =
  iv_email :: string
  iv_membership_type :: string
  iv_pending_permissions :: "pending_permission list"

record org_member =
  mb_user_id :: string
  mb_user_name :: string
  mb_user_email :: string
  mb_type :: string

record user_relation =
  ur_email :: string
  ur_invite :: "org_invite option"
  ur_membership :: "org_member option"
  ur_owner :: bool
  ur_permissionMap :: "(string \<times> pending_permission) list"
  ur_fresh :: bool

definition indexBy :: "('a \<Rightarrow> string) \<Rightarrow> 'a list \<Rightarrow> (string \<times> 'a) list" where
  "indexBy key xs = obj_extend [] (map (\<lambda>x. (key x, x)) xs)"

definition createInviteRelation :: "org_invite \<Rightarrow> user_relation" where
  "createInviteRelation invite =
     \<lparr>ur_email = iv_email invite, ur_invite = Some invite, ur_membership = None,
      ur_owner = (iv_membership_type invite = ''owner''),
      ur_permissionMap = indexBy pp_client (iv_pending_permissions invite), ur_fresh = False\<rparr>"

definition createMembershipRelation :: "pending_permission list \<Rightarrow> org_member \<Rightarrow> user_relation" where
  "createMembershipRelation permissions membership =
     (let owner = (mb_type membership = ''owner'')
      in \<lparr>ur_email = mb_user_email membership, ur_invite = None, ur_membership = Some membership,
          ur_owner = owner,
          ur_permissionMap =
            (if owner then []
             else indexBy pp_client (filter (\<lambda>p. pp_email p = mb_user_email membership) permissions)),
          ur_fresh = False\<rparr>)"

text \<open>
  The state of the page is a map from addresses of mail to relations; the relations are objects that
  some operations change in place, so they live in a heap.
\<close>

record users_page =
  up_map :: "(string \<times> nat) list"
  up_heap :: "nat \<Rightarrow> user_relation"
  up_fresh :: nat
  up_reloads :: nat
  up_alerts :: "string list"

definition blank_relation :: user_relation where
  "blank_relation = \<lparr>ur_email = [], ur_invite = None, ur_membership = None, ur_owner = False,
     ur_permissionMap = [], ur_fresh = False\<rparr>"

definition users_page_init ::
  "org_invite list \<Rightarrow> org_member list \<Rightarrow> pending_permission list \<Rightarrow> users_page" where
  "users_page_init invites memberships permissions =
     (let relations = map createInviteRelation invites
            @ map (createMembershipRelation permissions) memberships
      in \<lparr>up_map = obj_extend [] (zip (map ur_email relations) [0..<length relations]),
          up_heap = (\<lambda>a. if a < length relations then relations ! a else blank_relation),
          up_fresh = length relations, up_reloads = 0, up_alerts = []\<rparr>)"

definition relation_of :: "users_page \<Rightarrow> string \<Rightarrow> user_relation option" where
  "relation_of s email = map_option (up_heap s) (map_of (up_map s) email)"

definition refreshPages :: "users_page \<Rightarrow> users_page" where
  "refreshPages s = s\<lparr>up_reloads := Suc (up_reloads s)\<rparr>"

text \<open>
  The updater given to \<open>setState\<close> builds a new map but returns nothing, so the state keeps its map;
  a relation that is in it has been changed in place, a new one is lost.
\<close>

definition fresh_relation :: "string \<Rightarrow> user_relation" where
  "fresh_relation email =
     \<lparr>ur_email = email,
      ur_invite = Some \<lparr>iv_email = email, iv_membership_type = ''member'', iv_pending_permissions = []\<rparr>,
      ur_membership = None, ur_owner = False, ur_permissionMap = [], ur_fresh = True\<rparr>"

definition modifyUserPermissions ::
  "string \<Rightarrow> ((string \<times> pending_permission) list \<Rightarrow> (string \<times> pending_permission) list) \<Rightarrow>
   users_page \<Rightarrow> users_page" where
  "modifyUserPermissions email updater s =
     refreshPages
       (case map_of (up_map s) email of
          Some a \<Rightarrow>
            s\<lparr>up_heap := (up_heap s)(a := (up_heap s a)
                \<lparr>ur_permissionMap := updater (ur_permissionMap (up_heap s a))\<rparr>)\<rparr>
        | None \<Rightarrow>
            s\<lparr>up_heap := (up_heap s)(up_fresh s := (fresh_relation email)\<lparr>ur_permissionMap := updater []\<rparr>),
              up_fresh := Suc (up_fresh s)\<rparr>)"

definition upsertPermission :: "pending_permission \<Rightarrow> users_page \<Rightarrow> users_page" where
  "upsertPermission permission =
     modifyUserPermissions (pp_email permission) (AList.update (pp_client permission) permission)"

definition deletePermission :: "string \<Rightarrow> string \<Rightarrow> users_page \<Rightarrow> users_page" where
  "deletePermission clientId email = modifyUserPermissions email (AList.delete clientId)"

definition onInviteCreate ::
  "string \<Rightarrow> (failure, org_invite) promise \<Rightarrow> users_page \<Rightarrow> users_page \<times> (failure, org_invite) promise" where
  "onInviteCreate email answer s =
     (case answer of
        Inl e \<Rightarrow> (s, Inl e)
      | Inr invite \<Rightarrow>
          (refreshPages
             (s\<lparr>up_map := AList.update email (up_fresh s) (up_map s),
                up_heap := (up_heap s)(up_fresh s := (createInviteRelation invite)\<lparr>ur_fresh := True\<rparr>),
                up_fresh := Suc (up_fresh s)\<rparr>), Inr invite))"

text \<open>The answer of a removal is empty, that of a change is the new permission.\<close>

definition page_onPermissionChange ::
  "string \<Rightarrow> string \<Rightarrow> string \<Rightarrow> (failure, pending_permission option) promise \<Rightarrow> users_page \<Rightarrow>
   users_page \<times> (failure, pending_permission option) promise" where
  "page_onPermissionChange clientId email role answer s =
     (case answer of
        Inl e \<Rightarrow> (s, Inl e)
      | Inr newPermission \<Rightarrow>
          if role = ''uninvited'' then (deletePermission clientId email s, Inr newPermission)
          else (case newPermission of
                  None \<Rightarrow> (s, Inl (Thrown TypeError))
                | Some p \<Rightarrow> (upsertPermission p s, Inr newPermission)))"

definition onUninvite ::
  "string \<Rightarrow> string \<Rightarrow> (failure, unit) promise \<Rightarrow> users_page \<Rightarrow> users_page \<times> (failure, unit) promise" where
  "onUninvite organizationName email answer s =
     (case answer of
        Inl e \<Rightarrow> (s, Inl e)
      | Inr _ \<Rightarrow>
          (refreshPages
             (s\<lparr>up_map := AList.delete email (up_map s),
                up_alerts := up_alerts s @ [email @ '' has been uninvited from '' @ organizationName]\<rparr>),
           Inr ()))"

definition page_relations :: "users_page \<Rightarrow> user_relation list" where
  "page_relations s = map (\<lambda>(email, a). up_heap s a) (up_map s)"

definition page_memberships :: "users_page \<Rightarrow> (string \<times> user_relation) list" where
  "page_memberships s = indexBy ur_email (filter (\<lambda>r. ur_membership r \<noteq> None) (page_relations s))"

definition page_invites :: "users_page \<Rightarrow> (string \<times> user_relation) list" where
  "page_invites s = indexBy ur_email (filter (\<lambda>r. ur_invite r \<noteq> None) (page_relations s))"

subsection \<open>What the page is given: users/endpoint.js\<close>

record org_full_permission =
  fp_client :: string
  fp_client_name :: string
  fp_user :: org_member
  fp_is_owner :: bool
  fp_owner :: bool
  fp_flags :: permission_flags

definition pendingPermissionFromPermission :: "org_full_permission \<Rightarrow> pending_permission" where
  "pendingPermissionFromPermission p =
     \<lparr>pp_client = fp_client p, pp_client_name = fp_client_name p,
      pp_email = mb_user_email (fp_user p), pp_role = getInviteRoleFromPermission (fp_flags p)\<rparr>"

definition usersEndpoint_isOrgOwner :: "jsval \<Rightarrow> org_membership list \<Rightarrow> bool" where
  "usersEndpoint_isOrgOwner organizationId memberships =
     list_ex (\<lambda>m. JStr (om_organization m) = organizationId \<and> om_type m = ''owner'') memberships"

definition owner_permissions :: "org_full_permission list \<Rightarrow> pending_permission list" where
  "owner_permissions ps = map pendingPermissionFromPermission (filter (\<lambda>p. \<not> fp_owner p) ps)"

text \<open>The groups of \<open>groupBy\<close>, in the order in which their keys first appear.\<close>

definition first_keys :: "('a \<Rightarrow> string) \<Rightarrow> 'a list \<Rightarrow> string list" where
  "first_keys key xs = rev (remdups (rev (map key xs)))"

definition admin_invites :: "pending_permission list list \<Rightarrow> org_invite list" where
  "admin_invites resources =
     (let pps = concat resources
      in map (\<lambda>email. \<lparr>iv_email = email, iv_membership_type = ''member'',
               iv_pending_permissions = filter (\<lambda>p. pp_email p = email) pps\<rparr>)
           (first_keys pp_email pps))"

definition admin_memberships :: "org_full_permission list list \<Rightarrow> org_member list" where
  "admin_memberships resources =
     map (\<lambda>(userId, p). (fp_user p)\<lparr>mb_type := if fp_is_owner p then ''owner'' else ''member''\<rparr>)
       (indexBy (mb_user_id \<circ> fp_user) (concat resources))"

definition admin_permissions :: "org_full_permission list list \<Rightarrow> pending_permission list" where
  "admin_permissions resources = map pendingPermissionFromPermission (concat resources)"

definition fetchOrganizationToken ::
  "jsobj \<Rightarrow> (jsval \<Rightarrow> (failure, jsval) promise) \<Rightarrow> (failure, jsval) promise" where
  "fetchOrganizationToken organization createToken =
     (if truthy (obj_get organization ''allow_signup_from_email_domains'')
         \<and> truthy (obj_get organization ''client_for_email_signup'')
      then createToken (obj_get organization ''client_for_email_signup'') else Inr JNull)"

subsection \<open>Editing permissions: users/permissions_editor/\<close>

record permissions_editor =
  ed_permissions :: "pending_permission list"
  ed_adding :: bool
  ed_alerts :: "failure list"

text \<open>A failure of the change is passed on, after the ones that are expected have been shown.\<close>

definition editor_onPermissionChange ::
  "(failure, pending_permission option) promise \<Rightarrow> permissions_editor \<Rightarrow>
   permissions_editor \<times> (failure, pending_permission option) promise" where
  "editor_onPermissionChange answer ed =
     (case answer of
        Inl err \<Rightarrow>
          (ed\<lparr>ed_alerts := ed_alerts ed @ (if status_in [400, 403, 409] err then [err] else [])\<rparr>, Inl err)
      | Inr p \<Rightarrow> (ed, Inr p))"

definition addPermission ::
  "(failure, pending_permission option) promise \<Rightarrow> permissions_editor \<Rightarrow>
   permissions_editor \<times> (failure, unit) promise" where
  "addPermission answer ed =
     (case editor_onPermissionChange answer ed of
        (ed', Inl err) \<Rightarrow> (ed', Inl err)
      | (ed', Inr None) \<Rightarrow> (ed', Inl (Thrown TypeError))
      | (ed', Inr (Some p)) \<Rightarrow>
          (ed'\<lparr>ed_permissions := ed_permissions ed' @ [p], ed_adding := \<not> ed_adding ed'\<rparr>, Inr ()))"

definition handlePermissionChange ::
  "string \<Rightarrow> string \<Rightarrow> string \<Rightarrow> string \<Rightarrow> (failure, pending_permission option) promise \<Rightarrow>
   permissions_editor \<Rightarrow> permissions_editor \<times> (failure, pending_permission option) promise" where
  "handlePermissionChange clientId email newRole oldRole answer ed =
     (case editor_onPermissionChange answer ed of
        (ed', Inl err) \<Rightarrow> (ed', Inl err)
      | (ed', Inr newPermission) \<Rightarrow>
          if newRole = ''uninvited''
          then (ed'\<lparr>ed_permissions :=
                  filter (\<lambda>p. \<not> (pp_client p = clientId \<and> pp_email p = email)) (ed_permissions ed')\<rparr>,
                Inr newPermission)
          else (case newPermission of
                  None \<Rightarrow> (ed', Inl (Thrown TypeError))
                | Some np \<Rightarrow>
                    if oldRole = ''uninvited''
                    then (ed'\<lparr>ed_permissions := ed_permissions ed' @ [np]\<rparr>, Inr newPermission)
                    else (ed'\<lparr>ed_permissions :=
                            map (\<lambda>p. if pp_client p = pp_client np then np else p) (ed_permissions ed')\<rparr>,
                          Inr newPermission)))"

record edit_row =
  er_selectedRole :: string
  er_modifying :: bool

definition updatePermission_start :: "string \<Rightarrow> edit_row \<Rightarrow> edit_row \<times> bool" where
  "updatePermission_start role row =
     (if role \<noteq> er_selectedRole row then (row\<lparr>er_modifying := True, er_selectedRole := role\<rparr>, True)
      else (row, False))"

definition updatePermission_done :: "string \<Rightarrow> ('e, 'a) promise \<Rightarrow> edit_row \<Rightarrow> edit_row" where
  "updatePermission_done oldRole answer row =
     (case answer of
        Inr _ \<Rightarrow> row\<lparr>er_modifying := False\<rparr>
      | Inl _ \<Rightarrow> row\<lparr>er_modifying := False, er_selectedRole := oldRole\<rparr>)"

text \<open>The deletion gives \<open>catch\<close> an object in place of a handler, which leaves a failure as it is.\<close>

definition deletePermission_start :: "edit_row \<Rightarrow> edit_row" where
  "deletePermission_start row = row\<lparr>er_modifying := True\<rparr>"

definition deletePermission_done :: "('e, 'a) promise \<Rightarrow> edit_row \<Rightarrow> edit_row" where
  "deletePermission_done answer row = row"

record org_client =
  cl_id :: string
  cl_name :: string

definition text_key :: "string \<Rightarrow> nat list" where
  "text_key s = map of_char s"

definition getAvailableClients :: "org_client list \<Rightarrow> pending_permission list \<Rightarrow> org_client list" where
  "getAvailableClients clients permissions =
     sort_key (text_key \<circ> cl_name) (filter (\<lambda>c. cl_id c \<notin> pp_client ` set permissions) clients)"

text \<open>\<open>None\<close> stands for the initial selection, a client and not an id, which is no client's id.\<close>

definition getSelectedClient ::
  "org_client list \<Rightarrow> pending_permission list \<Rightarrow> string option \<Rightarrow> org_client option" where
  "getSelectedClient clients permissions selectedClientId =
     (let availableClients = getAvailableClients clients permissions;
          first = (case availableClients of [] \<Rightarrow> None | c # _ \<Rightarrow> Some c)
      in case selectedClientId of
           None \<Rightarrow> first
         | Some i \<Rightarrow> (if i = [] then first
                      else (case List.find (\<lambda>c. cl_id c = i) availableClients of
                              Some c \<Rightarrow> Some c | None \<Rightarrow> first)))"

definition getSelectedClientId ::
  "org_client list \<Rightarrow> pending_permission list \<Rightarrow> string option \<Rightarrow> string option" where
  "getSelectedClientId clients permissions selected =
     map_option cl_id (getSelectedClient clients permissions selected)"

definition canAddToTeam :: "org_client list \<Rightarrow> bool \<Rightarrow> permissions_editor \<Rightarrow> bool" where
  "canAddToTeam clients disableInput ed =
     (\<not> ed_adding ed \<and> \<not> disableInput \<and> length (ed_permissions ed) < length clients)"

subsection \<open>Inviting: users/modal/\<close>

record invite_owner =
  io_addingPermission :: bool
  io_email :: string
  io_ownerSelected :: bool
  io_permissions :: "pending_permission list"

definition invite_owner_initial :: invite_owner where
  "invite_owner_initial =
     \<lparr>io_addingPermission = True, io_email = [], io_ownerSelected = False, io_permissions = []\<rparr>"

definition permissionsAreValid :: "invite_owner \<Rightarrow> bool" where
  "permissionsAreValid s = (io_ownerSelected s \<or> \<not> (io_addingPermission s \<or> io_permissions s = []))"

definition invite_isValid :: "invite_owner \<Rightarrow> bool" where
  "invite_isValid s = (io_email s \<noteq> [] \<and> permissionsAreValid s)"

text \<open>What the invitation asks for: address, type, and the role on each team.\<close>

definition createInvite_request :: "invite_owner \<Rightarrow> string \<times> string \<times> (string \<times> string) list" where
  "createInvite_request s =
     (io_email s, if io_ownerSelected s then ''owner'' else ''member'',
      if io_ownerSelected s then [] else map (\<lambda>p. (pp_client p, pp_role p)) (io_permissions s))"

definition createInvite_done :: "('e, 'a) promise \<Rightarrow> invite_owner \<Rightarrow> invite_owner" where
  "createInvite_done answer s = (case answer of Inr _ \<Rightarrow> invite_owner_initial | Inl _ \<Rightarrow> s)"

record invite_admin =
  ia_emails :: "string list"
  ia_editing :: bool
  ia_email :: string

definition invite_admin_show :: "invite_admin \<Rightarrow> invite_admin" where
  "invite_admin_show s = s\<lparr>ia_editing := False, ia_email := []\<rparr>"

definition invite_admin_onSubmit :: "invite_admin \<Rightarrow> invite_admin \<times> string option" where
  "invite_admin_onSubmit s =
     (let email = toLowerCase (ia_email s)
      in if email \<in> set (ia_emails s)
         then (s, Some (''The email '' @ email @ '' already exists in this organization.''
                  @ '' Find their membership to make changes.''))
         else (s\<lparr>ia_editing := True\<rparr>, None))"

definition invite_admin_done ::
  "string \<Rightarrow> string \<Rightarrow> (failure, pending_permission option) promise \<Rightarrow> invite_admin \<Rightarrow>
   invite_admin \<times> string option" where
  "invite_admin_done email oldRole answer s =
     (case answer of
        Inl err \<Rightarrow> (s, None)
      | Inr newPermission \<Rightarrow>
          if oldRole = ''uninvited''
          then (case newPermission of
                  None \<Rightarrow> (s, None)
                | Some p \<Rightarrow>
                    (s\<lparr>ia_emails := rev (remdups (rev (ia_emails s @ [email])))\<rparr>,
                     Some (''Invited to '' @ pp_client_name p @ ''.'')))
          else (case newPermission of
                  Some p \<Rightarrow>
                    if pp_client p \<noteq> []
                    then (s, Some (''Updated invite for '' @ pp_client_name p @ ''.''))
                    else (s\<lparr>ia_emails := filter (\<lambda>e. e \<noteq> email) (ia_emails s)\<rparr>, Some ''Removed team invite.'')
                | None \<Rightarrow>
                    (s\<lparr>ia_emails := filter (\<lambda>e. e \<noteq> email) (ia_emails s)\<rparr>, Some ''Removed team invite.'')))"

record edit_teams =
  et_addingPermission :: bool
  et_editing :: bool
  et_email :: string
  et_isCurrentUser :: bool
  et_permissions :: "pending_permission list"
  et_relation :: "user_relation option"
  et_waiting :: bool

definition edit_teams_open :: "string \<Rightarrow> user_relation \<Rightarrow> bool \<Rightarrow> edit_teams" where
  "edit_teams_open currentUserId userRelation editing =
     \<lparr>et_addingPermission = False, et_editing = editing, et_email = ur_email userRelation,
      et_isCurrentUser = (case ur_membership userRelation of
          None \<Rightarrow> False | Some m \<Rightarrow> mb_user_id m = currentUserId),
      et_permissions = map snd (ur_permissionMap userRelation),
      et_relation = Some userRelation, et_waiting = False\<rparr>"

definition getEditTitle :: "edit_teams \<Rightarrow> string option" where
  "getEditTitle s =
     map_option (\<lambda>r. case ur_membership r of
         Some m \<Rightarrow> ''Edit teams for '' @ mb_user_name m
       | None \<Rightarrow> ''Edit invitation for '' @ ur_email r) (et_relation s)"

definition getUninviteTitle :: "edit_teams \<Rightarrow> string option" where
  "getUninviteTitle s =
     map_option (\<lambda>r. case ur_membership r of
         Some m \<Rightarrow> ''Remove '' @ mb_user_name m
       | None \<Rightarrow> ''Uninvite '' @ ur_email r) (et_relation s)"

definition modalValidator :: "edit_teams \<Rightarrow> bool" where
  "modalValidator s = (\<not> (et_isCurrentUser s \<or> et_waiting s))"

definition toggleAddPermission :: "edit_teams \<Rightarrow> edit_teams" where
  "toggleAddPermission s = s\<lparr>et_addingPermission := \<not> et_addingPermission s\<rparr>"

definition editTeams_message ::
  "(string \<Rightarrow> string) \<Rightarrow> string \<Rightarrow> string \<Rightarrow> string \<Rightarrow> pending_permission option \<Rightarrow> js_error + string" where
  "editTeams_message clientName clientId newRole oldRole newPermission =
     (let with_role = (\<lambda>start. case getInviteRoleDisplayText newRole of
            Inl e \<Rightarrow> Inl e | Inr t \<Rightarrow> Inr (start @ t @ ''.''))
      in if oldRole = ''uninvited'' then with_role (''Added to '' @ clientName clientId @ '' as '')
         else if (case newPermission of None \<Rightarrow> False | Some p \<Rightarrow> pp_client p \<noteq> [])
         then with_role (''Role for '' @ clientName clientId @ '' changed to '')
         else Inr (''Removed from '' @ clientName clientId @ ''.''))"

subsection \<open>The table of users: users/membership_table/\<close>

definition sorted_by_text :: "(user_relation \<Rightarrow> string) \<Rightarrow> user_relation list \<Rightarrow> user_relation list" where
  "sorted_by_text f rs = sort_key (\<lambda>r. text_key (toLowerCase (f r))) rs"

definition member_name :: "user_relation \<Rightarrow> string" where
  "member_name r = (case ur_membership r of None \<Rightarrow> [] | Some m \<Rightarrow> mb_user_name m)"

definition client_filter :: "string option \<Rightarrow> user_relation \<Rightarrow> bool" where
  "client_filter clientId r =
     (case clientId of
        None \<Rightarrow> \<not> ur_owner r
      | Some c \<Rightarrow> if c = [] then \<not> ur_owner r else map_of (ur_permissionMap r) c \<noteq> None)"

definition filterRelationsByClient :: "string option \<Rightarrow> user_relation list \<Rightarrow> user_relation list" where
  "filterRelationsByClient clientId relations =
     (let inviteRelations = filter (\<lambda>r. ur_invite r \<noteq> None) relations;
          membershipRelations = filter (\<lambda>r. ur_membership r \<noteq> None) relations
      in sorted_by_text ur_email (filter ur_owner inviteRelations)
         @ sorted_by_text ur_email (filter (client_filter clientId) inviteRelations)
         @ sorted_by_text member_name (filter ur_owner membershipRelations)
         @ sorted_by_text member_name (filter (client_filter clientId) membershipRelations))"

definition text_includes :: "string \<Rightarrow> string \<Rightarrow> bool" where
  "text_includes text part = (0 \<le> indexOf text part)"

definition getFilteredUsers ::
  "string option \<Rightarrow> string \<Rightarrow> user_relation list \<Rightarrow> user_relation list" where
  "getFilteredUsers selectedClient nameFilter relations =
     (let userRelations = filterRelationsByClient selectedClient relations
      in if 0 < length nameFilter
         then filter (\<lambda>r. (ur_membership r \<noteq> None \<and> text_includes (toLowerCase (member_name r)) nameFilter)
                \<or> text_includes (toLowerCase (ur_email r)) nameFilter) userRelations
         else userRelations)"

definition getUserPermissions ::
  "(string \<times> user_relation) list \<Rightarrow> string \<Rightarrow> pending_permission list option" where
  "getUserPermissions relations userEmail =
     map_option (\<lambda>r. sort_key (text_key \<circ> pp_client_name) (map snd (ur_permissionMap r)))
       (map_of relations userEmail)"

text \<open>The buttons of a row.\<close>

definition row_canEdit :: "user_relation \<Rightarrow> bool" where
  "row_canEdit r = (ur_membership r \<noteq> None \<or> \<not> ur_owner r)"

definition row_edit_opens :: "user_relation \<Rightarrow> bool" where
  "row_edit_opens r = (row_canEdit r \<and> \<not> ur_owner r)"

definition row_canUninvite :: "string \<Rightarrow> bool \<Rightarrow> user_relation \<Rightarrow> bool" where
  "row_canUninvite currentEmail canInviteOwners r =
     (ur_email r \<noteq> currentEmail \<and> canInviteOwners
      \<and> (if ur_membership r \<noteq> None then \<not> ur_owner r else True))"

definition row_link :: "string \<Rightarrow> user_relation \<Rightarrow> string option" where
  "row_link organizationId r =
     map_option (\<lambda>m. ''/organization/'' @ organizationId @ ''/users/'' @ mb_user_id m) (ur_membership r)"

subsection \<open>Signing up: SignupPermissionsEditor\<close>

record signup_editor =
  sg_allowSignupLink :: bool
  sg_domains :: "string list"
  sg_error :: "failure option"
  sg_needsSave :: bool
  sg_rotated :: bool
  sg_signupClient :: string

definition signup_init :: "jsobj \<Rightarrow> string list \<Rightarrow> org_client \<Rightarrow> signup_editor" where
  "signup_init organization emailDomains firstClient =
     \<lparr>sg_allowSignupLink = truthy (obj_get organization ''allow_signup_from_email_domains''),
      sg_domains = emailDomains, sg_error = None, sg_needsSave = False, sg_rotated = False,
      sg_signupClient =
        (case obj_get organization ''client_for_email_signup'' of
           JStr (c # cs) \<Rightarrow> c # cs | _ \<Rightarrow> cl_id firstClient)\<rparr>"

definition signup_onDomainsChange :: "string list \<Rightarrow> signup_editor \<Rightarrow> signup_editor" where
  "signup_onDomainsChange ds s = s\<lparr>sg_needsSave := True, sg_domains := ds\<rparr>"

definition signup_onClientSelect :: "string \<Rightarrow> signup_editor \<Rightarrow> signup_editor" where
  "signup_onClientSelect c s = s\<lparr>sg_needsSave := True, sg_signupClient := c\<rparr>"

definition signup_setAllow :: "bool \<Rightarrow> signup_editor \<Rightarrow> signup_editor" where
  "signup_setAllow b s = s\<lparr>sg_needsSave := True, sg_allowSignupLink := b\<rparr>"

text \<open>The \<open>NetError\<close> of the check, as a failure with its message and status.\<close>

definition no_domains_error :: failure where
  "no_domains_error = Http (HttpError HttpErrorClass
     [(''message'', JStr ''You must specify at least one email domain to create a Sign Up link.''),
      (''status'', JNum 400)])"

definition signup_checkErrors :: "signup_editor \<Rightarrow> signup_editor \<times> (failure, unit) promise" where
  "signup_checkErrors s =
     (s\<lparr>sg_error := None\<rparr>,
      if sg_allowSignupLink s \<and> sg_domains s = [] then Inl no_domains_error else Inr ())"

text \<open>The saved fields, when the check lets them be sent.\<close>

definition signup_onSave :: "signup_editor \<Rightarrow> signup_editor \<times> (failure, bool \<times> string \<times> string list) promise" where
  "signup_onSave s =
     (let (s', checked) = signup_checkErrors s
      in (s', promise_then checked (\<lambda>_. Inr (sg_allowSignupLink s', sg_signupClient s', sg_domains s'))))"

definition signup_onError :: "failure \<Rightarrow> signup_editor \<Rightarrow> signup_editor" where
  "signup_onError err s = (if status_in [400, 403] err then s\<lparr>sg_error := Some err\<rparr> else s)"

definition signupLinkIsValid :: "bool \<Rightarrow> string \<Rightarrow> signup_editor \<Rightarrow> bool" where
  "signupLinkIsValid hasToken clientForSignup s =
     (hasToken \<and> clientForSignup = sg_signupClient s \<and> \<not> sg_rotated s)"

section \<open>Properties\<close>

subsection \<open>Access to the pages of an organization\<close>

lemma promise_then_Inr:
  "promise_then p f = Inr b \<longleftrightarrow> (\<exists>a. p = Inr a \<and> f a = Inr b)"
  by (cases p) auto

text \<open>C14: A page of an organization is given only to a user who is logged in and belongs to the very
  organization it shows: to an owner, or, unless the page is for owners only, to a user with a
  permission to administer one of its teams.\<close>

theorem organization_page_safe:
  assumes "orgAdmin_getParams api ownerOnly superParams req = Inr (params, sp)"
  shows "truthy (or_userId req)
    \<and> fetchOrganization api req = Inr (og_organization params)
    \<and> (\<exists>ms ps m. oa_memberships api = Inr ms \<and> oa_permissions api = Inr ps \<and> m \<in> set ms
        \<and> JStr (om_organization m) = js_prop (og_organization params) ''id''
        \<and> (om_type m = ''owner''
           \<or> \<not> ownerOnly \<and> (\<exists>p\<in>set ps. op_can_admin p
                \<and> JStr (op_organization p) = js_prop (og_organization params) ''id''))
        \<and> (og_canSeeExperimentsPage params \<longrightarrow> om_type m = ''owner''))"
proof -
  have user: "truthy (or_userId req)"
    using assms by (auto simp: orgAdmin_getParams_def rejectNotFound_def split: if_splits)
  obtain organization ps ms where got: "fetchOrganization api req = Inr organization"
    "oa_permissions api = Inr ps" "oa_memberships api = Inr ms"
    using assms user by (auto simp: orgAdmin_getParams_def promise_then_Inr)
  let ?id = "js_prop organization ''id''"
  obtain m where m: "List.find (\<lambda>m. JStr (om_organization m) = ?id) ms = Some m"
    "om_type m = ''owner'' \<or> list_ex op_can_admin (filter (\<lambda>p. JStr (op_organization p) = ?id) ps) \<and> \<not> ownerOnly"
    "params = \<lparr>og_organization = organization, og_canSeeExperimentsPage = (om_type m = ''owner'')\<rparr>"
    using assms user got
    by (auto simp: orgAdmin_getParams_def promise_then_Inr Let_def rejectNotFound_def
        split: if_splits option.splits)
  have "m \<in> set ms" "JStr (om_organization m) = ?id"
    using find_Some_iff' [OF m(1)] by auto
  then show ?thesis
    using user got m(2,3) by (auto simp: list_ex_iff intro!: exI [of _ m])
qed

definition example_org_api :: "bool \<Rightarrow> org_api" where
  "example_org_api admin =
     \<lparr>oa_client = (\<lambda>_. Inr (JObj [(''id'', JStr ''7''), (''organization'', JStr ''3'')])),
      oa_organization = (\<lambda>i. Inr (JObj [(''id'', i)])),
      oa_permissions = Inr [\<lparr>op_client = ''7'', op_organization = ''3'', op_can_admin = admin\<rparr>],
      oa_memberships = Inr [\<lparr>om_organization = ''3'', om_type = ''member''\<rparr>],
      oa_clients = Inr [], oa_admin_permissions = Inr []\<rparr>"

definition example_org_request :: org_request where
  "example_org_request = \<lparr>or_userId = JStr ''1'', or_clientId = JStr ''7'',
     or_matchedOrganization = JObj [(''id'', JStr ''3'')], or_path = ''/organization/3/users''\<rparr>"

theorem organization_page_safe_witness:
  "truthy (or_userId example_org_request)
   \<and> orgAdmin_getParams (example_org_api True) False (Inr ()) example_org_request =
       Inr (\<lparr>og_organization = JObj [(''id'', JStr ''3'')], og_canSeeExperimentsPage = False\<rparr>, ())"
proof -
  have ok: "orgAdmin_getParams (example_org_api True) False (Inr ()) example_org_request =
      Inr (\<lparr>og_organization = JObj [(''id'', JStr ''3'')], og_canSeeExperimentsPage = False\<rparr>, ())"
    by (simp add: orgAdmin_getParams_def fetchOrganization_def example_org_api_def example_org_request_def
        isUndefinedOrNull_def Let_def)
  show ?thesis
    using organization_page_safe [OF ok] ok by blast
qed

lemma organization_page_needs_admin:
  "orgAdmin_getParams (example_org_api False) False (Inr ()) example_org_request = rejectNotFound example_org_request"
  by (simp add: orgAdmin_getParams_def fetchOrganization_def example_org_api_def example_org_request_def
      isUndefinedOrNull_def Let_def)

text \<open>Without a matched organization the client of the session is fetched and taken apart as a list,
  which the object the API answers with is not: the page fails with a \<open>TypeError\<close>.\<close>

lemma fetchOrganization_by_client_fails:
  assumes "\<not> truthy (or_matchedOrganization req)" "truthy (or_clientId req)"
    "oa_client api (or_clientId req) = Inr (JObj ps)"
  shows "fetchOrganization api req = Inl (Thrown TypeError)"
  using assms by (simp add: fetchOrganization_def first_of_list_def)

subsection \<open>The relations of the page\<close>

definition wf_users_page :: "users_page \<Rightarrow> bool" where
  "wf_users_page s =
     (distinct (map fst (up_map s)) \<and> distinct (map snd (up_map s))
      \<and> (\<forall>a\<in>snd ` set (up_map s). a < up_fresh s))"

lemma refreshPages_simps [simp]:
  "up_map (refreshPages s) = up_map s" "up_heap (refreshPages s) = up_heap s"
  "up_fresh (refreshPages s) = up_fresh s"
  by (simp_all add: refreshPages_def)

lemma address_bound: "wf_users_page s \<Longrightarrow> map_of (up_map s) e = Some a \<Longrightarrow> a < up_fresh s"
  by (force simp: wf_users_page_def dest: map_of_SomeD)

lemma address_unique:
  assumes "wf_users_page s" "map_of (up_map s) e = Some a" "map_of (up_map s) e' = Some a"
  shows "e = e'"
  using assms
  by (metis (mono_tags, lifting) distinct_map inj_onD map_of_SomeD prod.inject snd_conv wf_users_page_def)

lemma relation_of_modify:
  assumes "wf_users_page s"
  shows "relation_of (modifyUserPermissions email f s) e =
    (if e = email
     then map_option (\<lambda>r. r\<lparr>ur_permissionMap := f (ur_permissionMap r)\<rparr>) (relation_of s email)
     else relation_of s e)"
proof (cases "map_of (up_map s) email")
  case None
  have "a \<noteq> up_fresh s" if "map_of (up_map s) e = Some a" for a
    using address_bound [OF assms that] by simp
  then show ?thesis
    using None by (cases "map_of (up_map s) e") (auto simp: modifyUserPermissions_def relation_of_def)
next
  case (Some a)
  have "e = email" if "map_of (up_map s) e = Some a"
    using address_unique [OF assms that Some] .
  then show ?thesis
    using Some by (cases "map_of (up_map s) e") (auto simp: modifyUserPermissions_def relation_of_def)
qed

lemma wf_modify [inv_intros]: "wf_users_page s \<Longrightarrow> wf_users_page (modifyUserPermissions email f s)"
  by (auto simp: wf_users_page_def modifyUserPermissions_def less_SucI split: option.split)

lemma snd_set_update: "snd ` set (AList.update k v ps) \<subseteq> insert v (snd ` set ps)"
  by (induction ps) auto

lemma distinct_snd_update:
  "distinct (map snd ps) \<Longrightarrow> v \<notin> snd ` set ps \<Longrightarrow> distinct (map snd (AList.update k v ps))"
proof (induction ps)
  case Nil
  then show ?case by simp
next
  case (Cons p ps)
  then show ?case using snd_set_update [of k v ps] by (cases p) auto
qed

lemma distinct_snd_delete: "distinct (map snd ps) \<Longrightarrow> distinct (map snd (AList.delete k ps))"
  by (simp add: AList.delete_eq distinct_map_filter)

lemma wf_onInviteCreate [inv_intros]:
  assumes "wf_users_page s"
  shows "wf_users_page (fst (onInviteCreate email answer s))"
proof (cases answer)
  case (Inl e)
  then show ?thesis using assms by (simp add: onInviteCreate_def)
next
  case (Inr invite)
  have fresh: "up_fresh s \<notin> snd ` set (up_map s)"
    using assms by (auto simp: wf_users_page_def)
  have "distinct (map fst (AList.update email (up_fresh s) (up_map s)))"
    using assms by (simp add: wf_users_page_def distinct_update)
  moreover have "distinct (map snd (AList.update email (up_fresh s) (up_map s)))"
    using assms fresh by (simp add: wf_users_page_def distinct_snd_update)
  moreover have "a < Suc (up_fresh s)" if "a \<in> snd ` set (AList.update email (up_fresh s) (up_map s))" for a
    using snd_set_update that assms by (fastforce simp: wf_users_page_def)
  ultimately show ?thesis
    using Inr by (simp add: onInviteCreate_def wf_users_page_def)
qed

lemma wf_onUninvite [inv_intros]:
  assumes "wf_users_page s"
  shows "wf_users_page (fst (onUninvite name email answer s))"
  using assms
  by (auto simp: onUninvite_def wf_users_page_def AList.delete_eq intro: distinct_map_filter
      split: sum.split)

lemma wf_page_onPermissionChange [inv_intros]:
  "wf_users_page s \<Longrightarrow> wf_users_page (fst (page_onPermissionChange c e role answer s))"
  by (auto simp: page_onPermissionChange_def deletePermission_def upsertPermission_def
      intro: wf_modify split: sum.split option.split)

lemma map_fst_update_same: "k \<in> fst ` set ps \<Longrightarrow> map fst (AList.update k v ps) = map fst ps"
  by (induction ps) auto

lemma obj_extend_addresses:
  assumes "distinct (map snd acc)" "distinct (map snd ps)" "snd ` set acc \<inter> snd ` set ps = {}"
  shows "distinct (map snd (obj_extend acc ps)) \<and> snd ` set (obj_extend acc ps) \<subseteq> snd ` set acc \<union> snd ` set ps"
  using assms
proof (induction ps arbitrary: acc)
  case Nil
  then show ?case by simp
next
  case (Cons p ps)
  let ?acc = "AList.update (fst p) (snd p) acc"
  have sub: "snd ` set ?acc \<subseteq> insert (snd p) (snd ` set acc)" by (rule snd_set_update)
  have "distinct (map snd ?acc)"
    using Cons.prems by (intro distinct_snd_update) auto
  moreover have "snd ` set ?acc \<inter> snd ` set ps = {}"
  proof -
    have "insert (snd p) (snd ` set acc) \<inter> snd ` set ps = {}"
      using Cons.prems(2,3) by auto
    then show ?thesis using sub by blast
  qed
  ultimately have step: "distinct (map snd (obj_extend ?acc ps))
      \<and> snd ` set (obj_extend ?acc ps) \<subseteq> snd ` set ?acc \<union> snd ` set ps"
    using Cons.IH [of ?acc] Cons.prems(2) by simp
  moreover have "snd ` set (p # ps) = insert (snd p) (snd ` set ps)" by simp
  ultimately show ?case using sub by (simp only: obj_extend_Cons) blast
qed

lemma wf_users_page_init [inv_intros]: "wf_users_page (users_page_init invites memberships permissions)"
proof -
  let ?rs = "map createInviteRelation invites @ map (createMembershipRelation permissions) memberships"
  let ?ps = "zip (map ur_email ?rs) [0..<length ?rs]"
  have addresses: "map snd ?ps = [0..<length ?rs]" by simp
  then have "distinct (map snd ?ps)" by (metis distinct_upt)
  then have all: "distinct (map snd (obj_extend [] ?ps)) \<and> snd ` set (obj_extend [] ?ps) \<subseteq> snd ` set ?ps"
    using obj_extend_addresses [of "[]" ?ps] by simp
  have "\<forall>a\<in>snd ` set ?ps. a < length ?rs"
    using addresses by (metis atLeastLessThan_iff list.set_map set_upt)
  then have "\<forall>a\<in>snd ` set (obj_extend [] ?ps). a < length ?rs"
    using all by blast
  moreover have "up_map (users_page_init invites memberships permissions) = obj_extend [] ?ps"
    and "up_fresh (users_page_init invites memberships permissions) = length ?rs"
    by (simp_all only: users_page_init_def Let_def users_page.simps)
  ultimately show ?thesis
    using all by (simp only: wf_users_page_def) (simp add: distinct_obj_extend)
qed

text \<open>The page as a plain map of relations, and what an answer should do to it.\<close>

lemma relation_of_refresh [simp]: "relation_of (refreshPages s) = relation_of s"
  by (simp add: fun_eq_iff relation_of_def)

lemma relation_of_onInviteCreate:
  assumes "wf_users_page s"
  shows "relation_of (fst (onInviteCreate email (Inr invite) s)) =
    (relation_of s)(email \<mapsto> (createInviteRelation invite)\<lparr>ur_fresh := True\<rparr>)"
proof
  fix e
  have "a \<noteq> up_fresh s" if "map_of (up_map s) e = Some a"
    for a using address_bound [OF assms that] by simp
  then show "relation_of (fst (onInviteCreate email (Inr invite) s)) e =
      ((relation_of s)(email \<mapsto> (createInviteRelation invite)\<lparr>ur_fresh := True\<rparr>)) e"
    by (cases "map_of (up_map s) e") (auto simp: onInviteCreate_def relation_of_def update_conv')
qed

lemma relation_of_onUninvite:
  "relation_of (fst (onUninvite name email (Inr u) s)) = (relation_of s)(email := None)"
  by (auto simp: onUninvite_def relation_of_def fun_eq_iff delete_conv')

definition with_permissions ::
  "string \<Rightarrow> ((string \<times> pending_permission) list \<Rightarrow> (string \<times> pending_permission) list) \<Rightarrow>
   (string \<Rightarrow> user_relation option) \<Rightarrow> string \<Rightarrow> user_relation option" where
  "with_permissions email f v =
     v(email := map_option (\<lambda>r. r\<lparr>ur_permissionMap := f (ur_permissionMap r)\<rparr>) (v email))"

lemma relation_of_modify_fun:
  "wf_users_page s \<Longrightarrow> relation_of (modifyUserPermissions email f s) = with_permissions email f (relation_of s)"
  by (auto simp: fun_eq_iff with_permissions_def relation_of_modify)

datatype page_event =
    InviteCreated string org_invite
  | PermissionChanged string string string "pending_permission option"
  | Uninvited string
  | CallFailed

fun page_step :: "string \<Rightarrow> page_event \<Rightarrow> users_page \<Rightarrow> users_page" where
  "page_step name (InviteCreated email invite) s = fst (onInviteCreate email (Inr invite) s)"
| "page_step name (PermissionChanged c email role p) s =
     fst (page_onPermissionChange c email role (Inr p) s)"
| "page_step name (Uninvited email) s = fst (onUninvite name email (Inr ()) s)"
| "page_step name CallFailed s = s"

fun view_step ::
  "page_event \<Rightarrow> (string \<Rightarrow> user_relation option) \<Rightarrow> string \<Rightarrow> user_relation option" where
  "view_step (InviteCreated email invite) v = v(email \<mapsto> (createInviteRelation invite)\<lparr>ur_fresh := True\<rparr>)"
| "view_step (PermissionChanged c email role p) v =
     (if role = ''uninvited'' then with_permissions email (AList.delete c) v
      else (case p of None \<Rightarrow> v
            | Some np \<Rightarrow> with_permissions (pp_email np) (AList.update (pp_client np) np) v))"
| "view_step (Uninvited email) v = v(email := None)"
| "view_step CallFailed v = v"

lemma page_step_refines:
  assumes "wf_users_page s"
  shows "wf_users_page (page_step name ev s) \<and> relation_of (page_step name ev s) = view_step ev (relation_of s)"
  using assms
proof (cases ev)
  case (InviteCreated email invite)
  then show ?thesis
    using assms wf_onInviteCreate [OF assms, of email "Inr invite"]
    by (simp add: relation_of_onInviteCreate)
next
  case (PermissionChanged c email role p)
  then show ?thesis
    using assms wf_page_onPermissionChange [OF assms, of c email role "Inr p"]
    by (auto simp: page_onPermissionChange_def deletePermission_def upsertPermission_def
        relation_of_modify_fun split: option.split)
next
  case (Uninvited email)
  then show ?thesis
    using assms wf_onUninvite [OF assms, of name email "Inr ()"] by (simp add: relation_of_onUninvite)
qed simp

text \<open>C15: The page of users refines a plain map from addresses to relations, whatever the order of the
  answers: an invitation replaces the relation of its address, a removed user is deleted, and a
  change of permission updates the permissions of the one user it names and of no other. A change for
  a user who is not in the map is lost, because the updater returns no state.\<close>

theorem users_page_refines:
  "relation_of (fold (page_step name) evs (users_page_init invites memberships permissions)) =
     fold view_step evs (relation_of (users_page_init invites memberships permissions))"
proof -
  have "wf_users_page (fold (page_step name) evs s)
      \<and> relation_of (fold (page_step name) evs s) = fold view_step evs (relation_of s)"
    if "wf_users_page s" for s
    using that
  proof (induction evs arbitrary: s)
    case Nil
    then show ?case by simp
  next
    case (Cons ev evs)
    then show ?case using page_step_refines [OF Cons.prems, of name ev] by simp
  qed
  then show ?thesis using wf_users_page_init by blast
qed

lemma permission_of_new_user_is_lost:
  assumes "wf_users_page s" "relation_of s (pp_email p) = None" "role \<noteq> ''uninvited''"
  shows "relation_of (fst (page_onPermissionChange c e role (Inr (Some p)) s)) = relation_of s"
  using assms
  by (simp add: page_onPermissionChange_def upsertPermission_def relation_of_modify_fun with_permissions_def
      fun_upd_idem)

subsection \<open>Listing, editing, inviting\<close>

lemma mset_sorted_by_text [simp]: "mset (sorted_by_text f rs) = mset rs"
  by (simp add: sorted_by_text_def)

lemma mset_filter_split: "mset (filter P rs) + mset (filter (\<lambda>r. \<not> P r) rs) = mset rs"
  by (induction rs) auto

text \<open>With no team selected the table lists every relation once, the owners first.\<close>

lemma filterRelations_permutation:
  assumes "list_all (\<lambda>r. (ur_invite r = None) \<noteq> (ur_membership r = None)) relations"
  shows "mset (filterRelationsByClient None relations) = mset relations"
proof -
  have cf: "client_filter None = (\<lambda>r. \<not> ur_owner r)"
    by (simp add: client_filter_def fun_eq_iff)
  have members: "filter (\<lambda>r. ur_membership r \<noteq> None) relations = filter (\<lambda>r. \<not> ur_invite r \<noteq> None) relations"
    using assms by (intro filter_cong) (auto simp: list_all_iff)
  have part: "mset (filter ur_owner rs) + mset (filter (client_filter None) rs) = mset rs" for rs
    unfolding cf by (rule mset_filter_split)
  have "mset (filterRelationsByClient None relations) =
      (mset (filter ur_owner (filter (\<lambda>r. ur_invite r \<noteq> None) relations))
       + mset (filter (client_filter None) (filter (\<lambda>r. ur_invite r \<noteq> None) relations)))
      + (mset (filter ur_owner (filter (\<lambda>r. ur_membership r \<noteq> None) relations))
       + mset (filter (client_filter None) (filter (\<lambda>r. ur_membership r \<noteq> None) relations)))"
    by (simp add: filterRelationsByClient_def Let_def del: mset_filter)
  also have "\<dots> = mset (filter (\<lambda>r. ur_invite r \<noteq> None) relations)
      + mset (filter (\<lambda>r. \<not> ur_invite r \<noteq> None) relations)"
    by (simp only: part members)
  also have "\<dots> = mset relations"
    by (rule mset_filter_split)
  finally show ?thesis .
qed

lemma available_clients:
  "c \<in> set (getAvailableClients clients permissions) \<longleftrightarrow>
     c \<in> set clients \<and> cl_id c \<notin> pp_client ` set permissions"
  by (auto simp: getAvailableClients_def)

lemma selected_client_available:
  assumes "getSelectedClient clients permissions selected = Some c"
  shows "c \<in> set (getAvailableClients clients permissions)"
proof (cases "getAvailableClients clients permissions")
  case Nil
  then show ?thesis
    using assms by (auto simp: getSelectedClient_def Let_def split: option.splits if_splits)
next
  case (Cons a as)
  then show ?thesis
    using assms find_Some_iff'
    by (fastforce simp: getSelectedClient_def Let_def split: option.splits if_splits)
qed

text \<open>The editor never lists a team twice, as long as the API answers with the team it was asked for.\<close>

definition distinct_teams :: "permissions_editor \<Rightarrow> bool" where
  "distinct_teams ed = distinct (map pp_client (ed_permissions ed))"

lemma addPermission_distinct [inv_intros]:
  assumes "distinct_teams ed" "getSelectedClientId clients (ed_permissions ed) selected = Some c"
    "\<forall>p. answer = Inr (Some p) \<longrightarrow> pp_client p = c"
  shows "distinct_teams (fst (addPermission answer ed))"
proof -
  have fresh: "c \<notin> pp_client ` set (ed_permissions ed)"
  proof -
    obtain cl where "getSelectedClient clients (ed_permissions ed) selected = Some cl" "cl_id cl = c"
      using assms(2) by (auto simp: getSelectedClientId_def)
    then show ?thesis
      using selected_client_available [of clients "ed_permissions ed" selected cl]
      by (auto simp: available_clients)
  qed
  show ?thesis
  proof (cases answer)
    case (Inl err)
    then show ?thesis
      using assms(1) by (simp add: addPermission_def editor_onPermissionChange_def distinct_teams_def)
  next
    case (Inr np)
    then show ?thesis
      using assms(1,3) fresh
      by (cases np) (auto simp: addPermission_def editor_onPermissionChange_def distinct_teams_def)
  qed
qed

lemma handlePermissionChange_distinct [inv_intros]:
  assumes "distinct_teams ed" "oldRole \<noteq> ''uninvited''"
  shows "distinct_teams (fst (handlePermissionChange c e newRole oldRole answer ed))"
proof -
  have same: "map (pp_client \<circ> (\<lambda>p. if pp_client p = pp_client np then np else p)) ps = map pp_client ps"
    for np :: pending_permission and ps
    by (induction ps) auto
  show ?thesis
    using assms
    by (auto simp: same handlePermissionChange_def editor_onPermissionChange_def distinct_teams_def
        intro: distinct_map_filter split: sum.split option.split)
qed

text \<open>A row whose deletion fails stays in its modifying state, one whose change fails does not.\<close>

lemma edit_row_after_failure:
  "er_modifying (deletePermission_done (Inl e) (deletePermission_start row))
   \<and> updatePermission_done (er_selectedRole row) (Inl e) (fst (updatePermission_start role row)) =
       row\<lparr>er_modifying := False\<rparr>"
  by (auto simp: deletePermission_done_def deletePermission_start_def updatePermission_done_def
      updatePermission_start_def)

lemma invite_owner_request_valid:
  "invite_isValid s \<Longrightarrow> fst (createInvite_request s) \<noteq> []
     \<and> (fst (snd (createInvite_request s)) = ''owner'' \<or> snd (snd (createInvite_request s)) \<noteq> [])"
  by (auto simp: invite_isValid_def permissionsAreValid_def createInvite_request_def)

text \<open>An address with a capital letter can be invited again: it is kept as it was typed, and looked up
  in lower case.\<close>

lemma capital_address_not_found:
  "(let s = fst (invite_admin_done ''A@b.c'' ''uninvited''
       (Inr (Some \<lparr>pp_client = ''1'', pp_client_name = ''T'', pp_email = ''A@b.c'', pp_role = ''user''\<rparr>))
       \<lparr>ia_emails = [], ia_editing = True, ia_email = ''A@b.c''\<rparr>)
    in ia_emails s = [''A@b.c'']
       \<and> snd (invite_admin_onSubmit (s\<lparr>ia_email := ''A@b.c''\<rparr>)) = None)"
proof -
  have "toLowerCase ''A@b.c'' = ''a@b.c''" by code_simp
  then show ?thesis by (simp add: invite_admin_done_def invite_admin_onSubmit_def Let_def)
qed

lemma row_buttons_safe:
  "row_canUninvite currentEmail canInvite r \<Longrightarrow>
     canInvite \<and> ur_email r \<noteq> currentEmail \<and> \<not> (ur_membership r \<noteq> None \<and> ur_owner r)"
  by (auto simp: row_canUninvite_def split: if_splits)

lemma signup_save_needs_domain:
  "snd (signup_onSave s) = Inr (allow, client, domains) \<Longrightarrow> allow \<longrightarrow> domains \<noteq> []"
  by (auto simp: signup_onSave_def signup_checkErrors_def split: if_splits)

subsection \<open>Addresses and passwords\<close>

lemma extractLocalPart_concat:
  "CHR ''@'' \<notin> set localPart \<Longrightarrow>
   extractLocalPartFromEmail (concatenateLocalPartAndDomain localPart domain) = localPart"
proof -
  assume "CHR ''@'' \<notin> set localPart"
  then have "takeWhile (\<lambda>d. d \<noteq> CHR ''@'') localPart = localPart"
    by (auto simp: takeWhile_eq_all_conv)
  then show ?thesis
    by (simp add: extractLocalPartFromEmail_def concatenateLocalPartAndDomain_def first_index_def
        takeWhile_tail)
qed

lemma extractDomain_concat:
  assumes "CHR ''@'' \<notin> set domain"
  shows "extractDomainFromEmail (concatenateLocalPartAndDomain localPart domain) = domain"
proof -
  have "takeWhile (\<lambda>d. d \<noteq> CHR ''@'') (rev domain @ [CHR ''@''] @ rev localPart) = rev domain"
    using assms by (subst takeWhile_append2) auto
  then have "last_index CHR ''@'' (localPart @ ''@'' @ domain) = int (length localPart)"
    by (simp add: last_index_def)
  then show ?thesis
    by (simp add: extractDomainFromEmail_def concatenateLocalPartAndDomain_def nat_add_distrib)
qed

lemma validPassword_iff:
  "validPassword s \<longleftrightarrow> longEnough s \<and> hasLowercase s \<and> hasUppercase s \<and> hasDigit s \<and> hasSpecial s"
  by (simp add: validPassword_def password_checks_def)

lemma role_of_permission_shown:
  "pf_can_read p \<Longrightarrow> \<exists>t. getInviteRoleDisplayText (getInviteRoleFromPermission p) = Inr t"
  by (simp add: getInviteRoleFromPermission_def getInviteRoleDisplayText_def InviteRolesDisplayText_def)

end
