(* ===== verification/Editable.thy ===== *)
theory Editable
  imports Utils
begin

section \<open>Editing and submitting: web/js/component/make-editable.js, make-submittable.js\<close>

text \<open>
  The two wrappers under the forms of the pages: one keeps whether the wrapped component is being
  edited and a copy of its state from before the edit, the other whether a submission is under way.
  The state of the wrapped component maps its fields to addresses, since the components change what lies
  below a field in place; two fields may hold the same address. What lies at an address belongs to the
  fields that hold it. An answer of the API comes as an event; \<open>ef_outstanding\<close> counts the submissions that
  have not been answered.
\<close>

record edit_form =
  ef_heap :: "jsval list"
  ef_fields :: "(string \<times> nat) list"
  ef_editing :: bool
  ef_recovery :: "(string \<times> nat) list option"
  ef_submitting :: bool
  ef_submitted :: bool
  ef_outstanding :: nat
  ef_sent :: "jsobj list"

text \<open>The values the fields have, and new cells for values.\<close>

definition read_fields :: "jsval list \<Rightarrow> (string \<times> nat) list \<Rightarrow> jsobj" where
  "read_fields heap cells = map (\<lambda>(k, a). (k, heap ! a)) cells"

definition content :: "edit_form \<Rightarrow> jsobj" where
  "content s = read_fields (ef_heap s) (ef_fields s)"

definition new_cells :: "jsval list \<Rightarrow> jsobj \<Rightarrow> jsval list \<times> (string \<times> nat) list" where
  "new_cells heap ps =
     (heap @ map snd ps, zip (map fst ps) [length heap..<length heap + length ps])"

definition edit_form_init :: "bool \<Rightarrow> jsobj \<Rightarrow> edit_form" where
  "edit_form_init editing ps =
     (let (heap, cells) = new_cells [] ps
      in \<lparr>ef_heap = heap, ef_fields = cells, ef_editing = editing, ef_recovery = None, ef_submitting = False,
          ef_submitted = False, ef_outstanding = 0, ef_sent = []\<rparr>)"

text \<open>\<open>setState\<close> of the component: the fields named get the addresses given, the others keep theirs.\<close>

definition setState_fields :: "(string \<times> nat) list \<Rightarrow> edit_form \<Rightarrow> edit_form" where
  "setState_fields cells s = s\<lparr>ef_fields := obj_extend (ef_fields s) cells\<rparr>"

definition setState_values :: "jsobj \<Rightarrow> edit_form \<Rightarrow> edit_form" where
  "setState_values ps s =
     (let (heap, cells) = new_cells (ef_heap s) ps in setState_fields cells (s\<lparr>ef_heap := heap\<rparr>))"

subsection \<open>make-submittable.js\<close>

definition resetSubmissionState :: "edit_form \<Rightarrow> edit_form" where
  "resetSubmissionState s = s\<lparr>ef_submitting := False, ef_submitted := False\<rparr>"

definition form_submit :: "edit_form \<Rightarrow> edit_form" where
  "form_submit s =
     (if \<not> ef_submitting s
      then s\<lparr>ef_submitting := True, ef_outstanding := Suc (ef_outstanding s),
             ef_sent := ef_sent s @ [content s]\<rparr>
      else s)"

definition submit_succeeded :: "edit_form \<Rightarrow> edit_form" where
  "submit_succeeded s =
     s\<lparr>ef_submitting := False, ef_submitted := True, ef_outstanding := ef_outstanding s - 1\<rparr>"

definition submit_failed :: "edit_form \<Rightarrow> edit_form" where
  "submit_failed s = s\<lparr>ef_submitting := False, ef_outstanding := ef_outstanding s - 1\<rparr>"

subsection \<open>make-editable.js\<close>

text \<open>The copy of a state: new cells for what JSON keeps of it.\<close>

definition copy_state :: "edit_form \<Rightarrow> jsval list \<times> (string \<times> nat) list" where
  "copy_state s =
     new_cells (ef_heap s) (case deepCopyJson (JObj (content s)) of JObj ps \<Rightarrow> ps | _ \<Rightarrow> [])"

definition startEditing :: "edit_form \<Rightarrow> edit_form" where
  "startEditing s =
     (if \<not> ef_editing s then
        (if ef_recovery s = None
         then (let (heap, cells) = copy_state s
               in s\<lparr>ef_editing := True, ef_heap := heap, ef_recovery := Some cells\<rparr>)
         else s\<lparr>ef_editing := True\<rparr>)
      else s)"

text \<open>The callback of the component hands the recovered state, when there is one, to \<open>setState\<close>.\<close>

definition cancelEditing :: "edit_form \<Rightarrow> edit_form" where
  "cancelEditing s =
     (if ef_editing s
      then resetSubmissionState
             ((case ef_recovery s of None \<Rightarrow> s | Some cells \<Rightarrow> setState_fields cells s)
                \<lparr>ef_editing := False, ef_recovery := None\<rparr>)
      else resetSubmissionState s)"

definition stopEditingAndSubmit :: "edit_form \<Rightarrow> edit_form" where
  "stopEditingAndSubmit s = (if ef_editing s then form_submit s else s)"

text \<open>What the wrappers do with a success, and then the component, which shows the answer.\<close>

definition edit_succeeded :: "jsobj \<Rightarrow> edit_form \<Rightarrow> edit_form" where
  "edit_succeeded answer s =
     setState_values answer ((submit_succeeded s)\<lparr>ef_editing := False, ef_recovery := None\<rparr>)"

text \<open>What the component does to its state: new values for fields, a field that shares the value of another, and
  a change in place of what lies below a field.\<close>

definition share_field :: "string \<Rightarrow> string \<Rightarrow> edit_form \<Rightarrow> edit_form" where
  "share_field k k' s =
     (case map_of (ef_fields s) k' of None \<Rightarrow> s | Some a \<Rightarrow> setState_fields [(k, a)] s)"

definition change_in_place :: "string \<Rightarrow> jsval \<Rightarrow> edit_form \<Rightarrow> edit_form" where
  "change_in_place k v s =
     (case map_of (ef_fields s) k of None \<Rightarrow> s | Some a \<Rightarrow> s\<lparr>ef_heap := (ef_heap s)[a := v]\<rparr>)"

datatype edit_event =
    StartEdit
  | SetFields jsobj
  | ShareField string string
  | ChangeInPlace string jsval
  | Submit
  | Cancel
  | Saved jsobj
  | SaveFailed

inductive edit_step :: "edit_form \<Rightarrow> edit_event \<Rightarrow> edit_form \<Rightarrow> bool" where
  EStart: "edit_step s StartEdit (startEditing s)"
| ESet: "edit_step s (SetFields ps) (setState_values ps s)"
| EShare: "edit_step s (ShareField k k') (share_field k k' s)"
| EChange: "edit_step s (ChangeInPlace k v) (change_in_place k v s)"
| ESubmit: "edit_step s Submit (stopEditingAndSubmit s)"
| ECancel: "edit_step s Cancel (cancelEditing s)"
| ESaved: "0 < ef_outstanding s \<Longrightarrow> edit_step s (Saved v) (edit_succeeded v s)"
| EFailed: "0 < ef_outstanding s \<Longrightarrow> edit_step s SaveFailed (submit_failed s)"

inductive edit_run :: "edit_form \<Rightarrow> edit_event list \<Rightarrow> edit_form \<Rightarrow> bool" where
  RunNil: "edit_run s [] s"
| RunCons: "edit_step s e t \<Longrightarrow> edit_run t es u \<Longrightarrow> edit_run s (e # es) u"

inductive_cases edit_run_ConsE: "edit_run s (e # es) u"

lemmas edit_defs = startEditing_def cancelEditing_def stopEditingAndSubmit_def edit_succeeded_def
  form_submit_def submit_succeeded_def submit_failed_def resetSubmissionState_def
  setState_values_def setState_fields_def share_field_def change_in_place_def

section \<open>Properties\<close>

text \<open>A copy to recover exists only during an edit.\<close>

lemma recovery_only_while_editing:
  assumes "edit_step s e t" "ef_recovery s \<noteq> None \<longrightarrow> ef_editing s"
  shows "ef_recovery t \<noteq> None \<longrightarrow> ef_editing t"
  using assms by cases (auto simp: edit_defs Let_def split: option.splits prod.splits)

definition stays_in_edit :: "edit_event \<Rightarrow> bool" where
  "stays_in_edit e = (case e of Cancel \<Rightarrow> False | Saved _ \<Rightarrow> False | _ \<Rightarrow> True)"

text \<open>The copy lies in cells that no field of the component holds.\<close>

definition recovery_apart :: "(string \<times> nat) list \<Rightarrow> edit_form \<Rightarrow> bool" where
  "recovery_apart cells s =
     (snd ` set (ef_fields s) \<inter> snd ` set cells = {} \<and>
      snd ` set (ef_fields s) \<union> snd ` set cells \<subseteq> {..<length (ef_heap s)})"

definition in_heap :: "edit_form \<Rightarrow> bool" where
  "in_heap s = (snd ` set (ef_fields s) \<subseteq> {..<length (ef_heap s)} \<and> distinct (map fst (ef_fields s)))"

lemma snd_obj_extend: "snd ` set (obj_extend a b) \<subseteq> snd ` set a \<union> snd ` set b"
proof (induction b arbitrary: a)
  case (Cons p b)
  have "snd ` set (AList.update (fst p) (snd p) a) \<subseteq> insert (snd p) (snd ` set a)"
    by (induction a) auto
  then have "snd ` set (obj_extend (AList.update (fst p) (snd p) a) b) \<subseteq> insert (snd p) (snd ` set a) \<union> snd ` set b"
    using Cons.IH [of "AList.update (fst p) (snd p) a"] by (rule order_trans [OF _ Un_mono [OF _ order_refl], rotated])
  then show ?case by simp
qed simp

lemma new_cells_facts:
  assumes "new_cells heap ps = (heap', cells)"
  shows "heap' = heap @ map snd ps" "length heap \<le> length heap'"
    "snd ` set cells = {length heap..<length heap'}" "map fst cells = map fst ps"
    "read_fields heap' cells = ps"
proof -
  have *: "heap' = heap @ map snd ps" "cells = zip (map fst ps) [length heap..<length heap + length ps]"
    using assms by (simp_all add: new_cells_def)
  show "heap' = heap @ map snd ps" "length heap \<le> length heap'" "map fst cells = map fst ps"
    by (simp_all add: *)
  have "map snd cells = [length heap..<length heap']" by (simp add: *)
  then have "set (map snd cells) = {length heap..<length heap'}" by simp
  then show "snd ` set cells = {length heap..<length heap'}" by simp
  show "read_fields heap' cells = ps"
    by (rule nth_equalityI) (simp_all add: read_fields_def * nth_append)
qed

lemma read_fields_append:
  "snd ` set cells \<subseteq> {..<length heap} \<Longrightarrow> read_fields (heap @ extra) cells = read_fields heap cells"
  by (auto simp: read_fields_def nth_append subset_iff image_iff Ball_def)

lemma read_fields_update:
  "a \<notin> snd ` set cells \<Longrightarrow> read_fields (heap[a := v]) cells = read_fields heap cells"
  by (induction cells) (auto simp: read_fields_def)

lemma map_of_snd: "map_of ps k = Some a \<Longrightarrow> a \<in> snd ` set ps"
  by (force dest: map_of_SomeD)

lemma apart_set_fields:
  assumes "recovery_apart cells s" "snd ` set new \<inter> snd ` set cells = {}"
    "snd ` set new \<subseteq> {..<length (ef_heap s)}"
  shows "recovery_apart cells (setState_fields new s)"
proof -
  have "snd ` set (obj_extend (ef_fields s) new) \<inter> snd ` set cells \<subseteq>
      (snd ` set (ef_fields s) \<union> snd ` set new) \<inter> snd ` set cells"
    by (rule Int_mono [OF snd_obj_extend order_refl])
  also have "\<dots> = {}" using assms(1,2) by (simp add: recovery_apart_def Int_Un_distrib2)
  finally have "snd ` set (obj_extend (ef_fields s) new) \<inter> snd ` set cells = {}" by simp
  moreover have "snd ` set (obj_extend (ef_fields s) new) \<subseteq> {..<length (ef_heap s)}"
    using assms(1,3) by (intro order_trans [OF snd_obj_extend]) (simp add: recovery_apart_def)
  ultimately show ?thesis using assms(1) by (simp add: recovery_apart_def setState_fields_def)
qed

text \<open>A step of an edit keeps the copy: it is not touched, and no field comes to hold one of its cells.\<close>

lemma edit_step_keeps_copy:
  assumes "edit_step s e t" "stays_in_edit e" "ef_editing s" "ef_recovery s = Some cells" "recovery_apart cells s"
  shows "ef_editing t \<and> ef_recovery t = Some cells \<and> recovery_apart cells t \<and>
    read_fields (ef_heap t) cells = read_fields (ef_heap s) cells"
  using assms(1)
proof cases
  case EStart
  then show ?thesis using assms by (simp add: startEditing_def)
next
  case (ESet ps)
  obtain heap new where new: "new_cells (ef_heap s) ps = (heap, new)" by fastforce
  note facts = new_cells_facts [OF new]
  have apart: "recovery_apart cells (s\<lparr>ef_heap := heap\<rparr>)"
    using assms(5) facts(2) unfolding recovery_apart_def by (auto intro: less_le_trans)
  have "recovery_apart cells (setState_fields new (s\<lparr>ef_heap := heap\<rparr>))"
    using assms(5) facts(2, 3) by (intro apart_set_fields [OF apart]) (auto simp: recovery_apart_def)
  moreover have "read_fields heap cells = read_fields (ef_heap s) cells"
    unfolding facts(1) using assms(5) by (intro read_fields_append) (simp add: recovery_apart_def)
  ultimately show ?thesis using ESet assms(3, 4) by (simp add: setState_values_def new setState_fields_def)
next
  case (EShare k k')
  show ?thesis
  proof (cases "map_of (ef_fields s) k'")
    case None
    then show ?thesis using EShare assms by (simp add: share_field_def)
  next
    case (Some a)
    have "a \<in> snd ` set (ef_fields s)" using Some by (rule map_of_snd)
    then have "recovery_apart cells (setState_fields [(k, a)] s)"
      using assms(5) by (intro apart_set_fields [OF assms(5)]) (auto simp: recovery_apart_def)
    then show ?thesis using EShare Some assms(3, 4) by (simp add: share_field_def setState_fields_def)
  qed
next
  case (EChange k v)
  show ?thesis
  proof (cases "map_of (ef_fields s) k")
    case None
    then show ?thesis using EChange assms by (simp add: change_in_place_def)
  next
    case (Some a)
    have "a \<notin> snd ` set cells" using map_of_snd [OF Some] assms(5) by (auto simp: recovery_apart_def)
    then show ?thesis using EChange Some assms
      by (simp add: change_in_place_def read_fields_update recovery_apart_def)
  qed
next
  case ESubmit
  then show ?thesis using assms by (simp add: stopEditingAndSubmit_def form_submit_def recovery_apart_def)
next
  case EFailed
  then show ?thesis using assms by (simp add: submit_failed_def recovery_apart_def)
qed (use assms(2) in \<open>simp_all add: stays_in_edit_def\<close>)

lemma edit_run_keeps_copy:
  assumes "edit_run s es t" "list_all stays_in_edit es" "ef_editing s" "ef_recovery s = Some cells"
    "recovery_apart cells s"
  shows "ef_editing t \<and> ef_recovery t = Some cells \<and>
    read_fields (ef_heap t) cells = read_fields (ef_heap s) cells"
  using assms
proof (induction rule: edit_run.induct)
  case (RunNil s)
  then show ?case by simp
next
  case (RunCons s e t es u)
  then show ?case using edit_step_keeps_copy [OF RunCons.hyps(1)] by simp
qed

text \<open>What the copy holds.\<close>

lemma read_fields_keys: "map fst (read_fields heap cells) = map fst cells"
  by (induction cells) (auto simp: read_fields_def)

lemma startEditing_copies:
  assumes "\<not> ef_editing s" "ef_recovery s = None" "in_heap s"
  shows "\<exists>cells. ef_editing (startEditing s) \<and> ef_recovery (startEditing s) = Some cells \<and>
    distinct (map fst cells) \<and> recovery_apart cells (startEditing s) \<and> JObj (read_fields (ef_heap (startEditing s)) cells) = json_clean (JObj (content s))"
proof -
  obtain ps where ps: "deepCopyJson (JObj (content s)) = JObj ps" "json_clean (JObj (content s)) = JObj ps"
    by (simp add: deepCopyJson_def isUndefinedOrNull_def)
  obtain heap cells where new: "new_cells (ef_heap s) ps = (heap, cells)" by fastforce
  note facts = new_cells_facts [OF new]
  have "startEditing s = s\<lparr>ef_editing := True, ef_heap := heap, ef_recovery := Some cells\<rparr>"
    using assms by (simp add: startEditing_def copy_state_def ps(1) new)
  moreover have "recovery_apart cells (s\<lparr>ef_editing := True, ef_heap := heap, ef_recovery := Some cells\<rparr>)"
    using assms(3) facts(2, 3) by (auto simp: recovery_apart_def in_heap_def intro: less_le_trans)
  moreover have "distinct (map fst cells)"
  proof -
    have "distinct (map fst (content s))" using assms(3) by (simp add: content_def read_fields_keys in_heap_def)
    moreover have "map fst ps = map fst (filter (\<lambda>p. snd p \<noteq> JUndef) (content s))"
      using ps(2) by (auto simp: comp_def case_prod_unfold)
    ultimately show ?thesis unfolding facts(4) by (simp add: distinct_map_filter)
  qed
  ultimately show ?thesis using facts(5) ps(2) by simp
qed

lemma read_fields_get: "obj_get (read_fields heap cells) k = (case map_of cells k of None \<Rightarrow> JUndef | Some a \<Rightarrow> heap ! a)"
  by (induction cells) (auto simp: read_fields_def)

lemma cancel_content:
  assumes "ef_editing t" "ef_recovery t = Some cells" "distinct (map fst cells)"
    "obj_get (read_fields (ef_heap t) cells) k \<noteq> JUndef"
  shows "obj_get (content (cancelEditing t)) k = obj_get (read_fields (ef_heap t) cells) k"
proof -
  obtain a where a: "map_of cells k = Some a"
    using assms(4) by (cases "map_of cells k") (simp_all add: read_fields_get)
  have "map_of (obj_extend (ef_fields t) cells) k = Some a"
    by (simp add: map_of_obj_extend_distinct [OF assms(3)] a)
  then show ?thesis
    using assms(1, 2) a
    by (simp add: cancelEditing_def resetSubmissionState_def content_def setState_fields_def read_fields_get)
qed

lemma json_clean_undefined [simp]: "json_clean v = JUndef \<longleftrightarrow> v = JUndef"
  by (cases v) auto

text \<open>C17: Whatever the component does during an edit, changes in place of what lies below its fields included,
  and whatever is submitted and refused: cancelling puts every field that had a value before the edit back to
  that value, up to what JSON does not keep.\<close>

theorem cancel_restores:
  assumes "\<not> ef_editing s" "ef_recovery s = None" "in_heap s"
    "edit_run (startEditing s) es t" "list_all stays_in_edit es"
  shows "\<not> ef_editing (cancelEditing t) \<and> ef_recovery (cancelEditing t) = None \<and>
    (\<forall>k. obj_get (content s) k \<noteq> JUndef \<longrightarrow>
      obj_get (content (cancelEditing t)) k = json_clean (obj_get (content s) k))"
proof -
  obtain cells where start: "ef_editing (startEditing s)" "ef_recovery (startEditing s) = Some cells"
    "distinct (map fst cells)" "recovery_apart cells (startEditing s)"
    "JObj (read_fields (ef_heap (startEditing s)) cells) = json_clean (JObj (content s))"
    using startEditing_copies [OF assms(1-3)] by blast
  have t: "ef_editing t" "ef_recovery t = Some cells"
    "read_fields (ef_heap t) cells = read_fields (ef_heap (startEditing s)) cells"
    using edit_run_keeps_copy [OF assms(4,5) start(1,2,4)] by blast+
  have "distinct (map fst (content s))" using assms(3) by (simp add: content_def read_fields_keys in_heap_def)
  from obj_get_clean [OF this]
  have copied: "obj_get (read_fields (ef_heap t) cells) k = json_clean (obj_get (content s) k)" for k
    unfolding t(3) using start(5) [symmetric] by simp
  have "obj_get (content (cancelEditing t)) k = json_clean (obj_get (content s) k)"
    if "obj_get (content s) k \<noteq> JUndef" for k
    using cancel_content [OF t(1,2) start(3), of k] that by (simp add: copied)
  moreover have "\<not> ef_editing (cancelEditing t) \<and> ef_recovery (cancelEditing t) = None"
    using t by (simp add: cancelEditing_def resetSubmissionState_def)
  ultimately show ?thesis by blast
qed

definition example_form :: edit_form where
  "example_form = edit_form_init False [(''name'', JStr ''a''), (''metric'', JObj [(''threshold'', JNum 1)])]"

definition example_edits :: "edit_form \<Rightarrow> edit_form" where
  "example_edits s =
     submit_failed (stopEditingAndSubmit (change_in_place ''metric'' (JObj []) (setState_values [(''name'', JStr ''b'')] s)))"

lemma example_edit_run:
  "edit_run (startEditing example_form)
     [SetFields [(''name'', JStr ''b'')], ChangeInPlace ''metric'' (JObj []), Submit, SaveFailed]
     (example_edits (startEditing example_form))"
proof -
  have "0 < ef_outstanding (stopEditingAndSubmit (change_in_place ''metric'' (JObj [])
      (setState_values [(''name'', JStr ''b'')] (startEditing example_form))))" by code_simp
  then show ?thesis
    unfolding example_edits_def
    by (intro RunCons [OF ESet] RunCons [OF EChange] RunCons [OF ESubmit] RunCons [OF EFailed] RunNil)
qed

theorem cancel_restores_witness:
  "obj_get (content (cancelEditing (example_edits (startEditing example_form)))) ''metric'' =
     JObj [(''threshold'', JNum 1)]"
proof -
  have before: "\<not> ef_editing example_form" "ef_recovery example_form = None"
    "obj_get (content example_form) ''metric'' = JObj [(''threshold'', JNum 1)]" by code_simp+
  have "in_heap example_form"
    by (simp add: in_heap_def example_form_def edit_form_init_def new_cells_def upt_rec)
  moreover have "list_all stays_in_edit
      [SetFields [(''name'', JStr ''b'')], ChangeInPlace ''metric'' (JObj []), Submit, SaveFailed]"
    by (simp add: stays_in_edit_def)
  ultimately show ?thesis
    using cancel_restores [OF before(1,2) _ example_edit_run] before(3) by simp
qed

text \<open>A field that was undefined before the edit is not in the copy, and keeps what was typed.\<close>

lemma undefined_field_not_restored:
  "obj_get (content (cancelEditing (setState_values [(''note'', JStr ''x'')]
     (startEditing (edit_form_init False [(''note'', JUndef)]))))) ''note'' = JStr ''x''"
  by code_simp

text \<open>As long as nothing is cancelled during a submission, there is at most one.\<close>

lemma single_submission:
  assumes "edit_step s e t" "ef_outstanding s = (if ef_submitting s then 1 else 0)"
    "e = Cancel \<longrightarrow> \<not> ef_submitting s"
  shows "ef_outstanding t = (if ef_submitting t then 1 else 0)"
  using assms by cases (auto simp: edit_defs Let_def split: option.splits prod.splits)

text \<open>Cancelling forgets that a submission is under way: another may then be sent beside it, and the
  answer to the first ends an edit that was begun after it, and drops what was typed.\<close>

lemma stale_answer_ends_new_edit:
  "\<exists>s t. edit_run (edit_form_init False [(''v'', JNum 0)])
       [StartEdit, SetFields [(''v'', JNum 1)], Submit, Cancel, StartEdit, SetFields [(''v'', JNum 2)], Submit] s
     \<and> ef_outstanding s = 2 \<and> edit_step s (Saved [(''v'', JNum 1)]) t
     \<and> \<not> ef_editing t \<and> content t = [(''v'', JNum 1)] \<and> ef_recovery t = None"
proof -
  let ?s0 = "edit_form_init False [(''v'', JNum 0)]"
  let ?s1 = "stopEditingAndSubmit (setState_values [(''v'', JNum 1)] (startEditing ?s0))"
  let ?s2 = "stopEditingAndSubmit (setState_values [(''v'', JNum 2)] (startEditing (cancelEditing ?s1)))"
  have "edit_run ?s0
      [StartEdit, SetFields [(''v'', JNum 1)], Submit, Cancel, StartEdit, SetFields [(''v'', JNum 2)], Submit] ?s2"
    by (intro RunCons [OF EStart] RunCons [OF ESet] RunCons [OF ESubmit] RunCons [OF ECancel] RunNil)
  moreover have outstanding: "ef_outstanding ?s2 = 2" by code_simp
  moreover have "edit_step ?s2 (Saved [(''v'', JNum 1)]) (edit_succeeded [(''v'', JNum 1)] ?s2)"
    by (rule ESaved) (simp add: outstanding)
  moreover have "\<not> ef_editing (edit_succeeded [(''v'', JNum 1)] ?s2)"
    "content (edit_succeeded [(''v'', JNum 1)] ?s2) = [(''v'', JNum 1)]"
    "ef_recovery (edit_succeeded [(''v'', JNum 1)] ?s2) = None" by code_simp+
  ultimately show ?thesis by blast
qed

end
