(* ===== verification/Experiment.thy ===== *)
theory Experiment
  imports Utils "HOL-Library.List_Lexorder"
begin

section \<open>Experiments on the client: web/js/experiment/ui.js\<close>

text \<open>
  What the pages derive from an experiment, and the cleaning and checking of what a user types for
  an observation. A list that is missing from an experiment is the empty list, as underscore reads
  it. Metrics are told apart by their position, as the code tells objects apart by identity. The
  comparison of names (\<open>natural-compare-lite\<close>) is a parameter.
\<close>

subsection \<open>Data\<close>

record metric =
  mt_name :: jsval
  mt_objective :: string
  mt_strategy :: string
  mt_threshold :: jsval

record exp_parameter =
  pm_name :: string
  pm_type :: string
  pm_conditions :: "(string \<times> jsval list) list"
  pm_categorical_values :: "string list"
  pm_prior :: jsval

record exp_conditional =
  cd_name :: string
  cd_values :: "jsval list"

record exp_task =
  tk_name :: string
  tk_cost :: rat

record sigopt_experiment =
  ex_id :: jsval
  ex_object :: jsval
  ex_runs_only :: jsval
  ex_parameters :: "exp_parameter list"
  ex_conditionals :: "exp_conditional list"
  ex_metrics :: "metric list"
  ex_num_solutions :: jsval
  ex_tasks :: "exp_task list option"

record measurement =
  ms_name :: jsval
  ms_value :: jsval
  ms_value_stddev :: jsval

record observation =
  ob_assignments :: "jsobj option"
  ob_suggestion :: jsval
  ob_failed :: jsval
  ob_values :: "measurement list"

subsection \<open>Names and strategies of metrics\<close>

definition metrics_with :: "string \<Rightarrow> sigopt_experiment \<Rightarrow> metric list" where
  "metrics_with strategy e = filter (\<lambda>m. mt_strategy m = strategy) (ex_metrics e)"

definition optimizedMetrics :: "sigopt_experiment \<Rightarrow> metric list" where
  "optimizedMetrics e = metrics_with ''optimize'' e"

definition storedMetrics :: "sigopt_experiment \<Rightarrow> metric list" where
  "storedMetrics e = metrics_with ''store'' e"

definition constrainedMetrics :: "sigopt_experiment \<Rightarrow> metric list" where
  "constrainedMetrics e = metrics_with ''constraint'' e"

definition isSearchExperiment :: "sigopt_experiment \<Rightarrow> bool" where
  "isSearchExperiment e = (length (optimizedMetrics e) = 0)"

definition mostImportantMetrics :: "sigopt_experiment \<Rightarrow> metric list" where
  "mostImportantMetrics e =
     (if isSearchExperiment e then js_slice (constrainedMetrics e) 0 1 else optimizedMetrics e)"

definition hasStoredMetrics :: "sigopt_experiment \<Rightarrow> bool" where
  "hasStoredMetrics e = (0 < length (storedMetrics e))"

definition hasConstrainedMetrics :: "sigopt_experiment \<Rightarrow> bool" where
  "hasConstrainedMetrics e = (0 < length (constrainedMetrics e))"

definition hasMultipleMetrics :: "sigopt_experiment \<Rightarrow> bool" where
  "hasMultipleMetrics e = (1 < length (ex_metrics e))"

definition isParetoOptimizedExperiment :: "sigopt_experiment \<Rightarrow> bool" where
  "isParetoOptimizedExperiment e = (1 < length (optimizedMetrics e))"

definition isExperimentSingleBest :: "sigopt_experiment \<Rightarrow> bool" where
  "isExperimentSingleBest e =
     (\<not> isParetoOptimizedExperiment e
      \<and> (if truthy (ex_num_solutions e) then ex_num_solutions e else JNum 1) = JNum 1)"

definition isMetricOptimized :: "metric \<Rightarrow> bool" where
  "isMetricOptimized m = (mt_strategy m = ''optimize'')"

definition isMetricConstrained :: "metric \<Rightarrow> bool" where
  "isMetricConstrained m = (mt_strategy m = ''constraint'')"

definition thresholdsAllowedForExperiment :: "sigopt_experiment \<Rightarrow> bool" where
  "thresholdsAllowedForExperiment e = (isParetoOptimizedExperiment e \<or> hasConstrainedMetrics e)"

definition thresholdAllowedForMetric :: "sigopt_experiment \<Rightarrow> metric \<Rightarrow> bool" where
  "thresholdAllowedForMetric e m =
     (isMetricConstrained m \<or> (isParetoOptimizedExperiment e \<and> isMetricOptimized m))"

text \<open>The position of a metric: the only one for \<open>null\<close>, by number, or the first of a name.\<close>

fun index_of :: "('a \<Rightarrow> bool) \<Rightarrow> 'a list \<Rightarrow> nat option" where
  "index_of P [] = None"
| "index_of P (x # xs) = (if P x then Some 0 else map_option Suc (index_of P xs))"

definition findMetric :: "sigopt_experiment \<Rightarrow> jsval \<Rightarrow> nat option" where
  "findMetric e key =
     (case key of
        JNull \<Rightarrow> if length (ex_metrics e) = 1 then Some 0 else None
      | JNum n \<Rightarrow>
          (let i = nat \<lfloor>n\<rfloor>
           in if n = of_nat i \<and> i < length (ex_metrics e) then Some i else None)
      | _ \<Rightarrow> index_of (\<lambda>m. mt_name m = key) (ex_metrics e))"

text \<open>By the text of the name, then the optimized ones first; \<open>sortBy\<close> is stable.\<close>

definition name_key :: "jsval \<Rightarrow> nat list" where
  "name_key name = (case name of JStr s \<Rightarrow> map of_char s | _ \<Rightarrow> [])"

definition sortMetrics :: "metric list \<Rightarrow> metric list" where
  "sortMetrics ms =
     sort_key (\<lambda>m. if isMetricOptimized m then (0::nat) else 1) (sort_key (name_key \<circ> mt_name) ms)"

definition nameToStrategy :: "sigopt_experiment \<Rightarrow> (jsval \<times> string) list" where
  "nameToStrategy e = obj_extend [] (map (\<lambda>m. (mt_name m, mt_strategy m)) (ex_metrics e))"

text \<open>The group of a strategy; the measurements of no metric are in the group \<open>None\<close>.\<close>

definition groupMeasurementsByStrategy ::
  "sigopt_experiment \<Rightarrow> measurement list \<Rightarrow> string option \<Rightarrow> measurement list" where
  "groupMeasurementsByStrategy e ms strategy =
     filter (\<lambda>m. map_of (nameToStrategy e) (ms_name m) = strategy) ms"

definition optimizedValues :: "sigopt_experiment \<Rightarrow> measurement list \<Rightarrow> jsval list" where
  "optimizedValues e ms = map ms_value (groupMeasurementsByStrategy e ms (Some ''optimize''))"

subsection \<open>Thresholds\<close>

definition hasThresholds :: "sigopt_experiment \<Rightarrow> bool" where
  "hasThresholds e = list_ex (\<lambda>m. isDefinedAndNotNull (mt_threshold m)) (ex_metrics e)"

definition getThresholds :: "sigopt_experiment \<Rightarrow> (metric \<times> jsval) list" where
  "getThresholds e = map (\<lambda>m. (m, mt_threshold m)) (ex_metrics e)"

definition getThreshold :: "sigopt_experiment \<Rightarrow> jsval \<Rightarrow> jsval" where
  "getThreshold e key =
     (case findMetric e key of None \<Rightarrow> JNull | Some i \<Rightarrow> snd (getThresholds e ! i))"

definition getThresholdMap :: "sigopt_experiment \<Rightarrow> (jsval \<times> jsval) list" where
  "getThresholdMap e = obj_extend [] (map (\<lambda>(m, t). (mt_name m, t)) (getThresholds e))"

definition metricObjectiveOption :: "metric \<Rightarrow> (string \<times> 'a) list \<Rightarrow> js_error + 'a" where
  "metricObjectiveOption m options =
     (case map_of options (mt_objective m) of
        Some x \<Rightarrow> Inr x
      | None \<Rightarrow> Inl (JsError (''Unhandled objective '' @ mt_objective m)))"

text \<open>The comparisons of the language on numbers, \<open>null\<close> (zero) and \<open>undefined\<close> (never).\<close>

fun compared_number :: "jsval \<Rightarrow> rat option" where
  "compared_number (JNum n) = Some n"
| "compared_number JNull = Some 0"
| "compared_number (JBool b) = Some (if b then 1 else 0)"
| "compared_number _ = None"

definition js_le :: "jsval \<Rightarrow> jsval \<Rightarrow> bool" where
  "js_le a b =
     (case (compared_number a, compared_number b) of (Some x, Some y) \<Rightarrow> x \<le> y | _ \<Rightarrow> False)"

definition valueSatisfiesThreshold :: "metric \<Rightarrow> jsval \<Rightarrow> jsval \<Rightarrow> js_error + bool" where
  "valueSatisfiesThreshold m value threshold =
     (if isUndefinedOrNull threshold then Inr True
      else metricObjectiveOption m
             [(''minimize'', js_le value threshold), (''maximize'', js_le threshold value)])"

text \<open>The thresholds are zipped with the values by position. Beyond the shorter list either side of a
  pair is \<open>undefined\<close>, and taking it apart raises a \<open>TypeError\<close>.\<close>

fun thresholds_met :: "(metric \<times> jsval) list \<Rightarrow> measurement list \<Rightarrow> js_error + bool" where
  "thresholds_met [] [] = Inr True"
| "thresholds_met [] (v # vs) = Inl TypeError"
| "thresholds_met ((m, t) # ts) [] =
     (if isDefinedAndNotNull t then Inl TypeError else thresholds_met ts [])"
| "thresholds_met ((m, t) # ts) (v # vs) =
     (if \<not> isDefinedAndNotNull t then thresholds_met ts vs
      else (case valueSatisfiesThreshold m (ms_value v) t of
              Inl e \<Rightarrow> Inl e
            | Inr ok \<Rightarrow> if ok then thresholds_met ts vs else Inr False))"

definition observationSatisfiesThresholds :: "sigopt_experiment \<Rightarrow> observation \<Rightarrow> js_error + bool" where
  "observationSatisfiesThresholds e ob =
     (if truthy (ob_failed ob) then Inr False
      else if length (getThresholds e) < length (ob_values ob) then Inl TypeError
      else thresholds_met (getThresholds e) (ob_values ob))"

fun hasObservationsThatSatisfyThresholds :: "sigopt_experiment \<Rightarrow> observation list \<Rightarrow> js_error + bool" where
  "hasObservationsThatSatisfyThresholds e [] = Inr False"
| "hasObservationsThatSatisfyThresholds e (ob # obs) =
     (case observationSatisfiesThresholds e ob of
        Inl err \<Rightarrow> Inl err
      | Inr True \<Rightarrow> Inr True
      | Inr False \<Rightarrow> hasObservationsThatSatisfyThresholds e obs)"

subsection \<open>Conditions and assignments\<close>

text \<open>A parameter or a conditional that does not exist is read as \<open>undefined\<close>, and its fields raise.\<close>

fun condition_met ::
  "sigopt_experiment \<Rightarrow> jsobj \<Rightarrow> string \<times> jsval list \<Rightarrow> js_error + bool" where
  "condition_met e assignments (conditionalName, acceptedConditionalValues) =
     (case List.find (\<lambda>c. cd_name c = conditionalName) (ex_conditionals e) of
        None \<Rightarrow> Inl TypeError
      | Some condition \<Rightarrow>
          (let conditionAssignment = obj_get assignments conditionalName
           in Inr (conditionAssignment \<in> set (cd_values condition)
                   \<longrightarrow> conditionAssignment \<in> set acceptedConditionalValues)))"

fun all_ok :: "('a \<Rightarrow> 'e + bool) \<Rightarrow> 'a list \<Rightarrow> 'e + bool" where
  "all_ok f [] = Inr True"
| "all_ok f (x # xs) =
     (case f x of
        Inl e \<Rightarrow> Inl e
      | Inr b \<Rightarrow> (case all_ok f xs of Inl e \<Rightarrow> Inl e | Inr c \<Rightarrow> Inr (b \<and> c)))"

definition parameterEnabled :: "sigopt_experiment \<Rightarrow> jsobj \<Rightarrow> string \<Rightarrow> js_error + bool" where
  "parameterEnabled e assignments parameterName =
     (case List.find (\<lambda>p. pm_name p = parameterName) (ex_parameters e) of
        None \<Rightarrow> Inl TypeError
      | Some parameter \<Rightarrow>
          if pm_conditions parameter = [] then Inr True
          else all_ok (condition_met e assignments) (pm_conditions parameter))"

definition renderInputValue :: "jsval \<Rightarrow> string" where
  "renderInputValue v = (if isDefinedAndNotNull v then js_text v else [])"

definition getInitialValues :: "sigopt_experiment \<Rightarrow> measurement list" where
  "getInitialValues e =
     map (\<lambda>m. \<lparr>ms_name = mt_name m, ms_value = JNull, ms_value_stddev = JNull\<rparr>) (ex_metrics e)"

text \<open>\<open>Undefined\<close> for an empty list of tasks, \<open>Null\<close> when the experiment has none.\<close>

definition getInitialTask :: "sigopt_experiment \<Rightarrow> exp_task jsopt" where
  "getInitialTask e =
     (case ex_tasks e of
        None \<Rightarrow> Null
      | Some [] \<Rightarrow> Undefined
      | Some ts \<Rightarrow> Val (last (sort_key tk_cost ts)))"

definition conditional_assignments :: "sigopt_experiment \<Rightarrow> jsobj \<Rightarrow> jsobj" where
  "conditional_assignments e assignments =
     map (\<lambda>c. (cd_name c, obj_get assignments (cd_name c))) (ex_conditionals e)"

definition getInitialAssignments :: "sigopt_experiment \<Rightarrow> jsobj" where
  "getInitialAssignments e =
     obj_extend []
       (map (\<lambda>c. (cd_name c, case cd_values c of [] \<Rightarrow> JUndef | v # _ \<Rightarrow> v)) (ex_conditionals e)
        @ map (\<lambda>p. (pm_name p, case pm_categorical_values p of [] \<Rightarrow> JNull | v # _ \<Rightarrow> JStr v))
            (ex_parameters e))"

definition sanitizeNumber :: "jsval \<Rightarrow> jsval" where
  "sanitizeNumber v = ignoreBlanks (maybeAsNumber v)"

fun filter_ok :: "('a \<Rightarrow> 'e + bool) \<Rightarrow> 'a list \<Rightarrow> 'e + 'a list" where
  "filter_ok f [] = Inr []"
| "filter_ok f (x # xs) =
     (case f x of
        Inl e \<Rightarrow> Inl e
      | Inr b \<Rightarrow> (case filter_ok f xs of Inl e \<Rightarrow> Inl e | Inr ys \<Rightarrow> Inr (if b then x # ys else ys)))"

definition sanitized_assignment :: "jsobj \<Rightarrow> exp_parameter \<Rightarrow> jsval" where
  "sanitized_assignment assignments p =
     (let assignment = obj_get assignments (pm_name p)
      in if pm_type p = ''categorical'' then assignment else sanitizeNumber assignment)"

definition sanitizeAssignments :: "sigopt_experiment \<Rightarrow> jsobj \<Rightarrow> js_error + jsobj" where
  "sanitizeAssignments e assignments =
     (case filter_ok (\<lambda>p. parameterEnabled e assignments (pm_name p)) (ex_parameters e) of
        Inl err \<Rightarrow> Inl err
      | Inr ps \<Rightarrow>
          Inr (obj_extend []
            (conditional_assignments e assignments
             @ filter (\<lambda>kv. isDefinedAndNotNull (snd kv))
                 (map (\<lambda>p. (pm_name p, sanitized_assignment assignments p)) ps))))"

definition sanitizeValues :: "measurement list \<Rightarrow> measurement list" where
  "sanitizeValues ms =
     map (\<lambda>v. \<lparr>ms_name = (if isDefinedAndNotNull (ms_name v) then JStr (js_text (ms_name v)) else JNull),
               ms_value = maybeAsNumber (ms_value v),
               ms_value_stddev =
                 (if ms_value_stddev v = JStr [] then JNull else maybeAsNumber (ms_value_stddev v))\<rparr>) ms"

record sanitized_observation =
  so_assignments :: "jsobj option"
  so_suggestion :: jsval
  so_failed :: jsval
  so_values :: "measurement list option"

definition sanitizeObservation ::
  "sigopt_experiment \<Rightarrow> observation \<Rightarrow> observation option \<Rightarrow> js_error + sanitized_observation" where
  "sanitizeObservation e ob initial =
     (let clean = (case ob_assignments ob of None \<Rightarrow> Inr None
            | Some a \<Rightarrow> (case sanitizeAssignments e a of Inl err \<Rightarrow> Inl err | Inr r \<Rightarrow> Inr (Some r)));
          suggestionId = (if truthy (ob_suggestion ob) then ob_suggestion ob
            else (case initial of None \<Rightarrow> JUndef | Some i \<Rightarrow> ob_suggestion i))
      in case clean of
           Inl err \<Rightarrow> Inl err
         | Inr sanitizedAssignments \<Rightarrow>
             (let unchanged = (case (sanitizedAssignments, initial) of
                      (None, _) \<Rightarrow> True
                    | (Some a, Some i) \<Rightarrow>
                        (case ob_assignments i of None \<Rightarrow> False | Some b \<Rightarrow> is_equal_obj a b)
                    | (Some a, None) \<Rightarrow> False);
                  useSuggestion = (truthy suggestionId \<and> unchanged)
              in Inr \<lparr>so_assignments = (if useSuggestion then None else sanitizedAssignments),
                      so_suggestion = (if useSuggestion then suggestionId else JNull),
                      so_failed = ob_failed ob,
                      so_values = (if truthy (ob_failed ob) then None
                                   else Some (sanitizeValues (ob_values ob)))\<rparr>))"

subsection \<open>Checking an observation\<close>

text \<open>A check gives the alert of the refusal, or nothing when it passes.\<close>

definition isEmptyInputValue :: "jsval \<Rightarrow> bool" where
  "isEmptyInputValue v = (\<not> isDefinedAndNotNull v \<or> v = JStr [])"

fun is_number :: "jsval \<Rightarrow> bool" where
  "is_number (JNum n) = True" | "is_number _ = False"

fun is_boolean :: "jsval \<Rightarrow> bool" where
  "is_boolean (JBool b) = True" | "is_boolean _ = False"

fun first_alert :: "('a \<Rightarrow> string option) \<Rightarrow> 'a list \<Rightarrow> string option" where
  "first_alert f [] = None"
| "first_alert f (x # xs) = (case f x of None \<Rightarrow> first_alert f xs | Some a \<Rightarrow> Some a)"

definition validate_metric_value :: "measurement list \<Rightarrow> bool \<Rightarrow> metric \<Rightarrow> string option" where
  "validate_metric_value ms failed m =
     (let (v, stddev) = (case List.find (\<lambda>x. ms_name x = mt_name m) ms of
            None \<Rightarrow> (JUndef, JUndef) | Some x \<Rightarrow> (ms_value x, ms_value_stddev x));
          metricName = (if truthy (mt_name m)
            then [CHR 0x27] @ js_text (mt_name m) @ [CHR 0x27, CHR '' ''] else [])
      in if failed
         then (if isDefinedAndNotNull v
               then Some (''The metric '' @ metricName @ ''cannot have a value if it failed'')
               else if isDefinedAndNotNull stddev
               then Some (''The metric '' @ metricName @ ''cannot have a standard deviation if it failed'')
               else None)
         else if \<not> is_number v
         then Some (''The value for the metric '' @ metricName @ ''must be a valid number'')
         else if isDefinedAndNotNull stddev \<and> \<not> is_number stddev
         then Some (''The standard deviation for the metric '' @ metricName @ ''is not a valid number'')
         else None)"

definition validateValuesInput ::
  "sigopt_experiment \<Rightarrow> measurement list \<Rightarrow> jsval \<Rightarrow> string option" where
  "validateValuesInput e ms failed =
     (if isDefinedAndNotNull failed \<and> \<not> is_boolean failed
      then Some ''The value for failed must be true or false''
      else first_alert (validate_metric_value ms (truthy failed)) (ex_metrics e))"

text \<open>
  For a parameter whose conditions are not met the code reads \<open>parameter[name]\<close>, where \<open>name\<close> is the
  global of that name: the name of the browser's window. \<open>parameter_prop\<close> reads the fields of a
  parameter that are text; any other key is taken to be absent.
\<close>

definition parameter_prop :: "exp_parameter \<Rightarrow> string \<Rightarrow> jsval" where
  "parameter_prop p k =
     (if k = ''name'' then JStr (pm_name p) else if k = ''type'' then JStr (pm_type p) else JUndef)"

definition validateParameter ::
  "string \<Rightarrow> sigopt_experiment \<Rightarrow> jsobj \<Rightarrow> exp_parameter \<Rightarrow> js_error + string option" where
  "validateParameter windowName e assignments p =
     (case parameterEnabled e assignments (pm_name p) of
        Inl err \<Rightarrow> Inl err
      | Inr True \<Rightarrow>
          Inr (if isEmptyInputValue (obj_get assignments (pm_name p))
               then Some (''The value for parameter '' @ [CHR 0x27] @ pm_name p @ [CHR 0x27]
                          @ '' is required'')
               else None)
      | Inr False \<Rightarrow>
          Inr (if \<not> isEmptyInputValue (obj_get assignments (js_text (parameter_prop p windowName)))
               then Some (''The parameter '' @ [CHR 0x27] @ pm_name p @ [CHR 0x27]
                          @ '' does not have its conditions satisfied and should be empty'')
               else None))"

fun first_alert_ok :: "('a \<Rightarrow> 'e + string option) \<Rightarrow> 'a list \<Rightarrow> 'e + string option" where
  "first_alert_ok f [] = Inr None"
| "first_alert_ok f (x # xs) =
     (case f x of Inl e \<Rightarrow> Inl e | Inr None \<Rightarrow> first_alert_ok f xs | Inr (Some a) \<Rightarrow> Inr (Some a))"

definition validateAssignmentsInput ::
  "string \<Rightarrow> sigopt_experiment \<Rightarrow> jsobj \<Rightarrow> js_error + string option" where
  "validateAssignmentsInput windowName e assignments =
     first_alert_ok (validateParameter windowName e assignments) (ex_parameters e)"

definition validateObservationInput ::
  "string \<Rightarrow> sigopt_experiment \<Rightarrow> sanitized_observation \<Rightarrow> js_error + string option" where
  "validateObservationInput windowName e ob =
     (if truthy (so_suggestion ob) \<and> so_assignments ob \<noteq> None
      then Inr (Some ''An observation cannot be reported with a suggestion and assignments'')
      else if \<not> truthy (so_suggestion ob) \<and> so_assignments ob = None
      then Inr (Some ''An observation must be reported with either a suggestion or assignments'')
      else (case (if truthy (so_suggestion ob) then Inr None
                  else validateAssignmentsInput windowName e (the (so_assignments ob))) of
              Inl err \<Rightarrow> Inl err
            | Inr (Some a) \<Rightarrow> Inr (Some a)
            | Inr None \<Rightarrow>
                Inr (validateValuesInput e (case so_values ob of None \<Rightarrow> [] | Some vs \<Rightarrow> vs)
                  (so_failed ob))))"

subsection \<open>Text typed for a number\<close>

text \<open>
  The three regular expressions have one way to match: an optional sign, the digits, an optional
  point and more digits, an optional exponent, and the end of the text.
\<close>

definition drop_opt :: "char list \<Rightarrow> string \<Rightarrow> string" where
  "drop_opt cs s = (case s of c # r \<Rightarrow> if c \<in> set cs then r else s | [] \<Rightarrow> [])"

definition drop_digits :: "string \<Rightarrow> string" where
  "drop_digits s = dropWhile is_digit s"

definition drop_exponent :: "bool \<Rightarrow> string \<Rightarrow> string" where
  "drop_exponent withSign s =
     (case s of
        c # r \<Rightarrow> if c \<in> {CHR ''e'', CHR ''E''}
                 then drop_digits (if withSign then drop_opt [CHR ''-''] r else r) else s
      | [] \<Rightarrow> [])"

definition validPositiveNumberInput :: "string \<Rightarrow> bool" where
  "validPositiveNumberInput s = (drop_exponent True (drop_digits (drop_opt [CHR ''.''] (drop_digits s))) = [])"

definition validNumberInput :: "string \<Rightarrow> bool" where
  "validNumberInput s = validPositiveNumberInput (drop_opt [CHR ''-''] s)"

definition validIntegerInput :: "string \<Rightarrow> bool" where
  "validIntegerInput s = (drop_exponent False (drop_digits (drop_opt [CHR ''-''] s)) = [])"

subsection \<open>Order and addresses\<close>

text \<open>\<open>sort\<close> of the language with a comparison: stable.\<close>

fun js_insert :: "('a \<Rightarrow> 'a \<Rightarrow> int) \<Rightarrow> 'a \<Rightarrow> 'a list \<Rightarrow> 'a list" where
  "js_insert cmp x [] = [x]"
| "js_insert cmp x (y # ys) = (if cmp x y \<le> 0 then x # y # ys else y # js_insert cmp x ys)"

definition js_sort :: "('a \<Rightarrow> 'a \<Rightarrow> int) \<Rightarrow> 'a list \<Rightarrow> 'a list" where
  "js_sort cmp xs = foldr (js_insert cmp) xs []"

definition byNaturalSortName :: "(string \<Rightarrow> string \<Rightarrow> int) \<Rightarrow> ('a \<Rightarrow> string) \<Rightarrow> 'a \<Rightarrow> 'a \<Rightarrow> int" where
  "byNaturalSortName natCompare name a b = natCompare (name a) (name b)"

definition renderOrder :: "(string \<Rightarrow> string \<Rightarrow> int) \<Rightarrow> sigopt_experiment \<Rightarrow> jsobj \<Rightarrow> string list" where
  "renderOrder natCompare e renderedAssignments =
     (let order = map pm_name (js_sort (byNaturalSortName natCompare pm_name) (ex_parameters e))
      in if ex_conditionals e = [] then order
         else map cd_name (js_sort (byNaturalSortName natCompare cd_name) (ex_conditionals e))
              @ filter (\<lambda>n. isDefinedAndNotNull (obj_get renderedAssignments n)) order)"

definition getMetadataKeys :: "(string \<Rightarrow> string \<Rightarrow> int) \<Rightarrow> jsobj list \<Rightarrow> string list" where
  "getMetadataKeys natCompare metadata =
     js_sort natCompare (rev (remdups (rev (concat (map (map fst) metadata)))))"

definition isAiExperiment :: "sigopt_experiment \<Rightarrow> bool" where
  "isAiExperiment e = (ex_object e = JStr ''aiexperiment'' \<or> truthy (ex_runs_only e))"

definition getExperimentUrl :: "sigopt_experiment \<Rightarrow> jsval \<Rightarrow> string" where
  "getExperimentUrl e path =
     (let objectPath = (if isAiExperiment e then ''aiexperiment'' else ''experiment'');
          subPath = (case path of
              JObj ps \<Rightarrow> if truthy (obj_get ps objectPath) then js_text (obj_get ps objectPath) else []
            | JArr xs \<Rightarrow> []
            | _ \<Rightarrow> if truthy path then js_text path else [])
      in ''/'' @ objectPath @ ''/'' @ js_text (ex_id e) @ subPath)"

definition run_of_observation_url :: "jsval \<Rightarrow> jsval \<Rightarrow> string" where
  "run_of_observation_url experimentId observationId =
     ''/experiment/'' @ js_text experimentId @ ''/observation/'' @ js_text observationId @ ''/run''"

datatype navigation = NewTab string | SameTab string

definition navigateToRunForObservation :: "jsval \<Rightarrow> jsval \<Rightarrow> bool \<Rightarrow> navigation" where
  "navigateToRunForObservation experimentId observationId newTab =
     (if newTab then NewTab (run_of_observation_url experimentId observationId)
      else SameTab (run_of_observation_url experimentId observationId))"

definition hasPrior :: "sigopt_experiment \<Rightarrow> bool" where
  "hasPrior e = list_ex (\<lambda>p. isDefinedAndNotNull (pm_prior p)) (ex_parameters e)"

definition existingInteraction :: "string \<Rightarrow> bool" where
  "existingInteraction st = (st \<in> {''modify'', ''read_only''})"

definition inputInteraction :: "string \<Rightarrow> bool" where
  "inputInteraction st = (st \<in> {''create'', ''modify''})"

definition isParameterTransformationNontrivial :: "jsval \<Rightarrow> bool" where
  "isParameterTransformationNontrivial t = (isDefinedAndNotNull t \<and> t \<noteq> JStr ''none'')"

section \<open>Properties\<close>

subsection \<open>Metrics\<close>

lemma sorted_same_key: "(\<forall>x\<in>set xs. f x = c) \<Longrightarrow> sorted (map f xs)"
  by (induction xs) auto

lemma sort_key_filter: "filter P (sort_key f xs) = sort_key f (filter P xs)"
  by (induction xs) (auto simp: filter_insort_triv filter_insort)

lemma partition_by_key:
  assumes "sorted (map f xs)" "\<And>x. f x \<in> {0::nat, 1}"
  shows "xs = filter (\<lambda>x. f x = 0) xs @ filter (\<lambda>x. f x \<noteq> 0) xs"
  using assms
proof (induction xs)
  case Nil
  then show ?case by simp
next
  case (Cons x xs)
  show ?case
  proof (cases "f x = 0")
    case True
    then show ?thesis using Cons by simp
  next
    case False
    then have "\<forall>y\<in>set xs. f y \<noteq> 0" using Cons.prems by fastforce
    then have "filter (\<lambda>x. f x = 0) xs = []" "filter (\<lambda>x. f x \<noteq> 0) xs = xs"
      by (auto simp: filter_empty_conv)
    then show ?thesis using False by simp
  qed
qed

text \<open>Sorting metrics keeps them all, puts the optimized ones first, and orders either part by name,
  metrics of the same name staying in their order.\<close>

theorem sortMetrics_correct:
  "sortMetrics ms =
     sort_key (name_key \<circ> mt_name) (filter isMetricOptimized ms)
     @ sort_key (name_key \<circ> mt_name) (filter (\<lambda>m. \<not> isMetricOptimized m) ms)"
proof -
  let ?f = "\<lambda>m. if isMetricOptimized m then (0::nat) else 1"
  let ?s = "sort_key (name_key \<circ> mt_name) ms"
  have f: "?f x = 0 \<longleftrightarrow> isMetricOptimized x" for x by simp
  have stable: "filter P (sort_key ?f xs) = filter P xs" if "\<forall>x. P x \<longrightarrow> ?f x = c" for P xs c
    using sorted_same_key [of "filter P xs" ?f c] that
    by (simp add: sort_key_filter sort_key_id_if_sorted)
  have "sortMetrics ms = filter (\<lambda>x. ?f x = 0) (sortMetrics ms) @ filter (\<lambda>x. ?f x \<noteq> 0) (sortMetrics ms)"
    by (rule partition_by_key) (simp_all add: sortMetrics_def)
  also have "\<dots> = filter isMetricOptimized ?s @ filter (\<lambda>m. \<not> isMetricOptimized m) ?s"
    using stable [of isMetricOptimized 0 ?s] stable [of "\<lambda>m. \<not> isMetricOptimized m" 1 ?s]
    by (simp add: sortMetrics_def)
  finally show ?thesis by (simp add: sort_key_filter)
qed

subsection \<open>Thresholds\<close>

lemma length_getThresholds [simp]: "length (getThresholds e) = length (ex_metrics e)"
  by (simp add: getThresholds_def)

lemma index_of_Some: "index_of P xs = Some i \<Longrightarrow> i < length xs \<and> P (xs ! i)"
  by (induction xs arbitrary: i) (auto split: if_splits)

lemma findMetric_in_range: "findMetric e key = Some i \<Longrightarrow> i < length (ex_metrics e)"
  by (auto simp: findMetric_def Let_def index_of_Some split: jsval.splits if_splits)

lemma getThreshold_of_found:
  "findMetric e key = Some i \<Longrightarrow> getThreshold e key = mt_threshold (ex_metrics e ! i)"
  using findMetric_in_range by (simp add: getThreshold_def getThresholds_def)

text \<open>The threshold of a metric, as the code means it: met when there is none, or the value is on the
  side of it that the objective asks for.\<close>

definition threshold_met :: "metric \<Rightarrow> jsval \<Rightarrow> bool" where
  "threshold_met m v =
     (isDefinedAndNotNull (mt_threshold m) \<longrightarrow>
        (if mt_objective m = ''minimize'' then js_le v (mt_threshold m) else js_le (mt_threshold m) v))"

definition known_objective :: "metric \<Rightarrow> bool" where
  "known_objective m = (mt_objective m = ''minimize'' \<or> mt_objective m = ''maximize'')"

lemma isDefinedAndNotNull_iff: "isDefinedAndNotNull v \<longleftrightarrow> \<not> isUndefinedOrNull v"
  by (simp add: isDefinedAndNotNull_def)

lemma valueSatisfiesThreshold_known:
  "known_objective m \<Longrightarrow> valueSatisfiesThreshold m v (mt_threshold m) = Inr (threshold_met m v)"
  by (auto simp: valueSatisfiesThreshold_def threshold_met_def known_objective_def
      metricObjectiveOption_def isDefinedAndNotNull_iff)

lemma thresholds_met_zip:
  assumes "list_all known_objective ms" "length vs = length ms"
  shows "thresholds_met (map (\<lambda>m. (m, mt_threshold m)) ms) vs =
    Inr (list_all (\<lambda>(m, v). threshold_met m (ms_value v)) (zip ms vs))"
  using assms
proof (induction ms arbitrary: vs)
  case Nil
  then show ?case by simp
next
  case (Cons m ms)
  then obtain v vs' where "vs = v # vs'" by (cases vs) auto
  then show ?case
    using Cons by (simp add: valueSatisfiesThreshold_known) (simp add: threshold_met_def)
qed

text \<open>An observation with one value per metric, in the order of the metrics, satisfies the
  thresholds exactly when it did not fail and each value meets the threshold of its metric.\<close>

theorem observation_thresholds_correct:
  assumes "list_all known_objective (ex_metrics e)" "map ms_name (ob_values ob) = map mt_name (ex_metrics e)"
  shows "observationSatisfiesThresholds e ob =
    Inr (\<not> truthy (ob_failed ob)
      \<and> list_all (\<lambda>(m, v). ms_name v = mt_name m \<and> threshold_met m (ms_value v))
          (zip (ex_metrics e) (ob_values ob)))"
proof -
  have len: "length (ob_values ob) = length (ex_metrics e)"
    using assms(2) by (metis length_map)
  have "ms_name v = mt_name m" if "(m, v) \<in> set (zip (ex_metrics e) (ob_values ob))" for m v
    using that assms(2) len by (auto simp: in_set_zip) (metis nth_map)
  then have "list_all (\<lambda>(m, v). ms_name v = mt_name m \<and> threshold_met m (ms_value v))
      (zip (ex_metrics e) (ob_values ob)) =
    list_all (\<lambda>(m, v). threshold_met m (ms_value v)) (zip (ex_metrics e) (ob_values ob))"
    by (fastforce simp: list_all_iff)
  then show ?thesis
    using thresholds_met_zip [OF assms(1) len] len
    by (simp add: observationSatisfiesThresholds_def getThresholds_def)
qed

definition example_experiment :: sigopt_experiment where
  "example_experiment =
     \<lparr>ex_id = JNum 1, ex_object = JStr ''experiment'', ex_runs_only = JUndef,
      ex_parameters =
        [\<lparr>pm_name = ''x'', pm_type = ''double'', pm_conditions = [(''c'', [JStr ''a''])],
          pm_categorical_values = [], pm_prior = JNull\<rparr>,
         \<lparr>pm_name = ''y'', pm_type = ''categorical'', pm_conditions = [],
          pm_categorical_values = [''u'', ''v''], pm_prior = JNull\<rparr>],
      ex_conditionals = [\<lparr>cd_name = ''c'', cd_values = [JStr ''a'', JStr ''b'']\<rparr>],
      ex_metrics =
        [\<lparr>mt_name = JStr ''f'', mt_objective = ''maximize'', mt_strategy = ''optimize'', mt_threshold = JNull\<rparr>,
         \<lparr>mt_name = JStr ''g'', mt_objective = ''minimize'', mt_strategy = ''constraint'', mt_threshold = JNum 3\<rparr>],
      ex_num_solutions = JUndef, ex_tasks = None\<rparr>"

definition example_observation :: "rat \<Rightarrow> observation" where
  "example_observation n =
     \<lparr>ob_assignments = Some [(''c'', JStr ''a''), (''x'', JStr ''0.5''), (''y'', JStr ''u'')],
      ob_suggestion = JUndef, ob_failed = JBool False,
      ob_values = [\<lparr>ms_name = JStr ''f'', ms_value = JNum 1, ms_value_stddev = JNull\<rparr>,
                   \<lparr>ms_name = JStr ''g'', ms_value = JNum n, ms_value_stddev = JNull\<rparr>]\<rparr>"

theorem observation_thresholds_correct_witness:
  "observationSatisfiesThresholds example_experiment (example_observation 2) = Inr True
   \<and> observationSatisfiesThresholds example_experiment (example_observation 4) = Inr False"
  using observation_thresholds_correct [of example_experiment "example_observation 2"]
    observation_thresholds_correct [of example_experiment "example_observation 4"]
  by (simp add: example_experiment_def example_observation_def known_objective_def threshold_met_def
      isDefinedAndNotNull_def isUndefinedOrNull_def js_le_def)

subsection \<open>Assignments\<close>

lemma filter_ok_Inr:
  "filter_ok f xs = Inr ys \<Longrightarrow> ys = filter (\<lambda>x. f x = Inr True) xs \<and> (\<forall>x\<in>set xs. \<exists>b. f x = Inr b)"
proof (induction xs arbitrary: ys)
  case Nil
  then show ?case by simp
next
  case (Cons x xs)
  then obtain b ys' where "f x = Inr b" "filter_ok f xs = Inr ys'"
    by (auto split: sum.splits)
  then show ?case using Cons by auto
qed

lemma all_ok_Inr: "all_ok f xs = Inr b \<Longrightarrow> b = (\<forall>x\<in>set xs. f x = Inr True)"
proof (induction xs arbitrary: b)
  case Nil
  then show ?case by simp
next
  case (Cons x xs)
  then obtain c d where "f x = Inr c" "all_ok f xs = Inr d" "b = (c \<and> d)"
    by (auto split: sum.splits)
  then show ?case using Cons.IH [of d] by auto
qed

lemma map_of_obj_extend_empty_distinct:
  "distinct (map fst b) \<Longrightarrow> map_of (obj_extend [] b) = map_of b"
  by (simp add: map_of_obj_extend_distinct)

lemma find_fresh_name: "k \<notin> pm_name ` set ps \<Longrightarrow> List.find (\<lambda>q. pm_name q = k) ps = None"
  by (auto simp: find_None_iff')

lemma map_of_assigned:
  "distinct (map pm_name ps) \<Longrightarrow>
   map_of (filter (\<lambda>kv. P (snd kv)) (map (\<lambda>p. (pm_name p, f p)) ps)) k =
     (case List.find (\<lambda>p. pm_name p = k) ps of
        None \<Rightarrow> None | Some p \<Rightarrow> if P (f p) then Some (f p) else None)"
proof (induction ps)
  case Nil
  then show ?case by simp
next
  case (Cons p ps)
  have "List.find (\<lambda>q. pm_name q = pm_name p) ps = None"
    using Cons.prems by (simp add: find_fresh_name)
  then show ?case using Cons by auto
qed

lemma find_filter_name:
  "distinct (map pm_name ps) \<Longrightarrow>
   List.find (\<lambda>p. pm_name p = k) (filter Q ps) =
     (case List.find (\<lambda>p. pm_name p = k) ps of
        None \<Rightarrow> None | Some p \<Rightarrow> if Q p then Some p else None)"
proof (induction ps)
  case Nil
  then show ?case by simp
next
  case (Cons p ps)
  have "List.find (\<lambda>q. pm_name q = pm_name p) ps = None"
    using Cons.prems by (simp add: find_fresh_name)
  then show ?case using Cons by auto
qed

definition names_distinct :: "sigopt_experiment \<Rightarrow> bool" where
  "names_distinct e = distinct (map cd_name (ex_conditionals e) @ map pm_name (ex_parameters e))"

lemma map_of_conditional_assignments:
  "map_of (conditional_assignments e a) k =
     (if k \<in> cd_name ` set (ex_conditionals e) then Some (obj_get a k) else None)"
proof -
  have "map_of (map (\<lambda>c. (cd_name c, obj_get a (cd_name c))) cs) k =
      (if k \<in> cd_name ` set cs then Some (obj_get a k) else None)"
    for cs :: "exp_conditional list"
    by (induction cs) auto
  then show ?thesis by (simp add: conditional_assignments_def)
qed

lemma map_fst_conditional_assignments [simp]:
  "map fst (conditional_assignments e a) = map cd_name (ex_conditionals e)"
  by (simp add: conditional_assignments_def)

lemma distinct_assigned:
  "distinct (map pm_name ps) \<Longrightarrow> distinct (map fst (filter Q (map (\<lambda>p. (pm_name p, f p)) ps)))"
  by (rule distinct_map_filter) (simp add: comp_def)

text \<open>The cleaned assignments of an observation hold the value of every conditional, and of every
  parameter whose conditions are met and whose value is not blank the cleaned value (a number when
  the text is one, unless the parameter is categorical); nothing else is sent.\<close>

theorem sanitizeAssignments_correct:
  assumes "names_distinct e" "sanitizeAssignments e a = Inr r"
  shows "map_of r k =
    (if k \<in> cd_name ` set (ex_conditionals e) then Some (obj_get a k)
     else (case List.find (\<lambda>p. pm_name p = k) (ex_parameters e) of
             None \<Rightarrow> None
           | Some p \<Rightarrow>
               if parameterEnabled e a k = Inr True \<and> isDefinedAndNotNull (sanitized_assignment a p)
               then Some (sanitized_assignment a p) else None))"
proof -
  let ?on = "\<lambda>p. parameterEnabled e a (pm_name p) = Inr True"
  let ?sent = "filter (\<lambda>kv. isDefinedAndNotNull (snd kv))
    (map (\<lambda>p. (pm_name p, sanitized_assignment a p)) (filter ?on (ex_parameters e)))"
  have dist: "distinct (map pm_name (ex_parameters e))" "distinct (map cd_name (ex_conditionals e))"
    and disj: "cd_name ` set (ex_conditionals e) \<inter> pm_name ` set (ex_parameters e) = {}"
    using assms(1) by (auto simp: names_distinct_def)
  have on_dist: "distinct (map pm_name (filter ?on (ex_parameters e)))"
    using dist(1) by (rule distinct_map_filter)
  have r: "r = obj_extend [] (conditional_assignments e a @ ?sent)"
    using assms(2) by (auto simp: sanitizeAssignments_def dest: filter_ok_Inr split: sum.splits)
  have "fst ` set ?sent \<subseteq> pm_name ` set (ex_parameters e)" by auto
  then have "distinct (map fst (conditional_assignments e a @ ?sent))"
    using dist(2) disj distinct_assigned [OF on_dist] by auto
  then have "map_of r = map_of (conditional_assignments e a @ ?sent)"
    using r by (simp only: map_of_obj_extend_empty_distinct)
  then have eq: "map_of r k = (map_of ?sent ++ map_of (conditional_assignments e a)) k"
    by (simp only: map_of_append)
  have sent: "map_of ?sent k = (case List.find (\<lambda>p. pm_name p = k) (ex_parameters e) of
        None \<Rightarrow> None
      | Some p \<Rightarrow> if ?on p \<and> isDefinedAndNotNull (sanitized_assignment a p)
          then Some (sanitized_assignment a p) else None)"
    by (simp add: map_of_assigned [OF on_dist] find_filter_name [OF dist(1)] split: option.split)
  have none: "map_of ?sent k = None" if "k \<in> cd_name ` set (ex_conditionals e)"
    using that disj by (auto simp: map_of_eq_None_iff)
  show ?thesis
    using eq sent none
    by (auto simp: map_add_def map_of_conditional_assignments dest: find_Some_iff' split: option.splits)
qed

theorem sanitizeAssignments_correct_witness:
  "map_of (projr (sanitizeAssignments example_experiment
     [(''c'', JStr ''b''), (''x'', JStr ''5''), (''y'', JStr ''u'')])) ''x'' = None"
proof -
  let ?a = "[(''c'', JStr ''b''), (''x'', JStr ''5''), (''y'', JStr ''u'')]"
  have off: "parameterEnabled example_experiment ?a ''x'' = Inr False"
    by (simp add: parameterEnabled_def example_experiment_def)
  have "parameterEnabled example_experiment ?a ''y'' = Inr True"
    by (simp add: parameterEnabled_def example_experiment_def)
  then obtain r where r: "sanitizeAssignments example_experiment ?a = Inr r"
    using off by (simp add: sanitizeAssignments_def example_experiment_def)
  show ?thesis
    using sanitizeAssignments_correct [of example_experiment ?a r "''x''"] r off
    by (simp add: names_distinct_def example_experiment_def)
qed

subsection \<open>Checks\<close>

lemma first_alert_None_iff: "first_alert f xs = None \<longleftrightarrow> (\<forall>x\<in>set xs. f x = None)"
  by (induction xs) (auto split: option.split)

lemma first_alert_ok_None_iff: "first_alert_ok f xs = Inr None \<longleftrightarrow> (\<forall>x\<in>set xs. f x = Inr None)"
  by (induction xs) (auto split: sum.split option.split)

text \<open>Checking the assignments of an observation passes exactly when every parameter whose conditions
  are met has a value: because the code looks up \<open>parameter[name]\<close> instead of
  \<open>parameter.name\<close>, a value given to a parameter whose conditions are not met is never refused
  (unless the window happens to be named after a field of a parameter).\<close>

theorem validateAssignments_ignores_disabled:
  assumes "windowName \<noteq> ''name''" "windowName \<noteq> ''type''"
    "isEmptyInputValue (obj_get a ''undefined'')"
    "\<forall>p\<in>set (ex_parameters e). parameterEnabled e a (pm_name p) = Inr (on p)"
  shows "validateAssignmentsInput windowName e a = Inr None \<longleftrightarrow>
    (\<forall>p\<in>set (ex_parameters e). on p \<longrightarrow> \<not> isEmptyInputValue (obj_get a (pm_name p)))"
proof -
  have "validateParameter windowName e a p = Inr None \<longleftrightarrow>
      (on p \<longrightarrow> \<not> isEmptyInputValue (obj_get a (pm_name p)))"
    if "p \<in> set (ex_parameters e)" for p
    using that assms by (cases "on p") (simp_all add: validateParameter_def parameter_prop_def)
  then show ?thesis
    by (simp add: validateAssignmentsInput_def first_alert_ok_None_iff)
qed

theorem validateAssignments_ignores_disabled_witness:
  "validateAssignmentsInput [] example_experiment [(''c'', JStr ''b''), (''x'', JNum 5), (''y'', JStr ''u'')]
     = Inr None"
proof -
  let ?a = "[(''c'', JStr ''b''), (''x'', JNum 5), (''y'', JStr ''u'')]"
  have "parameterEnabled example_experiment ?a ''x'' = Inr False"
    and "parameterEnabled example_experiment ?a ''y'' = Inr True"
    by (simp_all add: parameterEnabled_def example_experiment_def)
  then have "\<forall>p\<in>set (ex_parameters example_experiment).
      parameterEnabled example_experiment ?a (pm_name p) = Inr (pm_name p = ''y'')"
    by (simp add: example_experiment_def)
  from validateAssignments_ignores_disabled [OF _ _ _ this, of "[]"]
  show ?thesis
    by (simp add: example_experiment_def isEmptyInputValue_def isDefinedAndNotNull_def isUndefinedOrNull_def)
qed

lemma validateValuesInput_ok_iff:
  "validateValuesInput e ms failed = None \<longleftrightarrow>
     (isDefinedAndNotNull failed \<longrightarrow> is_boolean failed)
     \<and> (\<forall>m\<in>set (ex_metrics e). validate_metric_value ms (truthy failed) m = None)"
  by (simp add: validateValuesInput_def first_alert_None_iff)

lemma validateObservationInput_ok:
  assumes "validateObservationInput w e ob = Inr None"
  shows "truthy (so_suggestion ob) = (so_assignments ob = None)
    \<and> validateValuesInput e (case so_values ob of None \<Rightarrow> [] | Some vs \<Rightarrow> vs) (so_failed ob) = None"
  using assms
  by (auto simp: validateObservationInput_def split: if_splits sum.splits option.splits)

text \<open>A cleaned observation names a suggestion or assignments, never both.\<close>

lemma sanitizeObservation_one_origin:
  assumes "sanitizeObservation e ob initial = Inr r"
  shows "so_assignments r = None \<or> \<not> truthy (so_suggestion r)"
  using assms
  by (auto simp: sanitizeObservation_def Let_def split: sum.splits if_splits option.splits)

subsection \<open>Typed numbers\<close>

definition all_digits :: "string \<Rightarrow> bool" where
  "all_digits s = list_all is_digit s"

definition optional_char :: "char \<Rightarrow> (string \<Rightarrow> bool) \<Rightarrow> string \<Rightarrow> bool" where
  "optional_char c L s = (L s \<or> (\<exists>r. s = c # r \<and> L r))"

definition exponent_text :: "bool \<Rightarrow> string \<Rightarrow> bool" where
  "exponent_text withSign s =
     (s = [] \<or> (\<exists>c r. s = c # r \<and> c \<in> {CHR ''e'', CHR ''E''}
        \<and> (if withSign then optional_char CHR ''-'' all_digits r else all_digits r)))"

lemma is_digit_marks [simp]:
  "\<not> is_digit CHR ''e''" "\<not> is_digit CHR ''E''" "\<not> is_digit CHR ''-''" "\<not> is_digit CHR ''.''"
  by (simp_all add: is_digit_def)

lemma drop_digits_language:
  assumes "\<And>d r. is_digit d \<Longrightarrow> L (d # r) \<Longrightarrow> L r"
  shows "L (drop_digits s) \<longleftrightarrow> (\<exists>i r. s = i @ r \<and> all_digits i \<and> L r)"
proof
  assume "L (drop_digits s)"
  then show "\<exists>i r. s = i @ r \<and> all_digits i \<and> L r"
    by (intro exI [of _ "takeWhile is_digit s"] exI [of _ "drop_digits s"])
      (auto simp: drop_digits_def all_digits_def list_all_iff dest: set_takeWhileD)
next
  have drop: "L r \<Longrightarrow> L (dropWhile is_digit r)" for r
    by (induction r) (auto intro: assms)
  assume "\<exists>i r. s = i @ r \<and> all_digits i \<and> L r"
  then obtain i r where "s = i @ r" "all_digits i" "L r" by blast
  then show "L (drop_digits s)"
    using drop [of r] by (auto simp: drop_digits_def all_digits_def list_all_iff dropWhile_append2)
qed

lemma drop_opt_language:
  assumes "\<And>r. L (c # r) \<Longrightarrow> L r"
  shows "L (drop_opt [c] s) \<longleftrightarrow> optional_char c L s"
  using assms by (cases s) (auto simp: drop_opt_def optional_char_def)

lemma drop_digits_nil: "drop_digits s = [] \<longleftrightarrow> all_digits s"
  by (simp add: drop_digits_def all_digits_def list_all_iff)

lemma drop_exponent_nil: "drop_exponent withSign s = [] \<longleftrightarrow> exponent_text withSign s"
proof (cases s)
  case Nil
  then show ?thesis by (simp add: drop_exponent_def exponent_text_def)
next
  case (Cons c r)
  have "drop_digits (drop_opt [CHR ''-''] r) = [] \<longleftrightarrow> optional_char CHR ''-'' all_digits r"
    using drop_opt_language [of all_digits "CHR ''-''" r]
    by (simp add: drop_digits_nil) (simp add: all_digits_def)
  then show ?thesis
    by (simp add: Cons drop_exponent_def exponent_text_def drop_digits_nil)
qed

lemma exponent_text_start: "exponent_text w (d # r) \<Longrightarrow> d \<in> {CHR ''e'', CHR ''E''}"
  by (auto simp: exponent_text_def)

definition number_tail :: "string \<Rightarrow> bool" where
  "number_tail s = (\<exists>f ex. s = f @ ex \<and> all_digits f \<and> exponent_text True ex)"

lemma number_tail_digit: "is_digit d \<Longrightarrow> number_tail (d # r) \<Longrightarrow> number_tail r"
proof -
  assume d: "is_digit d" and "number_tail (d # r)"
  then obtain f ex where f: "d # r = f @ ex" "all_digits f" "exponent_text True ex"
    by (auto simp: number_tail_def)
  then have "f \<noteq> []" using d exponent_text_start by (metis append_Nil insertE is_digit_marks(1,2) singletonD)
  then show ?thesis using f by (cases f) (auto simp: number_tail_def all_digits_def)
qed

lemma number_tail_start: "number_tail (c # r) \<Longrightarrow> is_digit c \<or> c \<in> {CHR ''e'', CHR ''E''}"
proof -
  assume "number_tail (c # r)"
  then obtain f ex where "c # r = f @ ex" "all_digits f" "exponent_text True ex"
    by (auto simp: number_tail_def)
  then show ?thesis
    using exponent_text_start by (cases f) (auto simp: all_digits_def)
qed

lemma number_tail_no_point: "\<not> number_tail (CHR ''.'' # r)"
  using number_tail_start by fastforce

definition decimal_text :: "string \<Rightarrow> bool" where
  "decimal_text s = (\<exists>i r. s = i @ r \<and> all_digits i \<and> optional_char CHR ''.'' number_tail r)"

lemma validPositiveNumberInput_iff: "validPositiveNumberInput s \<longleftrightarrow> decimal_text s"
proof -
  have tail: "drop_exponent True (drop_digits x) = [] \<longleftrightarrow> number_tail x" for x
  proof -
    have "exponent_text True r" if "is_digit d" "exponent_text True (d # r)" for d r
      using exponent_text_start [OF that(2)] that(1) by auto
    then show ?thesis
      using drop_digits_language [of "exponent_text True" x] by (simp add: drop_exponent_nil number_tail_def)
  qed
  have point: "number_tail (drop_opt [CHR ''.''] x) \<longleftrightarrow> optional_char CHR ''.'' number_tail x" for x
    by (rule drop_opt_language) (simp add: number_tail_no_point)
  have "optional_char CHR ''.'' number_tail r"
    if "is_digit d" "optional_char CHR ''.'' number_tail (d # r)" for d r
    using that number_tail_digit by (auto simp: optional_char_def)
  then show ?thesis
    using drop_digits_language [of "optional_char CHR ''.'' number_tail" s]
    by (simp add: validPositiveNumberInput_def decimal_text_def tail point)
qed

lemma decimal_text_no_sign: "\<not> decimal_text (CHR ''-'' # r)"
proof
  assume "decimal_text (CHR ''-'' # r)"
  then obtain i x where i: "CHR ''-'' # r = i @ x" "all_digits i" "optional_char CHR ''.'' number_tail x"
    by (auto simp: decimal_text_def)
  moreover have "\<not> number_tail (CHR ''-'' # r)"
    using number_tail_start [of "CHR ''-''" r] by auto
  ultimately show False
    by (cases i) (auto simp: all_digits_def optional_char_def)
qed

text \<open>The checks of a number being typed accept exactly the texts of their regular expressions: for a
  decimal an optional minus sign, digits, an optional point, digits, and an optional exponent
  (\<open>e\<close> or \<open>E\<close>, an optional minus sign, digits); for an integer an optional minus sign, digits and
  an optional exponent without a sign.\<close>

theorem number_input_grammar:
  "(validNumberInput s \<longleftrightarrow> optional_char CHR ''-'' decimal_text s)
   \<and> (validPositiveNumberInput s \<longleftrightarrow> decimal_text s)
   \<and> (validIntegerInput s \<longleftrightarrow>
        optional_char CHR ''-'' (\<lambda>t. \<exists>i ex. t = i @ ex \<and> all_digits i \<and> exponent_text False ex) s)"
proof -
  let ?int = "\<lambda>t. \<exists>i ex. t = i @ ex \<and> all_digits i \<and> exponent_text False ex"
  have digits: "?int r" if "is_digit d" "exponent_text False (d # r)" for d r
    using exponent_text_start [OF that(2)] that(1) by auto
  have int: "drop_exponent False (drop_digits x) = [] \<longleftrightarrow> ?int x" for x
  proof -
    have "exponent_text False r" if "is_digit d" "exponent_text False (d # r)" for d r
      using exponent_text_start [OF that(2)] that(1) by auto
    then show ?thesis
      using drop_digits_language [of "exponent_text False" x] by (simp add: drop_exponent_nil)
  qed
  have no_sign: "\<not> ?int (CHR ''-'' # r)" for r
  proof
    assume "?int (CHR ''-'' # r)"
    then obtain i ex where "CHR ''-'' # r = i @ ex" "all_digits i" "exponent_text False ex"
      by blast
    then show False
      using exponent_text_start by (cases i) (auto simp: all_digits_def)
  qed
  have "?int (drop_opt [CHR ''-''] s) \<longleftrightarrow> optional_char CHR ''-'' ?int s"
    by (rule drop_opt_language [of ?int]) (use no_sign in blast)
  moreover have "decimal_text (drop_opt [CHR ''-''] s) \<longleftrightarrow> optional_char CHR ''-'' decimal_text s"
    by (rule drop_opt_language) (simp add: decimal_text_no_sign)
  ultimately show ?thesis
    by (simp add: validNumberInput_def validIntegerInput_def validPositiveNumberInput_iff int)
qed

lemma number_input_examples:
  "validNumberInput ''-1.5e-3'' \<and> validNumberInput ''.'' \<and> \<not> validNumberInput ''1..2''
   \<and> \<not> validPositiveNumberInput ''-1'' \<and> validIntegerInput ''-12e3'' \<and> \<not> validIntegerInput ''1.5''"
  by (simp add: validNumberInput_def validPositiveNumberInput_def validIntegerInput_def drop_opt_def
      drop_digits_def drop_exponent_def is_digit_def)

end
