(* ===== verification/Editor.thy ===== *)
theory Editor
  imports Editable Experiment Errors
begin

section \<open>The experiment editor: web/js/experiment/editor.js\<close>

text \<open>
  The form in which an experiment is created or changed. Parameters, conditionals and the values of
  a conditional are told apart by an edit key, a random text; new keys are arguments. A condition of
  a parameter names a conditional by its key and the accepted values by theirs, and
  \<open>sanitizeExperiment\<close> turns both into names. Other fields of the experiment are JSON.
\<close>

record ed_value =
  ev_name :: string
  ev_key :: string

record ed_conditional =
  dc_name :: string
  dc_key :: string
  dc_values :: "ed_value list"

record ed_parameter =
  dp_name :: string
  dp_key :: string
  dp_fields :: jsobj
  dp_conditions :: "(string \<times> string list) list"

record ed_metadata =
  md_key :: string
  md_value :: jsval
  md_new :: bool
  md_number :: bool

record editor =
  dt_parameters :: "ed_parameter list"
  dt_conditionals :: "ed_conditional list"
  dt_metrics :: "jsval list"
  dt_rest :: jsobj
  dt_metadata :: "ed_metadata list"

subsection \<open>Defaults\<close>

definition defaultConditional :: "string \<Rightarrow> string \<Rightarrow> ed_conditional" where
  "defaultConditional valueKey key =
     \<lparr>dc_name = [], dc_key = key, dc_values = [\<lparr>ev_name = [], ev_key = valueKey\<rparr>]\<rparr>"

definition defaultMetric :: jsval where
  "defaultMetric = JObj [(''name'', JStr []), (''object'', JStr ''metric''), (''objective'', JStr ''maximize'')]"

definition defaultParameter :: "string \<Rightarrow> ed_parameter" where
  "defaultParameter key =
     \<lparr>dp_name = [], dp_key = key,
      dp_fields =
        [(''type'', JStr ''double''), (''bounds'', JObj [(''min'', JStr []), (''max'', JStr [])]),
         (''categorical_values'', JArr []), (''isNew'', JBool True)],
      dp_conditions = []\<rparr>"

definition metadata_rows :: "jsobj \<Rightarrow> ed_metadata list" where
  "metadata_rows metadata =
     map (\<lambda>(k, v). \<lparr>md_key = k, md_value = v, md_new = False, md_number = is_number v\<rparr>)
       (sort_key (\<lambda>kv. map of_char (fst kv) :: nat list) metadata)"

definition defaultExperiment :: "string \<Rightarrow> editor" where
  "defaultExperiment key =
     \<lparr>dt_parameters = [defaultParameter key], dt_conditionals = [], dt_metrics = [defaultMetric],
      dt_rest = [(''name'', JNull), (''project'', JNull)], dt_metadata = []\<rparr>"

subsection \<open>Fields\<close>

text \<open>A path of fields is followed, making objects where a field is not truthy, and its last field is
  set. A field that holds no object cannot be written to.\<close>

fun set_path :: "string list \<Rightarrow> jsval \<Rightarrow> jsval \<Rightarrow> js_error + jsval" where
  "set_path [] v obj = Inr obj"
| "set_path [k] v obj =
     (case obj of JObj ps \<Rightarrow> Inr (JObj (AList.update k v ps)) | _ \<Rightarrow> Inl TypeError)"
| "set_path (k # k' # ks) v obj =
     (case obj of
        JObj ps \<Rightarrow>
          (let inner = (if truthy (obj_get ps k) then obj_get ps k else JObj [])
           in case set_path (k' # ks) v inner of
                Inl e \<Rightarrow> Inl e
              | Inr inner' \<Rightarrow> Inr (JObj (AList.update k inner' ps)))
      | _ \<Rightarrow> Inl TypeError)"

definition setFieldOnObject :: "string \<Rightarrow> jsval \<Rightarrow> jsval \<Rightarrow> js_error + jsval" where
  "setFieldOnObject field v obj = set_path (js_split field ''.'') v obj"

text \<open>The field of a one-part path that is none of the lists of the record.\<close>

definition setExperimentField :: "string \<Rightarrow> jsval \<Rightarrow> editor \<Rightarrow> js_error + editor" where
  "setExperimentField field v s =
     (case setFieldOnObject field v (JObj (dt_rest s)) of
        Inl e \<Rightarrow> Inl e
      | Inr (JObj rest) \<Rightarrow> Inr (s\<lparr>dt_rest := rest\<rparr>)
      | Inr _ \<Rightarrow> Inl TypeError)"

definition canEditParameters :: "jsval option \<Rightarrow> bool" where
  "canEditParameters experimentType =
     (case experimentType of None \<Rightarrow> True | Some t \<Rightarrow> t \<noteq> JStr ''grid'')"

definition canEditMetrics :: "sigopt_experiment option \<Rightarrow> bool" where
  "canEditMetrics e = (case e of None \<Rightarrow> False | Some x \<Rightarrow> thresholdsAllowedForExperiment x)"

definition budgetKeyName :: "sigopt_experiment option \<Rightarrow> string" where
  "budgetKeyName e =
     (case e of None \<Rightarrow> ''observation_budget''
      | Some x \<Rightarrow> if isAiExperiment x then ''budget'' else ''observation_budget'')"

subsection \<open>Parameters and metrics\<close>

definition parameterKey :: "ed_parameter \<Rightarrow> string" where
  "parameterKey p = (if dp_key p \<noteq> [] then dp_key p else dp_name p)"

definition setParameter :: "ed_parameter \<Rightarrow> (ed_parameter \<Rightarrow> ed_parameter) \<Rightarrow> editor \<Rightarrow> editor" where
  "setParameter target updater s =
     (case List.find (\<lambda>p. parameterKey p = parameterKey target) (dt_parameters s) of
        None \<Rightarrow> s
      | Some prev \<Rightarrow>
          s\<lparr>dt_parameters :=
             map (\<lambda>p. if parameterKey p = parameterKey target then updater prev else p)
               (dt_parameters s)\<rparr>)"

definition removeParameter :: "ed_parameter \<Rightarrow> editor \<Rightarrow> editor" where
  "removeParameter target s =
     s\<lparr>dt_parameters := filter (\<lambda>p. parameterKey p \<noteq> parameterKey target) (dt_parameters s)\<rparr>"

definition addParameter :: "string \<Rightarrow> editor \<Rightarrow> editor" where
  "addParameter key s = s\<lparr>dt_parameters := dt_parameters s @ [defaultParameter key]\<rparr>"

text \<open>Writing beyond the end of a list leaves holes, which read as \<open>undefined\<close>.\<close>

definition onMetricCreateChange :: "jsval \<Rightarrow> nat \<Rightarrow> editor \<Rightarrow> editor" where
  "onMetricCreateChange newMetric index s =
     s\<lparr>dt_metrics :=
        (if index < length (dt_metrics s) then (dt_metrics s)[index := newMetric]
         else dt_metrics s @ replicate (index - length (dt_metrics s)) JUndef @ [newMetric])\<rparr>"

definition onMetricCreateRemove :: "nat \<Rightarrow> editor \<Rightarrow> editor" where
  "onMetricCreateRemove index s =
     s\<lparr>dt_metrics := take index (dt_metrics s) @ drop (Suc index) (dt_metrics s)\<rparr>"

definition addMetricCreate :: "editor \<Rightarrow> editor" where
  "addMetricCreate s = s\<lparr>dt_metrics := dt_metrics s @ [defaultMetric]\<rparr>"

definition onMetricsEditChange :: "jsval list \<Rightarrow> editor \<Rightarrow> editor" where
  "onMetricsEditChange metrics s = s\<lparr>dt_metrics := metrics\<rparr>"

subsection \<open>Metadata\<close>

definition onChangeMetadata :: "nat \<Rightarrow> string \<Rightarrow> jsval \<Rightarrow> bool \<Rightarrow> bool \<Rightarrow> editor \<Rightarrow> editor" where
  "onChangeMetadata idx key v isNew number s =
     s\<lparr>dt_metadata := (dt_metadata s)
        [idx := \<lparr>md_key = key, md_value = v, md_new = isNew, md_number = number\<rparr>]\<rparr>"

definition onAddMetadata :: "editor \<Rightarrow> editor" where
  "onAddMetadata s =
     s\<lparr>dt_metadata := dt_metadata s @ [\<lparr>md_key = [], md_value = JStr [], md_new = True, md_number = False\<rparr>]\<rparr>"

definition onRemoveMetadata :: "nat \<Rightarrow> editor \<Rightarrow> editor" where
  "onRemoveMetadata idx s =
     s\<lparr>dt_metadata := take idx (dt_metadata s) @ drop (Suc idx) (dt_metadata s)\<rparr>"

subsection \<open>Conditionals\<close>

definition conditionalKey :: "ed_conditional \<Rightarrow> string" where
  "conditionalKey c = (if dc_key c \<noteq> [] then dc_key c else dc_name c)"

definition onAddConditional :: "string \<Rightarrow> string \<Rightarrow> editor \<Rightarrow> editor" where
  "onAddConditional valueKey key s =
     s\<lparr>dt_conditionals := dt_conditionals s @ [defaultConditional valueKey key]\<rparr>"

definition value_keys :: "ed_conditional \<Rightarrow> string list" where
  "value_keys c = map ev_key (dc_values c)"

definition removeConditionValue :: "string list \<Rightarrow> ed_parameter \<Rightarrow> ed_parameter" where
  "removeConditionValue removed p =
     p\<lparr>dp_conditions := map (\<lambda>(k, vs). (k, filter (\<lambda>v. v \<notin> set removed) vs)) (dp_conditions p)\<rparr>"

definition onChangeConditional ::
  "ed_conditional \<Rightarrow> (ed_conditional \<Rightarrow> ed_conditional) \<Rightarrow> editor \<Rightarrow> js_error + editor" where
  "onChangeConditional conditional updater s =
     (let key = conditionalKey conditional
      in case List.find (\<lambda>c. conditionalKey c = key) (dt_conditionals s) of
           None \<Rightarrow> Inl TypeError
         | Some prev \<Rightarrow>
             (let new = updater prev;
                  removed = filter (\<lambda>v. v \<notin> set (value_keys new)) (value_keys prev)
              in Inr (s\<lparr>dt_conditionals :=
                          map (\<lambda>c. if conditionalKey c = key then new else c) (dt_conditionals s),
                        dt_parameters := map (removeConditionValue removed) (dt_parameters s)\<rparr>)))"

definition removeCondition :: "string \<Rightarrow> ed_parameter \<Rightarrow> ed_parameter" where
  "removeCondition key p = p\<lparr>dp_conditions := filter (\<lambda>kv. fst kv \<noteq> key) (dp_conditions p)\<rparr>"

definition onRemoveConditional :: "ed_conditional \<Rightarrow> editor \<Rightarrow> js_error + editor" where
  "onRemoveConditional conditional s =
     (case List.find (\<lambda>c. dc_key c = dc_key conditional) (dt_conditionals s) of
        None \<Rightarrow> (if dt_parameters s = [] then Inr s else Inl TypeError)
      | Some prev \<Rightarrow>
          Inr (s\<lparr>dt_conditionals := filter (\<lambda>c. dc_key c \<noteq> dc_key conditional) (dt_conditionals s),
                 dt_parameters := map (removeCondition (dc_key prev)) (dt_parameters s)\<rparr>))"

subsection \<open>What is sent\<close>

definition sanitize_bounds :: "jsval \<Rightarrow> jsval" where
  "sanitize_bounds bounds =
     (case bounds of
        JObj b \<Rightarrow> JObj (AList.update ''max'' (sanitizeNumber (obj_get b ''max''))
                    (AList.update ''min'' (sanitizeNumber (obj_get b ''min'')) b))
      | _ \<Rightarrow> bounds)"

definition sanitize_parameter :: "jsobj \<Rightarrow> jsobj" where
  "sanitize_parameter p =
     (let categorical = (obj_get p ''type'' = JStr ''categorical'');
          p1 = (if categorical
            then AList.update ''categorical_values'' (js_or (obj_get p ''categorical_values'') (JArr []))
                   (AList.update ''bounds'' JNull p)
            else AList.update ''categorical_values'' JNull p);
          p2 = (if truthy (obj_get p1 ''bounds'')
            then AList.update ''bounds'' (sanitize_bounds (obj_get p1 ''bounds'')) p1 else p1);
          p3 = (if isDefinedAndNotNull (obj_get p2 ''default_value'')
            then AList.update ''default_value''
                   (if categorical then ignoreBlanks (obj_get p2 ''default_value'')
                    else sanitizeNumber (obj_get p2 ''default_value'')) p2
            else p2)
      in if truthy (obj_get p3 ''grid'') then AList.update ''bounds'' JNull p3 else p3)"

text \<open>The threshold of a metric that is not there cannot be read.\<close>

definition sanitize_metric :: "jsval \<Rightarrow> js_error + jsval" where
  "sanitize_metric m =
     (if isUndefinedOrNull m then Inl TypeError
      else case m of
        JObj ps \<Rightarrow>
          Inr (if isDefinedAndNotNull (obj_get ps ''threshold'')
               then JObj (AList.update ''threshold'' (maybeAsNumber (obj_get ps ''threshold'')) ps) else m)
      | _ \<Rightarrow> Inr m)"

definition is_empty_value :: "jsval \<Rightarrow> bool" where
  "is_empty_value v = (case v of JStr s \<Rightarrow> s = [] | JArr xs \<Rightarrow> xs = [] | JObj ps \<Rightarrow> ps = [] | _ \<Rightarrow> True)"

definition sanitize_rest :: "ed_metadata list \<Rightarrow> jsobj \<Rightarrow> jsobj" where
  "sanitize_rest metadata rest =
     (let number = (\<lambda>k ps. AList.update k (sanitizeNumber (obj_get ps k)) ps);
          r = number ''parallel_bandwidth'' (number ''budget'' (number ''observation_budget'' rest));
          r' = AList.update ''metadata''
                 (JObj (obj_extend [] (map (\<lambda>m. (md_key m, md_value m)) metadata))) r
      in if is_empty_value (obj_get r' ''project'') then AList.update ''project'' JNull r' else r')"

text \<open>The conditions of a parameter by name. A conditional that is not there is read as
  \<open>undefined\<close>.\<close>

fun named_conditions ::
  "ed_conditional list \<Rightarrow> (string \<times> string list) list \<Rightarrow> jsobj \<Rightarrow> js_error + jsobj" where
  "named_conditions cs [] acc = Inr acc"
| "named_conditions cs ((key, valueKeys) # rest) acc =
     (case List.find (\<lambda>c. dc_key c = key) cs of
        None \<Rightarrow> Inl TypeError
      | Some c \<Rightarrow>
          named_conditions cs rest
            (AList.update (dc_name c)
              (JArr (map (\<lambda>v. JStr (ev_name v)) (filter (\<lambda>v. ev_key v \<in> set valueKeys) (dc_values c)))) acc))"

fun map_ok :: "('a \<Rightarrow> 'e + 'b) \<Rightarrow> 'a list \<Rightarrow> 'e + 'b list" where
  "map_ok f [] = Inr []"
| "map_ok f (x # xs) =
     (case f x of Inl e \<Rightarrow> Inl e
      | Inr y \<Rightarrow> (case map_ok f xs of Inl e \<Rightarrow> Inl e | Inr ys \<Rightarrow> Inr (y # ys)))"

definition parameter_json :: "ed_parameter \<Rightarrow> jsobj \<Rightarrow> jsval" where
  "parameter_json p conditions =
     JObj (obj_extend ([(''name'', JStr (dp_name p)), (''editKey'', JStr (dp_key p))]
             @ sanitize_parameter (dp_fields p))
           [(''conditions'', JObj conditions)])"

definition conditional_json :: "ed_conditional \<Rightarrow> jsval" where
  "conditional_json c =
     JObj [(''name'', JStr (dc_name c)), (''values'', JArr (map (\<lambda>v. JStr (ev_name v)) (dc_values c))),
           (''editKey'', JStr (dc_key c))]"

definition create_payload :: "editor \<Rightarrow> js_error + jsval" where
  "create_payload s =
     (case map_ok sanitize_metric (dt_metrics s) of
        Inl e \<Rightarrow> Inl e
      | Inr metrics \<Rightarrow>
          (case map_ok (\<lambda>p. case named_conditions (dt_conditionals s) (dp_conditions p) [] of
                     Inl e \<Rightarrow> Inl e | Inr cs \<Rightarrow> Inr (parameter_json p cs)) (dt_parameters s) of
             Inl e \<Rightarrow> Inl e
           | Inr parametersData \<Rightarrow>
               Inr (recursivelyOmitKeys
                 (JObj (obj_extend (sanitize_rest (dt_metadata s) (dt_rest s))
                   [(''metrics'', JArr metrics),
                    (''conditionals'', JArr (map conditional_json (dt_conditionals s))),
                    (''parameters'', JArr parametersData)]))
                 [''object'', ''editKey''])))"

definition keysForUpdate :: "sigopt_experiment option \<Rightarrow> jsval option \<Rightarrow> string list" where
  "keysForUpdate e experimentType =
     [''name'', ''metadata'', ''parallel_bandwidth'', ''project'', budgetKeyName e]
     @ (if canEditParameters experimentType then [''parameters''] else [])
     @ (if canEditMetrics e then [''metrics''] else [])"

definition obj_pick :: "string list \<Rightarrow> jsobj \<Rightarrow> jsobj" where
  "obj_pick keys ps = filter (\<lambda>kv. fst kv \<in> set keys) ps"

text \<open>The conditions of the parameters are among the keys left out of an update. \<open>isEqual\<close> is the deep
  comparison of underscore.\<close>

definition update_payload ::
  "(jsval \<Rightarrow> jsval \<Rightarrow> bool) \<Rightarrow> string list \<Rightarrow> jsobj option \<Rightarrow> editor \<Rightarrow> js_error + jsobj" where
  "update_payload isEqual keys previous s =
     (case map_ok sanitize_metric (dt_metrics s) of
        Inl e \<Rightarrow> Inl e
      | Inr metrics \<Rightarrow>
          (let omitKeys = [''object'', ''editKey'', ''conditionals'', ''conditions''];
               experimentInput = obj_extend (sanitize_rest (dt_metadata s) (dt_rest s))
                 [(''metrics'', JArr metrics),
                  (''parameters'', JArr (map (\<lambda>p. parameter_json p []) (dt_parameters s)))];
               omitted = (\<lambda>ps. case recursivelyOmitKeys (JObj ps) omitKeys of JObj qs \<Rightarrow> qs | _ \<Rightarrow> []);
               experimentData = omitted (obj_pick keys experimentInput)
           in Inr (case previous of
                None \<Rightarrow> experimentData
              | Some prev \<Rightarrow>
                  filter (\<lambda>kv. \<not> isEqual (snd kv) (obj_get (omitted prev) (fst kv))) experimentData)))"

text \<open>What is shown after a success: the experiment of the answer, and the metadata rows as they were,
  which are no longer new and have lost their mark as numbers.\<close>

definition afterExperimentUpdate :: "editor \<Rightarrow> editor \<Rightarrow> editor" where
  "afterExperimentUpdate answer s =
     answer\<lparr>dt_metadata := map (\<lambda>m. m\<lparr>md_new := False, md_number := False\<rparr>) (dt_metadata s)\<rparr>"

text \<open>An error of the API is shown when it is one of the form's.\<close>

definition apiError :: "(string \<Rightarrow> string \<Rightarrow> bool) \<Rightarrow> jsval \<Rightarrow> string \<Rightarrow> string option" where
  "apiError contains status message =
     (if status = JNum 400 \<or> status = JNum 403
      then Some (if contains message ''Missing required json key''
                 then ''Please fill in all required values.'' else message)
      else None)"

section \<open>Properties\<close>

subsection \<open>Conditions refer to conditionals\<close>

definition conditions_ok :: "ed_conditional list \<Rightarrow> ed_parameter \<Rightarrow> bool" where
  "conditions_ok cs p =
     (\<forall>(key, valueKeys)\<in>set (dp_conditions p).
        \<exists>c\<in>set cs. dc_key c = key \<and> set valueKeys \<subseteq> set (value_keys c))"

definition wf_editor :: "editor \<Rightarrow> bool" where
  "wf_editor s =
     (list_all isDefinedAndNotNull (dt_metrics s) \<and> distinct (map dc_key (dt_conditionals s)) \<and> [] \<notin> dc_key ` set (dt_conditionals s)
      \<and> (\<forall>p\<in>set (dt_parameters s). conditions_ok (dt_conditionals s) p))"

lemma conditions_ok_Nil [simp]: "dp_conditions p = [] \<Longrightarrow> conditions_ok cs p"
  by (simp add: conditions_ok_def)

lemma conditions_ok_mono:
  "conditions_ok cs p \<Longrightarrow> set cs \<subseteq> set ds \<Longrightarrow> conditions_ok ds p"
  by (fastforce simp: conditions_ok_def)

lemma wf_editor_default [inv_intros]: "wf_editor (defaultExperiment key)"
  by (simp add: wf_editor_def defaultExperiment_def defaultParameter_def defaultMetric_def
      isDefinedAndNotNull_def isUndefinedOrNull_def)

lemma wf_setParameter [inv_intros]:
  assumes "wf_editor s"
    "\<And>p. conditions_ok (dt_conditionals s) p \<Longrightarrow> conditions_ok (dt_conditionals s) (updater p)"
  shows "wf_editor (setParameter target updater s)"
proof (cases "List.find (\<lambda>p. parameterKey p = parameterKey target) (dt_parameters s)")
  case None
  then show ?thesis using assms(1) by (simp add: setParameter_def)
next
  case (Some prev)
  then have "prev \<in> set (dt_parameters s)" using find_Some_iff' by fast
  then show ?thesis
    using assms Some by (auto simp: setParameter_def wf_editor_def)
qed

lemma wf_removeParameter [inv_intros]: "wf_editor s \<Longrightarrow> wf_editor (removeParameter target s)"
  by (simp add: removeParameter_def wf_editor_def)

lemma wf_addParameter [inv_intros]: "wf_editor s \<Longrightarrow> wf_editor (addParameter key s)"
  by (auto simp: addParameter_def wf_editor_def defaultParameter_def)

lemma wf_same_lists:
  "dt_parameters t = dt_parameters s \<Longrightarrow> dt_conditionals t = dt_conditionals s \<Longrightarrow> dt_metrics t = dt_metrics s \<Longrightarrow>
   wf_editor s \<Longrightarrow> wf_editor t"
  by (simp add: wf_editor_def)

lemma wf_onAddConditional [inv_intros]:
  assumes "wf_editor s" "key \<noteq> []" "key \<notin> dc_key ` set (dt_conditionals s)"
  shows "wf_editor (onAddConditional valueKey key s)"
  using assms
  by (auto simp: onAddConditional_def wf_editor_def defaultConditional_def intro: conditions_ok_mono)

lemma conditionalKey_wf: "wf_editor s \<Longrightarrow> c \<in> set (dt_conditionals s) \<Longrightarrow> conditionalKey c = dc_key c"
  by (force simp: wf_editor_def conditionalKey_def)

lemma same_key_same_conditional:
  assumes "wf_editor s" "c \<in> set (dt_conditionals s)" "d \<in> set (dt_conditionals s)" "dc_key c = dc_key d"
  shows "c = d"
  using assms by (metis distinct_map inj_onD wf_editor_def)

lemma wf_onChangeConditional [inv_intros]:
  assumes wf: "wf_editor s" and res: "onChangeConditional conditional updater s = Inr t"
    and keep: "\<And>c. dc_key (updater c) = dc_key c"
  shows "wf_editor t"
proof -
  let ?key = "conditionalKey conditional"
  obtain prev where prev: "List.find (\<lambda>c. conditionalKey c = ?key) (dt_conditionals s) = Some prev"
    using res unfolding onChangeConditional_def Let_def by (cases rule: option.exhaust) (simp_all split: option.splits)
  then have prev_in: "prev \<in> set (dt_conditionals s)" "conditionalKey prev = ?key"
    using find_Some_iff' by fast+
  let ?new = "updater prev"
  let ?removed = "filter (\<lambda>v. v \<notin> set (value_keys ?new)) (value_keys prev)"
  let ?replace = "\<lambda>c. if conditionalKey c = ?key then ?new else c"
  have t: "dt_conditionals t = map ?replace (dt_conditionals s)"
    "dt_parameters t = map (removeConditionValue ?removed) (dt_parameters s)" "dt_metrics t = dt_metrics s"
    using res prev by (auto simp: onChangeConditional_def Let_def)
  have replaced: "?replace c = (if c = prev then ?new else c)" if "c \<in> set (dt_conditionals s)" for c
  proof -
    have "conditionalKey c = ?key \<longleftrightarrow> dc_key c = dc_key prev"
      unfolding prev_in(2) [symmetric] conditionalKey_wf [OF wf that] conditionalKey_wf [OF wf prev_in(1)] ..
    also have "\<dots> \<longleftrightarrow> c = prev"
      using same_key_same_conditional [OF wf that prev_in(1)] by blast
    finally show ?thesis by (simp only:)
  qed
  have same: "dc_key (?replace c) = dc_key c" if "c \<in> set (dt_conditionals s)" for c
    unfolding replaced [OF that] by (simp add: keep)
  have keys: "map dc_key (dt_conditionals t) = map dc_key (dt_conditionals s)"
    unfolding t(1) map_map comp_def by (rule map_cong [OF refl same])
  have "conditions_ok (dt_conditionals t) (removeConditionValue ?removed p)"
    if p: "conditions_ok (dt_conditionals s) p" for p
    unfolding conditions_ok_def
  proof (intro ballI, clarify)
    fix key valueKeys
    assume "(key, valueKeys) \<in> set (dp_conditions (removeConditionValue ?removed p))"
    then obtain vs where vs: "(key, vs) \<in> set (dp_conditions p)"
      "valueKeys = filter (\<lambda>v. v \<notin> set ?removed) vs"
      by (auto simp: removeConditionValue_def)
    then obtain c where c: "c \<in> set (dt_conditionals s)" "dc_key c = key" "set vs \<subseteq> set (value_keys c)"
      using p by (auto simp: conditions_ok_def)
    have "set valueKeys \<subseteq> set (value_keys (?replace c))"
      unfolding replaced [OF c(1)] using vs(2) c(3) by (cases "c = prev") auto
    moreover have "?replace c \<in> set (dt_conditionals t)"
      unfolding t(1) set_map using c(1) by (rule imageI)
    moreover have "dc_key (?replace c) = key"
      using same [OF c(1)] c(2) by (rule trans)
    ultimately show "\<exists>c\<in>set (dt_conditionals t). dc_key c = key \<and> set valueKeys \<subseteq> set (value_keys c)"
      by blast
  qed
  moreover have "dc_key ` set (dt_conditionals t) = dc_key ` set (dt_conditionals s)"
    using keys by (metis list.set_map)
  ultimately show ?thesis
    using wf keys by (auto simp: wf_editor_def t(2,3))
qed

lemma wf_onRemoveConditional [inv_intros]:
  assumes wf: "wf_editor s" and res: "onRemoveConditional conditional s = Inr t"
  shows "wf_editor t"
proof (cases "List.find (\<lambda>c. dc_key c = dc_key conditional) (dt_conditionals s)")
  case None
  then show ?thesis using wf res by (auto simp: onRemoveConditional_def split: if_splits)
next
  case (Some prev)
  then have key: "dc_key prev = dc_key conditional" using find_Some_iff' by fast
  have t: "dt_conditionals t = filter (\<lambda>c. dc_key c \<noteq> dc_key conditional) (dt_conditionals s)"
    "dt_parameters t = map (removeCondition (dc_key conditional)) (dt_parameters s)" "dt_metrics t = dt_metrics s"
    using res Some key by (auto simp: onRemoveConditional_def)
  have "conditions_ok (dt_conditionals t) (removeCondition (dc_key conditional) p)"
    if "conditions_ok (dt_conditionals s) p" for p
    using that by (fastforce simp: conditions_ok_def removeCondition_def t(1))
  then show ?thesis
    using wf by (auto simp: wf_editor_def t intro: distinct_map_filter)
qed

subsection \<open>What is sent can always be sent\<close>

lemma setExperimentField_lists:
  assumes "setExperimentField f v s = Inr t"
  shows "dt_parameters t = dt_parameters s" "dt_conditionals t = dt_conditionals s" "dt_metrics t = dt_metrics s"
  using assms by (auto simp: setExperimentField_def split: sum.splits jsval.splits)

lemma named_conditions_Inr:
  "(\<forall>(k, vs)\<in>set conds. \<exists>c\<in>set cs. dc_key c = k) \<Longrightarrow> \<exists>r. named_conditions cs conds acc = Inr r"
proof (induction cs conds acc rule: named_conditions.induct)
  case (1 cs acc)
  then show ?case by simp
next
  case (2 cs key valueKeys rest acc)
  obtain c where c: "List.find (\<lambda>c. dc_key c = key) cs = Some c"
    using "2.prems" by (cases "List.find (\<lambda>c. dc_key c = key) cs") (auto simp: find_None_iff')
  then show ?case using "2.IH" [OF c] "2.prems" by simp
qed

lemma map_ok_Inr: "\<forall>x\<in>set xs. \<exists>y. f x = Inr y \<Longrightarrow> \<exists>ys. map_ok f xs = Inr ys"
  by (induction xs) (auto split: sum.split)

lemma create_payload_wf:
  assumes "wf_editor s"
  shows "\<exists>v. create_payload s = Inr v"
proof -
  have "\<exists>r. named_conditions (dt_conditionals s) (dp_conditions p) [] = Inr r"
    if "p \<in> set (dt_parameters s)" for p
    by (rule named_conditions_Inr) (use assms that in \<open>fastforce simp: wf_editor_def conditions_ok_def\<close>)
  then have "\<exists>ys. map_ok (\<lambda>p. case named_conditions (dt_conditionals s) (dp_conditions p) [] of
      Inl e \<Rightarrow> Inl e | Inr cs \<Rightarrow> Inr (parameter_json p cs)) (dt_parameters s) = Inr ys"
    by (intro map_ok_Inr ballI) fastforce
  moreover have "\<exists>ms. map_ok sanitize_metric (dt_metrics s) = Inr ms"
    using assms by (intro map_ok_Inr ballI)
      (auto simp: wf_editor_def list_all_iff sanitize_metric_def isDefinedAndNotNull_def split: jsval.split)
  ultimately show ?thesis by (elim exE) (simp add: create_payload_def)
qed

lemma create_payload_keys:
  "create_payload s = Inr v \<Longrightarrow> deep_keys v \<inter> {''object'', ''editKey''} = {}"
  using omit_no_keys [where keys = "[''object'', ''editKey'']"]
  by (auto simp: create_payload_def split: sum.splits simp del: recursivelyOmitKeys.simps)

text \<open>A removed conditional, whose condition a parameter still has, would make it fail.\<close>

lemma dangling_condition_fails:
  "create_payload ((defaultExperiment ''k'')
     \<lparr>dt_parameters := [(defaultParameter ''k'')\<lparr>dp_conditions := [(''c'', [''v''])]\<rparr>]\<rparr>) = Inl TypeError"
  by (simp add: create_payload_def defaultExperiment_def defaultParameter_def sanitize_metric_def defaultMetric_def
      isUndefinedOrNull_def)

text \<open>A hole in the list of metrics makes it fail, too.\<close>

lemma missing_metric_fails:
  "create_payload (onMetricCreateChange defaultMetric 2 (defaultExperiment ''k'')) = Inl TypeError"
  by (simp add: create_payload_def onMetricCreateChange_def defaultExperiment_def sanitize_metric_def
      defaultMetric_def isUndefinedOrNull_def)

text \<open>An update sends only the fields of the update, and of these only what has changed since the edit
  began.\<close>

lemma update_payload_changed:
  assumes "update_payload isEqual keys (Some prev) s = Inr sent" "(k, v) \<in> set sent"
  shows "k \<in> set keys \<and> \<not> isEqual v (obj_get
    (case recursivelyOmitKeys (JObj prev) [''object'', ''editKey'', ''conditionals'', ''conditions''] of
       JObj qs \<Rightarrow> qs | _ \<Rightarrow> []) k)"
  using assms by (auto simp: update_payload_def Let_def obj_pick_def split: sum.splits)

text \<open>The keys that are left out are left out of the metadata too: a metadata entry that a user has
  called \<open>object\<close> is not sent.\<close>

lemma metadata_called_object_is_lost:
  "update_payload (=) [''metadata''] None
       ((defaultExperiment ''k'')\<lparr>dt_metadata :=
          [\<lparr>md_key = ''object'', md_value = JNum 1, md_new = True, md_number = True\<rparr>]\<rparr>)
     = Inr [(''metadata'', JObj [])]"
  by (simp add: update_payload_def sanitize_metric_def defaultMetric_def isUndefinedOrNull_def sanitize_rest_def defaultExperiment_def Let_def obj_pick_def
      is_empty_value_def)

lemma setParameter_one:
  assumes "distinct (map parameterKey (dt_parameters s))" "p \<in> set (dt_parameters s)"
  shows "dt_parameters (setParameter p updater s) =
    map (\<lambda>q. if q = p then updater p else q) (dt_parameters s)"
proof -
  have same: "parameterKey q = parameterKey p \<longleftrightarrow> q = p" if "q \<in> set (dt_parameters s)" for q
    using assms that by (metis distinct_map inj_onD)
  obtain prev where prev: "List.find (\<lambda>q. parameterKey q = parameterKey p) (dt_parameters s) = Some prev"
    using assms(2) by (cases "List.find (\<lambda>q. parameterKey q = parameterKey p) (dt_parameters s)")
      (auto simp: find_None_iff')
  then have "prev = p" using find_Some_iff' same by fast
  then show ?thesis using prev same by (auto simp: setParameter_def)
qed

lemma set_path_get:
  "set_path [k] v (JObj ps) = Inr obj \<Longrightarrow> js_prop obj k = v"
  by auto

lemma sanitize_parameter_categorical:
  "obj_get p ''type'' = JStr ''categorical'' \<Longrightarrow> obj_get (sanitize_parameter p) ''bounds'' = JNull"
  by (simp add: sanitize_parameter_def Let_def)

lemma sanitize_parameter_numeric:
  "obj_get p ''type'' \<noteq> JStr ''categorical'' \<Longrightarrow>
   obj_get (sanitize_parameter p) ''categorical_values'' = JNull"
  by (simp add: sanitize_parameter_def Let_def)

end
