(* ===== verification/EditorInputs.thy ===== *)
theory EditorInputs
  imports Editor
begin

section \<open>The inputs of the experiment editor: web/js/experiment/parameter.js, metadata.js, conditionals/input.js\<close>

text \<open>
  What the rows of the form do with the state of the editor. Each change of a parameter or of a
  conditional is an updater given to \<open>setParameter\<close> or \<open>onChangeConditional\<close>.
\<close>

subsection \<open>Parameters: parameter.js\<close>

definition setParameterBounds :: "jsobj \<Rightarrow> ed_parameter \<Rightarrow> ed_parameter" where
  "setParameterBounds bounds p =
     p\<lparr>dp_fields := AList.update ''bounds''
        (JObj (obj_extend (case obj_get (dp_fields p) ''bounds'' of JObj b \<Rightarrow> b | _ \<Rightarrow> []) bounds))
        (dp_fields p)\<rparr>"

text \<open>The updater that is made has no default value of its own, and the values have a field
  \<open>name\<close>, not \<open>names\<close>.\<close>

definition categorical_updater :: "bool \<Rightarrow> jsval list \<Rightarrow> jsobj" where
  "categorical_updater needsDefaultValue categoricalValues =
     (let updater = [(''categorical_values'', JArr categoricalValues)];
          names = map (\<lambda>v. js_prop v ''names'') categoricalValues
      in if needsDefaultValue \<and> isDefinedAndNotNull (obj_get updater ''default_value'')
            \<and> obj_get updater ''default_value'' \<notin> set names
         then AList.update ''default_value'' (if names = [] then JNull else hd names) updater
         else updater)"

definition setCategoricalValues :: "bool \<Rightarrow> jsval list \<Rightarrow> ed_parameter \<Rightarrow> ed_parameter" where
  "setCategoricalValues needsDefaultValue categoricalValues p =
     p\<lparr>dp_fields := obj_extend (dp_fields p) (categorical_updater needsDefaultValue categoricalValues)\<rparr>"

definition changeParameterName :: "string \<Rightarrow> ed_parameter \<Rightarrow> ed_parameter" where
  "changeParameterName name p = p\<lparr>dp_name := name\<rparr>"

definition changeParameterType :: "string \<Rightarrow> ed_parameter \<Rightarrow> ed_parameter" where
  "changeParameterType type p =
     p\<lparr>dp_fields := obj_extend (dp_fields p) [(''type'', JStr type), (''default_value'', JNull)]\<rparr>"

definition changeDefaultValue :: "string \<Rightarrow> ed_parameter \<Rightarrow> ed_parameter" where
  "changeDefaultValue text p = p\<lparr>dp_fields := obj_extend (dp_fields p) [(''default_value'', JStr text)]\<rparr>"

text \<open>The parameters of the experiment before the edit, by name, with their default values.\<close>

definition needsDefaultValue :: "bool \<Rightarrow> (string \<times> jsval) list option \<Rightarrow> string \<Rightarrow> bool" where
  "needsDefaultValue create initialParameters name =
     (if create then False
      else list_all (\<lambda>(n, d). n \<noteq> name)
        (filter (\<lambda>(n, d). isUndefinedOrNull d) (case initialParameters of None \<Rightarrow> [] | Some ps \<Rightarrow> ps)))"

definition showDefaultValue :: "bool \<Rightarrow> (string \<times> jsval) list option \<Rightarrow> ed_parameter list \<Rightarrow> bool" where
  "showDefaultValue create initialParameters parameters =
     list_ex (\<lambda>p. isDefinedAndNotNull (obj_get (dp_fields p) ''default_value'')
       \<or> needsDefaultValue create initialParameters (dp_name p)) parameters"

definition showGrid :: "ed_parameter list \<Rightarrow> bool" where
  "showGrid parameters = list_ex (\<lambda>p. truthy (obj_get (dp_fields p) ''grid'')) parameters"

definition showConditions :: "bool \<Rightarrow> ed_conditional list \<Rightarrow> bool" where
  "showConditions create conditionals = (\<not> create \<and> conditionals \<noteq> [])"

text \<open>What is shown for a default value.\<close>

datatype default_control = NoControl | PlainText jsval | EmptySelect | SelectFrom "jsval list" jsval | TextBox jsval

definition DefaultValue_control :: "bool \<Rightarrow> bool \<Rightarrow> jsobj \<Rightarrow> default_control" where
  "DefaultValue_control editing needed p =
     (let default = obj_get p ''default_value'' in
      if isDefinedAndNotNull default \<or> needed
      then if editing
        then if obj_get p ''type'' = JStr ''categorical''
          then (case obj_get p ''categorical_values'' of
                  JArr (v # vs) \<Rightarrow> SelectFrom (map (\<lambda>cv. js_prop cv ''name'') (v # vs)) default
                | _ \<Rightarrow> EmptySelect)
          else TextBox default
        else PlainText default
      else NoControl)"

definition ParameterType_text :: "string \<Rightarrow> string" where
  "ParameterType_text type =
     (if type = ''double'' then ''Decimal''
      else if type = ''categorical'' then ''Categorical''
      else if type = ''int'' then ''Integer'' else type)"

subsection \<open>Conditionals: conditionals/input.js\<close>

definition onChangeName :: "string \<Rightarrow> ed_conditional \<Rightarrow> ed_conditional" where
  "onChangeName name c = c\<lparr>dc_name := name\<rparr>"

definition onAddValue :: "string \<Rightarrow> ed_conditional \<Rightarrow> ed_conditional" where
  "onAddValue key c = c\<lparr>dc_values := dc_values c @ [\<lparr>ev_name = [], ev_key = key\<rparr>]\<rparr>"

definition valueKey :: "ed_value \<Rightarrow> string" where
  "valueKey v = (if ev_key v \<noteq> [] then ev_key v else ev_name v)"

definition onRemoveValue :: "ed_value \<Rightarrow> ed_conditional \<Rightarrow> ed_conditional" where
  "onRemoveValue v c = c\<lparr>dc_values := filter (\<lambda>w. valueKey w \<noteq> valueKey v) (dc_values c)\<rparr>"

definition onChangeValueName :: "ed_value \<Rightarrow> string \<Rightarrow> ed_conditional \<Rightarrow> ed_conditional" where
  "onChangeValueName v name c =
     c\<lparr>dc_values := map (\<lambda>w. if valueKey w = valueKey v then w\<lparr>ev_name := name\<rparr> else w) (dc_values c)\<rparr>"

definition has_condition :: "ed_parameter \<Rightarrow> string \<Rightarrow> bool" where
  "has_condition p key = (map_of (dp_conditions p) key \<noteq> None)"

definition onAddCondition :: "ed_conditional \<Rightarrow> ed_value \<Rightarrow> ed_parameter \<Rightarrow> ed_parameter" where
  "onAddCondition c v p =
     p\<lparr>dp_conditions :=
        (if has_condition p (dc_key c)
         then map (\<lambda>(k, vs). (k, if k = dc_key c then filter (\<lambda>w. w \<noteq> ev_key v) vs @ [ev_key v] else vs))
                (dp_conditions p)
         else dp_conditions p @ [(dc_key c, [ev_key v])])\<rparr>"

definition onRemoveCondition :: "ed_conditional \<Rightarrow> ed_value \<Rightarrow> ed_parameter \<Rightarrow> ed_parameter" where
  "onRemoveCondition c v p =
     p\<lparr>dp_conditions :=
        (case map_of (dp_conditions p) (dc_key c) of
           None \<Rightarrow> dp_conditions p
         | Some values \<Rightarrow>
             (let newValues = filter (\<lambda>w. w \<noteq> ev_key v) values
              in if newValues = [] then filter (\<lambda>kv. fst kv \<noteq> dc_key c) (dp_conditions p)
                 else map (\<lambda>(k, vs). (k, if k = dc_key c then newValues else vs)) (dp_conditions p)))\<rparr>"

definition is_selected :: "ed_conditional \<Rightarrow> ed_value \<Rightarrow> ed_parameter \<Rightarrow> bool" where
  "is_selected c v p =
     (case map_of (dp_conditions p) (dc_key c) of None \<Rightarrow> False | Some values \<Rightarrow> ev_key v \<in> set values)"

definition getSelected :: "ed_conditional \<Rightarrow> ed_value \<Rightarrow> editor \<Rightarrow> ed_parameter list" where
  "getSelected c v s = filter (is_selected c v) (dt_parameters s)"

text \<open>The parameters picked for a value of a conditional: first those that are new get the condition,
  then those that are gone lose it.\<close>

definition condition_onChange :: "ed_conditional \<Rightarrow> ed_value \<Rightarrow> ed_parameter list \<Rightarrow> editor \<Rightarrow> editor" where
  "condition_onChange c v parameters s =
     (let selected = getSelected c v s;
          newSelection = map dp_key parameters;
          oldSelection = map dp_key selected;
          s1 = fold (\<lambda>p. setParameter p (onAddCondition c v))
                 (filter (\<lambda>p. dp_key p \<notin> set oldSelection) parameters) s
      in fold (\<lambda>p. setParameter p (onRemoveCondition c v))
           (filter (\<lambda>p. dp_key p \<notin> set newSelection) selected) s1)"

subsection \<open>Metadata: metadata.js\<close>

text \<open>The rows of the state come in one order and are shown in another: first those of the experiment,
  then the new ones. A position is that of the row shown.\<close>

definition shown_metadata :: "ed_metadata list \<Rightarrow> ed_metadata list" where
  "shown_metadata metadata = filter (\<lambda>m. \<not> md_new m) metadata @ filter md_new metadata"

text \<open>An input for numbers holds the text of a number or nothing, whose number is 0.\<close>

definition onValueChange :: "nat \<Rightarrow> string \<Rightarrow> bool \<Rightarrow> bool \<Rightarrow> string \<Rightarrow> editor \<Rightarrow> editor" where
  "onValueChange idx key isNew number text =
     onChangeMetadata idx key
       (if number then JNum (case number_of_text text of None \<Rightarrow> 0 | Some n \<Rightarrow> n) else JStr text) isNew number"

definition onKeyChange :: "nat \<Rightarrow> jsval \<Rightarrow> bool \<Rightarrow> string \<Rightarrow> editor \<Rightarrow> editor" where
  "onKeyChange idx v isNew text = onChangeMetadata idx text v isNew False"

definition change_shown_value :: "nat \<Rightarrow> string \<Rightarrow> editor \<Rightarrow> editor" where
  "change_shown_value idx text s =
     (let m = shown_metadata (dt_metadata s) ! idx
      in onValueChange idx (md_key m) (md_new m) (\<not> md_new m \<and> md_number m) text s)"

definition change_shown_key :: "nat \<Rightarrow> string \<Rightarrow> editor \<Rightarrow> editor" where
  "change_shown_key idx text s =
     (let m = shown_metadata (dt_metadata s) ! idx in onKeyChange idx (md_value m) True text s)"

section \<open>Properties\<close>

subsection \<open>The form as a whole\<close>

text \<open>The steps of the form: what the user can do with the rows that are shown. Edit keys that are
  made on the way are new. The row of a metric hands over an extension of that metric (\<open>metrics/create.js\<close>), the
  inputs of the thresholds extensions of all of them (\<open>metrics/extended.js\<close>): objects both times.\<close>

inductive form_step :: "editor \<Rightarrow> editor \<Rightarrow> bool" where
  Field: "setExperimentField f v s = Inr t \<Longrightarrow> form_step s t"
| ParameterName: "p \<in> set (dt_parameters s) \<Longrightarrow> form_step s (setParameter p (changeParameterName n) s)"
| ParameterType: "p \<in> set (dt_parameters s) \<Longrightarrow> form_step s (setParameter p (changeParameterType n) s)"
| ParameterDefault: "p \<in> set (dt_parameters s) \<Longrightarrow> form_step s (setParameter p (changeDefaultValue n) s)"
| ParameterBounds: "p \<in> set (dt_parameters s) \<Longrightarrow> form_step s (setParameter p (setParameterBounds b) s)"
| ParameterValues: "p \<in> set (dt_parameters s) \<Longrightarrow> form_step s (setParameter p (setCategoricalValues needed vs) s)"
| AddParameter: "key \<noteq> [] \<Longrightarrow> key \<notin> parameterKey ` set (dt_parameters s) \<Longrightarrow> form_step s (addParameter key s)"
| RemoveParameter: "form_step s (removeParameter p s)"
| ChangeMetricRow: "i < length (dt_metrics s) \<Longrightarrow> form_step s (onMetricCreateChange (JObj m) i s)"
| RemoveMetricRow: "form_step s (onMetricCreateRemove i s)"
| AddMetricRow: "form_step s (addMetricCreate s)"
| EditMetricRows: "form_step s (onMetricsEditChange (map JObj ms) s)"
| AddCond: "key \<noteq> [] \<Longrightarrow> key \<notin> dc_key ` set (dt_conditionals s) \<Longrightarrow> form_step s (onAddConditional vk key s)"
| RemoveCond: "onRemoveConditional c s = Inr t \<Longrightarrow> form_step s t"
| NameCond: "onChangeConditional c (onChangeName n) s = Inr t \<Longrightarrow> form_step s t"
| AddCondValue: "onChangeConditional c (onAddValue vk) s = Inr t \<Longrightarrow> form_step s t"
| RemoveCondValue: "onChangeConditional c (onRemoveValue v) s = Inr t \<Longrightarrow> form_step s t"
| NameCondValue: "onChangeConditional c (onChangeValueName v n) s = Inr t \<Longrightarrow> form_step s t"
| PickParameters: "c \<in> set (dt_conditionals s) \<Longrightarrow> v \<in> set (dc_values c) \<Longrightarrow>
    set ps \<subseteq> set (dt_parameters s) \<Longrightarrow> form_step s (condition_onChange c v ps s)"
| MetadataValue: "i < length (dt_metadata s) \<Longrightarrow> form_step s (change_shown_value i text s)"
| MetadataKey: "i < length (dt_metadata s) \<Longrightarrow> md_new (shown_metadata (dt_metadata s) ! i) \<Longrightarrow>
    form_step s (change_shown_key i text s)"
| MetadataAdd: "form_step s (onAddMetadata s)"
| MetadataRemove: "form_step s (onRemoveMetadata i s)"

lemma updaters_keep_conditions [simp]:
  "dp_conditions (changeParameterName n p) = dp_conditions p"
  "dp_conditions (changeParameterType n p) = dp_conditions p"
  "dp_conditions (changeDefaultValue n p) = dp_conditions p"
  "dp_conditions (setParameterBounds b p) = dp_conditions p"
  "dp_conditions (setCategoricalValues needed vs p) = dp_conditions p"
  by (simp_all add: changeParameterName_def changeParameterType_def changeDefaultValue_def
      setParameterBounds_def setCategoricalValues_def)

lemma conditions_ok_same: "dp_conditions q = dp_conditions p \<Longrightarrow> conditions_ok cs q \<longleftrightarrow> conditions_ok cs p"
  by (simp add: conditions_ok_def)

lemma updaters_keep_conditional_key [simp]:
  "dc_key (onChangeName n c) = dc_key c" "dc_key (onAddValue k c) = dc_key c"
  "dc_key (onRemoveValue v c) = dc_key c" "dc_key (onChangeValueName v n c) = dc_key c"
  by (simp_all add: onChangeName_def onAddValue_def onRemoveValue_def onChangeValueName_def)

lemma conditions_ok_onAddCondition:
  assumes "conditions_ok cs p" "c \<in> set cs" "v \<in> set (dc_values c)"
    "\<And>d. d \<in> set cs \<Longrightarrow> dc_key d = dc_key c \<Longrightarrow> d = c"
  shows "conditions_ok cs (onAddCondition c v p)"
  unfolding conditions_ok_def
proof clarify
  fix key vs
  assume "(key, vs) \<in> set (dp_conditions (onAddCondition c v p))"
  then consider "key = dc_key c" "\<exists>ws. (key, ws) \<in> set (dp_conditions p) \<and> set vs \<subseteq> insert (ev_key v) (set ws)"
    | "(key, vs) \<in> set (dp_conditions p)" | "key = dc_key c" "vs = [ev_key v]"
    by (fastforce simp: onAddCondition_def split: if_splits)
  then show "\<exists>d\<in>set cs. dc_key d = key \<and> set vs \<subseteq> set (value_keys d)"
  proof cases
    case 1
    then obtain ws d where "(key, ws) \<in> set (dp_conditions p)" "set vs \<subseteq> insert (ev_key v) (set ws)"
      "d \<in> set cs" "dc_key d = key" "set ws \<subseteq> set (value_keys d)"
      using assms(1) by (fastforce simp: conditions_ok_def)
    moreover have "d = c" using assms(4) calculation 1(1) by simp
    ultimately show ?thesis using assms(2,3) 1(1) by (auto simp: value_keys_def)
  next
    case 2
    then show ?thesis using assms(1) by (fastforce simp: conditions_ok_def)
  next
    case 3
    then show ?thesis using assms(2,3) by (auto simp: value_keys_def)
  qed
qed

lemma conditions_ok_onRemoveCondition:
  assumes "conditions_ok cs p"
  shows "conditions_ok cs (onRemoveCondition c v p)"
proof (cases "map_of (dp_conditions p) (dc_key c)")
  case None
  then show ?thesis using assms by (simp add: onRemoveCondition_def conditions_ok_def)
next
  case (Some vals)
  then have "(dc_key c, vals) \<in> set (dp_conditions p)" by (rule map_of_SomeD)
  then show ?thesis
    using assms Some by (fastforce simp: onRemoveCondition_def conditions_ok_def Let_def)
qed

lemma setParameter_conditionals [simp]: "dt_conditionals (setParameter p u s) = dt_conditionals s"
  by (simp add: setParameter_def split: option.split)

lemma fold_setParameter_conditionals [simp]:
  "dt_conditionals (fold (\<lambda>p. setParameter p u) qs s) = dt_conditionals s"
  by (induction qs arbitrary: s) simp_all

lemma wf_fold_setParameter:
  assumes "wf_editor s" "\<And>p. conditions_ok (dt_conditionals s) p \<Longrightarrow> conditions_ok (dt_conditionals s) (u p)"
  shows "wf_editor (fold (\<lambda>p. setParameter p u) qs s)"
  using assms
proof (induction qs arbitrary: s)
  case Nil
  then show ?case by simp
next
  case (Cons q qs)
  have "wf_editor (setParameter q u s)" using Cons.prems by (rule wf_setParameter)
  then show ?case using Cons.IH [of "setParameter q u s"] Cons.prems(2) by simp
qed

lemma wf_condition_onChange:
  assumes wf: "wf_editor s" and c: "c \<in> set (dt_conditionals s)" and v: "v \<in> set (dc_values c)"
  shows "wf_editor (condition_onChange c v ps s)"
proof -
  have one: "\<And>d. d \<in> set (dt_conditionals s) \<Longrightarrow> dc_key d = dc_key c \<Longrightarrow> d = c"
    using same_key_same_conditional wf c by blast
  show ?thesis
    unfolding condition_onChange_def Let_def
    by (rule wf_fold_setParameter [OF wf_fold_setParameter [OF wf]])
      (simp_all add: conditions_ok_onAddCondition [OF _ c v one] conditions_ok_onRemoveCondition)
qed

lemma metadata_ops_lists [simp]:
  "dt_parameters (onChangeMetadata i k v n b s) = dt_parameters s"
  "dt_conditionals (onChangeMetadata i k v n b s) = dt_conditionals s"
  "dt_parameters (onAddMetadata s) = dt_parameters s" "dt_conditionals (onAddMetadata s) = dt_conditionals s"
  "dt_parameters (onRemoveMetadata i s) = dt_parameters s"
  "dt_conditionals (onRemoveMetadata i s) = dt_conditionals s"
  "dt_metrics (onChangeMetadata i k v n b s) = dt_metrics s" "dt_metrics (onAddMetadata s) = dt_metrics s"
  "dt_metrics (onRemoveMetadata i s) = dt_metrics s"
  by (simp_all add: onChangeMetadata_def onAddMetadata_def onRemoveMetadata_def)

lemma metric_ops_lists [simp]:
  "dt_parameters (onMetricCreateChange m i s) = dt_parameters s"
  "dt_conditionals (onMetricCreateChange m i s) = dt_conditionals s"
  "dt_parameters (onMetricCreateRemove i s) = dt_parameters s"
  "dt_conditionals (onMetricCreateRemove i s) = dt_conditionals s"
  "dt_parameters (addMetricCreate s) = dt_parameters s" "dt_conditionals (addMetricCreate s) = dt_conditionals s"
  "dt_parameters (onMetricsEditChange ms s) = dt_parameters s"
  "dt_conditionals (onMetricsEditChange ms s) = dt_conditionals s"
  by (simp_all add: onMetricCreateChange_def onMetricCreateRemove_def addMetricCreate_def onMetricsEditChange_def)

lemma metric_ops_there:
  assumes "list_all isDefinedAndNotNull (dt_metrics s)"
  shows "list_all isDefinedAndNotNull (dt_metrics (onMetricCreateRemove i s))"
    "list_all isDefinedAndNotNull (dt_metrics (addMetricCreate s))"
    "list_all isDefinedAndNotNull (dt_metrics (onMetricsEditChange (map JObj ms) s))"
    "i < length (dt_metrics s) \<Longrightarrow> list_all isDefinedAndNotNull (dt_metrics (onMetricCreateChange (JObj m) i s))"
proof -
  have obj: "isDefinedAndNotNull (JObj m)" for m by (simp add: isDefinedAndNotNull_def isUndefinedOrNull_def)
  show "list_all isDefinedAndNotNull (dt_metrics (onMetricCreateRemove i s))"
    using assms by (auto simp: onMetricCreateRemove_def list_all_iff dest: in_set_takeD in_set_dropD)
  show "list_all isDefinedAndNotNull (dt_metrics (addMetricCreate s))"
    using assms by (simp add: addMetricCreate_def defaultMetric_def obj)
  show "list_all isDefinedAndNotNull (dt_metrics (onMetricsEditChange (map JObj ms) s))"
    by (simp add: onMetricsEditChange_def list_all_iff obj)
  assume "i < length (dt_metrics s)"
  then show "list_all isDefinedAndNotNull (dt_metrics (onMetricCreateChange (JObj m) i s))"
    using assms set_update_subset_insert [of "dt_metrics s" i "JObj m"]
    by (auto simp: onMetricCreateChange_def list_all_iff obj)
qed

lemma wf_setParameter_same:
  "wf_editor s \<Longrightarrow> (\<And>p. dp_conditions (u p) = dp_conditions p) \<Longrightarrow> wf_editor (setParameter q u s)"
  using wf_setParameter conditions_ok_same by metis

lemma change_shown_lists [simp]:
  "dt_parameters (change_shown_value i text s) = dt_parameters s"
  "dt_conditionals (change_shown_value i text s) = dt_conditionals s"
  "dt_parameters (change_shown_key i text s) = dt_parameters s"
  "dt_conditionals (change_shown_key i text s) = dt_conditionals s"
  "dt_metrics (change_shown_value i text s) = dt_metrics s" "dt_metrics (change_shown_key i text s) = dt_metrics s"
  by (simp_all add: change_shown_value_def change_shown_key_def onValueChange_def onKeyChange_def Let_def)

lemma form_step_wf: "form_step s t \<Longrightarrow> wf_editor s \<Longrightarrow> wf_editor t"
proof (induction rule: form_step.induct)
  case (Field f v s t)
  then show ?case using setExperimentField_lists wf_same_lists by metis
next
  case (PickParameters c s v ps)
  then show ?case using wf_condition_onChange by blast
next
  case (RemoveCond c s t)
  then show ?case using wf_onRemoveConditional by blast
next
  case (NameCond c n s t)
  then show ?case using wf_onChangeConditional updaters_keep_conditional_key(1) by metis
next
  case (AddCondValue c vk s t)
  then show ?case using wf_onChangeConditional updaters_keep_conditional_key(2) by metis
next
  case (RemoveCondValue c v s t)
  then show ?case using wf_onChangeConditional updaters_keep_conditional_key(3) by metis
next
  case (NameCondValue c v n s t)
  then show ?case using wf_onChangeConditional updaters_keep_conditional_key(4) by metis
next
  case (AddCond key s vk)
  then show ?case by (simp add: wf_onAddConditional)
next
  case (AddParameter key s)
  then show ?case by (simp add: wf_addParameter)
next
  case (RemoveParameter s p)
  then show ?case by (simp add: wf_removeParameter)
qed ((simp_all add: wf_setParameter_same), (simp_all add: wf_editor_def metric_ops_there))

abbreviation form_steps :: "editor \<Rightarrow> editor \<Rightarrow> bool" where
  "form_steps \<equiv> form_step\<^sup>*\<^sup>*"

lemma form_steps_refl: "form_steps s s"
  by simp

lemma form_steps_step: "form_steps s t \<Longrightarrow> form_step t u \<Longrightarrow> form_steps s u"
  by (rule rtranclp.rtrancl_into_rtrancl)

interpretation form_wf: invariant_system form_step wf_editor
  by unfold_locales (rule form_step_wf)


text \<open>C16: Whatever the user does with the rows of the form for a new experiment, the experiment can be
  sent, and what is sent holds no edit key at any depth.\<close>

theorem form_can_be_sent:
  assumes "form_steps (defaultExperiment key) s"
  shows "\<exists>v. create_payload s = Inr v \<and> deep_keys v \<inter> {''object'', ''editKey''} = {}"
  using create_payload_wf [OF form_wf.inv_steps [OF assms wf_editor_default]] create_payload_keys by blast

lemma form_example:
  "form_steps (defaultExperiment ''k'')
     (condition_onChange (defaultConditional ''v'' ''c'') \<lparr>ev_name = [], ev_key = ''v''\<rparr>
        [defaultParameter ''k''] (onAddConditional ''v'' ''c'' (defaultExperiment ''k'')))"
  by (rule form_steps_step [OF form_steps_step [OF form_steps_refl form_step.AddCond]
        form_step.PickParameters])
    (simp_all add: defaultExperiment_def onAddConditional_def defaultConditional_def)

theorem form_can_be_sent_witness:
  "\<exists>v. create_payload (condition_onChange (defaultConditional ''v'' ''c'') \<lparr>ev_name = [], ev_key = ''v''\<rparr>
        [defaultParameter ''k''] (onAddConditional ''v'' ''c'' (defaultExperiment ''k''))) = Inr v
     \<and> deep_keys v \<inter> {''object'', ''editKey''} = {}"
  by (rule form_can_be_sent [OF form_example])

subsection \<open>Metadata rows\<close>

definition existing_first :: "ed_metadata list \<Rightarrow> bool" where
  "existing_first ms = sorted_wrt (\<lambda>a b. md_new a \<longrightarrow> md_new b) ms"

lemma shown_existing_first: "existing_first ms \<Longrightarrow> shown_metadata ms = ms"
proof (induction ms)
  case Nil
  then show ?case by (simp add: shown_metadata_def)
next
  case (Cons m ms)
  show ?case
  proof (cases "md_new m")
    case True
    then have "\<forall>x\<in>set ms. md_new x" using Cons.prems by (simp add: existing_first_def)
    then show ?thesis using True by (simp add: shown_metadata_def)
  next
    case False
    then show ?thesis using Cons by (simp add: existing_first_def shown_metadata_def)
  qed
qed

lemma existing_first_remove:
  assumes "existing_first ms"
  shows "existing_first (take i ms @ drop (Suc i) ms)"
proof -
  have "sorted_wrt (\<lambda>a b. md_new a \<longrightarrow> md_new b) (take i ms @ drop i ms)"
    using assms by (simp add: existing_first_def)
  moreover have "set (drop (Suc i) ms) \<subseteq> set (drop i ms)" by (simp add: set_drop_subset_set_drop)
  ultimately show ?thesis
    using assms unfolding existing_first_def sorted_wrt_append by (blast intro: sorted_wrt_drop)
qed

lemma existing_first_update:
  assumes "existing_first ms" "i < length ms \<Longrightarrow> md_new m = md_new (ms ! i)"
  shows "existing_first (ms[i := m])"
  using assms by (cases "i < length ms")
    (auto simp: existing_first_def sorted_wrt_iff_nth_less nth_list_update)

lemma setParameter_metadata [simp]: "dt_metadata (setParameter p u s) = dt_metadata s"
  by (simp add: setParameter_def split: option.split)

lemma fold_setParameter_metadata [simp]: "dt_metadata (fold (\<lambda>p. setParameter p u) qs s) = dt_metadata s"
  by (induction qs arbitrary: s) simp_all

lemma conditional_ops_metadata:
  "onChangeConditional c u s = Inr t \<Longrightarrow> dt_metadata t = dt_metadata s"
  "onRemoveConditional c s = Inr t \<Longrightarrow> dt_metadata t = dt_metadata s"
  by (auto simp: onChangeConditional_def onRemoveConditional_def Let_def split: option.splits if_splits)

lemma setExperimentField_metadata: "setExperimentField f v s = Inr t \<Longrightarrow> dt_metadata t = dt_metadata s"
  by (auto simp: setExperimentField_def split: sum.splits jsval.splits)

lemma form_step_existing_first:
  "form_step s t \<Longrightarrow> existing_first (dt_metadata s) \<Longrightarrow> existing_first (dt_metadata t)"
proof (induction rule: form_step.induct)
  case (Field f v s t)
  then show ?case by (simp add: setExperimentField_metadata)
next
  case (MetadataValue i s w)
  then show ?case
    by (auto simp: change_shown_value_def onValueChange_def onChangeMetadata_def Let_def
        shown_existing_first intro!: existing_first_update)
next
  case (MetadataKey i s w)
  then show ?case
    by (auto simp: change_shown_key_def onKeyChange_def onChangeMetadata_def Let_def
        shown_existing_first intro!: existing_first_update)
next
  case (MetadataAdd s)
  then show ?case by (simp add: onAddMetadata_def existing_first_def sorted_wrt_append)
next
  case (MetadataRemove s i)
  then show ?case by (simp add: onRemoveMetadata_def existing_first_remove)
qed (simp_all add: conditional_ops_metadata condition_onChange_def Let_def removeParameter_def addParameter_def
    onAddConditional_def onMetricCreateChange_def onMetricCreateRemove_def addMetricCreate_def
    onMetricsEditChange_def)

interpretation form_metadata: invariant_system form_step "\<lambda>s. existing_first (dt_metadata s)"
  by unfold_locales (rule form_step_existing_first)

lemma existing_first_rows: "existing_first (metadata_rows metadata)"
  by (simp add: existing_first_def metadata_rows_def sorted_wrt_map sorted_wrt_true case_prod_beta)

lemma existing_first_saved: "existing_first (dt_metadata (afterExperimentUpdate answer s))"
  by (simp add: existing_first_def afterExperimentUpdate_def sorted_wrt_map sorted_wrt_true)

text \<open>The rows of the metadata are shown in the order the state has them in, so typing a value
  changes the row it is typed in, keeps its key and no other row; a number stays one.\<close>

theorem metadata_value_changes_its_row:
  assumes "form_steps s t" "dt_metadata s = metadata_rows metadata" "i < length (dt_metadata t)"
  shows "shown_metadata (dt_metadata t) = dt_metadata t
    \<and> dt_metadata (change_shown_value i text t) = (dt_metadata t)[i :=
        (let m = dt_metadata t ! i; number = (\<not> md_new m \<and> md_number m)
         in m\<lparr>md_value := (if number then JNum (case number_of_text text of None \<Rightarrow> 0 | Some n \<Rightarrow> n) else JStr text),
              md_number := number\<rparr>)]"
proof -
  have "existing_first (dt_metadata t)"
    using form_metadata.inv_steps assms(1,2) existing_first_rows by metis
  then show ?thesis
    by (cases "dt_metadata t ! i")
      (simp add: shown_existing_first change_shown_value_def onValueChange_def onChangeMetadata_def Let_def)
qed

theorem metadata_value_changes_its_row_witness:
  "\<exists>t. form_steps ((defaultExperiment ''k'')\<lparr>dt_metadata := metadata_rows [(''a'', JNum 1)]\<rparr>) t
     \<and> dt_metadata (change_shown_value 1 ''x'' t) =
        [\<lparr>md_key = ''a'', md_value = JNum 1, md_new = False, md_number = True\<rparr>,
         \<lparr>md_key = [], md_value = JStr ''x'', md_new = True, md_number = False\<rparr>]"
proof -
  let ?s = "(defaultExperiment ''k'')\<lparr>dt_metadata := metadata_rows [(''a'', JNum 1)]\<rparr>"
  have steps: "form_steps ?s (onAddMetadata ?s)"
    by (rule form_steps_step [OF form_steps_refl form_step.MetadataAdd])
  show ?thesis
    using metadata_value_changes_its_row [OF steps, of "[(''a'', JNum 1)]" 1 "''x''"] steps
    by (intro exI [of _ "onAddMetadata ?s"])
      (simp add: onAddMetadata_def metadata_rows_def)
qed

text \<open>Saving drops the mark of the numbers: a number that is changed again is stored as a text.\<close>

lemma saved_number_becomes_text:
  assumes "i < length (dt_metadata s)"
  shows "md_value (dt_metadata (change_shown_value i text (afterExperimentUpdate answer s)) ! i) = JStr text"
  using assms existing_first_saved [of answer s]
  by (simp add: shown_existing_first change_shown_value_def onValueChange_def onChangeMetadata_def Let_def
      afterExperimentUpdate_def)

text \<open>The default value of a parameter outlives its removal from the categorical values.\<close>

lemma setCategoricalValues_keeps_default:
  "obj_get (dp_fields (setCategoricalValues needed vs p)) ''default_value''
     = obj_get (dp_fields p) ''default_value''"
  by (simp add: setCategoricalValues_def categorical_updater_def Let_def)


subsection \<open>Picking the parameters of a condition\<close>

definition keyed_parameters :: "editor \<Rightarrow> bool" where
  "keyed_parameters s =
     (distinct (map dp_key (dt_parameters s)) \<and> (\<forall>p\<in>set (dt_parameters s). dp_key p \<noteq> []))"

lemma setParameter_keyed:
  assumes "keyed_parameters s" "dp_key q \<noteq> []"
  shows "dt_parameters (setParameter q u s) =
    map (\<lambda>p. if dp_key p = dp_key q then u p else p) (dt_parameters s)"
proof -
  have key: "parameterKey p = dp_key p" if "p \<in> set (dt_parameters s)" for p
    using assms(1) that by (auto simp: keyed_parameters_def parameterKey_def)
  have qkey: "parameterKey q = dp_key q" using assms(2) by (simp add: parameterKey_def)
  show ?thesis
  proof (cases "List.find (\<lambda>p. parameterKey p = parameterKey q) (dt_parameters s)")
    case None
    then have "\<forall>p\<in>set (dt_parameters s). dp_key p \<noteq> dp_key q"
      using key qkey by (auto simp: find_None_iff')
    then show ?thesis using None by (simp add: setParameter_def map_idI)
  next
    case (Some prev)
    then have prev: "prev \<in> set (dt_parameters s)" "dp_key prev = dp_key q"
      using find_Some_iff' key qkey by fastforce+
    have "dp_key p = dp_key q \<longleftrightarrow> p = prev" if "p \<in> set (dt_parameters s)" for p
      using assms(1) that prev unfolding keyed_parameters_def by (metis distinct_map inj_onD)
    then show ?thesis using Some key qkey by (auto simp: setParameter_def)
  qed
qed

lemma fold_setParameter_keyed:
  assumes "keyed_parameters s" "\<forall>q\<in>set qs. dp_key q \<noteq> []" "\<And>p. dp_key (u p) = dp_key p"
  shows "dt_parameters (fold (\<lambda>q. setParameter q u) qs s) =
    map (\<lambda>p. fold (\<lambda>q p. if dp_key p = dp_key q then u p else p) qs p) (dt_parameters s)"
  using assms(1,2)
proof (induction qs arbitrary: s)
  case Nil
  then show ?case by simp
next
  case (Cons q qs)
  let ?t = "setParameter q u s"
  have t: "dt_parameters ?t = map (\<lambda>p. if dp_key p = dp_key q then u p else p) (dt_parameters s)"
    using Cons.prems by (simp add: setParameter_keyed)
  have "map dp_key (dt_parameters ?t) = map dp_key (dt_parameters s)"
    unfolding t by (simp add: assms(3))
  then have "keyed_parameters ?t"
    using Cons.prems(1) unfolding keyed_parameters_def by (metis image_eqI in_set_conv_nth length_map list.set_map nth_map)
  then show ?case using Cons t by simp
qed

lemma dp_key_updates [simp]:
  "dp_key (onAddCondition c v p) = dp_key p" "dp_key (onRemoveCondition c v p) = dp_key p"
  by (simp_all add: onAddCondition_def onRemoveCondition_def)

lemma map_of_map_values: "map_of (map (\<lambda>(k, vs). (k, f k vs)) xs) k = map_option (f k) (map_of xs k)"
  by (induction xs) auto

lemma is_selected_add:
  "is_selected d w (onAddCondition c v p) \<longleftrightarrow>
     is_selected d w p \<or> (dc_key d = dc_key c \<and> ev_key w = ev_key v)"
proof (cases "map_of (dp_conditions p) (dc_key c)")
  case None
  then show ?thesis
    by (auto simp: is_selected_def onAddCondition_def has_condition_def map_add_def split: option.splits)
next
  case (Some vs)
  then have "dp_conditions (onAddCondition c v p) =
      map (\<lambda>(k, vs). (k, (\<lambda>k vs. if k = dc_key c then filter (\<lambda>w. w \<noteq> ev_key v) vs @ [ev_key v] else vs) k vs))
        (dp_conditions p)"
    by (simp add: onAddCondition_def has_condition_def)
  then show ?thesis using Some
    by (simp only: is_selected_def map_of_map_values)
      (auto split: option.splits if_splits)
qed

lemma is_selected_remove:
  "is_selected d w (onRemoveCondition c v p) \<longleftrightarrow>
     is_selected d w p \<and> \<not> (dc_key d = dc_key c \<and> ev_key w = ev_key v)"
proof (cases "map_of (dp_conditions p) (dc_key c)")
  case None
  then show ?thesis by (auto simp: is_selected_def onRemoveCondition_def)
next
  case (Some vs)
  let ?new = "filter (\<lambda>w. w \<noteq> ev_key v) vs"
  show ?thesis
  proof (cases "?new = []")
    case True
    then have conds: "dp_conditions (onRemoveCondition c v p) =
        filter (\<lambda>kv. fst kv \<noteq> dc_key c) (dp_conditions p)"
      using Some by (simp add: onRemoveCondition_def)
    show ?thesis
      using True Some unfolding is_selected_def conds map_of_filter_key [where P = "\<lambda>k. k \<noteq> dc_key c"]
      by (auto simp: filter_empty_conv split: option.splits)
  next
    case False
    then have conds: "dp_conditions (onRemoveCondition c v p) =
        map (\<lambda>(k, vs). (k, (\<lambda>k vs. if k = dc_key c then ?new else vs) k vs)) (dp_conditions p)"
      using Some by (simp add: onRemoveCondition_def Let_def)
    show ?thesis
      using Some unfolding is_selected_def conds map_of_map_values
      by (auto split: option.splits)
  qed
qed


lemma fold_keyed_key [simp]:
  "(\<And>p. dp_key (u p) = dp_key p) \<Longrightarrow>
   dp_key (fold (\<lambda>q p. if dp_key p = dp_key q then u p else p) qs p) = dp_key p"
  by (induction qs arbitrary: p) auto

lemma fold_add_selected:
  "is_selected d w (fold (\<lambda>q p. if dp_key p = dp_key q then onAddCondition c v p else p) qs p) \<longleftrightarrow>
     is_selected d w p \<or> (dc_key d = dc_key c \<and> ev_key w = ev_key v \<and> dp_key p \<in> dp_key ` set qs)"
  by (induction qs arbitrary: p) (auto simp: is_selected_add)

lemma fold_remove_selected:
  "is_selected d w (fold (\<lambda>q p. if dp_key p = dp_key q then onRemoveCondition c v p else p) qs p) \<longleftrightarrow>
     is_selected d w p \<and> \<not> (dc_key d = dc_key c \<and> ev_key w = ev_key v \<and> dp_key p \<in> dp_key ` set qs)"
  by (induction qs arbitrary: p) (auto simp: is_selected_remove)

lemma keyed_parameters_map:
  assumes "keyed_parameters s" "dt_parameters t = map f (dt_parameters s)" "\<And>p. dp_key (f p) = dp_key p"
  shows "keyed_parameters t"
proof -
  have "map dp_key (dt_parameters t) = map dp_key (dt_parameters s)" using assms(2,3) by simp
  then have "distinct (map dp_key (dt_parameters t))" using assms(1) by (metis keyed_parameters_def)
  moreover have "\<forall>p\<in>set (dt_parameters t). dp_key p \<noteq> []"
    using assms by (auto simp: keyed_parameters_def)
  ultimately show ?thesis by (simp add: keyed_parameters_def)
qed

lemma keyed_same: "dt_parameters t = dt_parameters s \<Longrightarrow> keyed_parameters s \<Longrightarrow> keyed_parameters t"
  by (simp add: keyed_parameters_def)

lemma keyed_setParameter:
  assumes "keyed_parameters s" "q \<in> set (dt_parameters s)" "\<And>p. dp_key (u p) = dp_key p"
  shows "keyed_parameters (setParameter q u s)"
proof -
  have "dp_key q \<noteq> []" using assms(1,2) by (simp add: keyed_parameters_def)
  from keyed_parameters_map [OF assms(1) setParameter_keyed [OF assms(1) this]]
  show ?thesis using assms(3) by simp
qed

lemma keyed_conditional_ops:
  assumes "keyed_parameters s"
  shows "onChangeConditional c u s = Inr t \<Longrightarrow> keyed_parameters t"
    "onRemoveConditional c s = Inr t \<Longrightarrow> keyed_parameters t"
proof -
  have keys: "dp_key (removeConditionValue vs p) = dp_key p" "dp_key (removeCondition k p) = dp_key p" for vs k p
    by (simp_all add: removeConditionValue_def removeCondition_def)
  show "keyed_parameters t" if "onChangeConditional c u s = Inr t"
    using that keys(1) by (auto simp: onChangeConditional_def Let_def split: option.splits
        intro!: keyed_parameters_map [OF assms])
  show "keyed_parameters t" if "onRemoveConditional c s = Inr t"
  proof (cases "List.find (\<lambda>d. dc_key d = dc_key c) (dt_conditionals s)")
    case None
    then show ?thesis using that assms by (auto simp: onRemoveConditional_def split: if_splits)
  next
    case (Some prev)
    then have "dt_parameters t = map (removeCondition (dc_key prev)) (dt_parameters s)"
      using that by (auto simp: onRemoveConditional_def)
    then show ?thesis using keyed_parameters_map [OF assms] keys(2) by blast
  qed
qed

lemma image_filter_notin: "f ` set (filter (\<lambda>x. f x \<notin> A) xs) = f ` set xs - A"
  by auto

lemma picked_parameters_keys:
  assumes keyed: "keyed_parameters s" and picked: "set ps \<subseteq> set (dt_parameters s)"
  shows "\<exists>f. dt_parameters (condition_onChange c v ps s) = map f (dt_parameters s)
    \<and> (\<forall>p. dp_key (f p) = dp_key p)
    \<and> (\<forall>p\<in>set (dt_parameters s). \<forall>d w. is_selected d w (f p) \<longleftrightarrow>
          (if dc_key d = dc_key c \<and> ev_key w = ev_key v then dp_key p \<in> dp_key ` set ps else is_selected d w p))"
proof -
  define added where "added = filter (\<lambda>p. dp_key p \<notin> set (map dp_key (getSelected c v s))) ps"
  define removed where "removed = filter (\<lambda>p. dp_key p \<notin> set (map dp_key ps)) (getSelected c v s)"
  define add where "add = (\<lambda>p. fold (\<lambda>q p. if dp_key p = dp_key q then onAddCondition c v p else p) added p)"
  define rem where "rem = (\<lambda>p. fold (\<lambda>q p. if dp_key p = dp_key q then onRemoveCondition c v p else p) removed p)"
  let ?s1 = "fold (\<lambda>p. setParameter p (onAddCondition c v)) added s"
  have s1: "dt_parameters ?s1 = map add (dt_parameters s)"
    unfolding add_def by (rule fold_setParameter_keyed)
      (use keyed picked in \<open>auto simp: added_def keyed_parameters_def\<close>)
  have "keyed_parameters ?s1"
    by (rule keyed_parameters_map [OF keyed s1]) (simp add: add_def)
  then have "dt_parameters (fold (\<lambda>p. setParameter p (onRemoveCondition c v)) removed ?s1) =
      map rem (dt_parameters ?s1)"
    unfolding rem_def by (rule fold_setParameter_keyed)
      (use keyed in \<open>auto simp: removed_def keyed_parameters_def getSelected_def\<close>)
  moreover have "condition_onChange c v ps s = fold (\<lambda>p. setParameter p (onRemoveCondition c v)) removed ?s1"
    by (simp add: condition_onChange_def Let_def added_def removed_def)
  ultimately have t: "dt_parameters (condition_onChange c v ps s) = map (\<lambda>p. rem (add p)) (dt_parameters s)"
    using s1 by simp
  have key: "dp_key (rem (add p)) = dp_key p" for p
    by (simp add: rem_def add_def)
  have sel: "is_selected d w (rem (add p)) \<longleftrightarrow>
      (if dc_key d = dc_key c \<and> ev_key w = ev_key v then dp_key p \<in> dp_key ` set ps else is_selected d w p)"
    if p: "p \<in> set (dt_parameters s)" for d w p
  proof -
    have old: "dp_key p \<in> dp_key ` set (getSelected c v s) \<longleftrightarrow> is_selected c v p"
      using keyed p unfolding getSelected_def keyed_parameters_def
      by (auto dest: inj_onD simp: distinct_map)
    have "is_selected d w p \<longleftrightarrow> is_selected c v p" if "dc_key d = dc_key c \<and> ev_key w = ev_key v"
      using that by (auto simp: is_selected_def split: option.split)
    moreover have "dp_key p \<in> dp_key ` set added \<longleftrightarrow>
        dp_key p \<in> dp_key ` set ps \<and> dp_key p \<notin> dp_key ` set (getSelected c v s)"
      unfolding added_def image_filter_notin by simp
    moreover have "dp_key p \<in> dp_key ` set removed \<longleftrightarrow>
        dp_key p \<in> dp_key ` set (getSelected c v s) \<and> dp_key p \<notin> dp_key ` set ps"
      unfolding removed_def image_filter_notin by simp
    ultimately show ?thesis
      using old by (simp add: rem_def add_def fold_add_selected fold_remove_selected) blast
  qed
  show ?thesis using t key sel by blast
qed


lemma updaters_keep_key [simp]:
  "dp_key (changeParameterName n p) = dp_key p" "dp_key (changeParameterType n p) = dp_key p"
  "dp_key (changeDefaultValue n p) = dp_key p" "dp_key (setParameterBounds b p) = dp_key p"
  "dp_key (setCategoricalValues needed vs p) = dp_key p"
  by (simp_all add: changeParameterName_def changeParameterType_def changeDefaultValue_def
      setParameterBounds_def setCategoricalValues_def)

lemma form_step_keyed: "form_step s t \<Longrightarrow> keyed_parameters s \<Longrightarrow> keyed_parameters t"
proof (induction rule: form_step.induct)
  case (Field f v s t)
  then show ?case using setExperimentField_lists keyed_same by metis
next
  case (AddParameter key s)
  then have "parameterKey p = dp_key p" if "p \<in> set (dt_parameters s)" for p
    using that by (simp add: keyed_parameters_def parameterKey_def)
  then show ?case
    using AddParameter by (force simp: keyed_parameters_def addParameter_def defaultParameter_def)
next
  case (RemoveParameter s p)
  then show ?case by (auto simp: keyed_parameters_def removeParameter_def intro: distinct_map_filter)
next
  case (PickParameters c s v ps)
  then show ?case using picked_parameters_keys keyed_parameters_map by metis
next
  case (RemoveCond c s t)
  then show ?case using keyed_conditional_ops(2) by blast
next
  case (NameCond c n s t)
  then show ?case using keyed_conditional_ops(1) by blast
next
  case (AddCondValue c vk s t)
  then show ?case using keyed_conditional_ops(1) by blast
next
  case (RemoveCondValue c v s t)
  then show ?case using keyed_conditional_ops(1) by blast
next
  case (NameCondValue c v n s t)
  then show ?case using keyed_conditional_ops(1) by blast
qed ((simp_all add: keyed_setParameter), (simp_all add: keyed_parameters_def onAddConditional_def))

interpretation form_keyed: invariant_system form_step keyed_parameters
  by unfold_locales (rule form_step_keyed)

text \<open>After parameters have been picked for a value of a conditional, exactly these have the
  condition, and every other condition is as it was.\<close>

theorem picked_parameters_have_condition:
  assumes "form_steps (defaultExperiment key) s" "key \<noteq> []" "set ps \<subseteq> set (dt_parameters s)"
  shows "map dp_key (getSelected d w (condition_onChange c v ps s)) =
    (if dc_key d = dc_key c \<and> ev_key w = ev_key v
     then filter (\<lambda>k. k \<in> dp_key ` set ps) (map dp_key (dt_parameters s))
     else map dp_key (getSelected d w s))"
proof -
  have "keyed_parameters (defaultExperiment key)"
    using assms(2) by (simp add: keyed_parameters_def defaultExperiment_def defaultParameter_def)
  then have "keyed_parameters s" using form_keyed.inv_steps assms(1) by blast
  from picked_parameters_keys [OF this assms(3), of c v] obtain f where f: "dt_parameters (condition_onChange c v ps s) = map f (dt_parameters s)"
    "\<forall>p. dp_key (f p) = dp_key p"
    and all: "\<forall>p\<in>set (dt_parameters s). \<forall>d w. is_selected d w (f p) \<longleftrightarrow>
      (if dc_key d = dc_key c \<and> ev_key w = ev_key v then dp_key p \<in> dp_key ` set ps else is_selected d w p)"
    by blast
  have key: "dp_key (f p) = dp_key p" for p using f(2) by blast
  have sel: "is_selected d w (f p) \<longleftrightarrow>
      (if dc_key d = dc_key c \<and> ev_key w = ev_key v then dp_key p \<in> dp_key ` set ps else is_selected d w p)"
    if "p \<in> set (dt_parameters s)" for p using all that by blast
  have "map dp_key (getSelected d w (condition_onChange c v ps s)) =
      map dp_key (filter (\<lambda>p. is_selected d w (f p)) (dt_parameters s))"
    unfolding getSelected_def f(1) filter_map map_map comp_def key ..
  also have "filter (\<lambda>p. is_selected d w (f p)) (dt_parameters s) = filter (\<lambda>p.
      if dc_key d = dc_key c \<and> ev_key w = ev_key v then dp_key p \<in> dp_key ` set ps else is_selected d w p)
      (dt_parameters s)"
    by (rule filter_cong [OF refl sel])
  finally show ?thesis
    by (cases "dc_key d = dc_key c \<and> ev_key w = ev_key v")
      (simp_all only: if_True if_False getSelected_def filter_map comp_def simp_thms)
qed

theorem picked_parameters_have_condition_witness:
  "map dp_key (getSelected (defaultConditional ''v'' ''c'') \<lparr>ev_name = [], ev_key = ''v''\<rparr>
     (condition_onChange (defaultConditional ''v'' ''c'') \<lparr>ev_name = [], ev_key = ''v''\<rparr>
        [defaultParameter ''k''] (onAddConditional ''v'' ''c'' (defaultExperiment ''k'')))) = [''k'']"
  using picked_parameters_have_condition [OF form_steps_step [OF form_steps_refl form_step.AddCond],
      where key = "''k''" and ps = "[defaultParameter ''k'']"]
  by (simp add: defaultExperiment_def onAddConditional_def defaultConditional_def defaultParameter_def)

end
