(* ===== verification/ExpList.thy ===== *)
theory ExpList
  imports Sources
begin

section \<open>The lists of experiments and projects: web/js/pages/experiment/list, web/js/pages/projects\<close>

text \<open>
  The controller of the list of experiments keeps the view (whose experiments, archived ones, those in
  development, a search), the experiments that are selected, and the history of the browser; the list
  itself keeps its page. The history tracker is that of \<open>Sources\<close>; its handlers are numbered in the
  order in which they are added, that of the list first.
\<close>

record exp_list =
  xl_includeClient :: bool
  xl_archived :: bool
  xl_dev :: bool
  xl_query :: string
  xl_page :: jsval
  xl_listPage :: jsval
  xl_currentPage :: jsval
  xl_selected :: "string list"
  xl_onPage :: "string list"
  xl_bulk :: bool
  xl_refreshes :: nat
  xl_searchCount :: "nat option"
  xl_history :: history_tracker
  xl_pushed :: "(hist_state \<times> jsobj) list"

subsection \<open>The state from the address\<close>

definition validate_flag :: "string \<Rightarrow> jsobj \<Rightarrow> jsobj" where
  "validate_flag flag params =
     (if map_of params flag = None then params
      else if truthy (obj_get params flag) then AList.update flag (JBool True) params
      else filter (\<lambda>kv. fst kv \<noteq> flag) params)"

definition validate_page :: "jsobj \<Rightarrow> jsobj" where
  "validate_page params =
     (if map_of params ''page'' = None then params
      else (let pageNumber = maybeAsNumber (obj_get params ''page'')
            in if isPositiveInteger pageNumber then AList.update ''page'' pageNumber params
               else filter (\<lambda>kv. fst kv \<noteq> ''page'') params))"

definition validatePageParams :: "jsobj \<Rightarrow> jsobj" where
  "validatePageParams pageParams =
     validate_page (validate_flag ''dev'' (validate_flag ''archived'' (validate_flag ''includeClient'' pageParams)))"

text \<open>\<open>_.defaults\<close> fills in what is missing.\<close>

definition param_or :: "jsobj \<Rightarrow> string \<Rightarrow> jsval \<Rightarrow> jsval" where
  "param_or params k d = (if obj_get params k = JUndef then d else obj_get params k)"

definition defaultIncludeClient :: "nat option \<Rightarrow> nat option \<Rightarrow> jsobj \<Rightarrow> bool" where
  "defaultIncludeClient mine team params =
     (if truthy (obj_get params ''archived'') \<or> truthy (obj_get params ''dev'')
      then truthy (obj_get params ''includeClient'')
      else mine = Some 0 \<and> (case team of None \<Rightarrow> False | Some n \<Rightarrow> 0 < n))"

definition exp_list_init :: "nat option \<Rightarrow> nat option \<Rightarrow> jsobj \<Rightarrow> exp_list" where
  "exp_list_init mine team pageParams =
     (let params = validatePageParams pageParams;
          page = param_or params ''page'' (JNum 0)
      in \<lparr>xl_includeClient =
            truthy (param_or params ''includeClient'' (JBool (defaultIncludeClient mine team params))),
          xl_archived = truthy (param_or params ''archived'' (JBool False)),
          xl_dev = truthy (param_or params ''dev'' (JBool False)),
          xl_query = js_text (param_or params ''query'' (JStr [])),
          xl_page = page, xl_listPage = page, xl_currentPage = page,
          xl_selected = [], xl_onPage = [], xl_bulk = False, xl_refreshes = 0,
          xl_searchCount = None, xl_history = newHistoryTracker, xl_pushed = []\<rparr>)"

text \<open>The list is mounted before the controller.\<close>

definition exp_list_didMount :: "exp_list \<Rightarrow> exp_list" where
  "exp_list_didMount s =
     s\<lparr>xl_history :=
        history_addHandler ''query'' 4 (Prim (JStr (xl_query s)))
          (history_addHandler ''dev'' 3 (Prim (JBool (xl_dev s)))
            (history_addHandler ''archived'' 2 (Prim (JBool (xl_archived s)))
              (history_addHandler ''includeClient'' 1 (Prim (JBool (xl_includeClient s)))
                (history_addHandler ''page'' 0 (Prim (xl_page s)) (xl_history s)))))\<rparr>"

subsection \<open>The list beneath\<close>

text \<open>When the view changes the list loads the start page; otherwise, when the nonce changes, it fetches
  its page again.\<close>

definition same_view :: "exp_list \<Rightarrow> exp_list \<Rightarrow> bool" where
  "same_view s t =
     (xl_query s = xl_query t \<and> xl_includeClient s = xl_includeClient t
      \<and> xl_archived s = xl_archived t \<and> xl_dev s = xl_dev t)"

definition list_didUpdate :: "exp_list \<Rightarrow> exp_list \<Rightarrow> exp_list" where
  "list_didUpdate prev s = (if same_view prev s then s else s\<lparr>xl_listPage := xl_page s\<rparr>)"

definition list_pageFetcher :: "jsval \<Rightarrow> exp_list \<Rightarrow> jsobj" where
  "list_pageFetcher user s =
     (if xl_query s = []
      then [(''state'', JStr (if xl_archived s then ''all'' else ''active'')),
            (''user'', if xl_includeClient s then JNull else user),
            (''development'', if xl_dev s then JNull else JBool False),
            (''sort'', JStr ''recent'')]
      else [(''search'', JStr (xl_query s)), (''state'', JStr ''all''), (''sort'', JStr ''recent'')])"

definition list_fetched :: "nat \<Rightarrow> exp_list \<Rightarrow> exp_list" where
  "list_fetched count s = (if xl_query s \<noteq> [] then s\<lparr>xl_searchCount := Some count\<rparr> else s)"

subsection \<open>Address and history\<close>

definition exp_url_params :: "jsobj \<Rightarrow> exp_list \<Rightarrow> jsobj" where
  "exp_url_params urlParams s =
     (let includeClient = coalesce [obj_get urlParams ''includeClient'', JBool (xl_includeClient s), JBool False];
          archived = coalesce [obj_get urlParams ''archived'', JBool (xl_archived s), JBool False];
          dev = coalesce [obj_get urlParams ''dev'', JBool (xl_dev s), JBool False];
          newPage = coalesce [obj_get urlParams ''page'', xl_page s, JNum 0];
          newQuery = coalesce [obj_get urlParams ''query'', JStr (xl_query s), JStr []]
      in obj_extend [(''page'', newPage)]
           (if newQuery = JStr []
            then filter (\<lambda>kv. truthy (snd kv))
                   [(''includeClient'', includeClient), (''archived'', archived), (''dev'', dev)]
            else [(''query'', newQuery)]))"

definition pushed_view :: "jsobj \<Rightarrow> exp_list \<Rightarrow> jsobj" where
  "pushed_view urlParams s =
     obj_extend urlParams
       [(''includeClient'', JBool (xl_includeClient s)), (''archived'', JBool (xl_archived s)),
        (''dev'', JBool (xl_dev s)), (''query'', JStr (xl_query s))]"

definition exp_pageUpdated :: "jsobj \<Rightarrow> bool \<Rightarrow> exp_list \<Rightarrow> exp_list" where
  "exp_pageUpdated urlParams changeHistory s =
     (let params = exp_url_params urlParams s;
          s1 = s\<lparr>xl_currentPage := coalesce [obj_get urlParams ''page'', xl_page s, JNum 0]\<rparr>
      in if changeHistory
         then (let (t, entry) = history_pushState
                 (map (\<lambda>(k, v). (k, Prim v)) (pushed_view urlParams s)) (xl_history s)
               in s1\<lparr>xl_history := t, xl_pushed := xl_pushed s @ [(entry, params)]\<rparr>)
         else s1)"

text \<open>A page of the list is chosen.\<close>

definition list_navigate :: "jsval \<Rightarrow> bool \<Rightarrow> exp_list \<Rightarrow> exp_list" where
  "list_navigate page changeHistory s =
     exp_pageUpdated [(''page'', page)] changeHistory (s\<lparr>xl_listPage := page\<rparr>)"

definition exp_pushViewHistory :: "bool \<Rightarrow> bool \<Rightarrow> bool \<Rightarrow> exp_list \<Rightarrow> exp_list" where
  "exp_pushViewHistory includeClient archived dev s =
     exp_pageUpdated
       [(''includeClient'', JBool includeClient), (''archived'', JBool archived), (''dev'', JBool dev),
        (''query'', JStr []), (''page'', JNum 0)] True
       (list_didUpdate s (s\<lparr>xl_includeClient := includeClient, xl_archived := archived, xl_dev := dev,
          xl_query := [], xl_page := JNum 0\<rparr>))"

definition search_params :: "string \<Rightarrow> jsobj" where
  "search_params query =
     [(''query'', JStr query), (''page'', JNum 0), (''includeClient'', JBool False),
      (''archived'', JBool False), (''dev'', JBool False)]"

definition show_search :: "string \<Rightarrow> exp_list \<Rightarrow> exp_list" where
  "show_search query s =
     list_didUpdate s (s\<lparr>xl_query := query, xl_page := JNum 0, xl_includeClient := False,
       xl_archived := False, xl_dev := False, xl_selected := []\<rparr>)"

definition resetToDashboard :: "exp_list \<Rightarrow> exp_list" where
  "resetToDashboard s = exp_pageUpdated (search_params []) True (show_search [] s)"

text \<open>A search loads the list again even when it is the one that is shown.\<close>

definition getSearchResults :: "string \<Rightarrow> exp_list \<Rightarrow> exp_list" where
  "getSearchResults query s =
     (let t = show_search query s
      in exp_pageUpdated (search_params query) True (t\<lparr>xl_listPage := xl_page t\<rparr>))"

text \<open>The handlers of the history.\<close>

definition hist_bool :: "hist_val \<Rightarrow> bool" where
  "hist_bool v = (case v of Prim w \<Rightarrow> truthy w | Ref _ _ \<Rightarrow> True)"

definition hist_prim :: "hist_val \<Rightarrow> jsval" where
  "hist_prim v = (case v of Prim w \<Rightarrow> w | Ref _ w \<Rightarrow> w)"

fun exp_handler :: "nat \<times> hist_val \<Rightarrow> exp_list \<Rightarrow> exp_list" where
  "exp_handler (h, v) s =
     (if h = 0 then list_navigate (hist_prim v) False s
      else if h = 1 then list_didUpdate s
        (s\<lparr>xl_includeClient := hist_bool v, xl_query := [], xl_page := xl_currentPage s\<rparr>)
      else if h = 2 then list_didUpdate s
        (s\<lparr>xl_archived := hist_bool v, xl_query := [], xl_page := xl_currentPage s\<rparr>)
      else if h = 3 then list_didUpdate s
        (s\<lparr>xl_dev := hist_bool v, xl_query := [], xl_page := xl_currentPage s\<rparr>)
      else list_didUpdate s
        (s\<lparr>xl_query := js_text (hist_prim v), xl_page := xl_currentPage s,
           xl_includeClient := False, xl_archived := False, xl_dev := False\<rparr>))"

definition exp_pop :: "hist_state option \<Rightarrow> exp_list \<Rightarrow> exp_list" where
  "exp_pop entry s =
     (let (t, calls, err) = basePopHandler entry (xl_history s)
      in (fold exp_handler calls s)\<lparr>xl_history := t\<rparr>)"

subsection \<open>Selection\<close>

definition clearSelectedExperiments :: "exp_list \<Rightarrow> exp_list" where
  "clearSelectedExperiments s = s\<lparr>xl_selected := []\<rparr>"

definition updateExperimentsOnPage :: "string list \<Rightarrow> exp_list \<Rightarrow> exp_list" where
  "updateExperimentsOnPage experiments s = s\<lparr>xl_onPage := remdups experiments\<rparr>"

definition toggleAllSelectedExperiments :: "exp_list \<Rightarrow> exp_list" where
  "toggleAllSelectedExperiments s =
     (if list_all (\<lambda>e. e \<in> set (xl_selected s)) (xl_onPage s)
      then clearSelectedExperiments s
      else s\<lparr>xl_selected := xl_selected s @ filter (\<lambda>e. e \<notin> set (xl_selected s)) (xl_onPage s)\<rparr>)"

definition toggleExperimentSelection :: "string \<Rightarrow> bool \<Rightarrow> exp_list \<Rightarrow> exp_list" where
  "toggleExperimentSelection e selected s =
     s\<lparr>xl_selected := (if selected then (if e \<in> set (xl_selected s) then xl_selected s else xl_selected s @ [e])
                       else filter (\<lambda>x. x \<noteq> e) (xl_selected s))\<rparr>"

subsection \<open>Actions on the selected experiments\<close>

definition exp_refreshPage :: "exp_list \<Rightarrow> exp_list" where
  "exp_refreshPage s =
     clearSelectedExperiments (s\<lparr>xl_bulk := False, xl_refreshes := Suc (xl_refreshes s)\<rparr>)"

text \<open>An action sends its request for each of the selected experiments, unless one is under way; when all
  have succeeded the list is fetched again, when one has failed it is not.\<close>

definition bulkAction_start :: "exp_list \<Rightarrow> exp_list \<times> string list" where
  "bulkAction_start s =
     (if \<not> xl_bulk s then (s\<lparr>xl_bulk := True\<rparr>, xl_selected s) else (s, []))"

definition bulkAction_done :: "bool \<Rightarrow> exp_list \<Rightarrow> exp_list" where
  "bulkAction_done ok s = (if ok then exp_refreshPage s else s\<lparr>xl_bulk := False\<rparr>)"

subsection \<open>The list of projects: projects/page.js\<close>

record project_list =
  pl_includeClient :: bool
  pl_page :: jsval
  pl_showArchived :: bool

definition projects_validatePageParams :: "jsobj \<Rightarrow> jsobj" where
  "projects_validatePageParams pageParams = validate_page (validate_flag ''includeClient'' pageParams)"

definition projects_init :: "jsobj \<Rightarrow> project_list" where
  "projects_init pageParams =
     (let params = projects_validatePageParams pageParams
      in \<lparr>pl_includeClient = truthy (param_or params ''includeClient'' (JBool False)),
          pl_page = param_or params ''page'' (JNum 0), pl_showArchived = False\<rparr>)"

definition projects_url_params :: "jsobj \<Rightarrow> project_list \<Rightarrow> jsobj" where
  "projects_url_params urlParams s =
     [(''page'', coalesce [obj_get urlParams ''page'', pl_page s, JNum 0]),
      (''includeClient'', coalesce [obj_get urlParams ''includeClient'', JBool (pl_includeClient s), JBool False])]"

definition projects_pushViewHistory :: "bool \<Rightarrow> project_list \<Rightarrow> project_list \<times> jsobj" where
  "projects_pushViewHistory includeClient s =
     (let t = s\<lparr>pl_includeClient := includeClient, pl_page := JNum 0\<rparr>
      in (t, projects_url_params [(''includeClient'', JBool includeClient), (''page'', JNum 0)] t))"

definition onToggleIncludeClient :: "project_list \<Rightarrow> project_list \<times> jsobj" where
  "onToggleIncludeClient s = projects_pushViewHistory (\<not> pl_includeClient s) s"

definition projects_toggleArchived :: "project_list \<Rightarrow> project_list" where
  "projects_toggleArchived s = s\<lparr>pl_showArchived := \<not> pl_showArchived s\<rparr>"

definition projects_pageFetcher :: "jsval \<Rightarrow> project_list \<Rightarrow> jsobj" where
  "projects_pageFetcher user s =
     [(''user'', if pl_includeClient s then JNull else user), (''deleted'', JBool (pl_showArchived s))]"

text \<open>The parameters of an address are texts.\<close>

definition as_query :: "jsobj \<Rightarrow> jsobj" where
  "as_query params = map (\<lambda>(k, v). (k, JStr (js_text v))) params"

section \<open>Properties\<close>

subsection \<open>Going back in the history\<close>

definition no_flags :: "exp_list \<Rightarrow> bool" where
  "no_flags s = (\<not> xl_includeClient s \<and> \<not> xl_archived s \<and> \<not> xl_dev s)"

text \<open>The list without going back: the filters are there without a search, and each toggles one of
  them; the way back to the dashboard is there with one.\<close>

inductive exp_forward :: "exp_list \<Rightarrow> bool" where
  Mount: "xl_query (exp_list_init mine team params) = [] \<or> no_flags (exp_list_init mine team params) \<Longrightarrow>
    exp_forward (exp_list_didMount (exp_list_init mine team params))"
| Toggle: "exp_forward s \<Longrightarrow> xl_query s = [] \<Longrightarrow>
    (ic, ar, dv) \<noteq> (xl_includeClient s, xl_archived s, xl_dev s) \<Longrightarrow>
    exp_forward (exp_pushViewHistory ic ar dv s)"
| Dashboard: "exp_forward s \<Longrightarrow> xl_query s \<noteq> [] \<Longrightarrow> exp_forward (resetToDashboard s)"
| Search: "exp_forward s \<Longrightarrow> exp_forward (getSearchResults q s)"
| Navigate: "exp_forward s \<Longrightarrow> exp_forward (list_navigate (JNum n) True s)"

definition view_state :: "jsval \<Rightarrow> bool \<Rightarrow> bool \<Rightarrow> bool \<Rightarrow> string \<Rightarrow> hist_state" where
  "view_state p ic ar dv q =
     [(''page'', Prim p), (''includeClient'', Prim (JBool ic)), (''archived'', Prim (JBool ar)),
      (''dev'', Prim (JBool dv)), (''query'', Prim (JStr q))]"

definition exp_handlers :: "(string \<times> nat) list" where
  "exp_handlers = [(''page'', 0), (''includeClient'', 1), (''archived'', 2), (''dev'', 3), (''query'', 4)]"

definition exp_in_step :: "exp_list \<Rightarrow> bool" where
  "exp_in_step s =
     (ht_handlers (xl_history s) = exp_handlers
      \<and> last_state (xl_history s) =
          view_state (xl_currentPage s) (xl_includeClient s) (xl_archived s) (xl_dev s) (xl_query s)
      \<and> xl_listPage s = xl_currentPage s
      \<and> (xl_query s \<noteq> [] \<longrightarrow> no_flags s)
      \<and> (\<forall>(e, u)\<in>set (xl_pushed s). \<exists>p ic ar dv q. e = view_state (JNum p) ic ar dv q
            \<and> (q \<noteq> [] \<longrightarrow> \<not> ic \<and> \<not> ar \<and> \<not> dv)))"

lemma list_didUpdate_simps [simp]:
  "xl_query (list_didUpdate s t) = xl_query t" "xl_includeClient (list_didUpdate s t) = xl_includeClient t"
  "xl_archived (list_didUpdate s t) = xl_archived t" "xl_dev (list_didUpdate s t) = xl_dev t"
  "xl_history (list_didUpdate s t) = xl_history t" "xl_pushed (list_didUpdate s t) = xl_pushed t"
  "xl_currentPage (list_didUpdate s t) = xl_currentPage t" "xl_page (list_didUpdate s t) = xl_page t"
  "xl_selected (list_didUpdate s t) = xl_selected t"
  "xl_listPage (list_didUpdate s t) = (if same_view s t then xl_listPage t else xl_page t)"
  by (simp_all add: list_didUpdate_def)

lemma exp_in_step_mount:
  "xl_query (exp_list_init mine team params) = [] \<or> no_flags (exp_list_init mine team params) \<Longrightarrow>
   exp_in_step (exp_list_didMount (exp_list_init mine team params))"
  by (auto simp: exp_in_step_def exp_list_didMount_def exp_list_init_def Let_def newHistoryTracker_def
      history_addHandler_def isHandlerValid_def heap_set_def last_state_def exp_handlers_def view_state_def
      no_flags_def)

text \<open>A push keeps the history in step, when the entry it makes is the view.\<close>

lemma exp_pageUpdated_in_step:
  assumes handlers: "ht_handlers (xl_history s) = exp_handlers"
    and entry: "obj_extend (last_state (xl_history s)) (map (\<lambda>(k, v). (k, Prim v)) (pushed_view urlParams s)) =
      view_state (JNum n) (xl_includeClient s) (xl_archived s) (xl_dev s) (xl_query s)"
    and pushed: "\<forall>(e, u)\<in>set (xl_pushed s). \<exists>p ic ar dv q. e = view_state (JNum p) ic ar dv q
            \<and> (q \<noteq> [] \<longrightarrow> \<not> ic \<and> \<not> ar \<and> \<not> dv)"
    and page: "obj_get urlParams ''page'' = JNum n" "xl_listPage s = JNum n"
    and flags: "xl_query s \<noteq> [] \<longrightarrow> no_flags s"
  shows "exp_in_step (exp_pageUpdated urlParams True s)"
proof -
  have "\<exists>p ic ar dv q. view_state (JNum n) (xl_includeClient s) (xl_archived s) (xl_dev s) (xl_query s) =
      view_state (JNum p) ic ar dv q \<and> (q \<noteq> [] \<longrightarrow> \<not> ic \<and> \<not> ar \<and> \<not> dv)"
    using flags unfolding no_flags_def by blast
  then show ?thesis
    using assms
    by (simp add: exp_in_step_def exp_pageUpdated_def history_pushState_def last_state_def no_flags_def Let_def)
qed

lemma exp_in_step_forward: "exp_forward s \<Longrightarrow> exp_in_step s"
proof (induction rule: exp_forward.induct)
  case (Mount mine team params)
  then show ?case by (rule exp_in_step_mount)
next
  case (Toggle s ic ar dv)
  then show ?case
    unfolding exp_pushViewHistory_def
    by (intro exp_pageUpdated_in_step [where n = 0])
      (auto simp: exp_in_step_def view_state_def pushed_view_def same_view_def)
next
  case (Dashboard s)
  then show ?case
    unfolding resetToDashboard_def show_search_def
    by (intro exp_pageUpdated_in_step [where n = 0])
      (auto simp: exp_in_step_def view_state_def pushed_view_def search_params_def same_view_def)
next
  case (Search s q)
  then show ?case
    unfolding getSearchResults_def show_search_def Let_def
    by (intro exp_pageUpdated_in_step [where n = 0])
      (auto simp: exp_in_step_def view_state_def pushed_view_def search_params_def no_flags_def)
next
  case (Navigate s n)
  then show ?case
    unfolding list_navigate_def
    by (intro exp_pageUpdated_in_step [where n = n])
      (auto simp: exp_in_step_def view_state_def pushed_view_def no_flags_def)
qed

text \<open>Going to an entry runs the handlers of what has changed, the page first and the search last.\<close>

lemma exp_pop_calls:
  assumes "exp_in_step s"
  shows "basePopHandler (Some (view_state p ic ar dv q)) (xl_history s) =
    (fst (basePopHandler (Some (view_state p ic ar dv q)) (xl_history s)),
     (if p \<noteq> xl_currentPage s then [(0, Prim p)] else [])
     @ (if ic \<noteq> xl_includeClient s then [(1, Prim (JBool ic))] else [])
     @ (if ar \<noteq> xl_archived s then [(2, Prim (JBool ar))] else [])
     @ (if dv \<noteq> xl_dev s then [(3, Prim (JBool dv))] else [])
     @ (if q \<noteq> xl_query s then [(4, Prim (JStr q))] else []), None)"
  using assms
  by (simp add: exp_in_step_def basePopHandler_def view_state_def exp_handlers_def)

lemma list_navigate_False [simp]:
  "list_navigate (JNum n) False s = s\<lparr>xl_listPage := JNum n, xl_currentPage := JNum n\<rparr>"
  by (simp add: list_navigate_def exp_pageUpdated_def Let_def)

lemma exp_pop_state:
  assumes step: "exp_in_step s" and q: "q \<noteq> [] \<longrightarrow> \<not> ic \<and> \<not> ar \<and> \<not> dv"
    and t: "t = exp_pop (Some (view_state (JNum p) ic ar dv q)) s"
  shows "xl_query t = q \<and> xl_listPage t = JNum p
    \<and> (xl_includeClient t, xl_archived t, xl_dev t) =
        (if q = xl_query s then (ic, ar, dv) else (False, False, False))"
proof -
  let ?h = "fst (basePopHandler (Some (view_state (JNum p) ic ar dv q)) (xl_history s))"
  let ?calls = "(if JNum p \<noteq> xl_currentPage s then [(0, Prim (JNum p))] else [])
     @ (if ic \<noteq> xl_includeClient s then [(1, Prim (JBool ic))] else [])
     @ (if ar \<noteq> xl_archived s then [(2, Prim (JBool ar))] else [])
     @ (if dv \<noteq> xl_dev s then [(3, Prim (JBool dv))] else [])
     @ (if q \<noteq> xl_query s then [(4, Prim (JStr q))] else [])"
  have t': "t = (fold exp_handler ?calls s)\<lparr>xl_history := ?h\<rparr>"
    unfolding t exp_pop_def by (subst exp_pop_calls [OF step]) (simp only: prod.case Let_def)
  have list: "xl_listPage s = xl_currentPage s" and flags: "xl_query s \<noteq> [] \<longrightarrow> no_flags s"
    using step by (simp_all add: exp_in_step_def)
  show ?thesis
    unfolding t' using list flags q
    by (cases "JNum p = xl_currentPage s"; cases "q = xl_query s"; cases "ic = xl_includeClient s";
        cases "ar = xl_archived s"; cases "dv = xl_dev s")
      (simp_all add: hist_bool_def hist_prim_def same_view_def no_flags_def)
qed


text \<open>Going back from the view that is shown to an entry of the history that was pushed on the way
  shows its search and its page; it shows its filters if the search does not change, but when it does
  change all filters are switched off, whatever those of the entry are.\<close>

theorem going_back_shows_entry:
  assumes "exp_forward s" "(entry, address) \<in> set (xl_pushed s)"
  shows "\<exists>p ic ar dv q. entry = view_state (JNum p) ic ar dv q
    \<and> xl_query (exp_pop (Some entry) s) = q \<and> xl_listPage (exp_pop (Some entry) s) = JNum p
    \<and> (xl_includeClient (exp_pop (Some entry) s), xl_archived (exp_pop (Some entry) s),
        xl_dev (exp_pop (Some entry) s)) =
        (if q = xl_query s then (ic, ar, dv) else (False, False, False))"
proof -
  have step: "exp_in_step s" using assms(1) by (rule exp_in_step_forward)
  then have "\<forall>(e, u)\<in>set (xl_pushed s). \<exists>p ic ar dv q. e = view_state (JNum p) ic ar dv q
      \<and> (q \<noteq> [] \<longrightarrow> \<not> ic \<and> \<not> ar \<and> \<not> dv)"
    unfolding exp_in_step_def by (elim conjE)
  from bspec [OF this assms(2)] obtain p ic ar dv q where entry: "entry = view_state (JNum p) ic ar dv q"
    "q \<noteq> [] \<longrightarrow> \<not> ic \<and> \<not> ar \<and> \<not> dv"
    unfolding prod.case by (elim exE conjE) (rule that)
  show ?thesis
    unfolding entry(1) using exp_pop_state [OF step entry(2) refl, of p]
    by (intro exI conjI) (rule refl, (elim conjE, assumption)+)
qed

definition archived_then_search :: exp_list where
  "archived_then_search =
     getSearchResults ''q'' (exp_pushViewHistory False True False (exp_list_didMount (exp_list_init (Some 1) (Some 1) [])))"

lemma archived_then_search_forward: "exp_forward archived_then_search"
  unfolding archived_then_search_def
  by (rule exp_forward.Search [OF exp_forward.Toggle [OF exp_forward.Mount]])
    (simp_all add: exp_list_init_def exp_list_didMount_def validatePageParams_def validate_flag_def
      validate_page_def param_or_def defaultIncludeClient_def Let_def)

lemma archived_then_search_pushed:
  "map fst (xl_pushed archived_then_search) =
     [view_state (JNum 0) False True False [], view_state (JNum 0) False False False ''q'']"
  by (simp add: archived_then_search_def getSearchResults_def show_search_def search_params_def
      exp_pushViewHistory_def exp_pageUpdated_def history_pushState_def exp_list_init_def exp_list_didMount_def
      validatePageParams_def validate_flag_def validate_page_def param_or_def pushed_view_def defaultIncludeClient_def last_state_def
      history_addHandler_def newHistoryTracker_def isHandlerValid_def heap_set_def view_state_def Let_def)

lemma archived_then_search_query: "xl_query archived_then_search = ''q''"
  by (simp add: archived_then_search_def getSearchResults_def show_search_def exp_pageUpdated_def
      history_pushState_def Let_def)

theorem going_back_shows_entry_witness:
  "\<not> xl_archived (exp_pop (Some (view_state (JNum 0) False True False [])) archived_then_search)
   \<and> xl_query (exp_pop (Some (view_state (JNum 0) False True False [])) archived_then_search) = []"
proof -
  have "view_state (JNum 0) False True False [] \<in> set (map fst (xl_pushed archived_then_search))"
    unfolding archived_then_search_pushed by simp
  then obtain address where
    "(view_state (JNum 0) False True False [], address) \<in> set (xl_pushed archived_then_search)"
    by force
  from going_back_shows_entry [OF archived_then_search_forward this]
  show ?thesis by (auto simp: view_state_def [of "JNum _"] archived_then_search_query)
qed

subsection \<open>Addresses\<close>

lemma isPositiveInteger_nat: "n < 10 ^ 21 \<Longrightarrow> isPositiveInteger (JNum (of_nat n))"
proof -
  assume "n < 10 ^ 21"
  then have "(of_nat n :: rat) < 10 ^ 21"
    by (metis of_nat_less_iff of_nat_numeral of_nat_power)
  then show ?thesis by (simp add: isPositiveInteger_def)
qed

definition view_params :: "exp_list \<Rightarrow> jsobj" where
  "view_params s =
     (if xl_query s = []
      then (if xl_includeClient s then [(''includeClient'', JBool True)] else [])
        @ (if xl_archived s then [(''archived'', JBool True)] else [])
        @ (if xl_dev s then [(''dev'', JBool True)] else [])
      else [(''query'', JStr (xl_query s))])"

lemma exp_url_params_page: "exp_url_params [(''page'', JNum q)] s = (''page'', JNum q) # view_params s"
  by (auto simp: exp_url_params_def view_params_def Let_def)

lemma as_query_view:
  "as_query ((''page'', v) # view_params s) = (''page'', JStr (js_text v)) # as_query (view_params s)"
  by (simp add: as_query_def)

lemma validate_flags_view:
  "validate_flag ''dev'' (validate_flag ''archived'' (validate_flag ''includeClient''
     ((''page'', v) # as_query (view_params s)))) = (''page'', v) # view_params s"
  by (cases "xl_query s = []"; cases "xl_includeClient s"; cases "xl_archived s"; cases "xl_dev s")
    (simp_all add: view_params_def as_query_def validate_flag_def)

lemma validate_view:
  assumes "n < 10 ^ 21"
  shows "validatePageParams ((''page'', JStr (js_text (JNum (of_nat n)))) # as_query (view_params s)) =
    (''page'', JNum (of_nat n)) # view_params s"
  unfolding validatePageParams_def validate_flags_view
  using number_of_nat_text [OF assms] isPositiveInteger_nat [OF assms]
  by (simp add: validate_page_def Let_def del: js_text.simps)

text \<open>C18: Loading the address of a view again shows its search, its page and its filters of archived
  experiments and of those in development, and the experiments of the team if they were shown; it also
  shows those if the user has no experiments, the team has some, and no other filter is on.\<close>

theorem address_restores_view:
  assumes "exp_forward s" "n < 10 ^ 21"
    "t = exp_list_init mine team (as_query (exp_url_params [(''page'', JNum (of_nat n))] s))"
  shows "xl_query t = xl_query s \<and> xl_page t = JNum (of_nat n)
    \<and> xl_archived t = xl_archived s \<and> xl_dev t = xl_dev s
    \<and> xl_includeClient t = (xl_includeClient s \<or> (\<not> xl_archived s \<and> \<not> xl_dev s
        \<and> mine = Some 0 \<and> team \<noteq> None \<and> team \<noteq> Some 0))"
proof -
  have flags: "xl_query s \<noteq> [] \<longrightarrow> no_flags s"
    using exp_in_step_forward [OF assms(1)] by (simp add: exp_in_step_def)
  have params: "validatePageParams (as_query (exp_url_params [(''page'', JNum (of_nat n))] s)) =
      (''page'', JNum (of_nat n)) # view_params s"
    unfolding exp_url_params_page as_query_view by (rule validate_view [OF assms(2)])
  show ?thesis
  proof (cases "xl_query s = []")
    case True
    then show ?thesis
      unfolding assms(3) exp_list_init_def params
      by (cases "xl_includeClient s"; cases "xl_archived s"; cases "xl_dev s")
        (auto simp: view_params_def param_or_def defaultIncludeClient_def Let_def split: option.splits)
  next
    case False
    then show ?thesis
      using flags unfolding assms(3) exp_list_init_def params
      by (auto simp: view_params_def param_or_def defaultIncludeClient_def no_flags_def Let_def
          split: option.splits)
  qed
qed

theorem address_restores_view_witness:
  "xl_includeClient (exp_list_init (Some 0) (Some 1) (as_query (exp_url_params [(''page'', JNum (of_nat 0))]
     (exp_list_didMount (exp_list_init (Some 1) (Some 1) [])))))"
proof -
  let ?s = "exp_list_didMount (exp_list_init (Some 1) (Some 1) [])"
  have "exp_forward ?s" "\<not> xl_archived ?s" "\<not> xl_dev ?s"
    by (rule exp_forward.Mount)
      (simp_all add: exp_list_init_def exp_list_didMount_def validatePageParams_def validate_flag_def
        validate_page_def param_or_def Let_def)
  then show ?thesis
    using address_restores_view [of ?s 0 _ "Some 0" "Some 1", OF _ _ refl] by simp
qed

text \<open>The list of projects writes the flag into the address also when it is off, and reads any text as
  on: loading the address of one's own projects shows those of the team.\<close>

lemma projects_reload_shows_team:
  "pl_includeClient (projects_init (as_query (snd (projects_pushViewHistory ic s))))"
  by (cases ic) (simp_all add: projects_init_def projects_validatePageParams_def projects_pushViewHistory_def
      projects_url_params_def as_query_def validate_flag_def validate_page_def param_or_def Let_def)

subsection \<open>Selection\<close>

lemma toggleAll_selects:
  "set (xl_selected (toggleAllSelectedExperiments s)) =
     (if set (xl_onPage s) \<subseteq> set (xl_selected s) then {} else set (xl_selected s) \<union> set (xl_onPage s))"
  by (auto simp: toggleAllSelectedExperiments_def clearSelectedExperiments_def list_all_iff)

lemma toggleSelection:
  "e \<in> set (xl_selected (toggleExperimentSelection f on s)) \<longleftrightarrow>
     (if e = f then on else e \<in> set (xl_selected s))"
  by (auto simp: toggleExperimentSelection_def)

lemma bulkAction_once: "xl_bulk s \<Longrightarrow> bulkAction_start s = (s, [])"
  by (simp add: bulkAction_start_def)

text \<open>After a success nothing is selected, also what was selected while it was under way.\<close>

lemma bulkAction_clears_selection:
  "xl_selected (bulkAction_done True s) = [] \<and> xl_refreshes (bulkAction_done True s) = Suc (xl_refreshes s)"
  by (simp add: bulkAction_done_def exp_refreshPage_def clearSelectedExperiments_def)

end
