(* ===== verification/Dimensions.thy ===== *)
theory Dimensions
  imports Utils "HOL-Library.Multiset"
begin

section \<open>The columns of a project's runs: web/js/pages/project/data/dimensions.js\<close>

text \<open>
  The analysis page of a project turns its runs into dimensions: one column per defined field,
  with the value of every run, the type the values have, and for a categorical column the
  codes the charts draw. A field that is declared as text, or whose type is not known, gets an
  assumed type that the values then confirm or refute.

  \<open>lodashGet\<close>, which reads a path such as \<open>assignments.x\<close> of a run, is a library
  function: the argument \<open>get\<close> of the definitions. A value it returns is a primitive, or a
  reference to an array or object, which the code compares by identity.
\<close>

subsection \<open>Values and their numbers\<close>

datatype run_value = Prim jsval | Ref nat jsval

fun run_value_defined :: "run_value \<Rightarrow> bool" where
  "run_value_defined (Prim v) = isDefinedAndNotNull v"
| "run_value_defined (Ref i v) = True"

fun run_value_text :: "run_value \<Rightarrow> string" where
  "run_value_text (Prim v) = js_text v"
| "run_value_text (Ref i v) = js_text v"

fun is_number_value :: "run_value \<Rightarrow> bool" where
  "is_number_value (Prim (JNum n)) = True"
| "is_number_value _ = False"

text \<open>The numbers of the language, in the order \<open>_.sortBy\<close> puts them; NaN is never sorted.\<close>

datatype js_number = NegInf | Finite rat | PosInf | NaN

fun number_key :: "js_number \<Rightarrow> nat \<times> rat" where
  "number_key NegInf = (0, 0)"
| "number_key (Finite q) = (1, q)"
| "number_key PosInf = (2, 0)"
| "number_key NaN = (3, 0)"

lemma number_key_inject: "number_key a = number_key b \<longleftrightarrow> a = b"
  by (cases a; cases b) auto

instantiation js_number :: linorder
begin

definition less_eq_js_number :: "js_number \<Rightarrow> js_number \<Rightarrow> bool" where
  "a \<le> b = (fst (number_key a) < fst (number_key b) \<or>
            fst (number_key a) = fst (number_key b) \<and> snd (number_key a) \<le> snd (number_key b))"

definition less_js_number :: "js_number \<Rightarrow> js_number \<Rightarrow> bool" where
  "a < b = (fst (number_key a) < fst (number_key b) \<or>
            fst (number_key a) = fst (number_key b) \<and> snd (number_key a) < snd (number_key b))"

instance
proof
  fix a b c :: js_number
  show "a < b \<longleftrightarrow> a \<le> b \<and> \<not> b \<le> a"
    by (auto simp: less_eq_js_number_def less_js_number_def)
  show "a \<le> a" by (simp add: less_eq_js_number_def)
  show "a \<le> c" if "a \<le> b" "b \<le> c" using that by (auto simp: less_eq_js_number_def)
  show "a = b" if "a \<le> b" "b \<le> a"
    using that by (intro number_key_inject [THEN iffD1] prod_eqI) (auto simp: less_eq_js_number_def)
  show "a \<le> b \<or> b \<le> a" by (auto simp: less_eq_js_number_def)
qed

end

text \<open>\<open>Number\<close> of a text, and of a value; an array or object is read as its text.\<close>

definition round_number :: "rat \<Rightarrow> js_number" where
  "round_number q =
     (if double_limit \<le> q then PosInf else if q \<le> - double_limit then NegInf else Finite q)"

definition radix_base :: "char \<Rightarrow> int" where
  "radix_base x =
     (if x \<in> {CHR ''x'', CHR ''X''} then 16
      else if x \<in> {CHR ''o'', CHR ''O''} then 8
      else if x \<in> {CHR ''b'', CHR ''B''} then 2 else 0)"

definition number_of_string :: "string \<Rightarrow> js_number" where
  "number_of_string s =
     (let t = trim s in
      if t = [] then Finite 0
      else if t = ''Infinity'' \<or> t = ''+Infinity'' then PosInf
      else if t = ''-Infinity'' then NegInf
      else if 2 < length t \<and> t ! 0 = CHR ''0'' \<and> radix_base (t ! 1) \<noteq> 0 then
        (if list_all (\<lambda>d. case hex_val d of None \<Rightarrow> False | Some v \<Rightarrow> v < radix_base (t ! 1)) (drop 2 t)
         then round_number (of_int (digits_val (radix_base (t ! 1)) (drop 2 t))) else NaN)
      else case parse_decimal t of None \<Rightarrow> NaN | Some q \<Rightarrow> round_number q)"

fun number_of_value :: "run_value \<Rightarrow> js_number" where
  "number_of_value (Prim JUndef) = NaN"
| "number_of_value (Prim JNull) = Finite 0"
| "number_of_value (Prim (JBool b)) = Finite (if b then 1 else 0)"
| "number_of_value (Prim (JNum n)) = Finite n"
| "number_of_value (Prim v) = number_of_string (js_text v)"
| "number_of_value (Ref i v) = number_of_string (js_text v)"

subsection \<open>Dimensions\<close>

datatype group_type = PARAMETER | METRIC | OTHER | METADATA

text \<open>The six value types of a dimension, and the two assumed ones that must not survive.\<close>

datatype value_type =
    CATEGORICAL | STRING | ID | NUMERIC | BOOLEAN | TIMESTAMP
  | ASSUMED_NUMERIC | ASSUMED_CATEGORICAL

record defined_field =
  df_key :: string
  df_name :: string
  df_type :: string

record dimension =
  d_displayName :: string
  d_label :: string
  d_key :: string
  d_valueType :: value_type
  d_groupType :: group_type
  d_values :: "run_value list"
  d_count :: nat
  d_categoricalValues :: "run_value list option"
  d_tickvals :: "nat list option"
  d_ticktext :: "string list option"
  d_plotlyValues :: "int list option"

definition createEmptyDimension :: "string \<Rightarrow> string \<Rightarrow> value_type \<Rightarrow> dimension" where
  "createEmptyDimension key displayName vt =
     (let dimGroupTest = takeWhile (\<lambda>c. c \<noteq> CHR ''.'') key;
          groupType =
            (if dimGroupTest = ''assignments'' then PARAMETER
             else if dimGroupTest = ''values'' then METRIC
             else if dimGroupTest = ''metadata'' then METADATA
             else OTHER)
      in \<lparr>d_displayName = displayName, d_label = displayName, d_key = key, d_valueType = vt,
          d_groupType = groupType, d_values = [], d_count = 0, d_categoricalValues = None,
          d_tickvals = None, d_ticktext = None, d_plotlyValues = None\<rparr>)"

definition upper_char :: "char \<Rightarrow> char" where
  "upper_char c =
     (if 97 \<le> (of_char c :: nat) \<and> (of_char c :: nat) \<le> 122 then char_of (of_char c - 32 :: nat) else c)"

definition DIMENSION_VALUE_TYPES :: "string \<rightharpoonup> value_type" where
  "DIMENSION_VALUE_TYPES =
     map_of [(''CATEGORICAL'', CATEGORICAL), (''STRING'', STRING), (''ID'', ID),
             (''NUMERIC'', NUMERIC), (''BOOLEAN'', BOOLEAN), (''TIMESTAMP'', TIMESTAMP)]"

definition DIMENSION_VALUE_TYPE_OVERRIDES :: "string \<rightharpoonup> value_type" where
  "DIMENSION_VALUE_TYPE_OVERRIDES = map_of [(''experiment'', ASSUMED_CATEGORICAL)]"

definition getValueTypeFromField :: "defined_field \<Rightarrow> value_type" where
  "getValueTypeFromField field =
     (let vt =
        (case DIMENSION_VALUE_TYPES (map upper_char (df_type field)) of
           None \<Rightarrow> ASSUMED_NUMERIC
         | Some STRING \<Rightarrow> ASSUMED_CATEGORICAL
         | Some t \<Rightarrow> t)
      in case DIMENSION_VALUE_TYPE_OVERRIDES (df_key field) of None \<Rightarrow> vt | Some t \<Rightarrow> t)"

definition createEmptyDimensionsFromDefinedFields :: "defined_field list \<Rightarrow> dimension list" where
  "createEmptyDimensionsFromDefinedFields =
     map (\<lambda>field. createEmptyDimension (df_key field) (df_name field) (getValueTypeFromField field))"

text \<open>
  The loops run over the runs, and within each run over the dimensions: \<open>each_run step\<close> is
  that nest, with the body as a function of the dimension.
\<close>

definition each_run :: "('run \<Rightarrow> 'd \<Rightarrow> 'd) \<Rightarrow> 'run list \<Rightarrow> 'd list \<Rightarrow> 'd list" where
  "each_run body runs ds = fold (\<lambda>run. map (body run)) runs ds"

definition fill_step :: "('run \<Rightarrow> string \<Rightarrow> run_value) \<Rightarrow> 'run \<Rightarrow> dimension \<Rightarrow> dimension" where
  "fill_step get run d =
     d\<lparr>d_count := d_count d + (if run_value_defined (get run (d_key d)) then 1 else 0),
       d_values := d_values d @ [get run (d_key d)]\<rparr>"

definition id_index_map :: "('run \<Rightarrow> string) \<Rightarrow> 'run list \<Rightarrow> (string \<times> nat) list" where
  "id_index_map run_id runs = fold (\<lambda>(i, run). AList.update (run_id run) i) (enumerate 0 runs) []"

definition fillDimensions ::
  "('run \<Rightarrow> string \<Rightarrow> run_value) \<Rightarrow> ('run \<Rightarrow> string) \<Rightarrow> dimension list \<Rightarrow> 'run list \<Rightarrow>
   dimension list \<times> (string \<times> nat) list" where
  "fillDimensions get run_id emptyDimensions runs =
     (each_run (fill_step get) runs emptyDimensions, id_index_map run_id runs)"

definition numeric_step :: "('run \<Rightarrow> string \<Rightarrow> run_value) \<Rightarrow> 'run \<Rightarrow> dimension \<Rightarrow> dimension" where
  "numeric_step get run d =
     (let v = get run (d_key d) in
      if \<not> is_number_value v \<and> run_value_defined v
      then d\<lparr>d_valueType := ASSUMED_CATEGORICAL, d_categoricalValues := Some []\<rparr> else d)"

definition handleAssumedNumeric ::
  "('run \<Rightarrow> string \<Rightarrow> run_value) \<Rightarrow> dimension list \<Rightarrow> 'run list \<Rightarrow> dimension list" where
  "handleAssumedNumeric get ds runs =
     (let assumed = filter (\<lambda>d. d_valueType d = ASSUMED_NUMERIC) ds;
          rest = filter (\<lambda>d. d_valueType d \<noteq> ASSUMED_NUMERIC) ds
      in each_run (numeric_step get) runs assumed @ rest)"

definition MAX_CATEGORICAL_VALUES :: nat where
  "MAX_CATEGORICAL_VALUES = 20"

definition collect_step :: "run_value \<Rightarrow> dimension \<Rightarrow> dimension" where
  "collect_step v d =
     (if d_valueType d = ASSUMED_CATEGORICAL
      then d\<lparr>d_categoricalValues :=
              map_option (\<lambda>vs. if v \<in> set vs then vs else vs @ [v]) (d_categoricalValues d)\<rparr>
      else d)"

definition demote_step :: "dimension \<Rightarrow> dimension" where
  "demote_step d =
     (case d_categoricalValues d of
        None \<Rightarrow> d
      | Some vs \<Rightarrow>
          if MAX_CATEGORICAL_VALUES < length vs
          then d\<lparr>d_valueType := STRING, d_categoricalValues := None\<rparr> else d)"

definition handleAssumedCategorical ::
  "('run \<Rightarrow> string \<Rightarrow> run_value) \<Rightarrow> dimension list \<Rightarrow> 'run list \<Rightarrow> dimension list" where
  "handleAssumedCategorical get ds runs =
     (let assumed = filter (\<lambda>d. d_valueType d = ASSUMED_CATEGORICAL) ds;
          rest = filter (\<lambda>d. d_valueType d \<noteq> ASSUMED_CATEGORICAL) ds
      in each_run (\<lambda>run d. demote_step (collect_step (get run (d_key d)) d)) runs
           (map (d_categoricalValues_update (\<lambda>_. Some [])) assumed) @ rest)"

definition concrete_type :: "value_type \<Rightarrow> value_type" where
  "concrete_type t =
     (if t = ASSUMED_NUMERIC then NUMERIC
      else if t = ASSUMED_CATEGORICAL then CATEGORICAL else t)"

definition makeDimensionTypesConcrete :: "dimension list \<Rightarrow> dimension list" where
  "makeDimensionTypesConcrete = map (d_valueType_update concrete_type)"

definition sortDimCategoricalValues :: "run_value list \<Rightarrow> run_value list" where
  "sortDimCategoricalValues vs =
     (let numbers = filter (\<lambda>v. number_of_value v \<noteq> NaN) vs;
          rest = filter (\<lambda>v. number_of_value v = NaN) vs;
          strings = filter run_value_defined rest;
          nulls = filter (\<lambda>v. \<not> run_value_defined v) rest;
          sortedNumbers = sort_key number_of_value numbers;
          sortedStrings = rev (sort_key run_value_text strings)
      in nulls @ sortedStrings @ sortedNumbers)"

fun indexOf_value :: "'a list \<Rightarrow> 'a \<Rightarrow> int" where
  "indexOf_value [] x = -1"
| "indexOf_value (y # ys) x =
     (if y = x then 0 else let i = indexOf_value ys x in if i < 0 then -1 else i + 1)"

text \<open>A categorical dimension without its list of values stops the page with a TypeError.\<close>

definition fill_tick :: "dimension \<Rightarrow> js_error + dimension" where
  "fill_tick d =
     (case d_categoricalValues d of
        None \<Rightarrow> Inl TypeError
      | Some vs \<Rightarrow>
          (let dimValues = sortDimCategoricalValues vs
           in Inr (d\<lparr>d_tickvals := Some [0..<length vs],
                     d_ticktext := Some (map run_value_text dimValues),
                     d_plotlyValues := Some (map (indexOf_value dimValues) (d_values d))\<rparr>)))"

fun all_or_error :: "('a \<Rightarrow> 'e + 'b) \<Rightarrow> 'a list \<Rightarrow> 'e + 'b list" where
  "all_or_error f [] = Inr []"
| "all_or_error f (x # xs) =
     (case f x of Inl e \<Rightarrow> Inl e
      | Inr y \<Rightarrow> (case all_or_error f xs of Inl e \<Rightarrow> Inl e | Inr ys \<Rightarrow> Inr (y # ys)))"

definition fillTickVals :: "dimension list \<Rightarrow> js_error + dimension list" where
  "fillTickVals ds =
     (case all_or_error fill_tick (filter (\<lambda>d. d_valueType d = CATEGORICAL) ds) of
        Inl e \<Rightarrow> Inl e
      | Inr cats \<Rightarrow> Inr (cats @ filter (\<lambda>d. d_valueType d \<noteq> CATEGORICAL) ds))"

definition REMOVED_COLUMNS_KEYS :: "string list" where
  "REMOVED_COLUMNS_KEYS =
     [''favorite'', ''logs.stdout.content'', ''logs.stderr.content'', ''source_code.content'']"

definition filterOutUnplottableDimensions :: "dimension list \<Rightarrow> dimension list" where
  "filterOutUnplottableDimensions =
     filter (\<lambda>d. d_key d \<notin> set REMOVED_COLUMNS_KEYS \<and> 0 < d_count d)"

record dimension_set =
  ds_dimensions :: "(string \<times> dimension) list"
  ds_idIndexMap :: "(string \<times> nat) list"
  ds_indexIdMap :: "(nat \<times> string) list"

definition indexBy_key :: "dimension list \<Rightarrow> (string \<times> dimension) list" where
  "indexBy_key ds = fold (\<lambda>d. AList.update (d_key d) d) ds []"

definition invert_map :: "(string \<times> nat) list \<Rightarrow> (nat \<times> string) list" where
  "invert_map m = fold (\<lambda>(k, i). AList.update i k) m []"

definition typed_dimensions ::
  "('run \<Rightarrow> string \<Rightarrow> run_value) \<Rightarrow> ('run \<Rightarrow> string) \<Rightarrow> defined_field list \<Rightarrow> 'run list \<Rightarrow> dimension list" where
  "typed_dimensions get run_id definedFields runs =
     (let (filled, _) =
            fillDimensions get run_id (createEmptyDimensionsFromDefinedFields definedFields) runs;
          valid = filterOutUnplottableDimensions filled
      in makeDimensionTypesConcrete
           (handleAssumedCategorical get (handleAssumedNumeric get valid runs) runs))"

definition createDimensionsFromRuns ::
  "('run \<Rightarrow> string \<Rightarrow> run_value) \<Rightarrow> ('run \<Rightarrow> string) \<Rightarrow> defined_field list \<Rightarrow> 'run list \<Rightarrow>
   js_error + dimension_set" where
  "createDimensionsFromRuns get run_id definedFields runs =
     (case fillTickVals (typed_dimensions get run_id definedFields runs) of
        Inl e \<Rightarrow> Inl e
      | Inr ds \<Rightarrow>
          Inr \<lparr>ds_dimensions = indexBy_key ds,
               ds_idIndexMap = id_index_map run_id runs,
               ds_indexIdMap = invert_map (id_index_map run_id runs)\<rparr>)"

subsection \<open>The loops, one dimension at a time\<close>

lemma each_run_eq_map: "each_run body runs ds = map (fold body runs) ds"
  by (induction runs arbitrary: ds) (simp_all add: each_run_def comp_def)

definition dimension_values :: "('run \<Rightarrow> string \<Rightarrow> run_value) \<Rightarrow> 'run list \<Rightarrow> string \<Rightarrow> run_value list" where
  "dimension_values get runs key = map (\<lambda>run. get run key) runs"

lemma fold_fill_step:
  "fold (fill_step get) runs d =
   d\<lparr>d_count := d_count d + length (filter run_value_defined (dimension_values get runs (d_key d))),
     d_values := d_values d @ dimension_values get runs (d_key d)\<rparr>"
  by (induction runs arbitrary: d) (simp_all add: fill_step_def dimension_values_def)

definition refutes_numeric :: "run_value \<Rightarrow> bool" where
  "refutes_numeric v = (\<not> is_number_value v \<and> run_value_defined v)"

lemma fold_numeric_step:
  "fold (numeric_step get) runs d =
   (if list_ex refutes_numeric (dimension_values get runs (d_key d))
    then d\<lparr>d_valueType := ASSUMED_CATEGORICAL, d_categoricalValues := Some []\<rparr> else d)"
  by (induction runs arbitrary: d)
    (simp_all add: numeric_step_def dimension_values_def refutes_numeric_def Let_def)

definition add_new :: "'a \<Rightarrow> 'a list \<Rightarrow> 'a list" where
  "add_new v vs = (if v \<in> set vs then vs else vs @ [v])"

definition first_occurrences :: "'a list \<Rightarrow> 'a list" where
  "first_occurrences vs = fold add_new vs []"

lemma length_fold_add_new: "length acc \<le> length (fold add_new vs acc)"
proof (induction vs arbitrary: acc)
  case (Cons v vs)
  have "length acc \<le> length (add_new v acc)" by (simp add: add_new_def)
  also have "\<dots> \<le> length (fold add_new vs (add_new v acc))" by (rule Cons.IH)
  finally show ?case by simp
qed simp

lemma fold_add_new:
  "set (fold add_new vs acc) = set vs \<union> set acc \<and> (distinct acc \<longrightarrow> distinct (fold add_new vs acc))"
  by (induction vs arbitrary: acc) (auto simp: add_new_def)

lemma set_first_occurrences [simp]: "set (first_occurrences vs) = set vs"
  by (simp add: first_occurrences_def fold_add_new)

lemma distinct_first_occurrences [simp]: "distinct (first_occurrences vs)"
  by (simp add: first_occurrences_def fold_add_new)

lemma length_first_occurrences: "length (first_occurrences vs) = card (set vs)"
  using distinct_card [OF distinct_first_occurrences, of vs] by simp

abbreviation categorical_step where
  "categorical_step get \<equiv> \<lambda>run d. demote_step (collect_step (get run (d_key d)) d)"

lemma categorical_step_done:
  "d_valueType d = STRING \<Longrightarrow> d_categoricalValues d = None \<Longrightarrow>
   fold (categorical_step get) runs d = d"
  by (induction runs) (simp_all add: collect_step_def demote_step_def)

lemma fold_categorical_step:
  "d_valueType d = ASSUMED_CATEGORICAL \<Longrightarrow> d_categoricalValues d = Some acc \<Longrightarrow>
   length acc \<le> MAX_CATEGORICAL_VALUES \<Longrightarrow>
   fold (categorical_step get) runs d =
   (let cats = fold add_new (dimension_values get runs (d_key d)) acc in
    if length cats \<le> MAX_CATEGORICAL_VALUES
    then d\<lparr>d_categoricalValues := Some cats\<rparr>
    else d\<lparr>d_valueType := STRING, d_categoricalValues := None\<rparr>)"
proof (induction runs arbitrary: d acc)
  case Nil
  then show ?case by (cases d) (simp add: dimension_values_def Let_def)
next
  case (Cons run runs)
  let ?v = "get run (d_key d)"
  let ?acc = "add_new ?v acc"
  let ?d = "d\<lparr>d_categoricalValues := Some ?acc\<rparr>"
  have collect: "collect_step ?v d = ?d"
    using Cons.prems by (simp add: collect_step_def add_new_def)
  show ?case
  proof (cases "length ?acc \<le> MAX_CATEGORICAL_VALUES")
    case True
    then have step: "categorical_step get run d = ?d" by (simp add: collect demote_step_def)
    show ?thesis using Cons.IH [of ?d ?acc] Cons.prems(1) True step
      by (simp add: dimension_values_def Let_def)
  next
    case False
    let ?s = "d\<lparr>d_valueType := STRING, d_categoricalValues := None\<rparr>"
    from False have step: "categorical_step get run d = ?s" by (simp add: collect demote_step_def)
    have "\<not> length (fold add_new (dimension_values get runs (d_key d)) ?acc) \<le> MAX_CATEGORICAL_VALUES"
      using length_fold_add_new [of ?acc "dimension_values get runs (d_key d)"] False by simp
    then show ?thesis using step categorical_step_done [of ?s get runs]
      by (simp add: dimension_values_def Let_def)
  qed
qed

subsection \<open>A reference classification\<close>

definition reference_type :: "value_type \<Rightarrow> run_value list \<Rightarrow> value_type" where
  "reference_type t vs =
     (if t = ASSUMED_NUMERIC \<and> \<not> list_ex refutes_numeric vs then NUMERIC
      else if t \<in> {ASSUMED_NUMERIC, ASSUMED_CATEGORICAL}
        then (if card (set vs) \<le> MAX_CATEGORICAL_VALUES then CATEGORICAL else STRING)
      else t)"

definition reference_dimension ::
  "('run \<Rightarrow> string \<Rightarrow> run_value) \<Rightarrow> 'run list \<Rightarrow> defined_field \<Rightarrow> dimension" where
  "reference_dimension get runs f =
     (let vs = dimension_values get runs (df_key f);
          t = reference_type (getValueTypeFromField f) vs
      in (createEmptyDimension (df_key f) (df_name f) t)
           \<lparr>d_values := vs,
            d_count := length (filter run_value_defined vs),
            d_categoricalValues :=
              (if t = CATEGORICAL \<and> getValueTypeFromField f \<noteq> CATEGORICAL
               then Some (first_occurrences vs) else None)\<rparr>)"

definition plottable :: "('run \<Rightarrow> string \<Rightarrow> run_value) \<Rightarrow> 'run list \<Rightarrow> defined_field \<Rightarrow> bool" where
  "plottable get runs f =
     (df_key f \<notin> set REMOVED_COLUMNS_KEYS \<and>
      list_ex run_value_defined (dimension_values get runs (df_key f)))"

lemma createEmptyDimension_simps [simp]:
  "d_key (createEmptyDimension key name t) = key"
  "d_valueType (createEmptyDimension key name t) = t"
  "d_values (createEmptyDimension key name t) = []"
  "d_count (createEmptyDimension key name t) = 0"
  "d_categoricalValues (createEmptyDimension key name t) = None"
  "(createEmptyDimension key name t)\<lparr>d_valueType := t'\<rparr> = createEmptyDimension key name t'"
  by (simp_all add: createEmptyDimension_def concrete_type_def Let_def)

definition filled :: "('run \<Rightarrow> string \<Rightarrow> run_value) \<Rightarrow> 'run list \<Rightarrow> defined_field \<Rightarrow> dimension" where
  "filled get runs f =
     fold (fill_step get) runs
       (createEmptyDimension (df_key f) (df_name f) (getValueTypeFromField f))"

definition numeric_checked :: "('run \<Rightarrow> string \<Rightarrow> run_value) \<Rightarrow> 'run list \<Rightarrow> dimension \<Rightarrow> dimension" where
  "numeric_checked get runs d =
     (if d_valueType d = ASSUMED_NUMERIC then fold (numeric_step get) runs d else d)"

definition categorical_checked :: "('run \<Rightarrow> string \<Rightarrow> run_value) \<Rightarrow> 'run list \<Rightarrow> dimension \<Rightarrow> dimension" where
  "categorical_checked get runs d =
     (if d_valueType d = ASSUMED_CATEGORICAL
      then fold (categorical_step get) runs (d\<lparr>d_categoricalValues := Some []\<rparr>) else d)"

lemma mset_map_partition:
  "mset (map f (filter P xs) @ filter (\<lambda>x. \<not> P x) xs) = mset (map (\<lambda>x. if P x then f x else x) xs)"
  by (induction xs) simp_all

lemma mset_handleAssumedNumeric:
  "mset (handleAssumedNumeric get ds runs) = mset (map (numeric_checked get runs) ds)"
  unfolding handleAssumedNumeric_def numeric_checked_def Let_def each_run_eq_map
  by (rule mset_map_partition)

lemma mset_handleAssumedCategorical:
  "mset (handleAssumedCategorical get ds runs) = mset (map (categorical_checked get runs) ds)"
proof -
  have "handleAssumedCategorical get ds runs =
      map (\<lambda>d. fold (categorical_step get) runs (d\<lparr>d_categoricalValues := Some []\<rparr>))
        (filter (\<lambda>d. d_valueType d = ASSUMED_CATEGORICAL) ds)
      @ filter (\<lambda>d. \<not> d_valueType d = ASSUMED_CATEGORICAL) ds"
    by (simp add: handleAssumedCategorical_def Let_def each_run_eq_map comp_def)
  then show ?thesis unfolding categorical_checked_def
    by (simp only: mset_map_partition)
qed

lemma list_ex_filter_length: "list_ex P xs \<longleftrightarrow> 0 < length (filter P xs)"
  by (induction xs) simp_all

lemma checked_eq_reference:
  "d_valueType_update concrete_type (categorical_checked get runs (numeric_checked get runs (filled get runs f)))
   = reference_dimension get runs f"
proof -
  let ?vs = "dimension_values get runs (df_key f)"
  have small: "\<And>P Q. (length (fold add_new ?vs []) \<le> MAX_CATEGORICAL_VALUES) =
      (card (set ?vs) \<le> MAX_CATEGORICAL_VALUES)"
    using length_first_occurrences [of ?vs] by (simp add: first_occurrences_def)
  have fold_cat: "\<And>d. d_valueType d = ASSUMED_CATEGORICAL \<Longrightarrow> d_key d = df_key f \<Longrightarrow>
      fold (categorical_step get) runs (d\<lparr>d_categoricalValues := Some []\<rparr>) =
      (if card (set ?vs) \<le> MAX_CATEGORICAL_VALUES
       then d\<lparr>d_categoricalValues := Some (first_occurrences ?vs)\<rparr>
       else d\<lparr>d_valueType := STRING, d_categoricalValues := None\<rparr>)"
    by (subst fold_categorical_step [where acc = "[]"])
      (simp_all add: Let_def small, simp_all add: first_occurrences_def)
  show ?thesis
  proof (cases "getValueTypeFromField f")
    case ASSUMED_NUMERIC
    then show ?thesis
      by (cases "list_ex refutes_numeric ?vs"; cases "card (set ?vs) \<le> MAX_CATEGORICAL_VALUES")
        (simp_all add: filled_def fold_fill_step numeric_checked_def fold_numeric_step
          categorical_checked_def fold_cat reference_dimension_def reference_type_def Let_def
          concrete_type_def, simp_all add: createEmptyDimension_def concrete_type_def Let_def)
  next
    case ASSUMED_CATEGORICAL
    then show ?thesis
      by (cases "card (set ?vs) \<le> MAX_CATEGORICAL_VALUES")
        (simp_all add: filled_def fold_fill_step numeric_checked_def
          categorical_checked_def fold_cat reference_dimension_def reference_type_def Let_def
          concrete_type_def, simp_all add: createEmptyDimension_def concrete_type_def Let_def)
  qed (simp_all add: filled_def fold_fill_step numeric_checked_def categorical_checked_def
        reference_dimension_def reference_type_def Let_def concrete_type_def
        createEmptyDimension_def)
qed

lemma filled_fields:
  "filterOutUnplottableDimensions
     (each_run (fill_step get) runs (createEmptyDimensionsFromDefinedFields fs)) =
   map (filled get runs) (filter (plottable get runs) fs)"
  by (induction fs)
    (simp_all add: each_run_eq_map createEmptyDimensionsFromDefinedFields_def filled_def
      filterOutUnplottableDimensions_def fold_fill_step plottable_def list_ex_filter_length)

lemma mset_typed_dimensions:
  "mset (typed_dimensions get run_id fs runs) =
   mset (map (reference_dimension get runs) (filter (plottable get runs) fs))"
  unfolding typed_dimensions_def fillDimensions_def Let_def prod.case filled_fields
    makeDimensionTypesConcrete_def mset_map mset_handleAssumedCategorical mset_handleAssumedNumeric
  by (simp add: multiset.map_comp comp_def checked_eq_reference)

subsection \<open>The order of the categorical values\<close>

lemma mset_sortDimCategoricalValues: "mset (sortDimCategoricalValues vs) = mset vs"
proof -
  have parts: "filter_mset (\<lambda>v. number_of_value v = NaN \<and> \<not> run_value_defined v) (mset vs) +
      (filter_mset (\<lambda>v. number_of_value v = NaN \<and> run_value_defined v) (mset vs) +
       filter_mset (\<lambda>v. number_of_value v \<noteq> NaN) (mset vs)) = mset vs"
    by (induction vs) auto
  show ?thesis by (simp add: sortDimCategoricalValues_def Let_def parts)
qed

lemma set_sortDimCategoricalValues [simp]: "set (sortDimCategoricalValues vs) = set vs"
  by (metis mset_sortDimCategoricalValues set_mset_mset)

lemma length_sortDimCategoricalValues [simp]: "length (sortDimCategoricalValues vs) = length vs"
  by (metis mset_sortDimCategoricalValues size_mset)

lemma indexOf_value_member:
  "x \<in> set xs \<Longrightarrow> 0 \<le> indexOf_value xs x \<and> nat (indexOf_value xs x) < length xs
     \<and> xs ! nat (indexOf_value xs x) = x"
proof (induction xs)
  case (Cons y ys)
  show ?case
  proof (cases "y = x")
    case False
    with Cons have IH: "0 \<le> indexOf_value ys x" "nat (indexOf_value ys x) < length ys"
      "ys ! nat (indexOf_value ys x) = x" by simp_all
    then have "nat (indexOf_value ys x + 1) = Suc (nat (indexOf_value ys x))" by simp
    with IH False show ?thesis by (simp add: Let_def)
  qed simp
qed simp

subsection \<open>The codes of a categorical dimension\<close>

definition codes_decode :: "dimension \<Rightarrow> bool" where
  "codes_decode d =
     (case (d_plotlyValues d, d_ticktext d, d_tickvals d) of
        (Some codes, Some labels, Some ticks) \<Rightarrow>
          ticks = [0..<length labels] \<and> length codes = length (d_values d) \<and>
          (\<forall>i < length codes. 0 \<le> codes ! i \<and> nat (codes ! i) < length labels \<and>
             labels ! nat (codes ! i) = run_value_text (d_values d ! i))
      | _ \<Rightarrow> False)"

definition well_typed :: "dimension \<Rightarrow> bool" where
  "well_typed d =
     (case d_valueType d of
        ASSUMED_NUMERIC \<Rightarrow> False
      | ASSUMED_CATEGORICAL \<Rightarrow> False
      | CATEGORICAL \<Rightarrow>
          (case d_categoricalValues d of
             None \<Rightarrow> False
           | Some cats \<Rightarrow> distinct cats \<and> set cats = set (d_values d) \<and>
               length cats \<le> MAX_CATEGORICAL_VALUES \<and> codes_decode d)
      | _ \<Rightarrow> d_categoricalValues d = None \<and> d_plotlyValues d = None)"

lemma fill_tick_codes_decode:
  assumes "d_categoricalValues d = Some cats" "set cats = set (d_values d)"
    and "fill_tick d = Inr d'"
  shows "codes_decode d'" "d_categoricalValues d' = Some cats" "d_values d' = d_values d"
    "d_valueType d' = d_valueType d" "d_key d' = d_key d"
proof -
  let ?s = "sortDimCategoricalValues cats"
  from assms have d': "d' = d\<lparr>d_tickvals := Some [0..<length cats],
      d_ticktext := Some (map run_value_text ?s),
      d_plotlyValues := Some (map (indexOf_value ?s) (d_values d))\<rparr>"
    by (simp add: fill_tick_def Let_def)
  show "codes_decode d'"
  proof -
    have "0 \<le> indexOf_value ?s (d_values d ! i) \<and> nat (indexOf_value ?s (d_values d ! i)) < length cats
        \<and> ?s ! nat (indexOf_value ?s (d_values d ! i)) = d_values d ! i"
      if "i < length (d_values d)" for i
      using indexOf_value_member [of "d_values d ! i" ?s] nth_mem [OF that] assms(2) by simp
    then show ?thesis by (simp add: codes_decode_def d')
  qed
  show "d_categoricalValues d' = Some cats" "d_values d' = d_values d"
    "d_valueType d' = d_valueType d" "d_key d' = d_key d" using assms(1) by (simp_all add: d')
qed

lemma all_or_error_ok:
  "all_or_error f xs = Inr ys \<Longrightarrow> y \<in> set ys \<Longrightarrow> \<exists>x \<in> set xs. f x = Inr y"
  by (induction xs arbitrary: ys) (auto split: sum.splits)

lemma all_or_error_Inr_iff:
  "(\<exists>ys. all_or_error f xs = Inr ys) \<longleftrightarrow> (\<forall>x \<in> set xs. \<exists>y. f x = Inr y)"
  by (induction xs) (auto split: sum.splits)

lemma set_update_subset: "set (AList.update k v m) \<subseteq> insert (k, v) (set m)"
  by (induction m) auto

lemma set_indexBy_key: "set (indexBy_key ds) \<subseteq> (\<lambda>d. (d_key d, d)) ` set ds"
proof -
  have "set (fold (\<lambda>d. AList.update (d_key d) d) ds m) \<subseteq> (\<lambda>d. (d_key d, d)) ` set ds \<union> set m" for m
  proof (induction ds arbitrary: m)
    case (Cons d ds)
    show ?case using Cons.IH [of "AList.update (d_key d) d m"] set_update_subset [of "d_key d" d m]
      by auto
  qed simp
  from this [of "[]"] show ?thesis by (simp add: indexBy_key_def)
qed

lemma set_typed_dimensions:
  "set (typed_dimensions get run_id fs runs) =
   reference_dimension get runs ` {f \<in> set fs. plottable get runs f}"
  using mset_typed_dimensions [THEN arg_cong [where f = set_mset], of get run_id fs runs]
  by simp

lemma getValueTypeFromField_not_STRING: "getValueTypeFromField f \<noteq> STRING"
  by (auto simp: getValueTypeFromField_def DIMENSION_VALUE_TYPE_OVERRIDES_def Let_def
      split: option.splits value_type.splits if_splits)

lemma reference_dimension_simps [simp]:
  "d_key (reference_dimension get runs f) = df_key f"
  "d_valueType (reference_dimension get runs f) =
     reference_type (getValueTypeFromField f) (dimension_values get runs (df_key f))"
  "d_values (reference_dimension get runs f) = dimension_values get runs (df_key f)"
  "d_categoricalValues (reference_dimension get runs f) =
     (if d_valueType (reference_dimension get runs f) = CATEGORICAL \<and> getValueTypeFromField f \<noteq> CATEGORICAL
      then Some (first_occurrences (dimension_values get runs (df_key f))) else None)"
  "d_plotlyValues (reference_dimension get runs f) = None"
  by (simp_all add: reference_dimension_def Let_def, simp add: createEmptyDimension_def Let_def)

lemma reference_type_concrete:
  "reference_type t vs \<noteq> ASSUMED_NUMERIC" "reference_type t vs \<noteq> ASSUMED_CATEGORICAL"
  by (auto simp: reference_type_def)

lemma reference_type_categorical:
  "reference_type t vs = CATEGORICAL \<Longrightarrow> t \<noteq> CATEGORICAL \<Longrightarrow> card (set vs) \<le> MAX_CATEGORICAL_VALUES"
  by (auto simp: reference_type_def split: if_splits)

lemma fillTickVals_member:
  assumes "fillTickVals ds = Inr ds'" "d \<in> set ds'"
  shows "(\<exists>d0 \<in> set ds. d_valueType d0 = CATEGORICAL \<and> fill_tick d0 = Inr d)
    \<or> (d \<in> set ds \<and> d_valueType d \<noteq> CATEGORICAL)"
  using assms all_or_error_ok [of fill_tick "filter (\<lambda>d. d_valueType d = CATEGORICAL) ds" _ d]
  by (auto simp: fillTickVals_def split: sum.splits)

lemma well_typed_created:
  assumes "fillTickVals (typed_dimensions get run_id fs runs) = Inr ds" "d \<in> set ds"
  shows "well_typed d"
  using fillTickVals_member [OF assms]
proof (elim disjE bexE conjE)
  fix d0
  assume d0: "d0 \<in> set (typed_dimensions get run_id fs runs)" "d_valueType d0 = CATEGORICAL"
    and tick: "fill_tick d0 = Inr d"
  from d0 obtain f where f: "d0 = reference_dimension get runs f"
    by (auto simp: set_typed_dimensions)
  obtain cats where cats: "d_categoricalValues d0 = Some cats"
    using tick by (auto simp: fill_tick_def split: option.splits)
  have cats_eq: "cats = first_occurrences (d_values d0)" and nc: "getValueTypeFromField f \<noteq> CATEGORICAL"
    using cats d0(2) by (simp_all add: f split: if_splits)
  have "card (set (d_values d0)) \<le> MAX_CATEGORICAL_VALUES"
    using reference_type_categorical [OF _ nc] d0(2) by (simp add: f)
  with fill_tick_codes_decode [OF cats _ tick] d0(2) cats_eq show ?thesis
    by (simp add: well_typed_def length_first_occurrences)
next
  assume d: "d \<in> set (typed_dimensions get run_id fs runs)" "d_valueType d \<noteq> CATEGORICAL"
  from d obtain f where f: "d = reference_dimension get runs f"
    by (auto simp: set_typed_dimensions)
  have "d_categoricalValues d = None" "d_plotlyValues d = None" using d(2) by (simp_all add: f)
  moreover have "d_valueType d \<noteq> ASSUMED_NUMERIC" "d_valueType d \<noteq> ASSUMED_CATEGORICAL"
    by (simp_all add: f reference_type_concrete)
  ultimately show ?thesis using d(2) by (simp add: well_typed_def split: value_type.splits)
qed

lemma id_index_map_distinct:
  assumes "distinct (map run_id runs)"
  shows "id_index_map run_id runs = map (\<lambda>(i, run). (run_id run, i)) (enumerate 0 runs)"
proof -
  have "distinct (map (\<lambda>p. run_id (snd p)) (enumerate 0 runs))"
    using assms by simp
  from fold_update_fresh [OF this, of "[]" fst] show ?thesis
    by (simp add: id_index_map_def case_prod_beta')
qed

lemma invert_id_index_map:
  assumes "distinct (map run_id runs)"
  shows "invert_map (id_index_map run_id runs) = map (\<lambda>(i, run). (i, run_id run)) (enumerate 0 runs)"
proof -
  have "distinct (map snd (id_index_map run_id runs))"
    by (simp add: id_index_map_distinct [OF assms] comp_def case_prod_beta')
  from fold_update_fresh [OF this, of "[]" fst] show ?thesis
    by (simp add: invert_map_def case_prod_beta' id_index_map_distinct [OF assms] comp_def)
qed

lemma createDimensionsFromRuns_Inr:
  "createDimensionsFromRuns get run_id fs runs = Inr S \<Longrightarrow>
   \<exists>ds. fillTickVals (typed_dimensions get run_id fs runs) = Inr ds \<and> ds_dimensions S = indexBy_key ds
     \<and> ds_idIndexMap S = id_index_map run_id runs
     \<and> ds_indexIdMap S = invert_map (id_index_map run_id runs)"
  by (auto simp: createDimensionsFromRuns_def split: sum.splits)

lemma created_member:
  assumes "createDimensionsFromRuns get run_id fs runs = Inr S" and "(k, d) \<in> set (ds_dimensions S)"
  shows "d_key d = k \<and> well_typed d"
proof -
  from createDimensionsFromRuns_Inr [OF assms(1)] obtain ds
    where ds: "fillTickVals (typed_dimensions get run_id fs runs) = Inr ds"
      and S: "ds_dimensions S = indexBy_key ds" by (elim exE conjE)
  from assms(2) S set_indexBy_key [of ds] have "d \<in> set ds \<and> d_key d = k" by auto
  with well_typed_created [OF ds] show ?thesis by simp
qed

definition declared_categorical :: "defined_field \<Rightarrow> bool" where
  "declared_categorical f = (getValueTypeFromField f = CATEGORICAL)"

lemma createDimensions_ok_iff:
  "(\<exists>S. createDimensionsFromRuns get run_id fs runs = Inr S) \<longleftrightarrow>
   \<not> list_ex (\<lambda>f. plottable get runs f \<and> declared_categorical f) fs"
proof -
  let ?ds = "typed_dimensions get run_id fs runs"
  have "(\<exists>S. createDimensionsFromRuns get run_id fs runs = Inr S) \<longleftrightarrow>
      (\<exists>ys. all_or_error fill_tick (filter (\<lambda>d. d_valueType d = CATEGORICAL) ?ds) = Inr ys)"
    by (auto simp: createDimensionsFromRuns_def fillTickVals_def split: sum.splits)
  also have "\<dots> \<longleftrightarrow> (\<forall>d \<in> set ?ds. d_valueType d = CATEGORICAL \<longrightarrow> d_categoricalValues d \<noteq> None)"
    unfolding all_or_error_Inr_iff by (auto simp: fill_tick_def Let_def split: option.splits)
  also have "\<dots> \<longleftrightarrow> \<not> list_ex (\<lambda>f. plottable get runs f \<and> declared_categorical f) fs"
  proof -
    have "(d_valueType d = CATEGORICAL \<longrightarrow> d_categoricalValues d \<noteq> None) \<longleftrightarrow> \<not> declared_categorical f"
      if "d = reference_dimension get runs f" for d f
      unfolding that declared_categorical_def by (simp add: reference_type_def)
    then show ?thesis
      unfolding set_typed_dimensions list_ex_iff ball_simps(9) by blast
  qed
  finally show ?thesis .
qed

subsection \<open>The properties\<close>

definition example_get :: "jsobj \<Rightarrow> string \<Rightarrow> run_value" where
  "example_get run key = Prim (obj_get run key)"

definition example_run_id :: "jsobj \<Rightarrow> string" where
  "example_run_id run = js_text (obj_get run ''id'')"

definition example_runs :: "jsobj list" where
  "example_runs =
     [[(''id'', JStr ''7''), (''model'', JStr ''xgb''), (''values.auc'', JNum 3)],
      [(''id'', JStr ''9''), (''model'', JStr ''svm''), (''values.auc'', JNull)]]"

definition example_fields :: "defined_field list" where
  "example_fields =
     [\<lparr>df_key = ''model'', df_name = ''Model'', df_type = ''string''\<rparr>,
      \<lparr>df_key = ''values.auc'', df_name = ''AUC'', df_type = ''numeric''\<rparr>]"

lemmas example_defs =
  example_get_def example_run_id_def example_runs_def example_fields_def

lemma example_created:
  "case createDimensionsFromRuns example_get example_run_id example_fields example_runs of
     Inl e \<Rightarrow> False
   | Inr S \<Rightarrow> map_option d_valueType (map_of (ds_dimensions S) ''model'') = Some CATEGORICAL"
  by code_simp

lemma example_dimensions:
  "\<exists>S d. createDimensionsFromRuns example_get example_run_id example_fields example_runs = Inr S
     \<and> (''model'', d) \<in> set (ds_dimensions S) \<and> d_valueType d = CATEGORICAL"
  using example_created by (auto split: sum.splits dest: map_of_SomeD)

text \<open>C20: The dimensions made from the runs are, up to their order before the charts' codes are
  added, the reference dimensions of the plottable fields: the values of the field in every run,
  the number of runs that have one, and the type the values confirm - a field of unknown type is
  numeric exactly if no value of it is a non-number, and any other assumed field is categorical
  exactly if it has at most 20 different values, and text otherwise.\<close>

theorem dimensions_match_reference:
  "mset (typed_dimensions get run_id fs runs) =
   mset (map (reference_dimension get runs) (filter (plottable get runs) fs))"
  by (rule mset_typed_dimensions)

text \<open>C19: Every dimension the page gets is well typed: it is filed under its own key, no assumed
  type is left, a categorical dimension has its different values, at most 20, and the codes and
  labels of the charts, and no other dimension has codes.\<close>

theorem created_dimensions_well_typed:
  assumes "createDimensionsFromRuns get run_id fs runs = Inr S" and "(k, d) \<in> set (ds_dimensions S)"
  shows "d_key d = k \<and> well_typed d"
  using assms by (rule created_member)

lemma created_dimensions_well_typed_witness:
  "\<exists>S d. createDimensionsFromRuns example_get example_run_id example_fields example_runs = Inr S
    \<and> (''model'', d) \<in> set (ds_dimensions S) \<and> d_valueType d = CATEGORICAL \<and> well_typed d"
  using example_dimensions created_dimensions_well_typed
    [of example_get example_run_id example_fields example_runs]
  by metis

text \<open>C21: The dimensions can be made, and the page is not stopped by an error, exactly if no field
  that some run has a value of is declared to be categorical (a type the values are never
  collected for).\<close>

theorem dimensions_created_iff:
  "(\<exists>S. createDimensionsFromRuns get run_id fs runs = Inr S) \<longleftrightarrow>
   \<not> list_ex (\<lambda>f. plottable get runs f \<and> declared_categorical f) fs"
  by (rule createDimensions_ok_iff)

text \<open>For runs with different ids the two index maps are inverse to each other: the id of the
  run at a position maps to that position, and the position back to the id.\<close>

theorem run_index_roundtrip:
  assumes "createDimensionsFromRuns get run_id fs runs = Inr S"
    and "distinct (map run_id runs)" and "i < length runs"
  shows "map_of (ds_idIndexMap S) (run_id (runs ! i)) = Some i
    \<and> map_of (ds_indexIdMap S) i = Some (run_id (runs ! i))"
proof -
  from createDimensionsFromRuns_Inr [OF assms(1)]
  have S: "ds_idIndexMap S = map (\<lambda>(i, run). (run_id run, i)) (enumerate 0 runs)"
    "ds_indexIdMap S = map (\<lambda>(i, run). (i, run_id run)) (enumerate 0 runs)"
    using id_index_map_distinct [OF assms(2)] invert_id_index_map [OF assms(2)] by auto
  have mem: "(i, runs ! i) \<in> set (enumerate 0 runs)"
    using assms(3) by (simp add: in_set_enumerate_eq)
  have "distinct (map fst (ds_idIndexMap S))"
    using assms(2) by (simp add: S comp_def case_prod_beta')
  moreover have "distinct (map fst (ds_indexIdMap S))"
    by (simp add: S comp_def case_prod_beta')
  moreover have "(run_id (runs ! i), i) \<in> set (ds_idIndexMap S)"
    "(i, run_id (runs ! i)) \<in> set (ds_indexIdMap S)"
    using imageI [OF mem, of "\<lambda>(i, run). (run_id run, i)"]
      imageI [OF mem, of "\<lambda>(i, run). (i, run_id run)"] by (simp_all add: S)
  ultimately show ?thesis by simp
qed

lemma run_index_roundtrip_witness:
  "\<exists>S. createDimensionsFromRuns example_get example_run_id example_fields example_runs = Inr S
    \<and> map_of (ds_idIndexMap S) ''9'' = Some 1 \<and> map_of (ds_indexIdMap S) 1 = Some ''9''"
proof -
  obtain S where S: "createDimensionsFromRuns example_get example_run_id example_fields example_runs = Inr S"
    using example_dimensions by metis
  have "distinct (map example_run_id example_runs)" by (simp add: example_defs)
  from run_index_roundtrip [OF S this, of 1] S show ?thesis by (simp add: example_defs)
qed

end
