(* ===== verification/RunsState.thy ===== *)
theory RunsState
  imports Dimensions
begin

section \<open>The runs of a project: pages/project/state/dimensions_slice.js, training_run/fetch.js\<close>

text \<open>
  The store of the analysis page keeps the runs of a project, the subset the filter of the
  dashboard leaves, the dimensions made from them, what the mouse hovers over and what is
  selected. Every reducer of the slice is a function of the state here; a reducer that throws
  leaves the state as it was, because the toolkit runs it on a draft.

  The table of the page is a third-party grid: the rows it shows after its own filter, which two
  of the reducers ask it for, are arguments of their actions. \<open>get\<close> is \<open>lodashGet\<close>, as
  in the theory of the dimensions.
\<close>

subsection \<open>The state\<close>

record project_run =
  run_id :: string
  run_model :: jsval
  run_experiment :: jsval
  run_checkpoint_count :: nat
  run_updated :: rat
  run_data :: jsobj

record filter_model =
  fm_key :: "string option"
  fm_value :: jsval

record hover_info =
  hi_runIndex :: "nat jsopt"
  hi_runId :: "string jsopt"
  hi_checkpointIndex :: "nat jsopt"

record runs_state =
  st_allRuns :: "project_run list option"
  st_checkpointsByRunId :: "(string \<times> jsval list option) list option"
  st_definedFields :: "defined_field list option"
  st_dimensions :: "(string \<times> dimension) list option"
  st_filterModel :: "filter_model jsopt"
  st_hoverInfo :: hover_info
  st_idIndexMap :: "(string \<times> nat) list"
  st_indexIdMap :: "(nat \<times> string) list"
  st_runs :: "project_run list option"
  st_runsById :: "(string \<times> project_run) list option"
  st_selectedIds :: "string option list"
  st_selectedIndexes :: "nat option list"
  st_tableApi :: bool
  st_tableFiltered :: bool
  st_tagsById :: "(string \<times> jsobj) list option"
  st_hasCheckpoints :: bool
  st_hasExperiments :: bool

definition initialDimensionsSlice :: runs_state where
  "initialDimensionsSlice =
     \<lparr>st_allRuns = None, st_checkpointsByRunId = None, st_definedFields = None,
      st_dimensions = None, st_filterModel = Null,
      st_hoverInfo = \<lparr>hi_runIndex = Null, hi_runId = Null, hi_checkpointIndex = Null\<rparr>,
      st_idIndexMap = [], st_indexIdMap = [], st_runs = None, st_runsById = None,
      st_selectedIds = [], st_selectedIndexes = [], st_tableApi = False,
      st_tableFiltered = False, st_tagsById = None, st_hasCheckpoints = False,
      st_hasExperiments = False\<rparr>"

subsection \<open>The reducers\<close>

definition opt_of_lookup :: "'a option \<Rightarrow> 'a jsopt" where
  "opt_of_lookup x = (case x of None \<Rightarrow> Undefined | Some v \<Rightarrow> Val v)"

definition setHoverInfo :: "nat jsopt \<Rightarrow> string jsopt \<Rightarrow> nat jsopt \<Rightarrow> runs_state \<Rightarrow> runs_state" where
  "setHoverInfo runIndex runId checkpointIndex s =
     (let (runIndex', runId') =
        (case runId of
           Val k \<Rightarrow> (opt_of_lookup (map_of (st_idIndexMap s) k), runId)
         | _ \<Rightarrow>
             (case runIndex of
                Val i \<Rightarrow> (runIndex, opt_of_lookup (map_of (st_indexIdMap s) i))
              | _ \<Rightarrow> (runIndex, runId)))
      in s\<lparr>st_hoverInfo := \<lparr>hi_runIndex = runIndex', hi_runId = runId',
             hi_checkpointIndex = checkpointIndex\<rparr>\<rparr>)"

definition setSelectedIndexes :: "nat list \<Rightarrow> runs_state \<Rightarrow> runs_state" where
  "setSelectedIndexes payload s =
     s\<lparr>st_selectedIndexes := map Some payload,
       st_selectedIds := map (map_of (st_indexIdMap s)) payload\<rparr>"

definition setSelectedIds :: "string list \<Rightarrow> runs_state \<Rightarrow> runs_state" where
  "setSelectedIds payload s =
     s\<lparr>st_selectedIds := map Some payload,
       st_selectedIndexes := map (map_of (st_idIndexMap s)) payload\<rparr>"

definition setTableApi :: "bool \<Rightarrow> runs_state \<Rightarrow> runs_state" where
  "setTableApi payload s = s\<lparr>st_tableApi := payload\<rparr>"

text \<open>Lists that are \<open>null\<close> are empty for \<open>_.map\<close> and \<open>_.each\<close>.\<close>

definition or_empty :: "'a list option \<Rightarrow> 'a list" where
  "or_empty xs = (case xs of None \<Rightarrow> [] | Some ys \<Rightarrow> ys)"

type_synonym run_getter = "project_run \<Rightarrow> string \<Rightarrow> run_value"

definition rebuild_dimensions ::
  "run_getter \<Rightarrow> project_run list \<Rightarrow> runs_state \<Rightarrow> js_error + runs_state" where
  "rebuild_dimensions get runs s =
     (case createDimensionsFromRuns get run_id (or_empty (st_definedFields s)) runs of
        Inl e \<Rightarrow> Inl e
      | Inr S \<Rightarrow> Inr (s\<lparr>st_dimensions := Some (ds_dimensions S),
                        st_idIndexMap := ds_idIndexMap S,
                        st_indexIdMap := ds_indexIdMap S\<rparr>))"

definition toggleDimensionsToFiltered ::
  "run_getter \<Rightarrow> project_run list \<Rightarrow> runs_state \<Rightarrow> js_error + runs_state" where
  "toggleDimensionsToFiltered get table_rows s =
     (let tableFiltered = \<not> st_tableFiltered s;
          s1 = s\<lparr>st_tableFiltered := tableFiltered\<rparr>
      in if \<not> st_tableApi s then Inr s1
         else rebuild_dimensions get (if tableFiltered then table_rows else or_empty (st_runs s)) s1)"

definition updateFiltered ::
  "run_getter \<Rightarrow> project_run list \<Rightarrow> runs_state \<Rightarrow> js_error + runs_state" where
  "updateFiltered get table_rows s =
     (if st_tableFiltered s
      then (if st_tableApi s then rebuild_dimensions get table_rows s else Inl TypeError)
      else Inr s)"

definition getRunsSuccess ::
  "project_run list \<Rightarrow> defined_field list \<Rightarrow> (string \<times> jsobj) list option \<Rightarrow> runs_state \<Rightarrow> runs_state" where
  "getRunsSuccess runs definedFields tags s =
     s\<lparr>st_runsById := Some (fold (\<lambda>run. AList.update (run_id run) run) runs []),
       st_tagsById := tags,
       st_definedFields := Some definedFields,
       st_allRuns := Some runs,
       st_hasCheckpoints := list_ex (\<lambda>run. 0 < run_checkpoint_count run) runs,
       st_hasExperiments := list_ex (\<lambda>run. truthy (run_experiment run)) runs\<rparr>"

definition getCheckpointsSuccess ::
  "(string \<times> jsval list option) list \<Rightarrow> runs_state \<Rightarrow> runs_state" where
  "getCheckpointsSuccess checkpointsByRunId s = s\<lparr>st_checkpointsByRunId := Some checkpointsByRunId\<rparr>"

definition createTagSuccess :: "string \<times> jsobj \<Rightarrow> runs_state \<Rightarrow> runs_state" where
  "createTagSuccess newTag s =
     s\<lparr>st_tagsById := Some (obj_extend (obj_extend [] (or_empty (st_tagsById s))) [newTag])\<rparr>"

definition updateRunSuccess :: "project_run \<Rightarrow> runs_state \<Rightarrow> runs_state" where
  "updateRunSuccess updatedRun s =
     s\<lparr>st_runsById :=
         Some (obj_extend (obj_extend [] (or_empty (st_runsById s))) [(run_id updatedRun, updatedRun)])\<rparr>"

definition filter_error :: js_error where
  "filter_error =
     JsError ''Dashboard filter models only support simple manually implemented filters''"

definition filtered_runs :: "filter_model jsopt \<Rightarrow> project_run list \<Rightarrow> js_error + project_run list" where
  "filtered_runs payload allRuns =
     (case payload of
        Undefined \<Rightarrow> Inr allRuns
      | Null \<Rightarrow> Inr allRuns
      | Val f \<Rightarrow>
          (case fm_key f of
             None \<Rightarrow> Inr allRuns
           | Some key \<Rightarrow>
               if key = [] then Inr allRuns
               else if key \<notin> set [''experiment'', ''model.type''] then Inl filter_error
               else if key = ''model.type''
                 then Inr (filter (\<lambda>run. truthy (run_model run) \<and> js_prop (run_model run) ''type'' = fm_value f) allRuns)
               else Inr (filter (\<lambda>run. run_experiment run = fm_value f) allRuns)))"

text \<open>
  Without a key \<open>state.runs\<close> becomes \<open>state.allRuns\<close>, which may still be \<open>null\<close>; with
  a key the filter of \<open>null\<close> is an empty list.
\<close>

definition filter_by_key :: "filter_model jsopt \<Rightarrow> bool" where
  "filter_by_key payload =
     (case payload of Undefined \<Rightarrow> False | Null \<Rightarrow> False
      | Val f \<Rightarrow> (case fm_key f of None \<Rightarrow> False | Some key \<Rightarrow> key \<noteq> []))"

definition changeFilterModel ::
  "run_getter \<Rightarrow> filter_model jsopt \<Rightarrow> runs_state \<Rightarrow> js_error + runs_state" where
  "changeFilterModel get payload s =
     (case filtered_runs payload (or_empty (st_allRuns s)) of
        Inl e \<Rightarrow> Inl e
      | Inr runs \<Rightarrow>
          (let s1 = s\<lparr>st_runs := (if filter_by_key payload then Some runs else st_allRuns s)\<rparr>
           in case rebuild_dimensions get (or_empty (st_runs s1)) s1 of
                Inl e \<Rightarrow> Inl e
              | Inr s2 \<Rightarrow> Inr (s2\<lparr>st_filterModel := payload\<rparr>)))"

definition getTagsSuccess :: "(string \<times> jsobj) list \<Rightarrow> runs_state \<Rightarrow> runs_state" where
  "getTagsSuccess tags s = s\<lparr>st_tagsById := Some (fold (\<lambda>(k, t). AList.update k t) tags [])\<rparr>"

text \<open>The actions of the slice, and the reducer that \<open>createSlice\<close> makes of them.\<close>

datatype runs_action =
    SetSelectedIndexes "nat list"
  | SetSelectedIds "string list"
  | SetHoverInfo "nat jsopt" "string jsopt" "nat jsopt"
  | SetTableApi bool
  | ToggleDimensionsToFiltered "project_run list"
  | UpdateFiltered "project_run list"
  | GetRunsSuccess "project_run list" "defined_field list" "(string \<times> jsobj) list option"
  | GetTagsSuccess "(string \<times> jsobj) list"
  | ChangeFilterModel "filter_model jsopt"
  | GetCheckpointsSuccess "(string \<times> jsval list option) list"
  | UpdateRunSuccess project_run
  | CreateTagSuccess "string \<times> jsobj"

fun runs_reducer :: "run_getter \<Rightarrow> runs_action \<Rightarrow> runs_state \<Rightarrow> js_error + runs_state" where
  "runs_reducer get (SetSelectedIndexes p) s = Inr (setSelectedIndexes p s)"
| "runs_reducer get (SetSelectedIds p) s = Inr (setSelectedIds p s)"
| "runs_reducer get (SetHoverInfo i k c) s = Inr (setHoverInfo i k c s)"
| "runs_reducer get (SetTableApi p) s = Inr (setTableApi p s)"
| "runs_reducer get (ToggleDimensionsToFiltered rows) s = toggleDimensionsToFiltered get rows s"
| "runs_reducer get (UpdateFiltered rows) s = updateFiltered get rows s"
| "runs_reducer get (GetRunsSuccess runs fs tags) s = Inr (getRunsSuccess runs fs tags s)"
| "runs_reducer get (GetTagsSuccess tags) s = Inr (getTagsSuccess tags s)"
| "runs_reducer get (ChangeFilterModel p) s = changeFilterModel get p s"
| "runs_reducer get (GetCheckpointsSuccess p) s = Inr (getCheckpointsSuccess p s)"
| "runs_reducer get (UpdateRunSuccess r) s = Inr (updateRunSuccess r s)"
| "runs_reducer get (CreateTagSuccess t) s = Inr (createTagSuccess t s)"

definition runs_dispatch :: "run_getter \<Rightarrow> runs_action \<Rightarrow> runs_state \<Rightarrow> runs_state" where
  "runs_dispatch get a s = (case runs_reducer get a s of Inl e \<Rightarrow> s | Inr s' \<Rightarrow> s')"

subsection \<open>Fetching the runs and their checkpoints\<close>

text \<open>
  \<open>lget run path default\<close> is \<open>lodashGet\<close> with a default, for values that are not there.
  Parameters whose source hides them by default are dropped from the fields.
\<close>

definition ASSIGNMENT_PREFIX :: string where
  "ASSIGNMENT_PREFIX = ''assignments.''"

definition assignment_shown ::
  "(project_run \<Rightarrow> string \<Rightarrow> jsval \<Rightarrow> jsval) \<Rightarrow> project_run \<Rightarrow> string \<Rightarrow> bool" where
  "assignment_shown lget run name =
     (lget run (''assignments.'' @ name) JNull \<noteq> JNull \<and>
      (let source = lget run (''assignments_meta.'' @ name @ ''.source'') JNull in
       \<not> truthy source \<or>
       truthy (lget run (''assignments_sources.'' @ js_text source @ ''.default_show'') (JBool True))))"

definition filterDefaultParams ::
  "(project_run \<Rightarrow> string \<Rightarrow> jsval \<Rightarrow> jsval) \<Rightarrow> project_run list \<Rightarrow> defined_field list \<Rightarrow> defined_field list" where
  "filterDefaultParams lget runs definedFields =
     (let names = map (\<lambda>item. drop (length ASSIGNMENT_PREFIX) (df_key item))
            (filter (\<lambda>item. startsWith (df_key item) ASSIGNMENT_PREFIX) definedFields);
          showSet = concat (map (\<lambda>run. filter (assignment_shown lget run) names) runs)
      in filter (\<lambda>item. \<not> startsWith (df_key item) ASSIGNMENT_PREFIX \<or>
                        drop (length ASSIGNMENT_PREFIX) (df_key item) \<in> set showSet)
           definedFields)"

record run_filter =
  rf_field :: string
  rf_operator :: string
  rf_value :: jsval

definition run_query_filters :: "jsval \<Rightarrow> bool \<Rightarrow> run_filter list" where
  "run_query_filters experiment_id excludeArchivedRuns =
     (if isDefinedAndNotNull experiment_id
      then [\<lparr>rf_field = ''experiment'', rf_operator = ''=='', rf_value = experiment_id\<rparr>] else [])
     @ (if excludeArchivedRuns
        then [\<lparr>rf_field = ''deleted'', rf_operator = ''=='', rf_value = JBool False\<rparr>] else [])"

text \<open>
  The answers to the three requests of \<open>fetchRuns\<close>. With an organization there is no request
  for tags. \<open>Promise.all\<close> rejects with the error of the request that fails first; the model,
  which has no clock, takes the first in the order of the list.
\<close>

definition fetch_runs_result ::
  "(project_run \<Rightarrow> string \<Rightarrow> jsval \<Rightarrow> jsval) \<Rightarrow> bool \<Rightarrow> jsval \<Rightarrow>
   'e + defined_field list \<Rightarrow> 'e + project_run list \<Rightarrow> 'e + (string \<times> jsobj) list \<Rightarrow>
   'e + (defined_field list \<times> project_run list \<times> (string \<times> jsobj) list option)" where
  "fetch_runs_result lget needFilterDefaultParams organizationId fields_answer runs_answer tags_answer =
     promise_then fields_answer (\<lambda>definedFields.
     promise_then runs_answer (\<lambda>runs.
     promise_then
       (if isDefinedAndNotNull organizationId then Inr None
        else promise_then tags_answer (\<lambda>tags. Inr (Some (fold (\<lambda>(k, t). AList.update k t) tags []))))
       (\<lambda>tags. Inr (if needFilterDefaultParams then filterDefaultParams lget runs definedFields
                    else definedFields, runs, tags))))"

text \<open>
  \<open>fetchCheckpoints\<close>: an entry of the list given to \<open>_.object\<close> is a pair of a run and
  its checkpoints, or for a run without checkpoints an empty list (\<open>None\<close>), whose missing
  first element names the property \<open>undefined\<close>. \<open>Inl\<close> is the call of the error callback.
\<close>

definition object_of_entries ::
  "(string \<times> jsval list) option list \<Rightarrow> (string \<times> jsval list option) list" where
  "object_of_entries entries =
     fold (\<lambda>e. case e of None \<Rightarrow> AList.update ''undefined'' None
                       | Some (k, cs) \<Rightarrow> AList.update k (Some cs)) entries []"

definition checkpoint_entry ::
  "(string \<Rightarrow> 'e + jsval list) \<Rightarrow> project_run \<Rightarrow> 'e + (string \<times> jsval list) option" where
  "checkpoint_entry page run =
     (if 0 < run_checkpoint_count run
      then promise_then (page (run_id run)) (\<lambda>checkpoints. Inr (Some (run_id run, rev checkpoints)))
      else Inr None)"

definition fetchCheckpoints ::
  "(string \<Rightarrow> 'e + jsval list) \<Rightarrow> runs_state \<Rightarrow> 'e + runs_state" where
  "fetchCheckpoints page s =
     (let runs = map snd (or_empty (st_runsById s)) in
      if \<not> st_hasCheckpoints s
      then Inr (getCheckpointsSuccess (object_of_entries (map (\<lambda>run. Some (run_id run, [])) runs)) s)
      else promise_then (all_or_error (checkpoint_entry page) runs)
             (\<lambda>entries. Inr (getCheckpointsSuccess (object_of_entries entries) s)))"

subsection \<open>Invariant\<close>

text \<open>
  The index maps are those of some list of runs with different ids, and every dimension is
  well typed and has one value for each run of that list.
\<close>

definition maps_of_runs :: "project_run list \<Rightarrow> runs_state \<Rightarrow> bool" where
  "maps_of_runs rs s =
     (distinct (map run_id rs) \<and>
      st_idIndexMap s = map (\<lambda>(i, run). (run_id run, i)) (enumerate 0 rs) \<and>
      st_indexIdMap s = map (\<lambda>(i, run). (i, run_id run)) (enumerate 0 rs) \<and>
      (\<forall>(k, d) \<in> set (or_empty (st_dimensions s)).
         d_key d = k \<and> well_typed d \<and> length (d_values d) = length rs))"

definition runs_inv :: "runs_state \<Rightarrow> bool" where
  "runs_inv s =
     (distinct (map run_id (or_empty (st_allRuns s))) \<and>
      distinct (map run_id (or_empty (st_runs s))) \<and>
      (\<exists>rs. maps_of_runs rs s))"

text \<open>The rows of the table and the runs of the service have different ids.\<close>

fun action_ok :: "runs_action \<Rightarrow> bool" where
  "action_ok (ToggleDimensionsToFiltered rows) = distinct (map run_id rows)"
| "action_ok (UpdateFiltered rows) = distinct (map run_id rows)"
| "action_ok (GetRunsSuccess runs fs tags) = distinct (map run_id runs)"
| "action_ok _ = True"

inductive runs_step :: "run_getter \<Rightarrow> runs_state \<Rightarrow> runs_state \<Rightarrow> bool" for get where
  Dispatch: "action_ok a \<Longrightarrow> runs_step get s (runs_dispatch get a s)"

abbreviation runs_reachable :: "run_getter \<Rightarrow> runs_state \<Rightarrow> bool" where
  "runs_reachable get \<equiv> (runs_step get)\<^sup>*\<^sup>* initialDimensionsSlice"

lemma or_empty_simps [simp]: "or_empty None = []" "or_empty (Some xs) = xs"
  by (simp_all add: or_empty_def)

lemma created_dimension_length:
  assumes "createDimensionsFromRuns get rid fs runs = Inr S" "(k, d) \<in> set (ds_dimensions S)"
  shows "length (d_values d) = length runs"
proof -
  from createDimensionsFromRuns_Inr [OF assms(1)] obtain ds
    where ds: "fillTickVals (typed_dimensions get rid fs runs) = Inr ds"
      and S: "ds_dimensions S = indexBy_key ds" by (elim exE conjE)
  from assms(2) S set_indexBy_key [of ds] have "d \<in> set ds" by auto
  from fillTickVals_member [OF ds this]
  show ?thesis
  proof (elim disjE bexE conjE)
    fix d0 assume "d0 \<in> set (typed_dimensions get rid fs runs)" and tick: "fill_tick d0 = Inr d"
    then have "length (d_values d0) = length runs"
      by (auto simp: set_typed_dimensions dimension_values_def)
    moreover have "d_values d = d_values d0"
      using tick by (auto simp: fill_tick_def Let_def split: option.splits)
    ultimately show ?thesis by simp
  next
    assume "d \<in> set (typed_dimensions get rid fs runs)"
    then show ?thesis by (auto simp: set_typed_dimensions dimension_values_def)
  qed
qed

lemma rebuild_dimensions_maps:
  assumes "distinct (map run_id rs)" "rebuild_dimensions get rs s = Inr s'"
  shows "maps_of_runs rs s'"
proof -
  from assms(2) obtain S where S: "createDimensionsFromRuns get run_id (or_empty (st_definedFields s)) rs = Inr S"
    and s': "s' = s\<lparr>st_dimensions := Some (ds_dimensions S), st_idIndexMap := ds_idIndexMap S,
                        st_indexIdMap := ds_indexIdMap S\<rparr>"
    by (auto simp: rebuild_dimensions_def split: sum.splits)
  have typed: "\<forall>(k, d) \<in> set (ds_dimensions S).
      d_key d = k \<and> well_typed d \<and> length (d_values d) = length rs"
    using created_member [OF S] created_dimension_length [OF S] by auto
  from createDimensionsFromRuns_Inr [OF S]
  have "ds_idIndexMap S = id_index_map run_id rs" "ds_indexIdMap S = invert_map (id_index_map run_id rs)"
    by auto
  then show ?thesis
    using typed
    by (simp add: maps_of_runs_def s' assms(1) invert_id_index_map [OF assms(1)]
        id_index_map_distinct [OF assms(1), symmetric])
qed

lemma rebuild_dimensions_frame:
  "rebuild_dimensions get rs s = Inr s' \<Longrightarrow>
   st_allRuns s' = st_allRuns s \<and> st_runs s' = st_runs s \<and> st_filterModel s' = st_filterModel s
   \<and> st_selectedIds s' = st_selectedIds s \<and> st_selectedIndexes s' = st_selectedIndexes s
   \<and> st_hoverInfo s' = st_hoverInfo s \<and> st_definedFields s' = st_definedFields s"
  by (auto simp: rebuild_dimensions_def split: sum.splits)

lemma rebuild_dimensions_inv:
  assumes "runs_inv s0" "st_allRuns s = st_allRuns s0" "distinct (map run_id (or_empty (st_runs s)))"
    and "distinct (map run_id rs)" "rebuild_dimensions get rs s = Inr s'"
  shows "runs_inv s'"
  using rebuild_dimensions_frame [OF assms(5)] rebuild_dimensions_maps [OF assms(4,5)] assms(1-3)
  by (auto simp: runs_inv_def)

lemma runs_inv_initial: "runs_inv initialDimensionsSlice"
proof -
  have "maps_of_runs [] initialDimensionsSlice"
    by (simp add: maps_of_runs_def initialDimensionsSlice_def)
  then show ?thesis by (auto simp: runs_inv_def initialDimensionsSlice_def)
qed

lemma toggle_inv:
  assumes "runs_inv s" "distinct (map run_id rows)" "toggleDimensionsToFiltered get rows s = Inr s'"
  shows "runs_inv s'"
proof (cases "st_tableApi s")
  case True
  have runs: "distinct (map run_id (or_empty (st_runs s)))" using assms(1) by (simp add: runs_inv_def)
  have eq: "rebuild_dimensions get (if \<not> st_tableFiltered s then rows else or_empty (st_runs s))
      (s\<lparr>st_tableFiltered := \<not> st_tableFiltered s\<rparr>) = Inr s'"
    using assms(3) True by (simp add: toggleDimensionsToFiltered_def Let_def)
  show ?thesis by (rule rebuild_dimensions_inv [OF assms(1) _ _ _ eq]) (simp_all add: runs assms(2))
next
  case False
  with assms show ?thesis
    by (auto simp: toggleDimensionsToFiltered_def Let_def runs_inv_def maps_of_runs_def)
qed

lemma updateFiltered_inv:
  assumes "runs_inv s" "distinct (map run_id rows)" "updateFiltered get rows s = Inr s'"
  shows "runs_inv s'"
proof (cases "st_tableFiltered s")
  case True
  with assms(3) have eq: "rebuild_dimensions get rows s = Inr s'"
    by (simp add: updateFiltered_def split: if_splits)
  show ?thesis
    by (rule rebuild_dimensions_inv [OF assms(1) _ _ assms(2) eq]) (use assms(1) in \<open>simp_all add: runs_inv_def\<close>)
qed (use assms in \<open>simp add: updateFiltered_def\<close>)

lemma filtered_runs_distinct:
  "distinct (map run_id rs) \<Longrightarrow> filtered_runs payload rs = Inr rs' \<Longrightarrow> distinct (map run_id rs')"
  by (auto simp: filtered_runs_def distinct_map_filter split: option.splits jsopt.splits if_splits)

lemma changeFilterModel_Inr:
  assumes "changeFilterModel get payload s = Inr s'"
  obtains runs s2 where "filtered_runs payload (or_empty (st_allRuns s)) = Inr runs"
    "rebuild_dimensions get runs
       (s\<lparr>st_runs := (if filter_by_key payload then Some runs else st_allRuns s)\<rparr>) = Inr s2"
    "s' = s2\<lparr>st_filterModel := payload\<rparr>"
proof -
  from assms obtain runs where runs: "filtered_runs payload (or_empty (st_allRuns s)) = Inr runs"
    by (auto simp: changeFilterModel_def split: sum.splits)
  have "or_empty (if filter_by_key payload then Some runs else st_allRuns s) = runs"
    using runs by (auto simp: filter_by_key_def filtered_runs_def split: option.splits jsopt.splits if_splits)
  with assms runs that show ?thesis
    by (auto simp: changeFilterModel_def Let_def split: sum.splits)
qed

lemma changeFilterModel_inv:
  assumes "runs_inv s" "changeFilterModel get payload s = Inr s'"
  shows "runs_inv s'"
proof -
  from assms(2) obtain runs s2 where runs: "filtered_runs payload (or_empty (st_allRuns s)) = Inr runs"
    and s2: "rebuild_dimensions get runs
       (s\<lparr>st_runs := (if filter_by_key payload then Some runs else st_allRuns s)\<rparr>) = Inr s2"
    and s': "s' = s2\<lparr>st_filterModel := payload\<rparr>" by (rule changeFilterModel_Inr)
  have all: "distinct (map run_id (or_empty (st_allRuns s)))" using assms(1) by (simp add: runs_inv_def)
  from filtered_runs_distinct [OF all runs] have d: "distinct (map run_id runs)" .
  have "runs_inv s2" by (rule rebuild_dimensions_inv [OF assms(1) _ _ d s2]) (simp_all add: d all)
  then show ?thesis by (simp add: s' runs_inv_def maps_of_runs_def)
qed

lemma runs_dispatch_inv:
  assumes "runs_inv s" "action_ok a"
  shows "runs_inv (runs_dispatch get a s)"
proof (cases "runs_reducer get a s")
  case (Inr s')
  have "runs_inv s'"
  proof (cases a)
    case (ToggleDimensionsToFiltered rows)
    with Inr assms toggle_inv show ?thesis by simp
  next
    case (UpdateFiltered rows)
    with Inr assms updateFiltered_inv show ?thesis by simp
  next
    case (ChangeFilterModel p)
    with Inr assms changeFilterModel_inv show ?thesis by simp
  qed (use Inr assms in \<open>auto simp: runs_inv_def maps_of_runs_def setSelectedIndexes_def
      setSelectedIds_def setHoverInfo_def setTableApi_def getRunsSuccess_def getTagsSuccess_def
      getCheckpointsSuccess_def updateRunSuccess_def createTagSuccess_def Let_def
      split: jsopt.splits\<close>)
  with Inr show ?thesis by (simp add: runs_dispatch_def)
qed (use assms in \<open>simp add: runs_dispatch_def\<close>)

interpretation runs: started_system "runs_step get" runs_inv initialDimensionsSlice for get
  by unfold_locales (auto elim!: runs_step.cases simp: runs_dispatch_inv runs_inv_initial)

lemmas runs_reachable_inv = runs.inv_reachable

lemma runs_reachable_dispatch:
  "runs_reachable get s \<Longrightarrow> action_ok a \<Longrightarrow> runs_reachable get (runs_dispatch get a s)"
  by (erule rtranclp.rtrancl_into_rtrancl) (rule Dispatch)

lemma maps_of_runs_lookup:
  assumes "maps_of_runs rs s"
  shows "map_of (st_indexIdMap s) i = Some k \<longleftrightarrow> i < length rs \<and> run_id (rs ! i) = k"
    and "map_of (st_idIndexMap s) k = Some i \<longleftrightarrow> i < length rs \<and> run_id (rs ! i) = k"
proof -
  have ids: "distinct (map fst (st_idIndexMap s))"
    using assms by (simp add: maps_of_runs_def comp_def case_prod_beta')
  have ixs: "distinct (map fst (st_indexIdMap s))"
    using assms by (simp add: maps_of_runs_def comp_def case_prod_beta')
  show "map_of (st_indexIdMap s) i = Some k \<longleftrightarrow> i < length rs \<and> run_id (rs ! i) = k"
    unfolding map_of_eq_Some_iff [OF ixs]
    using assms by (auto simp: maps_of_runs_def in_set_enumerate_eq image_iff intro!: bexI [of _ "(i, rs ! i)"])
  show "map_of (st_idIndexMap s) k = Some i \<longleftrightarrow> i < length rs \<and> run_id (rs ! i) = k"
    unfolding map_of_eq_Some_iff [OF ids]
    using assms by (auto simp: maps_of_runs_def in_set_enumerate_eq image_iff intro!: bexI [of _ "(i, rs ! i)"])
qed

subsection \<open>Filters and checkpoints\<close>

definition matches_filter :: "filter_model jsopt \<Rightarrow> project_run \<Rightarrow> bool" where
  "matches_filter payload run =
     (case payload of
        Undefined \<Rightarrow> True
      | Null \<Rightarrow> True
      | Val f \<Rightarrow>
          (case fm_key f of
             None \<Rightarrow> True
           | Some key \<Rightarrow>
               key = [] \<or>
               (key = ''experiment'' \<and> run_experiment run = fm_value f) \<or>
               (key = ''model.type'' \<and> truthy (run_model run) \<and>
                  js_prop (run_model run) ''type'' = fm_value f)))"

lemma filtered_runs_Inr:
  "filtered_runs payload rs = Inr rs' \<Longrightarrow> rs' = filter (matches_filter payload) rs"
  by (auto simp: filtered_runs_def matches_filter_def intro!: filter_cong split: option.splits jsopt.splits if_splits)

lemma filtered_runs_Inl: "filtered_runs payload rs = Inl e \<Longrightarrow> e = filter_error"
  by (auto simp: filtered_runs_def split: option.splits jsopt.splits if_splits)

lemma entry_lookup:
  assumes "\<forall>run \<in> set runs. f run = (if P run then Some (run_id run, c run) else None)"
    and "run \<in> set runs" "run_id run \<noteq> ''undefined''"
    and "\<forall>r \<in> set runs. run_id r = run_id run \<longrightarrow> r = run"
  shows "map_of (object_of_entries (map f runs)) (run_id run) =
    (if P run then Some (Some (c run)) else None)"
proof -
  let ?k = "\<lambda>e. case e of None \<Rightarrow> ''undefined'' | Some (k, cs) \<Rightarrow> k"
  let ?v = "\<lambda>e. case e of None \<Rightarrow> None | Some (k, cs) \<Rightarrow> Some cs"
  have eq: "object_of_entries es = fold (\<lambda>e. AList.update (?k e) (?v e)) es []" for es
    unfolding object_of_entries_def
    by (rule fold_cong) (auto simp: fun_eq_iff split: option.splits)
  show ?thesis
  proof (cases "P run")
    case True
    have "map_of (object_of_entries (map f runs)) (run_id run) = Some (Some (c run))"
      unfolding eq
    proof (rule fold_update_lookup)
      show "\<forall>e \<in> set (map f runs). ?k e = run_id run \<longrightarrow> ?v e = Some (c run)"
      proof (intro ballI impI)
        fix e assume "e \<in> set (map f runs)" and k: "?k e = run_id run"
        then obtain r where r: "r \<in> set runs" "e = f r" by auto
        have e: "e = (if P r then Some (run_id r, c r) else None)"
          using assms(1) r by blast
        with k assms(3) have "P r" "run_id r = run_id run" by (auto split: if_splits)
        moreover from this(2) assms(4) r(1) have "r = run" by blast
        ultimately show "?v e = Some (c run)" by (simp add: e)
      qed
      have "?k (f run) = run_id run" using assms(1,2) True by simp
      moreover have "?k (f run) \<in> ?k ` set (map f runs)" by (intro imageI) (simp add: assms(2))
      ultimately show "run_id run \<in> ?k ` set (map f runs)" by (simp only:)
    qed
    with True show ?thesis by simp
  next
    case False
    have "\<forall>e \<in> set (map f runs). ?k e \<noteq> run_id run"
    proof
      fix e assume "e \<in> set (map f runs)"
      then obtain r where r: "r \<in> set runs" "e = f r" by auto
      have e: "e = (if P r then Some (run_id r, c r) else None)"
        using assms(1) r by blast
      show "?k e \<noteq> run_id run"
      proof (cases "P r")
        case True
        with \<open>\<not> P run\<close> have "r \<noteq> run" by blast
        with assms(4) r(1) have "run_id r \<noteq> run_id run" by blast
        with e True show ?thesis by simp
      qed (use e assms(3) in simp)
    qed
    then have "map_of (object_of_entries (map f runs)) (run_id run) = map_of [] (run_id run)"
      unfolding eq by (rule fold_update_other)
    with False show ?thesis by simp
  qed
qed

lemma all_or_error_map:
  "all_or_error f xs = Inr ys \<Longrightarrow> \<exists>g. ys = map g xs \<and> (\<forall>x \<in> set xs. f x = Inr (g x))"
proof -
  assume "all_or_error f xs = Inr ys"
  then have "ys = map (\<lambda>x. projr (f x)) xs \<and> (\<forall>x \<in> set xs. f x = Inr (projr (f x)))"
    by (induction xs arbitrary: ys) (auto split: sum.splits)
  then show ?thesis by blast
qed

lemma fetchCheckpoints_lookup:
  assumes "fetchCheckpoints page s = Inr s'" and "st_hasCheckpoints s"
    and "run \<in> set (map snd (or_empty (st_runsById s)))" and "run_id run \<noteq> ''undefined''"
    and "\<forall>r \<in> set (map snd (or_empty (st_runsById s))). run_id r = run_id run \<longrightarrow> r = run"
  shows "map_of (or_empty (st_checkpointsByRunId s')) (run_id run) =
    (if 0 < run_checkpoint_count run
     then Some (Some (rev (projr (page (run_id run))))) else None)"
proof -
  let ?runs = "map snd (or_empty (st_runsById s))"
  obtain es where es: "all_or_error (checkpoint_entry page) ?runs = Inr es"
    and s': "s' = getCheckpointsSuccess (object_of_entries es) s"
    using assms(1,2) by (cases "all_or_error (checkpoint_entry page) ?runs")
      (auto simp: fetchCheckpoints_def Let_def)
  from all_or_error_map [OF es] obtain g where g: "es = map g ?runs"
    and ok: "\<forall>r \<in> set ?runs. checkpoint_entry page r = Inr (g r)" by (elim exE conjE)
  have "\<forall>r \<in> set ?runs. g r = (if 0 < run_checkpoint_count r
      then Some (run_id r, rev (projr (page (run_id r)))) else None)"
  proof
    fix r assume "r \<in> set ?runs"
    with ok have "checkpoint_entry page r = Inr (g r)" by blast
    then show "g r = (if 0 < run_checkpoint_count r
        then Some (run_id r, rev (projr (page (run_id r)))) else None)"
      by (cases "page (run_id r)") (auto simp: checkpoint_entry_def split: if_splits)
  qed
  from entry_lookup [OF this assms(3-5)] show ?thesis
    by (simp add: s' g getCheckpointsSuccess_def)
qed

lemma fetchCheckpoints_none:
  assumes "\<not> st_hasCheckpoints s"
    and "run \<in> set (map snd (or_empty (st_runsById s)))"
    and "\<forall>r \<in> set (map snd (or_empty (st_runsById s))). run_id r = run_id run \<longrightarrow> r = run"
    and "run_id run \<noteq> ''undefined''"
  shows "\<exists>s'. fetchCheckpoints page s = Inr s' \<and>
    map_of (or_empty (st_checkpointsByRunId s')) (run_id run) = Some (Some [])"
  using entry_lookup [of "map snd (or_empty (st_runsById s))" "\<lambda>run. Some (run_id run, [])"
      "\<lambda>_. True" "\<lambda>_. []" run] assms
  by (simp add: fetchCheckpoints_def getCheckpointsSuccess_def Let_def comp_def)

subsection \<open>Examples\<close>

definition sample_run :: "string \<Rightarrow> jsval \<Rightarrow> nat \<Rightarrow> rat \<Rightarrow> project_run" where
  "sample_run k experiment_id n auc =
     \<lparr>run_id = k, run_model = JNull, run_experiment = experiment_id, run_checkpoint_count = n,
      run_updated = of_nat n, run_data = [(''values.auc'', JNum auc)]\<rparr>"

definition sample_get :: run_getter where
  "sample_get run key = Prim (obj_get (run_data run) key)"

definition sample_runs :: "project_run list" where
  "sample_runs = [sample_run ''7'' (JStr ''1'') 0 3, sample_run ''9'' (JStr ''2'') 2 5]"

definition sample_fields :: "defined_field list" where
  "sample_fields = [\<lparr>df_key = ''values.auc'', df_name = ''AUC'', df_type = ''numeric''\<rparr>]"

definition sample_filter :: "filter_model jsopt" where
  "sample_filter = Val \<lparr>fm_key = Some ''experiment'', fm_value = JStr ''2''\<rparr>"

definition loaded_state :: runs_state where
  "loaded_state =
     runs_dispatch sample_get (ChangeFilterModel Null)
       (runs_dispatch sample_get (GetRunsSuccess sample_runs sample_fields None) initialDimensionsSlice)"

lemma loaded_reachable: "runs_reachable sample_get loaded_state"
  unfolding loaded_state_def
  by (rule runs_reachable_dispatch, rule runs_reachable_dispatch, rule rtranclp.rtrancl_refl)
    (simp_all add: sample_runs_def sample_run_def)

lemma loaded_values:
  "map_of (st_idIndexMap loaded_state) ''9'' = Some 1"
  "map fst (or_empty (st_dimensions loaded_state)) = [''values.auc'']"
  "st_allRuns loaded_state = Some sample_runs" "st_runs loaded_state = Some sample_runs"
  "map snd (or_empty (st_runsById loaded_state)) = sample_runs"
  "st_hasCheckpoints loaded_state"
  by code_simp+

subsection \<open>The properties\<close>

lemma reachable_maps:
  assumes "runs_reachable get s"
  obtains rs where "maps_of_runs rs s"
  using runs_reachable_inv [OF assms] by (auto simp: runs_inv_def)

text \<open>C22: In every state the actions of the store lead to, from runs with different ids, the two
  index maps are inverse to each other, and every dimension is well typed, filed under its own
  key and has exactly one value for each indexed run: a position of a chart always names one run
  and one value of each dimension.\<close>

theorem runs_store_consistent:
  assumes "runs_reachable get s"
  shows "(map_of (st_idIndexMap s) k = Some i \<longleftrightarrow> map_of (st_indexIdMap s) i = Some k) \<and>
    ((key, d) \<in> set (or_empty (st_dimensions s)) \<longrightarrow>
       d_key d = key \<and> well_typed d \<and> length (d_values d) = length (st_indexIdMap s))"
proof -
  obtain rs where rs: "maps_of_runs rs s" using assms by (rule reachable_maps)
  then have "length (st_indexIdMap s) = length rs" by (simp add: maps_of_runs_def)
  with rs show ?thesis
    by (auto simp: maps_of_runs_lookup [OF rs]) (auto simp: maps_of_runs_def)
qed

lemma runs_store_consistent_witness:
  "map_of (st_indexIdMap loaded_state) 1 = Some ''9'' \<and>
   (\<exists>d. (''values.auc'', d) \<in> set (or_empty (st_dimensions loaded_state)) \<and> well_typed d)"
proof -
  have "''values.auc'' \<in> fst ` set (or_empty (st_dimensions loaded_state))"
    using loaded_values(2) by (metis list.set_intros(1) list.set_map)
  then obtain d where d: "(''values.auc'', d) \<in> set (or_empty (st_dimensions loaded_state))" by auto
  from runs_store_consistent [OF loaded_reachable, of "''9''" 1 "''values.auc''" d] d loaded_values(1)
  show ?thesis by auto
qed

text \<open>C23: A dashboard's filter that is accepted leaves exactly the runs it describes: the runs of
  the store are the matching ones in their order, and every position of the charts is a
  matching run.\<close>

theorem filter_leaves_matching_runs:
  assumes "runs_reachable get s" and "changeFilterModel get payload s = Inr s'"
  shows "or_empty (st_runs s') = filter (matches_filter payload) (or_empty (st_allRuns s)) \<and>
    st_filterModel s' = payload \<and>
    (map_of (st_indexIdMap s') i = Some k \<longleftrightarrow>
       i < length (or_empty (st_runs s')) \<and> run_id (or_empty (st_runs s') ! i) = k)"
proof -
  obtain rs s2 where rs: "filtered_runs payload (or_empty (st_allRuns s)) = Inr rs"
    and s2: "rebuild_dimensions get rs
       (s\<lparr>st_runs := (if filter_by_key payload then Some rs else st_allRuns s)\<rparr>) = Inr s2"
    and s': "s' = s2\<lparr>st_filterModel := payload\<rparr>" using assms(2) by (rule changeFilterModel_Inr)
  have "distinct (map run_id (or_empty (st_allRuns s)))"
    using runs_reachable_inv [OF assms(1)] by (simp add: runs_inv_def)
  with rs have "distinct (map run_id rs)" by (metis filtered_runs_distinct)
  from rebuild_dimensions_maps [OF this s2] have maps: "maps_of_runs rs s'"
    by (simp add: s' maps_of_runs_def)
  have "or_empty (if filter_by_key payload then Some rs else st_allRuns s) = rs"
    using rs by (auto simp: filter_by_key_def filtered_runs_def split: option.splits jsopt.splits if_splits)
  with rebuild_dimensions_frame [OF s2] have "or_empty (st_runs s') = rs" by (simp add: s')
  with maps_of_runs_lookup(1) [OF maps] filtered_runs_Inr [OF rs] show ?thesis by (simp add: s')
qed

lemma filter_leaves_matching_runs_witness:
  "\<exists>s'. changeFilterModel sample_get sample_filter loaded_state = Inr s' \<and>
    map run_id (or_empty (st_runs s')) = [''9'']"
proof -
  have "case changeFilterModel sample_get sample_filter loaded_state of Inl e \<Rightarrow> False | Inr s' \<Rightarrow> True"
    by code_simp
  then obtain s' where s': "changeFilterModel sample_get sample_filter loaded_state = Inr s'"
    by (auto split: sum.splits)
  have "map run_id (filter (matches_filter sample_filter) (or_empty (st_allRuns loaded_state))) = [''9'']"
    by code_simp
  with filter_leaves_matching_runs [OF loaded_reachable s'] s' show ?thesis by auto
qed

text \<open>When some run has checkpoints, the fetched table of checkpoints has the checkpoints of a
  run in reversed order if the run has any, and no entry at all for a run that has none. (In a
  project without checkpoints every run gets an empty list.)\<close>

theorem fetched_checkpoints:
  assumes "fetchCheckpoints page s = Inr s'" and "st_hasCheckpoints s"
    and "run \<in> set (map snd (or_empty (st_runsById s)))" and "run_id run \<noteq> ''undefined''"
    and "\<forall>r \<in> set (map snd (or_empty (st_runsById s))). run_id r = run_id run \<longrightarrow> r = run"
  shows "map_of (or_empty (st_checkpointsByRunId s')) (run_id run) =
    (if 0 < run_checkpoint_count run
     then Some (Some (rev (projr (page (run_id run))))) else None)"
  using assms by (rule fetchCheckpoints_lookup)

lemma fetched_checkpoints_witness:
  "\<exists>s'. fetchCheckpoints (\<lambda>k. Inr [JNum 1, JNum 2] :: unit + jsval list) loaded_state = Inr s' \<and>
    map_of (or_empty (st_checkpointsByRunId s')) ''7'' = None \<and>
    map_of (or_empty (st_checkpointsByRunId s')) ''9'' = Some (Some [JNum 2, JNum 1])"
proof -
  let ?page = "\<lambda>k. Inr [JNum 1, JNum 2] :: unit + jsval list"
  have "\<exists>s'. fetchCheckpoints ?page loaded_state = Inr s'"
    by (simp add: fetchCheckpoints_def Let_def loaded_values sample_runs_def sample_run_def
        checkpoint_entry_def)
  then obtain s' where s': "fetchCheckpoints ?page loaded_state = Inr s'" by (elim exE)
  note at = fetched_checkpoints [OF s' loaded_values(6), unfolded loaded_values(5)]
  from at [of "sample_run ''7'' (JStr ''1'') 0 3"] at [of "sample_run ''9'' (JStr ''2'') 2 5"] s'
  show ?thesis by (simp add: sample_runs_def sample_run_def)
qed

text \<open>
  A change of the filter rebuilds the dimensions and the index maps but keeps the selection, so a
  selected position may name another run afterwards, or none.
\<close>

lemma selection_survives_filter:
  "changeFilterModel get payload s = Inr s' \<Longrightarrow>
   st_selectedIds s' = st_selectedIds s \<and> st_selectedIndexes s' = st_selectedIndexes s"
  by (elim changeFilterModel_Inr) (auto dest: rebuild_dimensions_frame)

lemma selection_survives_toggle:
  "toggleDimensionsToFiltered get rows s = Inr s' \<Longrightarrow>
   st_selectedIds s' = st_selectedIds s \<and> st_selectedIndexes s' = st_selectedIndexes s"
  by (auto simp: toggleDimensionsToFiltered_def Let_def dest: rebuild_dimensions_frame split: if_splits)

lemma stale_selection:
  "case changeFilterModel sample_get sample_filter (setSelectedIds [''9''] loaded_state) of
     Inl e \<Rightarrow> False
   | Inr s \<Rightarrow> st_selectedIndexes s = [Some 1] \<and> map_of (st_idIndexMap s) ''9'' = Some 0"
  by code_simp

text \<open>A filter with another key is refused and the state stays as it was.\<close>

lemma unknown_filter_refused:
  assumes "fm_key f = Some key" "key \<notin> {[], ''experiment'', ''model.type''}"
  shows "changeFilterModel get (Val f) s = Inl filter_error \<and>
    runs_dispatch get (ChangeFilterModel (Val f)) s = s"
  using assms by (simp add: changeFilterModel_def filtered_runs_def runs_dispatch_def)

text \<open>
  An answer to the request for the runs changes neither the runs the page shows nor the filter:
  the dimensions of the charts stay those of the runs fetched before.
\<close>

lemma getRunsSuccess_frame:
  "st_runs (getRunsSuccess runs fs tags s) = st_runs s \<and>
   st_dimensions (getRunsSuccess runs fs tags s) = st_dimensions s \<and>
   st_filterModel (getRunsSuccess runs fs tags s) = st_filterModel s \<and>
   st_indexIdMap (getRunsSuccess runs fs tags s) = st_indexIdMap s"
  by (simp add: getRunsSuccess_def)

text \<open>A parameter is kept exactly if some run shows it; the other fields are always kept.\<close>

lemma filterDefaultParams_member:
  "f \<in> set (filterDefaultParams lget runs fs) \<longleftrightarrow>
   f \<in> set fs \<and> (prefix ASSIGNMENT_PREFIX (df_key f) \<longrightarrow>
     (\<exists>run \<in> set runs. assignment_shown lget run (drop (length ASSIGNMENT_PREFIX) (df_key f))))"
  by (auto simp: filterDefaultParams_def Let_def startsWith_iff_prefix)

end
