(* ===== verification/Widgets.thy ===== *)
theory Widgets
  imports RunsState
begin

section \<open>Widgets of the analysis page: pages/project/analysis\<close>

text \<open>
  What a dashboard shows: the widgets with their layout on a grid of two columns, the builders
  of the default widgets (\<open>widgets/*/state.js\<close>), the automatic layout
  (\<open>dashboard/create_dashboards.js\<close>), the look-up of dimensions (\<open>lib/dimensions.js\<close>) and
  the colours of a colour dimension (\<open>lib/color_dimension.js\<close>).
\<close>

subsection \<open>Colours\<close>

datatype gradient_type = FIXED | SMOOTH

record gradient =
  gr_key :: string
  gr_displayName :: string
  gr_type :: gradient_type
  gr_gradient :: "(rat \<times> string) list"

definition COLOR_BLIND_TEN :: gradient where
  "COLOR_BLIND_TEN =
     \<lparr>gr_key = ''COLOR_BLIND_TEN'', gr_displayName = ''Color Blind Friendly'', gr_type = FIXED,
      gr_gradient =
        [(0, ''#54B399''), (1 / 10, ''#D6BF57''), (2 / 10, ''#D36086''), (3 / 10, ''#9170B8''),
         (4 / 10, ''#CA8EAE''), (5 / 10, ''#AA6556''), (6 / 10, ''#B9A888''), (7 / 10, ''#DA8B45''),
         (8 / 10, ''#6092C0''), (9 / 10, ''#E7664C''), (1, ''#aad9cc'')]\<rparr>"

definition EVENLY_SPACED :: gradient where
  "EVENLY_SPACED =
     \<lparr>gr_key = ''EVENLY_SPACED'', gr_displayName = ''Smooth'', gr_type = SMOOTH,
      gr_gradient =
        [(0, ''#0098D1''), (25 / 100, ''#0B3267''), (5 / 10, ''#E7475A''), (1, ''#F5811F'')]\<rparr>"

definition HIGHLIGHT_HIGH_VALUES :: gradient where
  "HIGHLIGHT_HIGH_VALUES =
     \<lparr>gr_key = ''HIGHLIGHT_HIGH_VALUES'', gr_displayName = ''Highlight High Values'', gr_type = SMOOTH,
      gr_gradient =
        [(0, ''#0098D1''), (9 / 10, ''#0B3267''), (99 / 100, ''#E7475A''), (1, ''#F5811F'')]\<rparr>"

definition HIGHLIGHT_LOW_VALUES :: gradient where
  "HIGHLIGHT_LOW_VALUES =
     \<lparr>gr_key = ''HIGHLIGHT_LOW_VALUES'', gr_displayName = ''Highlight Low Values'', gr_type = SMOOTH,
      gr_gradient =
        [(0, ''#F5811F''), (1 / 100, ''#E7475A''), (1 / 10, ''#0B3267''), (1, ''#0098D1'')]\<rparr>"

definition GRADIENTS :: "gradient_type \<Rightarrow> gradient list" where
  "GRADIENTS t =
     (case t of
        FIXED \<Rightarrow> [COLOR_BLIND_TEN]
      | SMOOTH \<Rightarrow> [EVENLY_SPACED, HIGHLIGHT_HIGH_VALUES, HIGHLIGHT_LOW_VALUES])"

text \<open>
  \<open>GRADIENTS[gradientType][gradientKey]\<close>: an unknown key of a known type reads as
  \<open>undefined\<close>, which does not throw, so the fallback of \<open>getGradientSafely\<close> is only for a
  type that is not known - and no caller passes one.
\<close>

definition getGradientSafely :: "gradient_type \<Rightarrow> string \<Rightarrow> gradient option" where
  "getGradientSafely t key = List.find (\<lambda>g. gr_key g = key) (GRADIENTS t)"

record color_state =
  cs_key :: "string option"
  cs_gradientType :: "gradient_type option"
  cs_gradientKey :: "string option"

text \<open>A \<open>null\<close> key is read as the property of that name.\<close>

definition key_text :: "string option \<Rightarrow> string" where
  "key_text k = (case k of None \<Rightarrow> ''null'' | Some k' \<Rightarrow> k')"

definition gradient_type_text :: "gradient_type \<Rightarrow> string" where
  "gradient_type_text t = (case t of FIXED \<Rightarrow> ''FIXED'' | SMOOTH \<Rightarrow> ''SMOOTH'')"

definition createColorState ::
  "string option \<Rightarrow> gradient_type option \<Rightarrow> string option \<Rightarrow> js_error + color_state" where
  "createColorState key gradientType gradientKey =
     (let result = \<lparr>cs_key = key, cs_gradientType = gradientType, cs_gradientKey = gradientKey\<rparr> in
      case (gradientType, gradientKey) of
        (None, None) \<Rightarrow> Inr result
      | (None, Some k) \<Rightarrow> Inl TypeError
      | (Some t, k) \<Rightarrow>
          (case List.find (\<lambda>g. gr_key g = key_text k) (GRADIENTS t) of
             None \<Rightarrow> Inl (JsError (''Gradient with type: '' @ gradient_type_text t @
                       '', and key: '' @ key_text k @ '' is not valid''))
           | Some g \<Rightarrow> Inr result))"

definition createBlankColorState :: "js_error + color_state" where
  "createBlankColorState = createColorState None None None"

text \<open>
  The colour settings of a chart. The scale is a list of stops; the smooth gradient passes the
  whole description of the gradient instead (or \<open>undefined\<close>).
\<close>

datatype colorscale = Stops "(rat \<times> string) list" | GradientObject gradient | NoScale

record color_dimension =
  cd_color :: "run_value list"
  cd_colorscale :: colorscale
  cd_legend :: "(string \<times> run_value) list"

definition createColorDimensionWithSelect :: "nat \<Rightarrow> nat option list \<Rightarrow> color_dimension" where
  "createColorDimensionWithSelect totalPoints selectedIndexes =
     \<lparr>cd_color = map (\<lambda>i. Prim (JNum (if Some i \<in> set selectedIndexes then 1 else 0))) [0..<totalPoints],
      cd_colorscale = Stops [(0, ''#6699ff''), (1, ''#ffca38'')], cd_legend = []\<rparr>"

definition createColorDimensionSmoothGradient :: "dimension \<Rightarrow> string \<Rightarrow> color_dimension" where
  "createColorDimensionSmoothGradient colorDim gradientKey =
     \<lparr>cd_color = d_values colorDim,
      cd_colorscale = (case getGradientSafely SMOOTH gradientKey of None \<Rightarrow> NoScale | Some g \<Rightarrow> GradientObject g),
      cd_legend = []\<rparr>"

definition stop_of_value :: "(rat \<times> string) list \<Rightarrow> run_value list \<Rightarrow> run_value \<Rightarrow> rat \<times> string" where
  "stop_of_value scale uniqueVals v = scale ! (nat (indexOf_value uniqueVals v) mod length scale)"

definition createColorDimensionFixedGradient :: "dimension \<Rightarrow> string \<Rightarrow> js_error + color_dimension" where
  "createColorDimensionFixedGradient colorDim gradientKey =
     (case getGradientSafely FIXED gradientKey of
        None \<Rightarrow> Inl TypeError
      | Some g \<Rightarrow>
          (let scale = gr_gradient g; uniqueVals = first_occurrences (d_values colorDim)
           in Inr \<lparr>cd_color = map (\<lambda>v. Prim (JNum (fst (stop_of_value scale uniqueVals v)))) (d_values colorDim),
                   cd_colorscale = Stops scale,
                   cd_legend = map (\<lambda>v. (snd (stop_of_value scale uniqueVals v),
                                         if run_value_defined v then v else Prim (JStr ''None''))) uniqueVals\<rparr>))"

subsection \<open>Looking up dimensions\<close>

text \<open>\<open>StaleStateError\<close>: a saved widget names a dimension that is not there any more.\<close>

datatype widget_error = StaleStateError bool string | OtherError js_error

type_synonym dimension_map = "(string \<times> dimension) list"

definition getDimension :: "dimension_map \<Rightarrow> string \<Rightarrow> bool \<Rightarrow> widget_error + dimension" where
  "getDimension dims key recoverable =
     (case map_of dims key of
        None \<Rightarrow> Inl (StaleStateError recoverable
                  (''The dimension: '' @ key @ '' is no longer valid. Possibly due to a filter change''))
      | Some d \<Rightarrow> Inr d)"

definition getDimensions :: "dimension_map \<Rightarrow> string list \<Rightarrow> bool \<Rightarrow> widget_error + dimension list" where
  "getDimensions dims keys recoverable = all_or_error (\<lambda>key. getDimension dims key recoverable) keys"

definition getPossibleDimensions ::
  "dimension_map \<Rightarrow> string list \<Rightarrow> bool \<Rightarrow> dimension list \<times> string list" where
  "getPossibleDimensions dims keys recoverable =
     fold (\<lambda>key (ds, invalid).
       (case getDimension dims key recoverable of
          Inl e \<Rightarrow> (ds, invalid @ [key])
        | Inr d \<Rightarrow> (ds @ [d], invalid))) keys ([], [])"

definition createColorDimensionGradient ::
  "dimension_map \<Rightarrow> color_state option \<Rightarrow> widget_error + color_dimension" where
  "createColorDimensionGradient dims colorState =
     (case colorState of
        None \<Rightarrow> Inl (OtherError (JsError ''Missing required `key` property of `colorState`''))
      | Some cs \<Rightarrow>
          (case cs_key cs of
             None \<Rightarrow> Inl (OtherError (JsError ''Missing required `key` property of `colorState`''))
           | Some key \<Rightarrow>
               if key = [] then Inl (OtherError (JsError ''Missing required `key` property of `colorState`''))
               else
                 promise_then (getDimension dims key True) (\<lambda>colorDim.
                   case cs_gradientType cs of
                     None \<Rightarrow> Inl (OtherError (JsError ''null is not a valid gradient type.''))
                   | Some FIXED \<Rightarrow>
                       (case createColorDimensionFixedGradient colorDim (key_text (cs_gradientKey cs)) of
                          Inl e \<Rightarrow> Inl (OtherError e) | Inr c \<Rightarrow> Inr c)
                   | Some SMOOTH \<Rightarrow>
                       Inr (createColorDimensionSmoothGradient colorDim (key_text (cs_gradientKey cs))))))"

subsection \<open>Widgets\<close>

record layout =
  l_x :: "rat option"
  l_y :: "rat option"
  l_w :: rat
  l_h :: rat
  l_minW :: rat
  l_minH :: rat

datatype widget_content =
    CheckpointsState "string list" bool
  | MultiScatterState "string list" "string list" "color_state option"
  | PCChartState "string list" "color_state option"
  | RunTableState jsval
  | EmptyState

record widget =
  w_version :: nat
  w_type :: string
  w_layout :: layout
  w_title :: string
  w_state :: widget_content

definition new_layout :: "rat \<Rightarrow> rat \<Rightarrow> rat \<Rightarrow> rat \<Rightarrow> layout" where
  "new_layout w h minH minW =
     \<lparr>l_x = None, l_y = None, l_w = w, l_h = h, l_minW = minW, l_minH = minH\<rparr>"

definition widgetStateBuilder :: "nat \<Rightarrow> string \<Rightarrow> layout \<Rightarrow> string \<Rightarrow> widget_content \<Rightarrow> widget" where
  "widgetStateBuilder version type l title state =
     \<lparr>w_version = version, w_type = type, w_layout = l, w_title = title, w_state = state\<rparr>"

definition CheckpointsWidgetStateBuilder :: "string \<Rightarrow> string list \<Rightarrow> bool \<Rightarrow> widget" where
  "CheckpointsWidgetStateBuilder title runIds plotAllRuns =
     widgetStateBuilder 1 ''CHECKPOINTS_WIDGET'' (new_layout 2 7 4 1) title
       (CheckpointsState runIds plotAllRuns)"

definition CheckpointEditorStateBuilder :: widget where
  "CheckpointEditorStateBuilder = CheckpointsWidgetStateBuilder ''All Runs'' [] True"

definition MAX_NUM_RUNS :: nat where
  "MAX_NUM_RUNS = 5"

definition CheckpointDefaultStateBuilder :: "project_run list \<Rightarrow> widget option" where
  "CheckpointDefaultStateBuilder runs =
     (let runsWithCheckpoints = filter (\<lambda>run. 0 < run_checkpoint_count run) runs in
      if runsWithCheckpoints = [] then None
      else
        (let runsSortedByUpdated = sort_key run_updated runsWithCheckpoints;
             runsIds = map run_id (take MAX_NUM_RUNS runsSortedByUpdated);
             title = ''Checkpoints - '' @ int_text (int (length runsIds)) @ '' Most Recently Updated Runs''
         in Some (CheckpointsWidgetStateBuilder title runsIds False)))"

definition MultiScatterStateBuilder ::
  "string \<Rightarrow> string list \<Rightarrow> string list \<Rightarrow> color_state option \<Rightarrow> widget" where
  "MultiScatterStateBuilder title xDimKeys yDimKeys colorState =
     (let height = of_nat (length yDimKeys) * 4 + 2;
          width = (if length xDimKeys \<le> 1 then 1 else 2)
      in widgetStateBuilder 1 ''MULTI_SCATTER_WIDGET'' (new_layout width height 3 1) title
           (MultiScatterState xDimKeys yDimKeys colorState))"

definition keys_of_group :: "group_type \<Rightarrow> nat \<Rightarrow> dimension_map \<Rightarrow> string list" where
  "keys_of_group g n dims =
     map d_key (take n (filter (\<lambda>d. d_groupType d = g) (map snd dims)))"

definition DIMS_PER_AXIS :: nat where
  "DIMS_PER_AXIS = 3"

definition MultiScatterMetricParameterStateBuilder :: "dimension_map \<Rightarrow> js_error + widget" where
  "MultiScatterMetricParameterStateBuilder dims =
     (let yDims = keys_of_group METRIC DIMS_PER_AXIS dims;
          xDims = keys_of_group PARAMETER DIMS_PER_AXIS dims;
          experimentDim = map_of dims ''experiment''
      in promise_then
           (case experimentDim of
              None \<Rightarrow> Inr None
            | Some d \<Rightarrow>
                (case d_categoricalValues d of
                   None \<Rightarrow> Inr None
                 | Some vs \<Rightarrow>
                     if 1 < length vs
                     then promise_then (createColorState (Some (d_key d)) (Some FIXED) (Some ''COLOR_BLIND_TEN''))
                            (\<lambda>c. Inr (Some c))
                     else Inr None))
           (\<lambda>colorState. Inr (MultiScatterStateBuilder ''Metrics X Parameters'' xDims yDims colorState)))"

definition PCChartStateBuilder :: "string \<Rightarrow> string list \<Rightarrow> color_state option \<Rightarrow> widget" where
  "PCChartStateBuilder title selectedDims colorState =
     widgetStateBuilder 1 ''PC_CHART_SCATTER_WIDGET'' (new_layout 2 5 3 1) title
       (PCChartState selectedDims colorState)"

definition PCChartProjectStateBuilder :: "dimension_map \<Rightarrow> widget" where
  "PCChartProjectStateBuilder dims =
     PCChartStateBuilder ''Parallel Coordinates''
       (keys_of_group METRIC 4 dims @ keys_of_group PARAMETER 4 dims) None"

definition RunTableStateBuilder :: "string \<Rightarrow> jsval \<Rightarrow> widget" where
  "RunTableStateBuilder title tableState =
     widgetStateBuilder 1 ''RUN_TABLE_WIDGET'' (new_layout 2 8 3 1) title (RunTableState tableState)"

definition RunInfoStateBuilder :: "string \<Rightarrow> widget" where
  "RunInfoStateBuilder title =
     widgetStateBuilder 1 ''RUN_INFO_WIDIGET'' (new_layout 1 6 4 1) title EmptyState"

definition ParameterRangeStateBuilder :: "string \<Rightarrow> rat \<Rightarrow> widget" where
  "ParameterRangeStateBuilder title height =
     widgetStateBuilder 1 ''PARAMETER_RANGE_WIDGET'' (new_layout 2 height 4 1) title EmptyState"

subsection \<open>The automatic layout\<close>

record cursor =
  cu_currentX :: rat
  cu_currentY :: rat
  cu_nextX :: rat
  cu_nextY :: rat

definition place_at :: "rat \<Rightarrow> rat \<Rightarrow> widget \<Rightarrow> widget" where
  "place_at x y w = w\<lparr>w_layout := (w_layout w)\<lparr>l_x := Some x, l_y := Some y\<rparr>\<rparr>"

definition layout_step :: "cursor \<Rightarrow> widget \<Rightarrow> cursor \<times> widget" where
  "layout_step c w =
     (let rightX = cu_nextX c + l_w (w_layout w);
          c' = (if rightX \<le> 2
                then c\<lparr>cu_currentX := cu_nextX c, cu_nextX := rightX,
                       cu_nextY := max (cu_nextY c) (cu_currentY c + l_h (w_layout w))\<rparr>
                else \<lparr>cu_currentX = 0, cu_currentY = cu_nextY c, cu_nextX = l_w (w_layout w),
                      cu_nextY = cu_nextY c + l_h (w_layout w)\<rparr>)
      in (c', place_at (cu_currentX c') (cu_currentY c') w))"

fun layout_widgets :: "cursor \<Rightarrow> widget list \<Rightarrow> widget list" where
  "layout_widgets c [] = []"
| "layout_widgets c (w # ws) =
     (case layout_step c w of (c', w') \<Rightarrow> w' # layout_widgets c' ws)"

definition layout_start :: cursor where
  "layout_start = \<lparr>cu_currentX = 0, cu_currentY = 0, cu_nextX = 0, cu_nextY = 0\<rparr>"

definition dashboardLayoutBuilder :: "widget list \<Rightarrow> (string \<times> widget) list" where
  "dashboardLayoutBuilder ws =
     map (\<lambda>(i, w). (int_text (int i), w)) (enumerate 0 (layout_widgets layout_start ws))"

subsection \<open>The layout never overlaps\<close>

definition w_x :: "widget \<Rightarrow> rat" where
  "w_x w = (case l_x (w_layout w) of None \<Rightarrow> 0 | Some x \<Rightarrow> x)"

definition w_y :: "widget \<Rightarrow> rat" where
  "w_y w = (case l_y (w_layout w) of None \<Rightarrow> 0 | Some y \<Rightarrow> y)"

definition w_right :: "widget \<Rightarrow> rat" where
  "w_right w = w_x w + l_w (w_layout w)"

definition w_bottom :: "widget \<Rightarrow> rat" where
  "w_bottom w = w_y w + l_h (w_layout w)"

definition apart :: "widget \<Rightarrow> widget \<Rightarrow> bool" where
  "apart a b = (w_right a \<le> w_x b \<or> w_right b \<le> w_x a \<or> w_bottom a \<le> w_y b \<or> w_bottom b \<le> w_y a)"

definition fits :: "widget \<Rightarrow> bool" where
  "fits w = (0 \<le> l_w (w_layout w) \<and> l_w (w_layout w) \<le> 2 \<and> 0 \<le> l_h (w_layout w))"

text \<open>Everything placed so far is left of the cursor in its row, or above its row.\<close>

definition behind :: "cursor \<Rightarrow> widget \<Rightarrow> bool" where
  "behind c w =
     ((w_bottom w \<le> cu_currentY c \<or> w_y w = cu_currentY c \<and> w_right w \<le> cu_nextX c) \<and>
      w_bottom w \<le> cu_nextY c)"

lemma place_at_simps [simp]:
  "w_x (place_at x y w) = x" "w_y (place_at x y w) = y"
  "w_right (place_at x y w) = x + l_w (w_layout w)" "w_bottom (place_at x y w) = y + l_h (w_layout w)"
  "l_w (w_layout (place_at x y w)) = l_w (w_layout w)" "l_h (w_layout (place_at x y w)) = l_h (w_layout w)"
  by (simp_all add: place_at_def w_x_def w_y_def w_right_def w_bottom_def)

lemma layout_step_behind:
  assumes "layout_step c w = (c', w')" "fits w" "behind c v" "cu_currentY c \<le> cu_nextY c"
  shows "apart v w'" "behind c' v"
  using assms by (auto simp: layout_step_def Let_def apart_def behind_def fits_def split: if_splits)

lemma layout_step_placed:
  assumes "layout_step c w = (c', w')" "fits w" "cu_currentY c \<le> cu_nextY c" "0 \<le> cu_nextX c"
  shows "behind c' w'" "cu_currentY c' \<le> cu_nextY c'" "0 \<le> cu_nextX c'"
    "0 \<le> w_x w'" "w_right w' \<le> 2"
  using assms by (auto simp: layout_step_def Let_def behind_def fits_def split: if_splits)

lemma layout_widgets_apart:
  assumes "list_all fits ws" "cu_currentY c \<le> cu_nextY c" "0 \<le> cu_nextX c" "behind c v"
    "w \<in> set (layout_widgets c ws)"
  shows "apart v w"
  using assms
proof (induction ws arbitrary: c)
  case (Cons u ws)
  obtain c' u' where step: "layout_step c u = (c', u')" by (cases "layout_step c u")
  have fu: "fits u" using Cons.prems(1) by simp
  note behind = layout_step_behind [OF step fu Cons.prems(4,2)]
  note placed = layout_step_placed [OF step fu Cons.prems(2,3)]
  show ?case
  proof (cases "w = u'")
    case False
    then have "w \<in> set (layout_widgets c' ws)" using Cons.prems(5) step by simp
    with Cons.IH [OF _ placed(2,3) behind(2)] Cons.prems(1) show ?thesis by simp
  qed (use behind(1) in simp)
qed simp

lemma layout_widgets_within:
  assumes "list_all fits ws" "cu_currentY c \<le> cu_nextY c" "0 \<le> cu_nextX c" "w \<in> set (layout_widgets c ws)"
  shows "0 \<le> w_x w \<and> w_right w \<le> 2"
  using assms
proof (induction ws arbitrary: c)
  case (Cons u ws)
  obtain c' u' where step: "layout_step c u = (c', u')" by (cases "layout_step c u")
  have fu: "fits u" using Cons.prems(1) by simp
  note placed = layout_step_placed [OF step fu Cons.prems(2,3)]
  show ?case
  proof (cases "w = u'")
    case False
    then have "w \<in> set (layout_widgets c' ws)" using Cons.prems(4) step by simp
    with Cons.IH [OF _ placed(2,3)] Cons.prems(1) show ?thesis by simp
  qed (use placed(4,5) in simp)
qed simp

lemma layout_widgets_pairwise:
  assumes "list_all fits ws" "cu_currentY c \<le> cu_nextY c" "0 \<le> cu_nextX c" "i < j"
    "j < length (layout_widgets c ws)"
  shows "apart (layout_widgets c ws ! i) (layout_widgets c ws ! j)"
  using assms
proof (induction ws arbitrary: c i j)
  case (Cons u ws)
  obtain c' u' where step: "layout_step c u = (c', u')" by (cases "layout_step c u")
  have fu: "fits u" using Cons.prems(1) by simp
  note placed = layout_step_placed [OF step fu Cons.prems(2,3)]
  obtain j' where j: "j = Suc j'" using Cons.prems(4) by (cases j) auto
  have j': "j' < length (layout_widgets c' ws)" using Cons.prems(5) step j by simp
  show ?case
  proof (cases i)
    case 0
    have "apart u' (layout_widgets c' ws ! j')"
      by (rule layout_widgets_apart [OF _ placed(2,3,1) nth_mem [OF j']]) (use Cons.prems(1) in simp)
    then show ?thesis by (simp add: 0 j step)
  next
    case (Suc i')
    with Cons.prems(4) j have "i' < j'" by simp
    from Cons.IH [OF _ placed(2,3) this j'] Cons.prems(1) show ?thesis
      by (simp add: Suc j step)
  qed
qed simp

lemma length_layout_widgets [simp]: "length (layout_widgets c ws) = length ws"
  by (induction ws arbitrary: c) (simp_all split: prod.splits)

lemma layout_step_keeps:
  "layout_step c w = (c', w') \<Longrightarrow> w_state w' = w_state w \<and> w_type w' = w_type w \<and> w_title w' = w_title w
    \<and> l_w (w_layout w') = l_w (w_layout w) \<and> l_h (w_layout w') = l_h (w_layout w)"
  by (auto simp: layout_step_def Let_def place_at_def)

lemma layout_widgets_keep:
  "map w_state (layout_widgets c ws) = map w_state ws"
  by (induction ws arbitrary: c) (auto split: prod.splits dest: layout_step_keeps)

lemma layout_start_simps [simp]:
  "cu_currentY layout_start \<le> cu_nextY layout_start" "0 \<le> cu_nextX layout_start"
  by (simp_all add: layout_start_def)

lemma map_fst_dashboardLayoutBuilder:
  "map fst (dashboardLayoutBuilder ws) = map nat_digits [0..<length ws]"
proof -
  have "map fst (dashboardLayoutBuilder ws) = map nat_digits (map fst (enumerate 0 (layout_widgets layout_start ws)))"
    by (simp only: dashboardLayoutBuilder_def map_map comp_def case_prod_beta' fst_conv int_text_nat)
  then show ?thesis by simp
qed

lemma distinct_layout_keys: "distinct (map fst (dashboardLayoutBuilder ws))"
  by (simp add: map_fst_dashboardLayoutBuilder distinct_map inj_on_def)

lemma layout_keys: "fst ` set (dashboardLayoutBuilder ws) = nat_digits ` {..<length ws}"
  using arg_cong [OF map_fst_dashboardLayoutBuilder, of set ws] by (simp add: atLeast_upt lessThan_atLeast0)

lemma nth_dashboardLayoutBuilder:
  "i < length ws \<Longrightarrow> dashboardLayoutBuilder ws ! i = (nat_digits i, layout_widgets layout_start ws ! i)"
  by (simp add: dashboardLayoutBuilder_def nth_enumerate_eq)

lemma length_dashboardLayoutBuilder [simp]: "length (dashboardLayoutBuilder ws) = length ws"
  by (simp add: dashboardLayoutBuilder_def)

subsection \<open>Colours\<close>

lemma COLOR_BLIND_TEN_stops:
  "length (gr_gradient COLOR_BLIND_TEN) = 11"
  "i < 11 \<Longrightarrow> j < 11 \<Longrightarrow> snd (gr_gradient COLOR_BLIND_TEN ! i) = snd (gr_gradient COLOR_BLIND_TEN ! j) \<longleftrightarrow> i = j"
proof -
  show "length (gr_gradient COLOR_BLIND_TEN) = 11" by (simp add: COLOR_BLIND_TEN_def)
  have "distinct (map snd (gr_gradient COLOR_BLIND_TEN))" by (simp add: COLOR_BLIND_TEN_def)
  then show "i < 11 \<Longrightarrow> j < 11 \<Longrightarrow>
      snd (gr_gradient COLOR_BLIND_TEN ! i) = snd (gr_gradient COLOR_BLIND_TEN ! j) \<longleftrightarrow> i = j"
    using nth_eq_iff_index_eq [of "map snd (gr_gradient COLOR_BLIND_TEN)" i j]
    by (simp add: \<open>length (gr_gradient COLOR_BLIND_TEN) = 11\<close>)
qed

lemma getGradientSafely_fixed:
  "getGradientSafely FIXED ''COLOR_BLIND_TEN'' = Some COLOR_BLIND_TEN"
  by (simp add: getGradientSafely_def GRADIENTS_def COLOR_BLIND_TEN_def)

text \<open>An unknown key gives no gradient at all, not the default one.\<close>

lemma unknown_gradient:
  "getGradientSafely FIXED ''RAINBOW'' = None"
  "createColorDimensionFixedGradient d ''RAINBOW'' = Inl TypeError"
  "cd_colorscale (createColorDimensionSmoothGradient d ''RAINBOW'') = NoScale"
  by (simp_all add: getGradientSafely_def GRADIENTS_def COLOR_BLIND_TEN_def EVENLY_SPACED_def
      HIGHLIGHT_HIGH_VALUES_def HIGHLIGHT_LOW_VALUES_def createColorDimensionFixedGradient_def
      createColorDimensionSmoothGradient_def)

text \<open>The smooth gradient is passed as its description, where the charts expect the stops.\<close>

lemma smooth_gradient_object:
  "cd_colorscale (createColorDimensionSmoothGradient d ''EVENLY_SPACED'') = GradientObject EVENLY_SPACED"
  by (simp add: getGradientSafely_def GRADIENTS_def EVENLY_SPACED_def
      createColorDimensionSmoothGradient_def)

definition legend_color :: "color_dimension \<Rightarrow> run_value \<Rightarrow> string option" where
  "legend_color c v = map_of (map (\<lambda>(col, u). (u, col)) (cd_legend c)) v"

lemma indexOf_value_inject:
  "x \<in> set xs \<Longrightarrow> y \<in> set xs \<Longrightarrow> indexOf_value xs x = indexOf_value xs y \<longleftrightarrow> x = y"
  by (metis indexOf_value_member)

text \<open>In a chart coloured by a categorical dimension every point has the stop of the legend's
  colour of its value, and as long as the dimension has at most eleven different values, points
  with different values have different colours.\<close>

theorem fixed_gradient_colors:
  assumes "createColorDimensionFixedGradient d ''COLOR_BLIND_TEN'' = Inr c"
    and "i < length (d_values d)" and "j < length (d_values d)"
    and "card (set (d_values d)) \<le> 11"
  shows "\<exists>stop. stop \<in> set (gr_gradient COLOR_BLIND_TEN) \<and> cd_color c ! i = Prim (JNum (fst stop)) \<and>
      (snd stop, if run_value_defined (d_values d ! i) then d_values d ! i else Prim (JStr ''None''))
        \<in> set (cd_legend c) \<and>
      (cd_color c ! i = cd_color c ! j \<longleftrightarrow> d_values d ! i = d_values d ! j)"
proof -
  let ?scale = "gr_gradient COLOR_BLIND_TEN" and ?u = "first_occurrences (d_values d)"
  let ?stop = "\<lambda>k. stop_of_value ?scale ?u (d_values d ! k)"
  have c: "c = \<lparr>cd_color = map (\<lambda>v. Prim (JNum (fst (stop_of_value ?scale ?u v)))) (d_values d),
      cd_colorscale = Stops ?scale,
      cd_legend = map (\<lambda>v. (snd (stop_of_value ?scale ?u v),
                            if run_value_defined v then v else Prim (JStr ''None''))) ?u\<rparr>"
    using assms(1) by (simp add: createColorDimensionFixedGradient_def getGradientSafely_fixed Let_def)
  have small: "length ?u \<le> 11" using assms(4) by (simp add: length_first_occurrences)
  have index: "nat (indexOf_value ?u (d_values d ! k)) < 11"
    "?stop k = ?scale ! nat (indexOf_value ?u (d_values d ! k))" if "k < length (d_values d)" for k
    using indexOf_value_member [of "d_values d ! k" ?u] nth_mem [OF that] small
    by (simp_all add: stop_of_value_def COLOR_BLIND_TEN_stops(1))
  have nonneg: "0 \<le> indexOf_value ?u (d_values d ! i)" "0 \<le> indexOf_value ?u (d_values d ! j)"
    using indexOf_value_member [of "d_values d ! i" ?u] indexOf_value_member [of "d_values d ! j" ?u]
      nth_mem [OF assms(2)] nth_mem [OF assms(3)] by simp_all
  have stops: "distinct (map fst ?scale)" by (simp add: COLOR_BLIND_TEN_def)
  have "fst (?stop i) = fst (?stop j) \<longleftrightarrow>
      nat (indexOf_value ?u (d_values d ! i)) = nat (indexOf_value ?u (d_values d ! j))"
    using nth_eq_iff_index_eq [OF stops, of "nat (indexOf_value ?u (d_values d ! i))"
        "nat (indexOf_value ?u (d_values d ! j))"] index [OF assms(2)] index [OF assms(3)]
    by (simp add: COLOR_BLIND_TEN_stops(1))
  also have "\<dots> \<longleftrightarrow> indexOf_value ?u (d_values d ! i) = indexOf_value ?u (d_values d ! j)"
    using nonneg by (metis int_nat_eq)
  also have "\<dots> \<longleftrightarrow> d_values d ! i = d_values d ! j"
    using assms(2,3) by (intro indexOf_value_inject) simp_all
  finally have colors: "cd_color c ! i = cd_color c ! j \<longleftrightarrow> d_values d ! i = d_values d ! j"
    using assms(2,3) by (simp add: c)
  have mem: "?stop i \<in> set ?scale"
    using nth_mem [of "nat (indexOf_value ?u (d_values d ! i))" ?scale] index [OF assms(2)]
    by (simp add: COLOR_BLIND_TEN_stops(1))
  have legend: "(snd (?stop i), if run_value_defined (d_values d ! i) then d_values d ! i
      else Prim (JStr ''None'')) \<in> set (cd_legend c)"
    using assms(2) by (auto simp: c)
  show ?thesis
  proof (intro exI conjI)
    show "?stop i \<in> set ?scale" by (rule mem)
    show "cd_color c ! i = Prim (JNum (fst (?stop i)))" using assms(2) by (simp add: c)
    show "(snd (?stop i), if run_value_defined (d_values d ! i) then d_values d ! i
      else Prim (JStr ''None'')) \<in> set (cd_legend c)" by (rule legend)
  qed (rule colors)
qed

lemma fixed_gradient_colors_witness:
  "\<exists>c. createColorDimensionFixedGradient
      ((createEmptyDimension ''model'' ''Model'' CATEGORICAL)
        \<lparr>d_values := [Prim (JStr ''a''), Prim (JStr ''b''), Prim (JStr ''a'')]\<rparr>) ''COLOR_BLIND_TEN'' = Inr c
    \<and> cd_color c ! 0 = cd_color c ! 2 \<and> cd_color c ! 0 \<noteq> cd_color c ! 1"
proof -
  let ?d = "(createEmptyDimension ''model'' ''Model'' CATEGORICAL)
        \<lparr>d_values := [Prim (JStr ''a''), Prim (JStr ''b''), Prim (JStr ''a'')]\<rparr>"
  obtain c where c: "createColorDimensionFixedGradient ?d ''COLOR_BLIND_TEN'' = Inr c"
    by (simp add: createColorDimensionFixedGradient_def getGradientSafely_fixed Let_def)
  have few: "card (set (d_values ?d)) \<le> 11" using card_length [of "d_values ?d"] by simp
  have same: "cd_color c ! 0 = cd_color c ! 2"
    using fixed_gradient_colors [OF c _ _ few, of 0 2] by (simp, blast)
  have differ: "cd_color c ! 0 \<noteq> cd_color c ! 1"
    using fixed_gradient_colors [OF c _ _ few, of 0 1] by (simp, blast)
  from c same differ show ?thesis by blast
qed

subsection \<open>The runs of the default checkpoints widget\<close>

lemma sort_key_prefix_le:
  assumes "a \<in> set (take n (sort_key f xs))" "b \<in> set (drop n (sort_key f xs))"
  shows "f a \<le> f b"
proof -
  have "sorted (map f (take n (sort_key f xs) @ drop n (sort_key f xs)))"
    by (simp only: append_take_drop_id sorted_sort_key)
  with assms show ?thesis unfolding map_append sorted_append by auto
qed

text \<open>The default checkpoints widget, whose title promises the most recently updated runs,
  shows at most five runs with checkpoints, and none of them was updated after one that is left
  out: it shows the runs that were updated longest ago.\<close>

theorem checkpoints_widget_shows_oldest:
  assumes "CheckpointDefaultStateBuilder runs = Some w"
  shows "\<exists>chosen rest. mset (chosen @ rest) = mset (filter (\<lambda>run. 0 < run_checkpoint_count run) runs)
    \<and> w_state w = CheckpointsState (map run_id chosen) False
    \<and> w_title w = ''Checkpoints - '' @ nat_digits (length chosen) @ '' Most Recently Updated Runs''
    \<and> length chosen \<le> MAX_NUM_RUNS
    \<and> (\<forall>a \<in> set chosen. \<forall>b \<in> set rest. run_updated a \<le> run_updated b)"
proof -
  let ?sorted = "sort_key run_updated (filter (\<lambda>run. 0 < run_checkpoint_count run) runs)"
  have "mset (take MAX_NUM_RUNS ?sorted @ drop MAX_NUM_RUNS ?sorted) =
      mset (filter (\<lambda>run. 0 < run_checkpoint_count run) runs)"
    by (simp only: append_take_drop_id mset_sort)
  moreover have "w_state w = CheckpointsState (map run_id (take MAX_NUM_RUNS ?sorted)) False"
    using assms by (auto simp: CheckpointDefaultStateBuilder_def Let_def
        CheckpointsWidgetStateBuilder_def widgetStateBuilder_def split: if_splits)
  moreover have "w_title w = ''Checkpoints - '' @ nat_digits (length (take MAX_NUM_RUNS ?sorted)) @
      '' Most Recently Updated Runs''"
    using assms by (auto simp: CheckpointDefaultStateBuilder_def Let_def
        CheckpointsWidgetStateBuilder_def widgetStateBuilder_def simp flip: int_text_nat split: if_splits)
  moreover have "length (take MAX_NUM_RUNS ?sorted) \<le> MAX_NUM_RUNS" by simp
  moreover have "\<forall>a \<in> set (take MAX_NUM_RUNS ?sorted). \<forall>b \<in> set (drop MAX_NUM_RUNS ?sorted).
      run_updated a \<le> run_updated b" by (auto dest: sort_key_prefix_le)
  ultimately show ?thesis by (intro exI conjI)
qed

lemma checkpoints_widget_shows_oldest_witness:
  "\<exists>w. CheckpointDefaultStateBuilder (map (\<lambda>n. sample_run (nat_digits n) JNull n 0) [1..<8]) = Some w \<and>
    (\<exists>chosen :: project_run list. w_state w = CheckpointsState (map run_id chosen) False \<and> length chosen \<le> 5)"
proof -
  let ?runs = "map (\<lambda>n. sample_run (nat_digits n) JNull n 0) [1..<8]"
  have "filter (\<lambda>run. 0 < run_checkpoint_count run) ?runs \<noteq> []"
    by (simp add: sample_run_def upt_rec)
  then obtain w where w: "CheckpointDefaultStateBuilder ?runs = Some w"
    by (auto simp: CheckpointDefaultStateBuilder_def Let_def)
  from checkpoints_widget_shows_oldest [OF w] obtain chosen :: "project_run list"
    where chosen: "w_state w = CheckpointsState (map run_id chosen) False" "length chosen \<le> 5"
    unfolding MAX_NUM_RUNS_def by (elim exE conjE)
  show ?thesis by (intro exI conjI) (rule w chosen)+
qed

end
