(* ===== verification/Dashboards.thy ===== *)
theory Dashboards
  imports Widgets
begin

section \<open>Dashboards: pages/project/analysis/state/dashboards_slice.js\<close>

text \<open>
  The dashboards of a project: one for the whole project, one for each type of model and one for
  each experiment. A dashboard is made lazily: until it is first shown it is a name, a filter and
  a builder. The page (\<open>dashboard/runs_dashboard.js\<close>) brings the store of the runs and the
  dashboard together in \<open>componentDidUpdate\<close>: it first makes the filter of the store that of
  the dashboard, and builds the dashboard when the two agree.
\<close>

subsection \<open>Default dashboards\<close>

datatype dashboard_builder = ProjectBuilder | DefaultBuilder

record dashboard =
  db_name :: string
  db_filterModel :: filter_model
  db_builder :: "dashboard_builder option"
  db_version :: "nat option"
  db_widgets :: "(string \<times> widget) list option"
  db_nextWidgetId :: "nat option"
  db_user :: "string option"

definition lazyCreatedDashboardBuilder :: "string \<Rightarrow> filter_model \<Rightarrow> dashboard_builder \<Rightarrow> dashboard" where
  "lazyCreatedDashboardBuilder name filterModel builder =
     \<lparr>db_name = name, db_filterModel = filterModel, db_builder = Some builder, db_version = None,
      db_widgets = None, db_nextWidgetId = None, db_user = None\<rparr>"

definition activeDashboardStateBuilder :: "widget option list \<Rightarrow> filter_model \<Rightarrow> string \<Rightarrow> dashboard" where
  "activeDashboardStateBuilder ws filterModel name =
     (let validWidgets = List.map_filter id ws;
          initialLayout = dashboardLayoutBuilder validWidgets
      in \<lparr>db_name = name, db_filterModel = filterModel, db_builder = None, db_version = Some 1,
          db_widgets = Some initialLayout, db_nextWidgetId = Some (length initialLayout),
          db_user = Some ''__SIGOPT_CREATED_DASHBOARD''\<rparr>)"

text \<open>The builders fail when there are no dimensions yet: they read \<open>dims.experiment\<close>.\<close>

definition scatter_of_dims :: "dimension_map option \<Rightarrow> js_error + widget" where
  "scatter_of_dims dims =
     (case dims of None \<Rightarrow> Inl TypeError | Some ds \<Rightarrow> MultiScatterMetricParameterStateBuilder ds)"

definition defaultProjectDashboard ::
  "project_run list \<Rightarrow> dimension_map option \<Rightarrow> dashboard \<Rightarrow> js_error + dashboard" where
  "defaultProjectDashboard runs dims dashboard =
     promise_then (scatter_of_dims dims) (\<lambda>scatter.
       Inr (activeDashboardStateBuilder
              [CheckpointDefaultStateBuilder runs, Some scatter,
               Some (PCChartProjectStateBuilder (or_empty dims)), Some (RunTableStateBuilder ''Runs'' JUndef)]
              (db_filterModel dashboard) (db_name dashboard)))"

definition defaultDashboard ::
  "project_run list \<Rightarrow> dimension_map option \<Rightarrow> dashboard \<Rightarrow> js_error + dashboard" where
  "defaultDashboard runs dims dashboard =
     promise_then (scatter_of_dims dims) (\<lambda>scatter.
       Inr (activeDashboardStateBuilder
              [CheckpointDefaultStateBuilder runs, Some (PCChartProjectStateBuilder (or_empty dims)),
               Some scatter, Some (RunTableStateBuilder ''Runs'' JUndef)]
              (db_filterModel dashboard) (db_name dashboard)))"

definition run_builder ::
  "dashboard_builder \<Rightarrow> project_run list \<Rightarrow> dimension_map option \<Rightarrow> dashboard \<Rightarrow> js_error + dashboard" where
  "run_builder b = (case b of ProjectBuilder \<Rightarrow> defaultProjectDashboard | DefaultBuilder \<Rightarrow> defaultDashboard)"

definition createDefaultProjectDashboard :: dashboard where
  "createDefaultProjectDashboard =
     lazyCreatedDashboardBuilder ''Default Project Dashboard''
       \<lparr>fm_key = None, fm_value = JUndef\<rparr> ProjectBuilder"

definition createDefaultModelDashboard :: "jsval \<Rightarrow> dashboard" where
  "createDefaultModelDashboard modelType =
     lazyCreatedDashboardBuilder (''Model: '' @ js_text modelType)
       \<lparr>fm_key = Some ''model.type'', fm_value = modelType\<rparr> DefaultBuilder"

definition createDefaultExperimentDashboard :: "jsval \<Rightarrow> dashboard" where
  "createDefaultExperimentDashboard experimentId =
     lazyCreatedDashboardBuilder (''Experiment: '' @ js_text experimentId)
       \<lparr>fm_key = Some ''experiment'', fm_value = experimentId\<rparr> DefaultBuilder"

subsection \<open>The slice\<close>

text \<open>
  \<open>nextItemId\<close> is read and incremented but never set: it starts as \<open>undefined\<close>, and
  \<open>undefined + 1\<close> is NaN.
\<close>

datatype item_id = UndefinedId | NaNId | NumberId nat

definition item_key :: "item_id \<Rightarrow> string" where
  "item_key i = (case i of UndefinedId \<Rightarrow> ''undefined'' | NaNId \<Rightarrow> ''NaN'' | NumberId n \<Rightarrow> nat_digits n)"

definition next_item :: "item_id \<Rightarrow> item_id" where
  "next_item i = (case i of NumberId n \<Rightarrow> NumberId (Suc n) | _ \<Rightarrow> NaNId)"

record dashboards_state =
  ds_dashboards :: "dashboard list"
  ds_currentDashboardId :: "nat option"
  ds_nextItemId :: item_id

definition dashboardsInitialState :: dashboards_state where
  "dashboardsInitialState =
     \<lparr>ds_dashboards = [], ds_currentDashboardId = None, ds_nextItemId = UndefinedId\<rparr>"

definition model_type_of :: "project_run \<Rightarrow> jsval" where
  "model_type_of run = (if truthy (run_model run) then js_prop (run_model run) ''type'' else run_model run)"

definition createDefaultDashboards :: "project_run list \<Rightarrow> dashboards_state \<Rightarrow> dashboards_state" where
  "createDefaultDashboards allRuns s =
     (let modelTypes = filter truthy (first_occurrences (map model_type_of allRuns));
          experimentIds = filter truthy (first_occurrences (map run_experiment allRuns))
      in s\<lparr>ds_dashboards := createDefaultProjectDashboard # map createDefaultModelDashboard modelTypes
             @ map createDefaultExperimentDashboard experimentIds,
           ds_currentDashboardId := Some 0\<rparr>)"

text \<open>\<open>state.dashboards[state.currentDashboardId]\<close>, which may be \<open>undefined\<close>.\<close>

definition current_dashboard :: "dashboards_state \<Rightarrow> dashboard option" where
  "current_dashboard s =
     (case ds_currentDashboardId s of
        None \<Rightarrow> None
      | Some i \<Rightarrow> if i < length (ds_dashboards s) then Some (ds_dashboards s ! i) else None)"

text \<open>A change of the widgets of the current dashboard, which must have some.\<close>

definition with_widgets ::
  "((string \<times> widget) list \<Rightarrow> js_error + (string \<times> widget) list) \<Rightarrow> dashboards_state \<Rightarrow>
   js_error + dashboards_state" where
  "with_widgets f s =
     (case (ds_currentDashboardId s, current_dashboard s) of
        (Some i, Some d) \<Rightarrow>
          (case db_widgets d of
             None \<Rightarrow> Inl TypeError
           | Some ws \<Rightarrow>
               (case f ws of
                  Inl e \<Rightarrow> Inl e
                | Inr ws' \<Rightarrow>
                    Inr (s\<lparr>ds_dashboards := (ds_dashboards s)[i := d\<lparr>db_widgets := Some ws'\<rparr>]\<rparr>)))
      | _ \<Rightarrow> Inl TypeError)"

definition shift_down :: "widget \<Rightarrow> widget" where
  "shift_down w = (if l_y (w_layout w) = Some 0 then w\<lparr>w_layout := (w_layout w)\<lparr>l_y := Some (1 / 2)\<rparr>\<rparr> else w)"

definition top_left :: "widget \<Rightarrow> widget" where
  "top_left w =
     w\<lparr>w_layout := (w_layout w)
        \<lparr>l_x := Some 0, l_y := Some 0,
         l_w := max (l_w (w_layout w)) (l_minW (w_layout w)),
         l_h := max (l_h (w_layout w)) (l_minH (w_layout w))\<rparr>\<rparr>"

definition addNewWidget :: "widget \<Rightarrow> dashboards_state \<Rightarrow> js_error + dashboards_state" where
  "addNewWidget payload s =
     promise_then
       (with_widgets (\<lambda>ws. Inr (AList.update (item_key (ds_nextItemId s)) (top_left payload)
                                 (map (\<lambda>(k, w). (k, shift_down w)) ws))) s)
       (\<lambda>s'. Inr (s'\<lparr>ds_nextItemId := next_item (ds_nextItemId s')\<rparr>))"

text \<open>The grid reports the layout of every item; an item that is not a widget stops the reducer.\<close>

fun update_layouts :: "(string \<times> layout) list \<Rightarrow> (string \<times> widget) list \<Rightarrow> js_error + (string \<times> widget) list" where
  "update_layouts [] ws = Inr ws"
| "update_layouts ((k, l) # ls) ws =
     (case map_of ws k of
        None \<Rightarrow> Inl TypeError
      | Some w \<Rightarrow> update_layouts ls (AList.update k (w\<lparr>w_layout := l\<rparr>) ws))"

definition updateLayouts :: "(string \<times> layout) list \<Rightarrow> dashboards_state \<Rightarrow> js_error + dashboards_state" where
  "updateLayouts newLayouts = with_widgets (update_layouts newLayouts)"

text \<open>
  The function a widget passes to change itself reads its argument, so a widget that is not there
  stops it.
\<close>

definition updateWidget :: "string \<Rightarrow> (widget \<Rightarrow> widget) \<Rightarrow> dashboards_state \<Rightarrow> js_error + dashboards_state" where
  "updateWidget widgetId updateFunc =
     with_widgets (\<lambda>ws.
       case map_of ws widgetId of
         None \<Rightarrow> Inl TypeError
       | Some w \<Rightarrow> Inr (AList.update widgetId (updateFunc w) ws))"

definition replaceWidget :: "string \<Rightarrow> widget \<Rightarrow> dashboards_state \<Rightarrow> js_error + dashboards_state" where
  "replaceWidget widgetId widgetData =
     with_widgets (\<lambda>ws.
       case map_of ws widgetId of
         None \<Rightarrow> Inl TypeError
       | Some old \<Rightarrow>
           Inr (AList.update widgetId
             (widgetData\<lparr>w_layout := (w_layout widgetData)
                \<lparr>l_x := l_x (w_layout old), l_y := l_y (w_layout old)\<rparr>\<rparr>) ws))"

text \<open>\<open>delete\<close> of a property of \<open>undefined\<close> throws, of a missing property does nothing.\<close>

definition deleteWidget :: "string \<Rightarrow> dashboards_state \<Rightarrow> js_error + dashboards_state" where
  "deleteWidget widgetId = with_widgets (\<lambda>ws. Inr (AList.delete widgetId ws))"

definition changeDashboard :: "nat option \<Rightarrow> dashboards_state \<Rightarrow> dashboards_state" where
  "changeDashboard payload s = s\<lparr>ds_currentDashboardId := payload\<rparr>"

definition buildDashboard ::
  "project_run list \<Rightarrow> dimension_map option \<Rightarrow> nat option \<Rightarrow> dashboards_state \<Rightarrow> js_error + dashboards_state" where
  "buildDashboard runs dims dashboardId s =
     (if dashboardId = ds_currentDashboardId s then
        (case (ds_currentDashboardId s, current_dashboard s) of
           (Some i, Some d) \<Rightarrow>
             (case db_builder d of
                None \<Rightarrow> Inr s
              | Some b \<Rightarrow>
                  promise_then (run_builder b runs dims d)
                    (\<lambda>d'. Inr (s\<lparr>ds_dashboards := (ds_dashboards s)[i := d']\<rparr>)))
         | _ \<Rightarrow> Inl TypeError)
      else Inr s)"

subsection \<open>The page\<close>

text \<open>
  \<open>componentDidUpdate\<close> reads the state of the last rendering (\<open>this.props\<close>) for every decision
  and dispatches in order; its model gives the list of actions. A selected dashboard that is not
  in the list stops it with a TypeError (\<open>ReadUndefined\<close>). \<open>prevAllRuns\<close> is the list of runs of the
  rendering before.
\<close>

datatype page_action =
    CreateDefaultDashboards "project_run list"
  | ReadUndefined
  | ChangeFilter "filter_model jsopt"
  | BuildDashboard "project_run list" "dimension_map option" "nat option"
  | FetchCheckpoints

record page_state =
  pg_dashboards :: dashboards_state
  pg_runs :: runs_state

definition page_update :: "project_run list option \<Rightarrow> page_state \<Rightarrow> page_action list" where
  "page_update prevAllRuns p =
     (let D = pg_dashboards p; S = pg_runs p;
          wanted = (case current_dashboard D of None \<Rightarrow> Undefined | Some d \<Rightarrow> Val (db_filterModel d));
          builder = (case current_dashboard D of None \<Rightarrow> None | Some d \<Rightarrow> db_builder d)
      in (if ds_dashboards D = [] \<and> or_empty (st_allRuns S) \<noteq> []
          then [CreateDefaultDashboards (or_empty (st_allRuns S))] else [])
         @ (if ds_currentDashboardId D \<noteq> None \<and> current_dashboard D = None then [ReadUndefined]
            else
              (if wanted \<noteq> st_filterModel S then [ChangeFilter wanted]
               else if builder \<noteq> None
                 then [BuildDashboard (or_empty (st_runs S)) (st_dimensions S) (ds_currentDashboardId D)]
               else [])
              @ (if st_allRuns S \<noteq> prevAllRuns then [FetchCheckpoints] else [])))"

text \<open>
  Dispatching: an action that throws ends the update. The request for the checkpoints answers
  later and changes neither the dashboards nor the dimensions.
\<close>

fun page_dispatch :: "run_getter \<Rightarrow> page_action \<Rightarrow> page_state \<Rightarrow> js_error + page_state" where
  "page_dispatch get (CreateDefaultDashboards runs) p =
     Inr (p\<lparr>pg_dashboards := createDefaultDashboards runs (pg_dashboards p)\<rparr>)"
| "page_dispatch get ReadUndefined p = Inl TypeError"
| "page_dispatch get (ChangeFilter m) p =
     promise_then (changeFilterModel get m (pg_runs p)) (\<lambda>S. Inr (p\<lparr>pg_runs := S\<rparr>))"
| "page_dispatch get (BuildDashboard runs dims i) p =
     promise_then (buildDashboard runs dims i (pg_dashboards p)) (\<lambda>D. Inr (p\<lparr>pg_dashboards := D\<rparr>))"
| "page_dispatch get FetchCheckpoints p = Inr p"

fun page_dispatch_all :: "run_getter \<Rightarrow> page_action list \<Rightarrow> page_state \<Rightarrow> page_state" where
  "page_dispatch_all get [] p = p"
| "page_dispatch_all get (a # as) p =
     (case page_dispatch get a p of Inl e \<Rightarrow> p | Inr p' \<Rightarrow> page_dispatch_all get as p')"

definition page_step :: "run_getter \<Rightarrow> project_run list option \<Rightarrow> page_state \<Rightarrow> page_state" where
  "page_step get prevAllRuns p = page_dispatch_all get (page_update prevAllRuns p) p"

subsection \<open>The layout of a built dashboard\<close>

lemma default_widgets_fit:
  "CheckpointDefaultStateBuilder runs = Some w \<Longrightarrow> fits w"
  "MultiScatterMetricParameterStateBuilder dims = Inr v \<Longrightarrow> fits v"
  "fits (PCChartProjectStateBuilder dims)"
  "fits (RunTableStateBuilder title state)"
proof -
  show "CheckpointDefaultStateBuilder runs = Some w \<Longrightarrow> fits w"
    by (auto simp: CheckpointDefaultStateBuilder_def Let_def CheckpointsWidgetStateBuilder_def
        widgetStateBuilder_def new_layout_def fits_def split: if_splits)
  have scatter: "fits (MultiScatterStateBuilder title xs ys c)" for title xs ys c
    by (simp add: MultiScatterStateBuilder_def Let_def widgetStateBuilder_def new_layout_def fits_def)
  show "MultiScatterMetricParameterStateBuilder dims = Inr v \<Longrightarrow> fits v"
    unfolding MultiScatterMetricParameterStateBuilder_def Let_def
    by (elim promise_then.elims) (auto simp: scatter)
  show "fits (PCChartProjectStateBuilder dims)" "fits (RunTableStateBuilder title state)"
    by (simp_all add: PCChartProjectStateBuilder_def PCChartStateBuilder_def RunTableStateBuilder_def
        widgetStateBuilder_def new_layout_def fits_def)
qed

lemma map_filter_id_all:
  "list_all (\<lambda>x. case x of None \<Rightarrow> True | Some w \<Rightarrow> P w) ws \<Longrightarrow> list_all P (List.map_filter id ws)"
  by (induction ws) (auto simp: map_filter_simps split: option.splits)

definition tidy_dashboard :: "dashboard \<Rightarrow> bool" where
  "tidy_dashboard d =
     (case (db_widgets d, db_nextWidgetId d) of
        (Some ws, Some n) \<Rightarrow>
          n = length ws \<and> map fst ws = map nat_digits [0..<n] \<and>
          (\<forall>j < n. 0 \<le> w_x (snd (ws ! j)) \<and> w_right (snd (ws ! j)) \<le> 2 \<and>
             (\<forall>i < j. apart (snd (ws ! i)) (snd (ws ! j))))
      | _ \<Rightarrow> False)"

lemma activeDashboard_tidy:
  assumes "list_all (\<lambda>x. case x of None \<Rightarrow> True | Some w \<Rightarrow> fits w) ws"
  shows "tidy_dashboard (activeDashboardStateBuilder ws fm name)"
proof -
  let ?v = "List.map_filter id ws"
  have v: "list_all fits ?v" using map_filter_id_all [OF assms] .
  have within: "0 \<le> w_x (layout_widgets layout_start ?v ! j) \<and> w_right (layout_widgets layout_start ?v ! j) \<le> 2"
    if "j < length ?v" for j
    by (rule layout_widgets_within [OF v, of layout_start]) (use that in simp_all)
  have pairs: "apart (layout_widgets layout_start ?v ! i) (layout_widgets layout_start ?v ! j)"
    if "i < j" "j < length ?v" for i j
    by (rule layout_widgets_pairwise [OF v, of layout_start]) (use that in simp_all)
  show ?thesis
    using within pairs
    by (simp add: tidy_dashboard_def activeDashboardStateBuilder_def Let_def
        map_fst_dashboardLayoutBuilder nth_dashboardLayoutBuilder)
qed

lemma run_builder_Inr:
  assumes "run_builder b runs dims d = Inr d'"
  shows "tidy_dashboard d' \<and> db_filterModel d' = db_filterModel d \<and> db_builder d' = None"
proof -
  obtain v where v: "scatter_of_dims dims = Inr v"
    using assms by (cases b; cases "scatter_of_dims dims")
      (auto simp: run_builder_def defaultProjectDashboard_def defaultDashboard_def)
  then have fv: "fits v"
    by (auto simp: scatter_of_dims_def split: option.splits dest: default_widgets_fit(2))
  have fc: "case CheckpointDefaultStateBuilder runs of None \<Rightarrow> True | Some w \<Rightarrow> fits w"
    by (auto split: option.splits dest: default_widgets_fit(1))
  show ?thesis
  proof (cases b)
    case ProjectBuilder
    have "tidy_dashboard d'"
      using assms v fv fc default_widgets_fit(3,4)
      by (auto simp: ProjectBuilder run_builder_def defaultProjectDashboard_def intro!: activeDashboard_tidy)
    then show ?thesis using assms v
      by (auto simp: ProjectBuilder run_builder_def defaultProjectDashboard_def
          activeDashboardStateBuilder_def Let_def)
  next
    case DefaultBuilder
    have "tidy_dashboard d'"
      using assms v fv fc default_widgets_fit(3,4)
      by (auto simp: DefaultBuilder run_builder_def defaultDashboard_def intro!: activeDashboard_tidy)
    then show ?thesis using assms v
      by (auto simp: DefaultBuilder run_builder_def defaultDashboard_def
          activeDashboardStateBuilder_def Let_def)
  qed
qed

lemma createColorState_blind:
  "createColorState k (Some FIXED) (Some ''COLOR_BLIND_TEN'') =
   Inr \<lparr>cs_key = k, cs_gradientType = Some FIXED, cs_gradientKey = Some ''COLOR_BLIND_TEN''\<rparr>"
  by (simp add: createColorState_def Let_def key_text_def GRADIENTS_def COLOR_BLIND_TEN_def)

lemma scatter_ok: "\<exists>v. MultiScatterMetricParameterStateBuilder dims = Inr v"
  by (simp add: MultiScatterMetricParameterStateBuilder_def Let_def createColorState_blind
      split: option.split)

lemma run_builder_ok: "\<exists>d'. run_builder b runs (Some dims) d = Inr d'"
  using scatter_ok [of dims]
  by (cases b) (auto simp: run_builder_def defaultProjectDashboard_def defaultDashboard_def scatter_of_dims_def)

subsection \<open>The widgets of a dashboard\<close>

lemma with_widgets_Inr:
  assumes "with_widgets f s = Inr s'"
  obtains i d ws ws' where "ds_currentDashboardId s = Some i" "i < length (ds_dashboards s)"
    "d = ds_dashboards s ! i" "db_widgets d = Some ws" "f ws = Inr ws'"
    "s' = s\<lparr>ds_dashboards := (ds_dashboards s)[i := d\<lparr>db_widgets := Some ws'\<rparr>]\<rparr>"
  using assms
  by (auto simp: with_widgets_def current_dashboard_def split: option.splits if_splits sum.splits)

definition widgets_of :: "dashboards_state \<Rightarrow> (string \<times> widget) list" where
  "widgets_of s = (case current_dashboard s of None \<Rightarrow> [] | Some d \<Rightarrow> or_empty (db_widgets d))"

lemma with_widgets_widgets:
  assumes "with_widgets f s = Inr s'"
  shows "f (widgets_of s) = Inr (widgets_of s')" "ds_nextItemId s' = ds_nextItemId s"
  using assms
  by (auto simp: widgets_of_def current_dashboard_def elim!: with_widgets_Inr)

lemma addNewWidget_Inr:
  assumes "addNewWidget w s = Inr s'"
  shows "widgets_of s' = AList.update (item_key (ds_nextItemId s)) (top_left w)
      (map (\<lambda>(k, w). (k, shift_down w)) (widgets_of s))"
    and "ds_nextItemId s' = next_item (ds_nextItemId s)"
proof -
  let ?f = "\<lambda>ws. Inr (AList.update (item_key (ds_nextItemId s)) (top_left w)
      (map (\<lambda>(k, w). (k, shift_down w)) ws)) :: js_error + (string \<times> widget) list"
  obtain s1 where s1: "with_widgets ?f s = Inr s1" "s' = s1\<lparr>ds_nextItemId := next_item (ds_nextItemId s1)\<rparr>"
    using assms by (cases "with_widgets ?f s") (auto simp: addNewWidget_def)
  have "widgets_of s' = widgets_of s1" by (simp add: s1(2) widgets_of_def current_dashboard_def split: option.split)
  with with_widgets_widgets [OF s1(1)] s1(2)
  show "widgets_of s' = AList.update (item_key (ds_nextItemId s)) (top_left w)
      (map (\<lambda>(k, w). (k, shift_down w)) (widgets_of s))"
    "ds_nextItemId s' = next_item (ds_nextItemId s)" by simp_all
qed

subsection \<open>Added widgets\<close>

fun add_widgets :: "widget list \<Rightarrow> dashboards_state \<Rightarrow> js_error + dashboards_state" where
  "add_widgets [] s = Inr s"
| "add_widgets (w # ws) s = promise_then (addNewWidget w s) (add_widgets ws)"

lemma keys_update: "fst ` set (AList.update k v m) = insert k (fst ` set m)"
  by (induction m) auto

lemma keys_shift: "fst ` set (map (\<lambda>(k, w). (k, f w)) m) = fst ` set m"
  by (induction m) auto

lemma subset_insert_union: "A \<subseteq> B \<union> X \<Longrightarrow> B = insert k C \<Longrightarrow> k \<in> X \<Longrightarrow> A \<subseteq> C \<union> X"
  by blast

lemma add_widgets_keys:
  assumes "add_widgets ws s = Inr s'" "ds_nextItemId s \<in> {UndefinedId, NaNId}"
  shows "fst ` set (widgets_of s') \<subseteq> fst ` set (widgets_of s) \<union> {''undefined'', ''NaN''}"
  using assms
proof (induction ws arbitrary: s)
  case (Cons w ws)
  then obtain s1 where s1: "addNewWidget w s = Inr s1" "add_widgets ws s1 = Inr s'"
    by (cases "addNewWidget w s") auto
  note new = addNewWidget_Inr [OF s1(1)]
  have "ds_nextItemId s1 \<in> {UndefinedId, NaNId}"
    using Cons.prems(2) by (auto simp: new next_item_def)
  note IH = Cons.IH [OF s1(2) this]
  have "fst ` set (widgets_of s1) = insert (item_key (ds_nextItemId s)) (fst ` set (widgets_of s))"
    unfolding new(1) keys_update keys_shift by (rule refl)
  moreover have "item_key (ds_nextItemId s) \<in> {''undefined'', ''NaN''}"
    using Cons.prems(2) by (auto simp: item_key_def)
  ultimately show ?case by (rule subset_insert_union [OF IH])
qed auto

lemma add_widgets_append:
  "add_widgets (us @ vs) s = promise_then (add_widgets us s) (add_widgets vs)"
proof (induction us arbitrary: s)
  case (Cons u us)
  show ?case using Cons.IH by (cases "addNewWidget u s") simp_all
qed simp

lemma add_widgets_item:
  "add_widgets ws s = Inr s' \<Longrightarrow> ds_nextItemId s \<in> {UndefinedId, NaNId} \<Longrightarrow> ws \<noteq> [] \<Longrightarrow> ds_nextItemId s' = NaNId"
proof (induction ws arbitrary: s)
  case (Cons w ws)
  then obtain s1 where s1: "addNewWidget w s = Inr s1" "add_widgets ws s1 = Inr s'"
    by (cases "addNewWidget w s") auto
  have "ds_nextItemId s1 = NaNId"
    using Cons.prems(2) by (auto simp: addNewWidget_Inr(2) [OF s1(1)] next_item_def)
  with Cons.IH [OF s1(2)] s1(2) show ?case by (cases ws) auto
qed simp

subsection \<open>Default dashboards\<close>

definition filter_accepted :: "filter_model \<Rightarrow> bool" where
  "filter_accepted f =
     (case fm_key f of None \<Rightarrow> True | Some key \<Rightarrow> key \<in> set [[], ''experiment'', ''model.type''])"

lemma filtered_runs_accepted:
  "filter_accepted f \<Longrightarrow> filtered_runs (Val f) runs = Inr (filter (matches_filter (Val f)) runs)"
  by (auto simp: filter_accepted_def filtered_runs_def matches_filter_def intro!: filter_cong
      split: option.splits)

lemma default_dashboards:
  "set (ds_dashboards (createDefaultDashboards runs s)) =
   {createDefaultProjectDashboard}
   \<union> createDefaultModelDashboard ` {t \<in> model_type_of ` set runs. truthy t}
   \<union> createDefaultExperimentDashboard ` {e \<in> run_experiment ` set runs. truthy e}"
  by (auto simp: createDefaultDashboards_def Let_def)

lemma dashboard_filters [simp]:
  "db_filterModel createDefaultProjectDashboard = \<lparr>fm_key = None, fm_value = JUndef\<rparr>"
  "db_filterModel (createDefaultModelDashboard t) = \<lparr>fm_key = Some ''model.type'', fm_value = t\<rparr>"
  "db_filterModel (createDefaultExperimentDashboard e) = \<lparr>fm_key = Some ''experiment'', fm_value = e\<rparr>"
  by (simp_all add: createDefaultProjectDashboard_def createDefaultModelDashboard_def
      createDefaultExperimentDashboard_def lazyCreatedDashboardBuilder_def)

lemma truthy_model_type:
  "truthy (model_type_of run) \<Longrightarrow> truthy (run_model run) \<and> model_type_of run = js_prop (run_model run) ''type''"
  by (auto simp: model_type_of_def split: if_splits)

lemma default_dashboard_nonempty:
  assumes "d \<in> set (ds_dashboards (createDefaultDashboards runs s))" "runs \<noteq> []"
  shows "filter_accepted (db_filterModel d) \<and> filter (matches_filter (Val (db_filterModel d))) runs \<noteq> []"
proof -
  consider "d = createDefaultProjectDashboard"
    | r where "r \<in> set runs" "truthy (model_type_of r)" "d = createDefaultModelDashboard (model_type_of r)"
    | r where "r \<in> set runs" "truthy (run_experiment r)" "d = createDefaultExperimentDashboard (run_experiment r)"
    using assms(1) by (auto simp: default_dashboards)
  then show ?thesis
  proof cases
    case 1
    with assms(2) show ?thesis by (simp add: filter_accepted_def matches_filter_def)
  next
    case 2
    then show ?thesis using truthy_model_type [OF 2(2)]
      by (auto simp: filter_accepted_def matches_filter_def filter_empty_conv)
  next
    case 3
    then show ?thesis by (auto simp: filter_accepted_def matches_filter_def filter_empty_conv)
  qed
qed

lemma length_filter_unique:
  "distinct xs \<Longrightarrow> x \<in> set xs \<Longrightarrow> length (filter (\<lambda>y. y = x) xs) = 1"
  by (induction xs) (auto simp: filter_empty_conv)

lemma experiment_dashboard_unique:
  assumes "r \<in> set runs" "truthy (run_experiment r)"
  shows "length (filter (\<lambda>d. db_filterModel d = \<lparr>fm_key = Some ''experiment'', fm_value = run_experiment r\<rparr>)
      (ds_dashboards (createDefaultDashboards runs s))) = 1"
proof -
  let ?es = "filter truthy (first_occurrences (map run_experiment runs))"
  have "length (filter (\<lambda>e. e = run_experiment r) ?es) = 1"
    by (rule length_filter_unique) (use assms in simp_all)
  then show ?thesis by (simp add: createDefaultDashboards_def Let_def filter_map comp_def)
qed

subsection \<open>The page settles\<close>

definition no_declared_categorical :: "runs_state \<Rightarrow> bool" where
  "no_declared_categorical S = (\<not> list_ex declared_categorical (or_empty (st_definedFields S)))"

lemma rebuild_dimensions_ok:
  assumes "no_declared_categorical S"
  shows "\<exists>S'. rebuild_dimensions get rs S = Inr S' \<and> st_dimensions S' \<noteq> None"
proof -
  have "\<exists>C. createDimensionsFromRuns get run_id (or_empty (st_definedFields S)) rs = Inr C"
    using assms by (auto simp: createDimensions_ok_iff no_declared_categorical_def list_ex_iff)
  then show ?thesis by (auto simp: rebuild_dimensions_def)
qed

lemma changeFilterModel_ok:
  assumes "no_declared_categorical S" "filtered_runs m (or_empty (st_allRuns S)) = Inr rs"
  shows "\<exists>S'. changeFilterModel get m S = Inr S' \<and> st_dimensions S' \<noteq> None \<and> st_filterModel S' = m
    \<and> or_empty (st_runs S') = rs \<and> st_allRuns S' = st_allRuns S \<and> st_definedFields S' = st_definedFields S"
proof -
  let ?S1 = "S\<lparr>st_runs := (if filter_by_key m then Some rs else st_allRuns S)\<rparr>"
  have runs: "or_empty (st_runs ?S1) = rs"
    using assms(2)
    by (auto simp: filter_by_key_def filtered_runs_def split: option.splits jsopt.splits if_splits)
  have "no_declared_categorical ?S1" using assms(1) by (simp add: no_declared_categorical_def)
  from rebuild_dimensions_ok [OF this, of get rs] obtain S2
    where S2: "rebuild_dimensions get rs ?S1 = Inr S2" "st_dimensions S2 \<noteq> None" by (elim exE conjE)
  have "changeFilterModel get m S = Inr (S2\<lparr>st_filterModel := m\<rparr>)"
    using assms(2) S2(1) runs by (simp add: changeFilterModel_def Let_def)
  moreover have "or_empty (st_runs S2) = rs" "st_allRuns S2 = st_allRuns S"
    "st_definedFields S2 = st_definedFields S"
    using rebuild_dimensions_frame [OF S2(1)] runs by simp_all
  ultimately show ?thesis using S2(2) by simp
qed

abbreviation own_runs :: "page_state \<Rightarrow> project_run list option" where
  "own_runs p \<equiv> st_allRuns (pg_runs p)"

lemma current_dashboard_nonempty: "current_dashboard D = Some d \<Longrightarrow> ds_dashboards D \<noteq> []"
  by (auto simp: current_dashboard_def split: option.splits if_splits)

text \<open>One update with a selected dashboard.\<close>

lemma page_update_filter:
  assumes "current_dashboard (pg_dashboards p) = Some d" "st_filterModel (pg_runs p) \<noteq> Val (db_filterModel d)"
  shows "page_update (own_runs p) p = [ChangeFilter (Val (db_filterModel d))]"
  using assms not_sym [OF assms(2)] current_dashboard_nonempty [OF assms(1)]
  by (simp add: page_update_def Let_def)

lemma page_update_build:
  assumes "current_dashboard (pg_dashboards p) = Some d" "st_filterModel (pg_runs p) = Val (db_filterModel d)"
  shows "page_update (own_runs p) p =
    (if db_builder d = None then []
     else [BuildDashboard (or_empty (st_runs (pg_runs p))) (st_dimensions (pg_runs p))
             (ds_currentDashboardId (pg_dashboards p))])"
  using assms current_dashboard_nonempty [OF assms(1)]
  by (simp add: page_update_def Let_def)

lemma page_step_filter:
  assumes "current_dashboard (pg_dashboards p) = Some d" "st_filterModel (pg_runs p) \<noteq> Val (db_filterModel d)"
    and "no_declared_categorical (pg_runs p)" "filter_accepted (db_filterModel d)"
  shows "\<exists>S. page_step get (own_runs p) p = p\<lparr>pg_runs := S\<rparr> \<and> st_filterModel S = Val (db_filterModel d)
    \<and> st_dimensions S \<noteq> None \<and> st_allRuns S = own_runs p
    \<and> or_empty (st_runs S) = filter (matches_filter (Val (db_filterModel d))) (or_empty (own_runs p))"
proof -
  from changeFilterModel_ok [OF assms(3) filtered_runs_accepted [OF assms(4)], of get] obtain S
    where S: "changeFilterModel get (Val (db_filterModel d)) (pg_runs p) = Inr S"
      "st_dimensions S \<noteq> None" "st_filterModel S = Val (db_filterModel d)" "st_allRuns S = own_runs p"
      "or_empty (st_runs S) = filter (matches_filter (Val (db_filterModel d))) (or_empty (own_runs p))"
    by (elim exE conjE)
  have "page_step get (own_runs p) p = p\<lparr>pg_runs := S\<rparr>"
    unfolding page_step_def page_update_filter [OF assms(1,2)] by (simp add: S(1))
  with S show ?thesis by (intro exI conjI)
qed

lemma page_step_build:
  assumes "current_dashboard (pg_dashboards p) = Some d" "st_filterModel (pg_runs p) = Val (db_filterModel d)"
    and "st_dimensions (pg_runs p) \<noteq> None"
  shows "\<exists>d'. current_dashboard (pg_dashboards (page_step get (own_runs p) p)) = Some d' \<and>
    pg_runs (page_step get (own_runs p) p) = pg_runs p \<and>
    db_builder d' = None \<and> db_filterModel d' = db_filterModel d \<and>
    (if db_builder d = None then d' = d else tidy_dashboard d')"
proof (cases "db_builder d")
  case None
  have "page_step get (own_runs p) p = p"
    unfolding page_step_def page_update_build [OF assms(1,2)] by (simp add: None)
  with assms(1) None show ?thesis by simp
next
  case (Some b)
  obtain dims where dims: "st_dimensions (pg_runs p) = Some dims" using assms(3) by auto
  obtain i where i: "ds_currentDashboardId (pg_dashboards p) = Some i"
    "i < length (ds_dashboards (pg_dashboards p))"
    using assms(1) by (auto simp: current_dashboard_def split: option.splits if_splits)
  obtain d' where d': "run_builder b (or_empty (st_runs (pg_runs p))) (Some dims) d = Inr d'"
    using run_builder_ok by metis
  have step: "page_step get (own_runs p) p =
      p\<lparr>pg_dashboards := (pg_dashboards p)\<lparr>ds_dashboards := (ds_dashboards (pg_dashboards p))[i := d']\<rparr>\<rparr>"
    unfolding page_step_def page_update_build [OF assms(1,2)]
    using assms(1) by (simp add: Some buildDashboard_def i(1) dims d')
  have "current_dashboard (pg_dashboards (page_step get (own_runs p) p)) = Some d'"
    unfolding step using i by (simp add: current_dashboard_def)
  moreover have "pg_runs (page_step get (own_runs p) p) = pg_runs p" by (simp add: step)
  ultimately show ?thesis using run_builder_Inr [OF d'] Some by simp
qed

definition page_settled :: "page_state \<Rightarrow> bool" where
  "page_settled p = (page_update (own_runs p) p = [])"

fun page_steps :: "run_getter \<Rightarrow> nat \<Rightarrow> page_state \<Rightarrow> page_state" where
  "page_steps get 0 p = p"
| "page_steps get (Suc n) p = page_steps get n (page_step get (own_runs p) p)"

lemma page_settles:
  assumes "current_dashboard (pg_dashboards p) = Some d" "no_declared_categorical (pg_runs p)"
    and "filter_accepted (db_filterModel d)"
    and "st_filterModel (pg_runs p) \<noteq> Val (db_filterModel d)"
  shows "\<exists>d'. current_dashboard (pg_dashboards (page_steps get 2 p)) = Some d' \<and>
    page_settled (page_steps get 2 p) \<and> db_filterModel d' = db_filterModel d \<and>
    (if db_builder d = None then d' = d else tidy_dashboard d') \<and>
    or_empty (st_runs (pg_runs (page_steps get 2 p))) =
      filter (matches_filter (Val (db_filterModel d))) (or_empty (own_runs p))"
proof -
  from page_step_filter [OF assms(1,4,2,3), of get] obtain S
    where S: "page_step get (own_runs p) p = p\<lparr>pg_runs := S\<rparr>" "st_filterModel S = Val (db_filterModel d)"
      "st_dimensions S \<noteq> None" "st_allRuns S = own_runs p"
      "or_empty (st_runs S) = filter (matches_filter (Val (db_filterModel d))) (or_empty (own_runs p))"
    by (elim exE conjE)
  let ?q = "p\<lparr>pg_runs := S\<rparr>"
  have q: "current_dashboard (pg_dashboards ?q) = Some d" "st_filterModel (pg_runs ?q) = Val (db_filterModel d)"
    "st_dimensions (pg_runs ?q) \<noteq> None" using assms(1) S by simp_all
  let ?r = "page_step get (own_runs ?q) ?q"
  have r: "page_steps get 2 p = ?r" by (simp add: numeral_2_eq_2 S(1))
  from page_step_build [OF q, of get] obtain d'
    where d': "current_dashboard (pg_dashboards ?r) = Some d'" "pg_runs ?r = S" "db_builder d' = None"
      "db_filterModel d' = db_filterModel d" "if db_builder d = None then d' = d else tidy_dashboard d'"
    by (metis page_state.select_convs(2) page_state.surjective page_state.update_convs(2))
  have "st_filterModel (pg_runs ?r) = Val (db_filterModel d')" using d' S by simp
  from page_update_build [OF d'(1) this] d'(3) have "page_settled ?r"
    by (simp add: page_settled_def)
  with d' S(5) show ?thesis unfolding r by (intro exI conjI) simp_all
qed

definition page_loaded ::
  "project_run list \<Rightarrow> defined_field list \<Rightarrow> (string \<times> jsobj) list option \<Rightarrow> page_state" where
  "page_loaded runs fs tags =
     \<lparr>pg_dashboards = dashboardsInitialState, pg_runs = getRunsSuccess runs fs tags initialDimensionsSlice\<rparr>"

lemma filter_all: "matches_filter (Val \<lparr>fm_key = None, fm_value = v\<rparr>) = (\<lambda>_. True)"
  by (simp add: matches_filter_def fun_eq_iff)

lemma first_load_settles:
  assumes "runs \<noteq> []" "\<not> list_ex declared_categorical fs"
  shows "\<exists>d. current_dashboard (pg_dashboards (page_steps get 3 (page_loaded runs fs tags))) = Some d \<and>
    page_settled (page_steps get 3 (page_loaded runs fs tags)) \<and> tidy_dashboard d \<and>
    or_empty (st_runs (pg_runs (page_steps get 3 (page_loaded runs fs tags)))) = runs"
proof -
  let ?p = "page_loaded runs fs tags"
  let ?S = "pg_runs ?p"
  have S: "or_empty (st_allRuns ?S) = runs" "st_filterModel ?S = Null" "no_declared_categorical ?S"
    using assms(2)
    by (simp_all add: page_loaded_def getRunsSuccess_def initialDimensionsSlice_def no_declared_categorical_def)
  have none: "current_dashboard dashboardsInitialState = None"
    "ds_dashboards dashboardsInitialState = []" "ds_currentDashboardId dashboardsInitialState = None"
    by (simp_all add: current_dashboard_def dashboardsInitialState_def)
  have dash: "pg_dashboards ?p = dashboardsInitialState" by (simp add: page_loaded_def)
  have update: "page_update (own_runs ?p) ?p = [CreateDefaultDashboards runs, ChangeFilter Undefined]"
    using assms(1) S by (simp add: page_update_def Let_def dash none)
  have "filtered_runs Undefined (or_empty (st_allRuns ?S)) = Inr runs" by (simp add: filtered_runs_def S)
  from changeFilterModel_ok [OF S(3) this, of get] obtain S1
    where S1: "changeFilterModel get Undefined ?S = Inr S1" "st_filterModel S1 = Undefined"
      "st_allRuns S1 = st_allRuns ?S" "st_definedFields S1 = st_definedFields ?S" by (elim exE conjE)
  let ?D = "createDefaultDashboards runs dashboardsInitialState"
  let ?q = "\<lparr>pg_dashboards = ?D, pg_runs = S1\<rparr>"
  have step: "page_step get (own_runs ?p) ?p = ?q"
    unfolding page_step_def update using S1(1) by (simp add: dash page_loaded_def)
  have cur: "current_dashboard (pg_dashboards ?q) = Some createDefaultProjectDashboard"
    by (simp add: current_dashboard_def createDefaultDashboards_def Let_def)
  have ok: "no_declared_categorical (pg_runs ?q)"
    using S(3) S1(4) by (simp add: no_declared_categorical_def)
  have acc: "filter_accepted (db_filterModel createDefaultProjectDashboard)" by (simp add: filter_accepted_def)
  have "st_filterModel (pg_runs ?q) \<noteq> Val (db_filterModel createDefaultProjectDashboard)"
    by (simp add: S1(2))
  from page_settles [OF cur ok acc this, of get] obtain d
    where d: "current_dashboard (pg_dashboards (page_steps get 2 ?q)) = Some d"
      "page_settled (page_steps get 2 ?q)"
      "if db_builder createDefaultProjectDashboard = None then d = createDefaultProjectDashboard else tidy_dashboard d"
      "or_empty (st_runs (pg_runs (page_steps get 2 ?q))) =
        filter (matches_filter (Val (db_filterModel createDefaultProjectDashboard))) (or_empty (own_runs ?q))"
    by (elim exE conjE)
  have "tidy_dashboard d"
    using d(3) by (simp add: createDefaultProjectDashboard_def lazyCreatedDashboardBuilder_def)
  moreover have "or_empty (st_runs (pg_runs (page_steps get 2 ?q))) = runs"
    using d(4) S(1) S1(3) by (simp add: filter_all)
  moreover have "page_steps get 3 ?p = page_steps get 2 ?q"
    by (simp add: numeral_3_eq_3 numeral_2_eq_2 step)
  ultimately show ?thesis using d(1,2) by auto
qed

lemma refresh_frame:
  assumes "current_dashboard (pg_dashboards p) = Some d" "page_settled p"
    and q_def: "q = p\<lparr>pg_runs := getRunsSuccess runs fs tags (pg_runs p)\<rparr>"
  shows "page_update (own_runs p) q = (if Some runs = own_runs p then [] else [FetchCheckpoints])"
    "st_runs (pg_runs q) = st_runs (pg_runs p)" "st_dimensions (pg_runs q) = st_dimensions (pg_runs p)"
proof -
  have ne: "ds_dashboards (pg_dashboards p) \<noteq> []" by (rule current_dashboard_nonempty [OF assms(1)])
  have "st_filterModel (pg_runs p) = Val (db_filterModel d)"
    using page_update_filter [OF assms(1)] assms(2) by (auto simp: page_settled_def)
  moreover from page_update_build [OF assms(1) this] assms(2) have "db_builder d = None"
    by (simp add: page_settled_def split: if_splits)
  ultimately show "page_update (own_runs p) q = (if Some runs = own_runs p then [] else [FetchCheckpoints])"
    using assms(1) ne by (simp add: page_update_def Let_def q_def getRunsSuccess_def)
  show "st_runs (pg_runs q) = st_runs (pg_runs p)" "st_dimensions (pg_runs q) = st_dimensions (pg_runs p)"
    using getRunsSuccess_frame by (simp_all add: q_def)
qed

subsection \<open>The properties\<close>

text \<open>A dashboard that its builder makes keeps the filter, is not lazy any more, and its widgets
  have the keys 0, 1, ... and lie within the two columns of the grid without any two of them
  overlapping; the next widget id it records is not in use.\<close>

theorem built_dashboard_tidy:
  assumes "run_builder b runs dims d = Inr d'"
  shows "tidy_dashboard d' \<and> db_filterModel d' = db_filterModel d \<and> db_builder d' = None"
  using assms by (rule run_builder_Inr)

lemma built_dashboard_tidy_witness:
  "\<exists>d'. run_builder ProjectBuilder sample_runs (Some []) createDefaultProjectDashboard = Inr d' \<and> tidy_dashboard d'"
  using run_builder_ok [of ProjectBuilder sample_runs "[]" createDefaultProjectDashboard]
    built_dashboard_tidy [of ProjectBuilder sample_runs "Some []" createDefaultProjectDashboard]
  by (elim exE) blast

text \<open>Widgets added to a dashboard are filed under the keys undefined and NaN only, because the
  counter the slice reads is never initialised: after two or more additions every later widget
  replaces the one before, and the counter is stuck.\<close>

theorem added_widgets_replace_each_other:
  assumes "add_widgets (ws @ [v, w]) s = Inr s'" and "ds_nextItemId s \<in> {UndefinedId, NaNId}"
  shows "fst ` set (widgets_of s') \<subseteq> fst ` set (widgets_of s) \<union> {''undefined'', ''NaN''} \<and>
    map_of (widgets_of s') ''NaN'' = Some (top_left w) \<and> ds_nextItemId s' = NaNId"
proof -
  have "add_widgets ((ws @ [v]) @ [w]) s = Inr s'" using assms(1) by simp
  then obtain s1 where s1: "add_widgets (ws @ [v]) s = Inr s1" "add_widgets [w] s1 = Inr s'"
    unfolding add_widgets_append [of "ws @ [v]"] by (cases "add_widgets (ws @ [v]) s") simp_all
  have item: "ds_nextItemId s1 = NaNId" by (rule add_widgets_item [OF s1(1) assms(2)]) simp
  have new: "addNewWidget w s1 = Inr s'" using s1(2) by (cases "addNewWidget w s1") simp_all
  have "map_of (widgets_of s') ''NaN'' = Some (top_left w)"
    by (simp add: addNewWidget_Inr(1) [OF new] item item_key_def update_conv')
  moreover have "ds_nextItemId s' = NaNId" by (simp add: addNewWidget_Inr(2) [OF new] item next_item_def)
  ultimately show ?thesis using add_widgets_keys [OF assms] by simp
qed

definition three_widgets :: "widget list" where
  "three_widgets = map RunInfoStateBuilder [''a'', ''b'', ''c'']"

definition empty_dashboard :: dashboards_state where
  "empty_dashboard =
     dashboardsInitialState
       \<lparr>ds_dashboards := [activeDashboardStateBuilder [] \<lparr>fm_key = None, fm_value = JUndef\<rparr> ''d''],
        ds_currentDashboardId := Some 0\<rparr>"

lemma added_widgets_replace_each_other_witness:
  "\<exists>s'. add_widgets three_widgets empty_dashboard = Inr s' \<and>
    map_of (widgets_of s') ''NaN'' = Some (top_left (RunInfoStateBuilder ''c''))"
proof -
  have "case add_widgets three_widgets empty_dashboard of Inl e \<Rightarrow> False | Inr s' \<Rightarrow> True" by code_simp
  then obtain s' where s': "add_widgets three_widgets empty_dashboard = Inr s'" by (auto split: sum.splits)
  have "add_widgets ([RunInfoStateBuilder ''a''] @ [RunInfoStateBuilder ''b'', RunInfoStateBuilder ''c''])
      empty_dashboard = Inr s'" using s' by (simp add: three_widgets_def)
  from added_widgets_replace_each_other [OF this] s' show ?thesis
    by (simp add: empty_dashboard_def dashboardsInitialState_def)
qed

text \<open>The default dashboards suit the runs they are made from: the store accepts the filter of
  each of them, each shows at least one run, and every experiment with a run has exactly one.\<close>

theorem default_dashboards_show_runs:
  assumes "runs \<noteq> []" and "d \<in> set (ds_dashboards (createDefaultDashboards runs s))"
    and "r \<in> set runs" and "truthy (run_experiment r)"
  shows "filtered_runs (Val (db_filterModel d)) runs = Inr (filter (matches_filter (Val (db_filterModel d))) runs) \<and>
    filter (matches_filter (Val (db_filterModel d))) runs \<noteq> [] \<and>
    length (filter (\<lambda>d. db_filterModel d = \<lparr>fm_key = Some ''experiment'', fm_value = run_experiment r\<rparr>)
      (ds_dashboards (createDefaultDashboards runs s))) = 1"
  using default_dashboard_nonempty [OF assms(2,1)] filtered_runs_accepted
    experiment_dashboard_unique [OF assms(3,4)] by blast

lemma default_dashboards_show_runs_witness:
  "filter (matches_filter (Val (db_filterModel createDefaultProjectDashboard))) sample_runs \<noteq> [] \<and>
   length (filter (\<lambda>d. db_filterModel d = \<lparr>fm_key = Some ''experiment'', fm_value = JStr ''2''\<rparr>)
      (ds_dashboards (createDefaultDashboards sample_runs dashboardsInitialState))) = 1"
  using default_dashboards_show_runs [of sample_runs createDefaultProjectDashboard dashboardsInitialState
      "sample_run ''9'' (JStr ''2'') 2 5"]
  by (simp add: sample_runs_def sample_run_def default_dashboards)

text \<open>C24: When a dashboard with another filter is selected, the page settles after two updates: the
  store shows exactly the matching runs, the dashboard is shown - built with a tidy layout if it
  was lazy - and nothing more is dispatched.\<close>

theorem selected_dashboard_settles:
  assumes "current_dashboard (pg_dashboards p) = Some d" and "no_declared_categorical (pg_runs p)"
    and "filter_accepted (db_filterModel d)"
    and "st_filterModel (pg_runs p) \<noteq> Val (db_filterModel d)"
  shows "\<exists>d'. current_dashboard (pg_dashboards (page_steps get 2 p)) = Some d' \<and>
    page_settled (page_steps get 2 p) \<and> db_filterModel d' = db_filterModel d \<and>
    (if db_builder d = None then d' = d else tidy_dashboard d') \<and>
    or_empty (st_runs (pg_runs (page_steps get 2 p))) =
      filter (matches_filter (Val (db_filterModel d))) (or_empty (own_runs p))"
  using assms by (rule page_settles)

lemma selected_dashboard_settles_witness:
  "page_settled (page_steps sample_get 2
     \<lparr>pg_dashboards = createDefaultDashboards sample_runs dashboardsInitialState, pg_runs = loaded_state\<rparr>)"
proof -
  let ?p = "\<lparr>pg_dashboards = createDefaultDashboards sample_runs dashboardsInitialState, pg_runs = loaded_state\<rparr>"
  have cur: "current_dashboard (pg_dashboards ?p) = Some createDefaultProjectDashboard"
    by (simp add: current_dashboard_def createDefaultDashboards_def Let_def)
  have "no_declared_categorical loaded_state" "st_filterModel loaded_state = Null" by code_simp+
  with selected_dashboard_settles [OF cur, of sample_get] show ?thesis
    by (auto simp: filter_accepted_def)
qed

text \<open>After the runs of a project have been fetched for the first time, three updates bring the
  page to its project dashboard, built and settled, over all the runs.\<close>

theorem first_load_shows_all_runs:
  assumes "runs \<noteq> []" and "\<not> list_ex declared_categorical fs"
  shows "\<exists>d. current_dashboard (pg_dashboards (page_steps get 3 (page_loaded runs fs tags))) = Some d \<and>
    page_settled (page_steps get 3 (page_loaded runs fs tags)) \<and> tidy_dashboard d \<and>
    or_empty (st_runs (pg_runs (page_steps get 3 (page_loaded runs fs tags)))) = runs"
  using assms by (rule first_load_settles)

lemma sample_fields_ok: "\<not> list_ex declared_categorical sample_fields"
  by code_simp

lemma first_load_shows_all_runs_witness:
  "page_settled (page_steps sample_get 3 (page_loaded sample_runs sample_fields None))"
  using first_load_shows_all_runs [of sample_runs sample_fields sample_get None] sample_fields_ok
  by (auto simp: sample_runs_def)

text \<open>The refresh button fetches the runs anew, but a settled page goes on showing the runs and
  dimensions of the fetch before: the filter of the store is still that of the dashboard, so the
  page only fetches the checkpoints.\<close>

theorem refresh_keeps_old_runs:
  assumes "current_dashboard (pg_dashboards p) = Some d" and "page_settled p"
    and "q = p\<lparr>pg_runs := getRunsSuccess runs fs tags (pg_runs p)\<rparr>"
  shows "page_update (own_runs p) q = (if Some runs = own_runs p then [] else [FetchCheckpoints]) \<and>
    st_runs (pg_runs q) = st_runs (pg_runs p) \<and> st_dimensions (pg_runs q) = st_dimensions (pg_runs p)"
  using refresh_frame [OF assms] by (intro conjI)

lemma refresh_keeps_old_runs_witness:
  "st_runs (getRunsSuccess [] sample_fields None
      (pg_runs (page_steps sample_get 3 (page_loaded sample_runs sample_fields None)))) =
   st_runs (pg_runs (page_steps sample_get 3 (page_loaded sample_runs sample_fields None)))"
proof -
  let ?p = "page_steps sample_get 3 (page_loaded sample_runs sample_fields None)"
  have "sample_runs \<noteq> []" by (simp add: sample_runs_def)
  from first_load_settles [OF this sample_fields_ok, of sample_get None] obtain d
    where "current_dashboard (pg_dashboards ?p) = Some d" "page_settled ?p" by (elim exE conjE)
  from refresh_keeps_old_runs [OF this refl, of "[]" sample_fields None] show ?thesis by simp
qed

end
