(* ===== verification/Alerts.thy ===== *)
theory Alerts
  imports Utils
begin

section \<open>Alerts, errors shown to the user, and modals: web/js/alert, web/js/component/modal\<close>

text \<open>
  An alert goes to the handler on top of a stack the broker keeps: the default handler of the page
  at the bottom, above it the handlers of the pages and modals that want to show alerts
  themselves. \<open>ErrorNotifier.cleanupError\<close> shows an error nobody has handled. A modal puts its
  handler on the stack when it is shown and takes it off when it is hidden.
\<close>

subsection \<open>Alerts and network errors\<close>

text \<open>
  An object that can be thrown or shown. Objects are told apart by a number; whether an alert has
  been handled is part of the state. The fields are those the code reads: a missing one is
  \<open>undefined\<close>, \<open>al_readyState\<close> is \<open>None\<close> without a \<open>jqXhr\<close>.
\<close>

record alert_object =
  al_id :: nat
  al_is_alert :: bool
  al_type :: jsval
  al_message :: jsval
  al_exception :: jsval
  al_status :: jsval
  al_readyState :: "rat option"
  al_tokenStatus :: jsval
  al_fields :: jsobj

text \<open>What a handler is given: an object, an alert made by \<open>show\<close>, or \<open>null\<close> to clear.\<close>

datatype lert = ObjectAlert alert_object | ShownAlert jsval string | NoAlert

definition alert_message :: "jsval \<Rightarrow> jsval \<Rightarrow> jsval" where
  "alert_message message htmlMessage = (if truthy message then message else htmlMessage)"

record jq_xhr =
  xhr_json :: "jsval option"
  xhr_readyState :: rat
  xhr_status :: jsval
  xhr_statusText :: jsval

text \<open>
  \<open>constructFromAjaxResponse\<close>: \<open>xhr_json\<close> is the body read by \<open>JSON.parse\<close>, \<open>None\<close> if that
  throws. A body that reads as \<open>null\<close> has no properties to read.
\<close>

definition response_json :: "jq_xhr \<Rightarrow> string \<Rightarrow> jsval" where
  "response_json xhr path =
     (case xhr_json xhr of
        Some v \<Rightarrow> v
      | None \<Rightarrow>
          if xhr_readyState xhr = 0 then JObj [(''message'', JStr (''Request failed: '' @ path))]
          else JObj [(''message'', if truthy (xhr_statusText xhr) then xhr_statusText xhr
                                   else JStr ''Server error'')])"

definition constructFromAjaxResponse :: "nat \<Rightarrow> jq_xhr \<Rightarrow> string \<Rightarrow> js_error + alert_object" where
  "constructFromAjaxResponse obj_id xhr path =
     (let responseJson = response_json xhr path in
      if isUndefinedOrNull responseJson then Inl TypeError
      else Inr \<lparr>al_id = obj_id, al_is_alert = True, al_type = JStr ''danger'',
                al_message = alert_message (js_prop responseJson ''message'') JUndef,
                al_exception = JNull, al_status = xhr_status xhr,
                al_readyState = Some (xhr_readyState xhr),
                al_tokenStatus = js_prop responseJson ''token_status'', al_fields = []\<rparr>)"

subsection \<open>The broker\<close>

text \<open>\<open>UndefinedHandler\<close> is the missing handler of a modal that is given none.\<close>

datatype handler = DefaultHandler | PageHandler nat | ModalHandler nat | UndefinedHandler

record alert_state =
  as_queue :: "handler list"
  as_handled :: "nat set"
  as_log :: "(handler \<times> lert) list"

definition newAlertBroker :: alert_state where
  "newAlertBroker = \<lparr>as_queue = [DefaultHandler], as_handled = {}, as_log = []\<rparr>"

definition mark_handled :: "lert \<Rightarrow> nat set \<Rightarrow> nat set" where
  "mark_handled l ids = (case l of ObjectAlert e \<Rightarrow> insert (al_id e) ids | _ \<Rightarrow> ids)"

text \<open>The call of \<open>undefined\<close> throws: with an empty stack, or a modal without a handler on top.\<close>

definition taken_by :: "handler \<Rightarrow> lert \<Rightarrow> alert_state \<Rightarrow> alert_state" where
  "taken_by h l s = s\<lparr>as_log := as_log s @ [(h, l)], as_handled := mark_handled l (as_handled s)\<rparr>"

definition broker_handle :: "lert \<Rightarrow> alert_state \<Rightarrow> js_error + alert_state" where
  "broker_handle l s =
     (case as_queue s of
        [] \<Rightarrow> Inl TypeError
      | h # hs \<Rightarrow> if h = UndefinedHandler then Inl TypeError else Inr (taken_by h l s))"

definition hasRegisteredHandler :: "handler \<Rightarrow> alert_state \<Rightarrow> bool" where
  "hasRegisteredHandler h s = (case as_queue s of [] \<Rightarrow> False | h' # hs \<Rightarrow> h' = h)"

definition registerHandler :: "handler \<Rightarrow> alert_state \<Rightarrow> alert_state" where
  "registerHandler h s = s\<lparr>as_queue := h # as_queue s\<rparr>"

definition releaseHandler :: "handler \<Rightarrow> alert_state \<Rightarrow> alert_state" where
  "releaseHandler h s = (if hasRegisteredHandler h s then s\<lparr>as_queue := tl (as_queue s)\<rparr> else s)"

definition clearAlerts :: "alert_state \<Rightarrow> js_error + alert_state" where
  "clearAlerts s = broker_handle NoAlert s"

definition broker_show :: "jsval \<Rightarrow> string \<Rightarrow> alert_state \<Rightarrow> js_error + alert_state" where
  "broker_show message type s = broker_handle (ShownAlert message type) s"

definition broker_info :: "jsval \<Rightarrow> alert_state \<Rightarrow> js_error + alert_state" where
  "broker_info message s = broker_show message ''info'' s"

text \<open>The error handlers that expect some statuses: the promise they return, and the state.\<close>

definition errorHandlerThatExpectsStatus ::
  "jsval list \<Rightarrow> alert_object option \<Rightarrow> alert_state \<Rightarrow>
   (alert_object option, unit) promise \<times> alert_state" where
  "errorHandlerThatExpectsStatus statuses e s =
     (case e of
        None \<Rightarrow> (Inl e, s)
      | Some err \<Rightarrow>
          if truthy (al_status err) \<and> al_status err \<in> set statuses then
            (case broker_handle (ObjectAlert err) s of
               Inl f \<Rightarrow> (Inl e, s)
             | Inr s' \<Rightarrow> (Inr (), s'))
          else (Inl e, s))"

subsection \<open>Errors nobody handled: ErrorNotifier\<close>

definition ignoreSourceFiles :: "string list" where
  "ignoreSourceFiles = [''moz-extension'', ''sandbox eval code'', ''chrome-extension'', ''user-script'']"

definition CSPErrorShouldIgnore :: "alert_object \<Rightarrow> bool" where
  "CSPErrorShouldIgnore e = (obj_get (al_fields e) ''sourceFile'' \<in> JStr ` set ignoreSourceFiles)"

text \<open>The formatter's text is \<open>JSON.stringify\<close> of the picked fields, kept as the object here.\<close>

definition CSPErrorFormatter :: "alert_object \<Rightarrow> jsval" where
  "CSPErrorFormatter e =
     JObj (List.map_filter (\<lambda>k. map_option (Pair k) (map_of (al_fields e) k))
       [''sourceFile'', ''documentURI'', ''violatedDirective'', ''blockedURI''])"

definition exception_of :: "alert_object \<Rightarrow> jsval" where
  "exception_of e =
     (if al_type e = JStr ''securitypolicyviolation'' then CSPErrorFormatter e
      else if truthy (al_exception e) then al_exception e
      else if truthy (al_message e) then al_message e
      else JObj (al_fields e))"

definition hasBeenHandled :: "alert_object \<Rightarrow> alert_state \<Rightarrow> bool" where
  "hasBeenHandled e s = (al_is_alert e \<and> al_id e \<in> as_handled s)"

definition is_reported :: "alert_object \<Rightarrow> bool" where
  "is_reported e =
     (\<not> (al_type e = JStr ''securitypolicyviolation'' \<and> CSPErrorShouldIgnore e) \<and>
      al_readyState e \<noteq> Some 0)"

definition cleanupError :: "alert_object option \<Rightarrow> alert_state \<Rightarrow> js_error + alert_state" where
  "cleanupError error s =
     (case error of
        None \<Rightarrow> Inr s
      | Some e \<Rightarrow>
          if hasBeenHandled e s then Inr s
          else if is_reported e then broker_show (exception_of e) ''danger'' s
          else Inr s)"

subsection \<open>The details of a user: user/data\_source.js\<close>

text \<open>
  The error callback given to the legacy client. A user one may not see (status 404) is
  \<open>null\<close>, which counts as handled; any other error goes to the data source, whose wrapper
  cleans it up, and the callback answers \<open>true\<close> - but the requestor (\<open>api-requestor.js\<close>) takes
  only \<open>false\<close> for handled and cleans the error up again. An error without a \<open>jqXhr\<close>
  (\<open>al_readyState\<close> is \<open>None\<close>) stops the callback.
\<close>

datatype user_answer = UserUnknown | UserFailed | NoUserAnswer

definition user_error_callback ::
  "alert_object \<Rightarrow> alert_state \<Rightarrow> (js_error + bool) \<times> user_answer \<times> alert_state" where
  "user_error_callback e s =
     (if al_readyState e = None then (Inl TypeError, NoUserAnswer, s)
      else if al_status e = JNum 404 then (Inr False, UserUnknown, s)
      else
        (case cleanupError (Some e) s of
           Inl err \<Rightarrow> (Inl err, NoUserAnswer, s)
         | Inr s' \<Rightarrow> (Inr True, UserFailed, s')))"

definition user_detail_failed :: "alert_object \<Rightarrow> alert_state \<Rightarrow> user_answer \<times> alert_state" where
  "user_detail_failed e s =
     (case user_error_callback e s of
        (Inl err, answer, s1) \<Rightarrow> (answer, s1)
      | (Inr errorHandled, answer, s1) \<Rightarrow>
          if errorHandled = False then (answer, s1)
          else
            (case cleanupError (Some e) s1 of
               Inl err \<Rightarrow> (answer, s1)
             | Inr s2 \<Rightarrow> (answer, s2)))"

subsection \<open>Modals\<close>

text \<open>
  A modal is shown or hidden. Every time it is shown it adds two listeners for the event
  \<open>hide.bs.modal\<close> of the toolkit that are never removed, one releasing its alert handler and one
  hiding it: \<open>mo_hooks\<close> counts the pairs. Hiding triggers the event once or twice (once more
  if the user closed it through the toolkit), so the handler is released that many times.
  \<open>mo_handler\<close> is the property \<open>alertHandler\<close>: the modals of \<open>modal/base.js\<close> pass a handler that is bound once,
  the modal for the files of a run passes none. \<open>mw_open\<close> and \<open>mw_pages\<close> are no state of the code: the modals
  that are open and the page handlers registered, the last first.
\<close>

record modal =
  mo_visible :: bool
  mo_hasBeenMadeVisible :: bool
  mo_hooks :: nat
  mo_mounted :: bool
  mo_handler :: handler

definition newModal :: "handler \<Rightarrow> modal" where
  "newModal h =
     \<lparr>mo_visible = False, mo_hasBeenMadeVisible = False, mo_hooks = 0, mo_mounted = True, mo_handler = h\<rparr>"

record modal_world =
  mw_modals :: "nat \<Rightarrow> modal"
  mw_alerts :: alert_state
  mw_open :: "nat list"
  mw_pages :: "nat list"

definition modal_handler :: "nat \<Rightarrow> nat \<Rightarrow> handler" where
  "modal_handler files m = (if m = files then UndefinedHandler else ModalHandler m)"

definition newModalWorld :: "nat \<Rightarrow> modal_world" where
  "newModalWorld files =
     \<lparr>mw_modals = (\<lambda>m. newModal (modal_handler files m)), mw_alerts = newAlertBroker, mw_open = [], mw_pages = []\<rparr>"

definition modal_show :: "nat \<Rightarrow> modal_world \<Rightarrow> modal_world" where
  "modal_show m w =
     (let mo = mw_modals w m in
      if mo_visible mo \<or> \<not> mo_mounted mo then w
      else w\<lparr>mw_modals := (mw_modals w)(m := mo\<lparr>mo_visible := True, mo_hasBeenMadeVisible := True,
               mo_hooks := Suc (mo_hooks mo)\<rparr>),
             mw_alerts := registerHandler (mo_handler mo) (mw_alerts w),
             mw_open := m # mw_open w\<rparr>)"

definition modal_hide :: "bool \<Rightarrow> nat \<Rightarrow> modal_world \<Rightarrow> modal_world" where
  "modal_hide by_toolkit m w =
     (let mo = mw_modals w m in
      if \<not> mo_visible mo \<or> \<not> mo_mounted mo then w
      else w\<lparr>mw_modals := (mw_modals w)(m := mo\<lparr>mo_visible := False\<rparr>),
             mw_alerts :=
               (releaseHandler (mo_handler mo) ^^ ((if by_toolkit then 2 else 1) * mo_hooks mo)) (mw_alerts w),
             mw_open := removeAll m (mw_open w)\<rparr>)"

text \<open>A modal is rendered with another handler: the one on top of the stack is replaced, one below it is not.\<close>

definition modal_handler_changed :: "nat \<Rightarrow> handler \<Rightarrow> modal_world \<Rightarrow> modal_world" where
  "modal_handler_changed m h w =
     (let old = mo_handler (mw_modals w m) in
      w\<lparr>mw_modals := (mw_modals w)(m := (mw_modals w m)\<lparr>mo_handler := h\<rparr>),
        mw_alerts :=
          (if old \<noteq> h \<and> hasRegisteredHandler old (mw_alerts w)
           then registerHandler h (releaseHandler old (mw_alerts w)) else mw_alerts w)\<rparr>)"

text \<open>
  Unmounting removes a listener for another event, \<open>hidden.bs.modal\<close>, that was never added; the element goes with
  its listeners, and the handler stays where it is. A modal that is rendered again is a new one.
\<close>

definition modal_unmount :: "nat \<Rightarrow> modal_world \<Rightarrow> modal_world" where
  "modal_unmount m w =
     w\<lparr>mw_modals := (mw_modals w)(m := (mw_modals w m)\<lparr>mo_visible := False, mo_mounted := False, mo_hooks := 0\<rparr>),
       mw_open := removeAll m (mw_open w)\<rparr>"

definition modal_mount :: "nat \<Rightarrow> modal_world \<Rightarrow> modal_world" where
  "modal_mount m w =
     (if mo_mounted (mw_modals w m) then w
      else w\<lparr>mw_modals := (mw_modals w)(m := newModal (mo_handler (mw_modals w m)))\<rparr>)"

text \<open>
  Pages that handle alerts themselves: the page to log in, and the editor of a new experiment, whose handler is
  never released.
\<close>

definition login_page_mount :: "nat \<Rightarrow> modal_world \<Rightarrow> modal_world" where
  "login_page_mount h w =
     w\<lparr>mw_alerts := registerHandler (PageHandler h) (mw_alerts w), mw_pages := h # mw_pages w\<rparr>"

definition login_page_unmount :: "nat \<Rightarrow> modal_world \<Rightarrow> modal_world" where
  "login_page_unmount h w =
     w\<lparr>mw_alerts := releaseHandler (PageHandler h) (mw_alerts w), mw_pages := remove1 h (mw_pages w)\<rparr>"

definition editor_mount :: "bool \<Rightarrow> nat \<Rightarrow> modal_world \<Rightarrow> modal_world" where
  "editor_mount renderAlerts h w =
     (if renderAlerts
      then w\<lparr>mw_alerts := registerHandler (PageHandler h) (mw_alerts w), mw_pages := h # mw_pages w\<rparr> else w)"

subsection \<open>Modals and the stack of handlers\<close>

lemma releaseHandler_top:
  "as_queue s = h # q \<Longrightarrow> releaseHandler h s = s\<lparr>as_queue := q\<rparr>"
  by (simp add: releaseHandler_def hasRegisteredHandler_def)

lemma releaseHandler_other:
  "as_queue s = h' # q \<Longrightarrow> h' \<noteq> h \<Longrightarrow> releaseHandler h s = s"
  by (simp add: releaseHandler_def hasRegisteredHandler_def)

lemma releases_other:
  assumes "as_queue s = h' # q" "h' \<noteq> h"
  shows "(releaseHandler h ^^ n) s = s"
  using assms by (induction n) (simp_all add: releaseHandler_other)

text \<open>Releasing a handler that is on top once takes it off however often it is released.\<close>

lemma releases_top:
  assumes "as_queue s = h # h' # q" "h' \<noteq> h" "0 < n"
  shows "(releaseHandler h ^^ n) s = s\<lparr>as_queue := h' # q\<rparr>"
proof (cases n)
  case (Suc k)
  have "(releaseHandler h ^^ Suc k) s = (releaseHandler h ^^ k) (releaseHandler h s)"
    by (simp only: funpow_Suc_right comp_apply)
  also have "\<dots> = (releaseHandler h ^^ k) (s\<lparr>as_queue := h' # q\<rparr>)"
    by (simp only: releaseHandler_top [OF assms(1)])
  also have "\<dots> = s\<lparr>as_queue := h' # q\<rparr>" by (rule releases_other [OF _ assms(2)]) simp
  finally show ?thesis by (simp add: Suc)
qed (use assms(3) in simp)

text \<open>
  What the user and the program may do as long as the modals are closed in the reverse order of
  their opening and a page is entered or left while none is open. One modal of a page, \<open>files\<close>, has no handler;
  the handlers of the others do not change (\<open>modal/base.js\<close> binds them when the modal is made).
\<close>

inductive modal_step :: "modal_world \<Rightarrow> modal_world \<Rightarrow> bool" where
  ShowModal: "modal_step w (modal_show m w)"
| HideTop: "mw_open w = m # ms \<Longrightarrow> modal_step w (modal_hide by_toolkit m w)"
| UnmountHidden: "m \<notin> set (mw_open w) \<Longrightarrow> modal_step w (modal_unmount m w)"
| MountModal: "modal_step w (modal_mount m w)"
| EnterLogin: "mw_open w = [] \<Longrightarrow> modal_step w (login_page_mount h w)"
| LeaveLogin: "mw_open w = [] \<Longrightarrow> mw_pages w = h # hs \<Longrightarrow> modal_step w (login_page_unmount h w)"
| EnterEditor: "mw_open w = [] \<Longrightarrow> modal_step w (editor_mount renderAlerts h w)"
| Raise: "broker_handle l (mw_alerts w) = Inr a \<Longrightarrow> modal_step w (w\<lparr>mw_alerts := a\<rparr>)"
| Report: "cleanupError e (mw_alerts w) = Inr a \<Longrightarrow> modal_step w (w\<lparr>mw_alerts := a\<rparr>)"

definition modals_stacked :: "nat \<Rightarrow> modal_world \<Rightarrow> bool" where
  "modals_stacked files w =
     (as_queue (mw_alerts w) =
        map (modal_handler files) (mw_open w) @ map PageHandler (mw_pages w) @ [DefaultHandler] \<and>
      distinct (mw_open w) \<and>
      (\<forall>m. mo_handler (mw_modals w m) = modal_handler files m) \<and>
      (\<forall>m. mo_visible (mw_modals w m) \<longleftrightarrow> m \<in> set (mw_open w)) \<and>
      (\<forall>m \<in> set (mw_open w). mo_mounted (mw_modals w m) \<and> 0 < mo_hooks (mw_modals w m)))"

lemma modal_handler_inj: "modal_handler files m = modal_handler files k \<longleftrightarrow> m = k"
  by (simp add: modal_handler_def)

lemma modal_handler_no_page [simp]:
  "modal_handler files m \<noteq> PageHandler h" "modal_handler files m \<noteq> DefaultHandler"
  "PageHandler h \<noteq> modal_handler files m" "DefaultHandler \<noteq> modal_handler files m"
  by (simp_all add: modal_handler_def)

lemma broker_handle_queue: "broker_handle l s = Inr s' \<Longrightarrow> as_queue s' = as_queue s"
  by (auto simp: broker_handle_def taken_by_def split: list.splits if_splits)

lemma cleanupError_queue: "cleanupError e s = Inr s' \<Longrightarrow> as_queue s' = as_queue s"
  by (auto simp: cleanupError_def broker_show_def broker_handle_queue split: option.splits if_splits)

lemma modals_stacked_show: "modals_stacked files w \<Longrightarrow> modals_stacked files (modal_show m w)"
  by (simp add: modals_stacked_def modal_show_def registerHandler_def Let_def)

lemma modals_stacked_hide:
  assumes "modals_stacked files w" "mw_open w = m # ms"
  shows "modals_stacked files (modal_hide b m w)"
proof -
  let ?mo = "mw_modals w m"
  have mo: "mo_visible ?mo" "mo_mounted ?mo" "0 < mo_hooks ?mo" "mo_handler ?mo = modal_handler files m"
    "m \<notin> set ms" using assms by (simp_all add: modals_stacked_def)
  obtain h' q where q: "map (modal_handler files) ms @ map PageHandler (mw_pages w) @ [DefaultHandler] = h' # q"
    by (cases ms; cases "mw_pages w") simp_all
  have h': "h' \<noteq> modal_handler files m"
    using q mo(5) by (cases ms; cases "mw_pages w") (auto simp: modal_handler_inj)
  have "as_queue (mw_alerts w) = modal_handler files m # h' # q"
    using assms q by (simp add: modals_stacked_def)
  from releases_top [OF this h', of "(if b then 2 else 1) * mo_hooks ?mo"]
  have hide: "modal_hide b m w =
      w\<lparr>mw_modals := (mw_modals w)(m := ?mo\<lparr>mo_visible := False\<rparr>),
        mw_alerts := (mw_alerts w)\<lparr>as_queue := h' # q\<rparr>, mw_open := ms\<rparr>"
    using mo assms(2) by (simp add: modal_hide_def)
  show ?thesis using assms q mo(5) unfolding hide by (auto simp: modals_stacked_def)
qed

lemma modals_stacked_step:
  assumes "modal_step w v" "modals_stacked files w"
  shows "modals_stacked files v"
  using assms(1)
proof cases
  case ShowModal
  then show ?thesis using assms(2) by (simp add: modals_stacked_show)
next
  case HideTop
  then show ?thesis using assms(2) by (simp add: modals_stacked_hide)
next
  case UnmountHidden
  then show ?thesis using assms(2) by (auto simp: modals_stacked_def modal_unmount_def)
next
  case MountModal
  then show ?thesis using assms(2) by (auto simp: modals_stacked_def modal_mount_def newModal_def)
next
  case LeaveLogin
  then show ?thesis using assms(2) by (simp add: modals_stacked_def login_page_unmount_def releaseHandler_top)
qed (use assms(2) in \<open>simp_all add: modals_stacked_def login_page_mount_def editor_mount_def
      registerHandler_def broker_handle_queue cleanupError_queue\<close>)

interpretation modals: started_system modal_step "modals_stacked files" "newModalWorld files" for files
proof unfold_locales
  show "modals_stacked files (newModalWorld files)"
    by (simp add: modals_stacked_def newModalWorld_def newAlertBroker_def newModal_def)
qed (rule modals_stacked_step)

subsection \<open>The properties\<close>

text \<open>Where an alert goes: to the handler of the modal opened last, of the page, or the default one.\<close>

definition alert_target :: "nat \<Rightarrow> modal_world \<Rightarrow> handler" where
  "alert_target files w =
     hd (map (modal_handler files) (mw_open w) @ map PageHandler (mw_pages w) @ [DefaultHandler])"

text \<open>C25: As long as modals are closed in the reverse order of their opening, not unmounted while they are open,
  and pages are entered and left while none is open - also after modals have been shown and hidden many times,
  whose listeners pile up: the open modals are those that are visible, and an alert is taken by the handler of
  the one opened last, or with none open by that of the page entered last, or the default one. Only while the
  modal for the files of a run is on top, which has no handler, does raising an alert throw.\<close>

theorem alerts_are_seen:
  assumes "modal_step\<^sup>*\<^sup>* (newModalWorld files) w"
  shows "set (mw_open w) = {m. mo_visible (mw_modals w m)} \<and>
    broker_handle l (mw_alerts w) =
      (if mw_open w \<noteq> [] \<and> hd (mw_open w) = files then Inl TypeError
       else Inr (taken_by (alert_target files w) l (mw_alerts w)))"
proof -
  have stacked: "modals_stacked files w" by (rule modals.inv_reachable [OF assms])
  then have "set (mw_open w) = {m. mo_visible (mw_modals w m)}" by (auto simp: modals_stacked_def)
  with stacked show ?thesis
    by (cases "mw_open w"; cases "mw_pages w")
      (simp_all add: modals_stacked_def broker_handle_def alert_target_def modal_handler_def)
qed

lemma alerts_are_seen_witness:
  "broker_handle NoAlert (mw_alerts (modal_show 2 (modal_show 1 (newModalWorld 7)))) =
     Inr (taken_by (ModalHandler 2) NoAlert (mw_alerts (modal_show 2 (modal_show 1 (newModalWorld 7))))) \<and>
   broker_handle NoAlert (mw_alerts (modal_show 7 (newModalWorld 7))) = Inl TypeError"
proof -
  have "modal_step\<^sup>*\<^sup>* (newModalWorld 7) (modal_show 2 (modal_show 1 (newModalWorld 7)))"
    by (rule converse_rtranclp_into_rtranclp [where r = modal_step, OF ShowModal [of "newModalWorld 7" 1]])
      (rule r_into_rtranclp [where r = modal_step, OF ShowModal])
  note two = alerts_are_seen [OF this, of NoAlert]
  have "modal_step\<^sup>*\<^sup>* (newModalWorld 7) (modal_show 7 (newModalWorld 7))"
    by (rule r_into_rtranclp [where r = modal_step, OF ShowModal])
  note one = alerts_are_seen [OF this, of NoAlert]
  have "mw_open (modal_show 2 (modal_show 1 (newModalWorld 7))) = [2, 1]"
    "mw_open (modal_show 7 (newModalWorld 7)) = [7]"
    by (simp_all add: modal_show_def newModalWorld_def newModal_def)
  then show ?thesis using one two by (simp add: alert_target_def modal_handler_def)
qed

text \<open>
  Closing the lower of two modals first leaves its handler on the stack: after both are closed it
  still takes every alert, and nobody sees them. So does unmounting a modal that is open.
\<close>

definition closed_out_of_order :: modal_world where
  "closed_out_of_order =
     modal_hide False 2 (modal_hide False 1 (modal_show 2 (modal_show 1 (newModalWorld 7))))"

lemma hidden_modal_takes_alerts:
  "\<not> mo_visible (mw_modals closed_out_of_order 1) \<and> \<not> mo_visible (mw_modals closed_out_of_order 2) \<and>
   hasRegisteredHandler (ModalHandler 1) (mw_alerts closed_out_of_order)"
  by (simp add: closed_out_of_order_def modal_hide_def modal_show_def newModalWorld_def newModal_def
      newAlertBroker_def registerHandler_def releaseHandler_def hasRegisteredHandler_def modal_handler_def Let_def)

lemma unmounted_modal_takes_alerts:
  assumes "hasRegisteredHandler (mo_handler (mw_modals w m)) (mw_alerts w)"
  shows "hasRegisteredHandler (mo_handler (mw_modals w m)) (mw_alerts (modal_unmount m w)) \<and>
    \<not> mo_visible (mw_modals (modal_unmount m w) m)"
  using assms by (simp add: modal_unmount_def)

text \<open>A change of the handler reaches the stack exactly if the modal is on top.\<close>

lemma changed_handler_on_top:
  assumes "as_queue (mw_alerts w) = mo_handler (mw_modals w m) # q" "mo_handler (mw_modals w m) \<noteq> h"
  shows "as_queue (mw_alerts (modal_handler_changed m h w)) = h # q"
  using assms
  by (simp add: modal_handler_changed_def hasRegisteredHandler_def registerHandler_def releaseHandler_top)

lemma changed_handler_below:
  "\<not> hasRegisteredHandler (mo_handler (mw_modals w m)) (mw_alerts w) \<Longrightarrow>
   mw_alerts (modal_handler_changed m h w) = mw_alerts w"
  by (simp add: modal_handler_changed_def)

text \<open>What the user has been shown.\<close>

definition shown_messages :: "alert_state \<Rightarrow> jsval list" where
  "shown_messages s =
     concat (map (\<lambda>(h, l). case l of ShownAlert m t \<Rightarrow> [m] | _ \<Rightarrow> []) (as_log s))"

lemma shown_messages_handle:
  "broker_handle l s = Inr s' \<Longrightarrow>
   shown_messages s' = shown_messages s @ (case l of ShownAlert m t \<Rightarrow> [m] | _ \<Rightarrow> [])
   \<and> as_handled s' = mark_handled l (as_handled s) \<and> as_queue s' = as_queue s"
  by (auto simp: broker_handle_def taken_by_def shown_messages_def split: list.splits if_splits)

definition has_handler :: "alert_state \<Rightarrow> bool" where
  "has_handler s = (case as_queue s of [] \<Rightarrow> False | h # hs \<Rightarrow> h \<noteq> UndefinedHandler)"

lemma broker_handle_ok: "has_handler s \<Longrightarrow> \<exists>s'. broker_handle l s = Inr s'"
  by (cases "as_queue s") (simp_all add: broker_handle_def has_handler_def)

lemma cleanupError_shows:
  assumes "has_handler s" "\<not> hasBeenHandled e s" "is_reported e"
  shows "\<exists>s'. cleanupError (Some e) s = Inr s' \<and> shown_messages s' = shown_messages s @ [exception_of e]
    \<and> as_handled s' = as_handled s \<and> as_queue s' = as_queue s"
proof -
  obtain s' where s': "broker_handle (ShownAlert (exception_of e) ''danger'') s = Inr s'"
    using broker_handle_ok [OF assms(1)] by blast
  with shown_messages_handle [OF s'] assms(2,3) show ?thesis
    by (simp add: cleanupError_def broker_show_def mark_handled_def)
qed

text \<open>An error that was handled as an alert is not shown again; one that was only cleaned up is.\<close>

lemma handled_error_stays_quiet:
  assumes "broker_handle (ObjectAlert e) s = Inr s'" "al_is_alert e"
  shows "cleanupError (Some e) s' = Inr s'"
  using shown_messages_handle [OF assms(1)] assms(2)
  by (simp add: cleanupError_def hasBeenHandled_def mark_handled_def)

text \<open>A request for the details of a user that fails for another reason than a missing
  permission shows its error to the user twice: the data source cleans it up, its callback answers
  true, which the requestor does not take for handled, and cleaning an error up does not mark it
  as handled. A user one may not see is silently null.\<close>

theorem user_error_shown_twice:
  assumes "has_handler s" and "\<not> hasBeenHandled e s" and "is_reported e" and "al_readyState e \<noteq> None"
  shows "shown_messages (snd (user_detail_failed e s)) =
    shown_messages s @ (if al_status e = JNum 404 then [] else [exception_of e, exception_of e])"
proof (cases "al_status e = JNum 404")
  case True
  with assms(4) show ?thesis by (simp add: user_detail_failed_def user_error_callback_def)
next
  case False
  from cleanupError_shows [OF assms(1-3)] obtain s1 where s1: "cleanupError (Some e) s = Inr s1"
    "shown_messages s1 = shown_messages s @ [exception_of e]" "as_handled s1 = as_handled s"
    "as_queue s1 = as_queue s" by (elim exE conjE)
  have "\<not> hasBeenHandled e s1" using assms(2) s1(3) by (simp add: hasBeenHandled_def)
  moreover have "has_handler s1" using assms(1) s1(4) by (simp add: has_handler_def)
  ultimately obtain s2 where "cleanupError (Some e) s1 = Inr s2"
    "shown_messages s2 = shown_messages s1 @ [exception_of e]"
    using cleanupError_shows [OF _ _ assms(3)] by blast
  with False assms(4) s1 show ?thesis
    by (simp add: user_detail_failed_def user_error_callback_def)
qed

definition server_error :: alert_object where
  "server_error =
     \<lparr>al_id = 1, al_is_alert = True, al_type = JStr ''danger'', al_message = JStr ''Server error'',
      al_exception = JNull, al_status = JNum 500, al_readyState = Some 4, al_tokenStatus = JUndef,
      al_fields = []\<rparr>"

lemma user_error_shown_twice_witness:
  "shown_messages (snd (user_detail_failed server_error newAlertBroker)) =
   [JStr ''Server error'', JStr ''Server error'']"
  using user_error_shown_twice [of newAlertBroker server_error]
  by (simp add: newAlertBroker_def has_handler_def server_error_def hasBeenHandled_def is_reported_def
      exception_of_def shown_messages_def)

text \<open>An answer that is not an object of the API stops the callback, and nothing is shown.\<close>

lemma user_error_without_jqXhr:
  "al_readyState e = None \<Longrightarrow> user_error_callback e s = (Inl TypeError, NoUserAnswer, s)"
  by (simp add: user_error_callback_def)

text \<open>
  An error is built from every answer but one whose body reads as \<open>null\<close>; it always has the type
  and the status of the answer, and a message unless the answer has an empty one.
\<close>

lemma constructFromAjaxResponse_ok:
  "(\<exists>e. constructFromAjaxResponse n xhr path = Inr e) \<longleftrightarrow>
   (case xhr_json xhr of None \<Rightarrow> True | Some v \<Rightarrow> isDefinedAndNotNull v)"
  by (auto simp: constructFromAjaxResponse_def response_json_def Let_def isDefinedAndNotNull_def
      split: option.splits)

lemma unreadable_answer_has_message:
  assumes "xhr_json xhr = None" "constructFromAjaxResponse n xhr path = Inr e"
  shows "truthy (al_message e)"
  using assms
  by (auto simp: constructFromAjaxResponse_def response_json_def alert_message_def Let_def
      split: if_splits)

text \<open>Expected errors are shown and resolved; the others are passed on untouched.\<close>

lemma expected_status_handled:
  assumes "has_handler s" "truthy (al_status e)"
  shows "al_status e \<in> set statuses \<Longrightarrow>
      \<exists>s'. errorHandlerThatExpectsStatus statuses (Some e) s = (Inr (), s') \<and> (al_is_alert e \<longrightarrow> hasBeenHandled e s')"
    and "al_status e \<notin> set statuses \<Longrightarrow> errorHandlerThatExpectsStatus statuses (Some e) s = (Inl (Some e), s)"
proof -
  obtain s' where s': "broker_handle (ObjectAlert e) s = Inr s'" using broker_handle_ok [OF assms(1)] by blast
  with shown_messages_handle [OF s'] assms(2)
  show "al_status e \<in> set statuses \<Longrightarrow>
      \<exists>s'. errorHandlerThatExpectsStatus statuses (Some e) s = (Inr (), s') \<and> (al_is_alert e \<longrightarrow> hasBeenHandled e s')"
    by (simp add: errorHandlerThatExpectsStatus_def hasBeenHandled_def mark_handled_def)
qed (simp add: errorHandlerThatExpectsStatus_def)

end
