(* ===== verification/BulkData.thy ===== *)
theory BulkData
  imports Experiment Errors
begin

section \<open>Observations in bulk: web/js/pages/experiment/core/bulkdownload, bulkupload, copy\<close>

text \<open>
  The observations of an experiment as a CSV file, the file read back into observations and sent
  in batches, and the copy of an experiment with its observations. The text of a CSV file belongs
  to \<open>csv-stringify\<close> and \<open>csv-parse\<close>: a file is its rows of cells here, and the theorems take
  the two libraries as functions with their documented law. The decimal text of a number,
  \<open>num_text\<close>, is a parameter.
\<close>

subsection \<open>Cells: csvutils.js\<close>

definition invalidStartCharacters :: string where
  "invalidStartCharacters = ''=-+@''"

definition trimLeadingSpaces :: "string \<Rightarrow> string" where
  "trimLeadingSpaces s = dropWhile (\<lambda>c. c = CHR '' '') s"

definition addLeadingSpace :: "string \<Rightarrow> string" where
  "addLeadingSpace s = CHR '' '' # s"

definition maybeRemoveLeadingSpace :: "string \<Rightarrow> string" where
  "maybeRemoveLeadingSpace s = (if prefix '' '' s then drop 1 s else s)"

definition hasDangerousPrefix :: "string \<Rightarrow> bool" where
  "hasDangerousPrefix s = list_ex (\<lambda>c. prefix [c] (trimLeadingSpaces s)) invalidStartCharacters"

definition sanitize_text :: "string \<Rightarrow> string" where
  "sanitize_text s = (if hasDangerousPrefix s then addLeadingSpace s else s)"

definition unsanitize_text :: "string \<Rightarrow> string" where
  "unsanitize_text s = (if hasDangerousPrefix s then maybeRemoveLeadingSpace s else s)"

fun excelSanitize :: "jsval \<Rightarrow> jsval" where
  "excelSanitize (JStr s) = JStr (sanitize_text s)"
| "excelSanitize v = v"

fun excelUnsanitize :: "jsval \<Rightarrow> jsval" where
  "excelUnsanitize (JStr s) = JStr (unsanitize_text s)"
| "excelUnsanitize v = v"

subsection \<open>Text of values: utils.js, experiment/ui.js\<close>

fun to_string :: "(rat \<Rightarrow> string) \<Rightarrow> jsval \<Rightarrow> string" where
  "to_string num_text (JNum n) = num_text n"
| "to_string num_text v = js_text v"

definition asString :: "(rat \<Rightarrow> string) \<Rightarrow> jsval \<Rightarrow> string" where
  "asString num_text v = (if isDefinedAndNotNull v then to_string num_text v else [])"

text \<open>\<open>toFixed(0)\<close>: the nearest integer, halves away from zero, or the number from \<open>10 ^ 21\<close> on.\<close>

definition toFixed0 :: "(rat \<Rightarrow> string) \<Rightarrow> rat \<Rightarrow> string" where
  "toFixed0 num_text x =
     (if 10 ^ 21 \<le> \<bar>x\<bar> then num_text x
      else if x < 0 then CHR ''-'' # nat_digits (nat \<lfloor>- x + 1 / 2\<rfloor>)
      else nat_digits (nat \<lfloor>x + 1 / 2\<rfloor>))"

definition roundNumber :: "(rat \<Rightarrow> string) \<Rightarrow> (rat \<Rightarrow> string) \<Rightarrow> bool \<Rightarrow> rat \<Rightarrow> string" where
  "roundNumber num_text to_precision rounded n =
     (if \<not> rounded then num_text n
      else if number_of_text (to_precision n) = Some n then num_text n
      else to_precision n)"

definition renderNumber :: "(rat \<Rightarrow> string) \<Rightarrow> (rat \<Rightarrow> string) \<Rightarrow> bool \<Rightarrow> jsval \<Rightarrow> jsval" where
  "renderNumber num_text to_precision rounded v =
     (case finite_number v of
        Some n \<Rightarrow> JStr (roundNumber num_text to_precision rounded n)
      | None \<Rightarrow> v)"

definition renderParamValue ::
  "(rat \<Rightarrow> string) \<Rightarrow> (rat \<Rightarrow> string) \<Rightarrow> exp_parameter \<Rightarrow> jsval \<Rightarrow> bool \<Rightarrow> js_error + jsval" where
  "renderParamValue num_text to_precision p v rounded =
     (let rendered = Inr (JStr (asString num_text v))
      in case v of
        JStr s \<Rightarrow> Inr v
      | JUndef \<Rightarrow> rendered
      | JNull \<Rightarrow> rendered
      | _ \<Rightarrow>
          if pm_type p = ''double'' then Inr (renderNumber num_text to_precision rounded v)
          else if pm_type p = ''int'' then
            (case v of JNum n \<Rightarrow> Inr (JStr (toFixed0 num_text n)) | _ \<Rightarrow> Inl TypeError)
          else rendered)"

fun map_ok :: "('a \<Rightarrow> 'e + 'b) \<Rightarrow> 'a list \<Rightarrow> 'e + 'b list" where
  "map_ok f [] = Inr []"
| "map_ok f (x # xs) =
     (case f x of
        Inl e \<Rightarrow> Inl e
      | Inr y \<Rightarrow> (case map_ok f xs of Inl e \<Rightarrow> Inl e | Inr ys \<Rightarrow> Inr (y # ys)))"

text \<open>Reading a property of missing assignments throws; nothing is read when there is none to read.\<close>

definition renderAssignments ::
  "(rat \<Rightarrow> string) \<Rightarrow> (rat \<Rightarrow> string) \<Rightarrow> sigopt_experiment option \<Rightarrow> jsobj option \<Rightarrow> js_error + jsobj" where
  "renderAssignments num_text to_precision experiment assignments =
     (case experiment of
        None \<Rightarrow> Inr []
      | Some e \<Rightarrow>
          (case assignments of
             None \<Rightarrow> if ex_conditionals e = [] \<and> ex_parameters e = [] then Inr [] else Inl TypeError
           | Some a \<Rightarrow>
               (let ps = (if ex_conditionals e = [] then ex_parameters e
                    else filter (\<lambda>p. pm_name p \<in> fst ` set a) (ex_parameters e))
                in case map_ok (\<lambda>p. case renderParamValue num_text to_precision p
                            (obj_get a (pm_name p)) False of
                        Inl err \<Rightarrow> Inl err | Inr v \<Rightarrow> Inr (pm_name p, v)) ps of
                     Inl err \<Rightarrow> Inl err
                   | Inr kvs \<Rightarrow> Inr (obj_extend [] (conditional_assignments e a @ kvs)))))"

subsection \<open>Download: bulkdownload/endpoint.js\<close>

record api_observation = observation +
  ao_id :: jsval
  ao_created :: jsval
  ao_metadata :: "jsobj option"
  ao_task :: "exp_task option"

type_synonym accessor = "api_observation \<Rightarrow> jsobj \<Rightarrow> js_error + jsval"

definition same_metric :: "metric \<Rightarrow> measurement \<Rightarrow> bool" where
  "same_metric m v = (ms_name v = mt_name m \<or> (\<not> truthy (mt_name m) \<and> \<not> truthy (ms_name v)))"

definition metric_column :: "string \<Rightarrow> metric \<Rightarrow> string" where
  "metric_column column m =
     (if truthy (mt_name m) then column @ ''-'' @ js_text (mt_name m) else column)"

definition metric_cell :: "(rat \<Rightarrow> string) \<Rightarrow> (measurement \<Rightarrow> jsval) \<Rightarrow> metric \<Rightarrow> accessor" where
  "metric_cell num_text field m ob ra =
     Inr (JStr (case List.find (same_metric m) (ob_values ob) of
        None \<Rightarrow> [] | Some v \<Rightarrow> asString num_text (field v)))"

definition task_cell :: "(exp_task \<Rightarrow> string) \<Rightarrow> accessor" where
  "task_cell f ob ra = (case ao_task ob of None \<Rightarrow> Inl TypeError | Some t \<Rightarrow> Inr (JStr (f t)))"

definition metadata_cell :: "(rat \<Rightarrow> string) \<Rightarrow> string \<Rightarrow> accessor" where
  "metadata_cell num_text k ob ra =
     Inr (JStr (asString num_text
       (obj_get (case ao_metadata ob of None \<Rightarrow> [] | Some md \<Rightarrow> md) k)))"

definition orderedAccessors ::
  "(rat \<Rightarrow> string) \<Rightarrow> sigopt_experiment \<Rightarrow> string list \<Rightarrow> (string \<times> accessor) list" where
  "orderedAccessors num_text e metadataKeys =
     map (\<lambda>p. (''parameter-'' @ pm_name p, \<lambda>ob ra. Inr (obj_get ra (pm_name p)))) (ex_parameters e)
     @ map (\<lambda>c. (''conditional-'' @ cd_name c, \<lambda>ob ra. Inr (obj_get ra (cd_name c)))) (ex_conditionals e)
     @ concat (map (\<lambda>m.
         [(metric_column ''value'' m, metric_cell num_text ms_value m),
          (metric_column ''value_stddev'' m, metric_cell num_text ms_value_stddev m)]) (ex_metrics e))
     @ (case ex_tasks e of
          None \<Rightarrow> []
        | Some ts \<Rightarrow> [(''task_name'', task_cell tk_name),
            (''task_cost'', task_cell (\<lambda>t. num_text (tk_cost t)))])
     @ [(''failed'', \<lambda>ob ra. Inr (JStr (asString num_text (ob_failed ob)))),
        (''created'', \<lambda>ob ra. Inr (JStr (asString num_text (ao_created ob))))]
     @ map (\<lambda>k. (''metadata-'' @ k, metadata_cell num_text k)) metadataKeys
     @ [(''id'', \<lambda>ob ra. Inr (JStr (asString num_text (ao_id ob))))]"

definition download_row ::
  "(rat \<Rightarrow> string) \<Rightarrow> (rat \<Rightarrow> string) \<Rightarrow> sigopt_experiment \<Rightarrow> string list \<Rightarrow> api_observation \<Rightarrow>
   js_error + jsval list" where
  "download_row num_text to_precision e metadataKeys ob =
     (case renderAssignments num_text to_precision (Some e) (ob_assignments ob) of
        Inl err \<Rightarrow> Inl err
      | Inr ra \<Rightarrow> map_ok (\<lambda>accessor. snd accessor ob ra) (orderedAccessors num_text e metadataKeys))"

record csv_download =
  dl_columns :: "string list"
  dl_rows :: "jsval list list"
  dl_filename :: string

definition download ::
  "(string \<Rightarrow> string \<Rightarrow> int) \<Rightarrow> (rat \<Rightarrow> string) \<Rightarrow> (rat \<Rightarrow> string) \<Rightarrow> sigopt_experiment \<Rightarrow>
   failure + api_observation list \<Rightarrow> failure + csv_download" where
  "download natCompare num_text to_precision e observations =
     (case observations of
        Inl f \<Rightarrow> Inl f
      | Inr os \<Rightarrow>
          (let metadataKeys = getMetadataKeys natCompare
                 (map (\<lambda>ob. case ao_metadata ob of None \<Rightarrow> [] | Some md \<Rightarrow> md) os)
           in case map_ok (download_row num_text to_precision e metadataKeys) os of
                Inl err \<Rightarrow> Inl (Thrown err)
              | Inr rows \<Rightarrow>
                  Inr \<lparr>dl_columns = map fst (orderedAccessors num_text e metadataKeys),
                       dl_rows = rows,
                       dl_filename = ''experiment_'' @ js_text (ex_id e) @ ''_observations.csv''\<rparr>))"

text \<open>The cells of the file: strings are cast, other values are written the way of the library.\<close>

definition cell_text :: "(jsval \<Rightarrow> string) \<Rightarrow> jsval \<Rightarrow> string" where
  "cell_text write_other v =
     (case excelSanitize v of JStr s \<Rightarrow> s | _ \<Rightarrow> write_other v)"

definition csv_cells :: "(jsval \<Rightarrow> string) \<Rightarrow> csv_download \<Rightarrow> string list list" where
  "csv_cells write_other d =
     map sanitize_text (dl_columns d) # map (map (cell_text write_other)) (dl_rows d)"

definition download_response :: "'text \<Rightarrow> string \<Rightarrow> jsval \<times> 'text \<times> jsobj" where
  "download_response body filename =
     (JNum 200, body,
      [(''headers'', JObj
          [(''Content-Disposition'', JStr (''attachment; filename='' @ [CHR 0x22] @ filename @ [CHR 0x22])),
           (''Content-Type'', JStr ''text/csv'')])])"

subsection \<open>Upload: bulkupload/page.js\<close>

text \<open>
  A record of the parser, with \<open>columns: true\<close>: the cells of a row under the names of the columns,
  all cast. A row may have fewer cells than columns.
\<close>

type_synonym csv_record = "(string \<times> string) list"

definition csv_records :: "string list list \<Rightarrow> csv_record list" where
  "csv_records rows =
     (case rows of
        [] \<Rightarrow> []
      | header # data \<Rightarrow>
          map (\<lambda>row. obj_extend [] (zip (map unsanitize_text header) (map unsanitize_text row))) data)"

definition maybeAsBoolean :: "jsval \<Rightarrow> jsval" where
  "maybeAsBoolean v =
     (case v of
        JStr s \<Rightarrow>
          (let lowered = toLowerCase s
           in if lowered = ''true'' then JBool True
              else if lowered = ''false'' \<or> lowered = [] then JBool False else v)
      | _ \<Rightarrow> v)"

definition form_maybeAsNumber :: "jsval \<Rightarrow> jsval" where
  "form_maybeAsNumber v = (if v = JStr [] then JNull else maybeAsNumber v)"

definition asAssignment :: "sigopt_experiment \<Rightarrow> string \<Rightarrow> jsval \<Rightarrow> jsval" where
  "asAssignment e assignmentName v =
     (case List.find (\<lambda>p. pm_name p = assignmentName) (ex_parameters e) of
        Some p \<Rightarrow> if pm_type p \<in> {''int'', ''double''} then form_maybeAsNumber v else v
      | None \<Rightarrow> v)"

definition parseAssignmentName :: "string \<Rightarrow> string" where
  "parseAssignmentName k =
     (if startsWith k ''parameter-'' then drop 10 k
      else if startsWith k ''conditional-'' then drop 12 k
      else k)"

definition reservedColumns :: "string list" where
  "reservedColumns = [''failed'', ''created'', ''id'', ''task_name'', ''task_cost'']"

definition is_assignment_column :: "string \<Rightarrow> bool" where
  "is_assignment_column k =
     (k \<notin> set reservedColumns \<and> \<not> startsWith k ''metadata-'' \<and> \<not> startsWith k ''value'')"

definition parse_assignments :: "sigopt_experiment \<Rightarrow> csv_record \<Rightarrow> jsobj" where
  "parse_assignments e d =
     obj_extend []
       (filter (\<lambda>kv. isDefinedAndNotNull (snd kv))
         (map (\<lambda>(k, v). (parseAssignmentName k, asAssignment e (parseAssignmentName k) (JStr v)))
           (filter (\<lambda>kv. is_assignment_column (fst kv)) d)))"

definition parse_metadata :: "csv_record \<Rightarrow> jsobj" where
  "parse_metadata d =
     filter (\<lambda>kv. snd kv \<noteq> JStr [])
       (filter (\<lambda>kv. isDefinedAndNotNull (snd kv))
         (map (\<lambda>kv. (fst kv, form_maybeAsNumber (snd kv)))
           (obj_extend []
             (map (\<lambda>(k, v). (drop 9 k, JStr v)) (filter (\<lambda>kv. startsWith (fst kv) ''metadata-'') d)))))"

record upload_value =
  uv_name :: string
  uv_value :: jsval
  uv_value_stddev :: "jsval option"

definition is_value_column :: "string \<Rightarrow> bool" where
  "is_value_column k = (k = ''value'' \<or> startsWith k ''value-'')"

definition value_name :: "string \<Rightarrow> string" where
  "value_name k = (if startsWith k ''value-'' then drop 6 k else [])"

definition valuesByName :: "csv_record \<Rightarrow> (string \<times> upload_value) list" where
  "valuesByName d =
     obj_extend []
       (map (\<lambda>(k, v). (value_name k,
              \<lparr>uv_name = value_name k, uv_value = form_maybeAsNumber (JStr v), uv_value_stddev = None\<rparr>))
         (filter (\<lambda>kv. is_value_column (fst kv)) d))"

text \<open>A deviation without a value has nothing to be set on.\<close>

fun set_deviations ::
  "csv_record \<Rightarrow> (string \<times> upload_value) list \<Rightarrow> js_error + (string \<times> upload_value) list" where
  "set_deviations [] values = Inr values"
| "set_deviations ((k, v) # d) vals =
     (if startsWith k ''value_stddev'' then
        (case map_of vals (drop 13 k) of
           None \<Rightarrow> Inl TypeError
         | Some uv \<Rightarrow> set_deviations d
             (AList.update (drop 13 k) (uv\<lparr>uv_value_stddev := Some (form_maybeAsNumber (JStr v))\<rparr>) vals))
      else set_deviations d vals)"

record upload_observation =
  up_assignments :: jsobj
  up_failed :: jsval
  up_metadata :: "jsobj option"
  up_values :: "upload_value list option"
  up_task :: jsval

definition csv_get :: "csv_record \<Rightarrow> string \<Rightarrow> jsval" where
  "csv_get d k = (case map_of d k of None \<Rightarrow> JUndef | Some s \<Rightarrow> JStr s)"

definition parse_observation :: "sigopt_experiment \<Rightarrow> csv_record \<Rightarrow> js_error + upload_observation" where
  "parse_observation e d =
     (case set_deviations d (valuesByName d) of
        Inl err \<Rightarrow> Inl err
      | Inr vals \<Rightarrow>
          (let failed = maybeAsBoolean (csv_get d ''failed''); metadata = parse_metadata d
           in Inr \<lparr>up_assignments = parse_assignments e d,
                   up_failed = failed,
                   up_metadata = (if metadata = [] then None else Some metadata),
                   up_values = (if truthy failed then None else Some (map snd (property_order vals))),
                   up_task = csv_get d ''task_name''\<rparr>))"

definition parse_upload :: "sigopt_experiment \<Rightarrow> csv_record list \<Rightarrow> js_error + upload_observation list" where
  "parse_upload e data = map_ok (parse_observation e) (rev data)"

text \<open>
  The batches are sent one after the other, first all of them as a dry run. What the API answers
  to a call may depend on the calls before it.
\<close>

record upload_call =
  uc_observations :: "upload_observation list"
  uc_dry_run :: bool

type_synonym upload_api = "upload_call list \<Rightarrow> upload_call \<Rightarrow> failure option"

function upload ::
  "upload_api \<Rightarrow> nat jsopt \<Rightarrow> bool \<Rightarrow> upload_observation list \<Rightarrow> upload_call list \<Rightarrow>
   upload_call list \<times> (failure + unit)" where
  "upload api batchSize dryRun remaining calls =
     (if remaining = [] then (calls, Inr ())
      else if coalesce_opt batchSize 0 = 0 then (calls, Inl (Thrown (JsError ''Missing batch size'')))
      else
        (let n = coalesce_opt batchSize 0;
             call = \<lparr>uc_observations = take n remaining, uc_dry_run = dryRun\<rparr>
         in case api calls call of
              Some err \<Rightarrow> (calls @ [call], Inl err)
            | None \<Rightarrow> upload api batchSize dryRun (drop n remaining) (calls @ [call])))"
  by pat_completeness auto

termination upload
  by (relation "measure (\<lambda>(api, n, dry, remaining, calls). length remaining)") auto

declare upload.simps [simp del]

definition upload_all ::
  "upload_api \<Rightarrow> nat jsopt \<Rightarrow> upload_observation list \<Rightarrow> upload_call list \<times> (failure + unit)" where
  "upload_all api batchSize observations =
     (case upload api batchSize True observations [] of
        (calls, Inl err) \<Rightarrow> (calls, Inl err)
      | (calls, Inr _) \<Rightarrow> upload api batchSize False observations calls)"

text \<open>
  The form: its state, and the alert at the end of an upload. The errors are those of the parser and
  of the API and the one above; none is an exception of the language, whose text the engine chooses.
\<close>

record 'file upload_form =
  uf_loading :: bool
  uf_file :: "'file option"

definition handleChange :: "'file option \<Rightarrow> 'file upload_form \<Rightarrow> 'file upload_form" where
  "handleChange file s = s\<lparr>uf_file := file\<rparr>"

definition handleSubmit :: "'file upload_form \<Rightarrow> 'file upload_form \<times> 'file option" where
  "handleSubmit s = (case uf_file s of None \<Rightarrow> (s, None) | Some f \<Rightarrow> (s\<lparr>uf_loading := True\<rparr>, Some f))"

definition error_text :: "failure \<Rightarrow> string" where
  "error_text f =
     (case f of
        Http e \<Rightarrow> err_message e
      | Thrown (JsError m) \<Rightarrow> m
      | _ \<Rightarrow> [])"

definition handleSuccess :: "'file upload_form \<Rightarrow> 'file upload_form \<times> (string \<times> string)" where
  "handleSuccess s = (s\<lparr>uf_loading := False, uf_file := None\<rparr>, (''Successfully uploaded CSV'', ''success''))"

definition handleError :: "failure \<Rightarrow> 'file upload_form \<Rightarrow> 'file upload_form \<times> (string \<times> string)" where
  "handleError f s =
     (s\<lparr>uf_loading := False, uf_file := None\<rparr>,
      (if error_text f = [] then ''There was an error during the upload process.'' else error_text f,
       ''danger''))"

text \<open>
  What the end of the file leads to: the calls that were sent, the form, and the alert if there is
  one. An exception while the rows are read is nobody's to catch.
\<close>

definition bulkUpload ::
  "upload_api \<Rightarrow> nat jsopt \<Rightarrow> sigopt_experiment \<Rightarrow> failure + csv_record list \<Rightarrow> 'file upload_form \<Rightarrow>
   upload_call list \<times> 'file upload_form \<times> (string \<times> string) option" where
  "bulkUpload api batchSize e parsed s =
     (case parsed of
        Inl err \<Rightarrow> (case handleError err s of (s', alert) \<Rightarrow> ([], s', Some alert))
      | Inr data \<Rightarrow>
          (case parse_upload e data of
             Inl err \<Rightarrow> ([], s, None)
           | Inr observations \<Rightarrow>
               (case upload_all api batchSize observations of
                  (calls, Inr _) \<Rightarrow> (case handleSuccess s of (s', alert) \<Rightarrow> (calls, s', Some alert))
                | (calls, Inl err) \<Rightarrow> (case handleError err s of (s', alert) \<Rightarrow> (calls, s', Some alert)))))"

subsection \<open>Copy: copy/endpoint.js\<close>

definition uncopiedExperimentKeys :: "string list" where
  "uncopiedExperimentKeys = [''progress'', ''client'', ''state'', ''user'', ''development'', ''metric'']"

definition JSON_OBJECT_DENY_LIST :: "string list" where
  "JSON_OBJECT_DENY_LIST = [''created'', ''id'', ''object'', ''updated'']"

definition copied_name :: "string \<Rightarrow> string" where
  "copied_name name =
     (if 45 < length name then take 42 name @ ''... Copy'' else name @ '' Copy'')"

definition set_prop :: "string \<Rightarrow> (jsval \<Rightarrow> jsval) \<Rightarrow> jsobj \<Rightarrow> jsobj" where
  "set_prop k f ps = map (\<lambda>p. if fst p = k then (k, f (snd p)) else p) ps"

fun map_items :: "(jsobj \<Rightarrow> jsobj) \<Rightarrow> jsval \<Rightarrow> jsval" where
  "map_items f (JArr xs) = JArr (map (\<lambda>x. case x of JObj ps \<Rightarrow> JObj (f ps) | _ \<Rightarrow> x) xs)"
| "map_items f v = v"

definition copied_parameter :: "jsobj \<Rightarrow> jsobj" where
  "copied_parameter p =
     (if truthy (obj_get p ''grid'') then filter (\<lambda>kv. fst kv \<noteq> ''bounds'') p else p)"

text \<open>The name of an experiment is a text; without one the length of nothing is read.\<close>

definition copied_experiment :: "jsobj \<Rightarrow> js_error + jsobj" where
  "copied_experiment e =
     (case recursivelyOmitKeys (JObj (filter (\<lambda>p. fst p \<notin> set uncopiedExperimentKeys) e))
             JSON_OBJECT_DENY_LIST of
        JObj params \<Rightarrow>
          (case obj_get params ''name'' of
             JStr name \<Rightarrow>
               Inr (set_prop ''parameters'' (map_items copied_parameter)
                 (set_prop ''metrics'' (map_items (filter (\<lambda>kv. fst kv \<noteq> ''object'')))
                   (set_prop ''name'' (\<lambda>_. JStr (copied_name name)) params)))
           | _ \<Rightarrow> Inl TypeError)
      | _ \<Rightarrow> Inl TypeError)"

definition validateProject ::
  "(jsval \<Rightarrow> jsval \<Rightarrow> failure + jsval) \<Rightarrow> jsval \<Rightarrow> jsobj \<Rightarrow> failure + jsval" where
  "validateProject fetch_project clientId e =
     (if obj_get e ''client'' = clientId then Inr (obj_get e ''project'')
      else if truthy (obj_get e ''project'') then
        (case fetch_project clientId (obj_get e ''project'') of
           Inr project \<Rightarrow>
             if project \<in> {JUndef, JNull} then Inl (Thrown TypeError) else Inr (js_prop project ''id'')
         | Inl err \<Rightarrow> if failure_status err = JNum 404 then Inr JNull else Inl err)
      else Inr JNull)"

definition uncopiedObservationKeys :: "bool \<Rightarrow> string list" where
  "uncopiedObservationKeys hasValues =
     [''id'', ''object'', ''experiment'', ''created'', ''suggestion'']
     @ (if hasValues then [''value'', ''value_stddev''] else [''values''])"

definition clean_values :: "jsval \<Rightarrow> jsval" where
  "clean_values v =
     (if truthy v then map_items (filter (\<lambda>kv. fst kv \<noteq> ''object'')) v else v)"

definition clean_observation :: "bool \<Rightarrow> jsobj \<Rightarrow> jsobj" where
  "clean_observation hasValues ob =
     set_prop ''values'' clean_values
       (filter (\<lambda>kv. fst kv \<notin> set (uncopiedObservationKeys hasValues)) ob)"

definition has_values :: "jsobj list \<Rightarrow> bool" where
  "has_values observations = list_ex (\<lambda>ob. truthy (obj_get ob ''values'')) observations"

type_synonym create_api = "jsobj list list \<Rightarrow> jsobj list \<Rightarrow> failure option"

text \<open>A chunk size of zero leaves the rest as it is, and the loop may not end.\<close>

partial_function (option) copyObservations ::
  "create_api \<Rightarrow> nat \<Rightarrow> jsobj list \<Rightarrow> jsobj list list \<Rightarrow> (jsobj list list \<times> (failure + unit)) option" where
  "copyObservations api chunkSize allObservations sent =
     (if allObservations = [] then Some (sent, Inr ())
      else
        (let observations = rev (take chunkSize allObservations);
             paramsList = rev (map (clean_observation (has_values observations)) observations)
         in case api sent paramsList of
              Some err \<Rightarrow> Some (sent @ [paramsList], Inl err)
            | None \<Rightarrow> copyObservations api chunkSize (drop chunkSize allObservations) (sent @ [paramsList])))"

record copy_api =
  fetch_project :: "jsval \<Rightarrow> jsval \<Rightarrow> failure + jsval"
  create_experiment :: "jsval \<Rightarrow> jsobj \<Rightarrow> failure + jsval"
  list_observations :: "jsval \<Rightarrow> failure + jsobj list"
  create_observations :: "jsval \<Rightarrow> create_api"

record copy_request =
  cr_method :: string
  cr_experiment :: jsobj
  cr_clientId :: jsval
  cr_include_observations :: jsval
  cr_chunkSize :: nat

record copy_log =
  cl_created :: "(jsval \<times> jsobj) list"
  cl_batches :: "jsobj list list"

definition properties_page :: "jsval \<Rightarrow> failure" where
  "properties_page experimentId =
     makeRedirect (''/experiment/'' @ js_text experimentId @ ''/properties'') None"

definition copy_all_observations ::
  "copy_api \<Rightarrow> copy_request \<Rightarrow> jsval \<Rightarrow> (jsobj list list \<times> (failure + unit)) option" where
  "copy_all_observations api req newExperiment =
     (if cr_include_observations req = JStr ''on'' then
        (case list_observations api (obj_get (cr_experiment req) ''id'') of
           Inl err \<Rightarrow> Some ([], Inl err)
         | Inr observations \<Rightarrow>
             copyObservations (create_observations api (js_prop newExperiment ''id'')) (cr_chunkSize req)
               (rev observations) [])
      else Some ([], Inr ()))"

text \<open>The endpoint never resolves: it rejects with an error or with the redirect to a page.\<close>

definition copy_endpoint :: "copy_api \<Rightarrow> copy_request \<Rightarrow> (copy_log \<times> failure) option" where
  "copy_endpoint api req =
     (let e = cr_experiment req; nothing = \<lparr>cl_created = [], cl_batches = []\<rparr>
      in if \<not> truthy (cr_clientId req) then Some (nothing, makeRedirect ''/user/info'' None)
      else if cr_method req \<noteq> ''POST'' then Some (nothing, properties_page (obj_get e ''id''))
      else case copied_experiment e of
        Inl err \<Rightarrow> Some (nothing, Thrown err)
      | Inr params \<Rightarrow>
          (case validateProject (fetch_project api) (cr_clientId req) e of
             Inl err \<Rightarrow> Some (nothing, err)
           | Inr projectId \<Rightarrow>
               (let body = obj_extend params [(''project'', projectId)]
                in case create_experiment api (cr_clientId req) body of
                     Inl err \<Rightarrow> Some (nothing\<lparr>cl_created := [(cr_clientId req, body)]\<rparr>, err)
                   | Inr newExperiment \<Rightarrow>
                       (case copy_all_observations api req newExperiment of
                          None \<Rightarrow> None
                        | Some (batches, r) \<Rightarrow>
                            Some (\<lparr>cl_created = [(cr_clientId req, body)], cl_batches = batches\<rparr>,
                              case r of Inl err \<Rightarrow> err
                              | Inr _ \<Rightarrow> properties_page (js_prop newExperiment ''id''))))))"

subsection \<open>Safe cells\<close>

lemma trim_addLeadingSpace [simp]: "trimLeadingSpaces (addLeadingSpace s) = trimLeadingSpaces s"
  by (simp add: trimLeadingSpaces_def addLeadingSpace_def)

lemma dangerous_addLeadingSpace [simp]:
  "hasDangerousPrefix (addLeadingSpace s) = hasDangerousPrefix s"
  by (simp add: hasDangerousPrefix_def)

lemma unsanitize_sanitize [simp]: "unsanitize_text (sanitize_text s) = s"
  by (simp add: unsanitize_text_def sanitize_text_def maybeRemoveLeadingSpace_def)
    (simp add: addLeadingSpace_def)

lemma sanitize_start:
  assumes "sanitize_text s = c # t" shows "c \<notin> set invalidStartCharacters"
proof (cases "hasDangerousPrefix s")
  case True
  then show ?thesis
    using assms by (auto simp: sanitize_text_def addLeadingSpace_def invalidStartCharacters_def)
next
  case False
  then have s: "s = c # t" using assms by (simp add: sanitize_text_def)
  show ?thesis
  proof
    assume c: "c \<in> set invalidStartCharacters"
    then have "c \<noteq> CHR '' ''" by (auto simp: invalidStartCharacters_def)
    then have "trimLeadingSpaces s = c # t" by (simp add: s trimLeadingSpaces_def)
    with c False show False by (auto simp: hasDangerousPrefix_def list_ex_iff)
  qed
qed

text \<open>A cell of a download never begins with a character that starts a formula, and reading it
  back gives the text it was made from.\<close>

theorem cells_are_safe:
  "(case excelSanitize (JStr s) of
      JStr t \<Rightarrow> take 1 t \<notin> (\<lambda>c. [c]) ` set invalidStartCharacters \<and> excelUnsanitize (JStr t) = JStr s
    | _ \<Rightarrow> False)"
proof -
  have "take 1 (sanitize_text s) \<noteq> [c]" if "c \<in> set invalidStartCharacters" for c
    using sanitize_start [of s c] that by (cases "sanitize_text s") auto
  then show ?thesis by auto
qed

subsection \<open>Batches\<close>

text \<open>What sending a list in batches amounts to.\<close>

fun chunks :: "nat \<Rightarrow> 'a list \<Rightarrow> 'a list list" where
  "chunks n [] = []"
| "chunks n (x # xs) = take (Suc n) (x # xs) # chunks n (drop n xs)"

lemma concat_chunks [simp]: "concat (chunks n xs) = xs"
  by (induction n xs rule: chunks.induct) auto

lemma chunks_bound: "c \<in> set (chunks n xs) \<Longrightarrow> c \<noteq> [] \<and> length c \<le> Suc n"
  by (induction n xs rule: chunks.induct) auto

lemma chunks_step: "xs \<noteq> [] \<Longrightarrow> chunks n xs = take (Suc n) xs # chunks n (drop (Suc n) xs)"
  by (cases xs) simp_all

definition batch_call :: "bool \<Rightarrow> upload_observation list \<Rightarrow> upload_call" where
  "batch_call dry b = \<lparr>uc_observations = b, uc_dry_run = dry\<rparr>"

lemma upload_Nil [simp]: "upload api b dry [] calls = (calls, Inr ())"
  by (simp add: upload.simps)

lemma upload_step:
  "xs \<noteq> [] \<Longrightarrow> upload api (Val (Suc n)) dry xs calls =
     (case api calls (batch_call dry (take (Suc n) xs)) of
        Some err \<Rightarrow> (calls @ [batch_call dry (take (Suc n) xs)], Inl err)
      | None \<Rightarrow> upload api (Val (Suc n)) dry (drop (Suc n) xs) (calls @ [batch_call dry (take (Suc n) xs)]))"
  by (subst upload.simps) (simp add: batch_call_def Let_def cong: option.case_cong)

lemma upload_trace:
  "upload api (Val (Suc n)) dry xs calls = (calls', r) \<Longrightarrow>
   \<exists>k \<le> length (chunks n xs).
     calls' = calls @ map (batch_call dry) (take k (chunks n xs)) \<and>
     (r = Inr () \<longrightarrow> k = length (chunks n xs) \<and>
       (\<forall>i. length calls \<le> i \<and> i < length calls' \<longrightarrow> api (take i calls') (calls' ! i) = None))"
proof (induction "length xs" arbitrary: xs calls rule: less_induct)
  case less
  show ?case
  proof (cases "xs = []")
    case True
    then show ?thesis using less.prems by auto
  next
    case False
    let ?call = "batch_call dry (take (Suc n) xs)"
    note step = chunks_step [OF False, of n]
    show ?thesis
    proof (cases "api calls ?call")
      case (Some err)
      then have "calls' = calls @ [?call]" "r = Inl err"
        using less.prems by (simp_all add: upload_step [OF False])
      then show ?thesis using step by (intro exI [of _ "Suc 0"]) simp
    next
      case None
      then have rest: "upload api (Val (Suc n)) dry (drop (Suc n) xs) (calls @ [?call]) = (calls', r)"
        using less.prems by (simp add: upload_step [OF False])
      have "length (drop (Suc n) xs) < length xs" using False by simp
      from less.hyps [OF this rest] obtain k where k: "k \<le> length (chunks n (drop (Suc n) xs))"
        and calls': "calls' = (calls @ [?call]) @ map (batch_call dry) (take k (chunks n (drop (Suc n) xs)))"
        and ok: "r = Inr () \<longrightarrow> k = length (chunks n (drop (Suc n) xs)) \<and>
          (\<forall>i. length (calls @ [?call]) \<le> i \<and> i < length calls' \<longrightarrow> api (take i calls') (calls' ! i) = None)"
        by blast
      have first: "api (take (length calls) calls') (calls' ! length calls) = None"
        using None by (simp add: calls' nth_append)
      have "\<forall>i. length calls \<le> i \<and> i < length calls' \<longrightarrow> api (take i calls') (calls' ! i) = None"
        if "r = Inr ()"
      proof (intro allI impI)
        fix i assume i: "length calls \<le> i \<and> i < length calls'"
        show "api (take i calls') (calls' ! i) = None"
          using first ok that i by (cases "i = length calls") auto
      qed
      then show ?thesis using k calls' ok step by (intro exI [of _ "Suc k"]) simp
    qed
  qed
qed


lemma upload_all_trace:
  assumes "upload_all api (Val (Suc n)) obs = (calls, r)"
  shows "\<exists>j k. calls = map (batch_call True) (take j (chunks n obs))
             @ map (batch_call False) (take k (chunks n obs)) \<and>
           j \<le> length (chunks n obs) \<and> k \<le> length (chunks n obs) \<and>
           (0 < k \<longrightarrow> j = length (chunks n obs) \<and> (\<forall>i<j. api (take i calls) (calls ! i) = None)) \<and>
           (r = Inr () \<longrightarrow> k = length (chunks n obs))"
proof -
  obtain calls1 r1 where dry: "upload api (Val (Suc n)) True obs [] = (calls1, r1)" by fastforce
  from upload_trace [OF this] obtain j where j: "j \<le> length (chunks n obs)"
    and calls1: "calls1 = [] @ map (batch_call True) (take j (chunks n obs))"
    and ok: "r1 = Inr () \<longrightarrow> j = length (chunks n obs) \<and>
      (\<forall>i. length ([] :: upload_call list) \<le> i \<and> i < length calls1 \<longrightarrow>
        api (take i calls1) (calls1 ! i) = None)"
    by (elim exE conjE)
  show ?thesis
  proof (cases r1)
    case (Inl err)
    then have "calls = calls1" "r = Inl err" using assms dry by (simp_all add: upload_all_def)
    then show ?thesis using j calls1 by (intro exI [of _ j] exI [of _ 0]) simp
  next
    case (Inr u)
    then have "upload api (Val (Suc n)) False obs calls1 = (calls, r)"
      using assms dry by (simp add: upload_all_def)
    from upload_trace [OF this] obtain k where k: "k \<le> length (chunks n obs)"
      and calls: "calls = calls1 @ map (batch_call False) (take k (chunks n obs))"
      and real: "r = Inr () \<longrightarrow> k = length (chunks n obs) \<and>
        (\<forall>i. length calls1 \<le> i \<and> i < length calls \<longrightarrow> api (take i calls) (calls ! i) = None)"
      by (elim exE conjE)
    have accepted: "api (take i calls) (calls ! i) = None" if "i < j" for i
    proof -
      have "r1 = Inr ()" using Inr by (cases u) simp
      with ok have acc: "\<And>i. i < length calls1 \<Longrightarrow> api (take i calls1) (calls1 ! i) = None" by simp
      have "i < length calls1" using that j calls1 by simp
      with acc [OF this] show ?thesis by (simp add: calls nth_append)
    qed
    show ?thesis
      using j k calls calls1 accepted real ok Inr by (intro exI [of _ j] exI [of _ k]) simp
  qed
qed

lemma upload_all_safe:
  assumes "upload_all api (Val (Suc n)) obs = (calls, r)"
  shows "\<forall>c \<in> set calls. length (uc_observations c) \<le> Suc n"
    and "calls = filter uc_dry_run calls @ filter (\<lambda>c. \<not> uc_dry_run c) calls"
    and "\<exists>c \<in> set calls. \<not> uc_dry_run c \<Longrightarrow>
      concat (map uc_observations (filter uc_dry_run calls)) = obs \<and>
      (\<forall>i < length (filter uc_dry_run calls). api (take i calls) (calls ! i) = None)"
    and "r = Inr () \<Longrightarrow> concat (map uc_observations (filter (\<lambda>c. \<not> uc_dry_run c) calls)) = obs"
proof -
  from upload_all_trace [OF assms] obtain j k
    where calls: "calls = map (batch_call True) (take j (chunks n obs))
             @ map (batch_call False) (take k (chunks n obs))"
      and j: "j \<le> length (chunks n obs)" and k: "k \<le> length (chunks n obs)"
      and real: "0 < k \<longrightarrow> j = length (chunks n obs) \<and> (\<forall>i<j. api (take i calls) (calls ! i) = None)"
      and all: "r = Inr () \<longrightarrow> k = length (chunks n obs)"
    by (elim exE conjE)
  have dry: "filter uc_dry_run calls = map (batch_call True) (take j (chunks n obs))"
    and send: "filter (\<lambda>c. \<not> uc_dry_run c) calls = map (batch_call False) (take k (chunks n obs))"
    by (simp_all add: calls filter_map batch_call_def comp_def)
  have batches: "map uc_observations (map (batch_call d) bs) = bs" for d bs
    by (simp add: batch_call_def comp_def)
  show "\<forall>c \<in> set calls. length (uc_observations c) \<le> Suc n"
    by (auto simp: calls batch_call_def dest!: in_set_takeD chunks_bound)
  show "calls = filter uc_dry_run calls @ filter (\<lambda>c. \<not> uc_dry_run c) calls"
    by (simp add: dry send) (rule calls)
  show "concat (map uc_observations (filter uc_dry_run calls)) = obs \<and>
      (\<forall>i < length (filter uc_dry_run calls). api (take i calls) (calls ! i) = None)"
    if "\<exists>c \<in> set calls. \<not> uc_dry_run c"
  proof -
    from that have "filter (\<lambda>c. \<not> uc_dry_run c) calls \<noteq> []" by (auto simp: filter_empty_conv)
    then have "0 < k" by (simp add: send)
    with real have jk: "j = length (chunks n obs)" "\<forall>i<j. api (take i calls) (calls ! i) = None"
      by simp_all
    show ?thesis using jk by (simp add: dry batches del: map_map)
  qed
  show "concat (map uc_observations (filter (\<lambda>c. \<not> uc_dry_run c) calls)) = obs" if "r = Inr ()"
    using all that by (simp add: send batches del: map_map)
qed

text \<open>C27: an upload first sends every batch as a dry run; nothing is created unless the API has
  accepted all of them, no request is larger than the limit, and an upload that ends well has
  created all the observations, once and in the order of the rows from the last to the first.\<close>

theorem upload_checks_first:
  assumes "upload_all api (Val (Suc n)) obs = (calls, r)"
  shows "(\<forall>c \<in> set calls. length (uc_observations c) \<le> Suc n) \<and>
    calls = filter uc_dry_run calls @ filter (\<lambda>c. \<not> uc_dry_run c) calls \<and>
    ((\<exists>c \<in> set calls. \<not> uc_dry_run c) \<longrightarrow>
       concat (map uc_observations (filter uc_dry_run calls)) = obs \<and>
       (\<forall>i < length (filter uc_dry_run calls). api (take i calls) (calls ! i) = None)) \<and>
    (r = Inr () \<longrightarrow> concat (map uc_observations (filter (\<lambda>c. \<not> uc_dry_run c) calls)) = obs)"
  using upload_all_safe [OF assms] by blast

definition example_upload :: "nat \<Rightarrow> upload_observation" where
  "example_upload i =
     \<lparr>up_assignments = [(''x'', JNum (of_nat i))], up_failed = JBool False, up_metadata = None,
      up_values = Some [], up_task = JUndef\<rparr>"

text \<open>The third call is refused: the first batch of three, after the dry runs of two batches.\<close>

definition example_upload_api :: upload_api where
  "example_upload_api calls call =
     (if length calls = 2 then Some (Http (BadParamError JUndef)) else None)"

lemma upload_checks_first_witness:
  "(let (calls, r) = upload_all example_upload_api (Val 2) (map example_upload [1, 2, 3])
    in map uc_dry_run calls = [True, True, False] \<and> r = Inl (Http (BadParamError JUndef)) \<and>
       concat (map uc_observations (filter uc_dry_run calls)) = map example_upload [1, 2, 3])"
proof -
  let ?obs = "map example_upload [1, 2, 3]"
  have run: "upload_all example_upload_api (Val (Suc 1)) ?obs =
      ([batch_call True (take 2 ?obs), batch_call True (drop 2 ?obs), batch_call False (take 2 ?obs)],
       Inl (Http (BadParamError JUndef)))"
    by (simp add: upload_all_def upload_step example_upload_api_def numeral_2_eq_2)
  show ?thesis
    using upload_checks_first [OF run] run
    by (simp add: batch_call_def numeral_2_eq_2)
qed

subsection \<open>Numbers as text\<close>

text \<open>
  The laws of the decimal text of numbers: of those in use, reading the text gives the number back.
  Integers are written by the model itself.
\<close>

definition readable :: "(rat \<Rightarrow> string) \<Rightarrow> jsval \<Rightarrow> bool" where
  "readable num_text v = (case v of JNum n \<Rightarrow> number_of_text (num_text n) = Some n | _ \<Rightarrow> False)"

lemma number_of_Nil [simp]: "number_of_text [] = None"
  by (simp add: number_of_text_def trim_def parse_decimal_def is_radix_literal_def)

lemma number_of_nat_digits:
  "(of_nat n :: rat) < double_limit \<Longrightarrow> number_of_text (nat_digits n) = Some (of_nat n)"
  by (simp add: number_of_text_def trim_digits nat_digits_digit digits_not_radix parse_digits
      nat_digits_not_Nil nat_digits_val Let_def)

lemma trim_minus_digits: "list_all is_digit s \<Longrightarrow> trim (CHR ''-'' # s) = CHR ''-'' # s"
proof -
  assume "list_all is_digit s"
  then have "\<forall>c \<in> set s. \<not> is_ws c" by (simp add: list_all_iff is_digit_not_ws)
  moreover have "\<not> is_ws (CHR ''-'')" by (simp add: is_ws_def)
  ultimately have "list_all (\<lambda>c. \<not> is_ws c) (CHR ''-'' # s)" by (simp add: list_all_iff)
  then have "list_all (\<lambda>c. \<not> is_ws c) (CHR ''-'' # s)" "list_all (\<lambda>c. \<not> is_ws c) (rev (CHR ''-'' # s))"
    by (auto simp: list_all_iff)
  then show ?thesis unfolding trim_def by (simp only: dropWhile_none rev_rev_ident)
qed

lemma number_of_minus_digits:
  assumes "(of_nat n :: rat) < double_limit"
  shows "number_of_text (CHR ''-'' # nat_digits n) = Some (- of_nat n)"
proof -
  have "parse_unsigned (nat_digits n) = Some (of_nat n)"
  proof -
    have digits: "takeWhile is_digit (nat_digits n) = nat_digits n" "dropWhile is_digit (nat_digits n) = []"
      using nat_digits_digit [of n]
      by (simp_all add: takeWhile_eq_all_conv dropWhile_eq_Nil_conv list_all_iff)
    show ?thesis
      unfolding parse_unsigned_def digits
      by (simp add: parse_exponent_def scale10_def Let_def nat_digits_not_Nil nat_digits_val)
  qed
  moreover have "\<not> is_radix_literal (CHR ''-'' # nat_digits n)"
    by (auto simp: is_radix_literal_def split: list.split)
  ultimately show ?thesis
    using assms by (simp add: number_of_text_def trim_minus_digits nat_digits_digit parse_decimal_def)
qed

lemma toFixed0_int:
  assumes "\<bar>i\<bar> < 10 ^ 21"
  shows "number_of_text (toFixed0 num_text (of_int i)) = Some (of_int i)"
proof -
  have bound: "\<bar>of_int i :: rat\<bar> < 10 ^ 21"
    using assms by (metis of_int_abs of_int_less_iff of_int_numeral of_int_power)
  then have small: "(of_nat (nat \<bar>i\<bar>) :: rat) < double_limit"
    using limit_bound by (simp add: of_nat_nat)
  have floor: "\<lfloor>of_int k + 1 / 2 :: rat\<rfloor> = k" for k :: int
    by (rule floor_unique) simp_all
  show ?thesis
  proof (cases "i < 0")
    case True
    have "toFixed0 num_text (of_int i) = CHR ''-'' # nat_digits (nat \<bar>i\<bar>)"
      using bound True floor [of "- i"] by (simp add: toFixed0_def)
    moreover have "- (of_nat (nat \<bar>i\<bar>) :: rat) = of_int i" using True by (simp add: of_nat_nat)
    ultimately show ?thesis using number_of_minus_digits [OF small] by simp
  next
    case False
    have "toFixed0 num_text (of_int i) = nat_digits (nat \<bar>i\<bar>)"
      using bound False floor [of i] by (simp add: toFixed0_def)
    moreover have "(of_nat (nat \<bar>i\<bar>) :: rat) = of_int i" using False by (simp add: of_nat_nat)
    ultimately show ?thesis using number_of_nat_digits [OF small] by simp
  qed
qed

lemma form_number_readable:
  "readable num_text v \<Longrightarrow> form_maybeAsNumber (JStr (asString num_text v)) = v"
  by (cases v) (auto simp: readable_def asString_def form_maybeAsNumber_def maybeAsNumber_def
      isDefinedAndNotNull_def isUndefinedOrNull_def)

lemma map_ok_each: "map_ok f xs = Inr ys \<longleftrightarrow> list_all2 (\<lambda>x y. f x = Inr y) xs ys"
proof (induction xs arbitrary: ys)
  case (Cons x xs)
  have "map_ok f (x # xs) = Inr ys \<longleftrightarrow> (\<exists>y zs. ys = y # zs \<and> f x = Inr y \<and> map_ok f xs = Inr zs)"
    by (auto split: sum.splits)
  then show ?case by (simp add: Cons.IH list_all2_Cons1)
qed auto

lemma map_ok_all: "(\<And>x. x \<in> set xs \<Longrightarrow> f x = Inr (g x)) \<Longrightarrow> map_ok f xs = Inr (map g xs)"
  by (induction xs) auto

lemma map_ok_append:
  "map_ok f xs = Inr as \<Longrightarrow> map_ok f ys = Inr bs \<Longrightarrow> map_ok f (xs @ ys) = Inr (as @ bs)"
  by (simp add: map_ok_each list_all2_appendI)

subsection \<open>Observations that can be read back\<close>

lemma set_js_insert: "set (js_insert cmp x xs) = insert x (set xs)"
  by (induction xs) auto

lemma distinct_js_insert: "x \<notin> set xs \<Longrightarrow> distinct xs \<Longrightarrow> distinct (js_insert cmp x xs)"
  by (induction xs) (auto simp: set_js_insert)

lemma set_js_sort: "set (js_sort cmp xs) = set xs \<and> (distinct xs \<longrightarrow> distinct (js_sort cmp xs))"
proof -
  have elems: "set (foldr (js_insert cmp) ys []) = set ys" for ys
    by (induction ys) (simp_all add: set_js_insert)
  moreover have "distinct ys \<Longrightarrow> distinct (foldr (js_insert cmp) ys [])" for ys
    by (induction ys) (simp_all add: elems distinct_js_insert)
  ultimately show ?thesis by (simp add: js_sort_def)
qed

lemma getMetadataKeys_set:
  "set (getMetadataKeys natCompare mds) = (\<Union>md \<in> set mds. fst ` set md)"
  "distinct (getMetadataKeys natCompare mds)"
  by (auto simp: getMetadataKeys_def set_js_sort)

text \<open>An experiment and observations as the API gives them.\<close>

definition metric_text :: "metric \<Rightarrow> string" where
  "metric_text m = (if truthy (mt_name m) then js_text (mt_name m) else [])"

definition wf_csv_experiment :: "sigopt_experiment \<Rightarrow> bool" where
  "wf_csv_experiment e \<longleftrightarrow>
     names_distinct e \<and> distinct (map metric_text (ex_metrics e)) \<and>
     list_all (\<lambda>m. case mt_name m of JStr s \<Rightarrow> s \<noteq> [] | JNull \<Rightarrow> True | _ \<Rightarrow> False) (ex_metrics e)"

definition plain_parameter :: "(rat \<Rightarrow> string) \<Rightarrow> jsobj \<Rightarrow> exp_parameter \<Rightarrow> bool" where
  "plain_parameter num_text a p =
     (case map_of a (pm_name p) of
        None \<Rightarrow> pm_type p = ''int'' \<or> pm_type p = ''double''
      | Some v \<Rightarrow>
          if pm_type p = ''double'' then readable num_text v
          else if pm_type p = ''int'' then
            (case v of JNum n \<Rightarrow> n = of_int \<lfloor>n\<rfloor> \<and> \<bar>\<lfloor>n\<rfloor>\<bar> < 10 ^ 21 | _ \<Rightarrow> False)
          else (case v of JStr s \<Rightarrow> True | _ \<Rightarrow> False))"

definition plain_conditional :: "jsobj \<Rightarrow> exp_conditional \<Rightarrow> bool" where
  "plain_conditional a c = (case map_of a (cd_name c) of Some (JStr s) \<Rightarrow> True | _ \<Rightarrow> False)"

definition plain_metadata :: "(rat \<Rightarrow> string) \<Rightarrow> jsval \<Rightarrow> bool" where
  "plain_metadata num_text v =
     (case v of
        JStr s \<Rightarrow> s \<noteq> [] \<and> number_of_text s = None
      | _ \<Rightarrow> readable num_text v)"

definition plain_measurement :: "(rat \<Rightarrow> string) \<Rightarrow> measurement \<Rightarrow> bool" where
  "plain_measurement num_text v \<longleftrightarrow>
     readable num_text (ms_value v) \<and>
     (ms_value_stddev v = JNull \<or> readable num_text (ms_value_stddev v))"

definition observation_metadata :: "api_observation \<Rightarrow> jsobj" where
  "observation_metadata ob = (case ao_metadata ob of None \<Rightarrow> [] | Some md \<Rightarrow> md)"

definition plain_observation ::
  "(rat \<Rightarrow> string) \<Rightarrow> sigopt_experiment \<Rightarrow> api_observation \<Rightarrow> bool" where
  "plain_observation num_text e ob \<longleftrightarrow>
     (case ob_assignments ob of
        None \<Rightarrow> False
      | Some a \<Rightarrow>
          fst ` set a \<subseteq> pm_name ` set (ex_parameters e) \<union> cd_name ` set (ex_conditionals e) \<and>
          list_all (plain_parameter num_text a) (ex_parameters e) \<and>
          list_all (plain_conditional a) (ex_conditionals e)) \<and>
     distinct (map fst (observation_metadata ob)) \<and>
     list_all (\<lambda>kv. plain_metadata num_text (snd kv)) (observation_metadata ob) \<and>
     is_boolean (ob_failed ob) \<and>
     (truthy (ob_failed ob) \<or>
       map ms_name (ob_values ob) = map mt_name (ex_metrics e) \<and>
       list_all (plain_measurement num_text) (ob_values ob)) \<and>
     (ex_tasks e \<noteq> None \<longrightarrow> ao_task ob \<noteq> None)"

text \<open>What an upload should send for an observation; names that are missing become empty.\<close>

definition uploaded_value :: "measurement \<Rightarrow> upload_value" where
  "uploaded_value v =
     \<lparr>uv_name = (if truthy (ms_name v) then js_text (ms_name v) else []),
      uv_value = ms_value v, uv_value_stddev = Some (ms_value_stddev v)\<rparr>"

text \<open>The values are listed as the object they were collected in lists them: a metric named by an integer first.\<close>

definition in_name_order :: "upload_value list \<Rightarrow> upload_value list" where
  "in_name_order us = map snd (property_order (map (\<lambda>u. (uv_name u, u)) us))"

definition uploads :: "sigopt_experiment \<Rightarrow> upload_observation \<Rightarrow> api_observation \<Rightarrow> bool" where
  "uploads e u ob \<longleftrightarrow>
     map_of (up_assignments u) = map_of (the (ob_assignments ob)) \<and>
     up_failed u = ob_failed ob \<and>
     map_of (case up_metadata u of None \<Rightarrow> [] | Some md \<Rightarrow> md) = map_of (observation_metadata ob) \<and>
     up_values u = (if truthy (ob_failed ob) then None else Some (in_name_order (map uploaded_value (ob_values ob)))) \<and>
     up_task u = (case ex_tasks e of None \<Rightarrow> JUndef | Some ts \<Rightarrow> JStr (tk_name (the (ao_task ob))))"

subsection \<open>The columns of a download\<close>

lemma obj_extend_fresh: "distinct (map fst b) \<Longrightarrow> obj_extend [] b = b"
  using fold_update_fresh [of fst b "[]" snd] by (simp add: obj_extend_def)

definition column_names :: "sigopt_experiment \<Rightarrow> string list \<Rightarrow> string list" where
  "column_names e keys =
     map (\<lambda>p. ''parameter-'' @ pm_name p) (ex_parameters e)
     @ map (\<lambda>c. ''conditional-'' @ cd_name c) (ex_conditionals e)
     @ concat (map (\<lambda>m. [metric_column ''value'' m, metric_column ''value_stddev'' m]) (ex_metrics e))
     @ (case ex_tasks e of None \<Rightarrow> [] | Some ts \<Rightarrow> [''task_name'', ''task_cost''])
     @ [''failed'', ''created''] @ map (\<lambda>k. ''metadata-'' @ k) keys @ [''id'']"

lemma columns_orderedAccessors: "map fst (orderedAccessors num_text e keys) = column_names e keys"
  by (simp add: orderedAccessors_def column_names_def map_concat comp_def split: option.split)

lemma metric_column_text:
  "metric_column c m = (if metric_text m = [] then c else c @ ''-'' @ metric_text m)"
  if "case mt_name m of JStr s \<Rightarrow> s \<noteq> [] | JNull \<Rightarrow> True | _ \<Rightarrow> False"
  using that by (auto simp: metric_column_def metric_text_def split: jsval.splits)

lemma distinct_metric_columns:
  assumes "distinct (map metric_text ms)"
    "list_all (\<lambda>m. case mt_name m of JStr s \<Rightarrow> s \<noteq> [] | JNull \<Rightarrow> True | _ \<Rightarrow> False) ms"
  shows "distinct (concat (map (\<lambda>m. [metric_column ''value'' m, metric_column ''value_stddev'' m]) ms))"
  using assms
proof (induction ms)
  case (Cons m ms)
  have "metric_column c m \<notin> {metric_column ''value'' x, metric_column ''value_stddev'' x}"
    if "x \<in> set ms" "c = ''value'' \<or> c = ''value_stddev''" for x c
  proof -
    have "metric_text x \<noteq> metric_text m" using Cons.prems that(1) by (metis distinct.simps(2) image_eqI list.set_map list.simps(9))
    moreover have "case mt_name x of JStr s \<Rightarrow> s \<noteq> [] | JNull \<Rightarrow> True | _ \<Rightarrow> False"
      using Cons.prems(2) that(1) by (auto simp: list_all_iff)
    ultimately show ?thesis
      using that(2) Cons.prems(2) by (auto simp: metric_column_text)
  qed
  then show ?case
    using Cons by (auto simp: metric_column_text)
qed simp

lemma value_columns_prefix:
  "k \<in> set (concat (map (\<lambda>m. [metric_column ''value'' m, metric_column ''value_stddev'' m]) ms)) \<Longrightarrow>
   prefix ''value'' k"
  by (auto simp: metric_column_def)

lemma distinct_column_names:
  assumes "wf_csv_experiment e" "distinct keys"
  shows "distinct (column_names e keys)"
proof -
  have inj: "distinct (map (\<lambda>x. pre @ f x) xs) = distinct (map f xs)" for pre :: string and f :: "'a \<Rightarrow> string" and xs
    by (simp add: distinct_map inj_on_def)
  have names: "distinct (map pm_name (ex_parameters e))" "distinct (map cd_name (ex_conditionals e))"
    using assms(1) by (simp_all add: wf_csv_experiment_def names_distinct_def)
  define vs where
    "vs = concat (map (\<lambda>m. [metric_column ''value'' m, metric_column ''value_stddev'' m]) (ex_metrics e))"
  have vs: "distinct vs"
    using assms(1) unfolding vs_def
    by (intro distinct_metric_columns) (simp_all add: wf_csv_experiment_def)
  have vs_prefix: "prefix ''value'' k" if "k \<in> set vs" for k
    using that unfolding vs_def by (rule value_columns_prefix)
  have "distinct (map (\<lambda>p. ''parameter-'' @ pm_name p) (ex_parameters e))"
    "distinct (map (\<lambda>c. ''conditional-'' @ cd_name c) (ex_conditionals e))"
    using names by (simp_all only: inj)
  moreover have "distinct (map ((@) ''metadata-'') keys)"
    using assms(2) by (simp add: distinct_map inj_on_def)
  ultimately show ?thesis
    using vs unfolding column_names_def vs_def [symmetric]
    by (auto dest!: vs_prefix split: option.split)
qed

subsection \<open>The record of a row\<close>

text \<open>The record of a row, from the texts of its cells.\<close>

record cell_texts =
  ct_parameter :: "exp_parameter \<Rightarrow> string"
  ct_conditional :: "exp_conditional \<Rightarrow> string"
  ct_value :: "metric \<Rightarrow> string"
  ct_stddev :: "metric \<Rightarrow> string"
  ct_task :: "string \<times> string"
  ct_failed :: string
  ct_created :: string
  ct_metadata :: "string \<Rightarrow> string"
  ct_id :: string

definition row_record :: "sigopt_experiment \<Rightarrow> string list \<Rightarrow> cell_texts \<Rightarrow> csv_record" where
  "row_record e keys t =
     map (\<lambda>p. (''parameter-'' @ pm_name p, ct_parameter t p)) (ex_parameters e)
     @ map (\<lambda>c. (''conditional-'' @ cd_name c, ct_conditional t c)) (ex_conditionals e)
     @ concat (map (\<lambda>m. [(metric_column ''value'' m, ct_value t m),
         (metric_column ''value_stddev'' m, ct_stddev t m)]) (ex_metrics e))
     @ (case ex_tasks e of None \<Rightarrow> []
        | Some ts \<Rightarrow> [(''task_name'', fst (ct_task t)), (''task_cost'', snd (ct_task t))])
     @ [(''failed'', ct_failed t), (''created'', ct_created t)]
     @ map (\<lambda>k. (''metadata-'' @ k, ct_metadata t k)) keys
     @ [(''id'', ct_id t)]"

lemma row_record_names: "map fst (row_record e keys t) = column_names e keys"
  by (simp add: row_record_def column_names_def map_concat comp_def split: option.split)

lemmas column_tests = is_assignment_column_def is_value_column_def reservedColumns_def
  startsWith_iff_prefix metric_column_def

lemma filter_pairs: "filter P (concat (map (\<lambda>m. [f m, g m]) ms)) =
    concat (map (\<lambda>m. filter P [f m, g m]) ms)"
  by (induction ms) auto

lemma concat_single: "concat (map (\<lambda>m. [f m]) ms) = map f ms"
  by (induction ms) auto

lemma row_assignments:
  "filter (\<lambda>kv. is_assignment_column (fst kv)) (row_record e keys t) =
     map (\<lambda>p. (''parameter-'' @ pm_name p, ct_parameter t p)) (ex_parameters e)
     @ map (\<lambda>c. (''conditional-'' @ cd_name c, ct_conditional t c)) (ex_conditionals e)"
proof -
  have "filter (\<lambda>kv. is_assignment_column (fst kv)) (concat (map (\<lambda>m. [(metric_column ''value'' m, ct_value t m),
         (metric_column ''value_stddev'' m, ct_stddev t m)]) ms)) = []" for ms
    by (induction ms) (auto simp: column_tests)
  then show ?thesis
    unfolding row_record_def filter_append
    by (simp add: filter_map comp_def column_tests split: option.split)
qed

lemma row_metadata:
  "filter (\<lambda>kv. startsWith (fst kv) ''metadata-'') (row_record e keys t) =
     map (\<lambda>k. (''metadata-'' @ k, ct_metadata t k)) keys"
proof -
  have "filter (\<lambda>kv. startsWith (fst kv) ''metadata-'') (concat (map (\<lambda>m. [(metric_column ''value'' m, ct_value t m),
         (metric_column ''value_stddev'' m, ct_stddev t m)]) ms)) = []" for ms
    by (induction ms) (auto simp: column_tests)
  then show ?thesis
    unfolding row_record_def filter_append
    by (simp add: filter_map comp_def column_tests split: option.split)
qed

lemma row_values:
  "filter (\<lambda>kv. is_value_column (fst kv)) (row_record e keys t) =
     map (\<lambda>m. (metric_column ''value'' m, ct_value t m)) (ex_metrics e)"
proof -
  have "filter (\<lambda>kv. is_value_column (fst kv)) (concat (map (\<lambda>m. [(metric_column ''value'' m, ct_value t m),
         (metric_column ''value_stddev'' m, ct_stddev t m)]) ms)) =
     map (\<lambda>m. (metric_column ''value'' m, ct_value t m)) ms" for ms
    by (induction ms) (auto simp: column_tests)
  then show ?thesis
    unfolding row_record_def filter_append
    by (simp add: filter_map comp_def column_tests split: option.split)
qed

lemma row_get:
  assumes "wf_csv_experiment e" "distinct keys" "(k, v) \<in> set (row_record e keys t)"
  shows "csv_get (row_record e keys t) k = JStr v"
proof -
  have "distinct (map fst (row_record e keys t))"
    using assms(1,2) by (simp add: row_record_names distinct_column_names)
  then show ?thesis using assms(3) by (simp add: csv_get_def)
qed

lemma row_task:
  assumes "wf_csv_experiment e" "distinct keys"
  shows "csv_get (row_record e keys t) ''task_name'' =
    (case ex_tasks e of None \<Rightarrow> JUndef | Some ts \<Rightarrow> JStr (fst (ct_task t)))"
proof (cases "ex_tasks e")
  case None
  have "''task_name'' \<notin> set (column_names e keys)"
    using None by (auto simp: column_names_def dest: value_columns_prefix split: if_splits)
      (auto simp: metric_column_def split: if_splits)
  then have "''task_name'' \<notin> set (map fst (row_record e keys t))" by (simp add: row_record_names del: set_map)
  then have "map_of (row_record e keys t) ''task_name'' = None" by (simp add: map_of_eq_None_iff)
  then show ?thesis using None by (simp add: csv_get_def)
next
  case (Some ts)
  then have "(''task_name'', fst (ct_task t)) \<in> set (row_record e keys t)"
    by (simp add: row_record_def)
  then show ?thesis using row_get [OF assms] Some by simp
qed

lemma row_failed:
  assumes "wf_csv_experiment e" "distinct keys"
  shows "csv_get (row_record e keys t) ''failed'' = JStr (ct_failed t)"
  by (rule row_get [OF assms]) (simp add: row_record_def)

subsection \<open>Assignments and metadata of a row\<close>

lemma map_of_defined:
  assumes "dom m \<subseteq> set ns" "\<And>n v. n \<in> set ns \<Longrightarrow> m n = Some v \<Longrightarrow> ok v" "\<not> ok d"
    and f: "\<And>n. n \<in> set ns \<Longrightarrow> f n = (case m n of None \<Rightarrow> d | Some v \<Rightarrow> v)"
  shows "map_of (filter (\<lambda>kv. ok (snd kv)) (map (\<lambda>n. (n, f n)) ns)) = m"
proof (rule ext)
  fix k
  have "map_of (filter (\<lambda>kv. ok (snd kv)) (map (\<lambda>n. (n, f n)) ns)) k =
      (if k \<in> set ns \<and> ok (f k) then Some (f k) else None)"
    by (induction ns) auto
  also have "\<dots> = m k"
    using assms(1-3) f [of k] by (cases "m k") auto
  finally show "map_of (filter (\<lambda>kv. ok (snd kv)) (map (\<lambda>n. (n, f n)) ns)) k = m k" .
qed

lemma filter_keys_distinct: "distinct (map fst xs) \<Longrightarrow> distinct (map fst (filter P xs))"
  by (induction xs) auto

lemma parse_assignments_row:
  assumes wf: "wf_csv_experiment e" and dom: "dom m \<subseteq> pm_name ` set (ex_parameters e) \<union> cd_name ` set (ex_conditionals e)"
    and defined: "\<And>k v. m k = Some v \<Longrightarrow> isDefinedAndNotNull v"
    and params: "\<And>p. p \<in> set (ex_parameters e) \<Longrightarrow>
      asAssignment e (pm_name p) (JStr (ct_parameter t p)) = (case m (pm_name p) of None \<Rightarrow> JNull | Some v \<Rightarrow> v)"
    and conds: "\<And>c. c \<in> set (ex_conditionals e) \<Longrightarrow> m (cd_name c) = Some (JStr (ct_conditional t c))"
  shows "map_of (parse_assignments e (row_record e keys t)) = m"
proof -
  have names: "distinct (map cd_name (ex_conditionals e) @ map pm_name (ex_parameters e))"
    using wf by (simp add: wf_csv_experiment_def names_distinct_def)
  define f where "f n = (case m n of None \<Rightarrow> JNull | Some v \<Rightarrow> v)" for n
  have "asAssignment e (cd_name c) (JStr s) = JStr s" if "c \<in> set (ex_conditionals e)" for c s
  proof -
    have "List.find (\<lambda>p. pm_name p = cd_name c) (ex_parameters e) = None"
      using names that by (auto simp: find_None_iff)
    then show ?thesis by (simp add: asAssignment_def)
  qed
  then have pairs: "map (\<lambda>(k, v). (parseAssignmentName k, asAssignment e (parseAssignmentName k) (JStr v)))
      (filter (\<lambda>kv. is_assignment_column (fst kv)) (row_record e keys t)) =
      map (\<lambda>n. (n, f n)) (map pm_name (ex_parameters e) @ map cd_name (ex_conditionals e))"
    unfolding row_assignments f_def
    using params conds by (simp add: parseAssignmentName_def startsWith_iff_prefix)
  let ?ns = "map pm_name (ex_parameters e) @ map cd_name (ex_conditionals e)"
  have dist: "distinct (map fst (filter (\<lambda>kv. isDefinedAndNotNull (snd kv)) (map (\<lambda>n. (n, f n)) ?ns)))"
    using names by (intro filter_keys_distinct) (auto simp: comp_def)
  have "map_of (filter (\<lambda>kv. isDefinedAndNotNull (snd kv)) (map (\<lambda>n. (n, f n)) ?ns)) = m"
    using dom defined by (intro map_of_defined [where d = JNull])
      (auto simp: f_def isDefinedAndNotNull_def isUndefinedOrNull_def)
  then show ?thesis
    unfolding parse_assignments_def pairs obj_extend_fresh [OF dist] .
qed

lemma parse_metadata_row:
  assumes "distinct keys" "dom m \<subseteq> set keys"
    and plain: "\<And>k v. m k = Some v \<Longrightarrow> isDefinedAndNotNull v \<and> v \<noteq> JStr []"
    and cells: "\<And>k. k \<in> set keys \<Longrightarrow>
      form_maybeAsNumber (JStr (ct_metadata t k)) = (case m k of None \<Rightarrow> JNull | Some v \<Rightarrow> v)"
  shows "map_of (parse_metadata (row_record e keys t)) = m"
proof -
  define f where "f n = (case m n of None \<Rightarrow> JNull | Some v \<Rightarrow> v)" for n
  have cols: "map (\<lambda>(k, v). (drop 9 k, JStr v)) (filter (\<lambda>kv. startsWith (fst kv) ''metadata-'') (row_record e keys t))
      = map (\<lambda>k. (k, JStr (ct_metadata t k))) keys"
    unfolding row_metadata by simp
  have "distinct (map fst (map (\<lambda>k. (k, JStr (ct_metadata t k))) keys))"
    using assms(1) by (simp add: comp_def)
  note ext = obj_extend_fresh [OF this]
  have nums: "map (\<lambda>kv. (fst kv, form_maybeAsNumber (snd kv))) (map (\<lambda>k. (k, JStr (ct_metadata t k))) keys)
      = map (\<lambda>k. (k, f k)) keys"
    using cells by (simp add: f_def)
  have "map_of (filter (\<lambda>kv. isDefinedAndNotNull (snd kv) \<and> snd kv \<noteq> JStr []) (map (\<lambda>k. (k, f k)) keys)) = m"
    using assms(2) plain
    by (intro map_of_defined [where ok = "\<lambda>v. isDefinedAndNotNull v \<and> v \<noteq> JStr []" and d = JNull])
      (auto simp: f_def isDefinedAndNotNull_def isUndefinedOrNull_def)
  then show ?thesis
    unfolding parse_metadata_def cols ext nums filter_filter .
qed

lemma update_middle: "k \<notin> fst ` set xs \<Longrightarrow> AList.update k v (xs @ (k, w) # ys) = xs @ (k, v) # ys"
  by (induction xs) auto

lemma set_deviations_append:
  "set_deviations (xs @ ys) vals =
     (case set_deviations xs vals of Inl e \<Rightarrow> Inl e | Inr vals' \<Rightarrow> set_deviations ys vals')"
  by (induction xs vals rule: set_deviations.induct) (auto split: option.split)

lemma set_deviations_other:
  "list_all (\<lambda>kv. \<not> startsWith (fst kv) ''value_stddev'') d \<Longrightarrow> set_deviations d vals = Inr vals"
  by (induction d) auto

definition value_of_row :: "cell_texts \<Rightarrow> metric \<Rightarrow> upload_value" where
  "value_of_row t m =
     \<lparr>uv_name = metric_text m, uv_value = form_maybeAsNumber (JStr (ct_value t m)),
      uv_value_stddev = Some (form_maybeAsNumber (JStr (ct_stddev t m)))\<rparr>"

definition wf_metric_name :: "metric \<Rightarrow> bool" where
  "wf_metric_name m = (case mt_name m of JStr s \<Rightarrow> s \<noteq> [] | JNull \<Rightarrow> True | _ \<Rightarrow> False)"

lemma metric_columns_named:
  assumes "wf_metric_name m"
  shows "value_name (metric_column ''value'' m) = metric_text m"
    "startsWith (metric_column ''value_stddev'' m) ''value_stddev''"
    "\<not> startsWith (metric_column ''value'' m) ''value_stddev''"
    "drop 13 (metric_column ''value_stddev'' m) = metric_text m"
  using metric_column_text [of m] assms
  by (auto simp: wf_metric_name_def value_name_def startsWith_iff_prefix)

lemma set_deviations_metrics:
  assumes "list_all wf_metric_name ms" "distinct (map metric_text (pre @ ms))"
  shows "set_deviations (concat (map (\<lambda>m. [(metric_column ''value'' m, ct_value t m),
           (metric_column ''value_stddev'' m, ct_stddev t m)]) ms))
         (map (\<lambda>m. (metric_text m, value_of_row t m)) pre
          @ map (\<lambda>m. (metric_text m, (value_of_row t m)\<lparr>uv_value_stddev := None\<rparr>)) ms) =
       Inr (map (\<lambda>m. (metric_text m, value_of_row t m)) (pre @ ms))"
  using assms
proof (induction ms arbitrary: pre)
  case (Cons m ms)
  let ?done = "map (\<lambda>m. (metric_text m, value_of_row t m))"
  let ?todo = "map (\<lambda>m. (metric_text m, (value_of_row t m)\<lparr>uv_value_stddev := None\<rparr>))"
  have m: "wf_metric_name m" using Cons.prems by simp
  have fresh: "metric_text m \<notin> fst ` set (?done pre)" using Cons.prems(2) by auto
  then have "map_of (?done pre @ ?todo (m # ms)) (metric_text m) =
      Some ((value_of_row t m)\<lparr>uv_value_stddev := None\<rparr>)"
    by (simp add: map_add_def map_of_eq_None_iff [THEN iffD2])
  moreover have "AList.update (metric_text m) (value_of_row t m) (?done pre @ ?todo (m # ms)) =
      ?done (pre @ [m]) @ ?todo ms"
    using update_middle [OF fresh] by simp
  moreover have "(value_of_row t m)\<lparr>uv_value_stddev := None, uv_value_stddev :=
      Some (form_maybeAsNumber (JStr (ct_stddev t m)))\<rparr> = value_of_row t m"
    by (simp add: value_of_row_def)
  moreover have "distinct (map metric_text ((pre @ [m]) @ ms))" "list_all wf_metric_name ms"
    using Cons.prems by simp_all
  ultimately show ?case
    using Cons.IH [of "pre @ [m]"] metric_columns_named [OF m] by simp
qed simp

lemma named_values:
  "map snd (property_order (map (\<lambda>m. (metric_text m, value_of_row t m)) ms)) = in_name_order (map (value_of_row t) ms)"
  by (simp add: in_name_order_def comp_def value_of_row_def)

lemma set_deviations_row:
  assumes wf: "wf_csv_experiment e"
  shows "set_deviations (row_record e keys t) (valuesByName (row_record e keys t)) =
    Inr (map (\<lambda>m. (metric_text m, value_of_row t m)) (ex_metrics e))"
proof -
  have names: "list_all wf_metric_name (ex_metrics e)" "distinct (map metric_text (ex_metrics e))"
    using wf by (simp_all add: wf_csv_experiment_def wf_metric_name_def list_all_iff)
  have "map (\<lambda>(k, v). (value_name k, \<lparr>uv_name = value_name k, uv_value = form_maybeAsNumber (JStr v),
          uv_value_stddev = None\<rparr>)) (map (\<lambda>m. (metric_column ''value'' m, ct_value t m)) (ex_metrics e)) =
      map (\<lambda>m. (metric_text m, (value_of_row t m)\<lparr>uv_value_stddev := None\<rparr>)) (ex_metrics e)"
    using names(1) by (auto simp: list_all_iff metric_columns_named value_of_row_def)
  moreover have "distinct (map fst
      (map (\<lambda>m. (metric_text m, (value_of_row t m)\<lparr>uv_value_stddev := None\<rparr>)) (ex_metrics e)))"
    using names(2) by (simp add: comp_def)
  ultimately have vals: "valuesByName (row_record e keys t) =
      map (\<lambda>m. (metric_text m, (value_of_row t m)\<lparr>uv_value_stddev := None\<rparr>)) (ex_metrics e)"
    unfolding valuesByName_def row_values by (simp only: obj_extend_fresh)
  let ?vs = "concat (map (\<lambda>m. [(metric_column ''value'' m, ct_value t m),
         (metric_column ''value_stddev'' m, ct_stddev t m)]) (ex_metrics e))"
  define before where "before = map (\<lambda>p. (''parameter-'' @ pm_name p, ct_parameter t p)) (ex_parameters e)
     @ map (\<lambda>c. (''conditional-'' @ cd_name c, ct_conditional t c)) (ex_conditionals e)"
  define after where "after = (case ex_tasks e of None \<Rightarrow> []
        | Some ts \<Rightarrow> [(''task_name'', fst (ct_task t)), (''task_cost'', snd (ct_task t))])
     @ [(''failed'', ct_failed t), (''created'', ct_created t)]
     @ map (\<lambda>k. (''metadata-'' @ k, ct_metadata t k)) keys
     @ [(''id'', ct_id t)]"
  have row: "row_record e keys t = before @ ?vs @ after"
    by (simp add: row_record_def before_def after_def)
  have "list_all (\<lambda>kv. \<not> startsWith (fst kv) ''value_stddev'') before"
    "list_all (\<lambda>kv. \<not> startsWith (fst kv) ''value_stddev'') after"
    by (auto simp: before_def after_def list_all_iff startsWith_iff_prefix split: option.split)
  note other = this [THEN set_deviations_other]
  show ?thesis
    using set_deviations_metrics [of "ex_metrics e" "[]" t] names
    unfolding vals unfolding row set_deviations_append by (simp add: other)
qed

subsection \<open>Rendering\<close>

lemma obj_get_member: "distinct (map fst b) \<Longrightarrow> (k, v) \<in> set b \<Longrightarrow> obj_get b k = v"
  by (simp add: obj_get_def)

lemma map_of_no_key: "k \<notin> set (map fst m) \<Longrightarrow> map_of m k = None"
  by (simp add: map_of_eq_None_iff)

definition rendered_plain :: "(rat \<Rightarrow> string) \<Rightarrow> exp_parameter \<Rightarrow> jsval \<Rightarrow> string" where
  "rendered_plain num_text p v =
     (case v of
        JStr s \<Rightarrow> s
      | JNum n \<Rightarrow> if pm_type p = ''double'' then num_text n else toFixed0 num_text n
      | _ \<Rightarrow> [])"

lemma render_plain_value:
  assumes "plain_parameter num_text a p"
  shows "renderParamValue num_text tp p (obj_get a (pm_name p)) False =
    Inr (JStr (rendered_plain num_text p (obj_get a (pm_name p))))"
proof (cases "map_of a (pm_name p)")
  case None
  then show ?thesis
    by (simp add: renderParamValue_def rendered_plain_def obj_get_def asString_def
        isDefinedAndNotNull_def isUndefinedOrNull_def)
next
  case (Some v)
  then show ?thesis
    using assms
    by (cases v) (auto simp: plain_parameter_def renderParamValue_def rendered_plain_def obj_get_def
        readable_def renderNumber_def roundNumber_def split: if_splits)
qed

lemma plain_parameter_read:
  assumes "plain_parameter num_text a p"
  shows "(if pm_type p \<in> {''int'', ''double''}
      then form_maybeAsNumber (JStr (rendered_plain num_text p (obj_get a (pm_name p))))
      else JStr (rendered_plain num_text p (obj_get a (pm_name p)))) =
    (case map_of a (pm_name p) of None \<Rightarrow> JNull | Some v \<Rightarrow> v)"
proof (cases "map_of a (pm_name p)")
  case None
  then show ?thesis
    using assms by (auto simp: plain_parameter_def rendered_plain_def obj_get_def form_maybeAsNumber_def)
next
  case (Some v)
  consider "pm_type p = ''double''" | "pm_type p = ''int''" | "pm_type p \<notin> {''int'', ''double''}" by auto
  then show ?thesis
  proof cases
    case 1
    then have "readable num_text v" using assms Some by (simp add: plain_parameter_def)
    then show ?thesis
      using 1 Some by (cases v) (auto simp: readable_def rendered_plain_def obj_get_def
          form_maybeAsNumber_def maybeAsNumber_def)
  next
    case 2
    then obtain n where v: "v = JNum n" and n: "n = of_int \<lfloor>n\<rfloor>" "\<bar>\<lfloor>n\<rfloor>\<bar> < 10 ^ 21"
      using assms Some by (auto simp: plain_parameter_def split: jsval.splits)
    have "number_of_text (toFixed0 num_text n) = Some n"
      using toFixed0_int [OF n(2), of num_text] n(1) by simp
    moreover from this have "toFixed0 num_text n \<noteq> []" by auto
    ultimately show ?thesis
      using 2 Some v by (simp add: rendered_plain_def obj_get_def form_maybeAsNumber_def maybeAsNumber_def)
  next
    case 3
    then have "\<exists>s. v = JStr s" using assms Some by (auto simp: plain_parameter_def split: jsval.splits)
    then show ?thesis using 3 Some by (auto simp: rendered_plain_def obj_get_def)
  qed
qed

text \<open>The rendered assignments: those of the conditionals, and the text of each parameter shown.\<close>

lemma render_plain:
  assumes names: "names_distinct e"
    and params: "list_all (plain_parameter num_text a) (ex_parameters e)"
  obtains ra where "renderAssignments num_text tp (Some e) (Some a) = Inr ra"
    and "\<And>p. p \<in> set (ex_parameters e) \<Longrightarrow>
      obj_get ra (pm_name p) = JStr (rendered_plain num_text p (obj_get a (pm_name p))) \<or>
      obj_get ra (pm_name p) = JUndef \<and> map_of a (pm_name p) = None"
    and "\<And>c. c \<in> set (ex_conditionals e) \<Longrightarrow> obj_get ra (cd_name c) = obj_get a (cd_name c)"
proof -
  let ?ps = "if ex_conditionals e = [] then ex_parameters e
    else filter (\<lambda>p. pm_name p \<in> fst ` set a) (ex_parameters e)"
  let ?kv = "\<lambda>p. (pm_name p, JStr (rendered_plain num_text p (obj_get a (pm_name p))))"
  let ?ra = "conditional_assignments e a @ map ?kv ?ps"
  have sub: "set ?ps \<subseteq> set (ex_parameters e)" by auto
  have keys: "map fst ?ra = map cd_name (ex_conditionals e) @ map pm_name ?ps"
    by (simp add: conditional_assignments_def comp_def)
  have "distinct (map pm_name ?ps)"
    using names by (simp add: names_distinct_def distinct_map_filter)
  moreover have "pm_name ` set ?ps \<subseteq> pm_name ` set (ex_parameters e)" using sub by (rule image_mono)
  ultimately have dist: "distinct (map fst ?ra)"
    using names unfolding keys distinct_append names_distinct_def set_map by blast
  have "map_ok (\<lambda>p. case renderParamValue num_text tp p (obj_get a (pm_name p)) False of
      Inl err \<Rightarrow> Inl err | Inr v \<Rightarrow> Inr (pm_name p, v)) ?ps = Inr (map ?kv ?ps)"
  proof (rule map_ok_all)
    fix p assume "p \<in> set ?ps"
    then have "plain_parameter num_text a p" using sub params by (auto simp: list_all_iff)
    then show "(case renderParamValue num_text tp p (obj_get a (pm_name p)) False of
      Inl err \<Rightarrow> Inl err | Inr v \<Rightarrow> Inr (pm_name p, v)) = Inr (?kv p)"
      by (simp add: render_plain_value)
  qed
  then have ra: "renderAssignments num_text tp (Some e) (Some a) = Inr ?ra"
    by (simp add: renderAssignments_def Let_def obj_extend_fresh [OF dist])
  have get: "obj_get ?ra k = v" if "(k, v) \<in> set ?ra" for k v
    using dist that by (rule obj_get_member)
  show thesis
  proof (rule that [OF ra])
    fix p assume p: "p \<in> set (ex_parameters e)"
    show "obj_get ?ra (pm_name p) = JStr (rendered_plain num_text p (obj_get a (pm_name p))) \<or>
      obj_get ?ra (pm_name p) = JUndef \<and> map_of a (pm_name p) = None"
    proof (cases "p \<in> set ?ps")
      case True
      then have "?kv p \<in> set ?ra" by simp
      then show ?thesis using get by blast
    next
      case False
      then have missing: "pm_name p \<notin> fst ` set a" using p by (auto split: if_splits)
      have "pm_name p \<notin> cd_name ` set (ex_conditionals e)"
        using names p by (auto simp: names_distinct_def)
      moreover have "pm_name p \<notin> pm_name ` set ?ps"
      proof
        assume "pm_name p \<in> pm_name ` set ?ps"
        then obtain x where x: "x \<in> set ?ps" "pm_name p = pm_name x" by (rule imageE)
        have "ex_conditionals e \<noteq> []" using False p by (cases "ex_conditionals e") simp_all
        then have "pm_name x \<in> fst ` set a" using x(1) by simp
        then show False using missing x(2) by simp
      qed
      ultimately have "pm_name p \<notin> set (map fst ?ra)" unfolding keys set_append set_map by blast
      then have "map_of ?ra (pm_name p) = None" by (rule map_of_no_key)
      moreover have "map_of a (pm_name p) = None" using missing by (simp add: map_of_eq_None_iff)
      ultimately show ?thesis by (simp only: obj_get_def) simp
    qed
  next
    fix c assume "c \<in> set (ex_conditionals e)"
    then have "(cd_name c, obj_get a (cd_name c)) \<in> set ?ra" by (auto simp: conditional_assignments_def)
    then show "obj_get ?ra (cd_name c) = obj_get a (cd_name c)" by (rule get)
  qed
qed

definition metric_cell_text ::
  "(rat \<Rightarrow> string) \<Rightarrow> (measurement \<Rightarrow> jsval) \<Rightarrow> measurement list \<Rightarrow> metric \<Rightarrow> string" where
  "metric_cell_text num_text field vs m =
     (case List.find (same_metric m) vs of None \<Rightarrow> [] | Some v \<Rightarrow> asString num_text (field v))"

definition texts_of ::
  "(rat \<Rightarrow> string) \<Rightarrow> (jsval \<Rightarrow> string) \<Rightarrow> api_observation \<Rightarrow> jsobj \<Rightarrow> cell_texts" where
  "texts_of num_text write_other ob ra =
     \<lparr>ct_parameter = \<lambda>p. unsanitize_text (cell_text write_other (obj_get ra (pm_name p))),
      ct_conditional = \<lambda>c. unsanitize_text (cell_text write_other (obj_get ra (cd_name c))),
      ct_value = metric_cell_text num_text ms_value (ob_values ob),
      ct_stddev = metric_cell_text num_text ms_value_stddev (ob_values ob),
      ct_task = (case ao_task ob of None \<Rightarrow> ([], []) | Some t \<Rightarrow> (tk_name t, num_text (tk_cost t))),
      ct_failed = asString num_text (ob_failed ob),
      ct_created = asString num_text (ao_created ob),
      ct_metadata = \<lambda>k. asString num_text (obj_get (observation_metadata ob) k),
      ct_id = asString num_text (ao_id ob)\<rparr>"

lemma read_text_cell [simp]: "unsanitize_text (cell_text wo (JStr s)) = s"
  by (simp add: cell_text_def)

lemma unsanitize_Nil [simp]: "unsanitize_text [] = []"
  by (simp add: unsanitize_text_def hasDangerousPrefix_def trimLeadingSpaces_def invalidStartCharacters_def)

lemma read_undefined_cell: "wo JUndef = [] \<Longrightarrow> unsanitize_text (cell_text wo JUndef) = []"
  by (simp add: cell_text_def)

lemma download_row_record:
  assumes "renderAssignments num_text tp (Some e) (ob_assignments ob) = Inr ra"
    and "ex_tasks e \<noteq> None \<longrightarrow> ao_task ob \<noteq> None"
  obtains cells where "download_row num_text tp e keys ob = Inr cells"
    and "length cells = length (column_names e keys)"
    and "zip (column_names e keys) (map unsanitize_text (map (cell_text wo) cells)) =
      row_record e keys (texts_of num_text wo ob ra)"
proof -
  let ?as = "orderedAccessors num_text e keys"
  let ?cells = "map (\<lambda>acc. projr (snd acc ob ra)) ?as"
  have "snd acc ob ra = Inr (projr (snd acc ob ra))" if "acc \<in> set ?as" for acc
    using that assms(2)
    by (auto simp: orderedAccessors_def metric_cell_def task_cell_def metadata_cell_def split: option.splits)
  then have "map_ok (\<lambda>acc. snd acc ob ra) ?as = Inr ?cells" by (rule map_ok_all)
  then have row: "download_row num_text tp e keys ob = Inr ?cells"
    by (simp add: download_row_def assms(1))
  have "zip (map fst ?as) (map unsanitize_text (map (cell_text wo) ?cells)) =
      map (\<lambda>acc. (fst acc, unsanitize_text (cell_text wo (projr (snd acc ob ra))))) ?as"
    by (simp add: zip_map_map zip_same_conv_map comp_def)
  also have "\<dots> = row_record e keys (texts_of num_text wo ob ra)"
    using assms(2)
    by (auto simp: orderedAccessors_def row_record_def texts_of_def metric_cell_def metric_cell_text_def
        task_cell_def metadata_cell_def observation_metadata_def map_concat comp_def split: option.split)
  finally show thesis
    using that [OF row] columns_orderedAccessors [of num_text e keys] by (metis length_map)
qed

lemma find_metric:
  assumes names: "list_all wf_metric_name ms" "distinct (map metric_text ms)"
    and vs: "map ms_name vs = map mt_name ms" and i: "i < length ms"
  shows "List.find (same_metric (ms ! i)) vs = Some (vs ! i)"
proof -
  have len: "length vs = length ms" using vs by (metis length_map)
  have name: "ms_name (vs ! j) = mt_name (ms ! j)" if "j < length ms" for j
    using vs that len by (metis nth_map)
  have wf: "wf_metric_name (ms ! j)" if "j < length ms" for j
    using names(1) that by (simp add: list_all_iff)
  have same: "same_metric (ms ! i) (vs ! j) \<longleftrightarrow> metric_text (ms ! j) = metric_text (ms ! i)"
    if "j < length ms" for j
    using wf [OF that] wf [OF i] name [OF that]
    by (auto simp: same_metric_def metric_text_def wf_metric_name_def split: jsval.splits)
  have "metric_text (ms ! j) \<noteq> metric_text (ms ! i)" if "j < i" for j
    using names(2) that i by (simp add: distinct_conv_nth)
  then show ?thesis
    using same i len by (auto simp: find_Some_iff intro!: exI [of _ i])
qed

lemma values_of_row:
  assumes wf: "wf_csv_experiment e" and vs: "map ms_name (ob_values ob) = map mt_name (ex_metrics e)"
    and plain: "list_all (plain_measurement num_text) (ob_values ob)"
  shows "map (value_of_row (texts_of num_text wo ob ra)) (ex_metrics e) = map uploaded_value (ob_values ob)"
proof (rule nth_equalityI)
  have len: "length (ob_values ob) = length (ex_metrics e)" using vs by (metis length_map)
  then show "length (map (value_of_row (texts_of num_text wo ob ra)) (ex_metrics e)) =
      length (map uploaded_value (ob_values ob))" by simp
  fix i assume "i < length (map (value_of_row (texts_of num_text wo ob ra)) (ex_metrics e))"
  then have i: "i < length (ex_metrics e)" by simp
  let ?m = "ex_metrics e ! i" and ?v = "ob_values ob ! i"
  have names: "list_all wf_metric_name (ex_metrics e)" "distinct (map metric_text (ex_metrics e))"
    using wf by (simp_all add: wf_csv_experiment_def wf_metric_name_def list_all_iff)
  note find = find_metric [OF names vs i]
  have name: "ms_name ?v = mt_name ?m" using vs i len by (metis nth_map)
  have "plain_measurement num_text ?v" using plain i len by (simp add: list_all_iff)
  then have "form_maybeAsNumber (JStr (asString num_text (ms_value ?v))) = ms_value ?v"
    "form_maybeAsNumber (JStr (asString num_text (ms_value_stddev ?v))) = ms_value_stddev ?v"
    by (auto simp: plain_measurement_def form_number_readable)
      (simp add: asString_def isDefinedAndNotNull_def isUndefinedOrNull_def form_maybeAsNumber_def)
  then show "map (value_of_row (texts_of num_text wo ob ra)) (ex_metrics e) ! i =
      map uploaded_value (ob_values ob) ! i"
    using i len by (simp add: value_of_row_def uploaded_value_def texts_of_def metric_cell_text_def
        find metric_text_def name)
qed

lemma maybeAsBoolean_text: "is_boolean b \<Longrightarrow> maybeAsBoolean (JStr (asString num_text b)) = b"
  by (cases b) (auto simp: maybeAsBoolean_def asString_def isDefinedAndNotNull_def isUndefinedOrNull_def
      toLowerCase_def lower_char_def)

lemma plain_metadata_read:
  "plain_metadata num_text v \<Longrightarrow> form_maybeAsNumber (JStr (asString num_text v)) = v"
proof (cases v)
  case (JStr s)
  assume "plain_metadata num_text v"
  then show ?thesis
    using JStr by (simp add: plain_metadata_def asString_def form_maybeAsNumber_def maybeAsNumber_def
        isDefinedAndNotNull_def isUndefinedOrNull_def)
qed (simp_all add: plain_metadata_def form_number_readable readable_def)

lemma plain_metadata_defined:
  "plain_metadata num_text v \<Longrightarrow> isDefinedAndNotNull v \<and> v \<noteq> JStr []"
  by (cases v) (auto simp: plain_metadata_def readable_def isDefinedAndNotNull_def isUndefinedOrNull_def)

lemma plain_assignments_defined:
  assumes "list_all (plain_parameter num_text a) (ex_parameters e)"
    "list_all (plain_conditional a) (ex_conditionals e)"
    "fst ` set a \<subseteq> pm_name ` set (ex_parameters e) \<union> cd_name ` set (ex_conditionals e)"
    "map_of a k = Some v"
  shows "isDefinedAndNotNull v"
proof -
  have "k \<in> fst ` set a" using assms(4) by (force dest: map_of_SomeD)
  then consider p where "p \<in> set (ex_parameters e)" "k = pm_name p"
    | c where "c \<in> set (ex_conditionals e)" "k = cd_name c"
    using assms(3) by blast
  then show ?thesis
  proof cases
    case 1
    then have "plain_parameter num_text a p" using assms(1) by (simp add: list_all_iff)
    then show ?thesis
      using 1 assms(4) by (cases v) (auto simp: plain_parameter_def readable_def
          isDefinedAndNotNull_def isUndefinedOrNull_def split: if_splits)
  next
    case 2
    then have "plain_conditional a c" using assms(2) by (simp add: list_all_iff)
    then show ?thesis
      using 2 assms(4) by (cases v) (auto simp: plain_conditional_def
          isDefinedAndNotNull_def isUndefinedOrNull_def)
  qed
qed

lemma row_roundtrip:
  assumes wf: "wf_csv_experiment e" and plain: "plain_observation num_text e ob"
    and keys: "distinct keys" "fst ` set (observation_metadata ob) \<subseteq> set keys"
    and undef: "wo JUndef = []"
  obtains cells u where "download_row num_text tp e keys ob = Inr cells"
    and "length cells = length (column_names e keys)"
    and "parse_observation e (zip (column_names e keys) (map unsanitize_text (map (cell_text wo) cells))) = Inr u"
    and "uploads e u ob"
proof -
  obtain a where a: "ob_assignments ob = Some a"
    "fst ` set a \<subseteq> pm_name ` set (ex_parameters e) \<union> cd_name ` set (ex_conditionals e)"
    "list_all (plain_parameter num_text a) (ex_parameters e)"
    "list_all (plain_conditional a) (ex_conditionals e)"
    using plain by (auto simp: plain_observation_def split: option.splits)
  have names: "names_distinct e" using wf by (simp add: wf_csv_experiment_def)
  from render_plain [OF names a(3), of tp] obtain ra
    where ra: "renderAssignments num_text tp (Some e) (ob_assignments ob) = Inr ra"
      and rp: "\<And>p. p \<in> set (ex_parameters e) \<Longrightarrow>
        obj_get ra (pm_name p) = JStr (rendered_plain num_text p (obj_get a (pm_name p))) \<or>
        obj_get ra (pm_name p) = JUndef \<and> map_of a (pm_name p) = None"
      and rc: "\<And>c. c \<in> set (ex_conditionals e) \<Longrightarrow> obj_get ra (cd_name c) = obj_get a (cd_name c)"
    using a(1) by metis
  have task: "ex_tasks e \<noteq> None \<longrightarrow> ao_task ob \<noteq> None"
    using plain by (simp add: plain_observation_def)
  let ?t = "texts_of num_text wo ob ra"
  obtain cells where row: "download_row num_text tp e keys ob = Inr cells"
    "length cells = length (column_names e keys)"
    and rec: "zip (column_names e keys) (map unsanitize_text (map (cell_text wo) cells)) = row_record e keys ?t"
    using download_row_record [OF ra task] by metis
  have cell: "asAssignment e (pm_name p) (JStr (ct_parameter ?t p)) =
      (case map_of a (pm_name p) of None \<Rightarrow> JNull | Some v \<Rightarrow> v)"
    if p: "p \<in> set (ex_parameters e)" for p
  proof -
    have pp: "plain_parameter num_text a p" using a(3) p by (simp add: list_all_iff)
    have "distinct (map pm_name (ex_parameters e))" using names by (simp add: names_distinct_def)
    then have find: "List.find (\<lambda>q. pm_name q = pm_name p) (ex_parameters e) = Some p"
      using p by (auto simp: find_Some_iff in_set_conv_nth distinct_conv_nth)
    have shown: "ct_parameter ?t p = rendered_plain num_text p (obj_get a (pm_name p))"
      using rp [OF p] undef by (auto simp: texts_of_def read_undefined_cell rendered_plain_def obj_get_def)
    show ?thesis using plain_parameter_read [OF pp] by (simp add: asAssignment_def find shown)
  qed
  have cond: "map_of a (cd_name c) = Some (JStr (ct_conditional ?t c))" if c: "c \<in> set (ex_conditionals e)" for c
  proof -
    have "plain_conditional a c" using a(4) c by (simp add: list_all_iff)
    then obtain s where "map_of a (cd_name c) = Some (JStr s)"
      by (auto simp: plain_conditional_def split: option.splits jsval.splits)
    then show ?thesis using rc [OF c] by (simp add: texts_of_def obj_get_def)
  qed
  have "dom (map_of a) \<subseteq> pm_name ` set (ex_parameters e) \<union> cd_name ` set (ex_conditionals e)"
    using a(2) by (simp add: dom_map_of_conv_image_fst)
  from parse_assignments_row [OF wf this plain_assignments_defined [OF a(3,4,2)] cell cond]
  have assignments: "map_of (parse_assignments e (row_record e keys ?t)) = map_of a" .
  let ?md = "observation_metadata ob"
  have md: "list_all (\<lambda>kv. plain_metadata num_text (snd kv)) ?md"
    using plain by (simp add: plain_observation_def)
  have mdv: "plain_metadata num_text v" if "map_of ?md k = Some v" for k v
    using md map_of_SomeD [OF that] by (auto simp: list_all_iff)
  have metadata: "map_of (parse_metadata (row_record e keys ?t)) = map_of ?md"
  proof (rule parse_metadata_row [OF keys(1)])
    show "dom (map_of ?md) \<subseteq> set keys" using keys(2) by (simp add: dom_map_of_conv_image_fst)
    show "isDefinedAndNotNull v \<and> v \<noteq> JStr []" if "map_of ?md k = Some v" for k v
      using mdv [OF that] by (rule plain_metadata_defined)
    show "form_maybeAsNumber (JStr (ct_metadata ?t k)) = (case map_of ?md k of None \<Rightarrow> JNull | Some v \<Rightarrow> v)" for k
    proof (cases "map_of ?md k")
      case None
      then show ?thesis
        by (simp add: texts_of_def obj_get_def asString_def isDefinedAndNotNull_def isUndefinedOrNull_def
            form_maybeAsNumber_def)
    next
      case (Some v)
      then show ?thesis using plain_metadata_read [OF mdv [OF Some]] by (simp add: texts_of_def obj_get_def)
    qed
  qed
  have bool: "is_boolean (ob_failed ob)" using plain by (simp add: plain_observation_def)
  then have failed: "maybeAsBoolean (csv_get (row_record e keys ?t) ''failed'') = ob_failed ob"
    by (simp add: row_failed [OF wf keys(1)] texts_of_def maybeAsBoolean_text)
  have vals: "map (value_of_row ?t) (ex_metrics e) = map uploaded_value (ob_values ob)" if "\<not> truthy (ob_failed ob)"
    using plain that by (intro values_of_row [OF wf]) (auto simp: plain_observation_def)
  show thesis
  proof (rule that [OF row])
    show "parse_observation e (zip (column_names e keys) (map unsanitize_text (map (cell_text wo) cells))) =
      Inr \<lparr>up_assignments = parse_assignments e (row_record e keys ?t), up_failed = ob_failed ob,
           up_metadata = (if parse_metadata (row_record e keys ?t) = [] then None
             else Some (parse_metadata (row_record e keys ?t))),
           up_values = (if truthy (ob_failed ob) then None
             else Some (in_name_order (map (value_of_row ?t) (ex_metrics e)))),
           up_task = csv_get (row_record e keys ?t) ''task_name''\<rparr>" (is "_ = Inr ?u")
      unfolding rec by (simp add: parse_observation_def set_deviations_row [OF wf] failed Let_def comp_def named_values)
    have "map_of (case up_metadata ?u of None \<Rightarrow> [] | Some md \<Rightarrow> md) = map_of ?md"
      using metadata by (cases "parse_metadata (row_record e keys ?t) = []") simp_all
    moreover have "csv_get (row_record e keys ?t) ''task_name'' =
        (case ex_tasks e of None \<Rightarrow> JUndef | Some ts \<Rightarrow> JStr (tk_name (the (ao_task ob))))"
      using task by (auto simp: row_task [OF wf keys(1)] texts_of_def split: option.split)
    ultimately show "uploads e ?u ob"
      using assignments a(1) vals unfolding uploads_def by simp
  qed
qed

subsection \<open>A downloaded file can be uploaded\<close>

lemma list_all2_map_ok:
  assumes "\<And>x. x \<in> set xs \<Longrightarrow> \<exists>y z. f x = Inr y \<and> P y \<and> g (h y) = Inr z \<and> R z x"
  shows "\<exists>ys zs. map_ok f xs = Inr ys \<and> list_all P ys \<and> map_ok g (map h ys) = Inr zs \<and> list_all2 R zs xs"
  using assms
proof (induction xs)
  case (Cons x xs)
  obtain y z where "f x = Inr y" "P y" "g (h y) = Inr z" "R z x" using Cons.prems [of x] by auto
  moreover obtain ys zs where "map_ok f xs = Inr ys" "list_all P ys" "map_ok g (map h ys) = Inr zs"
    "list_all2 R zs xs" using Cons.IH Cons.prems by auto
  ultimately show ?case by (intro exI [of _ "y # ys"] exI [of _ "z # zs"]) simp
qed auto

lemma map_ok_rev: "map_ok f xs = Inr ys \<Longrightarrow> map_ok f (rev xs) = Inr (rev ys)"
  by (simp add: map_ok_each)

text \<open>
  The libraries: what \<open>csv-stringify\<close> writes for a table, \<open>csv-parse\<close> reads. A table has rows of
  the length of its header, which is not empty.
\<close>

definition is_table :: "string list list \<Rightarrow> bool" where
  "is_table rows =
     (case rows of [] \<Rightarrow> True | header # data \<Rightarrow>
        header \<noteq> [] \<and> list_all (\<lambda>row. length row = length header) data)"

definition read_upload ::
  "('t \<Rightarrow> failure + string list list) \<Rightarrow> sigopt_experiment \<Rightarrow> 't \<Rightarrow> failure + upload_observation list" where
  "read_upload csv_read e file =
     (case csv_read file of
        Inl err \<Rightarrow> Inl err
      | Inr rows \<Rightarrow>
          (case parse_upload e (csv_records rows) of Inl err \<Rightarrow> Inl (Thrown err) | Inr us \<Rightarrow> Inr us))"

lemma download_reads_back:
  assumes wf: "wf_csv_experiment e"
    and plain: "list_all (plain_observation num_text e) os"
    and undef: "write_other JUndef = []"
    and csv: "\<And>rows. is_table rows \<Longrightarrow> csv_read (csv_write rows) = Inr rows"
  shows "\<exists>d us. download natCompare num_text tp e (Inr os) = Inr d \<and>
    read_upload csv_read e (csv_write (csv_cells write_other d)) = Inr us \<and>
    list_all2 (uploads e) us (rev os)"
proof -
  define keys where "keys = getMetadataKeys natCompare (map observation_metadata os)"
  let ?h = "\<lambda>cells. zip (column_names e keys) (map unsanitize_text (map (cell_text write_other) cells))"
  have distinct: "distinct keys" by (simp add: keys_def getMetadataKeys_set)
  have row: "\<exists>cells u. download_row num_text tp e keys ob = Inr cells \<and>
      length cells = length (column_names e keys) \<and> parse_observation e (?h cells) = Inr u \<and> uploads e u ob"
    if ob: "ob \<in> set os" for ob
  proof -
    have sub: "fst ` set (observation_metadata ob) \<subseteq> set keys"
      using ob by (auto simp: keys_def getMetadataKeys_set)
    have "plain_observation num_text e ob" using plain ob by (simp add: list_all_iff)
    from row_roundtrip [where wo = write_other, OF wf this distinct sub undef, of tp] show ?thesis by metis
  qed
  have "\<exists>rows us. map_ok (download_row num_text tp e keys) os = Inr rows \<and>
      list_all (\<lambda>cells. length cells = length (column_names e keys)) rows \<and>
      map_ok (parse_observation e) (map ?h rows) = Inr us \<and> list_all2 (uploads e) us os"
    by (rule list_all2_map_ok) (rule row)
  then obtain rows us where rows: "map_ok (download_row num_text tp e keys) os = Inr rows"
    and len: "list_all (\<lambda>cells. length cells = length (column_names e keys)) rows"
    and us: "map_ok (parse_observation e) (map ?h rows) = Inr us" "list_all2 (uploads e) us os"
    by (elim exE conjE)
  let ?d = "\<lparr>dl_columns = column_names e keys, dl_rows = rows,
      dl_filename = ''experiment_'' @ js_text (ex_id e) @ ''_observations.csv''\<rparr>"
  have meta: "map (\<lambda>ob. case ao_metadata ob of None \<Rightarrow> [] | Some md \<Rightarrow> md) os = map observation_metadata os"
    by (simp add: observation_metadata_def)
  have d: "download natCompare num_text tp e (Inr os) = Inr ?d"
    unfolding download_def Let_def sum.case meta keys_def [symmetric]
    by (simp add: rows columns_orderedAccessors)
  have "column_names e keys \<noteq> []" by (simp add: column_names_def)
  then have table: "is_table (csv_cells write_other ?d)"
    using len by (auto simp: is_table_def csv_cells_def list_all_iff)
  have "obj_extend [] (?h cells) = ?h cells" if "length cells = length (column_names e keys)" for cells
    using that distinct_column_names [OF wf distinct] by (intro obj_extend_fresh) simp
  then have "csv_records (csv_cells write_other ?d) = map ?h rows"
    using len by (simp add: csv_records_def csv_cells_def comp_def list_all_iff map_idI)
  then have "parse_upload e (csv_records (csv_cells write_other ?d)) = Inr (rev us)"
    using map_ok_rev [OF us(1)] by (simp add: parse_upload_def)
  then have "read_upload csv_read e (csv_write (csv_cells write_other ?d)) = Inr (rev us)"
    unfolding read_upload_def csv [OF table] by simp
  moreover have "list_all2 (uploads e) (rev us) (rev os)" using us(2) by simp
  ultimately show ?thesis using d by blast
qed


definition csv_experiment :: sigopt_experiment where
  "csv_experiment =
     \<lparr>ex_id = JStr ''7'', ex_object = JStr ''experiment'', ex_runs_only = JBool False,
      ex_parameters =
        [\<lparr>pm_name = ''x'', pm_type = ''int'', pm_conditions = [], pm_categorical_values = [], pm_prior = JNull\<rparr>,
         \<lparr>pm_name = ''c'', pm_type = ''categorical'', pm_conditions = [],
          pm_categorical_values = [''=a'', ''b''], pm_prior = JNull\<rparr>],
      ex_conditionals = [],
      ex_metrics = [\<lparr>mt_name = JNull, mt_objective = ''maximize'', mt_strategy = ''optimize'', mt_threshold = JNull\<rparr>],
      ex_num_solutions = JNull, ex_tasks = None\<rparr>"

text \<open>The integers of the example are written by the model; its categorical value looks like a formula.\<close>

definition csv_text :: "rat \<Rightarrow> string" where
  "csv_text n = (if n = -2 then ''-2'' else if n = 3 / 2 then ''1.5'' else ''0'')"

definition csv_observation :: "string \<Rightarrow> api_observation" where
  "csv_observation c =
     \<lparr>ob_assignments = Some [(''c'', JStr c), (''x'', JNum (-12))], ob_suggestion = JNull, ob_failed = JBool False,
      ob_values = [\<lparr>ms_name = JNull, ms_value = JNum (3 / 2), ms_value_stddev = JNull\<rparr>],
      ao_id = JStr ''1'', ao_created = JStr ''0'', ao_metadata = Some [(''n'', JNum (-2)), (''s'', JStr ''+x'')],
      ao_task = None\<rparr>"

lemma csv_observation_plain: "plain_observation csv_text csv_experiment (csv_observation c)"
proof -
  have "number_of_text ''+x'' = None" "number_of_text ''-2'' = Some (-2)" "number_of_text ''1.5'' = Some (3 / 2)"
    by code_simp+
  then show ?thesis
    by (simp add: plain_observation_def csv_observation_def csv_experiment_def plain_parameter_def
        observation_metadata_def plain_metadata_def plain_measurement_def readable_def csv_text_def)
qed


text \<open>
  Where a categorical parameter is not assigned, because its conditions are not met, the empty
  cell is sent as its value, and a metadata text of digits comes back as a number.
\<close>

lemma empty_category_is_sent:
  assumes "List.find (\<lambda>p. pm_name p = name) (ex_parameters e) = Some p" "pm_type p = ''categorical''"
  shows "parse_assignments e [(''parameter-'' @ name, [])] = [(name, JStr [])]"
  using assms by (simp add: parse_assignments_def is_assignment_column_def reservedColumns_def
      startsWith_iff_prefix parseAssignmentName_def asAssignment_def isDefinedAndNotNull_def
      isUndefinedOrNull_def)

lemma digits_become_a_number:
  "n < 10 ^ 21 \<Longrightarrow> parse_metadata [(''metadata-k'', nat_digits n)] = [(''k'', JNum (of_nat n))]"
  using number_of_nat_text [of n] nat_digits_not_Nil [of n]
  by (simp add: parse_metadata_def startsWith_iff_prefix form_maybeAsNumber_def isDefinedAndNotNull_def
      isUndefinedOrNull_def js_text_nat del: js_text.simps)

text \<open>A deviation whose column has no column of values ends the upload without an answer.\<close>

lemma deviation_without_value_hangs:
  "bulkUpload api b csv_experiment (Inr [[(''value_stddev'', ''1'')]]) s = ([], s, None)"
  by (simp add: bulkUpload_def parse_upload_def parse_observation_def valuesByName_def is_value_column_def
      startsWith_iff_prefix)

subsection \<open>Copies\<close>

definition copied_batch :: "jsobj list \<Rightarrow> jsobj list" where
  "copied_batch c = map (clean_observation (has_values c)) c"

lemma rev_batch:
  "rev (map (clean_observation (has_values (rev c))) (rev c)) = copied_batch c"
  by (simp add: copied_batch_def has_values_def rev_map)

lemma copyObservations_Nil [simp]: "copyObservations api n [] sent = Some (sent, Inr ())"
  by (simp add: copyObservations.simps)

lemma copyObservations_step:
  "xs \<noteq> [] \<Longrightarrow> copyObservations api n xs sent =
     (case api sent (copied_batch (take n xs)) of
        Some err \<Rightarrow> Some (sent @ [copied_batch (take n xs)], Inl err)
      | None \<Rightarrow> copyObservations api n (drop n xs) (sent @ [copied_batch (take n xs)]))"
  by (subst copyObservations.simps) (simp add: Let_def rev_batch cong: option.case_cong)

text \<open>How the API answers a batch: an error is its answer to the last one.\<close>

definition batch_answer :: "(failure + unit) \<Rightarrow> bool \<Rightarrow> failure option" where
  "batch_answer r is_last = (case r of Inl err \<Rightarrow> if is_last then Some err else None | Inr _ \<Rightarrow> None)"

lemma copyObservations_sends:
  "\<exists>k r. copyObservations api (Suc n) xs sent =
       Some (sent @ map copied_batch (take k (chunks n xs)), r) \<and>
     k \<le> length (chunks n xs) \<and> (r = Inr () \<longrightarrow> k = length (chunks n xs)) \<and> (r \<noteq> Inr () \<longrightarrow> 0 < k) \<and>
     (\<forall>i < k. api (sent @ map copied_batch (take i (chunks n xs))) (copied_batch (chunks n xs ! i)) =
       batch_answer r (Suc i = k))"
proof (induction "length xs" arbitrary: xs sent rule: less_induct)
  case less
  show ?case
  proof (cases "xs = []")
    case True
    then show ?thesis by (intro exI [of _ 0] exI [of _ "Inr ()"]) simp
  next
    case False
    let ?b = "copied_batch (take (Suc n) xs)"
    note step = chunks_step [OF False, of n] and run = copyObservations_step [OF False, of api "Suc n" sent]
    show ?thesis
    proof (cases "api sent ?b")
      case (Some err)
      then show ?thesis
        using step run by (intro exI [of _ "Suc 0"] exI [of _ "Inl err"]) (simp add: batch_answer_def)
    next
      case None
      have "length (drop (Suc n) xs) < length xs" using False by simp
      from less [OF this, of "sent @ [?b]"] obtain k r
        where rest: "copyObservations api (Suc n) (drop (Suc n) xs) (sent @ [?b]) =
            Some ((sent @ [?b]) @ map copied_batch (take k (chunks n (drop (Suc n) xs))), r)"
          "k \<le> length (chunks n (drop (Suc n) xs))"
          "r = Inr () \<longrightarrow> k = length (chunks n (drop (Suc n) xs))" "r \<noteq> Inr () \<longrightarrow> 0 < k"
          and answers: "\<forall>i < k. api ((sent @ [?b]) @ map copied_batch (take i (chunks n (drop (Suc n) xs))))
            (copied_batch (chunks n (drop (Suc n) xs) ! i)) = batch_answer r (Suc i = k)"
        by (elim exE conjE)
      have "api (sent @ map copied_batch (take i (chunks n xs))) (copied_batch (chunks n xs ! i)) =
          batch_answer r (Suc i = Suc k)" if "i < Suc k" for i
      proof (cases i)
        case 0
        have "batch_answer r (Suc 0 = Suc k) = None" using rest(4) by (cases r) (auto simp: batch_answer_def)
        then show ?thesis using 0 None step by simp
      next
        case (Suc m)
        then show ?thesis using answers that step by simp
      qed
      then show ?thesis using rest None step run by (intro exI [of _ "Suc k"] exI [of _ r]) simp
    qed
  qed
qed

text \<open>What is left of an observation in its copy.\<close>

lemma map_fst_set_prop: "map fst (set_prop k f ps) = map fst ps"
  by (induction ps) (auto simp: set_prop_def)

lemma obj_get_set_prop_other: "k' \<noteq> k \<Longrightarrow> obj_get (set_prop k f ps) k' = obj_get ps k'"
  by (induction ps) (auto simp: set_prop_def)

lemma clean_observation_keeps:
  "k \<notin> set (uncopiedObservationKeys hv) \<Longrightarrow> k \<noteq> ''values'' \<Longrightarrow>
   obj_get (clean_observation hv ob) k = obj_get ob k"
  using obj_get_filter [of "\<lambda>k. k \<notin> set (uncopiedObservationKeys hv)" ob k]
  by (simp add: clean_observation_def obj_get_set_prop_other)

lemma clean_observation_drops:
  "k \<in> set (uncopiedObservationKeys hv) \<Longrightarrow> k \<notin> fst ` set (clean_observation hv ob)"
proof -
  assume "k \<in> set (uncopiedObservationKeys hv)"
  then have "k \<notin> set (map fst (clean_observation hv ob))"
    unfolding clean_observation_def map_fst_set_prop by auto
  then show ?thesis by simp
qed

text \<open>
  The copy of an observation, said key by key: those that name the old experiment are gone, and one of the two
  forms of the values; the entries of the values lose their mark \<open>object\<close>; every other key is as it was.
\<close>

definition without_key :: "string \<Rightarrow> jsval \<Rightarrow> jsval \<Rightarrow> bool" where
  "without_key k v w =
     (case v of
        JObj ps \<Rightarrow> (case w of JObj qs \<Rightarrow> \<forall>k'. obj_get qs k' = (if k' = k then JUndef else obj_get ps k') | _ \<Rightarrow> False)
      | _ \<Rightarrow> w = v)"

definition values_copied :: "jsval \<Rightarrow> jsval \<Rightarrow> bool" where
  "values_copied v w =
     (case v of
        JArr xs \<Rightarrow> (case w of JArr ys \<Rightarrow> list_all2 (without_key ''object'') xs ys | _ \<Rightarrow> False)
      | _ \<Rightarrow> w = v)"

definition is_copy_of :: "bool \<Rightarrow> jsobj \<Rightarrow> jsobj \<Rightarrow> bool" where
  "is_copy_of has_vals old new =
     ((\<forall>k. k \<notin> {''id'', ''object'', ''experiment'', ''created'', ''suggestion'', ''value'', ''value_stddev'', ''values''} \<longrightarrow>
         obj_get new k = obj_get old k) \<and>
      (\<forall>k \<in> {''id'', ''object'', ''experiment'', ''created'', ''suggestion''}. k \<notin> fst ` set new) \<and>
      (if has_vals
       then ''value'' \<notin> fst ` set new \<and> ''value_stddev'' \<notin> fst ` set new \<and>
         values_copied (obj_get old ''values'') (obj_get new ''values'')
       else ''values'' \<notin> fst ` set new \<and> obj_get new ''value'' = obj_get old ''value'' \<and>
         obj_get new ''value_stddev'' = obj_get old ''value_stddev''))"

lemma clean_values_copied: "values_copied v (clean_values v)"
proof (cases v)
  case (JArr xs)
  have "without_key ''object'' x (case x of JObj ps \<Rightarrow> JObj (filter (\<lambda>kv. fst kv \<noteq> ''object'') ps) | _ \<Rightarrow> x)" for x
  proof (cases x)
    case (JObj ps)
    have "obj_get (filter (\<lambda>kv. fst kv \<noteq> ''object'') ps) k = (if k = ''object'' then JUndef else obj_get ps k)" for k
      using obj_get_filter [of "\<lambda>k. k \<noteq> ''object''" ps k] by simp
    then show ?thesis using JObj by (simp add: without_key_def)
  qed (simp_all add: without_key_def)
  then show ?thesis using JArr by (simp add: values_copied_def clean_values_def list_all2_map2 list_all2_same)
qed (simp_all add: values_copied_def clean_values_def)

lemma obj_get_set_prop_same: "f JUndef = JUndef \<Longrightarrow> obj_get (set_prop k f ps) k = f (obj_get ps k)"
  by (induction ps) (auto simp: set_prop_def)

lemma clean_observation_is_copy: "is_copy_of hv ob (clean_observation hv ob)"
proof -
  have keeps: "obj_get (clean_observation hv ob) k = obj_get ob k"
    if "k \<notin> set (uncopiedObservationKeys hv)" "k \<noteq> ''values''" for k
    using that by (rule clean_observation_keeps)
  have drops: "k \<notin> fst ` set (clean_observation hv ob)" if "k \<in> set (uncopiedObservationKeys hv)" for k
    using that by (rule clean_observation_drops)
  have "obj_get (clean_observation True ob) ''values'' = clean_values (obj_get ob ''values'')"
    using obj_get_filter [of "\<lambda>k. k \<notin> set (uncopiedObservationKeys True)" ob "''values''"]
    by (simp add: clean_observation_def obj_get_set_prop_same clean_values_def uncopiedObservationKeys_def)
  then have "hv \<longrightarrow> values_copied (obj_get ob ''values'') (obj_get (clean_observation hv ob) ''values'')"
    by (simp add: clean_values_copied)
  with keeps drops show ?thesis by (cases hv) (auto simp: is_copy_of_def uncopiedObservationKeys_def)
qed

lemma copied_batch_is_copy:
  "list_all2 (is_copy_of (list_ex (\<lambda>ob. truthy (obj_get ob ''values'')) c)) c (copied_batch c)"
  by (simp add: copied_batch_def has_values_def list_all2_map2 list_all2_same clean_observation_is_copy)

definition batch_copies :: "jsobj list \<Rightarrow> jsobj list \<Rightarrow> bool" where
  "batch_copies c b = list_all2 (is_copy_of (list_ex (\<lambda>ob. truthy (obj_get ob ''values'')) c)) c b"

lemma copy_all_batches:
  assumes on: "cr_include_observations req = JStr ''on''"
    and os: "list_observations api (obj_get (cr_experiment req) ''id'') = Inr os"
    and size: "cr_chunkSize req = Suc n"
  shows "\<exists>cs bs r. copy_all_observations api req new = Some (bs, r) \<and> list_all2 batch_copies cs bs \<and>
    (\<forall>c \<in> set cs. c \<noteq> [] \<and> length c \<le> Suc n) \<and> prefix (concat cs) (rev os) \<and>
    (\<forall>i < length bs. create_observations api (js_prop new ''id'') (take i bs) (bs ! i) =
       batch_answer r (Suc i = length bs)) \<and>
    (if r = Inr () then concat cs = rev os else bs \<noteq> [])"
proof -
  let ?create = "create_observations api (js_prop new ''id'')"
  let ?chunks = "chunks n (rev os)"
  from copyObservations_sends [of ?create n "rev os" "[]"]
  obtain k r where run: "copyObservations ?create (Suc n) (rev os) [] =
      Some ([] @ map copied_batch (take k ?chunks), r)"
    and k: "k \<le> length ?chunks" "r = Inr () \<longrightarrow> k = length ?chunks" "r \<noteq> Inr () \<longrightarrow> 0 < k"
    and answers: "\<forall>i < k. ?create ([] @ map copied_batch (take i ?chunks)) (copied_batch (?chunks ! i)) =
      batch_answer r (Suc i = k)"
    by (elim exE conjE)
  define cs where "cs = take k ?chunks"
  define bs where "bs = map copied_batch cs"
  have len: "length bs = k" using k(1) by (simp add: bs_def cs_def)
  have "concat (take k ?chunks) @ concat (drop k ?chunks) = rev os" by (simp flip: concat_append)
  then have "prefix (concat cs) (rev os)" unfolding cs_def by (metis prefixI)
  moreover have "\<forall>c \<in> set cs. c \<noteq> [] \<and> length c \<le> Suc n"
    unfolding cs_def by (auto dest!: in_set_takeD dest: chunks_bound)
  moreover have "if r = Inr () then concat cs = rev os else bs \<noteq> []"
    using k len by (auto simp: cs_def)
  moreover have "list_all2 batch_copies cs bs"
    unfolding bs_def batch_copies_def list_all2_map2 by (simp add: list_all2_same copied_batch_is_copy)
  moreover have "?create (take i bs) (bs ! i) = batch_answer r (Suc i = length bs)" if "i < length bs" for i
    using answers that k(1) len by (simp add: bs_def cs_def take_map [symmetric])
  moreover have "copy_all_observations api req new = Some (bs, r)"
    using run by (simp add: copy_all_observations_def on os size bs_def cs_def)
  ultimately show ?thesis by blast
qed

text \<open>C28: copying an experiment with its observations always ends. The batches sent are copies of the observations,
  from the oldest to the newest and none twice, in batches of at most the limit: every key is kept but those of
  the old experiment and one of the two forms of the values. Every batch before the last one sent was accepted;
  the copy fails exactly with the error the API gives for the last one, and otherwise every batch was accepted
  and every observation sent.\<close>

theorem copy_sends_observations:
  assumes "cr_include_observations req = JStr ''on''"
    and "list_observations api (obj_get (cr_experiment req) ''id'') = Inr os"
    and "cr_chunkSize req = Suc n"
  shows "\<exists>cs bs r. copy_all_observations api req new = Some (bs, r) \<and> list_all2 batch_copies cs bs \<and>
    (\<forall>c \<in> set cs. c \<noteq> [] \<and> length c \<le> Suc n) \<and> prefix (concat cs) (rev os) \<and>
    (\<forall>i < length bs. create_observations api (js_prop new ''id'') (take i bs) (bs ! i) =
       batch_answer r (Suc i = length bs)) \<and>
    (if r = Inr () then concat cs = rev os else bs \<noteq> [])"
  using assms by (rule copy_all_batches)

definition old_observation :: "nat \<Rightarrow> jsobj" where
  "old_observation i =
     [(''id'', JNum (of_nat i)), (''failed'', JBool False), (''value'', JNum 1), (''values'', JNull)]"

definition example_copy_api :: copy_api where
  "example_copy_api =
     \<lparr>fetch_project = (\<lambda>c p. Inr (JObj [(''id'', p)])), create_experiment = (\<lambda>c e. Inr (JObj [(''id'', JStr ''8'')])),
      list_observations = (\<lambda>e. Inr (map old_observation [3, 2, 1])), create_observations = (\<lambda>e sent b. None)\<rparr>"

definition example_copy_request :: "nat \<Rightarrow> copy_request" where
  "example_copy_request n =
     \<lparr>cr_method = ''POST'', cr_experiment = [(''id'', JStr ''7''), (''name'', JStr ''tuning''), (''client'', JStr ''1'')],
      cr_clientId = JStr ''1'', cr_include_observations = JStr ''on'', cr_chunkSize = n\<rparr>"

lemma copy_sends_observations_witness:
  "\<exists>cs bs r. copy_all_observations example_copy_api (example_copy_request 2) (JObj [(''id'', JStr ''8'')]) =
       Some (bs, r) \<and> list_all2 batch_copies cs bs \<and>
     (\<forall>c \<in> set cs. c \<noteq> [] \<and> length c \<le> Suc 1) \<and> prefix (concat cs) (rev (map old_observation [3, 2, 1])) \<and>
     (\<forall>i < length bs. create_observations example_copy_api (js_prop (JObj [(''id'', JStr ''8'')]) ''id'') (take i bs) (bs ! i) =
       batch_answer r (Suc i = length bs)) \<and>
     (if r = Inr () then concat cs = rev (map old_observation [3, 2, 1]) else bs \<noteq> [])"
  by (rule copy_sends_observations) (simp_all add: example_copy_api_def example_copy_request_def)

text \<open>A copied experiment: its name has at most 50 characters and no part of it has an identity.\<close>

lemma deep_keys_items: "deep_keys (map_items f v) \<subseteq> deep_keys v"
  if "\<And>ps. set (f ps) \<subseteq> set ps"
proof (cases v)
  case (JArr xs)
  have "deep_keys (case x of JObj ps \<Rightarrow> JObj (f ps) | _ \<Rightarrow> x) \<subseteq> deep_keys x" for x
    using that by (cases x) auto
  then show ?thesis using JArr by fastforce
qed auto

lemma deep_keys_set_prop:
  assumes "\<And>v. deep_keys (f v) \<subseteq> deep_keys v"
  shows "deep_keys (JObj (set_prop k f ps)) \<subseteq> deep_keys (JObj ps)"
proof -
  have "insert (fst q) (deep_keys (snd q)) \<subseteq> insert (fst p) (deep_keys (snd p))"
    if "q = (if fst p = k then (k, f (snd p)) else p)" for p q
    using that assms [of "snd p"] by (auto split: if_splits)
  then show ?thesis unfolding set_prop_def deep_keys.simps set_map by blast
qed

lemma copied_parameter_subset: "set (copied_parameter p) \<subseteq> set p"
  by (auto simp: copied_parameter_def)

lemma copied_experiment_tidy:
  assumes "copied_experiment e = Inr p"
  shows "\<exists>s. obj_get p ''name'' = JStr s \<and> length s \<le> 50"
    and "deep_keys (JObj p) \<inter> set JSON_OBJECT_DENY_LIST = {}"
    and "fst ` set p \<inter> set uncopiedExperimentKeys = {}"
proof -
  let ?e = "filter (\<lambda>p. fst p \<notin> set uncopiedExperimentKeys) e"
  obtain params where params: "recursivelyOmitKeys (JObj ?e) JSON_OBJECT_DENY_LIST = JObj params" by simp
  obtain name where name: "obj_get params ''name'' = JStr name"
    and p: "p = set_prop ''parameters'' (map_items copied_parameter)
        (set_prop ''metrics'' (map_items (filter (\<lambda>kv. fst kv \<noteq> ''object'')))
          (set_prop ''name'' (\<lambda>_. JStr (copied_name name)) params))"
    using assms unfolding copied_experiment_def params by (auto split: jsval.splits)
  have "obj_get (set_prop k (\<lambda>_. v) ps) k = v" if "obj_get ps k \<noteq> JUndef" for k v ps
    using that by (induction ps) (auto simp: set_prop_def)
  then have "obj_get p ''name'' = JStr (copied_name name)"
    using name by (simp add: p obj_get_set_prop_other)
  moreover have "length (copied_name name) \<le> 50" by (simp add: copied_name_def)
  ultimately show "\<exists>s. obj_get p ''name'' = JStr s \<and> length s \<le> 50" by blast
  have "deep_keys (JObj p) \<subseteq> deep_keys (JObj (set_prop ''metrics'' (map_items (filter (\<lambda>kv. fst kv \<noteq> ''object'')))
          (set_prop ''name'' (\<lambda>_. JStr (copied_name name)) params)))"
    unfolding p by (intro deep_keys_set_prop deep_keys_items copied_parameter_subset)
  also have "\<dots> \<subseteq> deep_keys (JObj (set_prop ''name'' (\<lambda>_. JStr (copied_name name)) params))"
    by (intro deep_keys_set_prop deep_keys_items filter_is_subset)
  also have "\<dots> \<subseteq> deep_keys (JObj params)" by (intro deep_keys_set_prop) simp
  finally show "deep_keys (JObj p) \<inter> set JSON_OBJECT_DENY_LIST = {}"
    using omit_no_keys [of "JObj ?e" JSON_OBJECT_DENY_LIST] unfolding params by blast
  have "map fst p = map fst params" by (simp only: p map_fst_set_prop)
  moreover have "set (map fst params) \<subseteq> set (map fst ?e)" using params by (auto simp: image_iff)
  ultimately have "set (map fst p) \<subseteq> set (map fst ?e)" by simp
  moreover have "set (map fst ?e) \<inter> set uncopiedExperimentKeys = {}" by auto
  ultimately show "fst ` set p \<inter> set uncopiedExperimentKeys = {}" by (simp only: set_map) blast
qed

text \<open>C29: the copy of an experiment has a name of at most 50 characters, and neither it nor any part of it
  has the id, the kind or the dates of the original, nor its progress, team, state or user.\<close>

theorem copied_experiment_is_new:
  assumes "copied_experiment e = Inr p"
  shows "(\<exists>s. obj_get p ''name'' = JStr s \<and> length s \<le> 50) \<and>
    deep_keys (JObj p) \<inter> set JSON_OBJECT_DENY_LIST = {} \<and>
    fst ` set p \<inter> set uncopiedExperimentKeys = {}"
  using copied_experiment_tidy [OF assms] by blast

lemma copied_experiment_is_new_witness:
  "(\<exists>s. obj_get [(''name'', JStr ''tuning Copy'')] ''name'' = JStr s \<and> length s \<le> 50) \<and>
   deep_keys (JObj [(''name'', JStr ''tuning Copy'')]) \<inter> set JSON_OBJECT_DENY_LIST = {} \<and>
   fst ` set [(''name'', JStr ''tuning Copy'')] \<inter> set uncopiedExperimentKeys = {}"
proof (rule copied_experiment_is_new)
  show "copied_experiment [(''id'', JStr ''7''), (''name'', JStr ''tuning''), (''client'', JStr ''1'')] =
      Inr [(''name'', JStr ''tuning Copy'')]"
    by (simp add: copied_experiment_def uncopiedExperimentKeys_def JSON_OBJECT_DENY_LIST_def
        copied_name_def set_prop_def)
qed

end
