(* ===== verification/Charts.thy ===== *)
theory Charts
  imports BulkData "HOL-Library.Multiset"
begin

section \<open>Charts: web/js/chart, react_chart\<close>

text \<open>
  What the charts of an experiment are given to draw: the values of observations, the ranges of axes, the
  shapes that shade what misses a threshold, and the trace of the best value so far. Values of metrics and
  thresholds are numbers or missing. The drawing itself is left to the library of the charts.
\<close>

subsection \<open>Values of observations: chart/values.js\<close>

record chart_observation = api_observation +
  co_value :: jsval
  co_value_stddev :: jsval

definition findValueObject :: "chart_observation \<Rightarrow> jsval \<Rightarrow> jsval \<times> jsval" where
  "findValueObject ob metricKey =
     (let valueObject = (case metricKey of
            JNum n \<Rightarrow>
              (let i = nat \<lfloor>n\<rfloor>
               in if n = of_nat i \<and> i < length (ob_values ob) then Some (ob_values ob ! i) else None)
          | _ \<Rightarrow> List.find (\<lambda>v. ms_name v = metricKey) (ob_values ob))
      in case valueObject of
           Some v \<Rightarrow> (ms_value v, ms_value_stddev v)
         | None \<Rightarrow> (co_value ob, co_value_stddev ob))"

definition metricValueGetter :: "chart_observation \<Rightarrow> jsval \<Rightarrow> jsval" where
  "metricValueGetter ob key = fst (findValueObject ob key)"

definition metricValueStddevGetter :: "chart_observation \<Rightarrow> jsval \<Rightarrow> jsval" where
  "metricValueStddevGetter ob key = snd (findValueObject ob key)"

definition assignmentGetter :: "chart_observation \<Rightarrow> jsval \<Rightarrow> jsval" where
  "assignmentGetter ob key = obj_get (case ob_assignments ob of None \<Rightarrow> [] | Some a \<Rightarrow> a) (js_text key)"

definition metadataGetter :: "chart_observation \<Rightarrow> jsval \<Rightarrow> jsval" where
  "metadataGetter ob key = obj_get (case ao_metadata ob of None \<Rightarrow> [] | Some md \<Rightarrow> md) (js_text key)"

definition taskGetter :: "chart_observation \<Rightarrow> jsval" where
  "taskGetter ob = (case ao_task ob of None \<Rightarrow> JUndef | Some t \<Rightarrow> JStr (tk_name t))"

definition SUPPORTED_AXIS_TYPES :: "string list" where
  "SUPPORTED_AXIS_TYPES =
     [''conditional'', ''metadata'', ''parameter'', ''task'', ''optimized-metric'', ''constrained-metric'',
      ''stored-metric'']"

definition metric_axis_types :: "string list" where
  "metric_axis_types = [''optimized-metric'', ''constrained-metric'', ''stored-metric'']"

record chart_axis =
  ax_key :: jsval
  ax_type :: string

definition makeAxisGetter ::
  "(string \<Rightarrow> (chart_observation \<Rightarrow> jsval \<Rightarrow> jsval) option) \<Rightarrow> chart_axis \<Rightarrow>
   js_error + (chart_observation \<Rightarrow> jsval)" where
  "makeAxisGetter getterMap axis =
     (if ax_type axis \<in> set SUPPORTED_AXIS_TYPES then
        Inr (case getterMap (ax_type axis) of None \<Rightarrow> (\<lambda>ob. JUndef) | Some g \<Rightarrow> (\<lambda>ob. g ob (ax_key axis)))
      else Inl (JsError (''Unsupported axis type: '' @ ax_type axis)))"

definition valueGetters :: "string \<Rightarrow> (chart_observation \<Rightarrow> jsval \<Rightarrow> jsval) option" where
  "valueGetters axisType =
     (if axisType = ''conditional'' \<or> axisType = ''parameter'' then Some assignmentGetter
      else if axisType = ''metadata'' then Some metadataGetter
      else if axisType = ''task'' then Some (\<lambda>ob key. taskGetter ob)
      else if axisType \<in> set metric_axis_types then Some metricValueGetter
      else None)"

definition valueStddevGetters :: "string \<Rightarrow> (chart_observation \<Rightarrow> jsval \<Rightarrow> jsval) option" where
  "valueStddevGetters axisType =
     (if axisType \<in> set metric_axis_types then Some metricValueStddevGetter else None)"

definition axisValueGetter :: "chart_axis \<Rightarrow> js_error + (chart_observation \<Rightarrow> jsval)" where
  "axisValueGetter = makeAxisGetter valueGetters"

definition axisValueStddevGetter :: "chart_axis \<Rightarrow> js_error + (chart_observation \<Rightarrow> jsval)" where
  "axisValueStddevGetter = makeAxisGetter valueStddevGetters"

subsection \<open>Ranges: chart/range.js\<close>

definition computeRange :: "rat \<Rightarrow> rat \<Rightarrow> rat \<Rightarrow> rat \<times> rat" where
  "computeRange padding l r = (l - (r - l) * padding, r + (r - l) * padding)"

text \<open>A bound that is \<open>undefined\<close> or \<open>null\<close> is \<open>None\<close>.\<close>

definition getChartRange :: "rat option \<Rightarrow> rat option \<Rightarrow> rat option \<Rightarrow> rat option \<Rightarrow> rat \<times> rat" where
  "getChartRange lo hi padding radius =
     (let p = (case padding of None \<Rightarrow> 5 / 100 | Some p \<Rightarrow> p);
          q = (case radius of None \<Rightarrow> 1 | Some q \<Rightarrow> q)
      in case (lo, hi) of
           (Some a, Some b) \<Rightarrow>
             if a < b then computeRange p a b else computeRange p (a - q) (a + q)
         | (Some a, None) \<Rightarrow> computeRange p (a - q) (a + q)
         | (None, Some b) \<Rightarrow> computeRange p (b - q) (b + q)
         | (None, None) \<Rightarrow> computeRange p 0 1)"

subsection \<open>Shading: chart/thresholds.js\<close>

record chart_shape =
  sh_xref :: string
  sh_yref :: string
  sh_x0 :: rat
  sh_y0 :: rat
  sh_x1 :: rat
  sh_y1 :: rat
  sh_type :: string

definition threshold_shape ::
  "string \<Rightarrow> string \<Rightarrow> string \<Rightarrow> rat \<times> rat \<Rightarrow> rat \<times> rat \<Rightarrow> chart_shape" where
  "threshold_shape shapeType xref yref p q =
     \<lparr>sh_xref = xref, sh_yref = yref, sh_x0 = fst p, sh_y0 = snd p, sh_x1 = fst q, sh_y1 = snd q,
      sh_type = shapeType\<rparr>"

record threshold_options =
  to_axis :: chart_axis
  to_min :: rat
  to_max :: rat
  to_threshold :: rat

definition orientThreshold :: "sigopt_experiment \<Rightarrow> threshold_options \<Rightarrow> js_error + rat \<times> rat" where
  "orientThreshold e options =
     (let (l, r) = getChartRange (Some (to_min options)) (Some (to_max options)) (Some 2) None
      in case findMetric e (ax_key (to_axis options)) of
           None \<Rightarrow> Inl TypeError
         | Some i \<Rightarrow> metricObjectiveOption (ex_metrics e ! i) [(''minimize'', (l, r)), (''maximize'', (r, l))])"

definition getThresholdShapes ::
  "sigopt_experiment \<Rightarrow> threshold_options option \<Rightarrow> threshold_options option \<Rightarrow> js_error + chart_shape list" where
  "getThresholdShapes e xOptions yOptions =
     (case (xOptions, yOptions) of
        (Some xo, Some yo) \<Rightarrow>
          (case orientThreshold e xo of
             Inl err \<Rightarrow> Inl err
           | Inr (tx, ox) \<Rightarrow>
               (case orientThreshold e yo of
                  Inl err \<Rightarrow> Inl err
                | Inr (ty, oy) \<Rightarrow>
                    (let cx = to_threshold xo; cy = to_threshold yo
                     in Inr [threshold_shape ''line'' ''x'' ''y'' (cx, cy) (cx, ty),
                             threshold_shape ''line'' ''x'' ''y'' (cx, cy) (tx, cy),
                             threshold_shape ''rect'' ''x'' ''y'' (cx, cy) (tx, oy),
                             threshold_shape ''rect'' ''x'' ''y'' (cx, cy) (ox, oy),
                             threshold_shape ''rect'' ''x'' ''y'' (cx, cy) (ox, ty)])))
      | (Some xo, None) \<Rightarrow>
          (case orientThreshold e xo of
             Inl err \<Rightarrow> Inl err
           | Inr (_, outer) \<Rightarrow>
               Inr [threshold_shape ''line'' ''x'' ''paper'' (to_threshold xo, 0) (to_threshold xo, 1),
                    threshold_shape ''rect'' ''x'' ''paper'' (to_threshold xo, 0) (outer, 1)])
      | (None, Some yo) \<Rightarrow>
          (case orientThreshold e yo of
             Inl err \<Rightarrow> Inl err
           | Inr (_, outer) \<Rightarrow>
               Inr [threshold_shape ''line'' ''paper'' ''y'' (0, to_threshold yo) (1, to_threshold yo),
                    threshold_shape ''rect'' ''paper'' ''y'' (0, to_threshold yo) (1, outer)])
      | (None, None) \<Rightarrow> Inr [])"

fun chart_number :: "jsval \<Rightarrow> rat option" where
  "chart_number (JNum n) = Some n"
| "chart_number _ = None"

text \<open>An axis without a metric of the right kind has no threshold.\<close>

definition axis_threshold :: "sigopt_experiment \<Rightarrow> chart_axis option \<Rightarrow> jsval" where
  "axis_threshold e axis =
     (case axis of
        None \<Rightarrow> JNull
      | Some a \<Rightarrow>
          if ax_type a = ''optimized-metric'' \<or> ax_type a = ''constrained-metric''
          then getThreshold e (ax_key a) else JNull)"

definition threshold_makeOptions ::
  "chart_observation list \<Rightarrow> chart_axis option \<Rightarrow> jsval \<Rightarrow> js_error + threshold_options option" where
  "threshold_makeOptions observations axis threshold =
     (case (axis, chart_number threshold) of
        (Some a, Some t) \<Rightarrow>
          (case axisValueGetter a of
             Inl err \<Rightarrow> Inl err
           | Inr getter \<Rightarrow>
               (let valuesWithThreshold = List.map_filter (chart_number \<circ> getter) observations @ [t]
                in Inr (Some \<lparr>to_axis = a, to_min = Min (set valuesWithThreshold),
                              to_max = Max (set valuesWithThreshold), to_threshold = t\<rparr>)))
      | _ \<Rightarrow> Inr None)"

definition axisLayout :: "threshold_options \<Rightarrow> jsobj" where
  "axisLayout options =
     (let (a, b) = getChartRange (Some (to_min options)) (Some (to_max options)) None None
      in [(''autorange'', JBool False), (''range'', JArr [JNum a, JNum b])])"

record chart_layout =
  lo_shapes :: "chart_shape list option"
  lo_xaxis :: jsobj
  lo_yaxis :: jsobj

definition extend_axis :: "threshold_options option \<Rightarrow> jsobj \<Rightarrow> jsobj" where
  "extend_axis options l = (case options of None \<Rightarrow> l | Some opts \<Rightarrow> obj_extend l (axisLayout opts))"

definition updateLayoutForThresholds ::
  "sigopt_experiment \<Rightarrow> chart_observation list \<Rightarrow> chart_axis option \<Rightarrow> chart_axis option \<Rightarrow> chart_layout \<Rightarrow>
   js_error + chart_layout" where
  "updateLayoutForThresholds e observations xAxis yAxis layout =
     (case threshold_makeOptions observations xAxis (axis_threshold e xAxis) of
        Inl err \<Rightarrow> Inl err
      | Inr xOptions \<Rightarrow>
          (case threshold_makeOptions observations yAxis (axis_threshold e yAxis) of
             Inl err \<Rightarrow> Inl err
           | Inr yOptions \<Rightarrow>
               (case getThresholdShapes e xOptions yOptions of
                  Inl err \<Rightarrow> Inl err
                | Inr shapes \<Rightarrow>
                    Inr \<lparr>lo_shapes = Some ((case lo_shapes layout of None \<Rightarrow> [] | Some s \<Rightarrow> s) @ shapes),
                         lo_xaxis = extend_axis xOptions (lo_xaxis layout),
                         lo_yaxis = extend_axis yOptions (lo_yaxis layout)\<rparr>)))"

subsection \<open>Shaded is what misses a threshold\<close>

text \<open>
  A point of the picture has coordinates in the units of the axes and coordinates on the paper, between 0
  and 1. A rectangle is drawn between its corners in either order.
\<close>

record chart_point =
  pt_x :: rat
  pt_y :: rat
  pt_paper_x :: rat
  pt_paper_y :: rat

definition between :: "rat \<Rightarrow> rat \<Rightarrow> rat \<Rightarrow> bool" where
  "between a b v \<longleftrightarrow> min a b \<le> v \<and> v \<le> max a b"

definition in_shape :: "chart_point \<Rightarrow> chart_shape \<Rightarrow> bool" where
  "in_shape p s \<longleftrightarrow>
     between (sh_x0 s) (sh_x1 s) (if sh_xref s = ''paper'' then pt_paper_x p else pt_x p) \<and>
     between (sh_y0 s) (sh_y1 s) (if sh_yref s = ''paper'' then pt_paper_y p else pt_y p)"

definition shaded :: "chart_layout \<Rightarrow> chart_point \<Rightarrow> bool" where
  "shaded layout p = (\<exists>s \<in> set (case lo_shapes layout of None \<Rightarrow> [] | Some ss \<Rightarrow> ss). sh_type s = ''rect'' \<and> in_shape p s)"

definition axis_range :: "jsobj \<Rightarrow> (rat \<times> rat) option" where
  "axis_range l = (case obj_get l ''range'' of JArr [JNum a, JNum b] \<Rightarrow> Some (a, b) | _ \<Rightarrow> None)"

text \<open>Inside the ranges that are set, and on the paper.\<close>

definition in_view :: "chart_layout \<Rightarrow> chart_point \<Rightarrow> bool" where
  "in_view layout p \<longleftrightarrow>
     (case axis_range (lo_xaxis layout) of None \<Rightarrow> True | Some (a, b) \<Rightarrow> a \<le> pt_x p \<and> pt_x p \<le> b) \<and>
     (case axis_range (lo_yaxis layout) of None \<Rightarrow> True | Some (a, b) \<Rightarrow> a \<le> pt_y p \<and> pt_y p \<le> b) \<and>
     0 \<le> pt_paper_x p \<and> pt_paper_x p \<le> 1 \<and> 0 \<le> pt_paper_y p \<and> pt_paper_y p \<le> 1"

text \<open>What a threshold asks of a value of its axis.\<close>

definition axis_met :: "sigopt_experiment \<Rightarrow> chart_axis option \<Rightarrow> rat \<Rightarrow> bool" where
  "axis_met e axis v =
     (case chart_number (axis_threshold e axis) of
        None \<Rightarrow> True
      | Some t \<Rightarrow>
          (case findMetric e (ax_key (the axis)) of
             None \<Rightarrow> True | Some i \<Rightarrow> threshold_met (ex_metrics e ! i) (JNum v)))"

definition chartable :: "sigopt_experiment \<Rightarrow> bool" where
  "chartable e =
     list_all (\<lambda>m. known_objective m \<and> (case mt_threshold m of JNum t \<Rightarrow> True | JNull \<Rightarrow> True | JUndef \<Rightarrow> True | _ \<Rightarrow> False))
       (ex_metrics e)"

definition wf_options :: "threshold_options \<Rightarrow> bool" where
  "wf_options o1 \<longleftrightarrow> to_min o1 \<le> to_threshold o1 \<and> to_threshold o1 \<le> to_max o1"

definition visible_range :: "threshold_options \<Rightarrow> rat \<times> rat" where
  "visible_range o1 = getChartRange (Some (to_min o1)) (Some (to_max o1)) None None"

lemma visible_in_outer:
  assumes "wf_options o1" "visible_range o1 = (a, b)"
    "getChartRange (Some (to_min o1)) (Some (to_max o1)) (Some 2) None = (l, r)"
  shows "l \<le> a" "b \<le> r" "a \<le> to_min o1" "to_max o1 \<le> b"
  using assms by (auto simp: visible_range_def getChartRange_def computeRange_def wf_options_def
      field_simps split: if_splits)

lemma threshold_makeOptions_cases:
  assumes "chartable e" "threshold_makeOptions obs axis (axis_threshold e axis) = Inr opts"
  shows "case opts of
      None \<Rightarrow> chart_number (axis_threshold e axis) = None
    | Some o1 \<Rightarrow> chart_number (axis_threshold e axis) = Some (to_threshold o1) \<and> axis = Some (to_axis o1) \<and> wf_options o1 \<and>
        (\<exists>getter. axisValueGetter (to_axis o1) = Inr getter \<and>
          (\<forall>ob \<in> set obs. \<forall>v. chart_number (getter ob) = Some v \<longrightarrow> to_min o1 \<le> v \<and> v \<le> to_max o1))"
proof (cases "chart_number (axis_threshold e axis)")
  case None
  then show ?thesis using assms(2) by (auto simp: threshold_makeOptions_def split: option.splits)
next
  case (Some t)
  then obtain a where a: "axis = Some a" by (cases axis) (auto simp: axis_threshold_def)
  then obtain getter where g: "axisValueGetter a = Inr getter"
    using assms(2) Some by (auto simp: threshold_makeOptions_def split: sum.splits)
  let ?vs = "List.map_filter (chart_number \<circ> getter) obs @ [t]"
  have opts: "opts = Some \<lparr>to_axis = a, to_min = Min (set ?vs), to_max = Max (set ?vs), to_threshold = t\<rparr>"
    using assms(2) Some a g by (simp add: threshold_makeOptions_def Let_def)
  have "v \<in> set ?vs" if "ob \<in> set obs" "chart_number (getter ob) = Some v" for ob v
    using that by (auto simp: List.map_filter_def intro!: rev_image_eqI)
  then show ?thesis using Some a g by (auto simp: opts wf_options_def)
qed

lemma orientThreshold_ok:
  assumes "chartable e" "chart_number (axis_threshold e (Some (to_axis o1))) = Some (to_threshold o1)"
  obtains i l r where "findMetric e (ax_key (to_axis o1)) = Some i" "i < length (ex_metrics e)"
    "mt_threshold (ex_metrics e ! i) = JNum (to_threshold o1)"
    "getChartRange (Some (to_min o1)) (Some (to_max o1)) (Some 2) None = (l, r)"
    "orientThreshold e o1 = Inr (if mt_objective (ex_metrics e ! i) = ''minimize'' then (l, r) else (r, l))"
proof -
  obtain i where i: "findMetric e (ax_key (to_axis o1)) = Some i"
    using assms(2) by (auto simp: axis_threshold_def getThreshold_def split: if_splits option.splits)
  have len: "i < length (ex_metrics e)" using findMetric_in_range i by blast
  have "getThreshold e (ax_key (to_axis o1)) = mt_threshold (ex_metrics e ! i)"
    by (rule getThreshold_of_found [OF i])
  then have t: "mt_threshold (ex_metrics e ! i) = JNum (to_threshold o1)"
    using assms(2) by (auto simp: axis_threshold_def split: if_splits elim: chart_number.elims)
  have "known_objective (ex_metrics e ! i)" using assms(1) len by (simp add: chartable_def list_all_iff)
  moreover obtain l r where "getChartRange (Some (to_min o1)) (Some (to_max o1)) (Some 2) None = (l, r)"
    by fastforce
  ultimately show thesis
    using that [OF i len t] i by (auto simp: orientThreshold_def known_objective_def metricObjectiveOption_def)
qed

text \<open>One axis: between the threshold and the outer border lie exactly the visible values that miss it.\<close>

lemma axis_side:
  assumes "chartable e" "chart_number (axis_threshold e (Some (to_axis o1))) = Some (to_threshold o1)"
    "wf_options o1" "visible_range o1 = (a, b)" "a \<le> v" "v \<le> b" "v \<noteq> to_threshold o1"
    "orientThreshold e o1 = Inr (good, outer)"
  shows "between (to_threshold o1) outer v \<longleftrightarrow> \<not> axis_met e (Some (to_axis o1)) v"
    and "between (to_threshold o1) good v \<longleftrightarrow> axis_met e (Some (to_axis o1)) v"
proof -
  obtain i l r where i: "findMetric e (ax_key (to_axis o1)) = Some i" "i < length (ex_metrics e)"
    "mt_threshold (ex_metrics e ! i) = JNum (to_threshold o1)"
    and lr: "getChartRange (Some (to_min o1)) (Some (to_max o1)) (Some 2) None = (l, r)"
    and "orientThreshold e o1 = Inr (if mt_objective (ex_metrics e ! i) = ''minimize'' then (l, r) else (r, l))"
    using orientThreshold_ok [OF assms(1,2)] by blast
  then have go: "(good, outer) = (if mt_objective (ex_metrics e ! i) = ''minimize'' then (l, r) else (r, l))"
    using assms(8) by simp
  have met: "axis_met e (Some (to_axis o1)) v =
      (if mt_objective (ex_metrics e ! i) = ''minimize'' then v \<le> to_threshold o1 else to_threshold o1 \<le> v)"
    using assms(2) i by (simp add: axis_met_def threshold_met_def isDefinedAndNotNull_def isUndefinedOrNull_def js_le_def)
  have "l \<le> v" "v \<le> r" "l \<le> to_threshold o1" "to_threshold o1 \<le> r"
    using visible_in_outer [OF assms(3,4) lr] assms(3,5,6) by (auto simp: wf_options_def)
  then show "between (to_threshold o1) outer v \<longleftrightarrow> \<not> axis_met e (Some (to_axis o1)) v"
    "between (to_threshold o1) good v \<longleftrightarrow> axis_met e (Some (to_axis o1)) v"
    using go assms(7) unfolding met by (auto simp: between_def split: if_splits)
qed

lemma axis_range_extended: "axis_range (extend_axis (Some o1) l) = Some (visible_range o1)"
  by (cases "visible_range o1") (simp add: axis_range_def extend_axis_def axisLayout_def visible_range_def
      split: prod.split)

lemma axis_met_none: "chart_number (axis_threshold e axis) = None \<Longrightarrow> axis_met e axis v"
  by (simp add: axis_met_def)

lemma findMetric_known:
  assumes "findMetric e key = Some i"
  shows "i < length (ex_metrics e)"
  using findMetric_in_range assms by blast

lemma shapes_of_options:
  assumes e: "chartable e"
    and xo: "\<And>o1. xo = Some o1 \<Longrightarrow> chart_number (axis_threshold e (Some (to_axis o1))) = Some (to_threshold o1)"
    and yo: "\<And>o1. yo = Some o1 \<Longrightarrow> chart_number (axis_threshold e (Some (to_axis o1))) = Some (to_threshold o1)"
  shows "\<exists>shapes. getThresholdShapes e xo yo = Inr shapes"
proof -
  have "\<exists>g u. orientThreshold e o1 = Inr (g, u)"
    if opts: "chart_number (axis_threshold e (Some (to_axis o1))) = Some (to_threshold o1)" for o1
  proof -
    obtain i l r where "orientThreshold e o1 =
        Inr (if mt_objective (ex_metrics e ! i) = ''minimize'' then (l, r) else (r, l))"
      using orientThreshold_ok [OF e opts] by blast
    then show ?thesis by (cases "mt_objective (ex_metrics e ! i) = ''minimize''") simp_all
  qed
  then have "\<And>o1. xo = Some o1 \<Longrightarrow> \<exists>g u. orientThreshold e o1 = Inr (g, u)"
    "\<And>o1. yo = Some o1 \<Longrightarrow> \<exists>g u. orientThreshold e o1 = Inr (g, u)"
    using xo yo by blast+
  then show ?thesis
    by (cases xo; cases yo) (fastforce simp: getThresholdShapes_def Let_def)+
qed

definition off_lines :: "sigopt_experiment \<Rightarrow> chart_axis option \<Rightarrow> chart_axis option \<Rightarrow> chart_point \<Rightarrow> bool" where
  "off_lines e xAxis yAxis p \<longleftrightarrow>
     axis_threshold e xAxis \<noteq> JNum (pt_x p) \<and> axis_threshold e yAxis \<noteq> JNum (pt_y p)"

lemma chart_number_iff: "chart_number v = Some t \<longleftrightarrow> v = JNum t"
  by (cases v) auto

lemma shaded_iff:
  assumes e: "chartable e" and p: "in_view layout' p" "off_lines e xAxis yAxis p"
    and x: "threshold_makeOptions obs xAxis (axis_threshold e xAxis) = Inr xo"
    and y: "threshold_makeOptions obs yAxis (axis_threshold e yAxis) = Inr yo"
    and shapes: "getThresholdShapes e xo yo = Inr shapes"
    and layout': "lo_shapes layout' = Some shapes" "lo_xaxis layout' = extend_axis xo lx"
      "lo_yaxis layout' = extend_axis yo ly"
  shows "shaded layout' p \<longleftrightarrow> \<not> (axis_met e xAxis (pt_x p) \<and> axis_met e yAxis (pt_y p))"
proof -
  have paper: "between 0 1 (pt_paper_x p)" "between 0 1 (pt_paper_y p)"
    using p(1) by (auto simp: in_view_def between_def)
  have side: "(between (to_threshold o1) outer v \<longleftrightarrow> \<not> axis_met e axis v) \<and>
      (between (to_threshold o1) good v \<longleftrightarrow> axis_met e axis v)"
    if opts: "threshold_makeOptions obs axis (axis_threshold e axis) = Inr (Some o1)"
      and range: "visible_range o1 = (a, b)" "a \<le> v" "v \<le> b" and off: "axis_threshold e axis \<noteq> JNum v"
      and orient: "orientThreshold e o1 = Inr (good, outer)" for axis o1 a b v good outer
  proof -
    have c: "chart_number (axis_threshold e axis) = Some (to_threshold o1)" "axis = Some (to_axis o1)" "wf_options o1"
      using threshold_makeOptions_cases [OF e opts] by auto
    then have "v \<noteq> to_threshold o1" using off by (auto simp: chart_number_iff)
    then show ?thesis
      using axis_side [OF e _ c(3) range] c(1,2) orient by simp
  qed
  have none: "axis_met e axis v"
    if "threshold_makeOptions obs axis (axis_threshold e axis) = Inr None" for axis v
    using threshold_makeOptions_cases [OF e that] by (simp add: axis_met_none)
  show ?thesis
  proof (cases xo)
    case None
    note nx = none [OF x [unfolded None]]
    show ?thesis
    proof (cases yo)
      case ny: None
      then show ?thesis
        using None shapes layout'(1) nx none [OF y [unfolded ny]] by (simp add: getThresholdShapes_def shaded_def)
    next
      case (Some o2)
      then obtain good outer where orient: "orientThreshold e o2 = Inr (good, outer)"
        using shapes None by (auto simp: getThresholdShapes_def split: sum.splits)
      obtain a b where range: "visible_range o2 = (a, b)" by fastforce
      then have "a \<le> pt_y p" "pt_y p \<le> b"
        using p(1) Some by (simp_all add: in_view_def layout' axis_range_extended)
      then have "between (to_threshold o2) outer (pt_y p) \<longleftrightarrow> \<not> axis_met e yAxis (pt_y p)"
        using side [OF y [unfolded Some] range] p(2) orient by (auto simp: off_lines_def)
      then show ?thesis
        using shapes None Some orient nx paper
        by (auto simp: getThresholdShapes_def shaded_def layout' threshold_shape_def in_shape_def)
    qed
  next
    case (Some o1)
    obtain a b where range: "visible_range o1 = (a, b)" by fastforce
    then have vx: "a \<le> pt_x p" "pt_x p \<le> b"
      using p(1) Some by (simp_all add: in_view_def layout' axis_range_extended)
    show ?thesis
    proof (cases yo)
      case None
      obtain good outer where orient: "orientThreshold e o1 = Inr (good, outer)"
        using shapes None Some by (auto simp: getThresholdShapes_def split: sum.splits)
      then have "between (to_threshold o1) outer (pt_x p) \<longleftrightarrow> \<not> axis_met e xAxis (pt_x p)"
        using side [OF x [unfolded Some] range vx] p(2) by (auto simp: off_lines_def)
      then show ?thesis
        using shapes None Some orient none [OF y [unfolded None]] paper
        by (auto simp: getThresholdShapes_def shaded_def layout' threshold_shape_def in_shape_def)
    next
      case o2: (Some o2)
      obtain tx ox ty oy where orient: "orientThreshold e o1 = Inr (tx, ox)" "orientThreshold e o2 = Inr (ty, oy)"
        using shapes Some o2 by (auto simp: getThresholdShapes_def split: sum.splits)
      obtain c d where range2: "visible_range o2 = (c, d)" by fastforce
      then have vy: "c \<le> pt_y p" "pt_y p \<le> d"
        using p(1) o2 by (simp_all add: in_view_def layout' axis_range_extended)
      have "(between (to_threshold o1) ox (pt_x p) \<longleftrightarrow> \<not> axis_met e xAxis (pt_x p)) \<and>
          (between (to_threshold o1) tx (pt_x p) \<longleftrightarrow> axis_met e xAxis (pt_x p))"
        using side [OF x [unfolded Some] range vx _ orient(1)] p(2) by (simp add: off_lines_def)
      moreover have "(between (to_threshold o2) oy (pt_y p) \<longleftrightarrow> \<not> axis_met e yAxis (pt_y p)) \<and>
          (between (to_threshold o2) ty (pt_y p) \<longleftrightarrow> axis_met e yAxis (pt_y p))"
        using side [OF y [unfolded o2] range2 vy _ orient(2)] p(2) by (simp add: off_lines_def)
      ultimately show ?thesis
        using shapes Some o2 orient
        by (auto simp: getThresholdShapes_def shaded_def layout' threshold_shape_def in_shape_def Let_def)
    qed
  qed
qed

text \<open>An axis with a threshold has a range that shows the threshold and every observed value.\<close>

definition range_shows ::
  "sigopt_experiment \<Rightarrow> chart_observation list \<Rightarrow> chart_axis option \<Rightarrow> jsobj \<Rightarrow> bool" where
  "range_shows e obs axis l \<longleftrightarrow>
     (\<forall>t. axis_threshold e axis = JNum t \<longrightarrow>
        (case axis_range l of
           None \<Rightarrow> False
         | Some (a, b) \<Rightarrow> a \<le> t \<and> t \<le> b \<and>
             (\<forall>ob \<in> set obs. \<forall>getter v. axisValueGetter (the axis) = Inr getter \<longrightarrow> getter ob = JNum v \<longrightarrow>
                a \<le> v \<and> v \<le> b)))"

lemma makeOptions_total: "\<exists>opts. threshold_makeOptions obs axis (axis_threshold e axis) = Inr opts"
proof (cases "chart_number (axis_threshold e axis)")
  case None
  then show ?thesis by (auto simp: threshold_makeOptions_def split: option.split)
next
  case (Some t)
  then obtain a where a: "axis = Some a" "ax_type a = ''optimized-metric'' \<or> ax_type a = ''constrained-metric''"
    by (auto simp: axis_threshold_def split: option.splits if_splits)
  then have "\<exists>getter. axisValueGetter a = Inr getter"
    by (auto simp: axisValueGetter_def makeAxisGetter_def SUPPORTED_AXIS_TYPES_def)
  then show ?thesis using a Some by (auto simp: threshold_makeOptions_def)
qed

lemma range_shows_options:
  assumes e: "chartable e" and opts: "threshold_makeOptions obs axis (axis_threshold e axis) = Inr opts"
  shows "range_shows e obs axis (extend_axis opts l)"
proof (cases opts)
  case None
  then have "chart_number (axis_threshold e axis) = None"
    using threshold_makeOptions_cases [OF e opts] by simp
  then show ?thesis by (auto simp: range_shows_def)
next
  case (Some o1)
  have c: "axis = Some (to_axis o1)" "wf_options o1" "chart_number (axis_threshold e axis) = Some (to_threshold o1)"
    "\<exists>getter. axisValueGetter (to_axis o1) = Inr getter \<and>
      (\<forall>ob \<in> set obs. \<forall>v. chart_number (getter ob) = Some v \<longrightarrow> to_min o1 \<le> v \<and> v \<le> to_max o1)"
    using threshold_makeOptions_cases [OF e opts] Some by auto
  obtain a b where r: "visible_range o1 = (a, b)" by fastforce
  obtain l' r' where lr: "getChartRange (Some (to_min o1)) (Some (to_max o1)) (Some 2) None = (l', r')" by fastforce
  have "a \<le> to_min o1" "to_max o1 \<le> b" using visible_in_outer [OF c(2) r lr] by simp_all
  then show ?thesis
    unfolding range_shows_def Some axis_range_extended r
    using c by (fastforce simp: wf_options_def chart_number_iff)
qed

lemma thresholds_shaded:
  assumes e: "chartable e" and new: "lo_shapes layout = None"
  shows "\<exists>layout'. updateLayoutForThresholds e obs xAxis yAxis layout = Inr layout' \<and>
    range_shows e obs xAxis (lo_xaxis layout') \<and> range_shows e obs yAxis (lo_yaxis layout') \<and>
    (\<forall>p. in_view layout' p \<and> off_lines e xAxis yAxis p \<longrightarrow>
      (shaded layout' p \<longleftrightarrow> \<not> (axis_met e xAxis (pt_x p) \<and> axis_met e yAxis (pt_y p))))"
proof -
  obtain xo where x: "threshold_makeOptions obs xAxis (axis_threshold e xAxis) = Inr xo"
    using makeOptions_total by blast
  obtain yo where y: "threshold_makeOptions obs yAxis (axis_threshold e yAxis) = Inr yo"
    using makeOptions_total by blast
  have "\<exists>shapes. getThresholdShapes e xo yo = Inr shapes"
  proof (rule shapes_of_options [OF e])
    show "chart_number (axis_threshold e (Some (to_axis o1))) = Some (to_threshold o1)" if "xo = Some o1" for o1
      using threshold_makeOptions_cases [OF e x] that by auto
    show "chart_number (axis_threshold e (Some (to_axis o1))) = Some (to_threshold o1)" if "yo = Some o1" for o1
      using threshold_makeOptions_cases [OF e y] that by auto
  qed
  then obtain shapes where shapes: "getThresholdShapes e xo yo = Inr shapes" by blast
  let ?l = "\<lparr>lo_shapes = Some shapes, lo_xaxis = extend_axis xo (lo_xaxis layout),
    lo_yaxis = extend_axis yo (lo_yaxis layout)\<rparr>"
  have run: "updateLayoutForThresholds e obs xAxis yAxis layout = Inr ?l"
    by (simp add: updateLayoutForThresholds_def x y shapes new)
  have "shaded ?l p \<longleftrightarrow> \<not> (axis_met e xAxis (pt_x p) \<and> axis_met e yAxis (pt_y p))"
    if "in_view ?l p" "off_lines e xAxis yAxis p" for p
    by (rule shaded_iff [OF e that x y shapes]) simp_all
  then show ?thesis
    using run range_shows_options [OF e x] range_shows_options [OF e y] by (intro exI [of _ ?l]) simp
qed

text \<open>C30: the chart of an experiment shows every observed value and the thresholds of its axes, and a visible
  point that is on none of the lines is shaded exactly if it misses a threshold, whatever the
  objectives of the metrics are.\<close>

theorem thresholds_are_shaded:
  assumes "chartable e" "lo_shapes layout = None"
  shows "\<exists>layout'. updateLayoutForThresholds e obs xAxis yAxis layout = Inr layout' \<and>
    range_shows e obs xAxis (lo_xaxis layout') \<and> range_shows e obs yAxis (lo_yaxis layout') \<and>
    (\<forall>p. in_view layout' p \<and> off_lines e xAxis yAxis p \<longrightarrow>
      (shaded layout' p \<longleftrightarrow> \<not> (axis_met e xAxis (pt_x p) \<and> axis_met e yAxis (pt_y p))))"
  using assms by (rule thresholds_shaded)

definition threshold_experiment :: sigopt_experiment where
  "threshold_experiment =
     \<lparr>ex_id = JStr ''1'', ex_object = JStr ''experiment'', ex_runs_only = JBool False, ex_parameters = [],
      ex_conditionals = [],
      ex_metrics =
        [\<lparr>mt_name = JStr ''loss'', mt_objective = ''minimize'', mt_strategy = ''optimize'', mt_threshold = JNum 2\<rparr>,
         \<lparr>mt_name = JStr ''speed'', mt_objective = ''maximize'', mt_strategy = ''constraint'', mt_threshold = JNum 5\<rparr>],
      ex_num_solutions = JNull, ex_tasks = None\<rparr>"

definition loss_axis :: chart_axis where
  "loss_axis = \<lparr>ax_key = JStr ''loss'', ax_type = ''optimized-metric''\<rparr>"

definition speed_axis :: chart_axis where
  "speed_axis = \<lparr>ax_key = JStr ''speed'', ax_type = ''constrained-metric''\<rparr>"

definition empty_layout :: chart_layout where
  "empty_layout = \<lparr>lo_shapes = None, lo_xaxis = [], lo_yaxis = []\<rparr>"

lemma thresholds_are_shaded_witness:
  "\<exists>layout'. updateLayoutForThresholds threshold_experiment [] (Some loss_axis) (Some speed_axis) empty_layout =
      Inr layout' \<and>
    range_shows threshold_experiment [] (Some loss_axis) (lo_xaxis layout') \<and>
    range_shows threshold_experiment [] (Some speed_axis) (lo_yaxis layout') \<and>
    (\<forall>p. in_view layout' p \<and> off_lines threshold_experiment (Some loss_axis) (Some speed_axis) p \<longrightarrow>
      (shaded layout' p \<longleftrightarrow> \<not> (axis_met threshold_experiment (Some loss_axis) (pt_x p) \<and>
        axis_met threshold_experiment (Some speed_axis) (pt_y p))))"
proof (rule thresholds_are_shaded)
  show "chartable threshold_experiment" by code_simp
  show "lo_shapes empty_layout = None" by (simp add: empty_layout_def)
qed

text \<open>
  The chart of the improvement passes an axis without a key: no metric is found for it, and its threshold is
  never drawn. A metric without a name is shown as Metric, and chosen by that name it has no threshold either.
\<close>

lemma improvement_has_no_threshold:
  assumes "list_all (\<lambda>m. mt_name m \<noteq> JUndef) (ex_metrics e)"
  shows "axis_threshold e (Some \<lparr>ax_key = JUndef, ax_type = ''optimized-metric''\<rparr>) = JNull"
proof -
  have "index_of (\<lambda>m. mt_name m = JUndef) ms = None" if "list_all (\<lambda>m. mt_name m \<noteq> JUndef) ms" for ms
    using that by (induction ms) auto
  then have "findMetric e JUndef = None" using assms by (simp add: findMetric_def)
  then show ?thesis by (simp add: axis_threshold_def getThreshold_def)
qed

lemma unnamed_metric_has_no_threshold:
  assumes "list_all (\<lambda>m. mt_name m \<noteq> JStr ''Metric'') (ex_metrics e)"
  shows "axis_threshold e (Some \<lparr>ax_key = JStr ''Metric'', ax_type = ''optimized-metric''\<rparr>) = JNull"
proof -
  have "index_of (\<lambda>m. mt_name m = JStr ''Metric'') ms = None"
    if "list_all (\<lambda>m. mt_name m \<noteq> JStr ''Metric'') ms" for ms
    using that by (induction ms) auto
  then have "findMetric e (JStr ''Metric'') = None" using assms by (simp add: findMetric_def)
  then show ?thesis by (simp add: axis_threshold_def getThreshold_def)
qed

subsection \<open>The best value so far: chart/best_seen_trace.js\<close>

text \<open>
  \<open>max\<close> and \<open>min\<close> with a key give the first of the best elements. The values of the points that are not
  rejected are numbers.
\<close>

fun best_by :: "('k \<Rightarrow> 'k \<Rightarrow> bool) \<Rightarrow> ('a \<Rightarrow> 'k) \<Rightarrow> 'a list \<Rightarrow> 'a option" where
  "best_by better key [] = None"
| "best_by better key (x # xs) = Some (fold (\<lambda>y best. if better (key y) (key best) then y else best) xs x)"

datatype aggregate = Maximum | Minimum

definition aggregate_points :: "aggregate \<Rightarrow> ('d \<times> rat) list \<Rightarrow> ('d \<times> rat) option" where
  "aggregate_points agg = best_by (case agg of Maximum \<Rightarrow> (>) | Minimum \<Rightarrow> (<)) snd"

definition trace_step ::
  "aggregate \<Rightarrow> ('d \<times> rat) option list \<Rightarrow> ('d \<times> rat) option \<Rightarrow> ('d \<times> rat) option list" where
  "trace_step agg bestTrace nextPoint =
     (let lastBest = (if bestTrace = [] then None else last bestTrace);
          acceptablePoints = List.map_filter id [lastBest, nextPoint]
      in bestTrace @ [aggregate_points agg acceptablePoints])"

definition makeBestSeenTrace ::
  "'d list \<Rightarrow> aggregate \<Rightarrow> ('d \<Rightarrow> rat) \<Rightarrow> ('d \<Rightarrow> bool) \<Rightarrow> ('d \<times> rat) option list" where
  "makeBestSeenTrace data agg getValue reject =
     foldl (trace_step agg) [] (map (\<lambda>d. if reject d then None else Some (d, getValue d)) data)"

text \<open>What the trace is meant to be: at each position the best of the points so far that count.\<close>

definition best_so_far :: "aggregate \<Rightarrow> ('d \<Rightarrow> rat) \<Rightarrow> ('d \<Rightarrow> bool) \<Rightarrow> 'd list \<Rightarrow> ('d \<times> rat) option" where
  "best_so_far agg getValue reject ds =
     aggregate_points agg (map (\<lambda>d. (d, getValue d)) (filter (\<lambda>d. \<not> reject d) ds))"

lemma best_by_append:
  "best_by better key (xs @ [y]) =
     (case best_by better key xs of None \<Rightarrow> Some y | Some b \<Rightarrow> Some (if better (key y) (key b) then y else b))"
  by (cases xs) simp_all

lemma aggregate_step:
  "aggregate_points agg (List.map_filter id [aggregate_points agg ps, next]) =
     aggregate_points agg (ps @ (case next of None \<Rightarrow> [] | Some p \<Rightarrow> [p]))"
proof (cases "next")
  case None
  then show ?thesis
    by (cases "best_by (case agg of Maximum \<Rightarrow> (>) | Minimum \<Rightarrow> (<)) snd ps")
      (simp_all add: aggregate_points_def List.map_filter_simps)
next
  case (Some p)
  then show ?thesis
    by (cases "best_by (case agg of Maximum \<Rightarrow> (>) | Minimum \<Rightarrow> (<)) snd ps")
      (simp_all add: aggregate_points_def List.map_filter_simps best_by_append)
qed

lemma trace_prefixes:
  "makeBestSeenTrace data agg getValue reject =
     map (\<lambda>i. best_so_far agg getValue reject (take (Suc i) data)) [0..<length data]"
proof (induction data rule: rev_induct)
  case Nil
  then show ?case by (simp add: makeBestSeenTrace_def)
next
  case (snoc d ds)
  let ?best = "best_so_far agg getValue reject"
  have last: "(if map (\<lambda>i. ?best (take (Suc i) ds)) [0..<length ds] = [] then None
      else last (map (\<lambda>i. ?best (take (Suc i) ds)) [0..<length ds])) = ?best ds"
    by (cases ds rule: rev_cases) (simp_all add: best_so_far_def aggregate_points_def last_map)
  have best: "?best (ds @ [d]) = aggregate_points agg (List.map_filter id
      [?best ds, if reject d then None else Some (d, getValue d)])"
    unfolding best_so_far_def aggregate_step by simp
  have "makeBestSeenTrace (ds @ [d]) agg getValue reject =
      trace_step agg (makeBestSeenTrace ds agg getValue reject) (if reject d then None else Some (d, getValue d))"
    by (simp add: makeBestSeenTrace_def)
  also have "\<dots> = map (\<lambda>i. ?best (take (Suc i) ds)) [0..<length ds] @ [?best (ds @ [d])]"
    unfolding snoc.IH trace_step_def Let_def last best ..
  also have "\<dots> = map (\<lambda>i. ?best (take (Suc i) (ds @ [d]))) [0..<length (ds @ [d])]"
    by (simp add: take_Suc_conv_app_nth nth_append cong: map_cong)
  finally show ?case .
qed

lemma best_by_max:
  "best_by (case agg of Maximum \<Rightarrow> (>) | Minimum \<Rightarrow> (<)) snd ps = Some p \<Longrightarrow>
   p \<in> set ps \<and> (\<forall>q \<in> set ps. case agg of Maximum \<Rightarrow> snd q \<le> snd p | Minimum \<Rightarrow> snd p \<le> (snd q :: rat))"
proof (induction ps arbitrary: p rule: rev_induct)
  case (snoc q ps)
  show ?case
  proof (cases "best_by (case agg of Maximum \<Rightarrow> (>) | Minimum \<Rightarrow> (<)) snd ps")
    case None
    then show ?thesis using snoc.prems by (cases ps; cases agg) (auto simp: best_by_append)
  next
    case (Some b)
    then have "p = (if (case agg of Maximum \<Rightarrow> (>) | Minimum \<Rightarrow> (<)) (snd q) (snd b) then q else b)"
      using snoc.prems by (simp add: best_by_append)
    then show ?thesis using snoc.IH [OF Some] by (cases agg) (auto split: if_splits)
  qed
qed simp

lemma best_by_None [simp]: "best_by better key ps = None \<longleftrightarrow> ps = []"
  by (cases ps) simp_all

text \<open>C31: the trace of the best value has a point for every observation: none until the first that counts,
  and then the best of the observations so far that count, as a reference that looks at every prefix
  finds it.\<close>

theorem best_seen_trace_correct:
  "length (makeBestSeenTrace data agg getValue reject) = length data \<and>
   (\<forall>i < length data.
      case makeBestSeenTrace data agg getValue reject ! i of
        None \<Rightarrow> \<forall>d \<in> set (take (Suc i) data). reject d
      | Some (d, v) \<Rightarrow> d \<in> set (take (Suc i) data) \<and> \<not> reject d \<and> v = getValue d \<and>
          (\<forall>d' \<in> set (take (Suc i) data). \<not> reject d' \<longrightarrow>
             (case agg of Maximum \<Rightarrow> getValue d' \<le> v | Minimum \<Rightarrow> v \<le> getValue d')))"
proof -
  have "case best_so_far agg getValue reject ds of
        None \<Rightarrow> \<forall>d \<in> set ds. reject d
      | Some (d, v) \<Rightarrow> d \<in> set ds \<and> \<not> reject d \<and> v = getValue d \<and>
          (\<forall>d' \<in> set ds. \<not> reject d' \<longrightarrow>
             (case agg of Maximum \<Rightarrow> getValue d' \<le> v | Minimum \<Rightarrow> v \<le> getValue d'))" for ds :: "'a list"
  proof (cases "best_so_far agg getValue reject ds")
    case None
    then show ?thesis by (auto simp: best_so_far_def aggregate_points_def filter_empty_conv)
  next
    case (Some p)
    then show ?thesis
      using best_by_max [of agg "map (\<lambda>d. (d, getValue d)) (filter (\<lambda>d. \<not> reject d) ds)" p]
      by (cases agg) (auto simp: best_so_far_def aggregate_points_def)
  qed
  then show ?thesis by (simp add: trace_prefixes)
qed

definition example_points :: "(string \<times> int) list" where
  "example_points = [(''a'', 3), (''failed'', 9), (''b'', 5), (''c'', 4)]"

lemma best_seen_trace_correct_witness:
  "map (map_option snd) (makeBestSeenTrace example_points Maximum (\<lambda>d. of_int (snd d)) (\<lambda>d. fst d = ''failed'')) =
     [Some 3, Some 3, Some 5, Some 5] \<and>
   length (makeBestSeenTrace example_points Maximum (\<lambda>d. of_int (snd d)) (\<lambda>d. fst d = ''failed'')) = 4"
  using best_seen_trace_correct [of example_points Maximum "\<lambda>d. of_int (snd d)" "\<lambda>d. fst d = ''failed''"]
  by (simp add: example_points_def makeBestSeenTrace_def trace_step_def aggregate_points_def
      List.map_filter_simps)

subsection \<open>Traces of the improvement: react_chart/experiment_improvement, chart/improvement_chart.js\<close>

text \<open>The observations by their ids, which are texts of numbers, or by their time.\<close>

definition id_key :: "jsval \<Rightarrow> rat" where
  "id_key v = (case finite_number v of None \<Rightarrow> 0 | Some n \<Rightarrow> n)"

definition sort_observations :: "chart_observation list \<Rightarrow> bool \<Rightarrow> chart_observation list" where
  "sort_observations observations ascending =
     (case observations of
        [] \<Rightarrow> observations
      | ob # _ \<Rightarrow>
          (let ordered =
             (if truthy (ao_id ob) then sort_key (\<lambda>b. id_key (ao_id b)) observations
              else if truthy (ao_created ob) then sort_key (\<lambda>b. id_key (ao_created b)) observations
              else observations)
           in if ascending then ordered else rev ordered))"

text \<open>The tests of a rejection run until one rejects; the test of the thresholds may raise.\<close>

fun any_ok :: "('a \<Rightarrow> 'e + bool) list \<Rightarrow> 'a \<Rightarrow> 'e + bool" where
  "any_ok [] x = Inr False"
| "any_ok (f # fs) x = (case f x of Inl e \<Rightarrow> Inl e | Inr b \<Rightarrow> if b then Inr True else any_ok fs x)"

definition rejectFailed :: "chart_observation \<Rightarrow> js_error + bool" where
  "rejectFailed ob = Inr (truthy (ob_failed ob))"

definition rejectThreshold :: "sigopt_experiment \<Rightarrow> chart_observation \<Rightarrow> js_error + bool" where
  "rejectThreshold e ob =
     (case observationSatisfiesThresholds e (observation.truncate ob) of
        Inl err \<Rightarrow> Inl err | Inr ok \<Rightarrow> Inr (\<not> ok))"

definition rejectPartialCost :: "chart_observation \<Rightarrow> js_error + bool" where
  "rejectPartialCost ob = Inr (case ao_task ob of None \<Rightarrow> False | Some t \<Rightarrow> tk_cost t \<noteq> 1)"

definition rejectFullCost :: "chart_observation \<Rightarrow> js_error + bool" where
  "rejectFullCost ob = Inr (case ao_task ob of None \<Rightarrow> True | Some t \<Rightarrow> tk_cost t = 1)"

definition trace_rejections ::
  "sigopt_experiment \<Rightarrow> (string \<times> (chart_observation \<Rightarrow> js_error + bool) list) list" where
  "trace_rejections e =
     (''Full Cost'', [rejectFailed, rejectThreshold e, rejectPartialCost])
     # (if ex_tasks e = None then []
        else [(''Partial Cost'', [rejectFailed, rejectThreshold e, rejectFullCost])])"

text \<open>
  \<open>_.max\<close> and \<open>_.min\<close> pass over a point whose value is undefined, while \<open>null\<close> compares as zero: as long as only
  points without a value count, they give their infinity, which has no point and no value.
\<close>

datatype best_point = NoBest | InfiniteBest | BestPoint chart_observation jsval

definition comparable :: "jsval \<Rightarrow> rat option" where
  "comparable v = (if v = JNull then Some 0 else chart_number v)"

definition best_seen_of ::
  "metric \<Rightarrow> chart_observation list \<Rightarrow> (chart_observation \<Rightarrow> js_error + bool) list \<Rightarrow>
   js_error + best_point list" where
  "best_seen_of m ordered rejections =
     (case metricObjectiveOption m [(''minimize'', Minimum), (''maximize'', Maximum)] of
        Inl err \<Rightarrow> Inl err
      | Inr agg \<Rightarrow>
          (case map_ok (any_ok rejections) ordered of
             Inl err \<Rightarrow> Inl err
           | Inr rejected \<Rightarrow>
               (let value_of = (\<lambda>p. metricValueGetter (fst p) (mt_name m));
                    trace = makeBestSeenTrace (zip ordered rejected) agg
                      (\<lambda>p. case comparable (value_of p) of None \<Rightarrow> 0 | Some v \<Rightarrow> v) (\<lambda>p. snd p \<or> comparable (value_of p) = None)
                in Inr (map (\<lambda>(i, best). case best of
                       Some (p, _) \<Rightarrow> BestPoint (fst p) (value_of p)
                     | None \<Rightarrow> if list_all id (take (Suc i) rejected) then NoBest else InfiniteBest)
                     (enumerate 0 trace)))))"

definition getBestSeenTraces ::
  "sigopt_experiment \<Rightarrow> chart_observation list \<Rightarrow> metric \<Rightarrow> js_error + (string \<times> best_point list) list" where
  "getBestSeenTraces e observations m =
     (if observations = [] then Inr []
      else
        (let ordered = sort_observations observations True
         in map_ok (\<lambda>(name, rejections).
            case best_seen_of m ordered rejections of Inl err \<Rightarrow> Inl err | Inr t \<Rightarrow> Inr (name, t))
            (trace_rejections e)))"

text \<open>An observation without a value is no best one, and none that has a value is forgotten for it.\<close>

lemma valueless_point_is_infinite:
  assumes "metricObjectiveOption m [(''minimize'', Minimum), (''maximize'', Maximum)] = Inr agg"
    "metricValueGetter ob (mt_name m) = JUndef"
  shows "best_seen_of m [ob] [] = Inr [InfiniteBest]"
  using assms by (simp add: best_seen_of_def comparable_def makeBestSeenTrace_def trace_step_def
      aggregate_points_def List.map_filter_simps enumerate_eq_zip)

text \<open>The chart of the improvement: a trace has as many trials as points.\<close>

record improvement_trace =
  it_x :: "nat list"
  it_y :: "jsval list"
  it_size :: rat

definition improvement_max_range :: "sigopt_experiment \<Rightarrow> jsval \<Rightarrow> nat list \<Rightarrow> rat" where
  "improvement_max_range e budget lengths =
     Max (set (1 # map of_nat lengths @
       (if ex_tasks e = None then (case chart_number budget of None \<Rightarrow> [] | Some b \<Rightarrow> [b]) else [])))"

definition styled_traces :: "sigopt_experiment \<Rightarrow> best_point list list \<Rightarrow> improvement_trace list" where
  "styled_traces e traces =
     (let sizes = (if ex_tasks e = None then [7] else [9, 6])
      in map (\<lambda>(t, size). \<lparr>it_x = [1..<Suc (length t)], it_y = map (\<lambda>p. case p of BestPoint _ v \<Rightarrow> v | _ \<Rightarrow> JUndef) t, it_size = size\<rparr>)
           (zip traces sizes))"

subsection \<open>The observations of a chart: react_chart/unified_chart_args.js, unified_chart.js\<close>

text \<open>The groups of observations that the charts of an experiment share.\<close>

record unified_args =
  ua_failures :: "chart_observation list"
  ua_notFailures :: "chart_observation list"
  ua_successful :: "chart_observation list"
  ua_unsuccessful :: "chart_observation list"
  ua_best :: "chart_observation list"
  ua_notFailuresLessBest :: "chart_observation list"
  ua_successfulLessBest :: "chart_observation list"
  ua_byTask :: "(string \<times> chart_observation list) list"
  ua_fullCostTask :: "exp_task option"
  ua_successfulLessFullCost :: "chart_observation list"
  ua_metadataKeys :: "string list"
  ua_runs :: "(string \<times> jsval) list"

fun group_by :: "('a \<Rightarrow> 'k) \<Rightarrow> 'a list \<Rightarrow> ('k \<times> 'a list) list" where
  "group_by f [] = []"
| "group_by f (x # xs) =
     (let g = group_by f xs
      in (f x, x # (case map_of g (f x) of None \<Rightarrow> [] | Some ys \<Rightarrow> ys)) # filter (\<lambda>kv. fst kv \<noteq> f x) g)"

definition task_name_of :: "chart_observation \<Rightarrow> js_error + string" where
  "task_name_of ob = (case ao_task ob of None \<Rightarrow> Inl TypeError | Some t \<Rightarrow> Inr (tk_name t))"

definition successful_by_task ::
  "sigopt_experiment \<Rightarrow> chart_observation list \<Rightarrow> js_error + (string \<times> chart_observation list) list" where
  "successful_by_task e successful =
     (if ex_tasks e = None then Inr []
      else case map_ok task_name_of successful of
        Inl err \<Rightarrow> Inl err
      | Inr names \<Rightarrow>
          Inr (map (\<lambda>(n, ps). (n, map snd ps)) (group_by fst (zip names successful))))"

text \<open>Without a task of full cost its name cannot be read, once there is a group to compare.\<close>

definition less_full_cost ::
  "exp_task option \<Rightarrow> (string \<times> chart_observation list) list \<Rightarrow> js_error + chart_observation list" where
  "less_full_cost fullCostTask byTask =
     (case fullCostTask of
        None \<Rightarrow> if byTask = [] then Inr [] else Inl TypeError
      | Some t \<Rightarrow> Inr (concat (map snd (filter (\<lambda>g. fst g \<noteq> tk_name t) byTask))))"

definition getUnifiedChartArgs ::
  "(string \<Rightarrow> string \<Rightarrow> int) \<Rightarrow> sigopt_experiment \<Rightarrow> chart_observation list \<Rightarrow> jsval list \<Rightarrow>
   (jsval \<times> jsval) list \<Rightarrow> js_error + unified_args" where
  "getUnifiedChartArgs natCompare e observations bestIds runs =
     (let failures = filter (\<lambda>ob. truthy (ob_failed ob)) observations;
          notFailures = filter (\<lambda>ob. \<not> truthy (ob_failed ob)) observations
      in case filter_ok (\<lambda>ob. observationSatisfiesThresholds e (observation.truncate ob)) notFailures of
           Inl err \<Rightarrow> Inl err
         | Inr successful \<Rightarrow>
             (case filter_ok (rejectThreshold e) notFailures of
                Inl err \<Rightarrow> Inl err
              | Inr unsuccessful \<Rightarrow>
                  (let isBest = (\<lambda>ob. js_text (ao_id ob) \<in> js_text ` set bestIds);
                       fullCostTask = (case ex_tasks e of None \<Rightarrow> None
                         | Some ts \<Rightarrow> List.find (\<lambda>t. tk_cost t = 1) ts)
                   in case successful_by_task e successful of
                        Inl err \<Rightarrow> Inl err
                      | Inr byTask \<Rightarrow>
                          (case less_full_cost fullCostTask byTask of
                             Inl err \<Rightarrow> Inl err
                           | Inr partialCost \<Rightarrow>
                               Inr \<lparr>ua_failures = failures, ua_notFailures = notFailures,
                                    ua_successful = successful, ua_unsuccessful = unsuccessful,
                                    ua_best = filter isBest successful,
                                    ua_notFailuresLessBest = filter (\<lambda>ob. \<not> isBest ob) notFailures,
                                    ua_successfulLessBest = filter (\<lambda>ob. \<not> isBest ob) successful,
                                    ua_byTask = byTask, ua_fullCostTask = fullCostTask,
                                    ua_successfulLessFullCost = partialCost,
                                    ua_metadataKeys = getMetadataKeys natCompare
                                      (map (\<lambda>ob. case ao_metadata ob of None \<Rightarrow> [] | Some md \<Rightarrow> md) observations),
                                    ua_runs = obj_extend []
                                      (map (\<lambda>(ob, run). (js_text ob, run)) (filter (\<lambda>p. truthy (fst p)) runs))\<rparr>))))"

text \<open>
  The five groups a chart draws, in their order, by the boxes that are ticked. No page shows the boxes: they stay
  as the page sets them. The charts of the pages: the best metrics and parameters, the history of a metric and the
  histories of the experiment on the page of the analysis, and the best metrics on the page of the experiment. No
  page hides the observations that miss a threshold.
\<close>

record chart_flags =
  cf_hideUnsatisfied :: bool
  cf_showBest :: bool
  cf_showFullCost :: bool
  cf_showFailures :: bool

datatype chart_place = BestMetrics | BestParameters | MetricHistory | ScatterHistory | FullHistory | OverviewMetrics

definition page_flags :: "chart_place \<Rightarrow> sigopt_experiment \<Rightarrow> chart_flags" where
  "page_flags place e =
     \<lparr>cf_hideUnsatisfied = False,
      cf_showBest = (place \<notin> {ScatterHistory, FullHistory}),
      cf_showFullCost = (place \<in> {MetricHistory, ScatterHistory, FullHistory} \<and> ex_tasks e \<noteq> None),
      cf_showFailures = False\<rparr>"

definition drawn_successful :: "unified_args \<Rightarrow> chart_flags \<Rightarrow> chart_observation list" where
  "drawn_successful a s =
     (if cf_showFullCost s then ua_successfulLessFullCost a
      else if cf_showBest s then ua_successfulLessBest a
      else if cf_hideUnsatisfied s then ua_notFailures a
      else ua_successful a)"

definition drawn_groups :: "unified_args \<Rightarrow> chart_flags \<Rightarrow> chart_observation list jsopt list" where
  "drawn_groups a s =
     [Val (if cf_showFailures s then ua_failures a else []),
      Val (ua_unsuccessful a),
      (case (cf_showFullCost s, ua_fullCostTask a) of
         (True, Some t) \<Rightarrow> (case map_of (ua_byTask a) (tk_name t) of None \<Rightarrow> Undefined | Some os \<Rightarrow> Val os)
       | _ \<Rightarrow> Val []),
      Val (drawn_successful a s),
      Val (if cf_showBest s then ua_best a else [])]"


lemma filter_ok_parts:
  "filter_ok f xs = Inr ys \<Longrightarrow> ys = filter (\<lambda>x. f x = Inr True) xs \<and> (\<forall>x \<in> set xs. \<exists>b. f x = Inr b)"
proof (induction xs arbitrary: ys)
  case (Cons x xs)
  then show ?case by (cases "f x"; cases "filter_ok f xs") (auto split: if_splits)
qed simp

lemma threshold_partition:
  assumes "filter_ok (\<lambda>ob. observationSatisfiesThresholds e (observation.truncate ob)) obs = Inr good"
    "filter_ok (rejectThreshold e) obs = Inr bad"
  shows "mset good + mset bad = mset obs"
proof -
  let ?f = "\<lambda>ob. observationSatisfiesThresholds e (observation.truncate ob)"
  have good: "good = filter (\<lambda>ob. ?f ob = Inr True) obs" "\<forall>ob \<in> set obs. \<exists>b. ?f ob = Inr b"
    using filter_ok_parts [OF assms(1)] by auto
  have "bad = filter (\<lambda>ob. rejectThreshold e ob = Inr True) obs"
    using filter_ok_parts [OF assms(2)] by simp
  also have "\<dots> = filter (\<lambda>ob. ?f ob \<noteq> Inr True) obs"
    using good(2) by (intro filter_cong) (auto simp: rejectThreshold_def split: sum.splits)
  finally show ?thesis by (simp add: good(1))
qed

lemma group_by_distinct: "distinct (map fst (group_by f xs))"
  by (induction xs) (auto simp: Let_def intro: filter_keys_distinct)

lemma groups_without:
  "distinct (map fst gs) \<Longrightarrow>
   mset (concat (map snd (filter (\<lambda>g. fst g \<noteq> k) gs))) +
     mset (case map_of gs k of None \<Rightarrow> [] | Some ys \<Rightarrow> ys) = mset (concat (map snd gs))"
proof (induction gs)
  case (Cons g gs)
  have "filter (\<lambda>g. fst g \<noteq> k) gs = gs" if "fst g = k"
  proof (intro filter_True ballI notI)
    fix h assume "h \<in> set gs" "fst h = k"
    then have "k \<in> fst ` set gs" by (metis image_eqI)
    then show False using Cons.prems that by simp
  qed
  moreover have "map_of gs k = None" if "fst g = k"
    using Cons.prems that by (auto simp: map_of_eq_None_iff)
  ultimately show ?case using Cons by (cases g) (auto simp: ac_simps)
qed simp

lemma group_by_mset: "mset (concat (map snd (group_by f xs))) = mset xs"
proof (induction xs)
  case (Cons x xs)
  then show ?case
    using groups_without [OF group_by_distinct [of f xs], of "f x"] by (simp add: Let_def ac_simps)
qed simp

lemma mset_filter_halves: "mset (filter P xs) + mset (filter (\<lambda>x. \<not> P x) xs) = mset xs"
  by (induction xs) auto

lemma mset_concat_values:
  "mset (concat (map (\<lambda>p. map f (snd p)) gs)) = image_mset f (mset (concat (map snd gs)))"
  by (induction gs) auto

lemma successful_by_task_groups:
  assumes "successful_by_task e obs = Inr gs" "ex_tasks e \<noteq> None"
  shows "distinct (map fst gs) \<and> mset (concat (map snd gs)) = mset obs"
proof -
  obtain names where names: "map_ok task_name_of obs = Inr names"
    and gs: "gs = map (\<lambda>(n, ps). (n, map snd ps)) (group_by fst (zip names obs))"
    using assms by (auto simp: successful_by_task_def split: sum.splits)
  have len: "length names = length obs" using names by (simp add: map_ok_each list_all2_lengthD)
  have "map fst gs = map fst (group_by fst (zip names obs))" by (simp add: gs comp_def case_prod_beta)
  moreover have "mset (concat (map snd gs)) = image_mset snd (mset (concat (map snd (group_by fst (zip names obs)))))"
    unfolding mset_concat_values [symmetric] by (simp add: gs comp_def case_prod_beta)
  moreover have "image_mset snd (mset (zip names obs)) = mset obs" using len by (simp flip: mset_map)
  ultimately show ?thesis using group_by_distinct by (simp add: group_by_mset)
qed

definition drawn :: "chart_observation list jsopt list \<Rightarrow> chart_observation list" where
  "drawn groups = concat (map (\<lambda>g. coalesce_opt g []) groups)"

lemma drawn_sum:
  "mset (drawn (drawn_groups a s)) =
     mset (if cf_showFailures s then ua_failures a else []) + mset (ua_unsuccessful a) +
     mset (case (cf_showFullCost s, ua_fullCostTask a) of
             (True, Some t) \<Rightarrow> (case map_of (ua_byTask a) (tk_name t) of None \<Rightarrow> [] | Some os \<Rightarrow> os) | _ \<Rightarrow> []) +
     mset (drawn_successful a s) + mset (if cf_showBest s then ua_best a else [])"
  by (cases "cf_showFullCost s"; cases "ua_fullCostTask a")
    (auto simp: drawn_def drawn_groups_def ac_simps split: option.split)

text \<open>The successes of an experiment with tasks, drawn by full and by partial cost.\<close>

lemma full_and_partial_cost:
  assumes "successful_by_task e good = Inr gs" "ex_tasks e \<noteq> None" "less_full_cost task gs = Inr partial_cost"
  shows "mset (case task of Some t \<Rightarrow> (case map_of gs (tk_name t) of None \<Rightarrow> [] | Some os \<Rightarrow> os) | None \<Rightarrow> []) +
    mset partial_cost = mset good"
proof -
  have g: "distinct (map fst gs)" "mset (concat (map snd gs)) = mset good"
    using successful_by_task_groups [OF assms(1,2)] by simp_all
  show ?thesis
  proof (cases task)
    case None
    then have "gs = []" "partial_cost = []" using assms(3) by (auto simp: less_full_cost_def split: if_splits)
    then show ?thesis using None g(2) by simp
  next
    case (Some t)
    then have "partial_cost = concat (map snd (filter (\<lambda>g. fst g \<noteq> tk_name t) gs))"
      using assms(3) by (simp add: less_full_cost_def)
    then show ?thesis using Some groups_without [OF g(1), of "tk_name t"] g(2) by (simp add: ac_simps)
  qed
qed

lemma drawn_once:
  assumes args: "getUnifiedChartArgs natCompare e obs bestIds runs = Inr a"
    and s: "\<not> cf_hideUnsatisfied s" "\<not> cf_showFailures s" "cf_showFullCost s \<longrightarrow> ex_tasks e \<noteq> None"
  shows "mset (drawn (drawn_groups a s)) = mset (filter (\<lambda>ob. \<not> truthy (ob_failed ob)) obs) +
    (if cf_showFullCost s \<and> cf_showBest s then mset (ua_best a) else {#})"
proof -
  let ?nf = "filter (\<lambda>ob. \<not> truthy (ob_failed ob)) obs"
  obtain good bad gs where good: "filter_ok (\<lambda>ob. observationSatisfiesThresholds e (observation.truncate ob)) ?nf = Inr good"
    and bad: "filter_ok (rejectThreshold e) ?nf = Inr bad"
    and gs: "successful_by_task e good = Inr gs"
    and a: "ua_unsuccessful a = bad" "ua_successful a = good" "ua_byTask a = gs"
      "mset (ua_best a) + mset (ua_successfulLessBest a) = mset good"
      "less_full_cost (ua_fullCostTask a) gs = Inr (ua_successfulLessFullCost a)"
    using args by (auto simp: getUnifiedChartArgs_def Let_def split: sum.splits)
  have all: "mset bad + mset good = mset ?nf"
    using threshold_partition [OF good bad] by (simp only: add.commute)
  show ?thesis
  proof (cases "cf_showFullCost s")
    case True
    then have cost: "mset (case ua_fullCostTask a of
          Some t \<Rightarrow> (case map_of gs (tk_name t) of None \<Rightarrow> [] | Some os \<Rightarrow> os) | None \<Rightarrow> []) +
        mset (ua_successfulLessFullCost a) = mset good"
      using s(3) by (intro full_and_partial_cost [OF gs _ a(5)]) simp
    have "mset (drawn (drawn_groups a s)) = mset bad + mset good + mset (if cf_showBest s then ua_best a else [])"
      using True s(2) a(1,3)
      by (simp only: drawn_sum cost [symmetric])
        (auto simp: drawn_successful_def ac_simps split: option.split)
    then show ?thesis using True all by simp
  next
    case False
    then have "mset (drawn (drawn_groups a s)) = mset bad + mset good"
      using s(1,2) a(1,2,4) by (simp add: drawn_sum drawn_successful_def ac_simps)
    then show ?thesis using False all by simp
  qed
qed

text \<open>C32: The charts of the pages of an experiment draw every observation that did not fail in exactly one of
  their groups - a miss of a threshold, a success of full or of partial cost, a best one or another success - and
  the failed ones in none. The one exception is the history of a metric for an experiment with tasks: it shows
  the best observations beside all of full and partial cost, so these are drawn twice.\<close>

theorem observations_drawn_once:
  assumes "getUnifiedChartArgs natCompare e obs bestIds runs = Inr a"
  shows "mset (drawn (drawn_groups a (page_flags place e))) = mset (filter (\<lambda>ob. \<not> truthy (ob_failed ob)) obs) +
    (if place = MetricHistory \<and> ex_tasks e \<noteq> None then mset (ua_best a) else {#})"
  by (subst drawn_once [OF assms]) (auto simp: page_flags_def)

definition drawn_observation :: "string \<Rightarrow> bool \<Rightarrow> rat \<Rightarrow> chart_observation" where
  "drawn_observation i failed loss =
     \<lparr>ob_assignments = Some [], ob_suggestion = JNull, ob_failed = JBool failed,
      ob_values = [\<lparr>ms_name = JStr ''loss'', ms_value = JNum loss, ms_value_stddev = JNull\<rparr>,
        \<lparr>ms_name = JStr ''speed'', ms_value = JNum 7, ms_value_stddev = JNull\<rparr>],
      ao_id = JStr i, ao_created = JNum 0, ao_metadata = None, ao_task = None,
      co_value = JNull, co_value_stddev = JNull\<rparr>"

definition drawn_observations :: "chart_observation list" where
  "drawn_observations =
     [drawn_observation ''1'' True 0, drawn_observation ''2'' False 1, drawn_observation ''3'' False 9,
      drawn_observation ''4'' False 2]"

lemma observations_drawn_once_witness:
  "\<exists>a. getUnifiedChartArgs (\<lambda>x y. 0) threshold_experiment drawn_observations [JStr ''2''] [] = Inr a \<and>
     mset (drawn (drawn_groups a (page_flags FullHistory threshold_experiment))) = mset (tl drawn_observations)"
proof -
  have "case getUnifiedChartArgs (\<lambda>x y. 0) threshold_experiment drawn_observations [JStr ''2''] [] of
      Inl e \<Rightarrow> False | Inr a \<Rightarrow> True" by code_simp
  then obtain a where a: "getUnifiedChartArgs (\<lambda>x y. 0) threshold_experiment drawn_observations [JStr ''2''] [] = Inr a"
    by (auto split: sum.splits)
  have "mset (drawn (drawn_groups a (page_flags FullHistory threshold_experiment))) = mset (tl drawn_observations)"
    using observations_drawn_once [OF a, of FullHistory] by (simp add: drawn_observations_def drawn_observation_def)
  then show ?thesis using a by blast
qed

end
