(* ===== verification/ChartData.thy ===== *)
theory ChartData
  imports Charts
begin

section \<open>Curves, axes and parallel coordinates: web/js/chart, react_chart\<close>

text \<open>
  The curves of the checkpoints of runs, the choice of the axes of a chart, and the dimensions of a chart of
  parallel coordinates. The values of metrics are numbers.
\<close>

subsection \<open>Axes of runs: chart/training_runs_axis.js\<close>

record chart_checkpoint =
  ck_created :: rat
  ck_metadata :: "jsobj option"
  ck_values :: "(jsval \<times> jsval) list"

record chart_run =
  cr_id :: jsval
  cr_created :: rat
  cr_updated :: rat

record time_scale =
  ts_label :: string
  ts_factor :: rat

definition end_of_run :: "chart_run \<times> chart_checkpoint list \<Rightarrow> rat" where
  "end_of_run rc = Max (set (cr_updated (fst rc) # map ck_created (snd rc)))"

text \<open>Without runs the largest difference is minus infinity, \<open>None\<close>.\<close>

definition maxTimeDelta :: "(chart_run \<times> chart_checkpoint list) list \<Rightarrow> rat option" where
  "maxTimeDelta data =
     (if data = [] then None
      else Some (Max (set (map (\<lambda>rc. end_of_run rc - cr_created (fst rc)) data))))"

definition time_scale_of :: "rat option \<Rightarrow> time_scale" where
  "time_scale_of delta =
     (case delta of
        None \<Rightarrow> \<lparr>ts_label = ''Seconds'', ts_factor = 1\<rparr>
      | Some d \<Rightarrow>
          if d < 90 then \<lparr>ts_label = ''Seconds'', ts_factor = 1\<rparr>
          else if d / 60 < 90 then \<lparr>ts_label = ''Minutes'', ts_factor = 1 / 60\<rparr>
          else \<lparr>ts_label = ''Hours'', ts_factor = 1 / 3600\<rparr>)"

definition time_axis_range :: "(chart_run \<times> chart_checkpoint list) list \<Rightarrow> rat \<times> rat" where
  "time_axis_range data =
     getChartRange (Some 0)
       (map_option (\<lambda>d. d * ts_factor (time_scale_of (maxTimeDelta data))) (maxTimeDelta data)) None None"

datatype run_axis = CheckpointAxis | TimeAxis | MetadataAxis string | MetricAxis jsval

definition getCheckpointValue ::
  "(chart_run \<times> chart_checkpoint list) list \<Rightarrow> run_axis \<Rightarrow> chart_run \<Rightarrow> chart_checkpoint \<Rightarrow> nat \<Rightarrow> jsval" where
  "getCheckpointValue data axis run ck ordinal =
     (case axis of
        CheckpointAxis \<Rightarrow> JNum (of_nat ordinal)
      | TimeAxis \<Rightarrow> JNum ((ck_created ck - cr_created run) * ts_factor (time_scale_of (maxTimeDelta data)))
      | MetadataAxis k \<Rightarrow> obj_get (case ck_metadata ck of None \<Rightarrow> [] | Some md \<Rightarrow> md) k
      | MetricAxis name \<Rightarrow>
          (case List.find (\<lambda>v. fst v = name) (ck_values ck) of None \<Rightarrow> JUndef | Some v \<Rightarrow> snd v))"

text \<open>The time of a checkpoint is in the range of its axis, in less than 90 units unless it is in hours.\<close>

lemma end_of_run_bound: "ck \<in> set cks \<Longrightarrow> ck_created ck \<le> end_of_run (run, cks)"
  by (simp add: end_of_run_def)

lemma checkpoint_time_in_range:
  assumes data: "(run, cks) \<in> set data" "ck \<in> set cks" and order: "cr_created run \<le> ck_created ck"
  shows "case getCheckpointValue data TimeAxis run ck i of
      JNum t \<Rightarrow> fst (time_axis_range data) \<le> t \<and> t \<le> snd (time_axis_range data)
    | _ \<Rightarrow> False"
proof -
  obtain d where d: "maxTimeDelta data = Some d"
    and dmax: "d = Max (set (map (\<lambda>rc. end_of_run rc - cr_created (fst rc)) data))"
    using data(1) unfolding maxTimeDelta_def by (cases data) simp_all
  have "end_of_run (run, cks) - cr_created run \<le> d"
    unfolding dmax using data(1) by (intro Max_ge) (auto intro!: rev_image_eqI)
  then have le: "ck_created ck - cr_created run \<le> d" using end_of_run_bound [OF data(2), of run] by linarith
  define f where "f = ts_factor (time_scale_of (maxTimeDelta data))"
  have f: "0 < f" by (simp add: f_def time_scale_of_def d)
  let ?t = "(ck_created ck - cr_created run) * f"
  have "0 \<le> ?t" "?t \<le> d * f" using order le f by (simp_all add: mult_right_mono)
  then have "fst (time_axis_range data) \<le> ?t \<and> ?t \<le> snd (time_axis_range data)"
    unfolding time_axis_range_def f_def [symmetric]
    by (auto simp: d getChartRange_def computeRange_def Let_def)
  then show ?thesis by (simp add: getCheckpointValue_def f_def)
qed

subsection \<open>Curves of checkpoints: chart/mpm_checkpoints_chart.js\<close>

definition getColorIndex :: "int \<Rightarrow> int" where
  "getColorIndex runId = (runId * 7919) mod 7"

record curve_point =
  cp_x :: jsval
  cp_y :: jsval
  cp_globalIndex :: nat

definition point_defined :: "curve_point \<Rightarrow> bool" where
  "point_defined p = (isDefinedAndNotNull (cp_x p) \<and> isDefinedAndNotNull (cp_y p))"

definition unfilteredCheckpointTrace ::
  "(chart_run \<times> chart_checkpoint list) list \<Rightarrow> jsval \<Rightarrow> chart_run \<Rightarrow> chart_checkpoint list \<Rightarrow> curve_point list" where
  "unfilteredCheckpointTrace data metricName run cks =
     map (\<lambda>(i, ck).
        \<lparr>cp_x = getCheckpointValue data CheckpointAxis run ck (Suc i),
         cp_y = getCheckpointValue data (MetricAxis metricName) run ck (Suc i),
         cp_globalIndex = i\<rparr>) (enumerate 0 cks)"

text \<open>
  Every defined point gets its number among the defined ones. The points that are not defined take the
  number of the point before them, and what is left without one is dropped.
\<close>

fun next_defined :: "('a \<Rightarrow> bool) \<Rightarrow> nat \<Rightarrow> nat option \<Rightarrow> 'a list \<Rightarrow> nat option list" where
  "next_defined P n before [] = []"
| "next_defined P n before (p # ps) =
     (if P p then Some n # next_defined P (Suc n) (Some n) ps
      else before # next_defined P n before ps)"

definition pointNumbers :: "curve_point list \<Rightarrow> nat list" where
  "pointNumbers ps = List.map_filter id (next_defined point_defined 0 None ps)"

record checkpoint_curve =
  cu_axisNumber :: nat
  cu_trace :: "curve_point list"
  cu_pointNumbers :: "nat list"
  cu_runId :: jsval

definition checkpoint_curve_of ::
  "(chart_run \<times> chart_checkpoint list) list \<Rightarrow> nat \<Rightarrow> jsval \<Rightarrow> chart_run \<times> chart_checkpoint list \<Rightarrow>
   checkpoint_curve option" where
  "checkpoint_curve_of data axisNumber metricName rc =
     (let ps = unfilteredCheckpointTrace data metricName (fst rc) (snd rc)
      in if filter point_defined ps = [] then None
         else Some \<lparr>cu_axisNumber = axisNumber, cu_trace = filter point_defined ps,
                    cu_pointNumbers = pointNumbers ps, cu_runId = cr_id (fst rc)\<rparr>)"

definition getChartData ::
  "(chart_run \<times> chart_checkpoint list) list \<Rightarrow> jsval list \<Rightarrow> checkpoint_curve list" where
  "getChartData data metricNames =
     concat (map (\<lambda>(axisNumber, metricName).
       List.map_filter (checkpoint_curve_of data axisNumber metricName) (filter (\<lambda>rc. snd rc \<noteq> []) data))
       (enumerate 0 metricNames))"

text \<open>The point of each curve of a run that is shown as hovered for a checkpoint, or for none.\<close>

definition hovered_point :: "checkpoint_curve \<Rightarrow> nat option \<Rightarrow> nat option" where
  "hovered_point c selectedIndex =
     (case selectedIndex of
        Some i \<Rightarrow> if i < length (cu_pointNumbers c) then Some (cu_pointNumbers c ! i) else None
      | None \<Rightarrow> if cu_pointNumbers c = [] then None else Some (last (cu_pointNumbers c)))"

lemma next_defined_counts:
  "next_defined P n before ps =
     map (\<lambda>i. if filter P (take (Suc i) ps) = [] then before
              else Some (n + length (filter P (take (Suc i) ps)) - 1)) [0..<length ps]"
proof (induction ps arbitrary: n before)
  case (Cons p ps)
  have upt: "[0..<length (p # ps)] = 0 # map Suc [0..<length ps]"
    by (simp add: map_Suc_upt upt_conv_Cons del: upt_Suc)
  show ?case unfolding upt by (simp add: Cons.IH)
qed simp

lemma map_filter_id_map_Some: "List.map_filter id (map Some xs) = xs"
  by (induction xs) (simp_all add: List.map_filter_simps)

lemma map_filter_append: "List.map_filter f (xs @ ys) = List.map_filter f xs @ List.map_filter f ys"
  by (simp add: List.map_filter_def)

lemma map_filter_none: "(\<forall>x \<in> set xs. f x = None) \<Longrightarrow> List.map_filter f xs = []"
  by (simp add: List.map_filter_def filter_empty_conv)

text \<open>The number of checkpoints of a run before the first that has the metric.\<close>

definition undefined_start :: "curve_point list \<Rightarrow> nat" where
  "undefined_start ps = length (takeWhile (\<lambda>p. \<not> point_defined p) ps)"

lemma filter_take_empty_iff:
  "filter P (take n ps) = [] \<longleftrightarrow> n \<le> length (takeWhile (\<lambda>p. \<not> P p) ps) \<or> length ps \<le> length (takeWhile (\<lambda>p. \<not> P p) ps)"
proof (induction ps arbitrary: n)
  case (Cons p ps)
  then show ?case by (cases n) auto
qed simp

lemma pointNumbers_from:
  "pointNumbers ps = map (\<lambda>i. length (filter point_defined (take (Suc i) ps)) - 1) [undefined_start ps..<length ps]"
proof -
  let ?m = "undefined_start ps"
  let ?f = "\<lambda>i. if filter point_defined (take (Suc i) ps) = [] then None
    else Some (0 + length (filter point_defined (take (Suc i) ps)) - 1)"
  have m: "?m \<le> length ps" by (simp add: undefined_start_def length_takeWhile_le)
  have split: "[0..<length ps] = [0..<?m] @ [?m..<length ps]" using upt_add_eq_append [of 0 ?m "length ps - ?m"] m by simp
  have "\<forall>x \<in> set (map ?f [0..<?m]). id x = None"
    by (auto simp: filter_take_empty_iff undefined_start_def)
  moreover have "map ?f [?m..<length ps] =
      map Some (map (\<lambda>i. length (filter point_defined (take (Suc i) ps)) - 1) [?m..<length ps])"
    by (auto simp: filter_take_empty_iff undefined_start_def)
  ultimately show ?thesis
    unfolding pointNumbers_def next_defined_counts split map_append map_filter_append
    by (simp only: map_filter_none map_filter_id_map_Some append_Nil)
qed

lemma filter_last_nth:
  assumes "filter P xs \<noteq> []"
  shows "filter P (xs @ ys) ! (length (filter P xs) - 1) = last (filter P xs)"
  using assms by (simp add: nth_append last_conv_nth)

text \<open>The point that is hovered for a checkpoint: the last one with the metric up to a later checkpoint, later
  by the number of checkpoints at the start that miss it.\<close>

lemma hovered_point_shifted:
  assumes c: "checkpoint_curve_of data k name rc = Some c" and i: "i < length (snd rc)"
  defines "ps \<equiv> unfilteredCheckpointTrace data name (fst rc) (snd rc)"
  shows "hovered_point c (Some i) =
      (if i + undefined_start ps < length ps
       then Some (length (filter point_defined (take (Suc (i + undefined_start ps)) ps)) - 1) else None)"
    and "i + undefined_start ps < length ps \<Longrightarrow>
      cu_trace c ! the (hovered_point c (Some i)) =
        last (filter point_defined (take (Suc (i + undefined_start ps)) ps))"
proof -
  let ?m = "undefined_start ps"
  have curve: "cu_pointNumbers c = pointNumbers ps" "cu_trace c = filter point_defined ps"
    using c by (auto simp: checkpoint_curve_of_def Let_def ps_def split: if_splits)
  show hov: "hovered_point c (Some i) = (if i + ?m < length ps
       then Some (length (filter point_defined (take (Suc (i + ?m)) ps)) - 1) else None)"
    unfolding hovered_point_def curve(1) pointNumbers_from
    by (auto simp: less_diff_conv ac_simps)
  assume less: "i + ?m < length ps"
  have "filter point_defined (take (Suc (i + ?m)) ps) \<noteq> []"
    using less by (auto simp: filter_take_empty_iff undefined_start_def)
  from filter_last_nth [OF this, of "drop (Suc (i + ?m)) ps"]
  show "cu_trace c ! the (hovered_point c (Some i)) = last (filter point_defined (take (Suc (i + ?m)) ps))"
    using less by (simp add: hov curve(2))
qed

text \<open>hovering a checkpoint of a run shows on the curve of every metric the last point up to that
  checkpoint, when the first checkpoint of the run has the metric.\<close>

theorem hover_shows_checkpoint:
  assumes "checkpoint_curve_of data k name rc = Some c" "i < length (snd rc)"
    and "point_defined (unfilteredCheckpointTrace data name (fst rc) (snd rc) ! 0)"
  shows "\<exists>n. hovered_point c (Some i) = Some n \<and>
    cu_trace c ! n =
      last (filter point_defined (take (Suc i) (unfilteredCheckpointTrace data name (fst rc) (snd rc))))"
proof -
  let ?ps = "unfilteredCheckpointTrace data name (fst rc) (snd rc)"
  have len: "length ?ps = length (snd rc)" by (simp add: unfilteredCheckpointTrace_def)
  then have "undefined_start ?ps = 0"
    using assms(2,3) by (cases ?ps) (auto simp: undefined_start_def)
  then show ?thesis
    using hovered_point_shifted [OF assms(1,2)] assms(2) len by auto
qed

definition hover_run :: chart_run where
  "hover_run = \<lparr>cr_id = JStr ''1'', cr_created = 0, cr_updated = 9\<rparr>"

definition hover_checkpoint :: "(string \<times> rat) list \<Rightarrow> chart_checkpoint" where
  "hover_checkpoint vs =
     \<lparr>ck_created = 1, ck_metadata = None, ck_values = map (\<lambda>(n, v). (JStr n, JNum v)) vs\<rparr>"

definition hover_checkpoints :: "chart_checkpoint list" where
  "hover_checkpoints =
     map hover_checkpoint [[(''loss'', 5)], [(''loss'', 4), (''acc'', 1)], [(''acc'', 2)], [(''loss'', 3)]]"

lemma hover_shows_checkpoint_witness:
  "\<exists>c n. checkpoint_curve_of [] 0 (JStr ''loss'') (hover_run, hover_checkpoints) = Some c \<and>
     hovered_point c (Some 2) = Some n \<and> cp_y (cu_trace c ! n) = JNum 4"
proof -
  let ?ps = "unfilteredCheckpointTrace [] (JStr ''loss'') hover_run hover_checkpoints"
  have eval: "map cp_y ?ps = [JNum 5, JNum 4, JUndef, JNum 3]" "map point_defined ?ps = [True, True, False, True]"
    "cp_y (last (filter point_defined (take 3 ?ps))) = JNum 4"
    by code_simp+
  then have first: "point_defined (?ps ! 0)" by (cases ?ps) auto
  have "filter point_defined ?ps \<noteq> []" using first eval(1) by (cases ?ps) auto
  then obtain c where c: "checkpoint_curve_of [] 0 (JStr ''loss'') (hover_run, hover_checkpoints) = Some c"
    by (simp add: checkpoint_curve_of_def Let_def)
  have "2 < length (snd (hover_run, hover_checkpoints))" by (simp add: hover_checkpoints_def)
  from hover_shows_checkpoint [OF c this] first eval(3) c show ?thesis
    by (auto simp: numeral_3_eq_3)
qed

text \<open>
  A metric that the first checkpoint misses: hovering the second checkpoint of four shows the third on its
  curve, and the last one is not shown at all.
\<close>

lemma hover_shows_later_checkpoint:
  "case checkpoint_curve_of [] 1 (JStr ''acc'') (hover_run, hover_checkpoints) of
     None \<Rightarrow> False
   | Some c \<Rightarrow> map_option (\<lambda>n. cp_globalIndex (cu_trace c ! n)) (hovered_point c (Some 1)) = Some 2 \<and>
       hovered_point c (Some 3) = None"
  by code_simp

subsection \<open>The axes of a chart: react_chart/unified_chart.js\<close>

record axis_option =
  ao_key :: jsval
  ao_label :: jsval
  ao_type :: string

record chart_type =
  ct_axesCount :: nat
  ct_key :: string
  ct_label :: string

definition ChartTypes :: "chart_type list" where
  "ChartTypes =
     [\<lparr>ct_axesCount = 2, ct_key = ''0'', ct_label = ''2D''\<rparr>,
      \<lparr>ct_axesCount = 3, ct_key = ''1'', ct_label = ''3D''\<rparr>,
      \<lparr>ct_axesCount = 3, ct_key = ''2'', ct_label = ''3D with highlight''\<rparr>]"

definition AxisOrder_DEFAULT :: "string list" where
  "AxisOrder_DEFAULT =
     [''parameter'', ''optimized-metric'', ''constrained-metric'', ''stored-metric'', ''conditional'', ''metadata'']"

definition AxisOrder_METRICS_FIRST :: "string list" where
  "AxisOrder_METRICS_FIRST =
     [''optimized-metric'', ''constrained-metric'', ''stored-metric'', ''parameter'', ''conditional'', ''metadata'']"

record unified_props =
  up_axisOptions :: "string list option"
  up_xAxisOptions :: "string list option"
  up_yAxisOptions :: "string list option"
  up_zAxisOptions :: "string list option"
  up_xAxisDefault :: "axis_option option"
  up_yAxisDefault :: "axis_option option"
  up_chartType :: "chart_type option"
  up_chartTypeOptions :: "chart_type list option"
  up_highlightAxisOptions :: "string list option"
  up_hideBestAssignments :: bool
  up_hideFullCostObservations :: bool
  up_hideFailures :: bool

record unified_state =
  us_xAxis :: "axis_option option"
  us_yAxis :: "axis_option option"
  us_zAxis :: "axis_option option"
  us_highlightAxis :: "axis_option option"
  us_xScale :: string
  us_yScale :: string
  us_zScale :: string
  us_chartType :: "chart_type option"
  us_chartTypeOptions :: "chart_type list"
  us_xOptions :: "string list"
  us_yOptions :: "string list"
  us_zOptions :: "string list"
  us_highlightOptions :: "string list"
  us_showBestAssignments :: bool
  us_showFullCostObservations :: bool
  us_showFailures :: bool

definition createExpAxisOpt :: "(string \<Rightarrow> string) \<Rightarrow> jsval list \<Rightarrow> string \<Rightarrow> axis_option list" where
  "createExpAxisOpt upperFirst names axisType =
     map (\<lambda>name. \<lparr>ao_key = name, ao_label = (if truthy name then name else JStr (upperFirst axisType)),
                   ao_type = axisType\<rparr>) names"

definition axis_names ::
  "(jsval \<Rightarrow> jsval \<Rightarrow> int) \<Rightarrow> sigopt_experiment \<Rightarrow> string list \<Rightarrow> string \<Rightarrow> jsval list option" where
  "axis_names natCompare e metadataKeys axisType =
     (if axisType = ''parameter'' then Some (js_sort natCompare (map (\<lambda>p. JStr (pm_name p)) (ex_parameters e)))
      else if axisType = ''metadata'' then Some (map JStr metadataKeys)
      else if axisType = ''optimized-metric'' then Some (js_sort natCompare (map mt_name (optimizedMetrics e)))
      else if axisType = ''constrained-metric'' then Some (js_sort natCompare (map mt_name (constrainedMetrics e)))
      else if axisType = ''stored-metric'' then Some (js_sort natCompare (map mt_name (storedMetrics e)))
      else None)"

definition unified_options ::
  "(string \<Rightarrow> string) \<Rightarrow> (jsval \<Rightarrow> jsval \<Rightarrow> int) \<Rightarrow> sigopt_experiment \<Rightarrow> string list \<Rightarrow> string list \<Rightarrow> axis_option list" where
  "unified_options upperFirst natCompare e metadataKeys types =
     concat (map (\<lambda>t. case axis_names natCompare e metadataKeys t of
         None \<Rightarrow> [] | Some names \<Rightarrow> createExpAxisOpt upperFirst names t) types)"

text \<open>An axis without a default takes the first option of the first of its types that has one, and uses it up.\<close>

definition bestOpt :: "axis_option list \<Rightarrow> string list \<Rightarrow> axis_option option" where
  "bestOpt optionList types =
     (case List.map_filter (\<lambda>t. List.find (\<lambda>opt. ao_type opt = t) optionList) types of
        [] \<Rightarrow> None | opt # _ \<Rightarrow> Some opt)"

definition choose_axis ::
  "axis_option option \<Rightarrow> string list \<Rightarrow> axis_option list \<Rightarrow> axis_option option \<times> axis_option list" where
  "choose_axis given types optionList =
     (case given of
        Some a \<Rightarrow> (given, optionList)
      | None \<Rightarrow>
          (case bestOpt optionList types of
             None \<Rightarrow> (None, optionList)
           | Some opt \<Rightarrow> (Some opt, remove1 opt optionList)))"

definition option_or :: "'a option \<Rightarrow> 'a \<Rightarrow> 'a" where
  "option_or x d = (case x of None \<Rightarrow> d | Some v \<Rightarrow> v)"

definition unified_init ::
  "(string \<Rightarrow> string) \<Rightarrow> (jsval \<Rightarrow> jsval \<Rightarrow> int) \<Rightarrow> sigopt_experiment \<Rightarrow> string list \<Rightarrow> unified_props \<Rightarrow> unified_state" where
  "unified_init upperFirst natCompare e metadataKeys props =
     (let finalAxisOptions = option_or (up_axisOptions props) AxisOrder_DEFAULT;
          optionList = unified_options upperFirst natCompare e metadataKeys finalAxisOptions;
          fits = (\<lambda>t. ct_axesCount t \<le> length optionList);
          finalChartTypeOptions = filter fits (option_or (up_chartTypeOptions props) ChartTypes);
          xOptions = option_or (up_xAxisOptions props) finalAxisOptions;
          yOptions = option_or (up_yAxisOptions props) finalAxisOptions;
          zOptions = option_or (up_zAxisOptions props) finalAxisOptions;
          (x, l1) = choose_axis (up_xAxisDefault props) xOptions optionList;
          (y, l2) = choose_axis (up_yAxisDefault props) yOptions l1;
          (z, l3) = choose_axis None zOptions l2
      in \<lparr>us_xAxis = x, us_yAxis = y, us_zAxis = z, us_highlightAxis = z,
          us_xScale = ''-'', us_yScale = ''-'', us_zScale = ''-'',
          us_chartType =
            (case up_chartType props of
               Some t \<Rightarrow> if fits t then Some t
                 else (case finalChartTypeOptions of [] \<Rightarrow> None | u # _ \<Rightarrow> Some u)
             | None \<Rightarrow> (case finalChartTypeOptions of [] \<Rightarrow> None | u # _ \<Rightarrow> Some u)),
          us_chartTypeOptions = finalChartTypeOptions,
          us_xOptions = xOptions, us_yOptions = yOptions, us_zOptions = zOptions,
          us_highlightOptions = option_or (up_highlightAxisOptions props) zOptions,
          us_showBestAssignments = (\<not> up_hideBestAssignments props),
          us_showFullCostObservations = (\<not> up_hideFullCostObservations props),
          us_showFailures = (\<not> up_hideFailures props)\<rparr>)"

datatype axis_name = XAxis | YAxis | ZAxis | HighlightAxis

definition onSelectAxis :: "axis_name \<Rightarrow> jsval \<Rightarrow> string \<Rightarrow> unified_state \<Rightarrow> unified_state" where
  "onSelectAxis n key axisType s =
     (let a = Some \<lparr>ao_key = key, ao_label = key, ao_type = axisType\<rparr>
      in case n of
           XAxis \<Rightarrow> s\<lparr>us_xAxis := a, us_xScale := ''-''\<rparr>
         | YAxis \<Rightarrow> s\<lparr>us_yAxis := a, us_yScale := ''-''\<rparr>
         | ZAxis \<Rightarrow> s\<lparr>us_zAxis := a, us_zScale := ''-''\<rparr>
         | HighlightAxis \<Rightarrow> s\<lparr>us_highlightAxis := a\<rparr>)"

definition onSelectScale :: "axis_name \<Rightarrow> bool \<Rightarrow> unified_state \<Rightarrow> unified_state" where
  "onSelectScale n logScaleSelected s =
     (let scale = (if logScaleSelected then ''log'' else ''-'')
      in case n of
           XAxis \<Rightarrow> s\<lparr>us_xScale := scale\<rparr>
         | YAxis \<Rightarrow> s\<lparr>us_yScale := scale\<rparr>
         | ZAxis \<Rightarrow> s\<lparr>us_zScale := scale\<rparr>
         | HighlightAxis \<Rightarrow> s)"

definition axis_options_of :: "axis_name \<Rightarrow> unified_state \<Rightarrow> string list" where
  "axis_options_of n s =
     (case n of XAxis \<Rightarrow> us_xOptions s | YAxis \<Rightarrow> us_yOptions s | ZAxis \<Rightarrow> us_zOptions s
      | HighlightAxis \<Rightarrow> us_highlightOptions s)"

definition shouldShowSelector ::
  "bool \<Rightarrow> axis_name list \<Rightarrow> sigopt_experiment \<Rightarrow> string list \<Rightarrow> unified_state \<Rightarrow> axis_name \<Rightarrow> bool" where
  "shouldShowSelector hideAll hidden e metadataKeys s n =
     (\<not> hideAll \<and> n \<notin> set hidden \<and>
      1 < sum_list (map snd (filter (\<lambda>p. fst p \<in> set (axis_options_of n s))
        [(''parameter'', length (ex_parameters e)), (''optimized-metric'', length (optimizedMetrics e)),
         (''constrained-metric'', length (constrainedMetrics e)), (''stored-metric'', length (storedMetrics e)),
         (''metadata'', length metadataKeys)])))"

definition shown_selectors ::
  "bool \<Rightarrow> axis_name list \<Rightarrow> sigopt_experiment \<Rightarrow> string list \<Rightarrow> unified_state \<Rightarrow> axis_name list" where
  "shown_selectors hideAll hidden e metadataKeys s =
     (let hasZAxis = us_chartType s \<noteq> Some (ChartTypes ! 0);
          hasHighlightAxis = us_chartType s = Some (ChartTypes ! 2)
      in filter (\<lambda>n. (case n of ZAxis \<Rightarrow> hasZAxis | HighlightAxis \<Rightarrow> hasHighlightAxis | _ \<Rightarrow> True) \<and>
                     shouldShowSelector hideAll hidden e metadataKeys s n)
           [XAxis, YAxis, ZAxis, HighlightAxis])"

lemma choose_axis_fresh:
  assumes "choose_axis None types l = (a, l')"
  shows "case a of None \<Rightarrow> l' = l | Some opt \<Rightarrow> ao_type opt \<in> set types \<and> mset l = add_mset opt (mset l')"
proof (cases "bestOpt l types")
  case None
  then show ?thesis using assms by (auto simp: choose_axis_def)
next
  case (Some opt)
  then have "opt \<in> set (List.map_filter (\<lambda>t. List.find (\<lambda>opt. ao_type opt = t) l) types)"
    by (auto simp: bestOpt_def split: list.splits)
  then obtain t where "t \<in> set types" "List.find (\<lambda>opt. ao_type opt = t) l = Some opt"
    by (auto simp: List.map_filter_def)
  then have "opt \<in> set l" "ao_type opt \<in> set types"
    by (auto dest: find_Some_iff')
  moreover have "(a, l') = (Some opt, remove1 opt l)"
    using assms unfolding choose_axis_def Some by simp
  ultimately show ?thesis by auto
qed

lemma distinct_submset: "mset xs \<subseteq># mset ys \<Longrightarrow> distinct ys \<Longrightarrow> distinct xs"
  by (metis mset_subset_eq_exists_conv mset_append ex_mset mset_eq_imp_distinct_iff distinct_append)

text \<open>A chart without defaults starts with axes that are options, no option used twice, and the chart
  type it starts with has at most as many axes as there are options.\<close>

theorem chart_starts_with_different_axes:
  assumes "up_xAxisDefault props = None" "up_yAxisDefault props = None"
  shows "let s = unified_init upperFirst natCompare e metadataKeys props;
           opts = unified_options upperFirst natCompare e metadataKeys
             (option_or (up_axisOptions props) AxisOrder_DEFAULT);
           axes = List.map_filter id [us_xAxis s, us_yAxis s, us_zAxis s]
         in mset axes \<subseteq># mset opts \<and> (distinct opts \<longrightarrow> distinct axes) \<and> us_highlightAxis s = us_zAxis s \<and>
           (\<forall>t. us_chartType s = Some t \<longrightarrow> ct_axesCount t \<le> length opts)"
proof -
  let ?fa = "option_or (up_axisOptions props) AxisOrder_DEFAULT"
  let ?l = "unified_options upperFirst natCompare e metadataKeys ?fa"
  obtain x l1 where x: "choose_axis None (option_or (up_xAxisOptions props) ?fa) ?l = (x, l1)" by fastforce
  obtain y l2 where y: "choose_axis None (option_or (up_yAxisOptions props) ?fa) l1 = (y, l2)" by fastforce
  obtain z l3 where z: "choose_axis None (option_or (up_zAxisOptions props) ?fa) l2 = (z, l3)" by fastforce
  let ?s = "unified_init upperFirst natCompare e metadataKeys props"
  have s: "us_xAxis ?s = x" "us_yAxis ?s = y" "us_zAxis ?s = z" "us_highlightAxis ?s = z"
    by (simp_all add: unified_init_def assms x y z Let_def)
  have "mset (List.map_filter id [x, y, z]) \<subseteq># mset ?l"
    using choose_axis_fresh [OF x] choose_axis_fresh [OF y] choose_axis_fresh [OF z]
    by (cases x; cases y; cases z) (auto simp: List.map_filter_simps)
  moreover have "ct_axesCount t \<le> length ?l" if t: "us_chartType ?s = Some t" for t
  proof -
    have first: "ct_axesCount u \<le> length ?l" if "filter (\<lambda>t. ct_axesCount t \<le> length ?l) ts = u # us" for ts u us
    proof -
      have "u \<in> set (filter (\<lambda>t. ct_axesCount t \<le> length ?l) ts)" using that by simp
      then show ?thesis by simp
    qed
    show ?thesis
      using t by (auto simp: unified_init_def assms x y z Let_def dest!: first split: option.splits list.splits if_splits)
  qed
  ultimately show ?thesis unfolding Let_def s by (meson distinct_submset)
qed

definition plain_props :: unified_props where
  "plain_props =
     \<lparr>up_axisOptions = None, up_xAxisOptions = None, up_yAxisOptions = Some AxisOrder_METRICS_FIRST,
      up_zAxisOptions = None, up_xAxisDefault = None, up_yAxisDefault = None, up_chartType = None,
      up_chartTypeOptions = None, up_highlightAxisOptions = None, up_hideBestAssignments = False,
      up_hideFullCostObservations = False, up_hideFailures = False\<rparr>"

lemma chart_starts_with_different_axes_witness:
  "let s = unified_init id (\<lambda>a b. 0) threshold_experiment [''note''] plain_props;
       opts = unified_options id (\<lambda>a b. 0) threshold_experiment [''note'']
         (option_or (up_axisOptions plain_props) AxisOrder_DEFAULT);
       axes = List.map_filter id [us_xAxis s, us_yAxis s, us_zAxis s]
   in mset axes \<subseteq># mset opts \<and> (distinct opts \<longrightarrow> distinct axes) \<and> us_highlightAxis s = us_zAxis s \<and>
     (\<forall>t. us_chartType s = Some t \<longrightarrow> ct_axesCount t \<le> length opts)"
  by (rule chart_starts_with_different_axes) (simp_all add: plain_props_def)

end
