(* ===== verification/CodeGen.thy ===== *)
theory CodeGen
  imports BulkData Cookies "HOL-Library.Multiset"
begin

section \<open>Code for an experiment: web/js/component/code_generator, pages/docs/codegen.js\<close>

text \<open>
  The two generators that show a user the Python code that creates an experiment: the call of the
  client, with its text in nested components, and the call of the other client, whose text is made of
  lines. What they write is read back by a reader of the part of Python they use. The values are those of
  a JSON document; the text of a number, \<open>num_text\<close>, is a parameter. An object with a number under the key
  \<open>length\<close>, which \<open>map\<close> takes for a list, is left aside.
\<close>

subsection \<open>Literals: JSON.stringify\<close>

abbreviation dquote :: char where "dquote \<equiv> CHR 0x22"
abbreviation backslash :: char where "backslash \<equiv> CHR 0x5C"
abbreviation newline :: char where "newline \<equiv> CHR 0x0A"

definition hex_digit :: "nat \<Rightarrow> char" where
  "hex_digit n = ''0123456789abcdef'' ! n"

definition json_escape :: "char \<Rightarrow> string" where
  "json_escape c =
     (if c = dquote then [backslash, dquote]
      else if c = backslash then [backslash, backslash]
      else if c = CHR 0x08 then [backslash, CHR ''b'']
      else if c = CHR 0x0C then [backslash, CHR ''f'']
      else if c = newline then [backslash, CHR ''n'']
      else if c = CHR 0x0D then [backslash, CHR ''r'']
      else if c = CHR 0x09 then [backslash, CHR ''t'']
      else if of_char c < (32 :: nat)
        then [backslash, CHR ''u'', CHR ''0'', CHR ''0'', hex_digit (of_char c div 16), hex_digit (of_char c mod 16)]
      else [c])"

definition json_string :: "string \<Rightarrow> string" where
  "json_string s = dquote # concat (map json_escape s) @ [dquote]"

definition json_primitive :: "(rat \<Rightarrow> string) \<Rightarrow> jsval \<Rightarrow> string" where
  "json_primitive num_text v =
     (case v of JStr s \<Rightarrow> json_string s | JNum n \<Rightarrow> num_text n | _ \<Rightarrow> js_text v)"

subsection \<open>A reader of Python values\<close>

text \<open>
  What the generated text means: lists, calls of \<open>dict\<close> with keyword arguments, strings, numbers and
  constants. A key is a name that is not reserved and is given once.
\<close>

definition hex_value :: "char \<Rightarrow> nat option" where
  "hex_value c = map_of (zip ''0123456789abcdef'' [0..<16]) c"

definition simple_escapes :: "(char \<times> char) list" where
  "simple_escapes =
     [(dquote, dquote), (backslash, backslash), (CHR ''b'', CHR 0x08), (CHR ''f'', CHR 0x0C),
      (CHR ''n'', newline), (CHR ''r'', CHR 0x0D), (CHR ''t'', CHR 0x09)]"

definition hex_char :: "char \<Rightarrow> char \<Rightarrow> char \<Rightarrow> char \<Rightarrow> char option" where
  "hex_char c1 c2 c3 c4 =
     (case (hex_value c1, hex_value c2, hex_value c3, hex_value c4) of
        (Some 0, Some 0, Some h, Some l) \<Rightarrow> Some (char_of (16 * h + l))
      | _ \<Rightarrow> None)"

fun py_string :: "string \<Rightarrow> (string \<times> string) option" where
  "py_string [] = None"
| "py_string (c # s) =
     (if c = dquote then Some ([], s)
      else if c = newline then None
      else if c \<noteq> backslash then map_option (apfst (Cons c)) (py_string s)
      else (case s of
              [] \<Rightarrow> None
            | d # t \<Rightarrow>
                if d \<noteq> CHR ''u''
                then (case map_of simple_escapes d of
                        None \<Rightarrow> None | Some x \<Rightarrow> map_option (apfst (Cons x)) (py_string t))
                else (case t of
                        c1 # c2 # c3 # c4 # t' \<Rightarrow>
                          (case hex_char c1 c2 c3 c4 of
                             None \<Rightarrow> None | Some x \<Rightarrow> map_option (apfst (Cons x)) (py_string t'))
                      | _ \<Rightarrow> None)))"

definition ws :: "char \<Rightarrow> bool" where
  "ws c = (c = CHR '' '' \<or> c = newline)"

definition num_start :: "char \<Rightarrow> bool" where
  "num_start c = (c \<in> set ''-0123456789'')"

definition num_char :: "char \<Rightarrow> bool" where
  "num_char c = (c \<in> set ''+-.e0123456789'')"

definition word_char :: "char \<Rightarrow> bool" where
  "word_char c =
     (c \<in> set ''_0123456789abcdefghijklmnopqrstuvwxyzABCDEFGHIJKLMNOPQRSTUVWXYZ'')"

definition py_reserved :: "string list" where
  "py_reserved =
     [''False'', ''None'', ''True'', ''and'', ''as'', ''assert'', ''async'', ''await'', ''break'', ''class'',
      ''continue'', ''def'', ''del'', ''elif'', ''else'', ''except'', ''finally'', ''for'', ''from'',
      ''global'', ''if'', ''import'', ''in'', ''is'', ''lambda'', ''nonlocal'', ''not'', ''or'', ''pass'',
      ''raise'', ''return'', ''try'', ''while'', ''with'', ''yield'']"

definition is_key :: "string \<Rightarrow> bool" where
  "is_key k \<longleftrightarrow>
     k \<noteq> [] \<and> list_all word_char k \<and> hd k \<notin> set ''0123456789'' \<and> k \<notin> set py_reserved"

fun py_expr :: "nat \<Rightarrow> string \<Rightarrow> (jsval \<times> string) option"
and py_items :: "nat \<Rightarrow> string \<Rightarrow> (jsval list \<times> string) option"
and py_kwargs :: "nat \<Rightarrow> string \<Rightarrow> (jsobj \<times> string) option" where
  "py_expr 0 s = None"
| "py_expr (Suc n) s =
     (case dropWhile ws s of
        [] \<Rightarrow> None
      | c # r \<Rightarrow>
          if c = dquote then map_option (apfst JStr) (py_string r)
          else if c = CHR ''['' then map_option (apfst JArr) (py_items n r)
          else if num_start c then
            map_option (\<lambda>x. (JNum x, dropWhile num_char (c # r))) (number_of_text (takeWhile num_char (c # r)))
          else
            (let w = takeWhile word_char (c # r); r' = dropWhile word_char (c # r)
             in if w = ''True'' then Some (JBool True, r')
                else if w = ''False'' then Some (JBool False, r')
                else if w = ''None'' then Some (JNull, r')
                else if w = ''dict'' then
                  (case r' of
                     [] \<Rightarrow> None
                   | p # r'' \<Rightarrow> if p = CHR ''('' then map_option (apfst JObj) (py_kwargs n r'') else None)
                else None))"
| "py_items 0 s = None"
| "py_items (Suc n) s =
     (case dropWhile ws s of
        [] \<Rightarrow> None
      | c # r \<Rightarrow>
          if c = CHR '']'' then Some ([], r)
          else (case py_expr n (c # r) of
                  None \<Rightarrow> None
                | Some (v, r1) \<Rightarrow>
                    (case dropWhile ws r1 of
                       [] \<Rightarrow> None
                     | d # r2 \<Rightarrow>
                         if d = CHR '','' then map_option (apfst (Cons v)) (py_items n r2)
                         else if d = CHR '']'' then Some ([v], r2)
                         else None)))"
| "py_kwargs 0 s = None"
| "py_kwargs (Suc n) s =
     (case dropWhile ws s of
        [] \<Rightarrow> None
      | c # r \<Rightarrow>
          if c = CHR '')'' then Some ([], r)
          else
            (let k = takeWhile word_char (c # r)
             in case dropWhile word_char (c # r) of
                  [] \<Rightarrow> None
                | e # r0 \<Rightarrow>
                    if e = CHR ''='' \<and> is_key k then
                      (case py_expr n r0 of
                         None \<Rightarrow> None
                       | Some (v, r1) \<Rightarrow>
                           (case dropWhile ws r1 of
                              [] \<Rightarrow> None
                            | d # r2 \<Rightarrow>
                                if d = CHR '','' then
                                  (case py_kwargs n r2 of
                                     None \<Rightarrow> None
                                   | Some (ps, r3) \<Rightarrow>
                                       if k \<in> fst ` set ps then None else Some ((k, v) # ps, r3))
                                else if d = CHR '')'' then Some ([(k, v)], r2)
                                else None))
                    else None))"

text \<open>A call with keyword arguments, given the text up to the parenthesis that opens them.\<close>

definition py_read_call :: "string \<Rightarrow> string \<Rightarrow> jsobj option" where
  "py_read_call callee s =
     (if take (length callee) s = callee then
        (let r = drop (length callee) s
         in case py_kwargs (2 * length r + 2) r of Some (ps, []) \<Rightarrow> Some ps | _ \<Rightarrow> None)
      else None)"

subsection \<open>What is read of a piece of text\<close>

lemma hex_value_digit: "n < 16 \<Longrightarrow> hex_value (hex_digit n) = Some n"
proof -
  have "\<forall>n \<in> {..<16}. hex_value (hex_digit n) = Some n" by code_simp
  then show "n < 16 \<Longrightarrow> hex_value (hex_digit n) = Some n" by simp
qed

lemma hex_char_escape:
  assumes "of_char c < (32 :: nat)"
  shows "hex_char (CHR ''0'') (CHR ''0'') (hex_digit (of_char c div 16)) (hex_digit (of_char c mod 16)) = Some c"
proof -
  have "hex_value (CHR ''0'') = Some 0" by code_simp
  moreover have "hex_value (hex_digit (of_char c div 16)) = Some (of_char c div 16)"
    using assms by (intro hex_value_digit) simp
  moreover have "hex_value (hex_digit (of_char c mod 16)) = Some (of_char c mod 16)"
    by (intro hex_value_digit) simp
  ultimately show ?thesis by (simp add: hex_char_def)
qed

lemma py_string_escape:
  "py_string (json_escape c @ s) = map_option (apfst (Cons c)) (py_string s)"
proof -
  have e: "map_of simple_escapes dquote = Some dquote" "map_of simple_escapes backslash = Some backslash"
    "map_of simple_escapes (CHR ''b'') = Some (CHR 0x08)" "map_of simple_escapes (CHR ''f'') = Some (CHR 0x0C)"
    "map_of simple_escapes (CHR ''n'') = Some newline" "map_of simple_escapes (CHR ''r'') = Some (CHR 0x0D)"
    "map_of simple_escapes (CHR ''t'') = Some (CHR 0x09)"
    by code_simp+
  show ?thesis
    by (cases "of_char c < (32 :: nat)") (simp_all add: json_escape_def e hex_char_escape)
qed

lemma py_string_json: "py_string (concat (map json_escape s) @ dquote # rest) = Some (s, rest)"
  by (induction s) (simp_all add: py_string_escape)

definition stops :: "string \<Rightarrow> bool" where
  "stops rest = (case rest of [] \<Rightarrow> True | c # _ \<Rightarrow> \<not> num_char c \<and> \<not> word_char c)"

definition reads :: "jsval \<Rightarrow> string \<Rightarrow> bool" where
  "reads v s \<longleftrightarrow>
     (\<exists>m \<le> 2 * length s. \<forall>n rest. m \<le> n \<longrightarrow> stops rest \<longrightarrow> py_expr n (s @ rest) = Some (v, rest))"

definition reads_items :: "jsval list \<Rightarrow> string \<Rightarrow> bool" where
  "reads_items vs s \<longleftrightarrow>
     (\<exists>m \<le> 2 * length s + 2. \<forall>n rest. m \<le> n \<longrightarrow> py_items n (s @ CHR '']'' # rest) = Some (vs, rest))"

definition reads_kwargs :: "jsobj \<Rightarrow> string \<Rightarrow> bool" where
  "reads_kwargs ps s \<longleftrightarrow>
     (\<exists>m \<le> 2 * length s + 2. \<forall>n rest. m \<le> n \<longrightarrow> py_kwargs n (s @ CHR '')'' # rest) = Some (ps, rest))"

lemma stops_simps [simp]:
  "stops []" "stops (CHR '','' # r)" "stops (CHR '']'' # r)" "stops (CHR '')'' # r)" "stops (newline # r)"
  by (simp_all add: stops_def num_char_def word_char_def)

lemma dropWhile_ws [simp]: "list_all ws w \<Longrightarrow> dropWhile ws (w @ s) = dropWhile ws s"
  by (induction w) simp_all

lemma dropWhile_idem: "dropWhile P (dropWhile P s) = dropWhile P s"
  by (induction s) simp_all

lemma py_expr_ws: "py_expr n (dropWhile ws s) = py_expr n s"
  by (cases n) (simp_all add: dropWhile_idem)

lemma py_expr_starts:
  assumes "py_expr n s = Some r"
  shows "\<exists>c t. dropWhile ws s = c # t \<and> c \<noteq> CHR '']''"
proof (cases n)
  case (Suc k)
  show ?thesis
  proof (cases "dropWhile ws s")
    case Nil
    have "py_expr (Suc k) s = None" unfolding py_expr.simps Nil by simp
    then show ?thesis using assms Suc by simp
  next
    case (Cons c t)
    have "py_expr (Suc k) s = None" if "c = CHR '']''"
      unfolding py_expr.simps Cons using that by (simp add: num_start_def word_char_def)
    then show ?thesis using assms Suc Cons by fastforce
  qed
qed (use assms in simp)

lemma readsI: "m \<le> 2 * length s \<Longrightarrow>
    (\<And>n rest. m \<le> n \<Longrightarrow> stops rest \<Longrightarrow> py_expr n (s @ rest) = Some (v, rest)) \<Longrightarrow> reads v s"
  unfolding reads_def by blast

lemma readsE: "reads v s \<Longrightarrow> (\<And>m. m \<le> 2 * length s \<Longrightarrow>
    (\<And>n rest. m \<le> n \<Longrightarrow> stops rest \<Longrightarrow> py_expr n (s @ rest) = Some (v, rest)) \<Longrightarrow> P) \<Longrightarrow> P"
  unfolding reads_def by blast

lemma reads_itemsI: "m \<le> 2 * length s + 2 \<Longrightarrow>
    (\<And>n rest. m \<le> n \<Longrightarrow> py_items n (s @ CHR '']'' # rest) = Some (vs, rest)) \<Longrightarrow> reads_items vs s"
  unfolding reads_items_def by blast

lemma reads_itemsE: "reads_items vs s \<Longrightarrow> (\<And>m. m \<le> 2 * length s + 2 \<Longrightarrow>
    (\<And>n rest. m \<le> n \<Longrightarrow> py_items n (s @ CHR '']'' # rest) = Some (vs, rest)) \<Longrightarrow> P) \<Longrightarrow> P"
  unfolding reads_items_def by blast

lemma reads_kwargsI: "m \<le> 2 * length s + 2 \<Longrightarrow>
    (\<And>n rest. m \<le> n \<Longrightarrow> py_kwargs n (s @ CHR '')'' # rest) = Some (ps, rest)) \<Longrightarrow> reads_kwargs ps s"
  unfolding reads_kwargs_def by blast

lemma reads_kwargsE: "reads_kwargs ps s \<Longrightarrow> (\<And>m. m \<le> 2 * length s + 2 \<Longrightarrow>
    (\<And>n rest. m \<le> n \<Longrightarrow> py_kwargs n (s @ CHR '')'' # rest) = Some (ps, rest)) \<Longrightarrow> P) \<Longrightarrow> P"
  unfolding reads_kwargs_def by blast

lemma reads_ws: "reads v s \<Longrightarrow> list_all ws w \<Longrightarrow> reads v (w @ s)"
proof (erule readsE)
  fix m assume m: "m \<le> 2 * length s" and w: "list_all ws w"
    and r: "\<And>n rest. m \<le> n \<Longrightarrow> stops rest \<Longrightarrow> py_expr n (s @ rest) = Some (v, rest)"
  have "py_expr n (w @ s @ rest) = py_expr n (s @ rest)" for n rest
    using py_expr_ws [of n "w @ s @ rest"] py_expr_ws [of n "s @ rest"] w by simp
  then show "reads v (w @ s)" using m r by (intro readsI [of m]) simp_all
qed

lemma takeWhile_stops:
  assumes "list_all P s" "\<And>c r. rest = c # r \<Longrightarrow> \<not> P c"
  shows "takeWhile P (s @ rest) = s" "dropWhile P (s @ rest) = rest"
proof -
  have "takeWhile P rest = [] \<and> dropWhile P rest = rest" using assms(2) by (cases rest) simp_all
  then show "takeWhile P (s @ rest) = s" "dropWhile P (s @ rest) = rest"
    using assms(1) by (induction s) simp_all
qed

lemma stops_word: "stops rest \<Longrightarrow> rest = c # r \<Longrightarrow> \<not> word_char c"
  by (simp add: stops_def)

lemma stops_num: "stops rest \<Longrightarrow> rest = c # r \<Longrightarrow> \<not> num_char c"
  by (simp add: stops_def)

lemma reads_string: "reads (JStr s) (json_string s)"
proof (rule readsI [of 1])
  fix n :: nat and rest assume "1 \<le> n"
  then obtain k where "n = Suc k" by (cases n) simp_all
  then show "py_expr n (json_string s @ rest) = Some (JStr s, rest)"
    by (simp add: json_string_def ws_def py_string_json)
qed (simp add: json_string_def)

lemma num_start_simps: "num_start c \<Longrightarrow> \<not> ws c \<and> c \<noteq> dquote \<and> c \<noteq> CHR ''[''"
  by (auto simp: num_start_def ws_def)

lemma reads_num:
  assumes "number_of_text s = Some q" "s = c # r" "num_start c" "list_all num_char s"
  shows "reads (JNum q) s"
proof (rule readsI [of 1])
  fix n :: nat and rest assume n: "1 \<le> n" and stops: "stops rest"
  then obtain k where k: "n = Suc k" by (cases n) simp_all
  have "dropWhile ws (s @ rest) = c # (r @ rest)"
    using assms(2) num_start_simps [OF assms(3)] by simp
  moreover have "takeWhile num_char (c # (r @ rest)) = s" "dropWhile num_char (c # (r @ rest)) = rest"
    using takeWhile_stops [OF assms(4) stops_num [OF stops], of rest] assms(2) by simp_all
  ultimately show "py_expr n (s @ rest) = Some (JNum q, rest)"
    unfolding k py_expr.simps using assms(1,3) num_start_simps [OF assms(3)] by (simp del: takeWhile.simps dropWhile.simps)
qed (simp add: assms(2))

lemma word_not_start: "c \<in> {CHR ''T'', CHR ''F'', CHR ''N'', CHR ''d''} \<Longrightarrow>
    \<not> ws c \<and> c \<noteq> dquote \<and> c \<noteq> CHR ''['' \<and> \<not> num_start c"
  by (auto simp: num_start_def ws_def)

lemma reads_word:
  assumes "(w, v) \<in> {(''True'', JBool True), (''False'', JBool False), (''None'', JNull)}"
  shows "reads v w"
proof (rule readsI [of 1])
  fix n :: nat and rest assume n: "1 \<le> n" and stops: "stops rest"
  then obtain k where k: "n = Suc k" by (cases n) simp_all
  obtain c r where w: "w = c # r" and c: "c \<in> {CHR ''T'', CHR ''F'', CHR ''N'', CHR ''d''}"
    using assms by auto
  note c = word_not_start [OF c]
  have "list_all word_char w" using assms by (auto simp: word_char_def)
  then have "takeWhile word_char (c # (r @ rest)) = w" "dropWhile word_char (c # (r @ rest)) = rest"
    using takeWhile_stops [of word_char w rest, OF _ stops_word [OF stops]] w by simp_all
  moreover have "dropWhile ws (w @ rest) = c # (r @ rest)" using w c by simp
  ultimately show "py_expr n (w @ rest) = Some (v, rest)"
    unfolding k py_expr.simps using assms c by (auto simp: Let_def simp del: takeWhile.simps dropWhile.simps)
next
  show "1 \<le> 2 * length w" using assms by auto
qed

lemma reads_list: "reads_items vs s \<Longrightarrow> reads (JArr vs) (CHR ''['' # s @ '']'')"
proof (erule reads_itemsE)
  fix m assume m: "m \<le> 2 * length s + 2"
    and r: "\<And>n rest. m \<le> n \<Longrightarrow> py_items n (s @ CHR '']'' # rest) = Some (vs, rest)"
  show "reads (JArr vs) (CHR ''['' # s @ '']'')"
  proof (rule readsI [of "Suc m"])
    fix n :: nat and rest assume "Suc m \<le> n"
    then obtain k where "n = Suc k" "m \<le> k" by (cases n) simp_all
    then show "py_expr n ((CHR ''['' # s @ '']'') @ rest) = Some (JArr vs, rest)"
      using r [of k rest] by (simp add: ws_def)
  qed (use m in simp)
qed

lemma reads_dict: "reads_kwargs ps s \<Longrightarrow> reads (JObj ps) (''dict('' @ s @ '')'')"
proof (erule reads_kwargsE)
  fix m assume m: "m \<le> 2 * length s + 2"
    and r: "\<And>n rest. m \<le> n \<Longrightarrow> py_kwargs n (s @ CHR '')'' # rest) = Some (ps, rest)"
  have d: "num_start (CHR ''d'') = False" "ws (CHR ''d'') = False" by code_simp+
  have w: "list_all word_char ''dict''" "\<not> word_char (CHR ''('')" by (simp_all add: word_char_def)
  show "reads (JObj ps) (''dict('' @ s @ '')'')"
  proof (rule readsI [of "Suc m"])
    fix n :: nat and rest assume "Suc m \<le> n"
    then obtain k where k: "n = Suc k" "m \<le> k" by (cases n) simp_all
    let ?t = "''ict('' @ s @ CHR '')'' # rest"
    have "takeWhile word_char (CHR ''d'' # ?t) = ''dict''"
      "dropWhile word_char (CHR ''d'' # ?t) = CHR ''('' # s @ CHR '')'' # rest"
      using takeWhile_stops [OF w(1), of "CHR ''('' # s @ CHR '')'' # rest"] w(2) by simp_all
    moreover have "dropWhile ws ((''dict('' @ s @ '')'') @ rest) = CHR ''d'' # ?t" using d by simp
    ultimately show "py_expr n ((''dict('' @ s @ '')'') @ rest) = Some (JObj ps, rest)"
      unfolding k py_expr.simps using r [OF k(2), of rest]
      by (simp add: Let_def d del: takeWhile.simps dropWhile.simps)
  qed (use m in simp)
qed

lemma reads_items_Nil: "list_all ws w \<Longrightarrow> reads_items [] w"
proof (rule reads_itemsI [of 1])
  fix n :: nat and rest assume "list_all ws w" "1 \<le> n"
  then show "py_items n (w @ CHR '']'' # rest) = Some ([], rest)"
    by (cases n) (simp_all add: ws_def)
qed simp

lemma items_step:
  assumes "py_expr k s = Some (v, r1)" "dropWhile ws r1 = d # r" "d = CHR '','' \<or> d = CHR '']''"
  shows "py_items (Suc k) s =
    (if d = CHR '','' then map_option (apfst (Cons v)) (py_items k r) else Some ([v], r))"
proof -
  obtain c t where c: "dropWhile ws s = c # t" "c \<noteq> CHR '']''" using py_expr_starts [OF assms(1)] by blast
  have "py_expr k (c # t) = Some (v, r1)" using py_expr_ws [of k s] assms(1) c(1) by simp
  then show ?thesis
    unfolding py_items.simps c(1) using c(2) assms(2,3) by (auto simp del: dropWhile.simps)
qed

lemma ws_stops: "list_all ws w \<Longrightarrow> w \<noteq> [] \<or> stops r \<Longrightarrow> stops (w @ r)"
  by (cases w) (auto simp: ws_def stops_def num_char_def word_char_def)

lemma closing_not_ws: "\<not> ws (CHR '','')" "\<not> ws (CHR '']'')" "\<not> ws (CHR '')'')"
  by (simp_all add: ws_def)

lemma reads_items_Cons:
  assumes "reads v s" "list_all ws w" "reads_items vs t"
  shows "reads_items (v # vs) (s @ w @ '','' @ t)"
proof -
  obtain m1 where m1: "m1 \<le> 2 * length s"
    "\<And>n rest. m1 \<le> n \<Longrightarrow> stops rest \<Longrightarrow> py_expr n (s @ rest) = Some (v, rest)"
    using assms(1) unfolding reads_def by blast
  obtain m2 where m2: "m2 \<le> 2 * length t + 2"
    "\<And>n rest. m2 \<le> n \<Longrightarrow> py_items n (t @ CHR '']'' # rest) = Some (vs, rest)"
    using assms(3) unfolding reads_items_def by blast
  show ?thesis
  proof (rule reads_itemsI [of "Suc (max m1 m2)"])
    fix n :: nat and rest assume "Suc (max m1 m2) \<le> n"
    then obtain k where k: "n = Suc k" "m1 \<le> k" "m2 \<le> k" by (cases n) simp_all
    let ?r1 = "w @ CHR '','' # t @ CHR '']'' # rest"
    have "py_expr k (s @ ?r1) = Some (v, ?r1)" using m1(2) k(2) ws_stops assms(2) by simp
    moreover have "dropWhile ws ?r1 = CHR '','' # t @ CHR '']'' # rest" using assms(2) closing_not_ws by simp
    ultimately show "py_items n ((s @ w @ '','' @ t) @ CHR '']'' # rest) = Some (v # vs, rest)"
      unfolding k(1) using items_step [of k "s @ ?r1" v ?r1] m2(2) [OF k(3), of rest] by simp
  qed (use m1(1) m2(1) in simp)
qed

lemma reads_items_single:
  assumes "reads v s" "list_all ws w"
  shows "reads_items [v] (s @ w)"
proof -
  obtain m1 where m1: "m1 \<le> 2 * length s"
    "\<And>n rest. m1 \<le> n \<Longrightarrow> stops rest \<Longrightarrow> py_expr n (s @ rest) = Some (v, rest)"
    using assms(1) unfolding reads_def by blast
  show ?thesis
  proof (rule reads_itemsI [of "Suc m1"])
    fix n :: nat and rest assume "Suc m1 \<le> n"
    then obtain k where k: "n = Suc k" "m1 \<le> k" by (cases n) simp_all
    let ?r1 = "w @ CHR '']'' # rest"
    have "py_expr k (s @ ?r1) = Some (v, ?r1)" using m1(2) k(2) ws_stops assms(2) by simp
    moreover have "dropWhile ws ?r1 = CHR '']'' # rest" using assms(2) closing_not_ws by simp
    ultimately show "py_items n ((s @ w) @ CHR '']'' # rest) = Some ([v], rest)"
      unfolding k(1) using items_step [of k "s @ ?r1" v ?r1] by simp
  qed (use m1(1) in simp)
qed

lemma reads_kwargs_Nil: "list_all ws w \<Longrightarrow> reads_kwargs [] w"
proof (rule reads_kwargsI [of 1])
  fix n :: nat and rest assume "list_all ws w" "1 \<le> n"
  then show "py_kwargs n (w @ CHR '')'' # rest) = Some ([], rest)"
    by (cases n) (simp_all add: ws_def)
qed simp

lemma key_starts:
  assumes "is_key k" "list_all ws w"
  obtains c r where "dropWhile ws (w @ k @ t) = c # r" "c # r = k @ t" "c \<noteq> CHR '')''"
proof -
  obtain c r where k: "k = c # r" using assms(1) by (cases k) (auto simp: is_key_def)
  have "word_char c" using assms(1) k by (simp add: is_key_def)
  then have "\<not> ws c" "c \<noteq> CHR '')''" by (auto simp: word_char_def ws_def)
  then show thesis using assms(2) k by (intro that [of c "r @ t"]) simp_all
qed

lemma kwargs_step:
  assumes "is_key key" "list_all ws w" "py_expr k s = Some (v, r1)" "dropWhile ws r1 = d # r"
    "d = CHR '','' \<or> d = CHR '')''"
  shows "py_kwargs (Suc k) (w @ key @ ''='' @ s) =
    (if d = CHR '','' then
       (case py_kwargs k r of
          None \<Rightarrow> None
        | Some (ps, r3) \<Rightarrow> if key \<in> fst ` set ps then None else Some ((key, v) # ps, r3))
     else Some ([(key, v)], r))"
proof -
  obtain c t where c: "dropWhile ws (w @ key @ ''='' @ s) = c # t" "c # t = key @ ''='' @ s" "c \<noteq> CHR '')''"
    using key_starts [OF assms(1,2)] by blast
  have "list_all word_char key" "\<not> word_char (CHR ''='')" using assms(1) by (simp_all add: is_key_def word_char_def)
  then have "takeWhile word_char (c # t) = key" "dropWhile word_char (c # t) = CHR ''='' # s"
    unfolding c(2) using takeWhile_stops [of word_char key "CHR ''='' # s"] by simp_all
  then show ?thesis
    unfolding py_kwargs.simps c(1) using assms c(3)
    by (auto simp: Let_def simp del: takeWhile.simps dropWhile.simps split: option.split)
qed

lemma reads_kwargs_Cons:
  assumes "is_key key" "list_all ws w0" "reads v s" "list_all ws w" "reads_kwargs ps t" "key \<notin> fst ` set ps"
  shows "reads_kwargs ((key, v) # ps) (w0 @ key @ ''='' @ s @ w @ '','' @ t)"
proof -
  obtain m1 where m1: "m1 \<le> 2 * length s"
    "\<And>n rest. m1 \<le> n \<Longrightarrow> stops rest \<Longrightarrow> py_expr n (s @ rest) = Some (v, rest)"
    using assms(3) unfolding reads_def by blast
  obtain m2 where m2: "m2 \<le> 2 * length t + 2"
    "\<And>n rest. m2 \<le> n \<Longrightarrow> py_kwargs n (t @ CHR '')'' # rest) = Some (ps, rest)"
    using assms(5) unfolding reads_kwargs_def by blast
  show ?thesis
  proof (rule reads_kwargsI [of "Suc (max m1 m2)"])
    fix n :: nat and rest assume "Suc (max m1 m2) \<le> n"
    then obtain k where k: "n = Suc k" "m1 \<le> k" "m2 \<le> k" by (cases n) simp_all
    let ?r1 = "w @ CHR '','' # t @ CHR '')'' # rest"
    have "py_expr k (s @ ?r1) = Some (v, ?r1)" using m1(2) k(2) ws_stops assms(4) by simp
    moreover have "dropWhile ws ?r1 = CHR '','' # t @ CHR '')'' # rest" using assms(4) closing_not_ws by simp
    ultimately show "py_kwargs n ((w0 @ key @ ''='' @ s @ w @ '','' @ t) @ CHR '')'' # rest) =
        Some ((key, v) # ps, rest)"
      unfolding k(1) using kwargs_step [OF assms(1,2), of k "s @ ?r1" v ?r1] m2(2) [OF k(3), of rest] assms(6) by simp
  qed (use m1(1) m2(1) in simp)
qed

lemma reads_kwargs_single:
  assumes "is_key key" "list_all ws w0" "reads v s" "list_all ws w"
  shows "reads_kwargs [(key, v)] (w0 @ key @ ''='' @ s @ w)"
proof -
  obtain m1 where m1: "m1 \<le> 2 * length s"
    "\<And>n rest. m1 \<le> n \<Longrightarrow> stops rest \<Longrightarrow> py_expr n (s @ rest) = Some (v, rest)"
    using assms(3) unfolding reads_def by blast
  show ?thesis
  proof (rule reads_kwargsI [of "Suc m1"])
    fix n :: nat and rest assume "Suc m1 \<le> n"
    then obtain k where k: "n = Suc k" "m1 \<le> k" by (cases n) simp_all
    let ?r1 = "w @ CHR '')'' # rest"
    have "py_expr k (s @ ?r1) = Some (v, ?r1)" using m1(2) k(2) ws_stops assms(4) by simp
    moreover have "dropWhile ws ?r1 = CHR '')'' # rest" using assms(4) closing_not_ws by simp
    ultimately show "py_kwargs n ((w0 @ key @ ''='' @ s @ w) @ CHR '')'' # rest) = Some ([(key, v)], rest)"
      unfolding k(1) using kwargs_step [OF assms(1,2), of k "s @ ?r1" v ?r1] by simp
  qed (use m1(1) in simp)
qed

lemma py_read_callI: "reads_kwargs ps s \<Longrightarrow> py_read_call callee (callee @ s @ '')'') = Some ps"
proof (erule reads_kwargsE)
  fix m assume m: "m \<le> 2 * length s + 2"
    and r: "\<And>n rest. m \<le> n \<Longrightarrow> py_kwargs n (s @ CHR '')'' # rest) = Some (ps, rest)"
  have "m \<le> 2 * length (s @ '')'') + 2" using m by simp
  then have "py_kwargs (2 * length (s @ '')'') + 2) (s @ '')'') = Some (ps, [])" by (rule r)
  then show "py_read_call callee (callee @ s @ '')'') = Some ps"
    by (simp add: py_read_call_def Let_def del: py_kwargs.simps)
qed

subsection \<open>Code in lines: pages/docs/codegen.js, pages/experiment/common/api/page.js\<close>

definition TAB :: string where
  "TAB = ''  ''"

definition tab_line :: "string \<Rightarrow> string" where
  "tab_line line = TAB @ line"

text \<open>
  Every group of lines but the last gets a comma at its end. Without a group the last one is \<open>undefined\<close>,
  which becomes a line.
\<close>

definition listify :: "string list list \<Rightarrow> string list" where
  "listify groups =
     (if groups = [] then [js_text JUndef]
      else concat (map (\<lambda>l. butlast l @ [last l @ '','']) (butlast groups)) @ last groups)"

definition pythonifyPrimitive :: "(rat \<Rightarrow> string) \<Rightarrow> jsval \<Rightarrow> string" where
  "pythonifyPrimitive num_text v =
     (let jsonRepr = json_primitive num_text v
      in case map_of [(''true'', ''True''), (''false'', ''False''), (''null'', ''None'')] jsonRepr of
           Some w \<Rightarrow> w | None \<Rightarrow> jsonRepr)"

definition kwarg_lines :: "string \<Rightarrow> string list \<Rightarrow> string list" where
  "kwarg_lines key l = (key @ ''='' @ hd l) # tl l"

fun pythonify :: "(rat \<Rightarrow> string) \<Rightarrow> jsval \<Rightarrow> string list" where
  "pythonify num_text (JArr xs) =
     ''['' # map tab_line (listify (map (\<lambda>v. pythonify num_text v) xs)) @ ['']'']"
| "pythonify num_text (JObj ps) =
     ''dict('' # map tab_line (listify (map (\<lambda>p. kwarg_lines (fst p) (pythonify num_text (snd p))) ps)) @ ['')'']"
| "pythonify num_text v = [pythonifyPrimitive num_text v]"

definition convertToPythonFunctionKwargs :: "(rat \<Rightarrow> string) \<Rightarrow> jsobj \<Rightarrow> string list" where
  "convertToPythonFunctionKwargs num_text ps =
     listify (map (\<lambda>p. kwarg_lines (fst p) (pythonify num_text (snd p))) ps)"

definition convertToPythonFunctionCall :: "(rat \<Rightarrow> string) \<Rightarrow> string \<Rightarrow> jsobj \<Rightarrow> string list" where
  "convertToPythonFunctionCall num_text functionName kwargs =
     (functionName @ ''('') # map tab_line (convertToPythonFunctionKwargs num_text kwargs) @ ['')'']"

definition join_lines :: "string list \<Rightarrow> string" where
  "join_lines ls = (case ls of [] \<Rightarrow> [] | l # ls' \<Rightarrow> l @ concat (map (Cons newline) ls'))"

definition import_lines :: string where
  "import_lines = ''import sigopt'' @ [newline, newline]"

definition CreateExperimentCodePython :: "(rat \<Rightarrow> string) \<Rightarrow> jsobj \<Rightarrow> bool \<Rightarrow> string" where
  "CreateExperimentCodePython num_text content includeImport =
     (if includeImport then import_lines else []) @
     join_lines (convertToPythonFunctionCall num_text ''sigopt.create_experiment'' content)"

definition EXPERIMENT_DENY_LIST :: "string list" where
  "EXPERIMENT_DENY_LIST =
     JSON_OBJECT_DENY_LIST @
     [''client'', ''deleted'', ''metric'', ''progress'', ''state'', ''user'', ''development'', ''enum_index'']"

definition sanitizeExperimentForCreate :: "jsobj \<Rightarrow> jsobj" where
  "sanitizeExperimentForCreate e = filter (\<lambda>p. fst p \<notin> set (EXPERIMENT_DENY_LIST @ [''project''])) e"

text \<open>What can be written: numbers with a plain text, and keys that Python takes as names.\<close>

definition plain_number :: "string \<Rightarrow> rat \<Rightarrow> bool" where
  "plain_number s q \<longleftrightarrow> number_of_text s = Some q \<and> s \<noteq> [] \<and> num_start (hd s) \<and> list_all num_char s"

fun writable :: "(rat \<Rightarrow> string) \<Rightarrow> jsval \<Rightarrow> bool" where
  "writable num_text (JArr xs) = (\<forall>v \<in> set xs. writable num_text v)"
| "writable num_text (JObj ps) =
     (distinct (map fst ps) \<and> (\<forall>p \<in> set ps. is_key (fst p) \<and> writable num_text (snd p)))"
| "writable num_text (JNum n) = plain_number (num_text n) n"
| "writable num_text JUndef = False"
| "writable num_text v = True"

text \<open>The text of lines that are indented by \<open>w\<close>: before each of them, and with the first where it stands.\<close>

definition block :: "string \<Rightarrow> string list \<Rightarrow> string" where
  "block w ls = concat (map (\<lambda>l. newline # w @ l) ls)"

definition lines_text :: "string \<Rightarrow> string list \<Rightarrow> string" where
  "lines_text w ls = hd ls @ block w (tl ls)"

definition line_reads :: "jsval \<Rightarrow> string list \<Rightarrow> bool" where
  "line_reads v ls \<longleftrightarrow> ls \<noteq> [] \<and> (\<forall>w. list_all ws w \<longrightarrow> reads v (lines_text w ls))"

lemma block_simps [simp]:
  "block w [] = []" "block w (l # ls) = newline # w @ l @ block w ls"
  "block w (ls @ ls') = block w ls @ block w ls'" "block w (map tab_line ls) = block (w @ TAB) ls"
  by (simp_all add: block_def tab_line_def comp_def)

lemma block_lines: "ls \<noteq> [] \<Longrightarrow> block w ls = newline # w @ lines_text w ls"
  by (cases ls) (simp_all add: lines_text_def)

lemma block_comma: "ls \<noteq> [] \<Longrightarrow> block w (butlast ls @ [last ls @ '','']) = block w ls @ '',''"
  by (induction ls) auto

lemma listify_simps: "listify [l] = l"
  "ls \<noteq> [] \<Longrightarrow> listify (l # ls) = butlast l @ [last l @ '',''] @ listify ls"
  by (simp_all add: listify_def)

lemma block_listify_Cons:
  "l \<noteq> [] \<Longrightarrow> ls \<noteq> [] \<Longrightarrow> block w (listify (l # ls)) = block w l @ '','' @ block w (listify ls)"
  using block_comma [of l w] by (simp add: listify_simps)

lemma line_reads_block:
  "line_reads v l \<Longrightarrow> list_all ws w \<Longrightarrow> reads v (block w l)"
  using reads_ws [of v "lines_text w l" "newline # w"]
  by (simp add: line_reads_def block_lines) (simp add: ws_def)

lemma reads_items_lines:
  assumes "list_all2 line_reads vs ls" "vs \<noteq> []" "list_all ws w" "list_all ws w'"
  shows "reads_items vs (block w (listify ls) @ w')"
  using assms(1,2)
proof (induction rule: list_all2_induct)
  case (Cons v vs l ls)
  have v: "reads v (block w l)" using Cons(1) assms(3) by (rule line_reads_block)
  show ?case
  proof (cases "vs = []")
    case True
    then have "ls = []" using Cons(2) by simp
    then show ?thesis using reads_items_single [OF v assms(4)] True by (simp add: listify_simps)
  next
    case False
    then have "ls \<noteq> []" "l \<noteq> []" using Cons(1,2) by (auto simp: line_reads_def)
    then show ?thesis
      using reads_items_Cons [OF v, of "[]", OF _ Cons(3) [OF False]] by (simp add: block_listify_Cons)
  qed
qed simp

lemma block_kwarg:
  "l \<noteq> [] \<Longrightarrow> block w (kwarg_lines k l) = newline # w @ k @ ''='' @ lines_text w l"
  by (simp add: kwarg_lines_def lines_text_def)

lemma reads_kwargs_lines:
  assumes "list_all2 (\<lambda>p l. is_key (fst p) \<and> (\<exists>l'. l = kwarg_lines (fst p) l' \<and> line_reads (snd p) l')) ps ls"
    "ps \<noteq> []" "distinct (map fst ps)" "list_all ws w" "list_all ws w'"
  shows "reads_kwargs ps (block w (listify ls) @ w')"
  using assms(1-3)
proof (induction rule: list_all2_induct)
  case (Cons p ps l ls)
  obtain k v where p: "p = (k, v)" by fastforce
  obtain l' where l: "l = kwarg_lines k l'" "line_reads v l'" and k: "is_key k" using Cons(1) p by auto
  then have v: "reads v (lines_text w l')" and l': "l' \<noteq> []" using assms(4) by (auto simp: line_reads_def)
  have w0: "list_all ws (newline # w)" using assms(4) by (simp add: ws_def)
  show ?case
  proof (cases "ps = []")
    case True
    then have "ls = []" using Cons(2) by simp
    then show ?thesis
      using reads_kwargs_single [OF k w0 v assms(5)] True p l l' by (simp add: listify_simps block_kwarg)
  next
    case False
    then have "ls \<noteq> []" "l \<noteq> []" using Cons(2) l by (auto simp: kwarg_lines_def)
    moreover have "k \<notin> fst ` set ps" "distinct (map fst ps)" using Cons(5) p by auto
    ultimately show ?thesis
      using reads_kwargs_Cons [OF k w0 v, of "[]", OF _ Cons(3) [OF False]] p l l'
      by (simp add: block_listify_Cons block_kwarg)
  qed
qed simp

lemma list_all2_map_self: "(\<And>x. x \<in> set xs \<Longrightarrow> P x (f x)) \<Longrightarrow> list_all2 P xs (map f xs)"
  by (induction xs) simp_all

lemma lines_text_block:
  "lines_text w (opener # map tab_line ls @ [closer]) = opener @ block (w @ TAB) ls @ newline # w @ closer"
  by (simp add: lines_text_def)

lemma ws_indent: "list_all ws w \<Longrightarrow> list_all ws (w @ TAB)" "list_all ws w \<Longrightarrow> list_all ws (newline # w)"
  by (simp_all add: TAB_def ws_def)

lemma line_readsI: "ls \<noteq> [] \<Longrightarrow> (\<And>w. list_all ws w \<Longrightarrow> reads v (lines_text w ls)) \<Longrightarrow> line_reads v ls"
  by (simp add: line_reads_def)

lemma primitive_reads:
  assumes "writable num_text v" "\<not> isUndefinedOrNull v" "\<forall>xs. v \<noteq> JArr xs" "\<forall>ps. v \<noteq> JObj ps"
  shows "reads v (pythonifyPrimitive num_text v)"
proof (cases v)
  case (JBool b)
  then show ?thesis
    by (cases b) (simp_all add: pythonifyPrimitive_def json_primitive_def reads_word)
next
  case (JNum n)
  obtain c r where t: "num_text n = c # r" "num_start c" "list_all num_char (num_text n)"
    "number_of_text (num_text n) = Some n"
    using assms(1) JNum by (cases "num_text n") (auto simp: plain_number_def)
  have "\<not> num_start (CHR ''t'')" "\<not> num_start (CHR ''f'')" "\<not> num_start (CHR ''n'')"
    by (simp_all add: num_start_def)
  then have "num_text n \<noteq> ''true''" "num_text n \<noteq> ''false''" "num_text n \<noteq> ''null''"
    using t(1,2) by auto
  then have "pythonifyPrimitive num_text v = num_text n"
    by (simp add: JNum pythonifyPrimitive_def json_primitive_def Let_def)
  then show ?thesis using reads_num [OF t(4,1,2,3)] JNum by simp
next
  case (JStr s)
  have "json_string s \<noteq> ''true''" "json_string s \<noteq> ''false''" "json_string s \<noteq> ''null''"
    by (simp_all add: json_string_def)
  then have "pythonifyPrimitive num_text v = json_string s"
    by (simp add: JStr pythonifyPrimitive_def json_primitive_def Let_def)
  then show ?thesis using reads_string JStr by simp
qed (use assms in simp_all)

lemma kwargs_lines:
  assumes "\<And>p. p \<in> set ps \<Longrightarrow> line_reads (snd p) (pythonify num_text (snd p))"
    "ps \<noteq> []" "distinct (map fst ps)" "\<forall>p \<in> set ps. is_key (fst p)" "list_all ws w" "list_all ws w'"
  shows "reads_kwargs ps (block w (convertToPythonFunctionKwargs num_text ps) @ w')"
  unfolding convertToPythonFunctionKwargs_def
  by (rule reads_kwargs_lines [OF list_all2_map_self assms(2,3,5,6)]) (use assms(1,4) in blast)

lemma pythonify_reads:
  "writable num_text v \<Longrightarrow> isNotNothing v \<Longrightarrow> condensed v \<Longrightarrow> line_reads v (pythonify num_text v)"
proof (induction num_text v rule: pythonify.induct)
  case (1 num_text xs)
  have xs: "xs \<noteq> []" using "1.prems"(2) by (simp add: isNotNothing_def)
  have all: "line_reads v (pythonify num_text v)" if "v \<in> set xs" for v
    using "1.IH" "1.prems" that by simp
  show ?case
  proof (rule line_readsI)
    fix w assume w: "list_all ws w"
    have "reads_items xs (block (w @ TAB) (listify (map (\<lambda>v. pythonify num_text v) xs)) @ newline # w)"
      using reads_items_lines [OF list_all2_map_self xs] all ws_indent w by blast
    from reads_list [OF this]
    show "reads (JArr xs) (lines_text w (pythonify num_text (JArr xs)))" by (simp add: lines_text_block)
  qed simp
next
  case (2 num_text ps)
  have ps: "ps \<noteq> []" using "2.prems"(2) by (simp add: isNotNothing_def)
  have all: "line_reads (snd p) (pythonify num_text (snd p))" if "p \<in> set ps" for p
    using "2.IH" "2.prems" that by simp
  show ?case
  proof (rule line_readsI)
    fix w assume w: "list_all ws w"
    have "reads_kwargs ps (block (w @ TAB) (convertToPythonFunctionKwargs num_text ps) @ newline # w)"
      using "2.prems"(1) by (intro kwargs_lines all ps ws_indent w) simp_all
    from reads_dict [OF this]
    show "reads (JObj ps) (lines_text w (pythonify num_text (JObj ps)))"
      by (simp add: lines_text_block convertToPythonFunctionKwargs_def)
  qed simp
qed (auto intro!: line_readsI primitive_reads simp: lines_text_def isNotNothing_def)

lemma join_lines_block: "join_lines (l # ls) = l @ block [] ls"
  by (simp add: join_lines_def block_def)

text \<open>C33: the Python code shown for the creation of an experiment, read by Python, gives the call every
  field of the condensed experiment that is not left out, in its order and with its value: texts with quotes, line
  breaks and control characters, numbers, lists and objects at any depth. It is claimed for experiments that are
  \<open>writable\<close> only: every key at every depth, those of the metadata included, is a Python name that is no keyword,
  and stands once in its object; no value below is undefined; and the texts of the numbers are plain ones. Other keys give code that Python does
  not read (\<open>key_with_space_is_no_code\<close>).\<close>

theorem created_experiment_reads_back:
  assumes "recursivelyCondenseObject (JObj e) = JObj c" "sanitizeExperimentForCreate c \<noteq> []"
    "writable num_text (JObj (sanitizeExperimentForCreate c))"
  shows "py_read_call (import_lines @ ''sigopt.create_experiment('')
      (CreateExperimentCodePython num_text (sanitizeExperimentForCreate c) True) =
    Some (sanitizeExperimentForCreate c)"
proof -
  let ?s = "sanitizeExperimentForCreate c"
  have "condensed (JObj c)" using condense_condensed [of "JObj e"] unfolding assms(1) .
  then have "\<forall>p \<in> set ?s. isNotNothing (snd p) \<and> condensed (snd p)"
    by (simp add: sanitizeExperimentForCreate_def)
  moreover have "\<forall>p \<in> set ?s. writable num_text (snd p)" using assms(3) unfolding writable.simps by blast
  ultimately have "line_reads (snd p) (pythonify num_text (snd p))" if "p \<in> set ?s" for p
    using that pythonify_reads by blast
  then have "reads_kwargs ?s (block TAB (convertToPythonFunctionKwargs num_text ?s) @ [newline])"
    using assms(2,3) by (intro kwargs_lines) (simp_all add: TAB_def ws_def)
  from py_read_callI [OF this, of "import_lines @ ''sigopt.create_experiment(''"]
  show ?thesis
    by (simp add: CreateExperimentCodePython_def convertToPythonFunctionCall_def join_lines_block)
qed

definition whole_text :: "rat \<Rightarrow> string" where
  "whole_text q = int_text (fst (quotient_of q))"

definition code_example :: jsobj where
  "code_example =
     [(''id'', JStr ''5''), (''name'', JStr [dquote, CHR ''a'', dquote, newline, CHR 0x01]), (''client'', JStr ''1''),
      (''metadata'', JObj []),
      (''parameters'', JArr
        [JObj [(''name'', JStr ''rate''), (''type'', JStr ''int''),
               (''bounds'', JObj [(''min'', JNum (-2)), (''max'', JNum 10)]), (''grid'', JNull)],
         JObj [(''name'', JStr ''class''), (''values'', JArr [JBool True, JBool False])]])]"

definition condensed_example :: jsobj where
  "condensed_example = (case recursivelyCondenseObject (JObj code_example) of JObj c \<Rightarrow> c | _ \<Rightarrow> [])"

lemma created_experiment_reads_back_witness:
  "sanitizeExperimentForCreate condensed_example \<noteq> [] \<and>
   py_read_call (import_lines @ ''sigopt.create_experiment('')
      (CreateExperimentCodePython whole_text (sanitizeExperimentForCreate condensed_example) True) =
    Some (sanitizeExperimentForCreate condensed_example)"
proof -
  have "recursivelyCondenseObject (JObj code_example) = JObj condensed_example" by code_simp
  moreover have "sanitizeExperimentForCreate condensed_example \<noteq> []" by code_simp
  moreover have "writable whole_text (JObj (sanitizeExperimentForCreate condensed_example))" by code_simp
  ultimately show ?thesis using created_experiment_reads_back by blast
qed

text \<open>
  A list without items is written as a line with \<open>undefined\<close>, which Python does not know, and so is an object
  without fields. A key that is not a name, as the metadata of an experiment may have, gives no Python
  at all.
\<close>

lemma empty_list_is_written_undefined:
  "py_read_call ''f('' (join_lines (convertToPythonFunctionCall whole_text ''f'' [(''tags'', JArr [])])) = None"
  "py_read_call ''f('' (join_lines (convertToPythonFunctionCall whole_text ''f'' [])) = None"
  by code_simp+

lemma key_with_space_is_no_code:
  "py_read_call ''f('' (join_lines (convertToPythonFunctionCall whole_text ''f''
     [(''metadata'', JObj [(''data set'', JStr ''a'')])])) = None"
  "py_read_call ''f('' (join_lines (convertToPythonFunctionCall whole_text ''f''
     [(''metadata'', JObj [(''class'', JStr ''a'')])])) = None"
  by code_simp+

subsection \<open>Code in components: component/code_generator/base.js, python.js\<close>

definition INDENT :: string where
  "INDENT = ''  ''"

definition item_joiner :: string where
  "item_joiner = [CHR '','', newline]"

text \<open>The children of a block are pieces of text.\<close>

definition EnclosedBlock :: "string \<Rightarrow> string \<Rightarrow> string \<Rightarrow> string list \<Rightarrow> string" where
  "EnclosedBlock ind opener closer children =
     (if children = [] then opener @ closer
      else opener @ [newline] @ concat children @ [newline] @ ind @ INDENT @ closer)"

definition schwartzian_key :: "string \<times> jsval \<Rightarrow> nat" where
  "schwartzian_key p = (if fst p \<in> {''name'', ''parameters'', ''min''} then 0 else 1)"

definition code_entries :: "string list \<Rightarrow> jsobj \<Rightarrow> jsobj" where
  "code_entries denyList ps = sort_key schwartzian_key (sort_key fst (filter (\<lambda>p. fst p \<notin> set denyList) ps))"

definition array_children :: "string \<Rightarrow> string list \<Rightarrow> string list" where
  "array_children nextIndent codes = butlast (concat (map (\<lambda>code. [nextIndent, code, item_joiner]) codes))"

definition object_children :: "string \<Rightarrow> (string \<times> string) list \<Rightarrow> string list" where
  "object_children nextIndent codes =
     butlast (concat (map (\<lambda>(key, code). [nextIndent, key @ ''='', code, [], item_joiner]) codes))"

text \<open>The values of a categorical parameter are written by their names.\<close>

definition python_item :: "string \<Rightarrow> jsval \<Rightarrow> jsval" where
  "python_item key v =
     (if key = ''categorical_values'' then
        (case v of
           JArr xs \<Rightarrow> JArr (map (\<lambda>c. js_prop c ''name'') xs)
         | JObj ps \<Rightarrow> JArr (map (\<lambda>p. js_prop (snd p) ''name'') ps)
         | _ \<Rightarrow> v)
      else v)"

lemma field_size: "size (obj_get ps k) \<le> size_list (size_prod (\<lambda>_. 0) size) ps"
  by (induction ps) (auto simp: obj_get_def)

lemma prop_size: "size (js_prop c k) \<le> size c"
  by (cases c) (use field_size [of _ k] in \<open>auto simp: js_prop_def intro: order_trans le_SucI\<close>)

lemma python_item_size: "size (python_item k v) \<le> size v"
proof -
  have "size_list size (map (\<lambda>c. js_prop c ''name'') xs) \<le> size_list size xs" for xs
    by (induction xs) (use prop_size in \<open>auto intro: add_mono\<close>)
  moreover have "size_list size (map (\<lambda>p. js_prop (snd p) ''name'') ps) \<le> size_list (size_prod (\<lambda>_. 0) size) ps" for ps
  proof (induction ps)
    case (Cons p ps)
    then show ?case using prop_size [of "snd p" "''name''"] by (cases p) simp
  qed simp
  ultimately show ?thesis by (auto simp: python_item_def split: jsval.split)
qed

lemma code_entries_set: "set (code_entries deny ps) = {p \<in> set ps. fst p \<notin> set deny}"
  by (auto simp: code_entries_def)

lemma size_in_obj: "p \<in> set ps \<Longrightarrow> size (snd p) < Suc (size_list (size_prod (\<lambda>_. 0) size) ps)"
  by (induction ps) auto

lemma size_in_list: "x \<in> set xs \<Longrightarrow> size x < Suc (size_list size (xs :: jsval list))"
  by (induction xs) auto

function py_code :: "(rat \<Rightarrow> string) \<Rightarrow> string \<Rightarrow> jsval \<Rightarrow> string" where
  "py_code num_text ind (JArr xs) =
     EnclosedBlock ind ''['' '']''
       (array_children (ind @ INDENT) (map (\<lambda>x. py_code num_text (ind @ INDENT) x) xs))"
| "py_code num_text ind (JObj ps) =
     EnclosedBlock ind ''dict('' '')''
       (object_children (ind @ INDENT)
          (map (\<lambda>p. (fst p, py_code num_text (ind @ INDENT) (python_item (fst p) (snd p))))
            (code_entries JSON_OBJECT_DENY_LIST ps)))"
| "py_code num_text ind (JBool b) = (if b then ''True'' else ''False'')"
| "py_code num_text ind JNull = ''None''"
| "py_code num_text ind JUndef = []"
| "py_code num_text ind (JStr s) = json_primitive num_text (JStr s)"
| "py_code num_text ind (JNum n) = json_primitive num_text (JNum n)"
  by pat_completeness auto
termination
proof (relation "measure (\<lambda>(num_text, ind, v). size v)")
  show "((num_text, ind @ INDENT, x), num_text, ind, JArr xs) \<in> measure (\<lambda>(num_text, ind, v). size v)"
    if "x \<in> set xs" for num_text :: "rat \<Rightarrow> string" and ind xs x
    using size_in_list [OF that] by simp
  show "((num_text, ind @ INDENT, python_item (fst p) (snd p)), num_text, ind, JObj ps)
      \<in> measure (\<lambda>(num_text, ind, v). size v)"
    if "p \<in> set (code_entries JSON_OBJECT_DENY_LIST ps)" for num_text :: "rat \<Rightarrow> string" and ind ps p
    using size_in_obj [of p ps] python_item_size [of "fst p" "snd p"] that by (simp add: code_entries_set)
qed simp

fun api_calls :: "string list \<Rightarrow> string" where
  "api_calls [] = []"
| "api_calls [d] = ''.'' @ d @ ''()''"
| "api_calls (d # i # path) = ''.'' @ d @ ''('' @ (if i = ''batch'' then [] else i) @ '')'' @ api_calls path"

text \<open>A verb that is missing in the table is \<open>undefined\<close>; a method that is missing raises.\<close>

definition api_verb :: "string \<Rightarrow> bool \<Rightarrow> js_error + string" where
  "api_verb meth isBatch =
     (case map_of [(''GET'', [(''default'', ''fetch'')]), (''POST'', [(''batch'', ''create_batch''), (''default'', ''create'')]),
                   (''PUT'', [(''default'', ''update'')]), (''DELETE'', [(''default'', ''delete'')])] meth of
        None \<Rightarrow> Inl TypeError
      | Some verbs \<Rightarrow>
          Inr (case map_of verbs (if isBatch then ''batch'' else ''default'') of
             None \<Rightarrow> ''undefined'' | Some v \<Rightarrow> v))"

definition api_opener :: "string \<Rightarrow> string list \<Rightarrow> string \<Rightarrow> js_error + string" where
  "api_opener name path meth =
     (case api_verb meth (path \<noteq> [] \<and> last path = ''batch'') of
        Inl e \<Rightarrow> Inl e
      | Inr verb \<Rightarrow> Inr (name @ '' = conn'' @ api_calls path @ ''.'' @ verb @ ''(''))"

text \<open>The header and the footer are texts of templates, filled in by the library of the templates.\<close>

definition ApiCallCodeGen ::
  "(rat \<Rightarrow> string) \<Rightarrow> string option \<Rightarrow> string option \<Rightarrow> string \<Rightarrow> string list \<Rightarrow> string \<Rightarrow> string list \<Rightarrow> jsobj \<Rightarrow>
   js_error + string" where
  "ApiCallCodeGen num_text header footer name path meth denyList e =
     (case api_opener name path meth of
        Inl err \<Rightarrow> Inl err
      | Inr opener \<Rightarrow>
          Inr ((case header of None \<Rightarrow> [] | Some h \<Rightarrow> h @ [newline]) @
               EnclosedBlock [] opener '')''
                 (object_children INDENT
                    (map (\<lambda>p. (fst p, py_code num_text INDENT (snd p))) (code_entries denyList e))) @
               [newline] @ (case footer of None \<Rightarrow> [] | Some f \<Rightarrow> f)))"

definition PythonExperimentCodeGen ::
  "(rat \<Rightarrow> string) \<Rightarrow> string option \<Rightarrow> string option \<Rightarrow> jsobj \<Rightarrow> js_error + string" where
  "PythonExperimentCodeGen num_text header footer e =
     ApiCallCodeGen num_text header footer ''experiment'' [''experiments''] ''POST'' EXPERIMENT_DENY_LIST e"

text \<open>The page: the experiments of one module have code of the one kind, those of the other of both languages.\<close>

definition code_languages :: "bool \<Rightarrow> string list" where
  "code_languages isAi = (if isAi then [''python'', ''yaml''] else [''python''])"

definition handleLanguageSelect ::
  "(string \<Rightarrow> string) \<Rightarrow> bool \<Rightarrow> string option \<Rightarrow> string option \<Rightarrow> string option" where
  "handleLanguageSelect toLower isAi language state =
     (let lowerLanguage = toLower (case language of None \<Rightarrow> [] | Some l \<Rightarrow> l)
      in if lowerLanguage \<in> set (code_languages isAi) then Some lowerLanguage
         else case state of
           None \<Rightarrow> Some (hd (code_languages isAi))
         | Some l \<Rightarrow> if l = [] then Some (hd (code_languages isAi)) else state)"

definition api_page_code ::
  "(rat \<Rightarrow> string) \<Rightarrow> (jsobj \<Rightarrow> string) \<Rightarrow> string option \<Rightarrow> string option \<Rightarrow> bool \<Rightarrow> string \<Rightarrow> jsobj \<Rightarrow>
   (js_error + string) option" where
  "api_page_code num_text yamlStringify header footer isAi language e =
     (case recursivelyCondenseObject (JObj e) of
        JObj c \<Rightarrow>
          (if language \<notin> set (code_languages isAi) then None
           else if \<not> isAi then Some (PythonExperimentCodeGen num_text header footer c)
           else if language = ''python''
             then Some (Inr (CreateExperimentCodePython num_text (sanitizeExperimentForCreate c) True))
           else Some (Inr (''# experiment.yml'' @ [newline, newline] @ yamlStringify (sanitizeExperimentForCreate c))))
      | _ \<Rightarrow> None)"

text \<open>The data that is meant: values of categories by their names, without the fields left out.\<close>

function category_names :: "jsval \<Rightarrow> jsval" where
  "category_names (JArr xs) = JArr (map category_names xs)"
| "category_names (JObj ps) = JObj (map (\<lambda>p. (fst p, category_names (python_item (fst p) (snd p)))) ps)"
| "category_names (JBool b) = JBool b"
| "category_names JNull = JNull"
| "category_names JUndef = JUndef"
| "category_names (JStr s) = JStr s"
| "category_names (JNum n) = JNum n"
  by pat_completeness auto
termination
proof (relation "measure size")
  show "(x, JArr xs) \<in> measure size" if "x \<in> set xs" for xs x using size_in_list [OF that] by simp
  show "(python_item (fst p) (snd p), JObj ps) \<in> measure size" if "p \<in> set ps" for ps p
    using size_in_obj [of p ps] python_item_size [of "fst p" "snd p"] that by simp
qed simp

definition client_data :: "jsval \<Rightarrow> jsval" where
  "client_data v = recursivelyOmitKeys (category_names v) JSON_OBJECT_DENY_LIST"

text \<open>The same data in the order of the code.\<close>

function py_data :: "jsval \<Rightarrow> jsval" where
  "py_data (JArr xs) = JArr (map py_data xs)"
| "py_data (JObj ps) =
     JObj (map (\<lambda>p. (fst p, py_data (python_item (fst p) (snd p)))) (code_entries JSON_OBJECT_DENY_LIST ps))"
| "py_data (JBool b) = JBool b"
| "py_data JNull = JNull"
| "py_data JUndef = JUndef"
| "py_data (JStr s) = JStr s"
| "py_data (JNum n) = JNum n"
  by pat_completeness auto
termination
proof (relation "measure size")
  show "(x, JArr xs) \<in> measure size" if "x \<in> set xs" for xs x using size_in_list [OF that] by simp
  show "(python_item (fst p) (snd p), JObj ps) \<in> measure size"
    if "p \<in> set (code_entries JSON_OBJECT_DENY_LIST ps)" for ps p
    using size_in_obj [of p ps] python_item_size [of "fst p" "snd p"] that by (simp add: code_entries_set)
qed simp

lemma client_data_simps:
  "client_data (JArr xs) = JArr (map client_data xs)"
  "client_data (JObj ps) = JObj (map (\<lambda>p. (fst p, client_data (python_item (fst p) (snd p))))
     (filter (\<lambda>p. fst p \<notin> set JSON_OBJECT_DENY_LIST) ps))"
  by (simp_all add: client_data_def filter_map comp_def)

lemma sort_keys_unique:
  fixes xs ys :: "(string \<times> 'a) list"
  assumes "mset xs = mset ys" "distinct (map fst xs)"
  shows "sort_key fst xs = sort_key fst ys"
proof (rule sort_key_inj_key_eq)
  show "inj_on fst (set xs)" using assms(2) by (simp add: distinct_map)
  show "mset xs = mset (sort_key fst ys)" using assms(1) by simp
qed simp

lemma code_entries_mset: "mset (code_entries deny ps) = mset (filter (\<lambda>p. fst p \<notin> set deny) ps)"
  by (simp add: code_entries_def)

lemma array_children_simps [simp]:
  "array_children w [] = []" "array_children w [c] = [w, c]"
  "array_children w (c # c' # cs) = [w, c, item_joiner] @ array_children w (c' # cs)"
  by (simp_all add: array_children_def butlast_append)

lemma object_children_simps [simp]:
  "object_children w [] = []" "object_children w [(k, c)] = [w, k @ ''='', c, []]"
  "object_children w ((k, c) # d # cs) = [w, k @ ''='', c, [], item_joiner] @ object_children w (d # cs)"
  by (cases d, simp_all add: object_children_def butlast_append)+

lemma array_children_empty [simp]: "array_children w cs = [] \<longleftrightarrow> cs = []"
  by (cases cs rule: remdups_adj.cases) simp_all

lemma object_children_empty [simp]: "object_children w cs = [] \<longleftrightarrow> cs = []"
  by (cases cs rule: remdups_adj.cases) (simp_all, metis object_children_simps(2) list.distinct(1) surj_pair,
    metis object_children_simps(3) append_is_Nil_conv list.distinct(1) surj_pair)

lemma reads_items_pieces:
  assumes "list_all2 reads vs codes" "vs \<noteq> []" "list_all ws w0" "list_all ws w" "list_all ws w'"
  shows "reads_items vs (w0 @ concat (array_children w codes) @ w')"
  using assms(1-3)
proof (induction arbitrary: w0 rule: list_all2_induct)
  case (Cons v vs c cs)
  have v: "reads v (w0 @ w @ c)" using Cons(1) Cons.prems(2) assms(4) by (intro reads_ws)
  show ?case
  proof (cases cs)
    case Nil
    then have "vs = []" using Cons(2) by simp
    then show ?thesis using reads_items_single [OF v assms(5)] Nil by simp
  next
    case (Cons c' cs')
    then have vs: "vs \<noteq> []" using Cons.hyps(2) by auto
    have "list_all ws [newline]" by (simp add: ws_def)
    from reads_items_Cons [OF v, of "[]", OF _ Cons.IH [OF vs this]]
    show ?thesis by (simp add: Cons item_joiner_def)
  qed
qed simp

lemma reads_kwargs_pieces:
  assumes "list_all2 (\<lambda>p kc. is_key (fst p) \<and> fst kc = fst p \<and> reads (snd p) (snd kc)) ps codes" "ps \<noteq> []"
    "distinct (map fst ps)" "list_all ws w0" "list_all ws w" "list_all ws w'"
  shows "reads_kwargs ps (w0 @ concat (object_children w codes) @ w')"
  using assms(1-4)
proof (induction arbitrary: w0 rule: list_all2_induct)
  case (Cons p ps kc cs)
  obtain k v c where p: "p = (k, v)" "kc = (k, c)" using Cons(1) by (cases p; cases kc) auto
  have k: "is_key k" and v: "reads v c" using Cons(1) p by simp_all
  have w: "list_all ws (w0 @ w)" using Cons.prems(3) assms(5) by simp
  show ?case
  proof (cases cs)
    case Nil
    then have "ps = []" using Cons(2) by simp
    then show ?thesis using reads_kwargs_single [OF k w v assms(6)] Nil p by simp
  next
    case (Cons c' cs')
    then have ps: "ps \<noteq> []" using Cons.hyps(2) by auto
    have d: "distinct (map fst ps)" "k \<notin> fst ` set ps" using Cons.prems(2) p by auto
    have "list_all ws [newline]" by (simp add: ws_def)
    from reads_kwargs_Cons [OF k w v, of "[]", OF _ Cons.IH [OF ps d(1) this] d(2)]
    show ?thesis by (simp add: Cons p item_joiner_def)
  qed
qed simp

lemma ws_INDENT: "list_all ws ind \<Longrightarrow> list_all ws (ind @ INDENT)" "list_all ws [newline]" "list_all ws INDENT"
  by (simp_all add: INDENT_def ws_def)

lemma array_block_reads:
  assumes "list_all2 reads vs codes" "list_all ws ind"
  shows "reads (JArr vs) (EnclosedBlock ind ''['' '']'' (array_children (ind @ INDENT) codes))"
proof (cases "vs = []")
  case True
  then show ?thesis using assms(1) reads_list [OF reads_items_Nil, of "[]"] by (simp add: EnclosedBlock_def)
next
  case False
  have "codes \<noteq> []" using False assms(1) by auto
  moreover have "list_all ws (newline # ind @ INDENT)" using ws_INDENT(1) [OF assms(2)] by (simp add: ws_def)
  ultimately show ?thesis
    using reads_list [OF reads_items_pieces [OF assms(1) False ws_INDENT(2) ws_INDENT(1) [OF assms(2)],
        of "newline # ind @ INDENT"]]
    by (simp add: EnclosedBlock_def)
qed

lemma kwargs_block_reads:
  assumes "list_all2 (\<lambda>p kc. is_key (fst p) \<and> fst kc = fst p \<and> reads (snd p) (snd kc)) ps codes"
    "distinct (map fst ps)" "list_all ws ind" "list_all ws w"
  obtains t where "EnclosedBlock ind opener '')'' (object_children w codes) = opener @ t @ '')''" "reads_kwargs ps t"
proof (cases "ps = []")
  case True
  then show thesis using assms(1) reads_kwargs_Nil [of "[]"] that [of "[]"] by (simp add: EnclosedBlock_def)
next
  case False
  have "codes \<noteq> []" using False assms(1) by auto
  moreover have "list_all ws (newline # ind @ INDENT)" using ws_INDENT(1) [OF assms(3)] by (simp add: ws_def)
  ultimately show thesis
    using reads_kwargs_pieces [OF assms(1) False assms(2) ws_INDENT(2) assms(4), of "newline # ind @ INDENT"]
    by (intro that [of "[newline] @ concat (object_children w codes) @ newline # ind @ INDENT"])
      (simp_all add: EnclosedBlock_def)
qed

lemma code_entries_distinct:
  assumes "distinct (map fst (filter (\<lambda>p. fst p \<notin> set deny) ps))"
  shows "distinct (map fst (code_entries deny ps))"
proof -
  have "mset (map fst (code_entries deny ps)) = mset (map fst (filter (\<lambda>p. fst p \<notin> set deny) ps))"
    by (simp add: code_entries_mset mset_map del: mset_filter)
  then show ?thesis using assms mset_eq_imp_distinct_iff by blast
qed

lemma writable_entries:
  assumes "writable num_text (client_data (JObj ps))"
  shows "distinct (map fst (code_entries JSON_OBJECT_DENY_LIST ps))"
    "p \<in> set (code_entries JSON_OBJECT_DENY_LIST ps) \<Longrightarrow>
      is_key (fst p) \<and> writable num_text (client_data (python_item (fst p) (snd p)))"
  using assms
  by (auto intro!: code_entries_distinct simp: client_data_simps code_entries_set comp_def)
    (cases p, auto)+

lemma list_all2_map_maps: "(\<And>x. x \<in> set xs \<Longrightarrow> P (f x) (g x)) \<Longrightarrow> list_all2 P (map f xs) (map g xs)"
  by (induction xs) simp_all

lemma json_primitive_reads:
  "reads (JStr s) (json_primitive num_text (JStr s))"
  "plain_number (num_text n) n \<Longrightarrow> reads (JNum n) (json_primitive num_text (JNum n))"
proof -
  show "reads (JStr s) (json_primitive num_text (JStr s))" by (simp add: json_primitive_def reads_string)
  show "reads (JNum n) (json_primitive num_text (JNum n))" if "plain_number (num_text n) n"
    using that reads_num [of "num_text n" n "hd (num_text n)" "tl (num_text n)"]
    by (simp add: json_primitive_def plain_number_def)
qed

lemma py_code_reads:
  "writable num_text (client_data v) \<Longrightarrow> list_all ws ind \<Longrightarrow> reads (py_data v) (py_code num_text ind v)"
proof (induction num_text ind v rule: py_code.induct)
  case (1 num_text ind xs)
  have "list_all2 reads (map py_data xs) (map (\<lambda>x. py_code num_text (ind @ INDENT) x) xs)"
    using "1.IH" "1.prems" ws_INDENT(1) by (intro list_all2_map_maps) (simp add: client_data_simps)
  then show ?case using array_block_reads "1.prems"(2) by simp
next
  case (2 num_text ind ps)
  let ?es = "code_entries JSON_OBJECT_DENY_LIST ps"
  let ?d = "\<lambda>p. (fst p, py_data (python_item (fst p) (snd p)))"
  let ?c = "\<lambda>p. (fst p, py_code num_text (ind @ INDENT) (python_item (fst p) (snd p)))"
  have "list_all2 (\<lambda>p kc. is_key (fst p) \<and> fst kc = fst p \<and> reads (snd p) (snd kc)) (map ?d ?es) (map ?c ?es)"
    using "2.IH" writable_entries(2) [OF "2.prems"(1)] ws_INDENT(1) [OF "2.prems"(2)]
    by (intro list_all2_map_maps) simp
  moreover have "distinct (map fst (map ?d ?es))"
    using writable_entries(1) [OF "2.prems"(1)] by (simp add: comp_def)
  ultimately obtain t where t:
    "EnclosedBlock ind ''dict('' '')'' (object_children (ind @ INDENT) (map ?c ?es)) = ''dict('' @ t @ '')''"
    "reads_kwargs (map ?d ?es) t"
    using kwargs_block_reads "2.prems"(2) ws_INDENT(1) [OF "2.prems"(2)] by blast
  show ?case using reads_dict [OF t(2)] t(1) by simp
qed (auto simp: client_data_def reads_word json_primitive_reads)

lemma js_canon_obj:
  "js_canon (JObj ps) = JObj (sort_key fst (map (\<lambda>p. (fst p, js_canon (snd p))) ps))"
  by (simp add: case_prod_unfold)

lemma canon_entries:
  fixes ps :: "(string \<times> 'a) list"
  assumes "\<And>p. p \<in> set qs \<Longrightarrow> js_canon (f p) = js_canon (g p)" "mset ps = mset qs" "distinct (map fst ps)"
  shows "js_canon (JObj (map (\<lambda>p. (fst p, f p)) ps)) = js_canon (JObj (map (\<lambda>p. (fst p, g p)) qs))"
proof -
  have same: "map (\<lambda>p. (fst p, js_canon (f p))) qs = map (\<lambda>p. (fst p, js_canon (g p))) qs" using assms(1) by simp
  have "mset (map (\<lambda>p. (fst p, js_canon (f p))) ps) = mset (map (\<lambda>p. (fst p, js_canon (g p))) qs)"
    unfolding same [symmetric] unfolding mset_map assms(2) ..
  then have "sort_key fst (map (\<lambda>p. (fst p, js_canon (f p))) ps) = sort_key fst (map (\<lambda>p. (fst p, js_canon (g p))) qs)"
    using assms(3) by (intro sort_keys_unique) (simp_all add: comp_def del: mset_map)
  then show ?thesis by (simp add: js_canon_obj comp_def del: js_canon.simps)
qed

lemma py_data_canon: "writable num_text (client_data v) \<Longrightarrow> js_canon (py_data v) = js_canon (client_data v)"
proof (induction v rule: py_data.induct)
  case (1 xs)
  then show ?case by (simp add: client_data_simps)
next
  case (2 ps)
  show ?case
    unfolding py_data.simps client_data_simps
  proof (rule canon_entries)
    show "js_canon (py_data (python_item (fst p) (snd p))) = js_canon (client_data (python_item (fst p) (snd p)))"
      if "p \<in> set (filter (\<lambda>p. fst p \<notin> set JSON_OBJECT_DENY_LIST) ps)" for p
    proof -
      have "p \<in> set (code_entries JSON_OBJECT_DENY_LIST ps)" using that by (simp add: code_entries_set)
      then show ?thesis using "2.IH" writable_entries(2) [OF "2.prems"] by blast
    qed
    show "mset (code_entries JSON_OBJECT_DENY_LIST ps) = mset (filter (\<lambda>p. fst p \<notin> set JSON_OBJECT_DENY_LIST) ps)"
      by (rule code_entries_mset)
  qed (rule writable_entries(1) [OF "2.prems"])
qed (simp_all add: client_data_def)

text \<open>What the client is to be given for an experiment.\<close>

definition client_experiment :: "jsobj \<Rightarrow> jsobj" where
  "client_experiment e = map (\<lambda>p. (fst p, client_data (snd p))) (filter (\<lambda>p. fst p \<notin> set EXPERIMENT_DENY_LIST) e)"

text \<open>C34: the call of the client shown for an experiment, read by Python, creates an experiment with the data of
  the experiment, up to the order of the fields: without the fields left out at the top and at each depth, with the
  values of categories by their names. It is claimed when what is sent is \<open>writable\<close>: every key at every depth, those
  of metadata and conditions included, is a Python name that is no keyword and stands once in its object, no value
  is undefined, and the texts of the numbers are plain ones.\<close>

theorem client_code_reads_back:
  assumes "writable num_text (JObj (client_experiment e))"
  shows "\<exists>body kvs. PythonExperimentCodeGen num_text (Some header) (Some footer) e =
      Inr (header @ [newline] @ body @ [newline] @ footer) \<and>
    py_read_call ''experiment = conn.experiments().create('' body = Some kvs \<and>
    js_equal (JObj kvs) (JObj (client_experiment e))"
proof -
  let ?es = "code_entries EXPERIMENT_DENY_LIST e"
  let ?c = "\<lambda>p. (fst p, py_code num_text INDENT (snd p))"
  let ?d = "\<lambda>p. (fst p, py_data (snd p))"
  let ?opener = "''experiment = conn.experiments().create(''"
  have es: "is_key (fst p) \<and> writable num_text (client_data (snd p))" if "p \<in> set ?es" for p
    using assms that by (cases p) (auto simp: client_experiment_def code_entries_set)
  have dist: "distinct (map fst ?es)"
    using assms by (intro code_entries_distinct) (simp add: client_experiment_def comp_def)
  have "list_all2 (\<lambda>p kc. is_key (fst p) \<and> fst kc = fst p \<and> reads (snd p) (snd kc)) (map ?d ?es) (map ?c ?es)"
    using es py_code_reads ws_INDENT(3) by (intro list_all2_map_maps) simp
  moreover have "distinct (map fst (map ?d ?es))" using dist by (simp add: comp_def)
  moreover have "list_all ws []" by simp
  ultimately obtain t where t:
    "EnclosedBlock [] ?opener '')'' (object_children INDENT (map ?c ?es)) = ?opener @ t @ '')''"
    "reads_kwargs (map ?d ?es) t"
    using ws_INDENT(3) by (rule kwargs_block_reads)
  have "api_opener ''experiment'' [''experiments''] ''POST'' = Inr ?opener"
    by (simp add: api_opener_def api_verb_def)
  then have run: "PythonExperimentCodeGen num_text (Some header) (Some footer) e =
      Inr (header @ [newline] @ (?opener @ t @ '')'') @ [newline] @ footer)"
    by (simp add: PythonExperimentCodeGen_def ApiCallCodeGen_def t(1))
  have "js_canon (JObj (map ?d ?es)) = js_canon (JObj (client_experiment e))"
    unfolding client_experiment_def
    using es py_data_canon dist by (intro canon_entries code_entries_mset) (auto simp: code_entries_set)
  then have "js_equal (JObj (map ?d ?es)) (JObj (client_experiment e))" by (simp add: js_equal_def)
  then show ?thesis using run py_read_callI [OF t(2)] by blast
qed

definition client_example :: jsobj where
  "client_example =
     [(''id'', JStr ''5''), (''state'', JStr ''active''), (''type'', JStr ''offline''),
      (''parameters'', JArr
        [JObj [(''type'', JStr ''categorical''), (''object'', JStr ''parameter''), (''name'', JStr ''kind''),
               (''categorical_values'', JArr
                 [JObj [(''enum_index'', JNum 1), (''name'', JStr ''a''), (''object'', JStr ''categorical_value'')],
                  JObj [(''enum_index'', JNum 2), (''name'', JStr ''b'')]])]]),
      (''name'', JStr ''test''), (''metadata'', JObj [(''id'', JNum 1)])]"

lemma client_code_reads_back_witness:
  "\<exists>body kvs. PythonExperimentCodeGen whole_text (Some ''header'') (Some ''footer'') client_example =
      Inr (''header'' @ [newline] @ body @ [newline] @ ''footer'') \<and>
    py_read_call ''experiment = conn.experiments().create('' body = Some kvs \<and>
    js_equal (JObj kvs) (JObj (client_experiment client_example))"
proof (rule client_code_reads_back)
  show "writable whole_text (JObj (client_experiment client_example))" by code_simp
qed

text \<open>A name of a metadata entry that the parts of an experiment also have is lost, as here \<open>id\<close>.\<close>

lemma metadata_id_is_lost:
  "map_of (client_experiment client_example) ''metadata'' = Some (JObj [])"
  "map_of (client_experiment client_example) ''parameters'' =
     Some (JArr [JObj [(''type'', JStr ''categorical''), (''name'', JStr ''kind''),
       (''categorical_values'', JArr [JStr ''a'', JStr ''b''])]])"
  by code_simp+

end
