(* ===== verification/Suggestions.thy ===== *)
theory Suggestions
  imports Experiment "HOL-Library.Multiset"
begin

section \<open>Suggestions: web/js/pages/experiment/core/suggestions, suggestion, queued_suggestion\<close>

text \<open>
  The page of the suggestions of an experiment, which keeps the open and the queued ones up to date by polling
  and by what its own user does, and the three modals: that of a suggestion, in which an observation is
  reported, that of a queued suggestion, and that of an observation. An answer of the API is an operation of its
  own, so that the user can do something in between.
\<close>

subsection \<open>The page: pages/experiment/core/suggestions/page.js\<close>

record sugg =
  sg_id :: jsval
  sg_assignments :: jsobj

text \<open>A list is missing until the first answer of its poller.\<close>

record suggestions_page =
  sp_suggestions :: "sugg list option"
  sp_queued :: "sugg list option"

definition suggestions_page_init :: suggestions_page where
  "suggestions_page_init = \<lparr>sp_suggestions = None, sp_queued = None\<rparr>"

definition reject_id :: "jsval \<Rightarrow> sugg list option \<Rightarrow> sugg list" where
  "reject_id i ss = filter (\<lambda>s. sg_id s \<noteq> i) (case ss of None \<Rightarrow> [] | Some l \<Rightarrow> l)"

definition addSuggestion :: "sugg \<Rightarrow> suggestions_page \<Rightarrow> suggestions_page" where
  "addSuggestion s p = p\<lparr>sp_suggestions := Some (s # reject_id (sg_id s) (sp_suggestions p))\<rparr>"

definition removeSuggestion :: "jsval \<Rightarrow> suggestions_page \<Rightarrow> suggestions_page" where
  "removeSuggestion i p = p\<lparr>sp_suggestions := Some (reject_id i (sp_suggestions p))\<rparr>"

definition addQueuedSuggestion :: "sugg \<Rightarrow> suggestions_page \<Rightarrow> suggestions_page" where
  "addQueuedSuggestion s p = p\<lparr>sp_queued := Some (reject_id (sg_id s) (sp_queued p) @ [s])\<rparr>"

definition removeQueuedSuggestion :: "jsval \<Rightarrow> suggestions_page \<Rightarrow> suggestions_page" where
  "removeQueuedSuggestion i p = p\<lparr>sp_queued := Some (reject_id i (sp_queued p))\<rparr>"

text \<open>What the user is told, beside the new state.\<close>

definition onCreateSuggestion :: "sugg \<Rightarrow> suggestions_page \<Rightarrow> suggestions_page \<times> string" where
  "onCreateSuggestion s p =
     ((case sp_queued p of
         Some (h # _) \<Rightarrow> removeQueuedSuggestion (sg_id h) (addSuggestion s p)
       | _ \<Rightarrow> addSuggestion s p),
      ''Successfully created a Suggestion'')"

definition onDeleteQueuedSuggestion :: "sugg \<Rightarrow> suggestions_page \<Rightarrow> suggestions_page \<times> string" where
  "onDeleteQueuedSuggestion s p =
     (removeQueuedSuggestion (sg_id s) p, ''Deleted Queued Suggestion '' @ js_text (sg_id s))"

definition onCreateObservation :: "jsval \<Rightarrow> suggestions_page \<Rightarrow> suggestions_page \<times> string" where
  "onCreateObservation suggestionId p =
     (removeSuggestion suggestionId p,
      ''Observation reported for suggestion '' @ js_text suggestionId @ ''.'')"

definition onSkip :: "sugg \<Rightarrow> suggestions_page \<Rightarrow> suggestions_page \<times> string" where
  "onSkip s p =
     (removeSuggestion (sg_id s) p, ''Suggestion '' @ js_text (sg_id s) @ '' successfully skipped.'')"

text \<open>The pollers of a deleted experiment are never made, and stopping them raises.\<close>

definition suggestion_pollers :: "bool \<Rightarrow> string list option" where
  "suggestion_pollers deleted =
     (if deleted then None else Some [''experiment'', ''suggestions'', ''queuedSuggestions''])"

definition page_componentWillUnmount :: "bool \<Rightarrow> js_error + string list" where
  "page_componentWillUnmount deleted =
     (case suggestion_pollers deleted of None \<Rightarrow> Inl TypeError | Some stopped \<Rightarrow> Inr stopped)"

definition showParallelBandwidthAlert :: "jsval \<Rightarrow> suggestions_page \<Rightarrow> bool" where
  "showParallelBandwidthAlert parallel_bandwidth p \<longleftrightarrow>
     \<not> truthy parallel_bandwidth \<and>
     1 < length (case sp_suggestions p of None \<Rightarrow> [] | Some l \<Rightarrow> l)"

text \<open>A poller hands over its data only when they differ from the last it has got.\<close>

record polled_page =
  pp_page :: suggestions_page
  pp_lastSuggestions :: "sugg list option"
  pp_lastQueued :: "sugg list option"

definition polled_page_init :: polled_page where
  "polled_page_init =
     \<lparr>pp_page = suggestions_page_init, pp_lastSuggestions = None, pp_lastQueued = None\<rparr>"

definition poll_suggestions :: "sugg list \<Rightarrow> polled_page \<Rightarrow> polled_page" where
  "poll_suggestions data s =
     (if pp_lastSuggestions s = Some data then s
      else s\<lparr>pp_page := (pp_page s)\<lparr>sp_suggestions := Some data\<rparr>, pp_lastSuggestions := Some data\<rparr>)"

definition poll_queued :: "sugg list \<Rightarrow> polled_page \<Rightarrow> polled_page" where
  "poll_queued data s =
     (if pp_lastQueued s = Some data then s
      else s\<lparr>pp_page := (pp_page s)\<lparr>sp_queued := Some data\<rparr>, pp_lastQueued := Some data\<rparr>)"

subsection \<open>The page beside the API\<close>

text \<open>
  The API lists open and queued suggestions with the newest first, and a new suggestion takes the oldest of the
  queued ones. What the user does is sent and answered before the next thing happens.
\<close>

record sugg_api =
  sa_open :: "sugg list"
  sa_queue :: "sugg list"

datatype sugg_page_action =
    CreateSuggestion sugg
  | ReportObservation jsval
  | DeleteSuggestion jsval
  | QueueSuggestion sugg
  | DeleteQueued jsval
  | PollSuggestions
  | PollQueued

definition api_action :: "sugg_page_action \<Rightarrow> sugg_api \<Rightarrow> sugg_api" where
  "api_action a api =
     (case a of
        CreateSuggestion s \<Rightarrow> api\<lparr>sa_open := s # sa_open api, sa_queue := butlast (sa_queue api)\<rparr>
      | ReportObservation i \<Rightarrow> api\<lparr>sa_open := filter (\<lambda>s. sg_id s \<noteq> i) (sa_open api)\<rparr>
      | DeleteSuggestion i \<Rightarrow> api\<lparr>sa_open := filter (\<lambda>s. sg_id s \<noteq> i) (sa_open api)\<rparr>
      | QueueSuggestion s \<Rightarrow> api\<lparr>sa_queue := s # sa_queue api\<rparr>
      | DeleteQueued i \<Rightarrow> api\<lparr>sa_queue := filter (\<lambda>s. sg_id s \<noteq> i) (sa_queue api)\<rparr>
      | _ \<Rightarrow> api)"

definition sugg_page_action :: "sugg_page_action \<Rightarrow> sugg_api \<Rightarrow> polled_page \<Rightarrow> polled_page" where
  "sugg_page_action a api s =
     (case a of
        CreateSuggestion sg \<Rightarrow> s\<lparr>pp_page := fst (onCreateSuggestion sg (pp_page s))\<rparr>
      | ReportObservation i \<Rightarrow> s\<lparr>pp_page := fst (onCreateObservation i (pp_page s))\<rparr>
      | DeleteSuggestion i \<Rightarrow> s\<lparr>pp_page := removeSuggestion i (pp_page s)\<rparr>
      | QueueSuggestion sg \<Rightarrow> s\<lparr>pp_page := addQueuedSuggestion sg (pp_page s)\<rparr>
      | DeleteQueued i \<Rightarrow> s\<lparr>pp_page := removeQueuedSuggestion i (pp_page s)\<rparr>
      | PollSuggestions \<Rightarrow> poll_suggestions (sa_open api) s
      | PollQueued \<Rightarrow> poll_queued (sa_queue api) s)"

fun page_session :: "sugg_page_action list \<Rightarrow> sugg_api \<times> polled_page \<Rightarrow> sugg_api \<times> polled_page" where
  "page_session [] w = w"
| "page_session (a # as) (api, s) = page_session as (api_action a api, sugg_page_action a (api_action a api) s)"

text \<open>New suggestions have ids of their own.\<close>

fun fresh_ids :: "sugg_page_action list \<Rightarrow> jsval set \<Rightarrow> bool" where
  "fresh_ids [] used = True"
| "fresh_ids (a # as) used =
     (case a of
        CreateSuggestion s \<Rightarrow> sg_id s \<notin> used \<and> fresh_ids as (insert (sg_id s) used)
      | QueueSuggestion s \<Rightarrow> sg_id s \<notin> used \<and> fresh_ids as (insert (sg_id s) used)
      | _ \<Rightarrow> fresh_ids as used)"

definition loaded_page :: "sugg_api \<Rightarrow> polled_page" where
  "loaded_page api = poll_queued (sa_queue api) (poll_suggestions (sa_open api) polled_page_init)"

definition api_ids :: "sugg_api \<Rightarrow> jsval set" where
  "api_ids api = sg_id ` (set (sa_open api) \<union> set (sa_queue api))"

text \<open>At most one suggestion is queued whenever a suggestion is created.\<close>

fun created_with_one_queued :: "sugg_page_action list \<Rightarrow> sugg_api \<Rightarrow> bool" where
  "created_with_one_queued [] api = True"
| "created_with_one_queued (a # as) api =
     ((case a of CreateSuggestion s \<Rightarrow> length (sa_queue api) \<le> 1 | _ \<Rightarrow> True) \<and>
      created_with_one_queued as (api_action a api))"

definition page_matches :: "sugg_api \<Rightarrow> polled_page \<Rightarrow> bool" where
  "page_matches api s \<longleftrightarrow>
     sp_suggestions (pp_page s) = Some (sa_open api) \<and>
     (\<exists>q. sp_queued (pp_page s) = Some q \<and> mset q = mset (sa_queue api))"

definition api_ok :: "jsval set \<Rightarrow> sugg_api \<Rightarrow> bool" where
  "api_ok used api \<longleftrightarrow>
     distinct (map sg_id (sa_open api)) \<and> distinct (map sg_id (sa_queue api)) \<and> api_ids api \<subseteq> used"

lemma filter_absent: "i \<notin> sg_id ` set ss \<Longrightarrow> filter (\<lambda>s. sg_id s \<noteq> i) ss = ss"
  by (induction ss) auto

lemma mset_same_ids: "mset q = mset Q \<Longrightarrow> sg_id ` set q = sg_id ` set Q"
  by (metis set_mset_mset)

lemma mset_short: "mset q = mset Q \<Longrightarrow> length Q \<le> 1 \<Longrightarrow> q = Q"
  by (cases Q) auto

definition action_fresh :: "sugg_page_action \<Rightarrow> jsval set \<Rightarrow> bool" where
  "action_fresh a used =
     (case a of CreateSuggestion s \<Rightarrow> sg_id s \<notin> used | QueueSuggestion s \<Rightarrow> sg_id s \<notin> used | _ \<Rightarrow> True)"

definition action_ids :: "sugg_page_action \<Rightarrow> jsval set" where
  "action_ids a = (case a of CreateSuggestion s \<Rightarrow> {sg_id s} | QueueSuggestion s \<Rightarrow> {sg_id s} | _ \<Rightarrow> {})"

lemma fresh_ids_Cons: "fresh_ids (a # as) used \<longleftrightarrow> action_fresh a used \<and> fresh_ids as (action_ids a \<union> used)"
  by (cases a) (simp_all add: action_fresh_def action_ids_def)

lemma api_action_ok:
  "api_ok used api \<Longrightarrow> action_fresh a used \<Longrightarrow> api_ok (action_ids a \<union> used) (api_action a api)"
  by (cases a)
    (auto simp: api_ok_def api_action_def api_ids_def action_fresh_def action_ids_def distinct_map distinct_butlast
      dest: in_set_butlastD intro: inj_on_subset)

lemma page_action_matches:
  assumes ok: "api_ok used api" and fresh: "action_fresh a used" and m: "page_matches api s"
    and one: "case a of CreateSuggestion s \<Rightarrow> length (sa_queue api) \<le> 1 | _ \<Rightarrow> True"
  shows "page_matches (api_action a api) (sugg_page_action a (api_action a api) s)"
proof -
  obtain q where q: "sp_suggestions (pp_page s) = Some (sa_open api)" "sp_queued (pp_page s) = Some q"
    "mset q = mset (sa_queue api)" using m by (auto simp: page_matches_def)
  have absent: "i \<notin> sg_id ` set (sa_open api)" "i \<notin> sg_id ` set q" if "i \<notin> used" for i
    using that ok mset_same_ids [OF q(3)] by (auto simp: api_ok_def api_ids_def)
  show ?thesis
  proof (cases a)
    case (CreateSuggestion sg)
    have "q = sa_queue api" using mset_short [OF q(3)] one CreateSuggestion by simp
    then show ?thesis
      using CreateSuggestion fresh one q absent(1) [of "sg_id sg"]
      by (cases "sa_queue api") (simp_all add: page_matches_def sugg_page_action_def api_action_def onCreateSuggestion_def
          addSuggestion_def removeQueuedSuggestion_def reject_id_def filter_absent action_fresh_def)
  next
    case (QueueSuggestion sg)
    then show ?thesis
      using fresh q absent(2) [of "sg_id sg"]
      by (simp add: page_matches_def sugg_page_action_def api_action_def addQueuedSuggestion_def reject_id_def
          filter_absent action_fresh_def)
  qed (use q in \<open>simp_all add: page_matches_def sugg_page_action_def api_action_def onCreateObservation_def
      removeSuggestion_def removeQueuedSuggestion_def reject_id_def poll_suggestions_def poll_queued_def\<close>)
qed

lemma session_matches:
  "api_ok used api \<Longrightarrow> fresh_ids as used \<Longrightarrow> created_with_one_queued as api \<Longrightarrow> page_matches api s \<Longrightarrow>
   page_session as (api, s) = (api', s') \<Longrightarrow> page_matches api' s'"
proof (induction as arbitrary: used api s)
  case (Cons a as)
  have fresh: "action_fresh a used" "fresh_ids as (action_ids a \<union> used)"
    using Cons.prems(2) unfolding fresh_ids_Cons by simp_all
  show ?case
  proof (rule Cons.IH)
    show "api_ok (action_ids a \<union> used) (api_action a api)" using Cons.prems(1) fresh(1) by (rule api_action_ok)
    show "page_matches (api_action a api) (sugg_page_action a (api_action a api) s)"
      using Cons.prems fresh(1) by (intro page_action_matches) simp_all
  qed (use Cons.prems fresh in simp_all)
qed simp

text \<open>C35: the page of suggestions refines the lists of the API: after any creating, reporting, deleting,
  queueing and polling by its user it shows the open suggestions in their order and the queued ones, if a
  suggestion is only created while at most one is queued.\<close>

theorem suggestions_page_refines:
  assumes "distinct (map sg_id (sa_open api))" "distinct (map sg_id (sa_queue api))"
    and "fresh_ids as (api_ids api)" "created_with_one_queued as api"
    and "page_session as (api, loaded_page api) = (api', s)"
  shows "sp_suggestions (pp_page s) = Some (sa_open api') \<and>
    (\<exists>q. sp_queued (pp_page s) = Some q \<and> mset q = mset (sa_queue api'))"
proof -
  have "api_ok (api_ids api) api" using assms(1,2) by (simp add: api_ok_def)
  moreover have "page_matches api (loaded_page api)"
    by (simp add: page_matches_def loaded_page_def poll_suggestions_def poll_queued_def polled_page_init_def)
  ultimately have "page_matches api' s" using session_matches assms(3-5) by blast
  then show ?thesis by (simp add: page_matches_def)
qed

definition sugg_named :: "string \<Rightarrow> sugg" where
  "sugg_named i = \<lparr>sg_id = JStr i, sg_assignments = []\<rparr>"

definition sugg_actions :: "sugg_page_action list" where
  "sugg_actions =
     [CreateSuggestion (sugg_named ''3''), QueueSuggestion (sugg_named ''4''), PollQueued,
      ReportObservation (JStr ''1''), QueueSuggestion (sugg_named ''5''), PollSuggestions,
      DeleteQueued (JStr ''4''), CreateSuggestion (sugg_named ''6''), DeleteSuggestion (JStr ''3'')]"

definition sugg_start :: sugg_api where
  "sugg_start = \<lparr>sa_open = [sugg_named ''1''], sa_queue = [sugg_named ''2'']\<rparr>"

lemma suggestions_page_refines_witness:
  "\<exists>q. sp_suggestions (pp_page (snd (page_session sugg_actions (sugg_start, loaded_page sugg_start)))) =
      Some (sa_open (fst (page_session sugg_actions (sugg_start, loaded_page sugg_start)))) \<and>
    sp_queued (pp_page (snd (page_session sugg_actions (sugg_start, loaded_page sugg_start)))) = Some q \<and>
    mset q = mset (sa_queue (fst (page_session sugg_actions (sugg_start, loaded_page sugg_start))))"
proof -
  obtain api' s where r: "page_session sugg_actions (sugg_start, loaded_page sugg_start) = (api', s)" by fastforce
  have "distinct (map sg_id (sa_open sugg_start))" "distinct (map sg_id (sa_queue sugg_start))"
    "fresh_ids sugg_actions (api_ids sugg_start)" "created_with_one_queued sugg_actions sugg_start"
    by (simp_all add: sugg_start_def sugg_actions_def sugg_named_def api_ids_def api_action_def)
  from suggestions_page_refines [OF this r] show ?thesis by (simp add: r)
qed

text \<open>
  With two queued suggestions the page removes the newest, while the API takes the oldest. A suggestion that
  was created here and is closed by another client stays on the page when the poller gets the list it got before.
\<close>

lemma wrong_queued_suggestion_removed:
  assumes "sa_queue api = [sugg_named ''5'', sugg_named ''4'']"
  shows "sp_queued (pp_page (snd (page_session [CreateSuggestion s] (api, loaded_page api)))) = Some [sugg_named ''4'']"
    "sa_queue (fst (page_session [CreateSuggestion s] (api, loaded_page api))) = [sugg_named ''5'']"
  using assms by (simp_all add: loaded_page_def poll_suggestions_def poll_queued_def polled_page_init_def
      suggestions_page_init_def sugg_page_action_def api_action_def onCreateSuggestion_def addSuggestion_def
      removeQueuedSuggestion_def reject_id_def sugg_named_def)

lemma closed_suggestion_stays:
  assumes "sg_id s \<notin> sg_id ` set (sa_open api)"
    and "page_session [CreateSuggestion s] (api, loaded_page api) = (api1, s1)"
  shows "sp_suggestions (pp_page (((poll_suggestions (sa_open api)) ^^ n) s1)) = Some (s # sa_open api)"
proof -
  have s1: "pp_lastSuggestions s1 = Some (sa_open api)" "sp_suggestions (pp_page s1) = Some (s # sa_open api)"
    using assms by (auto simp: loaded_page_def poll_suggestions_def poll_queued_def polled_page_init_def
      suggestions_page_init_def sugg_page_action_def api_action_def onCreateSuggestion_def addSuggestion_def
      removeQueuedSuggestion_def reject_id_def filter_absent split: list.splits)
  have "((poll_suggestions (sa_open api)) ^^ n) s1 = s1"
    by (induction n) (simp_all add: poll_suggestions_def s1(1))
  then show ?thesis using s1(2) by simp
qed

lemma unmount_of_deleted_raises: "page_componentWillUnmount deleted = Inl TypeError \<longleftrightarrow> deleted"
  by (simp add: page_componentWillUnmount_def suggestion_pollers_def)

subsection \<open>The modal of a suggestion: suggestion/modal.js\<close>

record reported =
  ro_id :: jsval
  ro_suggestion :: jsval

record suggestion_modal =
  sm_failureInput :: jsval
  sm_observation :: "reported option"
  sm_reporting :: bool
  sm_submitting :: bool
  sm_suggestion :: "sugg option"
  sm_valuesInput :: "measurement list"

definition suggestion_modal_init :: suggestion_modal where
  "suggestion_modal_init =
     \<lparr>sm_failureInput = JUndef, sm_observation = None, sm_reporting = False, sm_submitting = False,
      sm_suggestion = None, sm_valuesInput = []\<rparr>"

definition extractStateFromSuggestion :: "sigopt_experiment \<Rightarrow> sugg option \<Rightarrow> suggestion_modal" where
  "extractStateFromSuggestion e s =
     \<lparr>sm_failureInput = JBool False, sm_observation = None, sm_reporting = False, sm_submitting = False,
      sm_suggestion = s, sm_valuesInput = getInitialValues e\<rparr>"

definition extractStateFromReported :: "reported \<Rightarrow> suggestion_modal \<Rightarrow> suggestion_modal" where
  "extractStateFromReported ob m = m\<lparr>sm_observation := Some ob, sm_reporting := False, sm_submitting := False\<rparr>"

definition modal_getObservationInput :: "suggestion_modal \<Rightarrow> observation" where
  "modal_getObservationInput m =
     \<lparr>ob_assignments = map_option sg_assignments (sm_suggestion m),
      ob_suggestion = (case sm_suggestion m of None \<Rightarrow> JNull | Some s \<Rightarrow> sg_id s),
      ob_failed = sm_failureInput m, ob_values = sm_valuesInput m\<rparr>"

text \<open>A click shows an alert and sends nothing, or sends what was typed and blocks the buttons.\<close>

datatype modal_request = SendObservation sanitized_observation | SendDeletion jsval

definition reportObservation ::
  "string \<Rightarrow> sigopt_experiment \<Rightarrow> suggestion_modal \<Rightarrow> js_error + suggestion_modal \<times> string option \<times> modal_request option" where
  "reportObservation windowName e m =
     (case sanitizeObservation e ((modal_getObservationInput m)\<lparr>ob_assignments := None\<rparr>) None of
        Inl err \<Rightarrow> Inl err
      | Inr ob \<Rightarrow>
          (case validateObservationInput windowName e ob of
             Inl err \<Rightarrow> Inl err
           | Inr (Some msg) \<Rightarrow> Inr (m, Some msg, None)
           | Inr None \<Rightarrow> Inr (m\<lparr>sm_submitting := True\<rparr>, None, Some (SendObservation ob))))"

definition deleteSuggestion :: "suggestion_modal \<Rightarrow> js_error + suggestion_modal \<times> modal_request option" where
  "deleteSuggestion m =
     (case sm_suggestion m of
        None \<Rightarrow> Inl TypeError
      | Some s \<Rightarrow> Inr (m\<lparr>sm_submitting := True\<rparr>, Some (SendDeletion (sg_id s))))"

text \<open>The answers: a reported observation is shown, a refusal only gives the buttons back.\<close>

definition observation_answered :: "reported option \<Rightarrow> suggestion_modal \<Rightarrow> suggestion_modal" where
  "observation_answered answer m =
     (case answer of None \<Rightarrow> m | Some ob \<Rightarrow> extractStateFromReported ob m)\<lparr>sm_submitting := False\<rparr>"

definition deletion_answered :: "bool \<Rightarrow> suggestion_modal \<Rightarrow> suggestion_modal" where
  "deletion_answered accepted m = (if accepted then m else m\<lparr>sm_submitting := False\<rparr>)"

text \<open>The buttons, as they are shown and enabled.\<close>

definition can_delete :: "bool \<Rightarrow> suggestion_modal \<Rightarrow> bool" where
  "can_delete canEdit m \<longleftrightarrow> sm_observation m = None \<and> canEdit \<and> \<not> sm_submitting m"

definition can_start :: "bool \<Rightarrow> suggestion_modal \<Rightarrow> bool" where
  "can_start canEdit m \<longleftrightarrow> \<not> sm_reporting m \<and> sm_observation m = None \<and> canEdit \<and> \<not> sm_submitting m"

definition can_report :: "suggestion_modal \<Rightarrow> bool" where
  "can_report m \<longleftrightarrow> sm_reporting m \<and> \<not> sm_submitting m"

definition modal_cancel :: "sigopt_experiment \<Rightarrow> suggestion_modal \<Rightarrow> suggestion_modal" where
  "modal_cancel e m = extractStateFromSuggestion e (sm_suggestion m)"

definition onMetricsChange :: "measurement list \<Rightarrow> jsval \<Rightarrow> suggestion_modal \<Rightarrow> suggestion_modal" where
  "onMetricsChange vs failed m = m\<lparr>sm_failureInput := failed, sm_valuesInput := vs\<rparr>"

text \<open>
  The modal with the requests under way, and what the API has accepted since the modal was last shown. The page
  shows the modal for a suggestion when its user selects one, also while a request is under way.
  \<open>mw_interrupted\<close> is no state of the code: whether a request was under way when the modal was last shown.
\<close>

record report_world =
  mw_modal :: suggestion_modal
  mw_outstanding :: "modal_request list"
  mw_accepted :: "modal_request list"
  mw_interrupted :: bool

text \<open>The API reports an observation for the suggestion it was sent for.\<close>

inductive report_step :: "string \<Rightarrow> sigopt_experiment \<Rightarrow> bool \<Rightarrow> report_world \<Rightarrow> report_world \<Rightarrow> bool"
  for windowName e canEdit where
  shows_suggestion:
    "truthy (sg_id s) \<Longrightarrow>
     report_step windowName e canEdit w
       (w\<lparr>mw_modal := extractStateFromSuggestion e (Some s), mw_accepted := [],
          mw_interrupted := (mw_outstanding w \<noteq> [])\<rparr>)"
| starts_reporting:
    "can_start canEdit (mw_modal w) \<Longrightarrow>
     report_step windowName e canEdit w (w\<lparr>mw_modal := (mw_modal w)\<lparr>sm_reporting := True\<rparr>\<rparr>)"
| cancels_reporting:
    "can_report (mw_modal w) \<Longrightarrow>
     report_step windowName e canEdit w (w\<lparr>mw_modal := modal_cancel e (mw_modal w)\<rparr>)"
| changes_metrics:
    "report_step windowName e canEdit w (w\<lparr>mw_modal := onMetricsChange vs failed (mw_modal w)\<rparr>)"
| clicks_report:
    "can_report (mw_modal w) \<Longrightarrow> reportObservation windowName e (mw_modal w) = Inr (m, alert, sent) \<Longrightarrow>
     report_step windowName e canEdit w
       (w\<lparr>mw_modal := m, mw_outstanding := (case sent of None \<Rightarrow> [] | Some r \<Rightarrow> [r]) @ mw_outstanding w\<rparr>)"
| clicks_delete:
    "can_delete canEdit (mw_modal w) \<Longrightarrow> deleteSuggestion (mw_modal w) = Inr (m, sent) \<Longrightarrow>
     report_step windowName e canEdit w
       (w\<lparr>mw_modal := m, mw_outstanding := (case sent of None \<Rightarrow> [] | Some r \<Rightarrow> [r]) @ mw_outstanding w\<rparr>)"
| observation_accepted:
    "SendObservation ob \<in> set (mw_outstanding w) \<Longrightarrow> ro_suggestion r = so_suggestion ob \<Longrightarrow>
     report_step windowName e canEdit w
       (w\<lparr>mw_modal := observation_answered (Some r) (mw_modal w),
          mw_outstanding := remove1 (SendObservation ob) (mw_outstanding w),
          mw_accepted := SendObservation ob # mw_accepted w\<rparr>)"
| observation_refused:
    "SendObservation ob \<in> set (mw_outstanding w) \<Longrightarrow>
     report_step windowName e canEdit w
       (w\<lparr>mw_modal := observation_answered None (mw_modal w),
          mw_outstanding := remove1 (SendObservation ob) (mw_outstanding w)\<rparr>)"
| deletion_accepted:
    "SendDeletion i \<in> set (mw_outstanding w) \<Longrightarrow>
     report_step windowName e canEdit w
       (w\<lparr>mw_modal := deletion_answered True (mw_modal w),
          mw_outstanding := remove1 (SendDeletion i) (mw_outstanding w),
          mw_accepted := SendDeletion i # mw_accepted w\<rparr>)"
| deletion_refused:
    "SendDeletion i \<in> set (mw_outstanding w) \<Longrightarrow>
     report_step windowName e canEdit w
       (w\<lparr>mw_modal := deletion_answered False (mw_modal w),
          mw_outstanding := remove1 (SendDeletion i) (mw_outstanding w)\<rparr>)"

inductive modal_reachable :: "string \<Rightarrow> sigopt_experiment \<Rightarrow> bool \<Rightarrow> report_world \<Rightarrow> bool"
  for windowName e canEdit where
  modal_start:
    "truthy (sg_id s) \<Longrightarrow> modal_reachable windowName e canEdit
       \<lparr>mw_modal = extractStateFromSuggestion e (Some s), mw_outstanding = [], mw_accepted = [],
        mw_interrupted = False\<rparr>"
| modal_next:
    "modal_reachable windowName e canEdit w \<Longrightarrow> report_step windowName e canEdit w w' \<Longrightarrow>
     modal_reachable windowName e canEdit w'"

inductive_cases modal_stepE: "report_step windowName e canEdit w w'"

fun request_suggestion :: "modal_request \<Rightarrow> jsval" where
  "request_suggestion (SendObservation ob) = so_suggestion ob"
| "request_suggestion (SendDeletion i) = i"

text \<open>
  Nothing was accepted and the buttons are free; or one request is under way and they are blocked; or the
  one request was accepted, and the reported observation is shown or the buttons stay blocked.
\<close>

definition modal_inv :: "report_world \<Rightarrow> bool" where
  "modal_inv w \<longleftrightarrow>
     (\<exists>s. sm_suggestion (mw_modal w) = Some s \<and> truthy (sg_id s) \<and>
        (\<forall>r \<in> set (mw_outstanding w) \<union> set (mw_accepted w). request_suggestion r = sg_id s) \<and>
        (\<forall>r. sm_observation (mw_modal w) = Some r \<longrightarrow> ro_suggestion r = sg_id s)) \<and>
     length (mw_outstanding w) + length (mw_accepted w) \<le> 1 \<and>
     (mw_outstanding w \<noteq> [] \<longrightarrow> sm_submitting (mw_modal w) \<and> sm_observation (mw_modal w) = None) \<and>
     (mw_accepted w \<noteq> [] \<longrightarrow>
        (sm_observation (mw_modal w) \<noteq> None \<and> \<not> sm_reporting (mw_modal w)) \<or> sm_submitting (mw_modal w)) \<and>
     (sm_observation (mw_modal w) \<noteq> None \<longrightarrow> mw_accepted w \<noteq> [] \<and> \<not> sm_reporting (mw_modal w))"

lemma sent_for_suggestion:
  assumes "reportObservation windowName e m = Inr (m', alert, Some r)" "sm_suggestion m = Some s" "truthy (sg_id s)"
  shows "\<exists>ob. r = SendObservation ob \<and> so_suggestion ob = sg_id s"
  using assms by (auto simp: reportObservation_def modal_getObservationInput_def sanitizeObservation_def Let_def
      split: sum.splits option.splits)

lemma report_modal:
  assumes "reportObservation windowName e m = Inr (m', alert, sent)"
  shows "m' = (if sent = None then m else m\<lparr>sm_submitting := True\<rparr>)"
  using assms by (auto simp: reportObservation_def split: sum.splits option.splits)

lemma modal_inv_start:
  "truthy (sg_id s) \<Longrightarrow>
   modal_inv \<lparr>mw_modal = extractStateFromSuggestion e (Some s), mw_outstanding = [], mw_accepted = [],
     mw_interrupted = False\<rparr>"
  by (simp add: modal_inv_def extractStateFromSuggestion_def)

lemma single_elem: "length xs + length ys \<le> 1 \<Longrightarrow> r \<in> set xs \<Longrightarrow> xs = [r] \<and> ys = []"
  by (cases xs) auto

lemma inv_one:
  assumes "modal_inv w" "r \<in> set (mw_outstanding w)"
  shows "mw_outstanding w = [r]" "mw_accepted w = []"
proof -
  have "length (mw_outstanding w) + length (mw_accepted w) \<le> 1" using assms(1) by (simp add: modal_inv_def)
  from single_elem [OF this assms(2)] show "mw_outstanding w = [r]" "mw_accepted w = []" by simp_all
qed

text \<open>A step keeps the invariant, and showing the modal with nothing under way establishes it.\<close>

lemma modal_inv_shown:
  "truthy (sg_id s) \<Longrightarrow> mw_outstanding w = [] \<Longrightarrow>
   modal_inv (w\<lparr>mw_modal := extractStateFromSuggestion e (Some s), mw_accepted := [], mw_interrupted := b\<rparr>)"
  by (simp add: modal_inv_def extractStateFromSuggestion_def)

lemma modal_inv_step:
  "report_step windowName e canEdit w w' \<Longrightarrow> modal_inv w \<Longrightarrow> \<not> mw_interrupted w' \<Longrightarrow> modal_inv w'"
proof (induction rule: report_step.induct)
  case (shows_suggestion s w)
  then show ?case by (intro modal_inv_shown) simp_all
next
  case (starts_reporting w)
  then show ?case by (auto simp: modal_inv_def can_start_def)
next
  case (cancels_reporting w)
  then show ?case by (auto simp: modal_inv_def can_report_def modal_cancel_def extractStateFromSuggestion_def)
next
  case (changes_metrics w vs failed)
  then show ?case by (simp add: modal_inv_def onMetricsChange_def)
next
  case (clicks_report w m alert sent)
  have idle: "mw_outstanding w = []" "mw_accepted w = []" "sm_observation (mw_modal w) = None"
    using clicks_report.hyps(1) clicks_report.prems(1) by (auto simp: modal_inv_def can_report_def)
  obtain s where s: "sm_suggestion (mw_modal w) = Some s" "truthy (sg_id s)"
    using clicks_report.prems(1) by (auto simp: modal_inv_def)
  show ?case
  proof (cases sent)
    case None
    then show ?thesis using report_modal [OF clicks_report.hyps(2)] clicks_report.prems(1) by simp
  next
    case (Some r)
    then have "request_suggestion r = sg_id s"
      using sent_for_suggestion clicks_report.hyps(2) s by fastforce
    then show ?thesis
      using report_modal [OF clicks_report.hyps(2)] Some idle s by (simp add: modal_inv_def)
  qed
next
  case (clicks_delete w m sent)
  have idle: "mw_outstanding w = []" "mw_accepted w = []" "sm_observation (mw_modal w) = None"
    using clicks_delete.hyps(1) clicks_delete.prems(1) by (auto simp: modal_inv_def can_delete_def)
  then show ?case
    using clicks_delete.hyps(2) clicks_delete.prems(1)
    by (auto simp: modal_inv_def deleteSuggestion_def split: option.splits)
next
  case (observation_accepted ob w r)
  have one: "mw_outstanding w = [SendObservation ob]" "mw_accepted w = []"
    using inv_one [OF observation_accepted.prems(1) observation_accepted.hyps(1)] by simp_all
  then show ?case using observation_accepted
    by (auto simp: modal_inv_def observation_answered_def extractStateFromReported_def)
next
  case (observation_refused ob w)
  have one: "mw_outstanding w = [SendObservation ob]" "mw_accepted w = []"
    using inv_one [OF observation_refused.prems(1) observation_refused.hyps] by simp_all
  then show ?case using observation_refused by (auto simp: modal_inv_def observation_answered_def)
next
  case (deletion_accepted i w)
  have one: "mw_outstanding w = [SendDeletion i]" "mw_accepted w = []"
    using inv_one [OF deletion_accepted.prems(1) deletion_accepted.hyps] by simp_all
  then show ?case using deletion_accepted by (auto simp: modal_inv_def deletion_answered_def)
next
  case (deletion_refused i w)
  have one: "mw_outstanding w = [SendDeletion i]" "mw_accepted w = []"
    using inv_one [OF deletion_refused.prems(1) deletion_refused.hyps] by simp_all
  then show ?case using deletion_refused by (auto simp: modal_inv_def deletion_answered_def)
qed

text \<open>The mark goes away only when the modal is shown with nothing under way.\<close>

lemma interrupted_until_shown:
  assumes "report_step windowName e canEdit w w'" "mw_interrupted w" "\<not> mw_interrupted w'"
  shows "modal_inv w'"
  using assms
proof cases
  case (shows_suggestion s)
  then show ?thesis using assms(3) by (simp add: modal_inv_shown)
qed simp_all

lemma modal_inv_reachable: "modal_reachable windowName e canEdit w \<Longrightarrow> \<not> mw_interrupted w \<Longrightarrow> modal_inv w"
proof (induction rule: modal_reachable.induct)
  case (modal_start s)
  then show ?case by (intro modal_inv_start)
next
  case (modal_next w w')
  then show ?case using modal_inv_step interrupted_until_shown by blast
qed

text \<open>C36: In every state the modal of a suggestion can come to, provided that no request was under way when it was last
  shown: the requests that are under way or accepted since then are at most one and are for the suggestion it
  shows, the buttons are blocked from the click on, and an observation it shows is one that was reported for its
  suggestion. (Shown again during a request, the modal takes the late answer for one to the new suggestion:
  \<open>late_answer_lands_on_other_suggestion\<close>.)\<close>

theorem suggestion_reported_once:
  assumes "modal_reachable windowName e canEdit w" "\<not> mw_interrupted w"
  shows "length (mw_outstanding w @ mw_accepted w) \<le> 1 \<and>
    (\<exists>s. sm_suggestion (mw_modal w) = Some s \<and>
      (\<forall>r \<in> set (mw_outstanding w @ mw_accepted w). request_suggestion r = sg_id s) \<and>
      (\<forall>r. sm_observation (mw_modal w) = Some r \<longrightarrow> ro_suggestion r = sg_id s)) \<and>
    (mw_outstanding w @ mw_accepted w \<noteq> [] \<longrightarrow>
      \<not> can_start canEdit (mw_modal w) \<and> \<not> can_report (mw_modal w) \<and> \<not> can_delete canEdit (mw_modal w))"
proof -
  have inv: "modal_inv w" using assms by (rule modal_inv_reachable)
  then have "mw_outstanding w @ mw_accepted w \<noteq> [] \<longrightarrow>
      \<not> can_start canEdit (mw_modal w) \<and> \<not> can_report (mw_modal w) \<and> \<not> can_delete canEdit (mw_modal w)"
    by (auto simp: modal_inv_def can_start_def can_report_def can_delete_def)
  then show ?thesis using inv unfolding modal_inv_def by auto
qed

definition one_metric :: sigopt_experiment where
  "one_metric =
     \<lparr>ex_id = JStr ''7'', ex_object = JStr ''experiment'', ex_runs_only = JBool False, ex_parameters = [],
      ex_conditionals = [],
      ex_metrics = [\<lparr>mt_name = JStr ''loss'', mt_objective = ''minimize'', mt_strategy = ''optimize'', mt_threshold = JNull\<rparr>],
      ex_num_solutions = JNull, ex_tasks = None\<rparr>"

definition reporting_modal :: suggestion_modal where
  "reporting_modal =
     onMetricsChange [\<lparr>ms_name = JStr ''loss'', ms_value = JStr ''1'', ms_value_stddev = JNull\<rparr>] (JBool False)
       ((extractStateFromSuggestion one_metric (Some (sugg_named ''1'')))\<lparr>sm_reporting := True\<rparr>)"

definition reported_world :: report_world where
  "reported_world =
     (case reportObservation ''w'' one_metric reporting_modal of
        Inr (m, alert, Some (SendObservation ob)) \<Rightarrow>
          \<lparr>mw_modal = observation_answered (Some \<lparr>ro_id = JStr ''9'', ro_suggestion = so_suggestion ob\<rparr>) m,
           mw_outstanding = [], mw_accepted = [SendObservation ob], mw_interrupted = False\<rparr>
      | _ \<Rightarrow> \<lparr>mw_modal = suggestion_modal_init, mw_outstanding = [], mw_accepted = [], mw_interrupted = False\<rparr>)"

lemma reported_world_reachable: "modal_reachable ''w'' one_metric True reported_world"
proof -
  let ?w0 = "\<lparr>mw_modal = extractStateFromSuggestion one_metric (Some (sugg_named ''1'')), mw_outstanding = [],
    mw_accepted = [], mw_interrupted = False\<rparr>"
  let ?w1 = "?w0\<lparr>mw_modal := (mw_modal ?w0)\<lparr>sm_reporting := True\<rparr>\<rparr>"
  let ?w2 = "?w1\<lparr>mw_modal := reporting_modal\<rparr>"
  have w0: "modal_reachable ''w'' one_metric True ?w0"
    by (rule modal_start) (simp add: sugg_named_def)
  have w1: "modal_reachable ''w'' one_metric True ?w1"
    by (rule modal_next [OF w0 starts_reporting]) (simp add: can_start_def extractStateFromSuggestion_def)
  have "report_step ''w'' one_metric True ?w1 ?w2"
    using changes_metrics [of "''w''" one_metric True ?w1] by (simp add: reporting_modal_def)
  then have w2: "modal_reachable ''w'' one_metric True ?w2" by (rule modal_next [OF w1])
  have "case reportObservation ''w'' one_metric reporting_modal of
      Inr (m, alert, Some (SendObservation ob)) \<Rightarrow> True | _ \<Rightarrow> False" by code_simp
  then obtain m alert y where y: "reportObservation ''w'' one_metric reporting_modal = Inr (m, alert, Some y)"
    "case y of SendObservation ob \<Rightarrow> True | _ \<Rightarrow> False"
    by (auto split: sum.splits option.splits)
  then obtain ob where r: "reportObservation ''w'' one_metric reporting_modal = Inr (m, alert, Some (SendObservation ob))"
    by (cases y) auto
  let ?w3 = "\<lparr>mw_modal = m, mw_outstanding = [SendObservation ob], mw_accepted = [], mw_interrupted = False\<rparr>"
  have "can_report (mw_modal ?w2)"
    by (simp add: can_report_def reporting_modal_def onMetricsChange_def extractStateFromSuggestion_def)
  then have "report_step ''w'' one_metric True ?w2 ?w3"
    using clicks_report [of ?w2 "''w''" one_metric m alert "Some (SendObservation ob)" True] r by simp
  then have w3: "modal_reachable ''w'' one_metric True ?w3" by (rule modal_next [OF w2])
  have "report_step ''w'' one_metric True ?w3 reported_world"
    using observation_accepted [of ob ?w3 "\<lparr>ro_id = JStr ''9'', ro_suggestion = so_suggestion ob\<rparr>" "''w''" one_metric True]
    by (simp add: reported_world_def r)
  then show ?thesis by (rule modal_next [OF w3])
qed

lemma reported_world_accepted: "mw_accepted reported_world \<noteq> []"
proof -
  have "case reportObservation ''w'' one_metric reporting_modal of
      Inr (m, alert, Some (SendObservation ob)) \<Rightarrow> True | _ \<Rightarrow> False" by code_simp
  then show ?thesis
    unfolding reported_world_def by (auto split: sum.splits option.splits modal_request.splits)
qed

lemma suggestion_reported_once_witness:
  "length (mw_outstanding reported_world @ mw_accepted reported_world) = 1 \<and>
    \<not> can_start True (mw_modal reported_world) \<and> \<not> can_report (mw_modal reported_world) \<and>
    \<not> can_delete True (mw_modal reported_world)"
proof -
  have some: "mw_outstanding reported_world @ mw_accepted reported_world \<noteq> []" using reported_world_accepted by simp
  then have "1 \<le> length (mw_outstanding reported_world @ mw_accepted reported_world)" by (simp add: Suc_le_eq)
  moreover have "\<not> mw_interrupted reported_world"
    unfolding reported_world_def by (auto split: sum.splits prod.splits option.splits modal_request.splits)
  ultimately show ?thesis using suggestion_reported_once [OF reported_world_reachable] some by linarith
qed

text \<open>
  The modal can be closed while a request is under way and shown for another suggestion. The late answer then
  shows the observation of the first one in the modal of the second.
\<close>

lemma late_answer_lands_on_other_suggestion:
  assumes "SendObservation ob \<in> set (mw_outstanding w)" "ro_suggestion r = so_suggestion ob"
    "truthy (sg_id s)" "sg_id s \<noteq> so_suggestion ob"
  shows "\<exists>w1 w2. report_step windowName e canEdit w w1 \<and> report_step windowName e canEdit w1 w2 \<and>
    sm_suggestion (mw_modal w2) = Some s \<and> sm_observation (mw_modal w2) = Some r \<and> ro_suggestion r \<noteq> sg_id s"
proof -
  let ?w1 = "w\<lparr>mw_modal := extractStateFromSuggestion e (Some s), mw_accepted := [],
    mw_interrupted := (mw_outstanding w \<noteq> [])\<rparr>"
  let ?w2 = "?w1\<lparr>mw_modal := observation_answered (Some r) (mw_modal ?w1),
    mw_outstanding := remove1 (SendObservation ob) (mw_outstanding ?w1),
    mw_accepted := SendObservation ob # mw_accepted ?w1\<rparr>"
  have "report_step windowName e canEdit w ?w1" using assms(3) by (rule shows_suggestion)
  moreover have "report_step windowName e canEdit ?w1 ?w2"
    by (rule observation_accepted) (simp_all add: assms(1,2))
  moreover have "sm_suggestion (mw_modal ?w2) = Some s" "sm_observation (mw_modal ?w2) = Some r"
    by (simp_all add: observation_answered_def extractStateFromReported_def extractStateFromSuggestion_def)
  ultimately show ?thesis using assms(2,4) by (intro exI [of _ ?w1] exI [of _ ?w2]) simp
qed

subsection \<open>The modal of a queued suggestion: queued_suggestion/modal.js\<close>

record queued_modal =
  qm_assignmentsInput :: "jsobj option"
  qm_taskInput :: "exp_task jsopt"
  qm_creating :: bool
  qm_queuedSuggestion :: "sugg option"
  qm_submitting :: bool

definition queued_modal_init :: queued_modal where
  "queued_modal_init =
     \<lparr>qm_assignmentsInput = None, qm_taskInput = Null, qm_creating = False, qm_queuedSuggestion = None,
      qm_submitting = False\<rparr>"

definition extractStateFromQueuedSuggestion :: "sigopt_experiment \<Rightarrow> sugg \<Rightarrow> queued_modal" where
  "extractStateFromQueuedSuggestion e s =
     \<lparr>qm_assignmentsInput = Some (getInitialAssignments e), qm_taskInput = getInitialTask e, qm_creating = False,
      qm_queuedSuggestion = Some s, qm_submitting = False\<rparr>"

text \<open>The modal for a new one is shown for an object without fields.\<close>

definition queued_createNew :: "sigopt_experiment \<Rightarrow> queued_modal" where
  "queued_createNew e =
     (extractStateFromQueuedSuggestion e \<lparr>sg_id = JUndef, sg_assignments = []\<rparr>)\<lparr>qm_creating := True\<rparr>"

record queued_request =
  qr_assignments :: jsobj
  qr_task :: "exp_task jsopt"

definition queued_create ::
  "string \<Rightarrow> sigopt_experiment \<Rightarrow> queued_modal \<Rightarrow> js_error + queued_modal \<times> string option \<times> queued_request option" where
  "queued_create windowName e m =
     (case sanitizeAssignments e (case qm_assignmentsInput m of None \<Rightarrow> [] | Some a \<Rightarrow> a) of
        Inl err \<Rightarrow> Inl err
      | Inr sanitizedAssignments \<Rightarrow>
          (case validateAssignmentsInput windowName e sanitizedAssignments of
             Inl err \<Rightarrow> Inl err
           | Inr (Some msg) \<Rightarrow> Inr (m, Some msg, None)
           | Inr None \<Rightarrow>
               Inr (m\<lparr>qm_submitting := True\<rparr>, None,
                    Some \<lparr>qr_assignments = sanitizedAssignments, qr_task = qm_taskInput m\<rparr>)))"

text \<open>The answer to the creation, with what the page is told, and that to the deletion.\<close>

definition queued_create_answered ::
  "sigopt_experiment \<Rightarrow> sugg option \<Rightarrow> queued_modal \<Rightarrow> queued_modal \<times> sugg option" where
  "queued_create_answered e answer m =
     ((case answer of None \<Rightarrow> m | Some s \<Rightarrow> extractStateFromQueuedSuggestion e s)\<lparr>qm_submitting := False\<rparr>, answer)"

definition queued_delete :: "queued_modal \<Rightarrow> js_error + queued_modal \<times> jsval" where
  "queued_delete m =
     (case qm_queuedSuggestion m of
        None \<Rightarrow> Inl TypeError | Some s \<Rightarrow> Inr (m\<lparr>qm_submitting := True\<rparr>, sg_id s))"

definition queued_delete_answered :: "bool \<Rightarrow> queued_modal \<Rightarrow> queued_modal \<times> sugg option" where
  "queued_delete_answered accepted m =
     (if accepted then (m, qm_queuedSuggestion m) else (m\<lparr>qm_submitting := False\<rparr>, None))"

definition queued_buttons :: "bool \<Rightarrow> queued_modal \<Rightarrow> string list" where
  "queued_buttons canEdit m =
     (if \<not> qm_creating m \<and> canEdit then [''Delete''] else []) @
     (if qm_creating m then [''Cancel'', ''Queue''] else [])"

text \<open>
  Creating a queued suggestion shows it, and deleting it then tells the page the one that was created.
\<close>

lemma queued_then_deleted:
  assumes "queued_create_answered e (Some s) m = (m1, told)" "queued_delete m1 = Inr (m2, i)"
  shows "told = Some s" "i = sg_id s" "snd (queued_delete_answered True m2) = Some s" "queued_buttons True m1 = [''Delete'']"
  using assms by (auto simp: queued_create_answered_def extractStateFromQueuedSuggestion_def queued_delete_def
      queued_delete_answered_def queued_buttons_def)

subsection \<open>The modal of an observation: experiment/observation_modal.js\<close>

record observation_modal =
  om_editing :: bool
  om_observation :: observation
  om_id :: jsval
  om_submitting :: bool
  om_suggestion :: "sugg option"
  om_assignmentsInput :: "jsobj option"
  om_failureInput :: jsval
  om_valuesInput :: "measurement list"

definition extractStateFromObservation :: "jsval \<Rightarrow> observation \<Rightarrow> observation_modal \<Rightarrow> observation_modal" where
  "extractStateFromObservation i ob m =
     \<lparr>om_editing = False, om_observation = ob, om_id = i, om_submitting = False, om_suggestion = om_suggestion m,
      om_assignmentsInput = ob_assignments ob, om_failureInput = ob_failed ob, om_valuesInput = ob_values ob\<rparr>"

definition observation_getInput :: "observation_modal \<Rightarrow> observation" where
  "observation_getInput m =
     (om_observation m)\<lparr>ob_assignments := om_assignmentsInput m, ob_failed := om_failureInput m,
                        ob_values := om_valuesInput m\<rparr>"

text \<open>Showing an observation also asks for the suggestion it has.\<close>

definition observation_show :: "jsval \<Rightarrow> observation \<Rightarrow> observation_modal \<Rightarrow> observation_modal \<times> jsval option" where
  "observation_show i ob m =
     (extractStateFromObservation i ob m, if truthy (ob_suggestion ob) then Some (ob_suggestion ob) else None)"

definition suggestion_fetched :: "sugg \<Rightarrow> observation_modal \<Rightarrow> observation_modal" where
  "suggestion_fetched s m = m\<lparr>om_suggestion := Some s\<rparr>"

definition updateObservation ::
  "string \<Rightarrow> sigopt_experiment \<Rightarrow> observation_modal \<Rightarrow>
   js_error + observation_modal \<times> string option \<times> sanitized_observation option" where
  "updateObservation windowName e m =
     (case sanitizeObservation e (observation_getInput m) (Some (om_observation m)) of
        Inl err \<Rightarrow> Inl err
      | Inr ob \<Rightarrow>
          (case validateObservationInput windowName e ob of
             Inl err \<Rightarrow> Inl err
           | Inr (Some msg) \<Rightarrow> Inr (m, Some msg, None)
           | Inr None \<Rightarrow> Inr (m\<lparr>om_submitting := True\<rparr>, None, Some ob)))"

definition update_answered :: "(jsval \<times> observation) option \<Rightarrow> observation_modal \<Rightarrow> observation_modal" where
  "update_answered answer m =
     (case answer of None \<Rightarrow> m | Some (i, ob) \<Rightarrow> extractStateFromObservation i ob m)\<lparr>om_submitting := False\<rparr>"

definition deleteObservation :: "observation_modal \<Rightarrow> observation_modal \<times> jsval" where
  "deleteObservation m = (m\<lparr>om_submitting := True\<rparr>, om_id m)"

definition delete_answered :: "bool \<Rightarrow> observation_modal \<Rightarrow> observation_modal" where
  "delete_answered accepted m = (if accepted then m else m\<lparr>om_submitting := False\<rparr>)"

definition observation_cancel :: "observation_modal \<Rightarrow> observation_modal" where
  "observation_cancel m = extractStateFromObservation (om_id m) (om_observation m) m"

definition observation_shown :: "observation_modal \<Rightarrow> observation" where
  "observation_shown m = (if om_editing m then observation_getInput m else om_observation m)"

text \<open>
  Cancelling forgets everything that was typed. An observation without a suggestion is shown with the one
  of the observation before it.
\<close>

lemma cancelled_edit_forgets:
  "observation_shown (observation_cancel (m\<lparr>om_editing := True, om_assignmentsInput := a, om_failureInput := f,
     om_valuesInput := vs\<rparr>)) = om_observation m"
  by (simp add: observation_cancel_def observation_shown_def extractStateFromObservation_def)

lemma observation_keeps_old_suggestion:
  assumes "\<not> truthy (ob_suggestion ob)"
  shows "observation_show i ob (suggestion_fetched s m) = (fst (observation_show i ob (suggestion_fetched s m)), None)"
    "om_suggestion (fst (observation_show i ob (suggestion_fetched s m))) = Some s"
  using assms by (simp_all add: observation_show_def extractStateFromObservation_def suggestion_fetched_def)

end
