(* ===== verification/ParallelChart.thy ===== *)
theory ParallelChart
  imports ChartData
begin

section \<open>Parallel coordinates: web/js/react_chart/parallel_coordinates\<close>

text \<open>
  A chart with an axis for every selected metric, parameter or entry of the metadata, and a line for every
  observation that has a value on each of them. Values that are not numbers are drawn at the positions of
  a list of texts. The order in which \<open>sortBy\<close> puts values of mixed types, the logarithm and the texts of the ticks
  are parameters. What is no finite number is \<open>undefined\<close> here: an infinite bound, of no values at all, and the
  logarithm of a number that is not positive, minus infinity or NaN.
\<close>

subsection \<open>The kinds of axes: chart_creator.js\<close>

record labelled_axis = chart_axis +
  la_label :: jsval

record ranged_parameter = exp_parameter +
  rp_min :: rat
  rp_max :: rat
  rp_log :: bool

definition getParameter :: "ranged_parameter list \<Rightarrow> jsval \<Rightarrow> ranged_parameter option" where
  "getParameter params key = List.find (\<lambda>p. JStr (pm_name p) = key) params"

definition axis_getter :: "labelled_axis \<Rightarrow> js_error + (chart_observation \<Rightarrow> jsval)" where
  "axis_getter axis = axisValueGetter (chart_axis.truncate axis)"

definition js_unique :: "'a list \<Rightarrow> 'a list" where
  "js_unique xs = rev (remdups (rev xs))"

definition axisStringOptions ::
  "(jsval list \<Rightarrow> jsval list) \<Rightarrow> sigopt_experiment \<Rightarrow> ranged_parameter list \<Rightarrow> labelled_axis \<Rightarrow>
   chart_observation list \<Rightarrow> js_error + jsval list" where
  "axisStringOptions sortBy e params axis observations =
     (if ax_type axis = ''task'' then
        Inr (map (\<lambda>t. JStr (tk_name t)) (sort_key tk_cost (case ex_tasks e of None \<Rightarrow> [] | Some ts \<Rightarrow> ts)))
      else if ax_type axis = ''parameter'' then
        (case getParameter params (ax_key axis) of
           None \<Rightarrow> Inl TypeError
         | Some p \<Rightarrow> Inr (sortBy (map JStr (pm_categorical_values p))))
      else if ax_type axis = ''metadata'' then
        (case axis_getter axis of
           Inl err \<Rightarrow> Inl err
         | Inr getter \<Rightarrow> Inr (sortBy (js_unique (map getter observations))))
      else if ax_type axis = ''conditional'' then
        (case List.find (\<lambda>c. JStr (cd_name c) = ax_key axis) (ex_conditionals e) of
           None \<Rightarrow> Inl TypeError | Some c \<Rightarrow> Inr (cd_values c))
      else Inl TypeError)"

definition isAxisNumeric ::
  "ranged_parameter list \<Rightarrow> labelled_axis \<Rightarrow> chart_observation list \<Rightarrow> js_error + bool" where
  "isAxisNumeric params axis observations =
     (if ax_type axis \<in> set metric_axis_types then Inr True
      else if ax_type axis = ''task'' \<or> ax_type axis = ''conditional'' then Inr False
      else if ax_type axis = ''metadata'' then
        (case axis_getter axis of
           Inl err \<Rightarrow> Inl err
         | Inr getter \<Rightarrow> Inr (list_all (\<lambda>ob. chart_number (getter ob) \<noteq> None) observations))
      else if ax_type axis = ''parameter'' then
        (case getParameter params (ax_key axis) of
           None \<Rightarrow> Inl TypeError | Some p \<Rightarrow> Inr (pm_categorical_values p = []))
      else Inl TypeError)"

definition chart_numbers :: "jsval list \<Rightarrow> rat list" where
  "chart_numbers vs = List.map_filter chart_number vs"

definition min_value :: "jsval list \<Rightarrow> jsval" where
  "min_value vs = (if chart_numbers vs = [] then JUndef else JNum (Min (set (chart_numbers vs))))"

definition max_value :: "jsval list \<Rightarrow> jsval" where
  "max_value vs = (if chart_numbers vs = [] then JUndef else JNum (Max (set (chart_numbers vs))))"

definition numericAxisFixedRange ::
  "ranged_parameter list \<Rightarrow> labelled_axis \<Rightarrow> chart_observation list \<Rightarrow> js_error + (jsval \<times> jsval) option" where
  "numericAxisFixedRange params axis observations =
     (if ax_type axis = ''parameter'' then
        (case getParameter params (ax_key axis) of
           None \<Rightarrow> Inl TypeError
         | Some p \<Rightarrow>
             (let parameterValues = map (\<lambda>ob. assignmentGetter ob (ax_key axis)) observations
              in Inr (Some (min_value (parameterValues @ [JNum (rp_min p)]),
                            max_value (parameterValues @ [JNum (rp_max p)])))))
      else if ax_type axis \<in> set metric_axis_types \<or> ax_type axis = ''metadata'' then Inr None
      else Inl TypeError)"

subsection \<open>The part of an axis that is selected\<close>

definition best_tenth :: "bool \<Rightarrow> jsval \<times> jsval \<Rightarrow> jsval \<times> jsval" where
  "best_tenth low rg =
     (case rg of
        (JNum a, JNum b) \<Rightarrow>
          (let rangeSize = (b - a) * 10 / 100
           in if low then (JNum a, JNum (a + rangeSize)) else (JNum (b - rangeSize), JNum b))
      | _ \<Rightarrow> (JUndef, JUndef))"

definition createMetricConstraintRange ::
  "sigopt_experiment \<Rightarrow> jsval \<times> jsval \<Rightarrow> labelled_axis \<Rightarrow> chart_observation list \<Rightarrow> chart_observation list \<Rightarrow>
   bool \<Rightarrow> js_error + jsval \<times> jsval" where
  "createMetricConstraintRange e rg axis observations bestAssignments isPareto =
     (case findMetric e (ax_key axis) of
        None \<Rightarrow> Inl TypeError
      | Some k \<Rightarrow>
          (let m = ex_metrics e ! k
           in if ax_type axis = ''constrained-metric'' then
                metricObjectiveOption m
                  [(''minimize'', (fst rg, getThreshold e (ax_key axis))),
                   (''maximize'', (getThreshold e (ax_key axis), snd rg))]
              else if isPareto then
                (case axis_getter axis of
                   Inl err \<Rightarrow> Inl err
                 | Inr getter \<Rightarrow>
                     (let observationValues = map getter observations; bestValues = map getter bestAssignments
                      in metricObjectiveOption m
                           [(''minimize'', (min_value observationValues, max_value bestValues)),
                            (''maximize'', (min_value bestValues, max_value observationValues))]))
              else metricObjectiveOption m
                     [(''minimize'', best_tenth True rg), (''maximize'', best_tenth False rg)]))"

subsection \<open>Dimensions\<close>

record pc_dimension =
  pc_label :: jsval
  pc_range :: "jsval \<times> jsval"
  pc_constraint :: "jsval \<times> jsval"
  pc_values :: "jsval list"
  pc_tickvals :: "jsval list option"
  pc_ticktext :: "jsval list option"
  pc_log :: bool

record scale_functions =
  sf_log10 :: "rat \<Rightarrow> rat"
  sf_pow10 :: "rat \<Rightarrow> rat"
  sf_toExponential :: "rat \<Rightarrow> string"

definition log_value :: "scale_functions \<Rightarrow> jsval \<Rightarrow> jsval" where
  "log_value sf v =
     (case chart_number v of None \<Rightarrow> JUndef | Some x \<Rightarrow> if 0 < x then JNum (sf_log10 sf x) else JUndef)"

definition exponential_text :: "scale_functions \<Rightarrow> jsval \<Rightarrow> jsval" where
  "exponential_text sf v = (case chart_number v of None \<Rightarrow> JUndef | Some x \<Rightarrow> JStr (sf_toExponential sf x))"

text \<open>With a bound that has no logarithm the inner ticks are NaN.\<close>

definition adjustLogScaleDimension :: "scale_functions \<Rightarrow> nat \<Rightarrow> pc_dimension \<Rightarrow> pc_dimension" where
  "adjustLogScaleDimension sf n d =
     (let a = log_value sf (fst (pc_range d)); b = log_value sf (snd (pc_range d));
          inner = map (\<lambda>i. case (a, b) of
              (JNum lo, JNum hi) \<Rightarrow> Some (lo + of_nat i * ((hi - lo) / of_nat n)) | _ \<Rightarrow> None) [1..<n]
      in d\<lparr>pc_log := True, pc_values := map (log_value sf) (pc_values d), pc_range := (a, b),
           pc_constraint := (log_value sf (fst (pc_constraint d)), log_value sf (snd (pc_constraint d))),
           pc_tickvals := Some ([a, b] @ map (\<lambda>t. case t of None \<Rightarrow> JUndef | Some v \<Rightarrow> JNum v) inner),
           pc_ticktext := Some (
             map (exponential_text sf) [fst (pc_range d), snd (pc_range d)]
             @ map (\<lambda>t. case t of
                 None \<Rightarrow> JStr ''NaN'' | Some v \<Rightarrow> exponential_text sf (JNum (sf_pow10 sf v))) inner)\<rparr>)"

definition by_id :: "chart_observation list \<Rightarrow> chart_observation list" where
  "by_id observations = sort_key (\<lambda>ob. id_key (ao_id ob)) observations"

definition createNumericDimension ::
  "scale_functions \<Rightarrow> sigopt_experiment \<Rightarrow> ranged_parameter list \<Rightarrow> labelled_axis \<Rightarrow> chart_observation list \<Rightarrow>
   chart_observation list \<Rightarrow> bool \<Rightarrow> js_error + pc_dimension" where
  "createNumericDimension sf e params axis observations bestAssignments isPareto =
     (case axis_getter axis of
        Inl err \<Rightarrow> Inl err
      | Inr getter \<Rightarrow>
          (case numericAxisFixedRange params axis observations of
             Inl err \<Rightarrow> Inl err
           | Inr fixedRange \<Rightarrow>
               (let vs = map getter (by_id observations);
                    rg = (case fixedRange of Some r \<Rightarrow> r | None \<Rightarrow> (min_value vs, max_value vs))
                in case (if ax_type axis = ''optimized-metric'' \<or> ax_type axis = ''constrained-metric''
                         then createMetricConstraintRange e rg axis observations bestAssignments isPareto
                         else Inr rg) of
                     Inl err \<Rightarrow> Inl err
                   | Inr constraint \<Rightarrow>
                       (let d = \<lparr>pc_label = la_label axis, pc_range = rg, pc_constraint = constraint, pc_values = vs,
                                 pc_tickvals = None, pc_ticktext = None, pc_log = False\<rparr>
                        in Inr (case getParameter params (ax_key axis) of
                                  None \<Rightarrow> d
                                | Some p \<Rightarrow> if rp_log p then adjustLogScaleDimension sf 5 d else d)))))"

definition createStringDimension ::
  "(jsval list \<Rightarrow> jsval list) \<Rightarrow> sigopt_experiment \<Rightarrow> ranged_parameter list \<Rightarrow> labelled_axis \<Rightarrow>
   chart_observation list \<Rightarrow> js_error + pc_dimension" where
  "createStringDimension sortBy e params axis observations =
     (case axisStringOptions sortBy e params axis observations of
        Inl err \<Rightarrow> Inl err
      | Inr options \<Rightarrow>
          (case axis_getter axis of
             Inl err \<Rightarrow> Inl err
           | Inr getter \<Rightarrow>
               (let top = JNum (of_int (int (length options) - 1))
                in Inr \<lparr>pc_label = la_label axis, pc_range = (JNum 0, top), pc_constraint = (JNum 0, top),
                        pc_values = map (\<lambda>ob. case index_of (\<lambda>v. v = getter ob) options of
                            None \<Rightarrow> JUndef | Some i \<Rightarrow> JNum (of_nat i)) (by_id observations),
                        pc_tickvals = Some (map (\<lambda>i. JNum (of_nat i)) [0..<length options]),
                        pc_ticktext = Some options, pc_log = False\<rparr>)))"

definition createPlotlyDimensions ::
  "scale_functions \<Rightarrow> (jsval list \<Rightarrow> jsval list) \<Rightarrow> sigopt_experiment \<Rightarrow> ranged_parameter list \<Rightarrow>
   labelled_axis list \<Rightarrow> chart_observation list \<Rightarrow> chart_observation list \<Rightarrow> bool \<Rightarrow> js_error + pc_dimension list" where
  "createPlotlyDimensions sf sortBy e params selectedAxes observations bestAssignments isPareto =
     map_ok (\<lambda>axis.
       case isAxisNumeric params axis observations of
         Inl err \<Rightarrow> Inl err
       | Inr numeric \<Rightarrow>
           if numeric then createNumericDimension sf e params axis observations bestAssignments isPareto
           else createStringDimension sortBy e params axis observations) selectedAxes"

subsection \<open>Lines\<close>

datatype gradient = METRIC_GRADIENT | METRIC_GRADIENT_MINIMIZED

datatype plot_line =
    BasicLine
  | ParetoLine "nat list"
  | ScaleLine "jsval list" string gradient

definition createPlotlyLine ::
  "sigopt_experiment \<Rightarrow> chart_observation list \<Rightarrow> chart_observation list \<Rightarrow> bool \<Rightarrow> js_error + plot_line" where
  "createPlotlyLine e observations bestAssignments isPareto =
     (if isSearchExperiment e then Inr BasicLine
      else if isPareto then
        Inr (ParetoLine (map (\<lambda>ob. if ao_id ob \<in> set (map ao_id bestAssignments) then 1 else 0) (by_id observations)))
      else
        (let m = hd (optimizedMetrics e)
         in case metricObjectiveOption m [(''minimize'', METRIC_GRADIENT_MINIMIZED), (''maximize'', METRIC_GRADIENT)] of
              Inl err \<Rightarrow> Inl err
            | Inr scale \<Rightarrow>
                Inr (ScaleLine
                  (map (\<lambda>ob. case optimizedValues e (ob_values ob) of [] \<Rightarrow> JUndef | v # _ \<Rightarrow> v) (by_id observations))
                  (if truthy (mt_name m) then js_text (mt_name m) else ''Metric'') scale)))"

definition on_every_axis :: "(chart_observation \<Rightarrow> jsval) list \<Rightarrow> chart_observation \<Rightarrow> bool" where
  "on_every_axis getters ob = list_all (\<lambda>getter. isDefinedAndNotNull (getter ob)) getters"

definition createParallelCoordinatesChart ::
  "scale_functions \<Rightarrow> (jsval list \<Rightarrow> jsval list) \<Rightarrow> sigopt_experiment \<Rightarrow> ranged_parameter list \<Rightarrow>
   labelled_axis list \<Rightarrow> chart_observation list \<Rightarrow> chart_observation list \<Rightarrow> bool \<Rightarrow>
   js_error + pc_dimension list \<times> plot_line" where
  "createParallelCoordinatesChart sf sortBy e params selectedAxes lessBestAssignments bestAssignments paretoOnly =
     (case map_ok axis_getter selectedAxes of
        Inl err \<Rightarrow> Inl err
      | Inr getters \<Rightarrow>
          (let satisfied = filter (on_every_axis getters) (bestAssignments @ (if paretoOnly then [] else lessBestAssignments));
               isPareto = isParetoOptimizedExperiment e
           in case createPlotlyDimensions sf sortBy e params selectedAxes satisfied bestAssignments isPareto of
                Inl err \<Rightarrow> Inl err
              | Inr dims \<Rightarrow>
                  (case createPlotlyLine e satisfied bestAssignments isPareto of
                     Inl err \<Rightarrow> Inl err | Inr line \<Rightarrow> Inr (dims, line))))"

subsection \<open>What a line shows\<close>

text \<open>
  What a line is to show on an axis, said of the axis and the value alone. An axis of texts is one of tasks, of
  conditionals, of a parameter with categories, or of an entry of the metadata that is not a number everywhere. The
  texts on it are the tasks and the values of the conditional or the parameter the API lists for the experiment, and
  for the metadata whatever the observations have.
\<close>

definition text_axis ::
  "ranged_parameter list \<Rightarrow> labelled_axis \<Rightarrow> (chart_observation \<Rightarrow> jsval) \<Rightarrow> chart_observation list \<Rightarrow> bool" where
  "text_axis params axis getter obs \<longleftrightarrow>
     ax_type axis = ''task'' \<or> ax_type axis = ''conditional'' \<or>
     (ax_type axis = ''parameter'' \<and>
        (case getParameter params (ax_key axis) of None \<Rightarrow> False | Some p \<Rightarrow> pm_categorical_values p \<noteq> [])) \<or>
     (ax_type axis = ''metadata'' \<and> (\<exists>ob \<in> set obs. \<forall>x. getter ob \<noteq> JNum x))"

definition listed_text ::
  "sigopt_experiment \<Rightarrow> ranged_parameter list \<Rightarrow> labelled_axis \<Rightarrow> jsval \<Rightarrow> bool" where
  "listed_text e params axis v \<longleftrightarrow>
     (if ax_type axis = ''task'' then
        v \<in> (\<lambda>t. JStr (tk_name t)) ` set (case ex_tasks e of None \<Rightarrow> [] | Some ts \<Rightarrow> ts)
      else if ax_type axis = ''parameter'' then
        (case getParameter params (ax_key axis) of
           None \<Rightarrow> False | Some p \<Rightarrow> v \<in> JStr ` set (pm_categorical_values p))
      else if ax_type axis = ''conditional'' then
        (case List.find (\<lambda>c. JStr (cd_name c) = ax_key axis) (ex_conditionals e) of
           None \<Rightarrow> False | Some c \<Rightarrow> v \<in> set (cd_values c))
      else True)"

definition log_axis :: "ranged_parameter list \<Rightarrow> labelled_axis \<Rightarrow> bool" where
  "log_axis params axis = (case getParameter params (ax_key axis) of None \<Rightarrow> False | Some p \<Rightarrow> rp_log p)"

text \<open>
  The text of a value stands at the tick where the line crosses the axis; a text that is not listed is drawn
  nowhere. A number stands at its place within the range, or on a logarithmic axis at its logarithm, when it is
  positive.
\<close>

definition text_shown :: "pc_dimension \<Rightarrow> nat \<Rightarrow> jsval \<Rightarrow> bool" where
  "text_shown d i v \<longleftrightarrow>
     (\<exists>ticks texts j. pc_tickvals d = Some ticks \<and> pc_ticktext d = Some texts \<and> j < length texts \<and> j < length ticks \<and>
        ticks ! j = JNum (of_nat j) \<and> pc_values d ! i = JNum (of_nat j) \<and> texts ! j = v)"

definition number_shown :: "pc_dimension \<Rightarrow> nat \<Rightarrow> jsval \<Rightarrow> bool" where
  "number_shown d i v \<longleftrightarrow>
     pc_values d ! i = v \<and>
     (\<forall>x. v = JNum x \<longrightarrow> (case pc_range d of (JNum a, JNum b) \<Rightarrow> a \<le> x \<and> x \<le> b | _ \<Rightarrow> False))"

definition log_shown :: "scale_functions \<Rightarrow> pc_dimension \<Rightarrow> nat \<Rightarrow> jsval \<Rightarrow> bool" where
  "log_shown sf d i v \<longleftrightarrow>
     (\<forall>x. v = JNum x \<longrightarrow> pc_values d ! i = (if 0 < x then JNum (sf_log10 sf x) else JUndef))"

definition shows_value ::
  "scale_functions \<Rightarrow> sigopt_experiment \<Rightarrow> ranged_parameter list \<Rightarrow> labelled_axis \<Rightarrow> (chart_observation \<Rightarrow> jsval) \<Rightarrow>
   chart_observation list \<Rightarrow> pc_dimension \<Rightarrow> nat \<Rightarrow> bool" where
  "shows_value sf e params axis getter obs d i \<longleftrightarrow>
     (let v = getter (obs ! i) in
      if text_axis params axis getter obs
      then (if listed_text e params axis v then text_shown d i v else pc_values d ! i = JUndef)
      else if log_axis params axis then log_shown sf d i v
      else number_shown d i v)"

definition dimension_shows ::
  "scale_functions \<Rightarrow> sigopt_experiment \<Rightarrow> ranged_parameter list \<Rightarrow> labelled_axis \<Rightarrow> (chart_observation \<Rightarrow> jsval) \<Rightarrow>
   chart_observation list \<Rightarrow> pc_dimension \<Rightarrow> bool" where
  "dimension_shows sf e params axis getter obs d \<longleftrightarrow>
     length (pc_values d) = length obs \<and> (\<forall>i < length obs. shows_value sf e params axis getter obs d i)"

definition line_colours :: "sigopt_experiment \<Rightarrow> chart_observation list \<Rightarrow> plot_line \<Rightarrow> chart_observation list \<Rightarrow> bool" where
  "line_colours e best line obs =
     (case line of
        BasicLine \<Rightarrow> True
      | ParetoLine cs \<Rightarrow> cs = map (\<lambda>ob. if \<exists>b \<in> set best. ao_id ob = ao_id b then 1 else 0) obs
      | ScaleLine cs _ _ \<Rightarrow>
          length cs = length obs \<and>
          (\<forall>i < length obs. \<forall>v vs. optimizedValues e (ob_values (obs ! i)) = v # vs \<longrightarrow> cs ! i = v))"

lemma chart_numbers_set: "JNum x \<in> set vs \<Longrightarrow> x \<in> set (chart_numbers vs)"
  by (force simp: chart_numbers_def List.map_filter_def chart_number_iff)

lemma bounds_cover:
  assumes "JNum x \<in> set vs" "set vs \<subseteq> set us" "set vs \<subseteq> set ws"
  shows "\<exists>a b. min_value us = JNum a \<and> max_value ws = JNum b \<and> a \<le> x \<and> x \<le> b"
proof -
  have u: "x \<in> set (chart_numbers us)" "x \<in> set (chart_numbers ws)" using assms chart_numbers_set by blast+
  then have "chart_numbers us \<noteq> []" "chart_numbers ws \<noteq> []" by auto
  then show ?thesis using u by (auto simp: min_value_def max_value_def)
qed

lemma set_by_id [simp]: "set (by_id obs) = set obs" "length (by_id obs) = length obs"
  by (simp_all add: by_id_def)

lemma index_of_found: "v \<in> set vs \<Longrightarrow> \<exists>i. index_of (\<lambda>x. x = v) vs = Some i \<and> i < length vs \<and> vs ! i = v"
proof (induction vs)
  case (Cons u vs)
  then show ?case by (cases "u = v") auto
qed simp

lemma index_of_none: "v \<notin> set vs \<Longrightarrow> index_of (\<lambda>x. x = v) vs = None"
  by (induction vs) auto

lemma fixed_range_covers:
  assumes "numericAxisFixedRange params axis obs = Inr fixed" "axis_getter axis = Inr getter" "ob \<in> set obs"
    "getter ob = JNum x"
    "rg = (case fixed of Some r \<Rightarrow> r | None \<Rightarrow> (min_value (map getter (by_id obs)), max_value (map getter (by_id obs))))"
  shows "case rg of (JNum a, JNum b) \<Rightarrow> a \<le> x \<and> x \<le> b | _ \<Rightarrow> False"
proof (cases fixed)
  case None
  have "JNum x \<in> set (map getter (by_id obs))" using assms(3,4) by (force simp: image_iff)
  from bounds_cover [OF this subset_refl subset_refl] show ?thesis using None assms(5) by auto
next
  case (Some r)
  then have p: "ax_type axis = ''parameter''" using assms(1) by (auto simp: numericAxisFixedRange_def split: if_splits)
  then obtain q where gp: "getParameter params (ax_key axis) = Some q"
    using assms(1) by (auto simp: numericAxisFixedRange_def split: option.splits)
  have q: "r = (min_value (map (\<lambda>ob. assignmentGetter ob (ax_key axis)) obs @ [JNum (rp_min q)]),
      max_value (map (\<lambda>ob. assignmentGetter ob (ax_key axis)) obs @ [JNum (rp_max q)]))"
    using assms(1) Some p by (simp add: numericAxisFixedRange_def gp Let_def)
  have "getter = (\<lambda>ob. assignmentGetter ob (ax_key axis))"
    using assms(2) p by (auto simp: axis_getter_def axisValueGetter_def makeAxisGetter_def valueGetters_def
        chart_axis.defs SUPPORTED_AXIS_TYPES_def split: if_splits)
  then have "JNum x \<in> set (map (\<lambda>ob. assignmentGetter ob (ax_key axis)) obs)"
    using assms(3,4) by (force simp: image_iff)
  then have "\<exists>a b. fst r = JNum a \<and> snd r = JNum b \<and> a \<le> x \<and> x \<le> b"
    unfolding q fst_conv snd_conv by (rule bounds_cover) auto
  then show ?thesis using Some assms(5) by (cases r) auto
qed

lemma numeric_axis:
  assumes "isAxisNumeric params axis obs = Inr b" "axis_getter axis = Inr getter"
  shows "b \<longleftrightarrow> \<not> text_axis params axis getter obs"
proof -
  have "(\<exists>ob \<in> set obs. \<forall>x. getter ob \<noteq> JNum x) \<longleftrightarrow> \<not> list_all (\<lambda>ob. chart_number (getter ob) \<noteq> None) obs"
    by (force simp: list_all_iff chart_number_iff [symmetric])
  moreover have "ax_type axis \<noteq> ''metadata''" "ax_type axis \<noteq> ''parameter''" "ax_type axis \<noteq> ''task''"
    "ax_type axis \<noteq> ''conditional''" if "ax_type axis \<in> set metric_axis_types"
    using that by (auto simp: metric_axis_types_def)
  ultimately show ?thesis
    using assms by (auto simp: isAxisNumeric_def text_axis_def split: if_splits option.splits)
qed

lemma numeric_dimension_shows:
  assumes "createNumericDimension sf e params axis obs best isPareto = Inr d" "isAxisNumeric params axis obs = Inr True"
  shows "\<exists>getter. axis_getter axis = Inr getter \<and> dimension_shows sf e params axis getter (by_id obs) d"
proof -
  obtain getter where getter: "axis_getter axis = Inr getter"
    using assms by (auto simp: createNumericDimension_def split: sum.splits)
  obtain fixed where fixed: "numericAxisFixedRange params axis obs = Inr fixed"
    using assms getter by (auto simp: createNumericDimension_def split: sum.splits)
  define vs where "vs = map getter (by_id obs)"
  define rg where "rg = (case fixed of Some r \<Rightarrow> r | None \<Rightarrow> (min_value vs, max_value vs))"
  obtain constraint where d: "d = (let d0 = \<lparr>pc_label = la_label axis, pc_range = rg, pc_constraint = constraint,
        pc_values = vs, pc_tickvals = None, pc_ticktext = None, pc_log = False\<rparr>
      in case getParameter params (ax_key axis) of None \<Rightarrow> d0 | Some p \<Rightarrow> if rp_log p then adjustLogScaleDimension sf 5 d0 else d0)"
    using assms(1) getter fixed unfolding createNumericDimension_def vs_def [symmetric] rg_def [symmetric]
    by (auto simp: Let_def vs_def [symmetric] rg_def [symmetric] split: sum.splits if_splits)
  have cover: "case rg of (JNum a, JNum b) \<Rightarrow> a \<le> x \<and> x \<le> b | _ \<Rightarrow> False"
    if "i < length obs" "getter (by_id obs ! i) = JNum x" for i x
  proof -
    have "by_id obs ! i \<in> set obs" using that(1) nth_mem [of i "by_id obs"] by simp
    from fixed_range_covers [OF fixed getter this that(2) rg_def [unfolded vs_def]] show ?thesis .
  qed
  have numeric: "\<not> text_axis params axis getter (by_id obs)"
    using numeric_axis [OF assms(2) getter] by (simp add: text_axis_def)
  have log: "pc_values d = map (log_value sf) vs" if "log_axis params axis"
    using that by (auto simp: d log_axis_def Let_def adjustLogScaleDimension_def split: option.splits)
  have linear: "pc_values d = vs" "pc_range d = rg" if "\<not> log_axis params axis"
    using that by (auto simp: d log_axis_def Let_def split: option.splits)
  have "dimension_shows sf e params axis getter (by_id obs) d"
    unfolding dimension_shows_def
  proof (intro conjI allI impI)
    show "length (pc_values d) = length (by_id obs)"
      by (simp add: d vs_def Let_def adjustLogScaleDimension_def split: option.split)
    fix i assume i: "i < length (by_id obs)"
    show "shows_value sf e params axis getter (by_id obs) d i"
    proof (cases "log_axis params axis")
      case True
      then show ?thesis using i numeric
        by (simp add: shows_value_def log_shown_def log log_value_def vs_def)
    next
      case False
      then show ?thesis using i numeric cover by (simp add: shows_value_def number_shown_def linear vs_def)
    qed
  qed
  then show ?thesis using getter by blast
qed

lemma options_listed:
  assumes "axisStringOptions sortBy e params axis obs = Inr options" "axis_getter axis = Inr getter"
    and "\<And>vs. set (sortBy vs) = set vs" "ob \<in> set obs"
  shows "getter ob \<in> set options \<longleftrightarrow> listed_text e params axis (getter ob)"
  using assms by (auto simp: axisStringOptions_def listed_text_def js_unique_def split: if_splits option.splits)

lemma string_dimension_shows:
  assumes "createStringDimension sortBy e params axis obs = Inr d" "isAxisNumeric params axis obs = Inr False"
    and sortBy: "\<And>vs. set (sortBy vs) = set vs"
  shows "\<exists>getter. axis_getter axis = Inr getter \<and> dimension_shows sf e params axis getter (by_id obs) d"
proof -
  obtain options where options: "axisStringOptions sortBy e params axis obs = Inr options"
    using assms by (auto simp: createStringDimension_def split: sum.splits)
  obtain getter where getter: "axis_getter axis = Inr getter"
    using assms options by (auto simp: createStringDimension_def split: sum.splits)
  have d: "pc_values d = map (\<lambda>ob. case index_of (\<lambda>v. v = getter ob) options of
        None \<Rightarrow> JUndef | Some i \<Rightarrow> JNum (of_nat i)) (by_id obs)" "pc_ticktext d = Some options"
    "pc_tickvals d = Some (map (\<lambda>i. JNum (of_nat i)) [0..<length options])"
    using assms(1) options getter by (auto simp: createStringDimension_def Let_def)
  have texts: "text_axis params axis getter (by_id obs)"
    using numeric_axis [OF assms(2) getter] by (simp add: text_axis_def)
  have "shows_value sf e params axis getter (by_id obs) d i" if i: "i < length obs" for i
  proof -
    let ?v = "getter (by_id obs ! i)"
    have "by_id obs ! i \<in> set obs" using i nth_mem [of i "by_id obs"] by simp
    note listed = options_listed [OF options getter sortBy this]
    show ?thesis
    proof (cases "?v \<in> set options")
      case True
      then obtain j where "index_of (\<lambda>v. v = ?v) options = Some j" "j < length options" "options ! j = ?v"
        using index_of_found by fast
      then show ?thesis using texts listed True i by (simp add: shows_value_def text_shown_def d)
    next
      case False
      then have "index_of (\<lambda>v. v = ?v) options = None" by (simp add: index_of_none)
      then show ?thesis using texts listed False i by (simp add: shows_value_def d)
    qed
  qed
  then show ?thesis using getter by (auto simp: dimension_shows_def d)
qed

lemma line_colours_by_id:
  assumes "createPlotlyLine e obs best isPareto = Inr line"
  shows "line_colours e best line (by_id obs)"
  using assms by (auto simp: createPlotlyLine_def line_colours_def Let_def image_iff split: if_splits sum.splits)

lemma dimension_shows_axis:
  assumes "createPlotlyDimensions sf sortBy e params axes obs best isPareto = Inr dims" "k < length axes"
    and "\<And>vs. set (sortBy vs) = set vs"
  shows "\<exists>getter. axis_getter (axes ! k) = Inr getter \<and>
    dimension_shows sf e params (axes ! k) getter (by_id obs) (dims ! k)"
proof -
  have "list_all2 (\<lambda>axis d. (case isAxisNumeric params axis obs of
      Inl err \<Rightarrow> Inl err
    | Inr numeric \<Rightarrow>
        if numeric then createNumericDimension sf e params axis obs best isPareto
        else createStringDimension sortBy e params axis obs) = Inr d) axes dims"
    using assms(1) unfolding createPlotlyDimensions_def map_ok_each .
  from list_all2_nthD [OF this assms(2)] show ?thesis
    using numeric_dimension_shows string_dimension_shows [OF _ _ assms(3)] by (auto split: sum.splits if_splits)
qed

lemma lines_aligned:
  assumes "createParallelCoordinatesChart sf sortBy e params axes rest best paretoOnly = Inr (dims, line)"
    and getters: "map_ok axis_getter axes = Inr getters" and sortBy: "\<And>vs. set (sortBy vs) = set vs"
  shows "\<exists>obs. mset obs = mset (filter (on_every_axis getters) (best @ (if paretoOnly then [] else rest))) \<and>
    length dims = length axes \<and>
    (\<forall>k < length axes. dimension_shows sf e params (axes ! k) (getters ! k) obs (dims ! k)) \<and> line_colours e best line obs"
proof -
  let ?sat = "filter (on_every_axis getters) (best @ (if paretoOnly then [] else rest))"
  have dims: "createPlotlyDimensions sf sortBy e params axes ?sat best (isParetoOptimizedExperiment e) = Inr dims"
    and line: "createPlotlyLine e ?sat best (isParetoOptimizedExperiment e) = Inr line"
    using assms(1,2) by (auto simp: createParallelCoordinatesChart_def Let_def simp del: filter_append split: sum.splits)
  have same: "axis_getter (axes ! k) = Inr (getters ! k)" if "k < length axes" for k
    using getters that unfolding map_ok_each by (rule list_all2_nthD)
  show ?thesis
  proof (intro exI [of _ "by_id ?sat"] conjI allI impI)
    show "mset (by_id ?sat) = mset ?sat" by (simp add: by_id_def)
    show "length dims = length axes"
      using dims unfolding createPlotlyDimensions_def map_ok_each by (simp add: list_all2_lengthD)
    show "line_colours e best line (by_id ?sat)" using line by (rule line_colours_by_id)
    show "dimension_shows sf e params (axes ! k) (getters ! k) (by_id ?sat) (dims ! k)" if "k < length axes" for k
      using dimension_shows_axis [OF dims that sortBy] same [OF that] by auto
  qed
qed

text \<open>C37: a chart of parallel coordinates has a line for exactly the observations with a value on every axis, in
  one order for all axes and the colours. At the place of an observation an axis of texts has the tick with the text
  of its value - for a task, a category or a value of a conditional provided the experiment lists it; one that it no
  longer lists, as a category that was removed, is drawn at no place at all. An axis of numbers has the number,
  within its range; one with the key of a parameter with a logarithmic scale, be it the axis of a metric of that
  name, has the logarithm of the number if it is positive, and no place for it otherwise. The colour is that of the
  metric or of the best ones. \<open>sortBy\<close>, of a library, is taken to keep the values it sorts.\<close>

theorem parallel_lines_show_observations:
  assumes "createParallelCoordinatesChart sf sortBy e params axes rest best paretoOnly = Inr (dims, line)"
    and "map_ok axis_getter axes = Inr getters" and "\<And>vs. set (sortBy vs) = set vs"
  shows "\<exists>obs. mset obs = mset (filter (on_every_axis getters) (best @ (if paretoOnly then [] else rest))) \<and>
    length dims = length axes \<and>
    (\<forall>k < length axes. dimension_shows sf e params (axes ! k) (getters ! k) obs (dims ! k)) \<and> line_colours e best line obs"
  using assms by (rule lines_aligned)

text \<open>A category that the experiment does not list any more has no place on its axis.\<close>

lemma removed_category_has_no_place:
  assumes "createStringDimension sortBy e params axis obs = Inr d" "isAxisNumeric params axis obs = Inr False"
    "\<And>vs. set (sortBy vs) = set vs" "axis_getter axis = Inr getter" "i < length obs"
    "\<not> listed_text e params axis (getter (by_id obs ! i))"
  shows "pc_values d ! i = JUndef"
proof -
  have texts: "text_axis params axis getter (by_id obs)"
    using numeric_axis [OF assms(2,4)] by (simp add: text_axis_def)
  from string_dimension_shows [OF assms(1-3)] have "dimension_shows sf e params axis getter (by_id obs) d" for sf
    using assms(4) by auto
  then show ?thesis using assms(5,6) texts by (simp add: dimension_shows_def shows_value_def Let_def)
qed

definition example_scale :: scale_functions where
  "example_scale = \<lparr>sf_log10 = id, sf_pow10 = id, sf_toExponential = (\<lambda>x. ''x'')\<rparr>"

definition parallel_observation :: "string \<Rightarrow> rat \<Rightarrow> string \<Rightarrow> chart_observation" where
  "parallel_observation i loss kind =
     (drawn_observation i False loss)\<lparr>ao_metadata := Some [(''kind'', JStr kind)]\<rparr>"

definition kind_axis :: labelled_axis where
  "kind_axis = \<lparr>ax_key = JStr ''kind'', ax_type = ''metadata'', la_label = JStr ''kind''\<rparr>"

definition loss_dimension_axis :: labelled_axis where
  "loss_dimension_axis = \<lparr>ax_key = JStr ''loss'', ax_type = ''optimized-metric'', la_label = JStr ''loss''\<rparr>"

definition parallel_best :: "chart_observation list" where
  "parallel_best = [parallel_observation ''3'' 1 ''b'']"

definition parallel_rest :: "chart_observation list" where
  "parallel_rest = [parallel_observation ''1'' 4 ''a'', drawn_observation ''2'' False 3]"

lemma parallel_lines_show_observations_witness:
  "\<exists>dims line getters obs.
    createParallelCoordinatesChart example_scale id threshold_experiment [] [loss_dimension_axis, kind_axis]
      parallel_rest parallel_best False = Inr (dims, line) \<and>
    map_ok axis_getter [loss_dimension_axis, kind_axis] = Inr getters \<and>
    mset obs = mset (filter (on_every_axis getters) (parallel_best @ parallel_rest)) \<and>
    (\<forall>k < 2. dimension_shows example_scale threshold_experiment [] ([loss_dimension_axis, kind_axis] ! k) (getters ! k)
      obs (dims ! k)) \<and>
    line_colours threshold_experiment parallel_best line obs"
proof -
  have "case createParallelCoordinatesChart example_scale id threshold_experiment [] [loss_dimension_axis, kind_axis]
      parallel_rest parallel_best False of Inl e \<Rightarrow> False | Inr s \<Rightarrow> True" by code_simp
  then obtain dims line where r: "createParallelCoordinatesChart example_scale id threshold_experiment []
      [loss_dimension_axis, kind_axis] parallel_rest parallel_best False = Inr (dims, line)"
    by (auto split: sum.splits)
  then obtain getters where g: "map_ok axis_getter [loss_dimension_axis, kind_axis] = Inr getters"
    by (auto simp: createParallelCoordinatesChart_def split: sum.splits)
  have "set (id vs) = set (vs :: jsval list)" for vs by simp
  from parallel_lines_show_observations [OF r g this] obtain obs where
    "mset obs = mset (filter (on_every_axis getters) (parallel_best @ (if False then [] else parallel_rest)))"
    "\<forall>k < length [loss_dimension_axis, kind_axis]. dimension_shows example_scale threshold_experiment []
      ([loss_dimension_axis, kind_axis] ! k) (getters ! k) obs (dims ! k)"
    "line_colours threshold_experiment parallel_best line obs"
    by blast
  then show ?thesis using r g by (intro exI [of _ dims] exI [of _ line] exI [of _ getters] exI [of _ obs]) simp
qed

text \<open>The part of the only metric that is selected holds the better end of its range.\<close>

lemma best_tenth_selected:
  assumes "a \<le> b"
  shows "best_tenth True (JNum a, JNum b) = (JNum a, JNum (a + (b - a) / 10))"
    "best_tenth False (JNum a, JNum b) = (JNum (b - (b - a) / 10), JNum b)"
    "a + (b - a) / 10 \<le> b" "a \<le> b - (b - a) / 10"
  using assms by (simp_all add: best_tenth_def field_simps)

text \<open>
  The scale is looked up by the key alone: a metric with the name of a parameter with a logarithmic
  scale is drawn by its logarithm.
\<close>

lemma metric_takes_scale_of_parameter:
  assumes "createNumericDimension sf e params axis obs best isPareto = Inr d"
    and "getParameter params (ax_key axis) = Some p" "rp_log p"
  shows "pc_log d"
  using assms by (auto simp: createNumericDimension_def adjustLogScaleDimension_def Let_def split: sum.splits)

subsection \<open>The choice of axes: wrapper.js\<close>

type_synonym axis_groups = "(string \<times> labelled_axis list) list"

definition createAxis :: "jsval \<Rightarrow> jsval \<Rightarrow> string \<Rightarrow> labelled_axis" where
  "createAxis label key axisType = \<lparr>ax_key = key, ax_type = axisType, la_label = label\<rparr>"

definition metric_axes :: "metric list \<Rightarrow> string \<Rightarrow> labelled_axis list" where
  "metric_axes ms axisType =
     map (\<lambda>m. createAxis (if truthy (mt_name m) then mt_name m else JStr ''Metric'') (mt_name m) axisType) ms"

definition metadata_for_all :: "chart_observation list \<Rightarrow> string \<Rightarrow> bool" where
  "metadata_for_all observations key =
     list_all (\<lambda>ob. case ao_metadata ob of None \<Rightarrow> False | Some md \<Rightarrow> truthy (obj_get md key)) observations"

definition createAxisGroups ::
  "sigopt_experiment \<Rightarrow> chart_observation list \<Rightarrow> ranged_parameter list \<Rightarrow> string list \<Rightarrow> axis_groups" where
  "createAxisGroups e observations params metadataKeys =
     [(''Optimized Metrics'', metric_axes (optimizedMetrics e) ''optimized-metric''),
      (''Stored Metrics'', metric_axes (storedMetrics e) ''stored-metric''),
      (''Constrained Metrics'', metric_axes (constrainedMetrics e) ''constrained-metric''),
      (''Parameters'', map (\<lambda>p. createAxis (JStr (pm_name p)) (JStr (pm_name p)) ''parameter'') params),
      (''Metadata'', map (\<lambda>k. createAxis (JStr k) (JStr k) ''metadata'') (filter (metadata_for_all observations) metadataKeys)),
      (''Tasks'', (case ex_tasks e of
         None \<Rightarrow> [] | Some ts \<Rightarrow> if ts = [] then [] else [createAxis (JStr ''Tasks'') (JStr ''Tasks'') ''task'']))]
     @ (if ex_conditionals e = [] then []
        else [(''Conditionals'',
          map (\<lambda>c. createAxis (JStr (cd_name c)) (JStr (cd_name c)) ''conditional'') (ex_conditionals e))])"

record dropdown_axis =
  da_axis :: labelled_axis
  da_value :: string

text \<open>An entry of the selection: the one that selects all, or a group.\<close>

datatype dropdown_entry = SelectAll string | AxisGroup string "dropdown_axis list"

definition groupDisplayOrder :: "string \<Rightarrow> nat" where
  "groupDisplayOrder label =
     (case index_of (\<lambda>l. l = label)
        [''Optimized Metrics'', ''Constrained Metrics'', ''Stored Metrics'', ''Parameters'', ''Conditionals'', ''Tasks'',
         ''Metadata''] of None \<Rightarrow> 7 | Some i \<Rightarrow> i)"

definition dropdown_option :: "labelled_axis \<Rightarrow> dropdown_axis" where
  "dropdown_option axis = \<lparr>da_axis = axis, da_value = js_text (la_label axis) @ ax_type axis\<rparr>"

definition createDropdownOptions :: "string \<Rightarrow> axis_groups \<Rightarrow> dropdown_entry list" where
  "createDropdownOptions selectAllToken axisGroups =
     SelectAll selectAllToken #
     map (\<lambda>(label, axes). AxisGroup label (map dropdown_option axes))
       (sort_key (\<lambda>g. groupDisplayOrder (fst g)) (filter (\<lambda>g. snd g \<noteq> []) axisGroups))"

definition group_options :: "dropdown_entry list \<Rightarrow> string \<Rightarrow> dropdown_axis list option" where
  "group_options entries label =
     (case List.find (\<lambda>e. case e of AxisGroup l _ \<Rightarrow> l = label | _ \<Rightarrow> False) entries of
        Some (AxisGroup _ axes) \<Rightarrow> Some axes | _ \<Rightarrow> None)"

definition or_no_axes :: "dropdown_axis list option \<Rightarrow> dropdown_axis list" where
  "or_no_axes x = (case x of None \<Rightarrow> [] | Some axes \<Rightarrow> axes)"

text \<open>The importances are those of the first metric, if there are any, and have every parameter.\<close>

definition createDropdownDefaults ::
  "dropdown_entry list \<Rightarrow> (jsval \<Rightarrow> rat) option \<Rightarrow> nat \<Rightarrow> js_error + dropdown_axis list" where
  "createDropdownDefaults entries importances limit =
     (case group_options entries ''Parameters'' of
        None \<Rightarrow> Inl TypeError
      | Some parameters \<Rightarrow>
          Inr (take limit
            (or_no_axes (group_options entries ''Optimized Metrics'')
             @ or_no_axes (group_options entries ''Constrained Metrics'')
             @ or_no_axes (group_options entries ''Stored Metrics'')
             @ sort_key (\<lambda>p. case importances of None \<Rightarrow> 0 | Some f \<Rightarrow> - f (ax_key (da_axis p))) parameters)))"

definition entry_axes :: "dropdown_entry \<Rightarrow> dropdown_axis list" where
  "entry_axes e = (case e of SelectAll _ \<Rightarrow> [] | AxisGroup _ axes \<Rightarrow> axes)"

record parallel_state =
  ps_options :: "dropdown_entry list"
  ps_defaults :: "dropdown_axis list"
  ps_selected :: "dropdown_axis list"
  ps_paretoOnly :: bool

definition parallel_init ::
  "string \<Rightarrow> sigopt_experiment \<Rightarrow> chart_observation list \<Rightarrow> ranged_parameter list \<Rightarrow> string list \<Rightarrow>
   (jsval \<Rightarrow> rat) option \<Rightarrow> js_error + parallel_state" where
  "parallel_init token e observations params metadataKeys importances =
     (let entries = createDropdownOptions token (createAxisGroups e observations params metadataKeys)
      in case createDropdownDefaults entries importances 8 of
           Inl err \<Rightarrow> Inl err
         | Inr defaults \<Rightarrow>
             Inr \<lparr>ps_options = entries, ps_defaults = defaults, ps_selected = defaults, ps_paretoOnly = False\<rparr>)"

text \<open>The chosen entries are axes, or the entry that selects all, \<open>None\<close>.\<close>

definition handleDropdownChange :: "dropdown_axis option list \<Rightarrow> parallel_state \<Rightarrow> parallel_state" where
  "handleDropdownChange chosen s =
     s\<lparr>ps_selected :=
        (if None \<in> set chosen then concat (map entry_axes (ps_options s)) else List.map_filter id chosen)\<rparr>"

definition handleParetoCheckboxChange :: "bool \<Rightarrow> parallel_state \<Rightarrow> parallel_state" where
  "handleParetoCheckboxChange checked s = s\<lparr>ps_paretoOnly := checked\<rparr>"

definition handleResetDefaultsClick :: "parallel_state \<Rightarrow> parallel_state" where
  "handleResetDefaultsClick s = s\<lparr>ps_selected := ps_defaults s\<rparr>"

lemma group_options_in: "group_options entries label = Some axes \<Longrightarrow> AxisGroup label axes \<in> set entries"
  by (auto simp: group_options_def dest!: find_Some_iff' split: option.splits dropdown_entry.splits)

text \<open>At most eight axes are selected at first, all of them can be chosen, and selecting all adds the others.\<close>

lemma default_axes_offered:
  assumes "parallel_init token e observations params metadataKeys importances = Inr s"
  shows "length (ps_selected s) \<le> 8"
    "set (ps_selected s) \<subseteq> set (ps_selected (handleDropdownChange [None] s))"
    "handleResetDefaultsClick (handleDropdownChange chosen s) = s"
proof -
  let ?entries = "createDropdownOptions token (createAxisGroups e observations params metadataKeys)"
  obtain defaults where d: "createDropdownDefaults ?entries importances 8 = Inr defaults"
    and s: "s = \<lparr>ps_options = ?entries, ps_defaults = defaults, ps_selected = defaults, ps_paretoOnly = False\<rparr>"
    using assms by (auto simp: parallel_init_def Let_def split: sum.splits)
  have offered: "set axes \<subseteq> set (concat (map entry_axes ?entries))" if "group_options ?entries label = Some axes" for label axes
  proof -
    have "set (entry_axes (AxisGroup label axes)) \<subseteq> set (concat (map entry_axes ?entries))"
      using group_options_in [OF that] by (auto simp del: entry_axes_def)
    then show ?thesis by (simp add: entry_axes_def)
  qed
  obtain parameters where p: "group_options ?entries ''Parameters'' = Some parameters"
    using d by (auto simp: createDropdownDefaults_def split: option.splits)
  have "set (or_no_axes (group_options ?entries label)) \<subseteq> set (concat (map entry_axes ?entries))" for label
    using offered [of label] by (cases "group_options ?entries label") (simp_all add: or_no_axes_def)
  moreover have "set parameters \<subseteq> set (concat (map entry_axes ?entries))" using offered [OF p] .
  moreover have "set defaults \<subseteq> set (or_no_axes (group_options ?entries ''Optimized Metrics'')) \<union>
      set (or_no_axes (group_options ?entries ''Constrained Metrics'')) \<union>
      set (or_no_axes (group_options ?entries ''Stored Metrics'')) \<union> set parameters"
    using d p by (auto simp: createDropdownDefaults_def dest!: in_set_takeD)
  ultimately have "set defaults \<subseteq> set (concat (map entry_axes ?entries))" by blast
  then show "set (ps_selected s) \<subseteq> set (ps_selected (handleDropdownChange [None] s))"
    unfolding handleDropdownChange_def s by simp
  show "length (ps_selected s) \<le> 8" using d s by (auto simp: createDropdownDefaults_def split: option.splits)
  show "handleResetDefaultsClick (handleDropdownChange chosen s) = s"
    by (simp add: handleResetDefaultsClick_def handleDropdownChange_def s)
qed

text \<open>
  An entry of the metadata is only offered when its values are truthy: one that is zero for a single
  observation is not. An experiment without parameters has no defaults.
\<close>

lemma zero_hides_metadata:
  assumes "ob \<in> set observations" "ao_metadata ob = Some md" "obj_get md k = JNum 0"
  shows "\<not> metadata_for_all observations k"
  unfolding metadata_for_all_def list_all_iff using assms by (intro notI) (drule bspec [of _ _ ob], simp_all)

lemma no_parameters_raise:
  "parallel_init token threshold_experiment observations [] metadataKeys importances = Inl TypeError"
proof -
  have "filter (\<lambda>g. snd g \<noteq> []) (createAxisGroups threshold_experiment observations [] metadataKeys) =
      filter (\<lambda>g. snd g \<noteq> [] \<and> fst g \<noteq> ''Parameters'') (createAxisGroups threshold_experiment observations [] metadataKeys)"
    by (simp add: createAxisGroups_def)
  then have "AxisGroup ''Parameters'' axes \<notin> set (createDropdownOptions token
      (createAxisGroups threshold_experiment observations [] metadataKeys))" for axes
    by (auto simp: createDropdownOptions_def)
  then have "group_options (createDropdownOptions token
      (createAxisGroups threshold_experiment observations [] metadataKeys)) ''Parameters'' = None"
    using group_options_in by (cases "group_options (createDropdownOptions token
      (createAxisGroups threshold_experiment observations [] metadataKeys)) ''Parameters''") blast+
  then show ?thesis by (simp add: parallel_init_def createDropdownDefaults_def Let_def)
qed

end
