(* ===== verification/ObjectPages.thy ===== *)
theory ObjectPages
  imports Endpoints
begin

section \<open>The pages of experiments, runs and projects on the server: web/js/pages/\<close>

text \<open>
  The endpoints of the pages that show one object: whether the page is shown, what
  the user may do on it, and the data it is rendered with. Each is a function of the request and of the API,
  which answers a call of the promise client: a chain of resources with their ids, and the parameters. The
  parameters of a page are those that are data; the services handed to every page are left out.
\<close>

datatype page_call =
    FetchOne "(string \<times> jsval list) list" jsobj
  | FetchAll "(string \<times> jsval list) list"
  | CreateOne "(string \<times> jsval list) list" jsobj
  | DeleteOne "(string \<times> jsval list) list"

type_synonym page_api = "jsval \<Rightarrow> page_call \<Rightarrow> failure + jsval"

definition call_api :: "page_api \<Rightarrow> 'ep http_request \<Rightarrow> page_call \<Rightarrow> failure + jsval" where
  "call_api api req c = api (rq_token req) c"

text \<open>
  The configuration of the server is kept by a broker of another package: \<open>config key default\<close> stands for what its
  \<open>get\<close> answers.
\<close>

type_synonym page_config = "string \<Rightarrow> jsval \<Rightarrow> jsval"

text \<open>\<open>catch\<close> of an object that may not be seen: the page goes on without it.\<close>

definition null_when :: "int list \<Rightarrow> failure + jsval \<Rightarrow> failure + jsval" where
  "null_when codes answer =
     (case answer of
        Inr v \<Rightarrow> Inr v
      | Inl e \<Rightarrow> if status_in codes e then Inr JNull else Inl e)"

subsection \<open>Every page of an experiment: pages/experiment/server/endpoint.js\<close>

definition matched_isAi :: "jsval \<Rightarrow> bool" where
  "matched_isAi experiment =
     (js_prop experiment ''object'' = JStr ''aiexperiment'' \<or> truthy (js_prop experiment ''runs_only''))"

definition replaceFirst :: "string \<Rightarrow> string \<Rightarrow> string \<Rightarrow> string" where
  "replaceFirst text search replacement =
     (let i = indexOf text search
      in if i < 0 then text
         else take (nat i) text @ replacement @ drop (nat i + length search) text)"

definition guest_request :: "'ep http_request \<Rightarrow> jsval" where
  "guest_request req =
     js_and (rq_apiTokenDetail req) (JBool (js_prop (rq_apiTokenDetail req) ''token_type'' = JStr ''guest''))"

definition canModifyExperiment :: "jsval \<Rightarrow> jsval \<Rightarrow> jsval \<Rightarrow> jsval \<Rightarrow> bool" where
  "canModifyExperiment experiment user currentPermission guest =
     (\<not> truthy guest \<and> js_prop experiment ''state'' \<noteq> JStr ''deleted'' \<and> truthy user \<and>
      truthy currentPermission \<and> truthy (js_prop currentPermission ''can_write''))"

definition getPermissions :: "page_api \<Rightarrow> 'ep http_request \<Rightarrow> jsval \<Rightarrow> failure + jsval" where
  "getPermissions api req guest =
     (if truthy guest then Inr (JArr [])
      else call_api api req (FetchAll [(''users'', [userId (rq_login req)]), (''permissions'', [])]))"

text \<open>\<open>_.find\<close>: nothing found is \<open>undefined\<close>; a permission without a team throws.\<close>

definition current_permission :: "jsval \<Rightarrow> jsval \<Rightarrow> failure + jsval" where
  "current_permission client permissions =
     (case find_permission ''id'' client (array_items permissions) of
        Inl e \<Rightarrow> Inl (Thrown e)
      | Inr None \<Rightarrow> Inr JUndef
      | Inr (Some p) \<Rightarrow> Inr p)"

definition share_allowed :: "page_config \<Rightarrow> jsval \<Rightarrow> jsval" where
  "share_allowed config permission =
     js_and (if truthy permission then js_prop permission ''can_write'' else JBool False)
       (config ''features.shareLinks'' (JBool True))"

definition extend_params :: "jsobj \<Rightarrow> 'ep endpoint_run \<Rightarrow> 'ep endpoint_run" where
  "extend_params own run =
     (case run of
        (req, Inl e) \<Rightarrow> (req, Inl e)
      | (req, Inr (JObj ps)) \<Rightarrow> (req, Inr (JObj (obj_extend ps own)))
      | (req, Inr v) \<Rightarrow> (req, Inr (JObj own)))"

definition experiment_params :: "page_config \<Rightarrow> 'ep http_request \<Rightarrow> jsval \<Rightarrow> jsobj" where
  "experiment_params config req currentPermission =
     (let guest = guest_request req; experiment = rq_matchedExperiment req;
          gettingStarted = (if \<not> truthy guest then guest
            else if truthy (js_prop (rq_apiTokenDetail req) ''user'') then JBool False
            else js_prop (rq_apiTokenDetail req) ''all_experiments'')
      in [(''canEdit'', JBool (canModifyExperiment experiment (rq_currentUser req) currentPermission guest)),
          (''canShare'', share_allowed config currentPermission),
          (''experiment'', experiment),
          (''isAiExperiment'', if rq_isAiExperiment req then JBool True else JUndef),
          (''isGettingStarted'', gettingStarted),
          (''isGuest'', guest),
          (''loginState'', toJson (rq_login req)),
          (''path'', JStr (rq_path req)),
          (''user'', rq_currentUser req)])"

definition experiment_page ::
  "page_api \<Rightarrow> page_config \<Rightarrow> ('ep http_request \<Rightarrow> 'ep endpoint_run) \<Rightarrow> 'ep http_request \<Rightarrow> 'ep endpoint_run" where
  "experiment_page api config parse req =
     (case getPermissions api req (guest_request req) of
        Inl e \<Rightarrow> (req, Inl e)
      | Inr permissions \<Rightarrow>
          (case current_permission (clientId (rq_login req)) permissions of
             Inl e \<Rightarrow> (req, Inl e)
           | Inr permission \<Rightarrow>
               extend_params (experiment_params config req permission) (loggedin_getParams True parse req)))"

text \<open>\<open>originalUrl\<close> is the address of the request with its query.\<close>

definition experiment_getParams ::
  "page_api \<Rightarrow> page_config \<Rightarrow> string \<Rightarrow> ('ep http_request \<Rightarrow> 'ep endpoint_run) \<Rightarrow>
   'ep http_request \<Rightarrow> 'ep endpoint_run" where
  "experiment_getParams api config originalUrl parse req =
     (if nullish (rq_matchedExperiment req) then (req, Inl (Thrown TypeError))
      else if matched_isAi (rq_matchedExperiment req) \<and> 0 \<le> indexOf originalUrl ''/experiment/''
      then (req, Inl (makeRedirect (replaceFirst originalUrl ''/experiment/'' ''/aiexperiment/'') None))
      else experiment_page api config parse req)"

text \<open>
  The routes of the pages of experiments, in their order. A part of a pattern that begins with a colon fits any
  part of a path but an empty one.
\<close>

datatype experiment_endpoint =
    ViewPage | AnalysisPage | ApiPage | CopyPage | HistoryPage | HistoryDownload | InformPage | PropertiesPage
  | ReportPage | ReportFile | ResetPage | SuggestionsPage | ObservationToRun | AdminPage

definition aiExperimentRoutes :: "(string \<times> experiment_endpoint) list" where
  "aiExperimentRoutes =
     [(''/aiexperiment/:aiExperimentId'', ViewPage),
      (''/aiexperiment/:aiExperimentId/analysis'', AnalysisPage),
      (''/aiexperiment/:aiExperimentId/history'', HistoryPage),
      (''/aiexperiment/:aiExperimentId/inform'', InformPage),
      (''/aiexperiment/:aiExperimentId/properties'', PropertiesPage),
      (''/aiexperiment/:aiExperimentId/observation/:observationId/run'', ObservationToRun),
      (''/aiexperiment/:experimentId/api'', ApiPage),
      (''/aiexperiment/:experimentId/admin'', AdminPage)]"

definition coreExperimentRoutes :: "(string \<times> experiment_endpoint) list" where
  "coreExperimentRoutes =
     [(''/experiment/:experimentId'', ViewPage),
      (''/experiment/:experimentId/analysis'', AnalysisPage),
      (''/experiment/:experimentId/api'', ApiPage),
      (''/experiment/:experimentId/copy'', CopyPage),
      (''/experiment/:experimentId/history'', HistoryPage),
      (''/experiment/:experimentId/historydownload'', HistoryDownload),
      (''/experiment/:experimentId/properties'', PropertiesPage),
      (''/experiment/:experimentId/report'', ReportPage),
      (''/experiment/:experimentId/report/file'', ReportFile),
      (''/experiment/:experimentId/reset'', ResetPage),
      (''/experiment/:experimentId/suggestions'', SuggestionsPage),
      (''/experiment/:experimentId/observation/:observationId/run'', ObservationToRun),
      (''/experiment/:experimentId/admin'', AdminPage)]"

fun path_parts :: "string \<Rightarrow> string list" where
  "path_parts [] = [[]]"
| "path_parts (c # s) =
     (if c = CHR ''/'' then [] # path_parts s
      else case path_parts s of [] \<Rightarrow> [[c]] | p # ps \<Rightarrow> (c # p) # ps)"

definition part_fits :: "string \<Rightarrow> string \<Rightarrow> bool" where
  "part_fits p q = (if p \<noteq> [] \<and> hd p = CHR '':'' then q \<noteq> [] else p = q)"

definition route_of :: "(string \<times> 'a) list \<Rightarrow> string \<Rightarrow> 'a option" where
  "route_of routes path =
     map_option snd (List.find (\<lambda>r. list_all2 part_fits (path_parts (fst r)) (path_parts path)) routes)"

text \<open>What the pages fetch beside it.\<close>

definition experiment_fetchProject :: "page_api \<Rightarrow> 'ep http_request \<Rightarrow> jsval \<Rightarrow> failure + jsval" where
  "experiment_fetchProject api req experiment =
     (if truthy experiment \<and> truthy (js_prop experiment ''project'')
      then null_when [403, 404] (call_api api req
        (FetchOne [(''clients'', [js_prop experiment ''client'']), (''projects'', [js_prop experiment ''project''])] []))
      else Inr JNull)"

fun find_by_id :: "jsval \<Rightarrow> jsval list \<Rightarrow> failure + jsval" where
  "find_by_id i [] = Inr JUndef"
| "find_by_id i (v # vs) =
     (if nullish v then Inl (Thrown TypeError) else if js_prop v ''id'' = i then Inr v else find_by_id i vs)"

definition fetched_projects :: "jsval \<Rightarrow> jsval \<Rightarrow> failure + jsval" where
  "fetched_projects experiment projects =
     promise_then (find_by_id (js_prop experiment ''project'') (array_items projects))
       (\<lambda>currentProject. Inr (JObj [(''currentProject'', currentProject), (''projects'', projects)]))"

definition experiment_fetchProjects :: "page_api \<Rightarrow> 'ep http_request \<Rightarrow> jsval \<Rightarrow> failure + jsval" where
  "experiment_fetchProjects api req experiment =
     (if truthy experiment \<and> truthy (js_prop experiment ''client'') then
        promise_catch
          (promise_then (call_api api req
             (FetchAll [(''clients'', [js_prop experiment ''client'']), (''projects'', [])]))
             (fetched_projects experiment))
          (\<lambda>e. if status_in [403, 404] e
             then promise_then (experiment_fetchProject api req experiment)
               (\<lambda>currentProject. Inr (JObj [(''currentProject'', currentProject), (''projects'', JNull)]))
             else Inl e)
      else Inr (JObj [(''currentProject'', JNull), (''projects'', JArr [])]))"

definition experiment_fetchClient :: "page_api \<Rightarrow> 'ep http_request \<Rightarrow> jsval \<Rightarrow> failure + jsval" where
  "experiment_fetchClient api req client =
     (if truthy client then null_when [403, 404] (call_api api req (FetchOne [(''clients'', [client])] []))
      else Inr JNull)"

definition experiment_fetchCreator :: "page_api \<Rightarrow> 'ep http_request \<Rightarrow> jsval \<Rightarrow> failure + jsval" where
  "experiment_fetchCreator api req experiment =
     (if truthy experiment \<and> truthy (js_prop experiment ''user'')
      then null_when [403, 404] (call_api api req (FetchOne [(''users'', [js_prop experiment ''user''])] []))
      else Inr JNull)"

subsection \<open>The pages of a run: pages/training_run\<close>

text \<open>
  A page that modifies something would check the team of the object. The pages of an experiment take the
  permission for the team the user acts on, without a look at the team of the experiment; those of a run
  compare the two.
\<close>

definition canModifyRun :: "jsval \<Rightarrow> jsval \<Rightarrow> jsval \<Rightarrow> bool" where
  "canModifyRun run currentPermission guest =
     (\<not> truthy guest \<and> truthy currentPermission \<and>
      js_prop (js_prop currentPermission ''client'') ''id'' = js_prop run ''client'' \<and>
      truthy (js_prop currentPermission ''can_write''))"

definition run_getProject :: "page_api \<Rightarrow> 'ep http_request \<Rightarrow> failure + jsval" where
  "run_getProject api req =
     null_when [403, 404] (call_api api req
       (FetchOne [(''clients'', [js_prop (rq_matchedTrainingRun req) ''client'']),
          (''projects'', [js_prop (rq_matchedTrainingRun req) ''project''])] []))"

definition run_getUser :: "page_api \<Rightarrow> 'ep http_request \<Rightarrow> failure + jsval" where
  "run_getUser api req =
     null_when [403, 404] (call_api api req
       (FetchOne [(''users'', [js_prop (rq_matchedTrainingRun req) ''user''])] []))"

text \<open>\<open>_.indexBy\<close> on values of the language: an object from the text of a property to the last value with it.\<close>

fun index_by :: "string \<Rightarrow> jsval list \<Rightarrow> jsobj \<Rightarrow> js_error + jsobj" where
  "index_by key [] acc = Inr acc"
| "index_by key (v # vs) acc =
     (if nullish v then Inl TypeError else index_by key vs (AList.update (js_text (js_prop v key)) v acc))"

definition indexed :: "string \<Rightarrow> jsval \<Rightarrow> failure + jsval" where
  "indexed key vs =
     (case index_by key (array_items vs) [] of Inl e \<Rightarrow> Inl (Thrown e) | Inr ps \<Rightarrow> Inr (JObj ps))"

definition run_getTags :: "page_api \<Rightarrow> 'ep http_request \<Rightarrow> failure + jsval" where
  "run_getTags api req =
     null_when [403, 404]
       (promise_then (call_api api req
          (FetchAll [(''clients'', [js_prop (rq_matchedTrainingRun req) ''client'']), (''tags'', [])]))
          (indexed ''id''))"

definition run_params ::
  "'ep http_request \<Rightarrow> jsval list \<Rightarrow> failure + jsobj" where
  "run_params req answers =
     (let guest = guest_request req
      in promise_then (current_permission (clientId (rq_login req)) (answers ! 3))
        (\<lambda>permission. Inr
          [(''canEdit'', JBool (canModifyRun (rq_matchedTrainingRun req) permission guest)),
           (''loginState'', toJson (rq_login req)),
           (''project'', answers ! 1),
           (''showBreadcrumbs'', JBool (\<not> truthy guest)),
           (''tags'', answers ! 2),
           (''trainingRun'', rq_matchedTrainingRun req),
           (''user'', answers ! 0)]))"

definition then_extend ::
  "'ep endpoint_run \<Rightarrow> ('ep http_request \<Rightarrow> failure + jsobj) \<Rightarrow> 'ep endpoint_run" where
  "then_extend run own_params =
     (case run of
        (req, Inl e) \<Rightarrow> (req, Inl e)
      | (req, Inr v) \<Rightarrow>
          (case own_params req of Inl e \<Rightarrow> (req, Inl e) | Inr own \<Rightarrow> extend_params own (req, Inr v)))"

text \<open>The page's own parameters come first, then four calls at once; \<open>order\<close> is the one they settle in. A run
  that is not there throws where it is first read.\<close>

definition run_getParams ::
  "page_api \<Rightarrow> nat list \<Rightarrow> ('ep http_request \<Rightarrow> 'ep endpoint_run) \<Rightarrow> 'ep http_request \<Rightarrow> 'ep endpoint_run" where
  "run_getParams api order parse req =
     then_extend (loggedin_getParams True parse req)
       (\<lambda>req'. if nullish (rq_matchedTrainingRun req') then Inl (Thrown TypeError)
          else promise_then
            (promise_all order
               [run_getUser api req', run_getProject api req', run_getTags api req',
                getPermissions api req' (guest_request req')])
            (run_params req'))"

text \<open>The page of a run: its checkpoints, the last one first, and the files it names.\<close>

definition run_files :: "page_api \<Rightarrow> 'ep http_request \<Rightarrow> nat list \<Rightarrow> jsval \<Rightarrow> failure + jsval" where
  "run_files api req order run =
     promise_then
       (promise_all order
          (map (\<lambda>fileId. call_api api req (FetchOne [(''files'', [fileId])] [])) (array_items (js_prop run ''files''))))
       (\<lambda>files. Inr (JArr files))"

definition runView_parse :: "page_api \<Rightarrow> nat list \<Rightarrow> nat list \<Rightarrow> 'ep http_request \<Rightarrow> 'ep endpoint_run" where
  "runView_parse api order fileOrder req =
     (let run = rq_matchedTrainingRun req
      in if nullish run then (req, Inl (Thrown TypeError))
         else (req, promise_then
           (promise_all order
              [call_api api req (FetchAll [(''trainingRuns'', [js_prop run ''id'']), (''checkpoints'', [])]),
               run_files api req fileOrder run])
           (\<lambda>answers. Inr (JObj
              [(''checkpoints'', JArr (rev (array_items (answers ! 0)))),
               (''files'', answers ! 1),
               (''showHistogram'', JBool (\<not> truthy (guest_request req)))]))))"

subsection \<open>Every page of a project: pages/project/server/endpoint.js\<close>

definition page_fetchClient :: "page_api \<Rightarrow> 'ep http_request \<Rightarrow> jsval \<Rightarrow> failure + jsval" where
  "page_fetchClient api req client =
     (if truthy client then call_api api req (FetchOne [(''clients'', [client])] []) else Inr JNull)"

text \<open>\<open>_.find\<close> of the permission for a client that may be missing: without a client nothing is found.\<close>

definition client_permission :: "jsval \<Rightarrow> jsval \<Rightarrow> failure + jsval" where
  "client_permission client permissions =
     (if truthy client then current_permission (js_prop client ''id'') permissions else Inr JUndef)"

text \<open>\<open>tokens\<close> stands for what \<open>getApiTokens\<close> of the base class resolves to, as a list of two.\<close>

definition first_token :: "jsval \<Rightarrow> jsval" where
  "first_token tokens =
     (let apiToken = first_item (array_items tokens) in js_and apiToken (js_prop apiToken ''token''))"

definition page_tokens :: "api \<Rightarrow> 'ep http_request \<Rightarrow> failure + jsval" where
  "page_tokens tokenApi req =
     (case getApiTokens tokenApi req of Inl e \<Rightarrow> Inl e | Inr (a, d) \<Rightarrow> Inr (JArr [a, d]))"

definition project_params ::
  "page_config \<Rightarrow> 'ep http_request \<Rightarrow> jsval list \<Rightarrow> failure + jsobj" where
  "project_params config req answers =
     promise_then (client_permission (answers ! 0) (answers ! 1))
       (\<lambda>permission. Inr
          [(''apiToken'', first_token (answers ! 2)),
           (''canShare'', share_allowed config permission),
           (''client'', answers ! 0),
           (''currentPermission'', permission),
           (''currentUser'', rq_currentUser req),
           (''loginState'', toJson (rq_login req)),
           (''path'', JStr (rq_path req)),
           (''project'', rq_matchedProject req),
           (''projects'', answers ! 3)])"

definition project_getParams ::
  "page_api \<Rightarrow> api \<Rightarrow> page_config \<Rightarrow> nat list \<Rightarrow> ('ep http_request \<Rightarrow> 'ep endpoint_run) \<Rightarrow>
   'ep http_request \<Rightarrow> 'ep endpoint_run" where
  "project_getParams api tokenApi config order parse req =
     (if \<not> truthy (clientId (rq_login req)) then (req, Inl (makeRedirect ''/user/info'' None))
      else if nullish (rq_matchedProject req) then (req, Inl (Thrown TypeError))
      else case promise_then
          (promise_all order
             [page_fetchClient api req (js_prop (rq_matchedProject req) ''client''),
              call_api api req (FetchAll [(''users'', [userId (rq_login req)]), (''permissions'', [])]),
              page_tokens tokenApi req,
              call_api api req (FetchAll [(''clients'', [js_prop (rq_matchedProject req) ''client'']), (''projects'', [])])])
          (project_params config req) of
        Inl e \<Rightarrow> (req, Inl e)
      | Inr own \<Rightarrow> extend_params own (loggedin_getParams False parse req))"

subsection \<open>The tabs of an experiment: pages/experiment\<close>

text \<open>The tabs of an experiment. Each is the \<open>parseParams\<close> that \<open>experiment_getParams\<close> runs.\<close>

definition analysis_parse :: "page_api \<Rightarrow> 'ep http_request \<Rightarrow> 'ep endpoint_run" where
  "analysis_parse api req =
     (req, promise_then
        (null_when [422] (call_api api req
           (FetchAll [(''experiments'', [js_prop (rq_matchedExperiment req) ''id'']), (''metricImportances'', [])])))
        (\<lambda>metricImportances. Inr (JObj
           [(''experiment'', rq_matchedExperiment req), (''metricImportances'', metricImportances)])))"

text \<open>\<open>_.pick\<close> of the query, and \<open>_.all\<close> of what was picked.\<close>

definition pick_query :: "string list \<Rightarrow> 'ep http_request \<Rightarrow> jsobj" where
  "pick_query ks req = filter (\<lambda>p. fst p \<in> set ks) (rq_query req)"

definition language_params :: "'ep http_request \<Rightarrow> jsval" where
  "language_params req =
     (let picked = pick_query [''language''] req
      in if list_all (\<lambda>p. truthy (snd p)) picked then JObj picked else JBool False)"

definition aiApi_parse :: "'ep http_request \<Rightarrow> 'ep endpoint_run" where
  "aiApi_parse req =
     (req, Inr (JObj [(''loginState'', toJson (rq_login req)), (''pageParams'', language_params req)]))"

definition fetchClientTokens :: "page_api \<Rightarrow> 'ep http_request \<Rightarrow> jsval \<Rightarrow> failure + jsval" where
  "fetchClientTokens api req client =
     (if truthy client then call_api api req (FetchAll [(''clients'', [client]), (''tokens'', [])])
      else Inr (JArr []))"

definition own_token :: "bool \<Rightarrow> 'ep http_request \<Rightarrow> jsval \<Rightarrow> jsval" where
  "own_token development req tokens =
     (case List.find (\<lambda>t. truthy (js_prop t ''development'') = development \<and>
         js_prop t ''user'' = userId (rq_login req)) (array_items tokens) of
        None \<Rightarrow> JUndef | Some t \<Rightarrow> t)"

definition coreApi_parse :: "page_api \<Rightarrow> page_config \<Rightarrow> 'ep http_request \<Rightarrow> 'ep endpoint_run" where
  "coreApi_parse api config req =
     (req, promise_then (fetchClientTokens api req (clientId (rq_login req)))
        (\<lambda>tokens. let clientToken = own_token False req tokens in
           Inr (JObj [(''apiToken'', js_and clientToken (js_prop clientToken ''token'')),
             (''apiUrl'', config ''address.api_url'' JUndef),
             (''appUrl'', config ''address.app_url'' JUndef),
             (''loginState'', toJson (rq_login req)),
             (''pageParams'', language_params req)])))"

definition aiHistory_parse :: "page_api \<Rightarrow> nat list \<Rightarrow> 'ep http_request \<Rightarrow> 'ep endpoint_run" where
  "aiHistory_parse api order req =
     (req, promise_then
        (promise_all order
           [experiment_fetchClient api req (js_prop (rq_matchedExperiment req) ''client''),
            experiment_fetchProject api req (rq_matchedExperiment req)])
        (\<lambda>answers. Inr (JObj [(''client'', answers ! 0), (''isAiExperiment'', JBool True),
           (''loginState'', toJson (rq_login req)), (''project'', answers ! 1)])))"

definition coreHistory_parse :: "page_api \<Rightarrow> 'ep http_request \<Rightarrow> 'ep endpoint_run" where
  "coreHistory_parse api req =
     (req, promise_then (experiment_fetchClient api req (js_prop (rq_matchedExperiment req) ''client''))
        (\<lambda>client. Inr (JObj [(''client'', client), (''loginState'', toJson (rq_login req))])))"

definition aiProperties_parse :: "page_api \<Rightarrow> nat list \<Rightarrow> 'ep http_request \<Rightarrow> 'ep endpoint_run" where
  "aiProperties_parse api order req =
     (let experiment = rq_matchedExperiment req
      in (req, promise_then
        (promise_all order [experiment_fetchCreator api req experiment, experiment_fetchProjects api req experiment])
        (\<lambda>answers. Inr (JObj [(''clientId'', js_prop experiment ''client''), (''creator'', answers ! 0),
           (''currentProject'', js_prop (answers ! 1) ''currentProject''),
           (''loginState'', toJson (rq_login req)), (''projects'', js_prop (answers ! 1) ''projects'')]))))"

definition coreProperties_parse :: "page_api \<Rightarrow> 'ep http_request \<Rightarrow> 'ep endpoint_run" where
  "coreProperties_parse api req =
     (let experiment = rq_matchedExperiment req
      in (req, promise_then (experiment_fetchCreator api req experiment)
        (\<lambda>creator. Inr (JObj [(''clientId'', js_prop experiment ''client''), (''creator'', creator),
           (''loginState'', toJson (rq_login req))]))))"

text \<open>The page for administrators takes the answer about the client apart even where there is none.\<close>

definition fetchClientAndOrganization :: "page_api \<Rightarrow> 'ep http_request \<Rightarrow> jsval \<Rightarrow> failure + jsval" where
  "fetchClientAndOrganization api req client =
     (if truthy client then
        promise_then (call_api api req (FetchOne [(''clients'', [client])] []))
          (\<lambda>c. if nullish c then Inl (Thrown TypeError)
             else promise_then (call_api api req (FetchOne [(''organizations'', [js_prop c ''organization''])] []))
               (\<lambda>organization. Inr (JObj [(''client'', c), (''organization'', organization)])))
      else Inr JNull)"

definition admin_fetchUser :: "page_api \<Rightarrow> 'ep http_request \<Rightarrow> jsval \<Rightarrow> failure + jsval" where
  "admin_fetchUser api req user =
     (if truthy user then call_api api req (FetchOne [(''users'', [user])] []) else Inr JNull)"

definition experimentAdmin_parse :: "page_api \<Rightarrow> nat list \<Rightarrow> 'ep http_request \<Rightarrow> 'ep endpoint_run" where
  "experimentAdmin_parse api order req =
     (let experiment = rq_matchedExperiment req
      in (req, promise_then
        (promise_all order [fetchClientAndOrganization api req (js_prop experiment ''client''),
           admin_fetchUser api req (js_prop experiment ''user'')])
        (\<lambda>answers. if nullish (answers ! 0) then Inl (Thrown TypeError)
           else Inr (JObj [(''client'', js_prop (answers ! 0) ''client''), (''experiment'', experiment),
             (''organization'', js_prop (answers ! 0) ''organization''), (''user'', answers ! 1)]))))"

text \<open>
  Resetting deletes the observations, then the suggestions, and only for a POST; whatever happens it ends
  without a page. The calls that change something are listed in the order they are sent.
\<close>

definition reset_deletes :: "page_api \<Rightarrow> 'ep http_request \<Rightarrow> page_call list \<times> (failure + jsval)" where
  "reset_deletes api req =
     (let experiment = (''experiments'', [js_prop (rq_matchedExperiment req) ''id'']);
          observations = DeleteOne [experiment, (''observations'', [])];
          suggestions = DeleteOne [experiment, (''suggestions'', [])]
      in if rq_method req = ''POST'' then
           (case call_api api req observations of
              Inl e \<Rightarrow> ([observations], Inl e)
            | Inr _ \<Rightarrow> ([observations, suggestions], call_api api req suggestions))
         else ([], Inr JNull))"

definition reset_parse :: "page_api \<Rightarrow> 'ep http_request \<Rightarrow> page_call list \<times> 'ep endpoint_run" where
  "reset_parse api req =
     (case reset_deletes api req of
        (calls, Inl e) \<Rightarrow> (calls, req, Inl e)
      | (calls, Inr _) \<Rightarrow> (calls, req,
          Inl (makeRedirect (''/experiment/'' @ js_text (js_prop (rq_matchedExperiment req) ''id'')) None)))"

subsection \<open>An experiment of the other kind is redirected\<close>

text \<open>The address an experiment of the wrong kind is redirected to, and how often the wrong part stands in it.\<close>

definition core_part :: string where
  "core_part = ''/experiment/''"

definition ai_address :: "string \<Rightarrow> string" where
  "ai_address url = replaceFirst url core_part ''/aiexperiment/''"

fun occurrences :: "string \<Rightarrow> string \<Rightarrow> nat" where
  "occurrences search [] = (if search = [] then 1 else 0)"
| "occurrences search (c # s) = (if prefix search (c # s) then 1 else 0) + occurrences search s"

lemma replaceFirst_Cons:
  "replaceFirst (c # s) search x =
     (if prefix search (c # s) then x @ drop (length search) (c # s) else c # replaceFirst s search x)"
proof (cases "prefix search (c # s)")
  case True
  then have "indexOf (c # s) search = 0" by (simp add: indexOf.simps [of "c # s"])
  then show ?thesis using True by (simp add: replaceFirst_def)
next
  case False
  show ?thesis
  proof (cases "indexOf s search < 0")
    case True
    then have "indexOf (c # s) search = - 1" using False by (simp add: indexOf.simps [of "c # s"] Let_def)
    then show ?thesis using False True by (simp add: replaceFirst_def)
  next
    case found: False
    then obtain n where n: "indexOf s search = int n" by (metis not_less zero_le_imp_eq_int)
    then have "indexOf (c # s) search = int (Suc n)"
      using False by (simp add: indexOf.simps [of "c # s"] Let_def)
    then show ?thesis using False n by (simp add: replaceFirst_def nat_add_distrib)
  qed
qed

lemma indexOf_nonneg_Cons:
  "0 \<le> indexOf (c # s) search \<longleftrightarrow> prefix search (c # s) \<or> 0 \<le> indexOf s search"
  by (simp add: indexOf.simps [of "c # s"] Let_def)

lemma indexOf_sublist:
  assumes "0 \<le> indexOf s search"
  shows "\<exists>a b. s = a @ search @ b \<and> (\<forall>x. replaceFirst s search x = a @ x @ b)"
  using assms
proof (induction s)
  case Nil
  then have "search = []" by (simp add: indexOf.simps [of "[]"] split: if_splits)
  then show ?case by (simp add: replaceFirst_def indexOf.simps [of "[]"])
next
  case (Cons c s)
  show ?case
  proof (cases "prefix search (c # s)")
    case True
    then obtain b where b: "c # s = search @ b" by (auto simp: prefix_def)
    have "replaceFirst (c # s) search x = [] @ x @ b" for x
      unfolding replaceFirst_Cons using True by (simp add: b)
    then show ?thesis using b by (intro exI [of _ "[]"] exI [of _ b]) simp
  next
    case False
    then have "0 \<le> indexOf s search" using Cons.prems by (simp add: indexOf_nonneg_Cons)
    then obtain a b where "s = a @ search @ b" "\<forall>x. replaceFirst s search x = a @ x @ b"
      using Cons.IH by blast
    then show ?thesis using False
      by (intro exI [of _ "c # a"] exI [of _ b]) (simp add: replaceFirst_Cons)
  qed
qed

text \<open>A word that ends at its only slash is found before a slash or not at all.\<close>

lemma prefix_to_slash:
  "CHR ''/'' \<notin> set w \<Longrightarrow> prefix (w @ ''/'') (a @ CHR ''/'' # x) \<Longrightarrow> prefix (w @ ''/'') (a @ CHR ''/'' # y)"
proof (induction w arbitrary: a)
  case Nil
  then show ?case by (cases a) auto
next
  case (Cons v w)
  then show ?case by (cases a) auto
qed

lemma core_part_Cons:
  "prefix core_part (c # x) \<longleftrightarrow> c = CHR ''/'' \<and> prefix (''experiment'' @ ''/'') x"
  by (auto simp: core_part_def)

lemma ai_address_fewer:
  "0 \<le> indexOf url core_part \<Longrightarrow> occurrences core_part (ai_address url) < occurrences core_part url"
proof (induction url)
  case Nil
  then show ?case by (simp add: core_part_def indexOf.simps [of "[]"])
next
  case (Cons c s)
  show ?case
  proof (cases "prefix core_part (c # s)")
    case True
    then obtain b where b: "c # s = core_part @ b" by (auto simp: prefix_def)
    have "ai_address (c # s) = ''/aiexperiment/'' @ b"
      unfolding ai_address_def replaceFirst_Cons using True by (simp add: b)
    then show ?thesis unfolding b by (simp add: core_part_def)
  next
    case False
    then have found: "0 \<le> indexOf s core_part" using Cons.prems by (simp add: indexOf_nonneg_Cons)
    then obtain a b where ab: "s = a @ core_part @ b" "ai_address s = a @ ''/aiexperiment/'' @ b"
      unfolding ai_address_def using indexOf_sublist by blast
    have "\<not> prefix core_part (c # ai_address s)"
    proof
      assume *: "prefix core_part (c # ai_address s)"
      have eq1: "ai_address s = a @ CHR ''/'' # (''aiexperiment/'' @ b)" using ab(2) by simp
      have eq2: "s = a @ CHR ''/'' # (''experiment/'' @ b)" using ab(1) by (simp add: core_part_def)
      have "prefix (''experiment'' @ ''/'') (a @ CHR ''/'' # (''aiexperiment/'' @ b))"
        using * eq1 by (simp only: core_part_Cons)
      then have "prefix (''experiment'' @ ''/'') (a @ CHR ''/'' # (''experiment/'' @ b))"
        by (rule prefix_to_slash [rotated]) simp
      then have "prefix core_part (c # s)" using * eq2 by (simp only: core_part_Cons simp_thms)
      then show False using False by contradiction
    qed
    then have "occurrences core_part (c # ai_address s) = occurrences core_part (ai_address s)" by simp
    moreover have "ai_address (c # s) = c # ai_address s"
      unfolding ai_address_def replaceFirst_Cons using False by simp
    moreover have "occurrences core_part (c # s) = occurrences core_part s" using False by simp
    ultimately show ?thesis using Cons.IH [OF found] by simp
  qed
qed

lemma ai_redirect_step:
  assumes "\<not> nullish (rq_matchedExperiment req)" "matched_isAi (rq_matchedExperiment req)"
    "0 \<le> indexOf url core_part"
  shows "experiment_getParams api config url parse req = (req, Inl (Redirected (ai_address url) 302))"
  using assms by (simp add: experiment_getParams_def core_part_def ai_address_def)

lemma ai_redirects_reach:
  "\<exists>n \<le> occurrences core_part url. indexOf ((ai_address ^^ n) url) core_part < 0 \<and>
     (\<forall>k < n. 0 \<le> indexOf ((ai_address ^^ k) url) core_part)"
proof (induction "occurrences core_part url" arbitrary: url rule: less_induct)
  case less
  show ?case
  proof (cases "indexOf url core_part < 0")
    case True
    then show ?thesis by (intro exI [of _ 0]) simp
  next
    case False
    then have found: "0 \<le> indexOf url core_part" by simp
    obtain n where n: "n \<le> occurrences core_part (ai_address url)"
      "indexOf ((ai_address ^^ n) (ai_address url)) core_part < 0"
      "\<forall>k < n. 0 \<le> indexOf ((ai_address ^^ k) (ai_address url)) core_part"
      using less.hyps [OF ai_address_fewer [OF found]] by blast
    have "\<forall>k < Suc n. 0 \<le> indexOf ((ai_address ^^ k) url) core_part"
      using n(3) found by (auto simp: less_Suc_eq_0_disj funpow_swap1)
    then show ?thesis using n(1, 2) ai_address_fewer [OF found]
      by (intro exI [of _ "Suc n"]) (simp add: funpow_swap1)
  qed
qed

text \<open>C39: The redirects of an experiment of the other kind end. Say that at every address the experiment found is such
  a one, whatever request \<open>req\<close> the browser makes for an address and whichever page \<open>parse\<close> belongs to it: opened
  under an address of plain experiments, the page answers with a redirect to an address that has one wrong part
  less, and so on at most as often as the first address had such parts; at the last address the page is made
  without a redirect. Whether there is a page at that address is another matter.
\<close>

theorem ai_redirects_end:
  assumes "\<And>u. \<not> nullish (rq_matchedExperiment (req u))" "\<And>u. matched_isAi (rq_matchedExperiment (req u))"
  shows "\<exists>n \<le> occurrences core_part url.
    (\<forall>k < n. let u = (ai_address ^^ k) url in
       experiment_getParams api config u (parse u) (req u) = (req u, Inl (Redirected (ai_address u) 302))) \<and>
    (let u = (ai_address ^^ n) url in
       experiment_getParams api config u (parse u) (req u) = experiment_page api config (parse u) (req u))"
proof -
  obtain n where n: "n \<le> occurrences core_part url" "indexOf ((ai_address ^^ n) url) core_part < 0"
    "\<forall>k < n. 0 \<le> indexOf ((ai_address ^^ k) url) core_part"
    using ai_redirects_reach by blast
  have "experiment_getParams api config u (parse u) (req u) = experiment_page api config (parse u) (req u)"
    if "indexOf u core_part < 0" for u
    using that assms(1) [of u] by (simp add: experiment_getParams_def core_part_def)
  then show ?thesis
    using n ai_redirect_step [OF assms] by (intro exI [of _ n]) (simp add: Let_def)
qed

subsection \<open>Where the redirects lead\<close>

lemma path_parts_nonempty [simp]: "path_parts s \<noteq> []"
  by (cases s) (auto split: list.split)

lemma path_parts_slash: "CHR ''/'' \<notin> set i \<Longrightarrow> path_parts (i @ CHR ''/'' # s) = i # path_parts s"
  by (induction i) auto

lemma path_parts_plain: "CHR ''/'' \<notin> set i \<Longrightarrow> path_parts i = [i]"
  by (induction i) auto

text \<open>The pages of one experiment, by the end of their address.\<close>

definition page_ends :: "(string \<times> experiment_endpoint) list" where
  "page_ends =
     [([], ViewPage), (''/analysis'', AnalysisPage), (''/api'', ApiPage), (''/copy'', CopyPage),
      (''/history'', HistoryPage), (''/historydownload'', HistoryDownload), (''/properties'', PropertiesPage),
      (''/report'', ReportPage), (''/report/file'', ReportFile), (''/reset'', ResetPage),
      (''/suggestions'', SuggestionsPage), (''/admin'', AdminPage)]"

definition plain_id :: "string \<Rightarrow> bool" where
  "plain_id i = (i \<noteq> [] \<and> CHR ''/'' \<notin> set i)"

lemma route_of_parts:
  "route_of routes path =
     map_option snd (List.find (\<lambda>r. list_all2 part_fits (fst r) (path_parts path))
       (map (\<lambda>r. (path_parts (fst r), snd r)) routes))"
  unfolding route_of_def by (induction routes) simp_all

definition core_ends :: "(string list \<times> experiment_endpoint) list" where
  "core_ends =
     [([], ViewPage), ([''analysis''], AnalysisPage), ([''api''], ApiPage), ([''copy''], CopyPage),
      ([''history''], HistoryPage), ([''historydownload''], HistoryDownload), ([''properties''], PropertiesPage),
      ([''report''], ReportPage), ([''report'', ''file''], ReportFile), ([''reset''], ResetPage),
      ([''suggestions''], SuggestionsPage), ([''observation'', '':observationId'', ''run''], ObservationToRun),
      ([''admin''], AdminPage)]"

definition ai_ends :: "(string \<times> string list \<times> experiment_endpoint) list" where
  "ai_ends =
     [('':aiExperimentId'', [], ViewPage), ('':aiExperimentId'', [''analysis''], AnalysisPage),
      ('':aiExperimentId'', [''history''], HistoryPage), ('':aiExperimentId'', [''inform''], InformPage),
      ('':aiExperimentId'', [''properties''], PropertiesPage),
      ('':aiExperimentId'', [''observation'', '':observationId'', ''run''], ObservationToRun),
      ('':experimentId'', [''api''], ApiPage), ('':experimentId'', [''admin''], AdminPage)]"

text \<open>The first three parts of the patterns fit every address of a page; the rest of it decides.\<close>

lemma find_by_end:
  assumes "list_all (\<lambda>(param, parts, page). part_fits param i) ends"
  shows "map_option snd (List.find (\<lambda>r. list_all2 part_fits (fst r) ([] # e # i # rest))
      (map (\<lambda>(param, parts, page). ([] # e # param # parts, page)) ends)) =
    map_option snd (List.find (\<lambda>r. list_all2 part_fits (fst r) rest) (map snd ends))"
proof -
  have "part_fits p p" for p by (simp add: part_fits_def)
  then show ?thesis using assms by (induction ends) auto
qed

lemma core_route_parts:
  "map (\<lambda>r. (path_parts (fst r), snd r)) coreExperimentRoutes =
     map (\<lambda>(param, parts, page). ([] # ''experiment'' # param # parts, page))
       (map (Pair '':experimentId'') core_ends)"
  by code_simp

lemma ai_route_parts:
  "map (\<lambda>r. (path_parts (fst r), snd r)) aiExperimentRoutes =
     map (\<lambda>(param, parts, page). ([] # ''aiexperiment'' # param # parts, page)) ai_ends"
  by code_simp

lemma path_parts_page:
  assumes "plain_id i" "(end_of, page) \<in> set page_ends"
  shows "path_parts (''/experiment/'' @ i @ end_of) = [] # ''experiment'' # i # tl (path_parts end_of)"
    "path_parts (''/aiexperiment/'' @ i @ end_of) = [] # ''aiexperiment'' # i # tl (path_parts end_of)"
proof -
  have "path_parts (i @ end_of) = i # tl (path_parts end_of)"
  proof (cases end_of)
    case Nil
    then show ?thesis using assms(1) by (simp add: plain_id_def path_parts_plain)
  next
    case (Cons c s)
    then have "c = CHR ''/''" using assms(2) by (auto simp: page_ends_def)
    then show ?thesis using assms(1) Cons by (simp add: plain_id_def path_parts_slash)
  qed
  then show "path_parts (''/experiment/'' @ i @ end_of) = [] # ''experiment'' # i # tl (path_parts end_of)"
    "path_parts (''/aiexperiment/'' @ i @ end_of) = [] # ''aiexperiment'' # i # tl (path_parts end_of)"
    by simp_all
qed

lemma ai_address_page: "ai_address (''/experiment/'' @ x) = ''/aiexperiment/'' @ x"
  using replaceFirst_Cons [of "CHR ''/''" "''experiment/'' @ x" core_part "''/aiexperiment/''"]
  by (simp add: ai_address_def core_part_def)

definition without_counterpart :: "experiment_endpoint list" where
  "without_counterpart = [CopyPage, HistoryDownload, ReportPage, ReportFile, ResetPage, SuggestionsPage]"

lemma ends_found:
  "list_all (\<lambda>(end_of, page).
     map_option snd (List.find (\<lambda>r. list_all2 part_fits (fst r) (tl (path_parts end_of))) core_ends) = Some page \<and>
     map_option snd (List.find (\<lambda>r. list_all2 part_fits (fst r) (tl (path_parts end_of))) (map snd ai_ends)) =
       (if page \<in> set without_counterpart then None else Some page)) page_ends"
  by code_simp

lemma page_routes:
  assumes "plain_id i" "(end_of, page) \<in> set page_ends"
  shows "route_of coreExperimentRoutes (''/experiment/'' @ i @ end_of) = Some page"
    "route_of aiExperimentRoutes (''/aiexperiment/'' @ i @ end_of) =
      (if page \<in> set without_counterpart then None else Some page)"
proof -
  have i: "list_all (\<lambda>(param, parts, page). part_fits param i) (map (Pair '':experimentId'') core_ends)"
    "list_all (\<lambda>(param, parts, page). part_fits param i) ai_ends"
    using assms(1) by (simp_all add: part_fits_def plain_id_def core_ends_def ai_ends_def)
  have found: "map_option snd (List.find (\<lambda>r. list_all2 part_fits (fst r) (tl (path_parts end_of))) core_ends) = Some page"
    "map_option snd (List.find (\<lambda>r. list_all2 part_fits (fst r) (tl (path_parts end_of))) (map snd ai_ends)) =
       (if page \<in> set without_counterpart then None else Some page)"
    using ends_found assms(2) by (auto simp: list_all_iff)
  show "route_of coreExperimentRoutes (''/experiment/'' @ i @ end_of) = Some page"
    unfolding route_of_parts core_route_parts path_parts_page [OF assms] find_by_end [OF i(1)]
    by (simp add: comp_def found(1))
  show "route_of aiExperimentRoutes (''/aiexperiment/'' @ i @ end_of) =
      (if page \<in> set without_counterpart then None else Some page)"
    unfolding route_of_parts ai_route_parts path_parts_page [OF assms] find_by_end [OF i(2)]
    by (rule found(2))
qed



subsection \<open>Who may do what on the page of an experiment\<close>

lemma extend_params_result:
  assumes "extend_params own run = (req', Inr v)"
  shows "\<exists>w. run = (req', Inr w) \<and> (\<exists>ps. v = JObj (obj_extend ps own) \<or> v = JObj own)"
  using assms by (auto simp: extend_params_def split: prod.splits sum.splits jsval.splits)

lemma extend_params_get:
  assumes "extend_params own run = (req', Inr v)" "distinct (map fst own)" "(k, x) \<in> set own"
  shows "js_prop v k = x"
proof -
  have "obj_get own k = x" using assms(2, 3) by (simp add: obj_get_def)
  moreover have "k \<in> fst ` set own" using assms(3) by force
  ultimately have "obj_get (obj_extend ps own) k = x" for ps
    by (simp only: obj_get_extend [OF assms(2)] if_True)
  then show ?thesis
    using extend_params_result [OF assms(1)] \<open>obj_get own k = x\<close> by auto
qed

lemma find_permission_found:
  "find_permission key v ps = Inr (Some p) \<Longrightarrow> p \<in> set ps \<and> js_prop (js_prop p ''client'') key = v"
  by (induction key v ps rule: find_permission.induct)
    (auto simp: permission_client_def split: if_splits sum.splits)

lemma current_permission_found:
  assumes "current_permission client permissions = Inr p" "truthy p"
  shows "p \<in> set (array_items permissions) \<and> js_prop (js_prop p ''client'') ''id'' = client"
  using assms find_permission_found
  by (fastforce simp: current_permission_def split: sum.splits option.splits)

lemma loggedin_resolves:
  assumes "loggedin_getParams allowGuest parse req = (req', Inr v)"
  shows "truthy (userId (rq_login req)) \<or>
    allowGuest \<and> js_prop (rq_apiTokenDetail req) ''token_type'' = JStr ''guest''"
  using assms by (auto simp: loggedin_getParams_def split: if_splits)

lemma experiment_getParams_resolves:
  assumes "experiment_getParams api config url parse req = (req', Inr v)"
  obtains permissions permission w where
    "\<not> (matched_isAi (rq_matchedExperiment req) \<and> 0 \<le> indexOf url core_part)"
    "getPermissions api req (guest_request req) = Inr permissions"
    "current_permission (clientId (rq_login req)) permissions = Inr permission"
    "loggedin_getParams True parse req = (req', Inr w)"
    "extend_params (experiment_params config req permission) (loggedin_getParams True parse req) = (req', Inr v)"
proof -
  obtain permissions permission where *:
    "\<not> (matched_isAi (rq_matchedExperiment req) \<and> 0 \<le> indexOf url core_part)"
    "getPermissions api req (guest_request req) = Inr permissions"
    "current_permission (clientId (rq_login req)) permissions = Inr permission"
    "extend_params (experiment_params config req permission) (loggedin_getParams True parse req) = (req', Inr v)"
    using assms by (auto simp: experiment_getParams_def experiment_page_def core_part_def split: if_splits sum.splits)
  moreover obtain w where "loggedin_getParams True parse req = (req', Inr w)"
    using extend_params_result [OF *(4)] by blast
  ultimately show ?thesis using that by blast
qed

lemma experiment_params_distinct: "distinct (map fst (experiment_params config req permission))"
  by (simp add: experiment_params_def Let_def)

lemma getPermissions_nonempty:
  assumes "getPermissions api req guest = Inr permissions" "p \<in> set (array_items permissions)"
  shows "\<not> truthy guest \<and>
    call_api api req (FetchAll [(''users'', [userId (rq_login req)]), (''permissions'', [])]) = Inr permissions"
  using assms by (auto simp: getPermissions_def split: if_splits)

text \<open>C38: A page of an experiment is shown to a user who is logged in or to a guest. It offers to edit or to share
  only to one who is no guest and whom the API gives the permission to write for the team acted on; editing
  moreover needs a current user and an experiment that is not deleted, and sharing that the configuration has
  not turned it off. An experiment of the other kind is not shown under the addresses of plain experiments.
\<close>

theorem experiment_page_rights:
  assumes "experiment_getParams api config url parse req = (req', Inr v)"
  shows "(truthy (userId (rq_login req)) \<or> truthy (guest_request req)) \<and>
    (matched_isAi (rq_matchedExperiment req) \<longrightarrow> indexOf url core_part < 0) \<and>
    (truthy (js_prop v ''canEdit'') \<or> truthy (js_prop v ''canShare'') \<longrightarrow>
      \<not> truthy (guest_request req) \<and>
      (\<exists>permissions. \<exists>p \<in> set (array_items permissions).
        call_api api req (FetchAll [(''users'', [userId (rq_login req)]), (''permissions'', [])]) = Inr permissions \<and>
        js_prop (js_prop p ''client'') ''id'' = clientId (rq_login req) \<and> truthy (js_prop p ''can_write''))) \<and>
    (truthy (js_prop v ''canEdit'') \<longrightarrow>
      js_prop (rq_matchedExperiment req) ''state'' \<noteq> JStr ''deleted'' \<and> truthy (rq_currentUser req)) \<and>
    (truthy (js_prop v ''canShare'') \<longrightarrow> truthy (config ''features.shareLinks'' (JBool True)))"
proof -
  obtain permissions permission w where got:
    "\<not> (matched_isAi (rq_matchedExperiment req) \<and> 0 \<le> indexOf url core_part)"
    "getPermissions api req (guest_request req) = Inr permissions"
    "current_permission (clientId (rq_login req)) permissions = Inr permission"
    "loggedin_getParams True parse req = (req', Inr w)"
    "extend_params (experiment_params config req permission) (loggedin_getParams True parse req) = (req', Inr v)"
    using assms by (rule experiment_getParams_resolves)
  note own_field = extend_params_get [OF got(5) experiment_params_distinct]
  have edit: "js_prop v ''canEdit'' = JBool (canModifyExperiment (rq_matchedExperiment req) (rq_currentUser req)
      permission (guest_request req))"
    by (rule own_field) (simp add: experiment_params_def Let_def)
  have share: "js_prop v ''canShare'' = share_allowed config permission"
    by (rule own_field) (simp add: experiment_params_def Let_def)
  have writes: "truthy permission \<and> truthy (js_prop permission ''can_write'')"
    if "truthy (js_prop v ''canEdit'') \<or> truthy (js_prop v ''canShare'')"
    using that by (auto simp: edit share canModifyExperiment_def share_allowed_def js_and_def split: if_splits)
  have allowed: "\<not> truthy (guest_request req) \<and>
      (\<exists>permissions. \<exists>p \<in> set (array_items permissions).
        call_api api req (FetchAll [(''users'', [userId (rq_login req)]), (''permissions'', [])]) = Inr permissions \<and>
        js_prop (js_prop p ''client'') ''id'' = clientId (rq_login req) \<and> truthy (js_prop p ''can_write''))"
    if "truthy (js_prop v ''canEdit'') \<or> truthy (js_prop v ''canShare'')"
    using writes [OF that] current_permission_found [OF got(3)] getPermissions_nonempty [OF got(2)] by blast
  have "truthy (userId (rq_login req)) \<or> truthy (guest_request req)"
    using loggedin_resolves [OF got(4)]
    by (cases "rq_apiTokenDetail req") (auto simp: guest_request_def js_and_def js_prop_def)
  moreover have "truthy (js_prop v ''canShare'') \<longrightarrow> truthy (config ''features.shareLinks'' (JBool True))"
    by (auto simp: share share_allowed_def js_and_def split: if_splits)
  moreover have "truthy (js_prop v ''canEdit'') \<longrightarrow>
      js_prop (rq_matchedExperiment req) ''state'' \<noteq> JStr ''deleted'' \<and> truthy (rq_currentUser req)"
    by (simp add: edit canModifyExperiment_def)
  moreover have "matched_isAi (rq_matchedExperiment req) \<longrightarrow> indexOf url core_part < 0"
    using got(1) by (simp add: not_le)
  ultimately show ?thesis using allowed by (intro conjI impI) blast+
qed

subsection \<open>Witnesses, and the other pages of an experiment\<close>

definition member :: login_state where
  "member = LoginState (JStr ''t'') (JStr ''1'') (JStr ''c'') JUndef (JStr ''5'') (NoParent JNull) (JStr ''u'')"

text \<open>An API at which the user may write for the team \<open>1\<close>, and a request for an experiment of the team \<open>9\<close>.\<close>

definition writer_api :: page_api where
  "writer_api token c =
     (case c of
        FetchAll path \<Rightarrow> Inr (JArr [JObj [(''client'', JObj [(''id'', JStr ''1'')]), (''can_write'', JBool True)]])
      | _ \<Rightarrow> Inr (JObj []))"

definition page_request :: "jsobj \<Rightarrow> nat http_request" where
  "page_request experiment =
     (new_request ''GET'' ''/experiment/7'' member)\<lparr>rq_currentUser := JObj [(''id'', JStr ''u'')],
        rq_apiTokenDetail := JObj [(''token_type'', JStr ''user'')], rq_matchedExperiment := JObj experiment\<rparr>"

definition no_page :: "nat http_request \<Rightarrow> nat endpoint_run" where
  "no_page req = (req, Inr (JObj []))"

definition other_team :: jsobj where
  "other_team = [(''id'', JStr ''7''), (''client'', JStr ''9''), (''state'', JStr ''active'')]"

definition no_config :: page_config where
  "no_config key defaultValue = defaultValue"

lemma other_team_run:
  "\<exists>req' v. experiment_getParams writer_api no_config ''/experiment/7'' no_page (page_request other_team) = (req', Inr v)
     \<and> js_prop v ''canEdit'' = JBool True"
proof -
  have "case snd (experiment_getParams writer_api no_config ''/experiment/7'' no_page (page_request other_team)) of
      Inl e \<Rightarrow> False | Inr v \<Rightarrow> js_prop v ''canEdit'' = JBool True" by code_simp
  then show ?thesis
    by (cases "experiment_getParams writer_api no_config ''/experiment/7'' no_page (page_request other_team)")
      (auto split: sum.splits)
qed

lemma experiment_page_rights_witness:
  "\<not> truthy (guest_request (page_request other_team)) \<and>
    (\<exists>permissions. \<exists>p \<in> set (array_items permissions).
      call_api writer_api (page_request other_team)
        (FetchAll [(''users'', [userId (rq_login (page_request other_team))]), (''permissions'', [])]) = Inr permissions \<and>
      js_prop (js_prop p ''client'') ''id'' = clientId (rq_login (page_request other_team)) \<and>
      truthy (js_prop p ''can_write''))"
proof -
  obtain req' v where run: "experiment_getParams writer_api no_config ''/experiment/7'' no_page (page_request other_team)
      = (req', Inr v)" and edit: "js_prop v ''canEdit'' = JBool True"
    using other_team_run by blast
  have "truthy (js_prop v ''canEdit'')" by (simp add: edit)
  then show ?thesis using experiment_page_rights [OF run] by blast
qed

text \<open>
  The permission is that for the team acted on, whatever the team of the experiment: the page offers to edit an
  experiment of another team. On the page of a run the two are compared.
\<close>

lemma experiment_of_other_team_editable:
  "\<exists>req' v. experiment_getParams writer_api no_config ''/experiment/7'' no_page (page_request other_team) = (req', Inr v)
     \<and> js_prop v ''canEdit'' = JBool True
     \<and> js_prop (rq_matchedExperiment (page_request other_team)) ''client'' \<noteq> clientId (rq_login (page_request other_team))"
  using other_team_run by (simp add: page_request_def other_team_def member_def new_request_def)

lemma run_of_other_team_not_editable:
  assumes "current_permission client permissions = Inr p" "canModifyRun run p guest"
  shows "js_prop run ''client'' = client"
  using current_permission_found [OF assms(1)] assms(2) by (simp add: canModifyRun_def)

definition ai_experiment :: jsobj where
  "ai_experiment = [(''id'', JStr ''7''), (''object'', JStr ''aiexperiment'')]"

lemma ai_redirects_end_witness:
  "\<exists>n \<le> 2.
    (\<forall>k < n. let u = (ai_address ^^ k) ''/experiment/7?from=/experiment/8'' in
       experiment_getParams writer_api no_config u no_page (page_request ai_experiment\<lparr>rq_path := u\<rparr>) =
         (page_request ai_experiment\<lparr>rq_path := u\<rparr>, Inl (Redirected (ai_address u) 302))) \<and>
    (let u = (ai_address ^^ n) ''/experiment/7?from=/experiment/8'' in
       experiment_getParams writer_api no_config u no_page (page_request ai_experiment\<lparr>rq_path := u\<rparr>) =
         experiment_page writer_api no_config no_page (page_request ai_experiment\<lparr>rq_path := u\<rparr>))"
proof -
  have n: "occurrences core_part ''/experiment/7?from=/experiment/8'' = 2" by code_simp
  have "\<not> nullish (rq_matchedExperiment (page_request ai_experiment\<lparr>rq_path := u\<rparr>))"
    "matched_isAi (rq_matchedExperiment (page_request ai_experiment\<lparr>rq_path := u\<rparr>))" for u
    by (simp_all add: page_request_def nullish_def matched_isAi_def ai_experiment_def)
  from ai_redirects_end [where req = "\<lambda>u. page_request ai_experiment\<lparr>rq_path := u\<rparr>", OF this,
      of "''/experiment/7?from=/experiment/8''" writer_api no_config "\<lambda>u. no_page"]
  show ?thesis unfolding n .
qed

subsection \<open>Resetting an experiment\<close>

lemma reset_calls:
  assumes "reset_parse api req = (calls, req', answer)"
  shows "req' = req \<and> (\<exists>e. answer = Inl e) \<and>
    (rq_method req \<noteq> ''POST'' \<longrightarrow> calls = []) \<and>
    (let experiment = (''experiments'', [js_prop (rq_matchedExperiment req) ''id'']) in
      set calls \<subseteq> {DeleteOne [experiment, (''observations'', [])], DeleteOne [experiment, (''suggestions'', [])]} \<and>
      (DeleteOne [experiment, (''suggestions'', [])] \<in> set calls \<longrightarrow>
        (\<exists>v. call_api api req (DeleteOne [experiment, (''observations'', [])]) = Inr v)))"
proof -
  define path where "path name = [(''experiments'', [js_prop (rq_matchedExperiment req) ''id'']), (name, [])]" for name :: string
  define first where "first = call_api api req (DeleteOne (path ''observations''))"
  define second where "second = call_api api req (DeleteOne (path ''suggestions''))"
  have "reset_deletes api req =
      (if rq_method req = ''POST'' then
         (case first of
            Inl e \<Rightarrow> ([DeleteOne (path ''observations'')], Inl e)
          | Inr _ \<Rightarrow> ([DeleteOne (path ''observations''), DeleteOne (path ''suggestions'')], second))
       else ([], Inr JNull))"
    unfolding reset_deletes_def path_def first_def second_def Let_def by (rule refl)
  then have "req' = req \<and> (\<exists>e. answer = Inl e) \<and> (rq_method req \<noteq> ''POST'' \<longrightarrow> calls = []) \<and>
      set calls \<subseteq> {DeleteOne (path ''observations''), DeleteOne (path ''suggestions'')} \<and>
      (DeleteOne (path ''suggestions'') \<in> set calls \<longrightarrow> (\<exists>v. first = Inr v))"
    using assms
    by (cases first; cases second) (auto simp: reset_parse_def path_def split: if_splits)
  then show ?thesis by (simp add: path_def first_def Let_def)
qed

text \<open>When the second call fails, the observations are gone and the suggestions are not.\<close>

lemma reset_half_done:
  assumes "rq_method req = ''POST''"
    "call_api api req (DeleteOne [(''experiments'', [js_prop (rq_matchedExperiment req) ''id'']), (''observations'', [])]) = Inr v"
    "call_api api req (DeleteOne [(''experiments'', [js_prop (rq_matchedExperiment req) ''id'']), (''suggestions'', [])]) = Inl e"
  shows "\<exists>calls. length calls = 2 \<and> reset_parse api req = (calls, req, Inl e)"
  using assms by (simp add: reset_parse_def reset_deletes_def Let_def)

subsection \<open>Objects that may not be seen\<close>

lemma null_when_cases:
  "null_when codes answer = Inl e \<longleftrightarrow> answer = Inl e \<and> \<not> status_in codes e"
  "null_when codes answer = Inr v \<longleftrightarrow> answer = Inr v \<or> (v = JNull \<and> (\<exists>e. answer = Inl e \<and> status_in codes e))"
  by (auto simp: null_when_def split: sum.splits)

text \<open>The properties page still shows the project of an experiment to one who may not list the projects.\<close>

lemma projects_forbidden:
  assumes "truthy experiment" "truthy (js_prop experiment ''client'')"
    "call_api api req (FetchAll [(''clients'', [js_prop experiment ''client'']), (''projects'', [])]) = Inl e"
    "status_in [403, 404] e" "experiment_fetchProject api req experiment = Inr p"
  shows "experiment_fetchProjects api req experiment =
    Inr (JObj [(''currentProject'', p), (''projects'', JNull)])"
  using assms by (simp add: experiment_fetchProjects_def)

text \<open>The page for administrators fails for an experiment without a client, whatever the API answers.\<close>

lemma admin_without_client_throws:
  assumes "\<not> truthy (js_prop (rq_matchedExperiment req) ''client'')"
    "admin_fetchUser api req (js_prop (rq_matchedExperiment req) ''user'') = Inr u"
  shows "snd (experimentAdmin_parse api [0, 1] req) = Inl (Thrown TypeError)"
  using assms
  by (simp add: experimentAdmin_parse_def fetchClientAndOrganization_def promise_all_def nullish_def Let_def)

end
