(* ===== verification/Spec2Isabelle.thy ===== *)
theory Spec2Isabelle
  imports Pageable Pipeline Api Sources Users EditorInputs ExpList Dashboards Alerts ChartData CodeGen Suggestions ParallelChart ObjectPages
begin

text \<open>
  \<^bold>\<open>A verification library for the web client and web server of sigopt-server.\<close>

  The repository holds a service for the optimization of experiments: an API in Python, and under
  \<open>src/web/js\<close> the web application, a server (Express) that renders the pages and the client code that
  runs in them (React, underscore). This library is about the JavaScript code.

  \<^bold>\<open>How the program hangs together.\<close> A request of a browser runs through the stack of handlers of
  \<open>server/express/app.js\<close>: the cookie jar loads the session, the handlers around it find the user, the
  token, the team and the objects that the path names, an endpoint of \<open>pages/\<close> decides what is shown or
  redirects, and the handlers at the end send exactly one response and store the session back. The page
  that is sent runs in the browser: its components fetch data with the API clients of \<open>api/\<close>, page
  through lists (\<open>net/paging.js\<close>, \<open>pagination/\<close>), poll, keep the history of the browser
  (\<open>net/history.js\<close>), and let users edit experiments, observations and permissions.

  \<^bold>\<open>The theories\<close>, in the order of their imports. A definition carries the name of the function it
  models, or that of its component and function where the name is taken.

  \<^item> \<open>Prelude\<close>: values of the language, objects as association lists, errors and promises as values,
    collections of rules.
  \<^item> \<open>Utils\<close> (\<open>utils.js\<close>): null tests, numbers read from text, cleaning of JSON, text replacement,
    colours on machine words, delayed loops.
  \<^item> \<open>Paging\<close> (\<open>net/list.js\<close>, \<open>paging.js\<close>, \<open>streaming_pager.js\<close>): the pager over a list, its two clients;
    the locale \<open>pager\<close> states the contract between them and is interpreted on the pager in both
    directions.
  \<^item> \<open>Pageable\<close> (\<open>pagination/\<close>): a paged component with its requests under way, as a step relation over
    user actions and answers in any order; its buttons.
  \<^item> \<open>Errors\<close> (\<open>net/errors.js\<close>, \<open>redirect.js\<close>, \<open>response.js\<close>): what handlers and endpoints reject with.
  \<^item> \<open>Session\<close> (\<open>session/\<close>, \<open>server/csrf.js\<close>, \<open>user_prefs.js\<close>): login states, their parents, JSON form, push
    and pop.
  \<^item> \<open>Middleware\<close> (\<open>server/express/\<close>): the handlers that prepare a request.
  \<^item> \<open>Endpoints\<close> (\<open>pages/landing\<close>, \<open>pages/session\<close>, \<open>pages/guest\<close>, \<open>server/endpoint\<close>): login, logout, push,
    pop and guest links.
  \<^item> \<open>Cookies\<close> (\<open>server/express/cookie.js\<close>, \<open>server/cookie/\<close>): the cookie jar.
  \<^item> \<open>Pipeline\<close> (\<open>server/express/app.js\<close>, \<open>routes.js\<close> and the handlers installed): the stack, sending as
    Node does it (a second response throws), the page of an error.
  \<^item> \<open>Api\<close> (\<open>api/\<close>): the requestor with its retry, the loose arguments of the legacy client, the paths of
    the promise client.
  \<^item> \<open>Sources\<close> (\<open>net/source.js\<close>, \<open>poller.js\<close>, \<open>history.js\<close>, \<open>visibility.js\<close>, \<open>pool.js\<close>, \<open>session.js\<close>).
  \<^item> \<open>Experiment\<close> (\<open>experiment/ui.js\<close>): metrics, thresholds, conditions, assignments, typed numbers.
  \<^item> \<open>Users\<close> (\<open>user/\<close>, \<open>pages/organization/\<close>): who sees the pages of an organization, and the page on
    which its users are managed, with its objects mutated in place.
  \<^item> \<open>Editable\<close>, \<open>Editor\<close>, \<open>EditorInputs\<close> (\<open>component/make-editable.js\<close>, \<open>make-submittable.js\<close>,
    \<open>experiment/editor.js\<close>, \<open>parameter.js\<close>, \<open>metadata.js\<close>, \<open>conditionals/input.js\<close>): forms as a state machine
    over cells that fields share and change in place, the form of an experiment, and its inputs.
  \<^item> \<open>ExpList\<close> (\<open>pages/experiment/list/\<close>, \<open>pages/projects/page.js\<close>): the lists of experiments and projects
    with their addresses and history.
  \<^item> \<open>Dimensions\<close> (\<open>data/dimensions.js\<close>): what the dashboards can plot of a set of runs.
  \<^item> \<open>RunsState\<close> (\<open>state/dimensions_slice.js\<close>, \<open>training_run/fetch.js\<close>): the store of runs, its filters
    and selections, as a state machine.
  \<^item> \<open>Widgets\<close>, \<open>Dashboards\<close> (\<open>project/components/\<close>, \<open>project/state/\<close>): colours, states and layout of the
    widgets; the dashboards built from them, kept, selected and saved.
  \<^item> \<open>Alerts\<close> (\<open>alert/\<close>, \<open>user/data_source.js\<close>, \<open>modal/raw.js\<close>): the broker of messages to the user, the
    errors shown, and the dialogs on which they are shown.
  \<^item> \<open>BulkData\<close> (\<open>pages/experiment/core/bulkdownload\<close>, \<open>bulkupload\<close>, \<open>copy\<close>): observations as tables, read
    back and sent in batches; the copy of an experiment.
  \<^item> \<open>Charts\<close>, \<open>ChartData\<close>, \<open>ParallelChart\<close> (\<open>chart/\<close>, \<open>react_chart/\<close>): values, thresholds, traces, the groups of
    observations each chart of the pages draws, its axes, and parallel coordinates.
  \<^item> \<open>CodeGen\<close> (\<open>pages/docs/codegen.js\<close>, \<open>component/code_generator/\<close>): the Python and JSON shown, with a reader of it.
  \<^item> \<open>Suggestions\<close> (\<open>suggestion/\<close>, \<open>queued_suggestion/\<close>, \<open>experiment/observation_modal.js\<close>): the page of
    suggestions with its polling, and the three modals with their requests.
  \<^item> \<open>ObjectPages\<close> (\<open>pages/experiment/\<close>, \<open>training_run/\<close>, \<open>project/\<close>, \<open>server/routes/app.js\<close>): who may do what
    on the pages of an object, their data, and the redirects between the two kinds of experiments.

  \<^bold>\<open>State and operations.\<close> The state of a component or service is a record; an operation is a function
  from the record to the record it leaves, with what it emits; an operation of the code that waits is two
  definitions, one for what it does before the answer and one for after. Components with answers under
  way are inductive step relations, so theorems about them hold for every order of answers. Errors are
  values of a sum type. Objects that the code mutates through several references live in an explicit
  heap (\<open>HistoryTracker\<close>, \<open>Editable\<close>) or carry their identity (\<open>Users\<close>).

  \<^bold>\<open>Interfaces.\<close> Three contracts are locales of the library: \<open>pager\<close> (\<open>Paging\<close>), \<open>invariant_system\<close> and
  \<open>started_system\<close> (\<open>Prelude\<close>: a step relation whose steps keep an invariant, and one with a start
  state). They are interpreted on the pager and its two clients, on the form of an experiment (three
  invariants of it), on the store of runs and on the dialogs; the theorems about every reachable state
  rest on the facts of these interpretations.

  \<^bold>\<open>What is a parameter.\<close> The API and the network (answers are arguments), Express (a dispatcher with
  its documented laws), the object store behind the cookie jar, JSON text and base64, the parsing of
  addresses, the comparison \<open>natural-compare-lite\<close>, random keys and tokens, the text form of numbers and
  the logarithm of the charts, \<open>sortBy\<close> on values of mixed types, the reading and writing of comma-separated text,
  the fixed texts around generated code, the configuration of the server (of the package \<open>sigopt-config\<close>), and the
  rendering of a page to text, which may fail. Their laws are hypotheses of the theorems, and the witnesses discharge them on concrete
  functions.

  \<^bold>\<open>What the lemmas show.\<close> The properties C1 to C40 stand before their theorems. In groups: every page
  a paged component shows is the right slice and is always loaded in the end; a request that is not for
  the documentation gets at most one response, and exactly one unless the page of an error cannot be made; a bad
  token never reaches an endpoint; what a response stores is what the next request
  reads; sessions pop to exactly what was pushed; a call of the API reports once; data sources, pollers
  and the history do what their clients rely on; the forms send what was typed, can always be sent, and
  cancelling puts back what was there, as far as JSON keeps it; the page of users refines a map from addresses to relations. Where
  the code does something else than it means to, the theorem states what it does.

  \<^bold>\<open>Bounds and fuel.\<close> Loops over lists recurse on them. \<open>exhaustivelyPage\<close> may not end (a limit of zero)
  and is a \<open>partial_function\<close>; theorems about it show that it returns. Numbers are rationals, since the
  modelled code computes only with integers far below \<open>2 ^ 53\<close> and compares doubles, each of which is a
  rational; text that reads as a number beyond the range of a double is not a number. Page numbers in
  addresses are below \<open>10 ^ 21\<close>, from where on the language prints them with an exponent.

  \<^bold>\<open>Not modelled.\<close> The rendering of React components, the drawing of charts (plotly, d3) and grids
  (ag-grid), since their meaning is that of third-party libraries; the account pages, which send one request
  each, and the joining of a team on signing up; the matching of paths by Express, but for the routes of the
  pages of an experiment; the documentation pages, which are templates of text; the webpack configuration; the number formatting that
  needs the shortest decimal form of a double; logging, tracing, timeouts and static files of the server.
  The Python API is a parameter here.
\<close>

end
